(* ===== verification/QName.thy ===== *)
theory QName
  imports Prelude
begin

text \<open>
  \<open>src/src/qname.rs\<close>: qualified names, the key type of the routing table and of
  the type registry, with their two constructors and the \<open>{uri}local\<close> display form
  that error messages use.
\<close>

record qname =
  namespace :: "string option"
  local_name :: string

definition qname_new :: "string \<Rightarrow> string \<Rightarrow> qname" where
  "qname_new ns l = \<lparr>namespace = Some ns, local_name = l\<rparr>"

definition qname_local :: "string \<Rightarrow> qname" where
  "qname_local l = \<lparr>namespace = None, local_name = l\<rparr>"

definition qname_to_string :: "qname \<Rightarrow> string" where
  "qname_to_string q =
     (case namespace q of
        Some ns \<Rightarrow> ''{'' @ ns @ ''}'' @ local_name q
      | None \<Rightarrow> local_name q)"

lemma qname_new_inject [simp]: "qname_new ns l = qname_new ns' l' \<longleftrightarrow> ns = ns' \<and> l = l'"
  by (simp add: qname_new_def)

lemma qname_local_inject [simp]: "qname_local l = qname_local l' \<longleftrightarrow> l = l'"
  by (simp add: qname_local_def)

lemma qname_new_not_local [simp]: "qname_new ns l \<noteq> qname_local l'" "qname_local l' \<noteq> qname_new ns l"
  by (simp_all add: qname_new_def qname_local_def)

lemma qname_sel [simp]:
  "namespace (qname_new ns l) = Some ns" "local_name (qname_new ns l) = l"
  "namespace (qname_local l) = None" "local_name (qname_local l) = l"
  by (simp_all add: qname_new_def qname_local_def)

lemma qname_cases_new_local: obtains (new) ns l where "q = qname_new ns l" | (local) l where "q = qname_local l"
  by (cases q; cases "namespace q") (auto simp: qname_new_def qname_local_def)

text \<open>
  The display form identifies a qualified name as long as namespace URIs hold no closing
  brace and unqualified local names do not open with a brace, as in well-formed XML names.
\<close>

definition qname_printable :: "qname \<Rightarrow> bool" where
  "qname_printable q \<longleftrightarrow>
     (case namespace q of Some ns \<Rightarrow> CHR ''}'' \<notin> set ns | None \<Rightarrow> take 1 (local_name q) \<noteq> ''{'')"

lemma append_sep_inject:
  "c \<notin> set a \<Longrightarrow> c \<notin> set a' \<Longrightarrow> a @ c # b = a' @ c # b' \<longleftrightarrow> a = a' \<and> b = b'"
proof (induction a arbitrary: a')
  case Nil
  then show ?case by (cases a') auto
next
  case (Cons x a)
  then show ?case by (cases a') auto
qed

lemma qname_to_string_inject:
  assumes "qname_printable p" "qname_printable q"
  shows "qname_to_string p = qname_to_string q \<longleftrightarrow> p = q"
  using assms
  by (cases p rule: qname_cases_new_local; cases q rule: qname_cases_new_local)
    (auto simp: qname_printable_def qname_to_string_def append_sep_inject)

end
