(* ===== verification/WsdlDefs.thy ===== *)
theory WsdlDefs
  imports QName
begin

text \<open>
  \<open>src/src/wsdl/definitions.rs\<close>: the WSDL 1.1 document as the parser leaves it.
  Tables keyed by name are hash maps in their iteration order.
\<close>

datatype soap_version = Soap11 | Soap12

datatype binding_style = Document | Rpc

datatype use_style = Literal | Encoded

datatype operation_style = OneWay | RequestResponse | SolicitResponse | Notification

record types_section =
  schemas :: "string list"

record message_part =
  mp_name :: string
  mp_element :: "qname option"
  mp_type_ref :: "qname option"

record message =
  msg_name :: string
  parts :: "message_part list"

record operation_message =
  om_name :: "string option"
  om_message :: qname

record operation_fault =
  of_name :: string
  of_message :: qname

record operation =
  op_name :: string
  op_input :: "operation_message option"
  op_output :: "operation_message option"
  op_faults :: "operation_fault list"
  op_style :: operation_style

record port_type =
  pt_name :: string
  pt_operations :: "operation list"

record soap_binding =
  sb_style :: binding_style
  sb_transport :: string
  sb_soap_version :: soap_version

record soap_body =
  use_attr :: use_style
  body_namespace :: "string option"
  encoding_style :: "string option"

record soap_header =
  sh_message :: qname
  sh_part :: string

record binding_message =
  bm_body :: soap_body
  bm_headers :: "soap_header list"

record binding_operation =
  bo_name :: string
  bo_soap_action :: string
  bo_input :: binding_message
  bo_output :: binding_message

record binding =
  b_name :: string
  b_port_type :: qname
  b_soap_binding :: soap_binding
  b_operations :: "binding_operation list"

record port =
  port_name :: string
  port_binding :: qname
  port_address :: string

record service =
  svc_name :: string
  ports :: "port list"

record wsdl_import =
  imp_namespace :: string
  imp_location :: "string option"

record wsdl_definition =
  target_namespace :: string
  wsdl_imports :: "wsdl_import list"
  wsdl_types :: types_section
  messages :: "(string, message) hashmap"
  port_types :: "(string, port_type) hashmap"
  bindings :: "(string, binding) hashmap"
  services :: "(string, service) hashmap"

end
