(* ===== verification/RustStr.thy ===== *)
theory RustStr
  imports Prelude
begin

text \<open>
  The part of Rust's standard library on strings that the program uses, over byte lists:
  UTF-8 decoding (strict and lossy), searching, splitting, trimming and parsing of
  unsigned integers. A Rust \<open>String\<close> is its UTF-8 bytes, so \<open>len\<close> is the length
  of the list.
\<close>

section \<open>UTF-8\<close>

text \<open>
  The first code point of a byte string: how many bytes it takes and whether they are a
  well-formed encoding. For an ill-formed start, the count is the maximal prefix that
  \<open>String::from_utf8_lossy\<close> replaces by one replacement character.
\<close>

definition byte :: "char \<Rightarrow> nat" where
  "byte c = of_char c"

definition in_range :: "nat \<Rightarrow> nat \<Rightarrow> char \<Rightarrow> bool" where
  "in_range lo hi c \<longleftrightarrow> lo \<le> byte c \<and> byte c \<le> hi"

fun cont_run :: "nat \<Rightarrow> nat \<Rightarrow> bytes \<Rightarrow> nat \<times> bool" where
  "cont_run n k [] = (k, n = 0)"
| "cont_run 0 k (c # cs) = (k, True)"
| "cont_run (Suc n) k (c # cs) =
     (if in_range 0x80 0xBF c then cont_run n (Suc k) cs else (k, False))"

definition utf8_second :: "nat \<Rightarrow> nat \<Rightarrow> nat \<Rightarrow> bytes \<Rightarrow> nat \<times> bool" where
  "utf8_second lo hi n cs =
     (case cs of
        [] \<Rightarrow> (1, False)
      | c # cs' \<Rightarrow> if in_range lo hi c then cont_run n 2 cs' else (1, False))"

definition utf8_head :: "char \<Rightarrow> bytes \<Rightarrow> nat \<times> bool" where
  "utf8_head c cs =
     (let b = byte c in
      if b < 0x80 then (1, True)
      else if 0xC2 \<le> b \<and> b \<le> 0xDF then utf8_second 0x80 0xBF 0 cs
      else if b = 0xE0 then utf8_second 0xA0 0xBF 1 cs
      else if b = 0xED then utf8_second 0x80 0x9F 1 cs
      else if 0xE1 \<le> b \<and> b \<le> 0xEF then utf8_second 0x80 0xBF 1 cs
      else if b = 0xF0 then utf8_second 0x90 0xBF 2 cs
      else if 0xF1 \<le> b \<and> b \<le> 0xF3 then utf8_second 0x80 0xBF 2 cs
      else if b = 0xF4 then utf8_second 0x80 0x8F 2 cs
      else (1, False))"

lemma cont_run_ge: "k \<le> fst (cont_run n k cs)"
  by (induction n k cs rule: cont_run.induct) auto

lemma utf8_head_pos: "0 < fst (utf8_head c cs)"
proof -
  have "0 < fst (utf8_second lo hi n cs)" for lo hi n
    using less_le_trans [OF _ cont_run_ge [of 2 n]] by (auto simp: utf8_second_def split: list.split)
  then show ?thesis by (simp add: utf8_head_def Let_def)
qed

lemma utf8_head_pos': "(n, ok) = utf8_head c cs \<Longrightarrow> 0 < n"
  using utf8_head_pos [of c cs] by (metis fst_conv)

function utf8_valid :: "bytes \<Rightarrow> bool" where
  "utf8_valid [] = True"
| "utf8_valid (c # cs) =
     (case utf8_head c cs of (n, ok) \<Rightarrow> ok \<and> utf8_valid (drop n (c # cs)))"
  by pat_completeness auto
termination
  by (relation "measure length") (auto dest: utf8_head_pos')

declare utf8_valid.simps(2) [simp del]

text \<open>\<open>U+FFFD\<close> in UTF-8.\<close>

definition replacement_char :: bytes where
  "replacement_char = [char_of (0xEF :: nat), char_of (0xBF :: nat), char_of (0xBD :: nat)]"

function from_utf8_lossy :: "bytes \<Rightarrow> string" where
  "from_utf8_lossy [] = []"
| "from_utf8_lossy (c # cs) =
     (case utf8_head c cs of (n, ok) \<Rightarrow>
        (if ok then take n (c # cs) else replacement_char) @ from_utf8_lossy (drop n (c # cs)))"
  by pat_completeness auto
termination
  by (relation "measure length") (auto dest: utf8_head_pos')

declare from_utf8_lossy.simps(2) [simp del]

text \<open>\<open>std::str::from_utf8\<close> and the ubiquitous \<open>from_utf8(..).unwrap_or("")\<close>.\<close>

definition from_utf8 :: "bytes \<Rightarrow> string option" where
  "from_utf8 s = (if utf8_valid s then Some s else None)"

definition utf8_or_empty :: "bytes \<Rightarrow> string" where
  "utf8_or_empty s = (case from_utf8 s of None \<Rightarrow> [] | Some t \<Rightarrow> t)"

text \<open>The decimal \<open>Display\<close> of an unsigned integer.\<close>

fun nat_to_string :: "nat \<Rightarrow> string" where
  "nat_to_string n =
     (if n < 10 then [char_of (48 + n)] else nat_to_string (n div 10) @ [char_of (48 + n mod 10)])"

declare nat_to_string.simps [simp del]

lemma nat_to_string_not_Nil [simp]: "nat_to_string n \<noteq> []" "[] \<noteq> nat_to_string n"
  by (subst nat_to_string.simps, simp)+

lemma nat_to_string_digits: "c \<in> set (nat_to_string n) \<Longrightarrow> \<exists>d < 10. c = char_of (48 + d :: nat)"
proof (induction n rule: less_induct)
  case (less n)
  show ?case
  proof (cases "n < 10")
    case True
    with less.prems show ?thesis by (subst (asm) nat_to_string.simps) auto
  next
    case False
    with less.prems have "c \<in> set (nat_to_string (n div 10)) \<or> c = char_of (48 + n mod 10)"
      by (subst (asm) nat_to_string.simps) auto
    with less.IH [of "n div 10"] False show ?thesis by force
  qed
qed

text \<open>
  The \<open>Display\<close> of a \<open>Utf8Error\<close>: the ill-formed part is incomplete when it is a
  prefix of a character that runs into the end of the input.
\<close>

function utf8_error_at :: "nat \<Rightarrow> bytes \<Rightarrow> string" where
  "utf8_error_at i [] = []"
| "utf8_error_at i (c # cs) =
     (case utf8_head c cs of (n, ok) \<Rightarrow>
        if ok then utf8_error_at (i + n) (drop n (c # cs))
        else if drop n (c # cs) = [] \<and> in_range 0xC2 0xF4 c then
          ''incomplete utf-8 byte sequence from index '' @ nat_to_string i
        else
          ''invalid utf-8 sequence of '' @ nat_to_string n @ '' bytes from index '' @ nat_to_string i)"
  by pat_completeness auto
termination
  by (relation "measure (\<lambda>(i, s). length s)") (auto dest: utf8_head_pos')

declare utf8_error_at.simps(2) [simp del]

definition utf8_error :: "bytes \<Rightarrow> string" where
  "utf8_error s = utf8_error_at 0 s"

lemma from_utf8_lossy_valid: "utf8_valid s \<Longrightarrow> from_utf8_lossy s = s"
proof (induction s rule: utf8_valid.induct)
  case 1
  then show ?case by simp
next
  case (2 c cs)
  obtain n ok where h: "utf8_head c cs = (n, ok)" by force
  with 2 have "ok" "from_utf8_lossy (drop n (c # cs)) = drop n (c # cs)"
    by (auto simp: utf8_valid.simps(2))
  with h show ?case by (simp only: from_utf8_lossy.simps(2)) simp
qed

definition is_ascii :: "bytes \<Rightarrow> bool" where
  "is_ascii s \<longleftrightarrow> list_all (\<lambda>c. byte c < 0x80) s"

lemma utf8_valid_ascii: "is_ascii s \<Longrightarrow> utf8_valid s"
  by (induction s) (auto simp: is_ascii_def utf8_valid.simps(2) utf8_head_def)

lemma utf8_or_empty_valid [simp]: "utf8_valid s \<Longrightarrow> utf8_or_empty s = s"
  by (simp add: utf8_or_empty_def from_utf8_def)

section \<open>Searching and splitting\<close>

definition starts_with :: "string \<Rightarrow> string \<Rightarrow> bool" where
  "starts_with p s \<longleftrightarrow> take (length p) s = p"

definition strip_prefix :: "string \<Rightarrow> string \<Rightarrow> string option" where
  "strip_prefix p s = (if starts_with p s then Some (drop (length p) s) else None)"

fun str_contains :: "string \<Rightarrow> string \<Rightarrow> bool" where
  "str_contains p [] = (p = [])"
| "str_contains p (c # cs) = (starts_with p (c # cs) \<or> str_contains p cs)"

text \<open>\<open>trim_start_matches(p)\<close> removes every leading copy of \<open>p\<close>.\<close>

function trim_start_matches :: "string \<Rightarrow> string \<Rightarrow> string" where
  "trim_start_matches p s =
     (if p \<noteq> [] \<and> starts_with p s then trim_start_matches p (drop (length p) s) else s)"
  by pat_completeness auto
termination
  by (relation "measure (\<lambda>(p, s). length s)")
    (auto simp: starts_with_def intro!: diff_less) 

declare trim_start_matches.simps [simp del]

definition trim_matches :: "char \<Rightarrow> string \<Rightarrow> string" where
  "trim_matches c s = rev (dropWhile (\<lambda>x. x = c) (rev (dropWhile (\<lambda>x. x = c) s)))"

text \<open>\<open>split_once(c)\<close>: around the first occurrence.\<close>

fun split_once :: "char \<Rightarrow> string \<Rightarrow> (string \<times> string) option" where
  "split_once c [] = None"
| "split_once c (x # xs) =
     (if x = c then Some ([], xs)
      else (case split_once c xs of None \<Rightarrow> None | Some (a, b) \<Rightarrow> Some (x # a, b)))"

text \<open>\<open>split_once(p)\<close> for a string pattern.\<close>

fun split_once_str :: "string \<Rightarrow> string \<Rightarrow> (string \<times> string) option" where
  "split_once_str p [] = (if p = [] then Some ([], []) else None)"
| "split_once_str p (x # xs) =
     (if starts_with p (x # xs) then Some ([], drop (length p) (x # xs))
      else (case split_once_str p xs of None \<Rightarrow> None | Some (a, b) \<Rightarrow> Some (x # a, b)))"

lemma starts_with_append [simp]: "starts_with p (p @ s)"
  by (simp add: starts_with_def)

lemma starts_with_iff: "starts_with p s \<longleftrightarrow> (\<exists>r. s = p @ r)"
  by (metis append_take_drop_id starts_with_append starts_with_def)

lemma strip_prefix_Some_iff: "strip_prefix p s = Some r \<longleftrightarrow> s = p @ r"
  by (auto simp: strip_prefix_def starts_with_iff)

lemma split_once_Some_iff: "split_once c s = Some (a, b) \<longleftrightarrow> s = a @ c # b \<and> c \<notin> set a"
proof (induction s arbitrary: a)
  case Nil
  then show ?case by simp
next
  case (Cons x xs)
  show ?case
  proof (cases a)
    case Nil
    then show ?thesis by (auto split: option.splits)
  next
    case a: (Cons y a')
    show ?thesis
      using Cons.IH [of a'] by (cases "split_once c xs") (auto simp: a)
  qed
qed

lemma split_once_None_iff: "split_once c s = None \<longleftrightarrow> c \<notin> set s"
  by (induction s) (auto split: option.splits)

lemma split_once_append [simp]: "c \<notin> set a \<Longrightarrow> split_once c (a @ c # b) = Some (a, b)"
  by (simp add: split_once_Some_iff)

lemma str_contains_iff: "str_contains p s \<longleftrightarrow> (\<exists>a b. s = a @ p @ b)"
proof (induction s)
  case Nil
  then show ?case by auto
next
  case (Cons x s)
  show ?case
  proof
    assume "str_contains p (x # s)"
    then consider "starts_with p (x # s)" | "str_contains p s" by auto
    then show "\<exists>a b. x # s = a @ p @ b"
    proof cases
      case 1
      then show ?thesis by (auto simp: starts_with_iff intro: exI [of _ "[]"])
    next
      case 2
      with Cons.IH obtain a b where "s = a @ p @ b" by auto
      then have "x # s = (x # a) @ p @ b" by simp
      then show ?thesis by blast
    qed
  next
    assume "\<exists>a b. x # s = a @ p @ b"
    then obtain a b where ab: "x # s = a @ p @ b" by blast
    show "str_contains p (x # s)"
    proof (cases a)
      case Nil
      with ab have "starts_with p (x # s)" by (auto simp: starts_with_iff)
      then show ?thesis by simp
    next
      case (Cons y a')
      with ab have "s = a' @ p @ b" by simp
      with Cons.IH show ?thesis by auto
    qed
  qed
qed

section \<open>White space\<close>

text \<open>
  The length in bytes of a leading \<open>White_Space\<close> character (0 when there is none):
  the ASCII ones, \<open>U+0085\<close>, \<open>U+00A0\<close>, \<open>U+1680\<close>, \<open>U+2000\<close> to
  \<open>U+200A\<close>, \<open>U+2028\<close>, \<open>U+2029\<close>, \<open>U+202F\<close>, \<open>U+205F\<close> and \<open>U+3000\<close>.
\<close>

definition ws_len :: "bytes \<Rightarrow> nat" where
  "ws_len s =
     (case map byte (take 3 s) of
        [] \<Rightarrow> 0
      | b # r \<Rightarrow>
          if (9 \<le> b \<and> b \<le> 13) \<or> b = 32 then 1
          else if b = 0xC2 \<and> take 1 r \<in> {[0x85], [0xA0]} then 2
          else if b = 0xE1 \<and> r = [0x9A, 0x80] then 3
          else if b = 0xE2 \<and> take 1 r = [0x80] \<and>
                  list_all (\<lambda>x. (0x80 \<le> x \<and> x \<le> 0x8A) \<or> x \<in> {0xA8, 0xA9, 0xAF}) (drop 1 r) \<and>
                  length r = 2 then 3
          else if b = 0xE2 \<and> r = [0x81, 0x9F] then 3
          else if b = 0xE3 \<and> r = [0x80, 0x80] then 3
          else 0)"

text \<open>\<open>split_whitespace()\<close>: the non-empty pieces between white space.\<close>

function split_ws_aux :: "string \<Rightarrow> string \<Rightarrow> string list" where
  "split_ws_aux acc s =
     (if s = [] then (if acc = [] then [] else [rev acc])
      else if 0 < ws_len s then
        (if acc = [] then [] else [rev acc]) @ split_ws_aux [] (drop (ws_len s) s)
      else split_ws_aux (hd s # acc) (tl s))"
  by pat_completeness auto
termination
  by (relation "measure (\<lambda>(acc, s). length s)") auto

declare split_ws_aux.simps [simp del]

definition split_whitespace :: "string \<Rightarrow> string list" where
  "split_whitespace s = split_ws_aux [] s"

text \<open>\<open>str::trim\<close>; no encoding of white space ends in another.\<close>

function trim_start :: "string \<Rightarrow> string" where
  "trim_start s = (if s \<noteq> [] \<and> 0 < ws_len s then trim_start (drop (ws_len s) s) else s)"
  by pat_completeness auto
termination trim_start
  by (relation "measure length") auto

declare trim_start.simps [simp del]

fun trim_end :: "string \<Rightarrow> string" where
  "trim_end [] = []"
| "trim_end (c # cs) = (if trim_start (c # cs) = [] then [] else c # trim_end cs)"

definition str_trim :: "string \<Rightarrow> string" where
  "str_trim s = trim_end (trim_start s)"

section \<open>Unsigned integers\<close>

text \<open>
  \<open>str::parse::<u64>\<close>: an optional plus sign, then at least one decimal digit, and a
  value below \<open>2 ^ 64\<close>; anything else is an error.
\<close>

definition u64_bound :: nat where
  "u64_bound = 2 ^ 64"

fun parse_digits :: "nat \<Rightarrow> string \<Rightarrow> nat option" where
  "parse_digits acc [] = Some acc"
| "parse_digits acc (c # cs) =
     (if in_range 48 57 c then
        let v = acc * 10 + (byte c - 48) in
        if v < u64_bound then parse_digits v cs else None
      else None)"

definition parse_u64 :: "string \<Rightarrow> nat option" where
  "parse_u64 s =
     (let ds = (case s of c # cs \<Rightarrow> if c = CHR ''+'' then cs else s | [] \<Rightarrow> [])
      in if ds = [] then None else parse_digits 0 ds)"

lemma parse_digits_bound: "parse_digits acc s = Some n \<Longrightarrow> acc < u64_bound \<Longrightarrow> n < u64_bound"
  by (induction acc s rule: parse_digits.induct) (auto simp: Let_def split: if_splits)

lemma parse_u64_bound: "parse_u64 s = Some n \<Longrightarrow> n < u64_bound"
proof -
  assume "parse_u64 s = Some n"
  then obtain ds where "parse_digits 0 ds = Some n"
    by (auto simp: parse_u64_def Let_def split: if_splits)
  then show ?thesis
    by (rule parse_digits_bound) (simp add: u64_bound_def)
qed

end
