(* ===== verification/XmlModel.thy ===== *)
theory XmlModel
  imports RustStr
begin

text \<open>
  The two XML libraries as the program sees them. \<open>quick-xml\<close> gives a stream of
  events (each with its resolved element namespace when an \<open>NsReader\<close> is used);
  tokenising itself is a parameter of the definitions that start from bytes, of type
  \<^theory_text>\<open>bool \<Rightarrow> bytes \<Rightarrow> reader\<close> where the flag is the \<open>trim_text\<close>
  setting. A reader is the list of items still to come; past the end it keeps answering
  \<open>Eof\<close>. \<open>roxmltree\<close> gives a tree; its accessors read the fields of the node.
\<close>

section \<open>Events\<close>

text \<open>An attribute as the attribute iterator yields it: a key and its raw value, or an error.\<close>

datatype attr = Attr (attr_key: bytes) (attr_value: bytes) | AttrErr

datatype tag = Tag (tag_name: bytes) (tag_attrs: "attr list")

datatype event =
    EvStart tag
  | EvEmpty tag
  | EvEnd bytes
  | EvText bytes
  | EvCData bytes
  | EvGeneralRef bytes
  | EvComment bytes
  | EvDecl bytes
  | EvPI bytes
  | EvDocType bytes
  | EvEof

datatype resolved = Bound bytes | Unbound | UnknownPrefix bytes

type_synonym item = "string + (resolved \<times> event)"

type_synonym reader = "item list"

type_synonym tokenizer = "bool \<Rightarrow> bytes \<Rightarrow> reader"

fun read_event :: "reader \<Rightarrow> item \<times> reader" where
  "read_event [] = (Inr (Unbound, EvEof), [])"
| "read_event (i # r) = (i, r)"

text \<open>The part of a name after its colon, or all of it.\<close>

definition local_part :: "bytes \<Rightarrow> bytes" where
  "local_part n = (case split_once CHR '':'' n of None \<Rightarrow> n | Some (_, l) \<Rightarrow> l)"

text \<open>\<open>attributes().flatten()\<close> and \<open>filter_map(|a| a.ok())\<close>: the well-formed attributes.\<close>

fun attrs_ok :: "attr list \<Rightarrow> (bytes \<times> bytes) list" where
  "attrs_ok [] = []"
| "attrs_ok (Attr k v # as) = (k, v) # attrs_ok as"
| "attrs_ok (AttrErr # as) = attrs_ok as"

text \<open>An attribute loop that returns early at the first malformed attribute.\<close>

fun attrs_strict :: "'e \<Rightarrow> attr list \<Rightarrow> 'e + (bytes \<times> bytes) list" where
  "attrs_strict e [] = Inr []"
| "attrs_strict e (Attr k v # as) = res_bind (attrs_strict e as) (\<lambda>kvs. Inr ((k, v) # kvs))"
| "attrs_strict e (AttrErr # as) = Inl e"

lemma attrs_strict_ok: "AttrErr \<notin> set as \<Longrightarrow> attrs_strict e as = Inr (attrs_ok as)"
  by (induction e as rule: attrs_strict.induct) auto

lemma attrs_strict_Inr: "attrs_strict e as = Inr kvs \<Longrightarrow> kvs = attrs_ok as \<and> AttrErr \<notin> set as"
  by (induction e as arbitrary: kvs rule: attrs_strict.induct) (auto simp: res_simps)

lemma attrs_strict_Inl: "attrs_strict e as = Inl e' \<Longrightarrow> e' = e"
  by (induction e as rule: attrs_strict.induct) (auto simp: res_simps)

lemma local_part_no_colon: "CHR '':'' \<notin> set n \<Longrightarrow> local_part n = n"
  by (simp add: local_part_def split_once_None_iff [THEN iffD2])

lemma local_part_colon: "CHR '':'' \<notin> set p \<Longrightarrow> local_part (p @ CHR '':'' # l) = l"
  by (simp add: local_part_def)

section \<open>Trees\<close>

text \<open>
  An element of the document tree: namespace of its tag, local name of its tag, attributes
  (namespace, local name, value), the namespaces in scope (prefix, or none for the default
  one, and URI) and the children.
\<close>

datatype xnode =
    Elem "string option" string "(string option \<times> string \<times> string) list"
      "(string option \<times> string) list" "xnode list"
  | TextNode string
  | OtherNode

fun is_element :: "xnode \<Rightarrow> bool" where
  "is_element (Elem _ _ _ _ _) = True"
| "is_element _ = False"

fun node_ns :: "xnode \<Rightarrow> string option" where
  "node_ns (Elem ns _ _ _ _) = ns"
| "node_ns _ = None"

fun node_name :: "xnode \<Rightarrow> string" where
  "node_name (Elem _ l _ _ _) = l"
| "node_name _ = []"

fun node_attrs :: "xnode \<Rightarrow> (string option \<times> string \<times> string) list" where
  "node_attrs (Elem _ _ as _ _) = as"
| "node_attrs _ = []"

fun node_namespaces :: "xnode \<Rightarrow> (string option \<times> string) list" where
  "node_namespaces (Elem _ _ _ nss _) = nss"
| "node_namespaces _ = []"

fun node_children :: "xnode \<Rightarrow> xnode list" where
  "node_children (Elem _ _ _ _ cs) = cs"
| "node_children _ = []"

text \<open>\<open>node.attribute(name)\<close>: the attribute without namespace of that name.\<close>

definition node_attribute :: "xnode \<Rightarrow> string \<Rightarrow> string option" where
  "node_attribute n a =
     map_option (\<lambda>(_, _, v). v) (find (\<lambda>(ns, l, _). ns = None \<and> l = a) (node_attrs n))"

definition lookup_namespace_uri :: "xnode \<Rightarrow> string option \<Rightarrow> string option" where
  "lookup_namespace_uri n p = map_option snd (find (\<lambda>(q, _). q = p) (node_namespaces n))"

definition element_children :: "xnode \<Rightarrow> xnode list" where
  "element_children n = filter is_element (node_children n)"

lemma size_child: "c \<in> set (node_children n) \<Longrightarrow> size c < size n"
  by (cases n) (auto dest: size_list_estimation' [of _ _ "size c" size])

lemma size_element_child: "c \<in> set (element_children n) \<Longrightarrow> size c < size n"
  by (auto simp: element_children_def intro: size_child)

end
