(* ===== verification/WsdlParser.thy ===== *)
theory WsdlParser
  imports WsdlDefs XmlModel
begin

text \<open>
  \<open>src/src/wsdl/parser.rs\<close>: the first pass over a WSDL 1.1 document. The
  \<open>parse_\<close> functions keep their names; a loop over child elements that fills local
  variables and may leave with an error is \<open>res_fold\<close> with those variables as its state.
\<close>

section \<open>Names and errors\<close>

definition WSDL_NS :: string where
  "WSDL_NS = ''http://schemas.xmlsoap.org/wsdl/''"

definition SOAP11_BINDING_NS :: string where
  "SOAP11_BINDING_NS = ''http://schemas.xmlsoap.org/wsdl/soap/''"

definition SOAP12_BINDING_NS :: string where
  "SOAP12_BINDING_NS = ''http://schemas.xmlsoap.org/wsdl/soap12/''"

definition XSD_NS :: string where
  "XSD_NS = ''http://www.w3.org/2001/XMLSchema''"

definition SOAP_HTTP_TRANSPORT :: string where
  "SOAP_HTTP_TRANSPORT = ''http://schemas.xmlsoap.org/soap/http''"

datatype wsdl_error = MalformedXml string | MissingAttribute string | UnknownNamespace string

definition required_attr :: "xnode \<Rightarrow> string \<Rightarrow> string \<Rightarrow> wsdl_error + string" where
  "required_attr n a what = ok_or (MissingAttribute what) (node_attribute n a)"

definition node_ns_or_empty :: "xnode \<Rightarrow> string" where
  "node_ns_or_empty n = (case node_ns n of Some ns \<Rightarrow> ns | None \<Rightarrow> [])"

definition resolve_qname_str :: "string \<Rightarrow> xnode \<Rightarrow> wsdl_error + qname" where
  "resolve_qname_str v n =
     (case split_once CHR '':'' v of
        Some (prefix, loc) \<Rightarrow>
          res_bind (ok_or (UnknownNamespace prefix) (lookup_namespace_uri n (Some prefix)))
            (\<lambda>ns. Inr (qname_new ns loc))
      | None \<Rightarrow>
          (case lookup_namespace_uri n None of
             Some ns \<Rightarrow> Inr (qname_new ns v)
           | None \<Rightarrow> Inr (qname_local v)))"

text \<open>\<open>attribute(..).map(resolve).transpose()?\<close>.\<close>

definition resolve_optional :: "string option \<Rightarrow> xnode \<Rightarrow> wsdl_error + qname option" where
  "resolve_optional v n =
     (case v of None \<Rightarrow> Inr None | Some s \<Rightarrow> res_bind (resolve_qname_str s n) (\<lambda>q. Inr (Some q)))"

section \<open>Writing a schema back to text\<close>

definition find_prefix_for_ns :: "xnode \<Rightarrow> string \<Rightarrow> string option" where
  "find_prefix_for_ns n uri =
     (if uri = [] then None
      else map_option (\<lambda>(p, _). case p of Some p \<Rightarrow> p | None \<Rightarrow> [])
             (find (\<lambda>(_, u). u = uri) (node_namespaces n)))"

definition qualified_name :: "xnode \<Rightarrow> string" where
  "qualified_name n =
     (case find_prefix_for_ns n (node_ns_or_empty n) of
        Some p \<Rightarrow> if p \<noteq> [] then p @ '':'' @ node_name n else node_name n
      | None \<Rightarrow> node_name n)"

definition emit_namespace :: "string option \<times> string \<Rightarrow> string" where
  "emit_namespace nsd =
     (case nsd of
        (Some p, uri) \<Rightarrow> '' xmlns:'' @ p @ ''=\"'' @ uri @ ''\"''
      | (None, uri) \<Rightarrow> '' xmlns=\"'' @ uri @ ''\"'')"

definition emit_attribute :: "string option \<times> string \<times> string \<Rightarrow> string" where
  "emit_attribute a = (case a of (_, l, v) \<Rightarrow> '' '' @ l @ ''=\"'' @ v @ ''\"'')"

fun serialize_node :: "xnode \<Rightarrow> string" where
  "serialize_node (Elem ns l as nss cs) =
     (let qn = qualified_name (Elem ns l as nss cs) in
      ''<'' @ qn @ concat (map emit_namespace nss) @ concat (map emit_attribute as) @
      (if cs \<noteq> [] then ''>'' @ concat (map serialize_node cs) @ ''</'' @ qn @ ''>''
       else ''/>''))"
| "serialize_node (TextNode t) = t"
| "serialize_node OtherNode = []"

definition node_to_string :: "xnode \<Rightarrow> string" where
  "node_to_string n = serialize_node n"

section \<open>Messages and port types\<close>

definition parse_import :: "xnode \<Rightarrow> wsdl_error + wsdl_import" where
  "parse_import n =
     Inr \<lparr>imp_namespace = (case node_attribute n ''namespace'' of Some s \<Rightarrow> s | None \<Rightarrow> []),
          imp_location = node_attribute n ''location''\<rparr>"

definition parse_types :: "xnode \<Rightarrow> wsdl_error + types_section" where
  "parse_types n =
     Inr \<lparr>schemas = map node_to_string
            (filter (\<lambda>c. node_ns_or_empty c = XSD_NS \<and> node_name c = ''schema'') (element_children n))\<rparr>"

definition parse_message_part :: "xnode \<Rightarrow> xnode \<Rightarrow> wsdl_error + message_part" where
  "parse_message_part n parent =
     res_bind (required_attr n ''name'' ''part/@name'') (\<lambda>name.
     res_bind (resolve_optional (node_attribute n ''element'') parent) (\<lambda>element.
     res_bind (resolve_optional (node_attribute n ''type'') parent) (\<lambda>type_ref.
     Inr \<lparr>mp_name = name, mp_element = element, mp_type_ref = type_ref\<rparr>)))"

definition parse_message :: "xnode \<Rightarrow> wsdl_error + message" where
  "parse_message n =
     res_bind (required_attr n ''name'' ''message/@name'') (\<lambda>name.
     res_bind (res_map (\<lambda>c. parse_message_part c n)
                (filter (\<lambda>c. node_name c = ''part'') (element_children n))) (\<lambda>parts.
     Inr \<lparr>msg_name = name, parts = parts\<rparr>))"

definition parse_operation_message :: "xnode \<Rightarrow> string \<Rightarrow> wsdl_error + operation_message" where
  "parse_operation_message c what =
     res_bind (required_attr c ''message'' what) (\<lambda>msg_attr.
     res_bind (resolve_qname_str msg_attr c) (\<lambda>message.
     Inr \<lparr>om_name = node_attribute c ''name'', om_message = message\<rparr>))"

definition parse_operation_fault :: "xnode \<Rightarrow> wsdl_error + operation_fault" where
  "parse_operation_fault c =
     res_bind (required_attr c ''name'' ''fault/@name'') (\<lambda>fault_name.
     res_bind (required_attr c ''message'' ''fault/@message'') (\<lambda>msg_attr.
     res_bind (resolve_qname_str msg_attr c) (\<lambda>message.
     Inr \<lparr>of_name = fault_name, of_message = message\<rparr>)))"

definition operation_style_of :: "'a option \<Rightarrow> 'b option \<Rightarrow> operation_style" where
  "operation_style_of input output =
     (case (input \<noteq> None, output \<noteq> None) of
        (True, True) \<Rightarrow> RequestResponse
      | (True, False) \<Rightarrow> OneWay
      | (False, True) \<Rightarrow> Notification
      | (False, False) \<Rightarrow> OneWay)"

definition parse_operation :: "xnode \<Rightarrow> wsdl_error + operation" where
  "parse_operation n =
     res_bind (required_attr n ''name'' ''operation/@name'') (\<lambda>name.
     res_bind
       (res_fold (\<lambda>c (input, output, faults).
            if node_name c = ''input'' then
              res_bind (parse_operation_message c ''input/@message'') (\<lambda>m. Inr (Some m, output, faults))
            else if node_name c = ''output'' then
              res_bind (parse_operation_message c ''output/@message'') (\<lambda>m. Inr (input, Some m, faults))
            else if node_name c = ''fault'' then
              res_bind (parse_operation_fault c) (\<lambda>f. Inr (input, output, faults @ [f]))
            else Inr (input, output, faults))
          (element_children n) (None, None, []))
       (\<lambda>(input, output, faults).
          Inr \<lparr>op_name = name, op_input = input, op_output = output, op_faults = faults,
               op_style = operation_style_of input output\<rparr>))"

definition parse_port_type :: "xnode \<Rightarrow> wsdl_error + port_type" where
  "parse_port_type n =
     res_bind (required_attr n ''name'' ''portType/@name'') (\<lambda>name.
     res_bind (res_map parse_operation
                (filter (\<lambda>c. node_name c = ''operation'') (element_children n))) (\<lambda>operations.
     Inr \<lparr>pt_name = name, pt_operations = operations\<rparr>))"

section \<open>Bindings\<close>

definition default_binding_message :: binding_message where
  "default_binding_message =
     \<lparr>bm_body = \<lparr>use_attr = Literal, body_namespace = None, encoding_style = None\<rparr>, bm_headers = []\<rparr>"

definition parse_binding_message :: "xnode \<Rightarrow> string \<Rightarrow> wsdl_error + binding_message" where
  "parse_binding_message n soap_ns =
     res_fold (\<lambda>c bm.
         if node_ns_or_empty c = soap_ns then
           (if node_name c = ''body'' then
              Inr (bm\<lparr>bm_body :=
                \<lparr>use_attr = (if node_attribute c ''use'' = Some ''encoded'' then Encoded else Literal),
                 body_namespace = node_attribute c ''namespace'',
                 encoding_style = node_attribute c ''encodingStyle''\<rparr>\<rparr>)
            else if node_name c = ''header'' then
              (case (node_attribute c ''message'', node_attribute c ''part'') of
                 (Some msg_str, Some part) \<Rightarrow>
                   res_bind (resolve_qname_str msg_str c) (\<lambda>message.
                   Inr (bm\<lparr>bm_headers := bm_headers bm @ [\<lparr>sh_message = message, sh_part = part\<rparr>]\<rparr>))
               | _ \<Rightarrow> Inr bm)
            else Inr bm)
         else Inr bm)
       (element_children n) default_binding_message"

definition soap_binding_ns :: "soap_version \<Rightarrow> string" where
  "soap_binding_ns v = (case v of Soap11 \<Rightarrow> SOAP11_BINDING_NS | Soap12 \<Rightarrow> SOAP12_BINDING_NS)"

definition parse_binding_operation :: "xnode \<Rightarrow> soap_version \<Rightarrow> wsdl_error + binding_operation" where
  "parse_binding_operation n v =
     res_bind (required_attr n ''name'' ''binding/operation/@name'') (\<lambda>name.
     res_bind
       (res_fold (\<lambda>c (soap_action, input, output).
            if node_name c = ''operation'' \<and> node_ns_or_empty c = soap_binding_ns v then
              Inr (case node_attribute c ''soapAction'' of Some a \<Rightarrow> a | None \<Rightarrow> [], input, output)
            else if node_name c = ''input'' \<and> node_ns_or_empty c = WSDL_NS then
              res_bind (parse_binding_message c (soap_binding_ns v)) (\<lambda>m. Inr (soap_action, m, output))
            else if node_name c = ''output'' \<and> node_ns_or_empty c = WSDL_NS then
              res_bind (parse_binding_message c (soap_binding_ns v)) (\<lambda>m. Inr (soap_action, input, m))
            else Inr (soap_action, input, output))
          (element_children n) ([], default_binding_message, default_binding_message))
       (\<lambda>(soap_action, input, output).
          Inr \<lparr>bo_name = name, bo_soap_action = soap_action, bo_input = input, bo_output = output\<rparr>))"

definition parse_binding_style :: "xnode \<Rightarrow> binding_style" where
  "parse_binding_style n = (if node_attribute n ''style'' = Some ''rpc'' then Rpc else Document)"

definition parse_soap_binding :: "xnode \<Rightarrow> soap_version \<Rightarrow> soap_binding" where
  "parse_soap_binding c v =
     \<lparr>sb_style = parse_binding_style c,
      sb_transport = (case node_attribute c ''transport'' of Some t \<Rightarrow> t | None \<Rightarrow> SOAP_HTTP_TRANSPORT),
      sb_soap_version = v\<rparr>"

definition default_soap_binding :: soap_binding where
  "default_soap_binding =
     \<lparr>sb_style = Document, sb_transport = SOAP_HTTP_TRANSPORT, sb_soap_version = Soap11\<rparr>"

definition parse_binding_child ::
  "xnode \<Rightarrow> soap_binding \<times> binding_operation list \<Rightarrow> wsdl_error + (soap_binding \<times> binding_operation list)" where
  "parse_binding_child c st =
     (case st of (sb, ops) \<Rightarrow>
        if node_name c = ''binding'' \<and> node_ns_or_empty c = SOAP11_BINDING_NS then
          Inr (parse_soap_binding c Soap11, ops)
        else if node_name c = ''binding'' \<and> node_ns_or_empty c = SOAP12_BINDING_NS then
          Inr (parse_soap_binding c Soap12, ops)
        else if node_name c = ''operation'' \<and> node_ns_or_empty c = WSDL_NS then
          res_bind (parse_binding_operation c (sb_soap_version sb)) (\<lambda>bo. Inr (sb, ops @ [bo]))
        else Inr (sb, ops))"

definition parse_binding :: "xnode \<Rightarrow> wsdl_error + binding" where
  "parse_binding n =
     res_bind (required_attr n ''name'' ''binding/@name'') (\<lambda>name.
     res_bind (required_attr n ''type'' ''binding/@type'') (\<lambda>port_type_str.
     res_bind (resolve_qname_str port_type_str n) (\<lambda>port_type.
     res_bind (res_fold parse_binding_child (element_children n) (default_soap_binding, []))
       (\<lambda>(sb, ops).
          Inr \<lparr>b_name = name, b_port_type = port_type, b_soap_binding = sb, b_operations = ops\<rparr>))))"

section \<open>Services\<close>

definition parse_port :: "xnode \<Rightarrow> wsdl_error + port" where
  "parse_port n =
     res_bind (required_attr n ''name'' ''port/@name'') (\<lambda>name.
     res_bind (required_attr n ''binding'' ''port/@binding'') (\<lambda>binding_str.
     res_bind (resolve_qname_str binding_str n) (\<lambda>binding.
     Inr \<lparr>port_name = name, port_binding = binding,
          port_address =
            (case find_map (\<lambda>c. node_attribute c ''location'')
                    (filter (\<lambda>c. node_name c = ''address'') (element_children n)) of
               Some a \<Rightarrow> a | None \<Rightarrow> [])\<rparr>)))"

definition parse_service :: "xnode \<Rightarrow> wsdl_error + service" where
  "parse_service n =
     res_bind (required_attr n ''name'' ''service/@name'') (\<lambda>name.
     res_bind (res_map parse_port (filter (\<lambda>c. node_name c = ''port'') (element_children n))) (\<lambda>ports.
     Inr \<lparr>svc_name = name, ports = ports\<rparr>))"

section \<open>Documents\<close>

definition empty_definition :: "string \<Rightarrow> wsdl_definition" where
  "empty_definition tns =
     \<lparr>target_namespace = tns, wsdl_imports = [], wsdl_types = \<lparr>schemas = []\<rparr>, messages = [],
      port_types = [], bindings = [], services = []\<rparr>"

definition parse_wsdl_child :: "xnode \<Rightarrow> wsdl_definition \<Rightarrow> wsdl_error + wsdl_definition" where
  "parse_wsdl_child c d =
     (if node_ns_or_empty c \<noteq> WSDL_NS then Inr d
      else if node_name c = ''import'' then
        res_bind (parse_import c) (\<lambda>i. Inr (d\<lparr>wsdl_imports := wsdl_imports d @ [i]\<rparr>))
      else if node_name c = ''types'' then
        res_bind (parse_types c) (\<lambda>t. Inr (d\<lparr>wsdl_types := t\<rparr>))
      else if node_name c = ''message'' then
        res_bind (parse_message c) (\<lambda>m. Inr (d\<lparr>messages := hm_insert (msg_name m) m (messages d)\<rparr>))
      else if node_name c = ''portType'' then
        res_bind (parse_port_type c) (\<lambda>p. Inr (d\<lparr>port_types := hm_insert (pt_name p) p (port_types d)\<rparr>))
      else if node_name c = ''binding'' then
        res_bind (parse_binding c) (\<lambda>b. Inr (d\<lparr>bindings := hm_insert (b_name b) b (bindings d)\<rparr>))
      else if node_name c = ''service'' then
        res_bind (parse_service c) (\<lambda>s. Inr (d\<lparr>services := hm_insert (svc_name s) s (services d)\<rparr>))
      else Inr d)"

definition parse_wsdl :: "(string \<Rightarrow> string + xnode) \<Rightarrow> bytes \<Rightarrow> wsdl_error + wsdl_definition" where
  "parse_wsdl rox bytes =
     res_bind (ok_or (MalformedXml (''UTF-8 error: '' @ utf8_error bytes)) (from_utf8 bytes)) (\<lambda>text.
     res_bind (map_err MalformedXml (rox text)) (\<lambda>root.
     if node_name root \<noteq> ''definitions'' then
       Inl (MalformedXml (''Expected root element 'definitions', got '' @ [CHR 0x27] @ node_name root @ [CHR 0x27]))
     else
       res_fold parse_wsdl_child (element_children root)
         (empty_definition (case node_attribute root ''targetNamespace'' of Some t \<Rightarrow> t | None \<Rightarrow> []))))"

end
