(* ===== verification/XsdTypes.thy ===== *)
theory XsdTypes
  imports QName
begin

text \<open>
  \<open>src/src/xsd/elements.rs\<close> and \<open>src/src/xsd/types.rs\<close>: the schema components the
  parser builds, and the type registry. Elements and types refer to each other (an
  element may hold an anonymous type), so they are one family of datatypes; the structs
  outside the cycle are records.
\<close>

section \<open>Leaf components\<close>

text \<open>Occurrence counts are \<open>u64\<close>; the parser keeps them below \<open>2 ^ 64\<close>.\<close>

datatype max_occurs = Bounded nat | Unbounded

datatype attribute_use = Required | Optional | Prohibited

record xsd_attribute =
  at_name :: "string option"
  at_type_ref :: "qname option"
  at_use :: attribute_use
  at_default :: "string option"
  at_fixed :: "string option"
  at_ref :: "qname option"

record attribute_group =
  ag_name :: string
  ag_attributes :: "xsd_attribute list"
  ag_groups :: "qname list"

datatype any_namespace = AnyNs | OtherNs | ListNs "string list"

datatype process_contents = Strict | Lax | Skip

record any_element =
  any_namespace :: any_namespace
  any_process_contents :: process_contents
  any_min_occurs :: nat
  any_max_occurs :: max_occurs

record any_attribute =
  anya_namespace :: any_namespace
  anya_process_contents :: process_contents

datatype whitespace_handling = Preserve | Replace | Collapse

record restriction =
  r_base :: qname
  enumeration :: "string list"
  min_inclusive :: "string option"
  max_inclusive :: "string option"
  min_exclusive :: "string option"
  max_exclusive :: "string option"
  min_length :: "nat option"
  max_length :: "nat option"
  r_length :: "nat option"
  pattern :: "string option"
  whitespace :: "whitespace_handling option"
  total_digits :: "nat option"
  fraction_digits :: "nat option"

record list_def =
  item_type :: qname

record union_def =
  member_types :: "qname list"

record simple_type =
  st_name :: "string option"
  st_restriction :: "restriction option"
  st_list :: "list_def option"
  st_union :: "union_def option"

record simple_content_def =
  sc_base :: qname
  sc_attributes :: "xsd_attribute list"

section \<open>Elements, content models and types\<close>

text \<open>
  \<open>XsdElement\<close> has the fields name, type reference, inline type, minimal and maximal
  occurrence, nillable, default, fixed and element reference, in the order of the struct.
\<close>

datatype xsd_element =
    XsdElement (el_name: "string option") (el_type_ref: "qname option")
      (el_inline_type: "xsd_type option") (el_min_occurs: nat) (el_max_occurs: max_occurs)
      (el_nillable: bool) (el_default: "string option") (el_fixed: "string option")
      (el_ref: "qname option")
and complex_content =
    Sequence "xsd_element list"
  | All "xsd_element list"
  | Choice "xsd_element list"
  | EmptyContent
  | SimpleContent simple_content_def
  | ComplexExtension qname complex_content
  | ComplexRestriction qname complex_content
and complex_type =
    ComplexType (ct_name: "string option") (ct_content: complex_content)
      (ct_attributes: "xsd_attribute list")
and xsd_type =
    Complex complex_type
  | Simple simple_type

text \<open>\<open>XsdElement::default()\<close>.\<close>

definition default_element :: xsd_element where
  "default_element = XsdElement None None None 1 (Bounded 1) False None None None"

datatype group_content = GSequence "xsd_element list" | GAll "xsd_element list" | GChoice "xsd_element list"

record group_def =
  g_name :: string
  g_content :: group_content

fun is_complex :: "xsd_type \<Rightarrow> bool" where
  "is_complex (Complex _) = True"
| "is_complex (Simple _) = False"

section \<open>The type registry\<close>

record type_registry =
  types :: "(qname, xsd_type) hashmap"

definition registry_new :: type_registry where
  "registry_new = \<lparr>types = []\<rparr>"

definition registry_insert :: "qname \<Rightarrow> xsd_type \<Rightarrow> type_registry \<Rightarrow> type_registry" where
  "registry_insert n ty r = r\<lparr>types := hm_insert n ty (types r)\<rparr>"

definition registry_lookup :: "type_registry \<Rightarrow> qname \<Rightarrow> xsd_type option" where
  "registry_lookup r n = hm_get (types r) n"

definition registry_len :: "type_registry \<Rightarrow> nat" where
  "registry_len r = length (types r)"

definition registry_is_empty :: "type_registry \<Rightarrow> bool" where
  "registry_is_empty r \<longleftrightarrow> types r = []"

definition registry_into_iter :: "type_registry \<Rightarrow> (qname \<times> xsd_type) list" where
  "registry_into_iter r = types r"

interpretation reg: map_store registry_lookup registry_insert
  by unfold_locales (simp add: registry_lookup_def registry_insert_def)

lemma registry_lookup_new [simp]: "registry_lookup registry_new q = None"
  by (simp add: registry_new_def registry_lookup_def)

lemma registry_lookup_insert [simp]:
  "registry_lookup (registry_insert n ty r) q = (if q = n then Some ty else registry_lookup r q)"
  by (rule reg.get_put)

lemma registry_wf_insert: "hm_wf (types r) \<Longrightarrow> hm_wf (types (registry_insert n ty r))"
  by (simp add: registry_insert_def)

text \<open>\<open>is_empty\<close> and \<open>len\<close> agree, and an insert grows the registry by at most one type.\<close>

lemma registry_len_insert:
  "registry_len (registry_insert n ty r) =
     (if registry_lookup r n = None then Suc (registry_len r) else registry_len r)"
proof -
  have "length (AList.update n ty m) = (if map_of m n = None then Suc (length m) else length m)"
    for m :: "(qname, xsd_type) hashmap"
    by (induction m) auto
  then show ?thesis
    by (simp add: registry_len_def registry_insert_def registry_lookup_def hm_insert_def hm_get_def)
qed

end
