(* ===== verification/XsdParser.thy ===== *)
theory XsdParser
  imports XsdTypes XmlModel
begin

text \<open>
  \<open>src/src/xsd/parser.rs\<close>: the first pass over an \<open>xs:schema\<close> tree. The
  \<open>visit_\<close> functions keep their names; a loop that fills local variables is a fold over
  the XML-Schema children with those variables as its state, and a loop that returns from
  inside is \<open>find_map\<close>. Children outside the XML-Schema namespace are skipped by every
  loop of the source, which \<open>xs_children\<close> says once.
\<close>

section \<open>Helpers\<close>

definition XS_NS :: string where
  "XS_NS = ''http://www.w3.org/2001/XMLSchema''"

datatype schema_error = SchMalformedXml string | SchUnknownRef string | SchCycleDetected string

record schema_import =
  si_namespace :: "string option"
  si_schema_location :: "string option"

record schema_include =
  inc_schema_location :: string

record raw_schema =
  rs_target_namespace :: "string option"
  rs_types :: "(qname, xsd_type) hashmap"
  rs_elements :: "(qname, xsd_element) hashmap"
  rs_attribute_groups :: "(qname, attribute_group) hashmap"
  rs_groups :: "(qname, group_def) hashmap"
  rs_imports :: "schema_import list"
  rs_includes :: "schema_include list"

definition resolve_qname :: "string \<Rightarrow> xnode \<Rightarrow> qname" where
  "resolve_qname v n =
     (case split_once CHR '':'' v of
        Some (prefix, loc) \<Rightarrow>
          (case lookup_namespace_uri n (Some prefix) of
             Some uri \<Rightarrow> qname_new uri loc
           | None \<Rightarrow> \<lparr>namespace = Some prefix, local_name = loc\<rparr>)
      | None \<Rightarrow>
          (case lookup_namespace_uri n None of
             Some uri \<Rightarrow> qname_new uri v
           | None \<Rightarrow> qname_local v))"

definition parse_u64_attr :: "xnode \<Rightarrow> string \<Rightarrow> nat \<Rightarrow> nat" where
  "parse_u64_attr n a d =
     (case Option.bind (node_attribute n a) parse_u64 of None \<Rightarrow> d | Some v \<Rightarrow> v)"

definition parse_min_occurs :: "xnode \<Rightarrow> nat" where
  "parse_min_occurs n = parse_u64_attr n ''minOccurs'' 1"

definition parse_max_occurs :: "xnode \<Rightarrow> max_occurs" where
  "parse_max_occurs n =
     (case node_attribute n ''maxOccurs'' of
        Some v \<Rightarrow>
          if v = ''unbounded'' then Unbounded
          else Bounded (case parse_u64 v of None \<Rightarrow> 1 | Some k \<Rightarrow> k)
      | None \<Rightarrow> Bounded 1)"

definition is_xs :: "xnode \<Rightarrow> string \<Rightarrow> bool" where
  "is_xs n l \<longleftrightarrow> is_element n \<and> node_ns n = Some XS_NS \<and> node_name n = l"

definition xs_children :: "xnode \<Rightarrow> xnode list" where
  "xs_children n = filter (\<lambda>c. node_ns c = Some XS_NS) (element_children n)"

lemma size_xs_child [termination_simp]: "c \<in> set (xs_children n) \<Longrightarrow> size c < size n"
  by (auto simp: xs_children_def intro: size_element_child)

definition qualify_name :: "string \<Rightarrow> string option \<Rightarrow> qname" where
  "qualify_name l tns = (case tns of Some ns \<Rightarrow> qname_new ns l | None \<Rightarrow> qname_local l)"

lemma qualify_name_namespace [simp]: "namespace (qualify_name l tns) = tns"
  by (simp add: qualify_name_def split: option.split)

section \<open>Attributes, wildcards and simple types\<close>

definition visit_attribute :: "xnode \<Rightarrow> xsd_attribute" where
  "visit_attribute n =
     \<lparr>at_name = node_attribute n ''name'',
      at_type_ref = map_option (\<lambda>t. resolve_qname t n) (node_attribute n ''type''),
      at_use =
        (case node_attribute n ''use'' of
           Some v \<Rightarrow>
             if v = ''required'' then Required
             else if v = ''prohibited'' then Prohibited else Optional
         | None \<Rightarrow> Optional),
      at_default = node_attribute n ''default'',
      at_fixed = node_attribute n ''fixed'',
      at_ref = map_option (\<lambda>r. resolve_qname r n) (node_attribute n ''ref'')\<rparr>"

definition visit_attribute_group_def :: "xnode \<Rightarrow> attribute_group option" where
  "visit_attribute_group_def n =
     (case node_attribute n ''name'' of
        None \<Rightarrow> None
      | Some name \<Rightarrow>
          (let (attributes, attribute_groups) =
             fold (\<lambda>c (as, gs).
                 if node_name c = ''attribute'' then (as @ [visit_attribute c], gs)
                 else if node_name c = ''attributeGroup'' then
                   (case node_attribute c ''ref'' of
                      Some r \<Rightarrow> (as, gs @ [resolve_qname r c])
                    | None \<Rightarrow> (as, gs))
                 else (as, gs))
               (xs_children n) ([], [])
           in Some \<lparr>ag_name = name, ag_attributes = attributes, ag_groups = attribute_groups\<rparr>))"

definition visit_any_namespace :: "xnode \<Rightarrow> any_namespace" where
  "visit_any_namespace n =
     (case node_attribute n ''namespace'' of
        None \<Rightarrow> AnyNs
      | Some v \<Rightarrow>
          if v = ''##any'' then AnyNs
          else if v = ''##other'' then OtherNs
          else ListNs (split_whitespace v))"

definition visit_process_contents :: "xnode \<Rightarrow> process_contents" where
  "visit_process_contents n =
     (case node_attribute n ''processContents'' of
        Some v \<Rightarrow> if v = ''lax'' then Lax else if v = ''skip'' then Skip else Strict
      | None \<Rightarrow> Strict)"

definition visit_any :: "xnode \<Rightarrow> any_element" where
  "visit_any n =
     \<lparr>any_namespace = visit_any_namespace n,
      any_process_contents = visit_process_contents n,
      any_min_occurs = parse_min_occurs n,
      any_max_occurs = parse_max_occurs n\<rparr>"

definition visit_any_attribute :: "xnode \<Rightarrow> any_attribute" where
  "visit_any_attribute n =
     \<lparr>anya_namespace = visit_any_namespace n,
      anya_process_contents = visit_process_contents n\<rparr>"

definition empty_restriction :: "qname \<Rightarrow> restriction" where
  "empty_restriction base =
     \<lparr>r_base = base, enumeration = [], min_inclusive = None, max_inclusive = None,
      min_exclusive = None, max_exclusive = None, min_length = None, max_length = None,
      r_length = None, pattern = None, whitespace = None, total_digits = None,
      fraction_digits = None\<rparr>"

definition visit_facet :: "xnode \<Rightarrow> restriction \<Rightarrow> restriction" where
  "visit_facet c r =
     (let v = node_attribute c ''value''; u = Option.bind v parse_u64; f = node_name c in
      if f = ''enumeration'' then
        (case v of Some x \<Rightarrow> r\<lparr>enumeration := enumeration r @ [x]\<rparr> | None \<Rightarrow> r)
      else if f = ''minInclusive'' then r\<lparr>min_inclusive := v\<rparr>
      else if f = ''maxInclusive'' then r\<lparr>max_inclusive := v\<rparr>
      else if f = ''minExclusive'' then r\<lparr>min_exclusive := v\<rparr>
      else if f = ''maxExclusive'' then r\<lparr>max_exclusive := v\<rparr>
      else if f = ''minLength'' then r\<lparr>min_length := u\<rparr>
      else if f = ''maxLength'' then r\<lparr>max_length := u\<rparr>
      else if f = ''length'' then r\<lparr>r_length := u\<rparr>
      else if f = ''pattern'' then r\<lparr>pattern := v\<rparr>
      else if f = ''whiteSpace'' then
        r\<lparr>whitespace :=
          (case v of
             Some x \<Rightarrow>
               if x = ''preserve'' then Some Preserve
               else if x = ''replace'' then Some Replace
               else if x = ''collapse'' then Some Collapse else None
           | None \<Rightarrow> None)\<rparr>
      else if f = ''totalDigits'' then r\<lparr>total_digits := u\<rparr>
      else if f = ''fractionDigits'' then r\<lparr>fraction_digits := u\<rparr>
      else r)"

definition visit_restriction :: "xnode \<Rightarrow> restriction" where
  "visit_restriction n =
     (let base = (case node_attribute n ''base'' of
                    Some b \<Rightarrow> resolve_qname b n | None \<Rightarrow> qname_local [])
      in fold visit_facet (xs_children n) (empty_restriction base))"

definition visit_list :: "xnode \<Rightarrow> list_def" where
  "visit_list n =
     \<lparr>item_type = (case node_attribute n ''itemType'' of
                     Some t \<Rightarrow> resolve_qname t n | None \<Rightarrow> qname_local [])\<rparr>"

definition visit_union :: "xnode \<Rightarrow> union_def" where
  "visit_union n =
     \<lparr>member_types = (case node_attribute n ''memberTypes'' of
                        Some mt \<Rightarrow> map (\<lambda>t. resolve_qname t n) (split_whitespace mt)
                      | None \<Rightarrow> [])\<rparr>"

definition visit_simple_type :: "xnode \<Rightarrow> simple_type" where
  "visit_simple_type n =
     fold (\<lambda>c st.
         if node_name c = ''restriction'' then st\<lparr>st_restriction := Some (visit_restriction c)\<rparr>
         else if node_name c = ''list'' then st\<lparr>st_list := Some (visit_list c)\<rparr>
         else if node_name c = ''union'' then st\<lparr>st_union := Some (visit_union c)\<rparr>
         else st)
       (xs_children n)
       \<lparr>st_name = node_attribute n ''name'', st_restriction = None, st_list = None, st_union = None\<rparr>"

definition visit_simple_content :: "xnode \<Rightarrow> complex_content" where
  "visit_simple_content n =
     (case find_map (\<lambda>c.
          if node_name c = ''extension'' then
            map_option (\<lambda>b. SimpleContent
                \<lparr>sc_base = resolve_qname b c,
                 sc_attributes = map visit_attribute
                   (filter (\<lambda>a. is_xs a ''attribute'') (element_children c))\<rparr>)
              (node_attribute c ''base'')
          else None) (xs_children n) of
        Some cc \<Rightarrow> cc
      | None \<Rightarrow> EmptyContent)"

section \<open>Elements and complex types\<close>

text \<open>The synthetic element that stands for an \<open>xs:any\<close> wildcard.\<close>

definition any_marker :: string where
  "any_marker = ''__any__''"

definition any_as_element :: "any_element \<Rightarrow> xsd_element" where
  "any_as_element a =
     XsdElement (Some any_marker) None None (any_min_occurs a) (any_max_occurs a) False None None None"

text \<open>The synthetic attribute that stands for a reference to an attribute group.\<close>

definition group_ref_attribute :: "qname \<Rightarrow> xsd_attribute" where
  "group_ref_attribute q =
     \<lparr>at_name = None, at_type_ref = None, at_use = Optional, at_default = None,
      at_fixed = None, at_ref = Some q\<rparr>"

fun visit_complex_type :: "xnode \<Rightarrow> complex_type"
  and visit_complex_content :: "xnode \<Rightarrow> complex_content"
  and visit_extension :: "xnode \<Rightarrow> qname \<times> complex_content"
  and visit_complex_restriction_content :: "xnode \<Rightarrow> complex_content"
  and visit_particle_children :: "xnode \<Rightarrow> xsd_element list"
  and visit_element :: "xnode \<Rightarrow> xsd_element" where
  "visit_complex_type n =
     (let (content, attributes) =
        fold (\<lambda>c (content, attributes).
            if node_name c = ''sequence'' then (Sequence (visit_particle_children c), attributes)
            else if node_name c = ''all'' then (All (visit_particle_children c), attributes)
            else if node_name c = ''choice'' then (Choice (visit_particle_children c), attributes)
            else if node_name c = ''complexContent'' then (visit_complex_content c, attributes)
            else if node_name c = ''simpleContent'' then (visit_simple_content c, attributes)
            else if node_name c = ''attribute'' then (content, attributes @ [visit_attribute c])
            else if node_name c = ''attributeGroup'' then
              (case node_attribute c ''ref'' of
                 Some r \<Rightarrow> (content, attributes @ [group_ref_attribute (resolve_qname r c)])
               | None \<Rightarrow> (content, attributes))
            else (content, attributes))
          (xs_children n) (EmptyContent, [])
      in ComplexType (node_attribute n ''name'') content attributes)"
| "visit_complex_content n =
     (case find_map (\<lambda>c.
          if node_name c = ''extension'' then
            (case visit_extension c of (base, inner) \<Rightarrow> Some (ComplexExtension base inner))
          else if node_name c = ''restriction'' then
            (case node_attribute c ''base'' of
               Some b \<Rightarrow>
                 Some (ComplexRestriction (resolve_qname b c) (visit_complex_restriction_content c))
             | None \<Rightarrow> None)
          else None) (xs_children n) of
        Some cc \<Rightarrow> cc
      | None \<Rightarrow> EmptyContent)"
| "visit_extension n =
     (case node_attribute n ''base'' of Some b \<Rightarrow> resolve_qname b n | None \<Rightarrow> qname_local [],
      fold (\<lambda>c content.
          if node_name c = ''sequence'' then Sequence (visit_particle_children c)
          else if node_name c = ''all'' then All (visit_particle_children c)
          else if node_name c = ''choice'' then Choice (visit_particle_children c)
          else content)
        (xs_children n) EmptyContent)"
| "visit_complex_restriction_content n =
     (case find_map (\<lambda>c.
          if node_name c = ''sequence'' then Some (Sequence (visit_particle_children c))
          else if node_name c = ''all'' then Some (All (visit_particle_children c))
          else if node_name c = ''choice'' then Some (Choice (visit_particle_children c))
          else None) (xs_children n) of
        Some cc \<Rightarrow> cc
      | None \<Rightarrow> EmptyContent)"
| "visit_particle_children n =
     concat (map (\<lambda>c.
         if node_name c = ''element'' then [visit_element c]
         else if node_name c = ''any'' then [any_as_element (visit_any c)]
         else if node_name c = ''sequence'' then visit_particle_children c
         else if node_name c = ''choice'' then visit_particle_children c
         else if node_name c = ''all'' then visit_particle_children c
         else []) (xs_children n))"
| "visit_element n =
     XsdElement (node_attribute n ''name'')
       (map_option (\<lambda>t. resolve_qname t n) (node_attribute n ''type''))
       (find_map (\<lambda>c.
          if node_name c = ''complexType'' then Some (Complex (visit_complex_type c))
          else if node_name c = ''simpleType'' then Some (Simple (visit_simple_type c))
          else None) (xs_children n))
       (parse_min_occurs n) (parse_max_occurs n)
       (case node_attribute n ''nillable'' of Some v \<Rightarrow> v = ''true'' | None \<Rightarrow> False)
       (node_attribute n ''default'') (node_attribute n ''fixed'')
       (map_option (\<lambda>r. resolve_qname r n) (node_attribute n ''ref''))"

declare visit_complex_type.simps [simp del] visit_complex_content.simps [simp del]
  visit_extension.simps [simp del] visit_complex_restriction_content.simps [simp del]
  visit_particle_children.simps [simp del] visit_element.simps [simp del]

definition visit_sequence :: "xnode \<Rightarrow> xsd_element list" where
  "visit_sequence n = visit_particle_children n"

definition visit_all :: "xnode \<Rightarrow> xsd_element list" where
  "visit_all n = visit_particle_children n"

definition visit_choice :: "xnode \<Rightarrow> xsd_element list" where
  "visit_choice n = visit_particle_children n"

definition visit_group_def :: "xnode \<Rightarrow> group_def option" where
  "visit_group_def n =
     (case node_attribute n ''name'' of
        None \<Rightarrow> None
      | Some name \<Rightarrow>
          (let content =
             fold (\<lambda>c content.
                 if node_name c = ''sequence'' then Some (GSequence (visit_sequence c))
                 else if node_name c = ''all'' then Some (GAll (visit_all c))
                 else if node_name c = ''choice'' then Some (GChoice (visit_choice c))
                 else content)
               (xs_children n) None
           in Some \<lparr>g_name = name,
                    g_content = (case content of Some g \<Rightarrow> g | None \<Rightarrow> GSequence [])\<rparr>))"

section \<open>Schemas\<close>

definition empty_raw_schema :: "string option \<Rightarrow> raw_schema" where
  "empty_raw_schema tns =
     \<lparr>rs_target_namespace = tns, rs_types = [], rs_elements = [], rs_attribute_groups = [],
      rs_groups = [], rs_imports = [], rs_includes = []\<rparr>"

definition parse_schema_child :: "string option \<Rightarrow> xnode \<Rightarrow> raw_schema \<Rightarrow> raw_schema" where
  "parse_schema_child tns c s =
     (let t = node_name c; name = map_option (\<lambda>n. qualify_name n tns) (node_attribute c ''name'') in
      if t = ''complexType'' then
        (case name of
           Some q \<Rightarrow> s\<lparr>rs_types := hm_insert q (Complex (visit_complex_type c)) (rs_types s)\<rparr>
         | None \<Rightarrow> s)
      else if t = ''simpleType'' then
        (case name of
           Some q \<Rightarrow> s\<lparr>rs_types := hm_insert q (Simple (visit_simple_type c)) (rs_types s)\<rparr>
         | None \<Rightarrow> s)
      else if t = ''element'' then
        (case name of
           Some q \<Rightarrow> s\<lparr>rs_elements := hm_insert q (visit_element c) (rs_elements s)\<rparr>
         | None \<Rightarrow> s)
      else if t = ''attributeGroup'' then
        (case visit_attribute_group_def c of
           Some ag \<Rightarrow> s\<lparr>rs_attribute_groups :=
             hm_insert (qualify_name (ag_name ag) tns) ag (rs_attribute_groups s)\<rparr>
         | None \<Rightarrow> s)
      else if t = ''group'' then
        (case visit_group_def c of
           Some g \<Rightarrow> s\<lparr>rs_groups := hm_insert (qualify_name (g_name g) tns) g (rs_groups s)\<rparr>
         | None \<Rightarrow> s)
      else if t = ''import'' then
        s\<lparr>rs_imports := rs_imports s @
            [\<lparr>si_namespace = node_attribute c ''namespace'',
              si_schema_location = node_attribute c ''schemaLocation''\<rparr>]\<rparr>
      else if t = ''include'' then
        (case node_attribute c ''schemaLocation'' of
           Some loc \<Rightarrow> s\<lparr>rs_includes := rs_includes s @ [\<lparr>inc_schema_location = loc\<rparr>]\<rparr>
         | None \<Rightarrow> s)
      else s)"

definition parse_schema :: "xnode \<Rightarrow> schema_error + raw_schema" where
  "parse_schema n =
     (let tns = node_attribute n ''targetNamespace''
      in Inr (fold (parse_schema_child tns) (xs_children n) (empty_raw_schema tns)))"

section \<open>Properties\<close>

text \<open>What a schema declares is declared in its target namespace.\<close>

definition keys_in :: "string option \<Rightarrow> raw_schema \<Rightarrow> bool" where
  "keys_in tns s \<longleftrightarrow>
     (\<forall>q \<in> set (hm_keys (rs_types s)) \<union> set (hm_keys (rs_elements s)) \<union>
        set (hm_keys (rs_groups s)) \<union> set (hm_keys (rs_attribute_groups s)). namespace q = tns)"

definition maps_wf :: "raw_schema \<Rightarrow> bool" where
  "maps_wf s \<longleftrightarrow> hm_wf (rs_types s) \<and> hm_wf (rs_elements s) \<and> hm_wf (rs_groups s) \<and> hm_wf (rs_attribute_groups s)"

lemma parse_schema_child_ok:
  assumes "keys_in tns s" and "maps_wf s"
  shows "keys_in tns (parse_schema_child tns c s) \<and> maps_wf (parse_schema_child tns c s)"
  using assms unfolding parse_schema_child_def Let_def keys_in_def maps_wf_def
  by (auto simp: hm_keys_insert split: option.splits simp del: set_map)

lemma fold_invariant_list:
  "I s \<Longrightarrow> (\<And>x s. I s \<Longrightarrow> I (f x s)) \<Longrightarrow> I (fold f xs s)"
  by (induction xs arbitrary: s) auto

text \<open>
  Every type, element, group and attribute group that a schema declares is filed under
  the schema's own target namespace, and under one entry per name.
\<close>

theorem parse_schema_declares_in_target_namespace:
  "\<exists>s. parse_schema n = Inr s \<and> keys_in (node_attribute n ''targetNamespace'') s \<and> maps_wf s"
proof -
  let ?tns = "node_attribute n ''targetNamespace''"
  let ?s = "fold (parse_schema_child ?tns) (xs_children n) (empty_raw_schema ?tns)"
  have "keys_in ?tns ?s \<and> maps_wf ?s"
  proof (rule fold_invariant_list)
    show "keys_in ?tns (empty_raw_schema ?tns) \<and> maps_wf (empty_raw_schema ?tns)"
      by (simp add: keys_in_def maps_wf_def empty_raw_schema_def)
  next
    fix c s assume "keys_in ?tns s \<and> maps_wf s"
    then show "keys_in ?tns (parse_schema_child ?tns c s) \<and> maps_wf (parse_schema_child ?tns c s)"
      using parse_schema_child_ok by blast
  qed
  then show ?thesis by (simp add: parse_schema_def Let_def)
qed

text \<open>An element node of the schema language.\<close>

definition xs_node ::
  "string \<Rightarrow> (string option \<times> string \<times> string) list \<Rightarrow> xnode list \<Rightarrow> xnode" where
  "xs_node name as cs = Elem (Some XS_NS) name as [] cs"

lemma xs_node_sel [simp]:
  "node_name (xs_node name as cs) = name" "node_ns (xs_node name as cs) = Some XS_NS"
  "node_children (xs_node name as cs) = cs" "is_element (xs_node name as cs)"
  "node_attrs (xs_node name as cs) = as"
  by (simp_all add: xs_node_def)

lemma xs_children_node [simp]: "xs_children (xs_node name as [xs_node name' as' cs]) = [xs_node name' as' cs]"
  by (simp add: xs_children_def element_children_def)

text \<open>
  A choice (or any other particle) nested in a sequence is flattened into it: the
  content model is the one in which its branches stand in the sequence themselves, so the
  alternatives become separate particles, each with its own minimal occurrence.
\<close>

theorem nested_choice_is_flattened:
  "ct_content (visit_complex_type (xs_node ''complexType'' as
       [xs_node ''sequence'' as1 [xs_node ''choice'' as2 cs]])) =
   ct_content (visit_complex_type (xs_node ''complexType'' as [xs_node ''sequence'' as1 cs]))"
proof -
  have "xs_children (xs_node ''choice'' as2 cs) = xs_children (xs_node ''sequence'' as1 cs)"
    by (simp add: xs_children_def element_children_def)
  then have "visit_particle_children (xs_node ''choice'' as2 cs) =
      visit_particle_children (xs_node ''sequence'' as1 cs)"
    by (simp add: visit_particle_children.simps)
  moreover have "visit_particle_children (xs_node ''sequence'' as1 [xs_node ''choice'' as2 cs]) =
      visit_particle_children (xs_node ''choice'' as2 cs)"
    by (subst visit_particle_children.simps) simp
  ultimately show ?thesis by (simp add: visit_complex_type.simps)
qed

text \<open>Reading the occurrence attributes.\<close>

lemma parse_min_occurs_bound: "parse_min_occurs n < u64_bound"
  by (auto simp: parse_min_occurs_def parse_u64_attr_def u64_bound_def [symmetric]
      dest: parse_u64_bound split: option.splits bind_splits)
    (simp_all add: u64_bound_def)

end
