(* ===== verification/XsdResolver.thy ===== *)
theory XsdResolver
  imports XsdParser
begin

text \<open>
  \<open>src/src/xsd/resolver.rs\<close>: the second pass. It collects the schemas reachable through
  imports and includes into one flat map, resolves every complex type with its extension
  chain, and registers the anonymous types of global elements. Two recursions of the
  source may not return (nested groups and nested attribute groups have no cycle check),
  and neither may the collection of schemas when the loader never runs out of locations,
  so these are \<^theory_text>\<open>partial_function\<close>s: \<open>None\<close> is "does not return".
\<close>

section \<open>Results that may not return\<close>

type_synonym 'a dres = "(schema_error + 'a) option"

definition dbind :: "'a dres \<Rightarrow> ('a \<Rightarrow> 'b dres) \<Rightarrow> 'b dres" where
  "dbind m f = (case m of None \<Rightarrow> None | Some (Inl e) \<Rightarrow> Some (Inl e) | Some (Inr x) \<Rightarrow> f x)"

lemma dbind_simps [simp]:
  "dbind None f = None" "dbind (Some (Inl e)) f = Some (Inl e)" "dbind (Some (Inr x)) f = f x"
  by (simp_all add: dbind_def)

lemma dbind_cong [fundef_cong]:
  "m = m' \<Longrightarrow> (\<And>x. m' = Some (Inr x) \<Longrightarrow> f x = g x) \<Longrightarrow> dbind m f = dbind m' g"
  by (auto simp: dbind_def split: option.splits sum.splits)

lemma dbind_Ok_iff: "dbind m f = Some (Inr y) \<longleftrightarrow> (\<exists>x. m = Some (Inr x) \<and> f x = Some (Inr y))"
  by (auto simp: dbind_def split: option.splits sum.splits)

lemma dbind_None_iff: "dbind m f = None \<longleftrightarrow> m = None \<or> (\<exists>x. m = Some (Inr x) \<and> f x = None)"
  by (auto simp: dbind_def split: option.splits sum.splits)

section \<open>The flat map of all schemas\<close>

record flat_type_map =
  ft_types :: "(qname, xsd_type) hashmap"
  ft_attribute_groups :: "(qname, attribute_group) hashmap"
  ft_groups :: "(qname, group_def) hashmap"
  ft_elements :: "(qname, xsd_element) hashmap"

definition empty_flat :: flat_type_map where
  "empty_flat = \<lparr>ft_types = [], ft_attribute_groups = [], ft_groups = [], ft_elements = []\<rparr>"

definition flat_extend :: "flat_type_map \<Rightarrow> raw_schema \<Rightarrow> flat_type_map" where
  "flat_extend f s =
     \<lparr>ft_types = hm_extend (ft_types f) (rs_types s),
      ft_attribute_groups = hm_extend (ft_attribute_groups f) (rs_attribute_groups s),
      ft_groups = hm_extend (ft_groups f) (rs_groups s),
      ft_elements = hm_extend (ft_elements f) (rs_elements s)\<rparr>"

text \<open>
  The loader trait and its null instance. Parsing a text into a tree is \<open>rox\<close>.
\<close>

type_synonym schema_loader = "string option \<Rightarrow> string \<Rightarrow> schema_error + string"

type_synonym rox_parser = "string \<Rightarrow> string + xnode"

definition null_schema_loader :: schema_loader where
  "null_schema_loader ns loc = Inl (SchUnknownRef (''NullSchemaLoader cannot load: '' @ loc))"

text \<open>Loading one location that was not loaded before, and pushing its schema.\<close>

definition load_schema ::
  "schema_loader \<Rightarrow> rox_parser \<Rightarrow> string option \<Rightarrow> string \<Rightarrow>
   raw_schema list \<times> string set \<Rightarrow> schema_error + (raw_schema list \<times> string set)" where
  "load_schema loader rox ns loc st =
     (case st of (queue, loaded) \<Rightarrow>
        if loc \<in> loaded then Inr (queue, loaded)
        else
          res_bind (loader ns loc) (\<lambda>text.
          res_bind (map_err SchMalformedXml (rox text)) (\<lambda>root.
          res_bind (parse_schema root) (\<lambda>raw.
          Inr (raw # queue, insert loc loaded)))))"

definition process_imports ::
  "schema_loader \<Rightarrow> rox_parser \<Rightarrow> schema_import list \<Rightarrow>
   raw_schema list \<times> string set \<Rightarrow> schema_error + (raw_schema list \<times> string set)" where
  "process_imports loader rox =
     res_fold (\<lambda>i st.
       case si_schema_location i of
         Some loc \<Rightarrow> load_schema loader rox (si_namespace i) loc st
       | None \<Rightarrow> Inr st)"

definition process_includes ::
  "schema_loader \<Rightarrow> rox_parser \<Rightarrow> schema_include list \<Rightarrow>
   raw_schema list \<times> string set \<Rightarrow> schema_error + (raw_schema list \<times> string set)" where
  "process_includes loader rox =
     res_fold (\<lambda>i. load_schema loader rox None (inc_schema_location i))"

text \<open>
  The work list of the source is a vector used as a stack; here its top is the head.
\<close>

partial_function (option) collect_loop ::
  "schema_loader \<Rightarrow> rox_parser \<Rightarrow> raw_schema list \<Rightarrow> flat_type_map \<Rightarrow> string set \<Rightarrow>
   (flat_type_map \<times> string set) dres" where
  "collect_loop loader rox queue flat loaded =
     (case queue of
        [] \<Rightarrow> Some (Inr (flat, loaded))
      | schema # rest \<Rightarrow>
          (case res_bind (process_imports loader rox (rs_imports schema) (rest, loaded))
                  (process_includes loader rox (rs_includes schema)) of
             Inl e \<Rightarrow> Some (Inl e)
           | Inr (queue', loaded') \<Rightarrow>
               collect_loop loader rox queue' (flat_extend flat schema) loaded'))"

definition collect_all_schemas ::
  "raw_schema \<Rightarrow> schema_loader \<Rightarrow> rox_parser \<Rightarrow> string set \<Rightarrow> (flat_type_map \<times> string set) dres" where
  "collect_all_schemas raw loader rox loaded = collect_loop loader rox [raw] empty_flat loaded"

section \<open>Resolving elements and attributes\<close>

fun extract_elements :: "complex_content \<Rightarrow> xsd_element list" where
  "extract_elements (Sequence els) = els"
| "extract_elements (All els) = els"
| "extract_elements (Choice els) = els"
| "extract_elements (ComplexExtension _ _) = []"
| "extract_elements (ComplexRestriction _ _) = []"
| "extract_elements (SimpleContent _) = []"
| "extract_elements EmptyContent = []"

fun group_elements :: "group_content \<Rightarrow> xsd_element list" where
  "group_elements (GSequence els) = els"
| "group_elements (GAll els) = els"
| "group_elements (GChoice els) = els"

partial_function (option) resolve_element_list ::
  "flat_type_map \<Rightarrow> xsd_element list \<Rightarrow> xsd_element list option" where
  "resolve_element_list flat elements =
     (case elements of
        [] \<Rightarrow> Some []
      | el # els \<Rightarrow>
          if el_name el = Some any_marker then
            Option.bind (resolve_element_list flat els) (\<lambda>r. Some (el # r))
          else
            (case el_ref el of
               Some q \<Rightarrow>
                 (case hm_get (ft_groups flat) q of
                    Some g \<Rightarrow>
                      Option.bind (resolve_element_list flat (group_elements (g_content g)))
                        (\<lambda>inlined. Option.bind (resolve_element_list flat els)
                          (\<lambda>r. Some (inlined @ r)))
                  | None \<Rightarrow>
                      (case hm_get (ft_elements flat) q of
                         Some global \<Rightarrow>
                           Option.bind (resolve_element_list flat els) (\<lambda>r. Some (global # r))
                       | None \<Rightarrow> resolve_element_list flat els))
             | None \<Rightarrow> Option.bind (resolve_element_list flat els) (\<lambda>r. Some (el # r))))"

text \<open>The nested references of an attribute group, expanded one after the other.\<close>

partial_function (option) expand_group_refs ::
  "flat_type_map \<Rightarrow> qname list \<Rightarrow> xsd_attribute list option" where
  "expand_group_refs flat refs =
     (case refs of
        [] \<Rightarrow> Some []
      | r # rs \<Rightarrow>
          (case hm_get (ft_attribute_groups flat) r of
             Some ag \<Rightarrow>
               Option.bind (expand_group_refs flat (ag_groups ag)) (\<lambda>nested.
               Option.bind (expand_group_refs flat rs) (\<lambda>others.
               Some (ag_attributes ag @ nested @ others)))
           | None \<Rightarrow> expand_group_refs flat rs))"

definition expand_attribute_group :: "attribute_group \<Rightarrow> flat_type_map \<Rightarrow> xsd_attribute list option" where
  "expand_attribute_group ag flat =
     map_option (\<lambda>nested. ag_attributes ag @ nested) (expand_group_refs flat (ag_groups ag))"

fun resolve_attributes :: "xsd_attribute list \<Rightarrow> flat_type_map \<Rightarrow> xsd_attribute list option" where
  "resolve_attributes [] flat = Some []"
| "resolve_attributes (a # as) flat =
     (case Option.bind (at_ref a) (hm_get (ft_attribute_groups flat)) of
        Some ag \<Rightarrow>
          Option.bind (expand_attribute_group ag flat) (\<lambda>expanded.
          Option.bind (resolve_attributes as flat) (\<lambda>r. Some (expanded @ r)))
      | None \<Rightarrow> Option.bind (resolve_attributes as flat) (\<lambda>r. Some (a # r)))"

section \<open>Resolving types\<close>

type_synonym memo = "(qname, complex_type) hashmap"

text \<open>An external or simple base is opaque.\<close>

definition opaque_type :: complex_type where
  "opaque_type = ComplexType None EmptyContent []"

definition lift_elements ::
  "(xsd_element list \<Rightarrow> complex_content) \<Rightarrow> memo \<Rightarrow> xsd_element list option \<Rightarrow> (complex_content \<times> memo) dres" where
  "lift_elements mk memo r = map_option (\<lambda>els. Inr (mk els, memo)) r"

text \<open>
  \<open>resolving\<close> is the set of types being resolved further up; every successful return of
  the source removes what it added, so the model hands it down only. \<open>memo\<close> is the
  map of finished types.
\<close>

function resolve_named_type ::
    "qname \<Rightarrow> flat_type_map \<Rightarrow> memo \<Rightarrow> qname set \<Rightarrow> (complex_type \<times> memo) dres"
  and resolve_complex_type ::
    "complex_type \<Rightarrow> flat_type_map \<Rightarrow> memo \<Rightarrow> qname set \<Rightarrow> (complex_type \<times> memo) dres"
  and resolve_content ::
    "complex_content \<Rightarrow> flat_type_map \<Rightarrow> memo \<Rightarrow> qname set \<Rightarrow> (complex_content \<times> memo) dres" where
  "resolve_named_type q flat memo resolving =
     (case hm_get memo q of
        Some ct \<Rightarrow> Some (Inr (ct, memo))
      | None \<Rightarrow>
          if q \<in> resolving then Some (Inl (SchCycleDetected (qname_to_string q)))
          else
            (case hm_get (ft_types flat) q of
               None \<Rightarrow> Some (Inr (opaque_type, memo))
             | Some (Simple _) \<Rightarrow> Some (Inr (opaque_type, memo))
             | Some (Complex raw) \<Rightarrow>
                 dbind (resolve_complex_type raw flat memo (insert q resolving))
                   (\<lambda>(ct, memo'). Some (Inr (ct, hm_insert q ct memo')))))"
| "resolve_complex_type raw flat memo resolving =
     dbind (resolve_content (ct_content raw) flat memo resolving) (\<lambda>(content, memo').
       case resolve_attributes (ct_attributes raw) flat of
         None \<Rightarrow> None
       | Some attrs \<Rightarrow> Some (Inr (ComplexType (ct_name raw) content attrs, memo')))"
| "resolve_content (ComplexExtension base child) flat memo resolving =
     dbind (resolve_named_type base flat memo resolving) (\<lambda>(base_ct, memo1).
     dbind (resolve_content child flat memo1 resolving) (\<lambda>(child', memo2).
     Some (Inr (Sequence (extract_elements (ct_content base_ct) @ extract_elements child'), memo2))))"
| "resolve_content (ComplexRestriction base child) flat memo resolving =
     resolve_content child flat memo resolving"
| "resolve_content (Sequence els) flat memo resolving =
     lift_elements Sequence memo (resolve_element_list flat els)"
| "resolve_content (All els) flat memo resolving =
     lift_elements All memo (resolve_element_list flat els)"
| "resolve_content (Choice els) flat memo resolving =
     lift_elements Choice memo (resolve_element_list flat els)"
| "resolve_content (SimpleContent scd) flat memo resolving = Some (Inr (SimpleContent scd, memo))"
| "resolve_content EmptyContent flat memo resolving = Some (Inr (EmptyContent, memo))"
  by pat_completeness auto

text \<open>Unresolved names strictly shrink at each named type; below that, the content does.\<close>

definition open_types :: "flat_type_map \<Rightarrow> qname set \<Rightarrow> nat" where
  "open_types flat resolving = card (set (hm_keys (ft_types flat)) - resolving)"

lemma open_types_insert:
  assumes "hm_get (ft_types flat) q = Some t" and "q \<notin> resolving"
  shows "open_types flat (insert q resolving) < open_types flat resolving"
proof -
  have "q \<in> set (hm_keys (ft_types flat))"
    using assms(1) hm_get_None_iff [of "ft_types flat" q] by auto
  then have "set (hm_keys (ft_types flat)) - insert q resolving \<subset> set (hm_keys (ft_types flat)) - resolving"
    using assms(2) by blast
  then show ?thesis unfolding open_types_def by (rule psubset_card_mono [rotated]) simp
qed

termination resolve_named_type
  by (relation "inv_image (less_than <*lex*> less_than)
      (case_sum (\<lambda>(q, flat, memo, resolving). (open_types flat resolving, 0))
        (case_sum (\<lambda>(ct, flat, memo, resolving). (open_types flat resolving, Suc (Suc (size (ct_content ct)))))
          (\<lambda>(cc, flat, memo, resolving). (open_types flat resolving, Suc (size cc)))))")
    (auto intro: open_types_insert)

declare resolve_named_type.simps [simp del] resolve_complex_type.simps [simp del]

section \<open>The registry of a schema\<close>

definition register_simple :: "flat_type_map \<Rightarrow> type_registry" where
  "register_simple flat =
     fold (\<lambda>(q, t) r. case t of Simple _ \<Rightarrow> registry_insert q t r | Complex _ \<Rightarrow> r)
       (ft_types flat) registry_new"

definition complex_qnames :: "flat_type_map \<Rightarrow> qname list" where
  "complex_qnames flat =
     filter (\<lambda>k. case hm_get (ft_types flat) k of Some (Complex _) \<Rightarrow> True | _ \<Rightarrow> False)
       (hm_keys (ft_types flat))"

fun resolve_types_loop :: "qname list \<Rightarrow> flat_type_map \<Rightarrow> memo \<Rightarrow> memo dres" where
  "resolve_types_loop [] flat memo = Some (Inr memo)"
| "resolve_types_loop (q # qs) flat memo =
     (case hm_get memo q of
        Some _ \<Rightarrow> resolve_types_loop qs flat memo
      | None \<Rightarrow>
          dbind (resolve_named_type q flat memo {}) (\<lambda>(ct, memo').
          resolve_types_loop qs flat (hm_insert q ct memo')))"

definition register_complex :: "memo \<Rightarrow> type_registry \<Rightarrow> type_registry" where
  "register_complex memo r = fold (\<lambda>(q, ct). registry_insert q (Complex ct)) memo r"

fun register_elements ::
  "(qname \<times> xsd_element) list \<Rightarrow> flat_type_map \<Rightarrow> type_registry \<Rightarrow> type_registry option" where
  "register_elements [] flat r = Some r"
| "register_elements ((q, el) # els) flat r =
     (if registry_lookup r q \<noteq> None then register_elements els flat r
      else
        (case el_inline_type el of
           Some (Complex raw) \<Rightarrow>
             (case resolve_complex_type raw flat [] {} of
                None \<Rightarrow> None
              | Some (Inr (ct, _)) \<Rightarrow> register_elements els flat (registry_insert q (Complex ct) r)
              | Some (Inl _) \<Rightarrow> register_elements els flat r)
         | _ \<Rightarrow> register_elements els flat r))"

definition resolve_flat :: "flat_type_map \<Rightarrow> type_registry dres" where
  "resolve_flat flat =
     dbind (resolve_types_loop (complex_qnames flat) flat []) (\<lambda>memo.
       map_option Inr (register_elements (ft_elements flat) flat
         (register_complex memo (register_simple flat))))"

definition resolve_schema ::
  "raw_schema \<Rightarrow> schema_loader \<Rightarrow> rox_parser \<Rightarrow> string set \<Rightarrow> (type_registry \<times> string set) dres" where
  "resolve_schema raw loader rox loaded =
     dbind (collect_all_schemas raw loader rox loaded) (\<lambda>(flat, loaded').
     dbind (resolve_flat flat) (\<lambda>registry. Some (Inr (registry, loaded'))))"

end
