(* ===== verification/WsdlResolver.thy ===== *)
theory WsdlResolver
  imports WsdlParser XsdResolver
begin

text \<open>
  \<open>src/src/wsdl/resolver.rs\<close>: the second pass over a WSDL document, which loads the
  imported documents, merges their tables and resolves the inline schemas, and the
  rewriting of \<open>soap:address\<close> locations when a WSDL is served. The mutable arguments
  of the recursion are gathered in \<open>resolve_state\<close>. The recursion over imports and the
  XSD layer may not return, so the results are of type \<open>wres\<close>, where \<open>None\<close> is "does
  not return".
\<close>

section \<open>Results and loaders\<close>

record resolved_wsdl =
  rw_definition :: wsdl_definition
  rw_type_registry :: type_registry
  rw_element_type_map :: "(qname, qname) hashmap"
  rw_raw_bytes :: bytes

type_synonym wsdl_loader = "string \<Rightarrow> wsdl_error + bytes"

type_synonym 'a wres = "(wsdl_error + 'a) option"

definition wbind :: "'a wres \<Rightarrow> ('a \<Rightarrow> 'b wres) \<Rightarrow> 'b wres" where
  "wbind m f = (case m of None \<Rightarrow> None | Some (Inl e) \<Rightarrow> Some (Inl e) | Some (Inr x) \<Rightarrow> f x)"

lemma wbind_simps [simp]:
  "wbind None f = None" "wbind (Some (Inl e)) f = Some (Inl e)" "wbind (Some (Inr x)) f = f x"
  by (simp_all add: wbind_def)

lemma wbind_Ok_iff: "wbind m f = Some (Inr y) \<longleftrightarrow> (\<exists>x. m = Some (Inr x) \<and> f x = Some (Inr y))"
  by (auto simp: wbind_def split: option.splits sum.splits)

text \<open>The \<open>Display\<close> of the two error types.\<close>

fun schema_error_to_string :: "schema_error \<Rightarrow> string" where
  "schema_error_to_string (SchMalformedXml m) = ''Malformed XML: '' @ m"
| "schema_error_to_string (SchUnknownRef m) = ''Unknown reference: '' @ m"
| "schema_error_to_string (SchCycleDetected m) = ''Cycle detected: '' @ m"

fun wsdl_error_to_string :: "wsdl_error \<Rightarrow> string" where
  "wsdl_error_to_string (MalformedXml m) = ''Malformed WSDL XML: '' @ m"
| "wsdl_error_to_string (MissingAttribute m) = ''Missing required attribute: '' @ m"
| "wsdl_error_to_string (UnknownNamespace m) = ''Unknown namespace prefix: '' @ m"

definition schema_loader_adapter :: "wsdl_loader \<Rightarrow> schema_loader" where
  "schema_loader_adapter loader ns loc =
     res_bind
       (map_err (\<lambda>e. SchUnknownRef (''WsdlLoader error for '' @ loc @ '': '' @ wsdl_error_to_string e))
         (loader loc))
       (\<lambda>bytes. ok_or (SchMalformedXml (''UTF-8 error: '' @ utf8_error bytes)) (from_utf8 bytes))"

section \<open>Inline schemas\<close>

record resolve_state =
  visited :: "string set"
  loaded_schemas :: "string set"
  acc_types :: "(qname, xsd_type) hashmap"
  acc_element_types :: "(qname, qname) hashmap"

definition resolve_start :: "string set \<Rightarrow> resolve_state" where
  "resolve_start v = \<lparr>visited = v, loaded_schemas = {}, acc_types = [], acc_element_types = []\<rparr>"

text \<open>The entry of a global element: itself for an inline type, else the type it names.\<close>

definition note_element ::
  "qname \<times> xsd_element \<Rightarrow> (qname, qname) hashmap \<Rightarrow> (qname, qname) hashmap" where
  "note_element qe m =
     (case qe of (q, e) \<Rightarrow>
        if el_inline_type e \<noteq> None then hm_or_insert q q m
        else (case el_type_ref e of Some t \<Rightarrow> hm_or_insert q t m | None \<Rightarrow> m))"

definition resolve_inline_schema ::
  "rox_parser \<Rightarrow> schema_loader \<Rightarrow> string \<Rightarrow> resolve_state \<Rightarrow> resolve_state wres" where
  "resolve_inline_schema rox sl text st =
     wbind (Some (map_err (\<lambda>e. MalformedXml (''inline schema parse error: '' @ e)) (rox text))) (\<lambda>root.
     wbind (Some (map_err (\<lambda>e. MalformedXml (''inline schema xsd parse error: '' @ schema_error_to_string e))
                   (parse_schema root))) (\<lambda>raw.
     let elems = fold note_element (rs_elements raw) (acc_element_types st) in
     wbind (map_option (map_err (\<lambda>e. MalformedXml (''schema resolution error: '' @ schema_error_to_string e)))
             (resolve_schema raw sl rox (loaded_schemas st))) (\<lambda>(registry, loaded).
     Some (Inr (st\<lparr>loaded_schemas := loaded,
                   acc_types := hm_merge (acc_types st) (registry_into_iter registry),
                   acc_element_types := elems\<rparr>)))))"

fun resolve_inline_schemas ::
  "rox_parser \<Rightarrow> schema_loader \<Rightarrow> string list \<Rightarrow> resolve_state \<Rightarrow> resolve_state wres" where
  "resolve_inline_schemas rox sl [] st = Some (Inr st)"
| "resolve_inline_schemas rox sl (s # ss) st =
     wbind (resolve_inline_schema rox sl s st) (resolve_inline_schemas rox sl ss)"

section \<open>Imports\<close>

definition merge_definitions :: "wsdl_definition \<Rightarrow> wsdl_definition \<Rightarrow> wsdl_definition" where
  "merge_definitions d i =
     d\<lparr>messages := hm_merge (messages d) (messages i),
       port_types := hm_merge (port_types d) (port_types i),
       bindings := hm_merge (bindings d) (bindings i),
       services := hm_merge (services d) (services i)\<rparr>"

definition snapshot_registry :: "(qname, xsd_type) hashmap \<Rightarrow> type_registry" where
  "snapshot_registry ts = fold (\<lambda>(q, t). registry_insert q t) ts registry_new"

text \<open>
  \<open>resolve_wsdl_inner\<close> is the loop over the imports still to come of a document whose
  merged definition is \<open>d\<close>, with what follows the loop at its end; an imported document
  is parsed and its own imports looped over first.
\<close>

partial_function (option) resolve_imports ::
  "rox_parser \<Rightarrow> wsdl_loader \<Rightarrow> bytes \<Rightarrow> wsdl_import list \<Rightarrow> wsdl_definition \<Rightarrow> resolve_state \<Rightarrow>
   (resolved_wsdl \<times> resolve_state) wres" where
  "resolve_imports rox loader raw imports d st =
     (case imports of
        [] \<Rightarrow>
          wbind (resolve_inline_schemas rox (schema_loader_adapter loader) (schemas (wsdl_types d)) st)
            (\<lambda>st'. Some (Inr
               (\<lparr>rw_definition = d, rw_type_registry = snapshot_registry (acc_types st'),
                 rw_element_type_map = acc_element_types st', rw_raw_bytes = raw\<rparr>, st')))
      | i # is \<Rightarrow>
          (case imp_location i of
             None \<Rightarrow> resolve_imports rox loader raw is d st
           | Some location \<Rightarrow>
               if location \<in> visited st then resolve_imports rox loader raw is d st
               else
                 (case res_bind (loader location) (\<lambda>b. res_bind (parse_wsdl rox b) (\<lambda>id. Inr (b, id))) of
                    Inl e \<Rightarrow> Some (Inl e)
                  | Inr (b, imported) \<Rightarrow>
                      Option.bind
                        (resolve_imports rox loader b (wsdl_imports imported) imported
                           (st\<lparr>visited := insert location (visited st)\<rparr>))
                        (\<lambda>res. case res of
                           Inl e \<Rightarrow> Some (Inl e)
                         | Inr (rw, st') \<Rightarrow>
                             resolve_imports rox loader raw is
                               (merge_definitions d (rw_definition rw)) st'))))"

definition resolve_wsdl_inner ::
  "rox_parser \<Rightarrow> wsdl_loader \<Rightarrow> bytes \<Rightarrow> resolve_state \<Rightarrow> (resolved_wsdl \<times> resolve_state) wres" where
  "resolve_wsdl_inner rox loader bytes st =
     wbind (Some (parse_wsdl rox bytes)) (\<lambda>d. resolve_imports rox loader bytes (wsdl_imports d) d st)"

definition resolve_wsdl ::
  "rox_parser \<Rightarrow> wsdl_loader \<Rightarrow> bytes \<Rightarrow> string set \<Rightarrow> (resolved_wsdl \<times> string set) wres" where
  "resolve_wsdl rox loader bytes vis =
     wbind (resolve_wsdl_inner rox loader bytes (resolve_start vis))
       (\<lambda>(rw, st). Some (Inr (rw, visited st)))"

lemma import_result_Ok_iff:
  "(case y of Inl e \<Rightarrow> Some (Inl e) | Inr (a, b) \<Rightarrow> g a b) = Some (Inr z) \<longleftrightarrow>
     (\<exists>a b. y = Inr (a, b) \<and> g a b = Some (Inr z))"
  by (auto split: sum.splits)

text \<open>Induction over a run of the import loop that succeeds.\<close>

lemma resolve_imports_induct [consumes 1, case_names finish skip imported]:
  assumes run: "resolve_imports rox loader raw is d st = Some (Inr (rw, st'))"
    and finish: "\<And>raw d st st'.
      resolve_inline_schemas rox (schema_loader_adapter loader) (schemas (wsdl_types d)) st = Some (Inr st') \<Longrightarrow>
      P raw [] d st
        \<lparr>rw_definition = d, rw_type_registry = snapshot_registry (acc_types st'),
         rw_element_type_map = acc_element_types st', rw_raw_bytes = raw\<rparr> st'"
    and skip: "\<And>raw i is d st rw st'.
      imp_location i = None \<or> (\<exists>l. imp_location i = Some l \<and> l \<in> visited st) \<Longrightarrow>
      P raw is d st rw st' \<Longrightarrow> P raw (i # is) d st rw st'"
    and imported: "\<And>raw i is d st l b imp rw1 st1 rw st'.
      imp_location i = Some l \<Longrightarrow> l \<notin> visited st \<Longrightarrow> loader l = Inr b \<Longrightarrow> parse_wsdl rox b = Inr imp \<Longrightarrow>
      P b (wsdl_imports imp) imp (st\<lparr>visited := insert l (visited st)\<rparr>) rw1 st1 \<Longrightarrow>
      P raw is (merge_definitions d (rw_definition rw1)) st1 rw st' \<Longrightarrow>
      P raw (i # is) d st rw st'"
  shows "P raw is d st rw st'"
proof -
  define Q where "Q = (\<lambda>rox' loader' raw is d st (res :: wsdl_error + resolved_wsdl \<times> resolve_state).
    rox' = rox \<longrightarrow> loader' = loader \<longrightarrow> (\<forall>rw st'. res = Inr (rw, st') \<longrightarrow> P raw is d st rw st'))"
  have "resolve_imports r l raw is d st = Some res \<Longrightarrow> Q r l raw is d st res" for r l raw "is" d st res
  proof (induction r l raw "is" d st res rule: resolve_imports.raw_induct [rotated, consumes 1, case_names step])
    case (step f rox' loader' raw "is" d st res)
    note IH = step(1) and eq = step(2)
    show "Q rox' loader' raw is d st res"
      unfolding Q_def
    proof (intro impI allI)
      fix rw st'
      assume same: "rox' = rox" "loader' = loader" and res: "res = Inr (rw, st')"
      have IH': "P raw is d st rw st'" if "f rox loader raw is d st = Some (Inr (rw, st'))" for raw "is" d st rw st'
        using IH [OF that] by (simp add: Q_def)
      show "P raw is d st rw st'"
      proof (cases "is")
        case Nil
        with eq res same show ?thesis by (auto simp: wbind_Ok_iff intro: finish)
      next
        case (Cons i rest)
        show ?thesis
        proof (cases "imp_location i = None \<or> (\<exists>l. imp_location i = Some l \<and> l \<in> visited st)")
          case True
          with eq res same Cons have "f rox loader raw rest d st = Some (Inr (rw, st'))" by auto
          from skip [OF True IH' [OF this]] Cons show ?thesis by simp
        next
          case False
          then obtain l where l: "imp_location i = Some l" "l \<notin> visited st" by auto
          with eq res same Cons obtain b imp rw1 st1 where
            "loader l = Inr b" "parse_wsdl rox b = Inr imp"
            and "f rox loader b (wsdl_imports imp) imp (st\<lparr>visited := insert l (visited st)\<rparr>) = Some (Inr (rw1, st1))"
            and "f rox loader raw rest (merge_definitions d (rw_definition rw1)) st1 = Some (Inr (rw, st'))"
            by (auto simp: res_simps bind_eq_Some_conv import_result_Ok_iff split: sum.split_asm)
          with imported [OF l] IH' Cons show ?thesis by blast
        qed
      qed
    qed
  qed
  from this [OF run] show ?thesis by (simp add: Q_def)
qed

lemma resolve_wsdl_Ok_iff:
  "resolve_wsdl rox loader bytes vis = Some (Inr (rw, vis')) \<longleftrightarrow>
     (\<exists>d st. parse_wsdl rox bytes = Inr d \<and>
        resolve_imports rox loader bytes (wsdl_imports d) d (resolve_start vis) = Some (Inr (rw, st)) \<and>
        vis' = visited st)"
  by (auto simp: resolve_wsdl_def resolve_wsdl_inner_def wbind_Ok_iff)

lemma resolve_imports_raw_bytes:
  "resolve_imports rox loader raw is d st = Some (Inr (rw, st')) \<Longrightarrow> rw_raw_bytes rw = raw"
  by (induction rule: resolve_imports_induct) simp_all

section \<open>Serving a WSDL\<close>

text \<open>
  Both rewriters read events, write every event back and stop at the end or at the first
  error. The bytes of the result are the writer's; the model returns the events written.
  A pushed attribute carries its raw value, so the new location is escaped by \<open>esc\<close>.
\<close>

definition event_local :: "bytes \<Rightarrow> string" where
  "event_local name = utf8_or_empty (local_part name)"

definition rewrite_attr :: "string \<Rightarrow> bytes \<times> bytes \<Rightarrow> attr" where
  "rewrite_attr url kv =
     (if utf8_or_empty (fst kv) = ''location'' then Attr ''location'' url else Attr (fst kv) (snd kv))"

definition rewrite_tag :: "(string \<Rightarrow> string) \<Rightarrow> string \<Rightarrow> tag \<Rightarrow> tag" where
  "rewrite_tag esc url e =
     Tag (case from_utf8 (tag_name e) of Some n \<Rightarrow> n | None \<Rightarrow> ''address'')
       (map (rewrite_attr (esc url)) (attrs_ok (tag_attrs e)))"

fun rewrite_event :: "(string \<Rightarrow> string) \<Rightarrow> string \<Rightarrow> event \<Rightarrow> event" where
  "rewrite_event esc url (EvStart e) =
     (if event_local (tag_name e) = ''address'' then EvStart (rewrite_tag esc url e) else EvStart e)"
| "rewrite_event esc url (EvEmpty e) =
     (if event_local (tag_name e) = ''address'' then EvEmpty (rewrite_tag esc url e) else EvEmpty e)"
| "rewrite_event esc url ev = ev"

fun rewrite_loop :: "(string \<Rightarrow> string) \<Rightarrow> string \<Rightarrow> reader \<Rightarrow> event list" where
  "rewrite_loop esc url [] = []"
| "rewrite_loop esc url (Inl e # r) = []"
| "rewrite_loop esc url (Inr (_, ev) # r) =
     (if ev = EvEof then [] else rewrite_event esc url ev # rewrite_loop esc url r)"

definition rewrite_wsdl_address ::
  "tokenizer \<Rightarrow> (event list \<Rightarrow> bytes) \<Rightarrow> (string \<Rightarrow> string) \<Rightarrow> bytes \<Rightarrow> string \<Rightarrow> bytes" where
  "rewrite_wsdl_address tok wr esc bytes url = wr (rewrite_loop esc url (tok False bytes))"

text \<open>The \<open>name\<close> attribute, decoded, or the empty string.\<close>

definition name_attr :: "tag \<Rightarrow> string" where
  "name_attr e =
     (case find (\<lambda>(k, _). utf8_or_empty k = ''name'') (attrs_ok (tag_attrs e)) of
        Some (_, v) \<Rightarrow> utf8_or_empty v
      | None \<Rightarrow> [])"

record port_scan =
  sc_ports :: "string set"
  in_target_service :: bool
  service_depth :: int

definition note_port :: "tag \<Rightarrow> port_scan \<Rightarrow> port_scan" where
  "note_port e s = (if name_attr e \<noteq> [] then s\<lparr>sc_ports := insert (name_attr e) (sc_ports s)\<rparr> else s)"

fun port_scan_step :: "string \<Rightarrow> event \<Rightarrow> port_scan \<Rightarrow> port_scan" where
  "port_scan_step svc (EvStart e) s =
     (if event_local (tag_name e) = ''service'' then
        (if name_attr e = svc then s\<lparr>in_target_service := True, service_depth := 1\<rparr> else s)
      else if in_target_service s then
        (let s' = s\<lparr>service_depth := service_depth s + 1\<rparr> in
         if event_local (tag_name e) = ''port'' \<and> service_depth s' = 2 then note_port e s' else s')
      else s)"
| "port_scan_step svc (EvEmpty e) s =
     (if in_target_service s \<and> event_local (tag_name e) = ''port'' \<and> service_depth s = 1
      then note_port e s else s)"
| "port_scan_step svc (EvEnd n) s =
     (if in_target_service s then
        (let s' = s\<lparr>service_depth := service_depth s - 1\<rparr>
         in if service_depth s' = 0 then s'\<lparr>in_target_service := False\<rparr> else s')
      else s)"
| "port_scan_step svc _ s = s"

fun port_scan_loop :: "string \<Rightarrow> reader \<Rightarrow> port_scan \<Rightarrow> string set" where
  "port_scan_loop svc [] s = sc_ports s"
| "port_scan_loop svc (Inl e # r) s = sc_ports s"
| "port_scan_loop svc (Inr (_, ev) # r) s =
     (if ev = EvEof then sc_ports s else port_scan_loop svc r (port_scan_step svc ev s))"

definition target_port_names :: "string \<Rightarrow> reader \<Rightarrow> string set" where
  "target_port_names svc r =
     port_scan_loop svc r \<lparr>sc_ports = {}, in_target_service = False, service_depth = 0\<rparr>"

text \<open>The second pass: its two variables are whether it is in a matched port, and its depth there.\<close>

fun service_rewrite_step ::
  "(string \<Rightarrow> string) \<Rightarrow> string \<Rightarrow> string set \<Rightarrow> event \<Rightarrow> bool \<times> int \<Rightarrow> event \<times> (bool \<times> int)" where
  "service_rewrite_step esc url target (EvStart e) (matched, depth) =
     (if event_local (tag_name e) = ''port'' then
        (EvStart e,
         if name_attr e \<in> target then (True, 1)
         else if matched then (True, depth + 1) else (False, depth))
      else if matched \<and> event_local (tag_name e) = ''address'' then
        (EvStart (rewrite_tag esc url e), (matched, depth + 1))
      else (EvStart e, (matched, if matched then depth + 1 else depth)))"
| "service_rewrite_step esc url target (EvEmpty e) (matched, depth) =
     (if event_local (tag_name e) = ''port'' then
        (EvEmpty e, if name_attr e \<in> target then (True, 0) else (matched, depth))
      else if matched \<and> event_local (tag_name e) = ''address'' then
        (EvEmpty (rewrite_tag esc url e), (matched, depth))
      else (EvEmpty e, (matched, depth)))"
| "service_rewrite_step esc url target (EvEnd n) (matched, depth) =
     (EvEnd n,
      if matched then (if depth - 1 \<le> 0 then (False, 0) else (True, depth - 1)) else (matched, depth))"
| "service_rewrite_step esc url target ev st = (ev, st)"

fun service_rewrite_loop ::
  "(string \<Rightarrow> string) \<Rightarrow> string \<Rightarrow> string set \<Rightarrow> reader \<Rightarrow> bool \<times> int \<Rightarrow> event list" where
  "service_rewrite_loop esc url target [] st = []"
| "service_rewrite_loop esc url target (Inl e # r) st = []"
| "service_rewrite_loop esc url target (Inr (_, ev) # r) st =
     (if ev = EvEof then []
      else (case service_rewrite_step esc url target ev st of (ev', st') \<Rightarrow>
              ev' # service_rewrite_loop esc url target r st'))"

definition rewrite_wsdl_address_for_service ::
  "tokenizer \<Rightarrow> (event list \<Rightarrow> bytes) \<Rightarrow> (string \<Rightarrow> string) \<Rightarrow> bytes \<Rightarrow> string \<Rightarrow> string \<Rightarrow> bytes" where
  "rewrite_wsdl_address_for_service tok wr esc bytes url svc =
     (if svc = [] then rewrite_wsdl_address tok wr esc bytes url
      else
        (let r = tok False bytes
         in wr (service_rewrite_loop esc url (target_port_names svc r) r (False, 0))))"

section \<open>Facts about runs\<close>

lemma inline_schema_visited:
  "resolve_inline_schema rox sl s st = Some (Inr st') \<Longrightarrow> visited st' = visited st"
  by (auto simp: resolve_inline_schema_def wbind_Ok_iff Let_def)

lemma inline_schemas_visited:
  "resolve_inline_schemas rox sl ss st = Some (Inr st') \<Longrightarrow> visited st' = visited st"
  by (induction ss arbitrary: st) (fastforce simp: wbind_Ok_iff dest: inline_schema_visited)+

lemma resolve_imports_visited:
  "resolve_imports rox loader raw is d st = Some (Inr (rw, st')) \<Longrightarrow>
   visited st \<subseteq> visited st' \<and> (\<forall>i \<in> set is. \<forall>l. imp_location i = Some l \<longrightarrow> l \<in> visited st')"
proof (induction rule: resolve_imports_induct)
  case (finish raw d st st')
  then show ?case by (simp add: inline_schemas_visited)
next
  case (skip raw i "is" d st rw st')
  then show ?case by auto
next
  case (imported raw i "is" d st l b imp rw1 st1 rw st')
  then show ?case by auto
qed

lemma hm_get_merge_keeps: "hm_get m k = Some v \<Longrightarrow> hm_get (hm_merge m new) k = Some v"
  by (simp add: hm_get_merge)

text \<open>The tables of one definition are contained in those of another.\<close>

definition extends_definition :: "wsdl_definition \<Rightarrow> wsdl_definition \<Rightarrow> bool" where
  "extends_definition d d' \<longleftrightarrow>
     (\<forall>k v. hm_get (messages d) k = Some v \<longrightarrow> hm_get (messages d') k = Some v) \<and>
     (\<forall>k v. hm_get (port_types d) k = Some v \<longrightarrow> hm_get (port_types d') k = Some v) \<and>
     (\<forall>k v. hm_get (bindings d) k = Some v \<longrightarrow> hm_get (bindings d') k = Some v) \<and>
     (\<forall>k v. hm_get (services d) k = Some v \<longrightarrow> hm_get (services d') k = Some v) \<and>
     target_namespace d' = target_namespace d \<and> wsdl_types d' = wsdl_types d"

lemma extends_merge: "extends_definition d (merge_definitions d i)"
  by (simp add: extends_definition_def merge_definitions_def hm_get_merge_keeps)

lemma extends_trans: "extends_definition d d' \<Longrightarrow> extends_definition d' d'' \<Longrightarrow> extends_definition d d''"
  by (auto simp: extends_definition_def)

lemma resolve_imports_extends:
  "resolve_imports rox loader raw is d st = Some (Inr (rw, st')) \<Longrightarrow> extends_definition d (rw_definition rw)"
proof (induction rule: resolve_imports_induct)
  case (finish raw d st st')
  then show ?case by (simp add: extends_definition_def)
next
  case (imported raw i "is" d st l b imp rw1 st1 rw st')
  then show ?case using extends_merge extends_trans by blast
qed

text \<open>Every name that one definition has a table entry for has an entry in another.\<close>

definition covers_definition :: "wsdl_definition \<Rightarrow> wsdl_definition \<Rightarrow> bool" where
  "covers_definition d d' \<longleftrightarrow>
     (\<forall>k. hm_get (messages d') k = None \<longrightarrow> hm_get (messages d) k = None) \<and>
     (\<forall>k. hm_get (port_types d') k = None \<longrightarrow> hm_get (port_types d) k = None) \<and>
     (\<forall>k. hm_get (bindings d') k = None \<longrightarrow> hm_get (bindings d) k = None) \<and>
     (\<forall>k. hm_get (services d') k = None \<longrightarrow> hm_get (services d) k = None)"

text \<open>Every table entry of a definition is an entry of one of a set of definitions.\<close>

definition drawn_from :: "wsdl_definition set \<Rightarrow> wsdl_definition \<Rightarrow> bool" where
  "drawn_from D d' \<longleftrightarrow>
     (\<forall>k v. hm_get (messages d') k = Some v \<longrightarrow> (\<exists>d \<in> D. hm_get (messages d) k = Some v)) \<and>
     (\<forall>k v. hm_get (port_types d') k = Some v \<longrightarrow> (\<exists>d \<in> D. hm_get (port_types d) k = Some v)) \<and>
     (\<forall>k v. hm_get (bindings d') k = Some v \<longrightarrow> (\<exists>d \<in> D. hm_get (bindings d) k = Some v)) \<and>
     (\<forall>k v. hm_get (services d') k = Some v \<longrightarrow> (\<exists>d \<in> D. hm_get (services d) k = Some v))"

text \<open>What the documents at some locations define.\<close>

definition documents_at :: "rox_parser \<Rightarrow> wsdl_loader \<Rightarrow> string set \<Rightarrow> wsdl_definition set" where
  "documents_at rox loader L = {d. \<exists>l \<in> L. \<exists>b. loader l = Inr b \<and> parse_wsdl rox b = Inr d}"

lemma extends_covers: "extends_definition d d' \<Longrightarrow> covers_definition d d'"
  unfolding extends_definition_def covers_definition_def by (metis option.exhaust)

lemma covers_trans: "covers_definition d d' \<Longrightarrow> covers_definition d' d'' \<Longrightarrow> covers_definition d d''"
  by (simp add: covers_definition_def)

lemma covers_merge: "covers_definition i (merge_definitions d i)"
  by (auto simp: covers_definition_def merge_definitions_def hm_get_merge split: option.splits)

lemma drawn_mono: "drawn_from D d \<Longrightarrow> D \<subseteq> E \<Longrightarrow> drawn_from E d"
  unfolding drawn_from_def by blast

lemma drawn_trans: "drawn_from D d \<Longrightarrow> \<forall>d \<in> D. drawn_from E d \<Longrightarrow> drawn_from E d"
  unfolding drawn_from_def by blast

lemma drawn_merge: "drawn_from {d, i} (merge_definitions d i)"
  by (auto simp: drawn_from_def merge_definitions_def hm_get_merge split: option.splits)

lemma drawn_self: "d \<in> D \<Longrightarrow> drawn_from D d"
  unfolding drawn_from_def by blast

lemma documents_at_split:
  "d \<in> documents_at rox loader (L'' - L) \<Longrightarrow> loader l = Inr b \<Longrightarrow> parse_wsdl rox b = Inr imp \<Longrightarrow>
   d = imp \<or> d \<in> documents_at rox loader (L' - insert l L) \<or> d \<in> documents_at rox loader (L'' - L')"
  unfolding documents_at_def by fastforce

lemma resolve_imports_union:
  "resolve_imports rox loader raw is d st = Some (Inr (rw, st')) \<Longrightarrow>
   visited st \<subseteq> visited st' \<and> extends_definition d (rw_definition rw) \<and>
   (\<forall>i \<in> documents_at rox loader (visited st' - visited st). covers_definition i (rw_definition rw)) \<and>
   drawn_from (insert d (documents_at rox loader (visited st' - visited st))) (rw_definition rw)"
proof (induction rule: resolve_imports_induct)
  case (finish raw d st st')
  then show ?case by (simp add: inline_schemas_visited documents_at_def drawn_self extends_definition_def)
next
  case (skip raw i "is" d st rw st')
  then show ?case by simp
next
  case (imported raw j "is" d st l b imp rw1 st1 rw st')
  let ?new = "documents_at rox loader (visited st' - visited st)"
  let ?rw = "rw_definition rw" and ?rw1 = "rw_definition rw1"
  from imported.IH(1) have first: "visited st \<subseteq> visited st1" "l \<in> visited st1" "extends_definition imp ?rw1"
    "\<forall>i \<in> documents_at rox loader (visited st1 - insert l (visited st)). covers_definition i ?rw1"
    "drawn_from (insert imp (documents_at rox loader (visited st1 - insert l (visited st)))) ?rw1" by auto
  from imported.IH(2) have rest: "visited st1 \<subseteq> visited st'" "extends_definition (merge_definitions d ?rw1) ?rw"
    "\<forall>i \<in> documents_at rox loader (visited st' - visited st1). covers_definition i ?rw"
    "drawn_from (insert (merge_definitions d ?rw1) (documents_at rox loader (visited st' - visited st1))) ?rw" by auto
  have into: "covers_definition ?rw1 ?rw"
    by (rule covers_trans [OF covers_merge extends_covers [OF rest(2)]])
  have "covers_definition i ?rw" if "i \<in> ?new" for i
    using documents_at_split [OF that imported.hyps(3,4), of "visited st1"]
      covers_trans [OF _ into] extends_covers [OF first(3)] first(4) rest(3) by blast
  moreover have "drawn_from (insert d ?new) ?rw"
  proof (rule drawn_trans [OF rest(4)], rule ballI)
    have sub: "documents_at rox loader (visited st' - visited st1) \<subseteq> ?new"
      "insert imp (documents_at rox loader (visited st1 - insert l (visited st))) \<subseteq> ?new"
      using first(1,2) rest(1) imported.hyps(2-4) by (auto simp: documents_at_def)
    fix e
    assume "e \<in> insert (merge_definitions d ?rw1) (documents_at rox loader (visited st' - visited st1))"
    moreover have "drawn_from (insert d ?new) (merge_definitions d ?rw1)"
      using drawn_mono [OF first(5)] sub(2) by (intro drawn_trans [OF drawn_merge]) (auto intro: drawn_self)
    ultimately show "drawn_from (insert d ?new) e" using sub(1) by (auto intro: drawn_self)
  qed
  moreover have "extends_definition d ?rw" by (rule extends_trans [OF extends_merge rest(2)])
  ultimately show ?case using first(1) rest(1) by auto
qed

lemma resolve_imports_returns:
  assumes fin: "finite {l. \<exists>b. loader l = Inr b}"
    and schemas: "\<And>s st. s \<in> S \<Longrightarrow> resolve_inline_schema rox (schema_loader_adapter loader) s st \<noteq> None"
    and imported: "\<And>l b imp. loader l = Inr b \<Longrightarrow> parse_wsdl rox b = Inr imp \<Longrightarrow> set (schemas (wsdl_types imp)) \<subseteq> S"
    and "set (schemas (wsdl_types d)) \<subseteq> S"
  shows "resolve_imports rox loader raw is d st \<noteq> None"
  using assms(4)
proof (induction "(card ({l. \<exists>b. loader l = Inr b} - visited st), length is)" arbitrary: raw "is" d st
    rule: wf_induct_rule [OF wf_lex_prod [OF wf_less_than wf_less_than]])
  case 1
  let ?L = "{l. \<exists>b. loader l = Inr b}"
  have inline: "resolve_inline_schemas rox (schema_loader_adapter loader) ss st \<noteq> None" if "set ss \<subseteq> S" for ss st
    using schemas that by (induction ss arbitrary: st) (auto simp: wbind_def split: option.split sum.split)
  show ?case
  proof (cases "is")
    case Nil
    then show ?thesis using inline [OF 1(2), of st]
      by (subst resolve_imports.simps) (auto simp: wbind_def split: option.split sum.split)
  next
    case (Cons i rest)
    have skip: "resolve_imports rox loader raw rest d st \<noteq> None"
      by (rule 1(1) [OF _ 1(2)]) (simp add: Cons)
    show ?thesis
    proof (cases "\<exists>l b imp. imp_location i = Some l \<and> l \<notin> visited st \<and> loader l = Inr b \<and> parse_wsdl rox b = Inr imp")
      case False
      with skip show ?thesis
        by (subst resolve_imports.simps) (auto simp: Cons res_bind_def split: option.split sum.split)
    next
      case True
      then obtain l b imp where l: "imp_location i = Some l" "l \<notin> visited st" "loader l = Inr b"
        "parse_wsdl rox b = Inr imp" by blast
      have smaller: "card (?L - V) < card (?L - visited st)" if "insert l (visited st) \<subseteq> V" for V
        using that l(2,3) fin by (intro psubset_card_mono) auto
      let ?st = "st\<lparr>visited := insert l (visited st)\<rparr>"
      have first: "resolve_imports rox loader b (wsdl_imports imp) imp ?st \<noteq> None"
        by (rule 1(1) [OF _ imported [OF l(3,4)]]) (use smaller [of "insert l (visited st)"] in simp)
      have second: "resolve_imports rox loader raw rest (merge_definitions d d') st1 \<noteq> None"
        if "resolve_imports rox loader b (wsdl_imports imp) imp ?st = Some (Inr (rw, st1))" for rw st1 d'
        by (rule 1(1)) (use smaller [of "visited st1"] resolve_imports_visited [OF that] 1(2) in
          \<open>simp_all add: merge_definitions_def\<close>)
      obtain res where res: "resolve_imports rox loader b (wsdl_imports imp) imp ?st = Some res"
        using first by blast
      show ?thesis
      proof (cases res)
        case (Inl e)
        with res l show ?thesis by (subst resolve_imports.simps) (simp add: Cons)
      next
        case (Inr r)
        obtain rw st1 where r: "r = (rw, st1)" by force
        have "resolve_imports rox loader raw rest (merge_definitions d (rw_definition rw)) st1 \<noteq> None"
          by (rule second) (simp add: res Inr r)
        with res l Inr r show ?thesis by (subst resolve_imports.simps) (simp add: Cons)
      qed
    qed
  qed
qed

text \<open>\<open>rewrite_event\<close> keeps everything but the values of location attributes.\<close>

definition same_but_location :: "string \<Rightarrow> bytes \<times> bytes \<Rightarrow> attr \<Rightarrow> bool" where
  "same_but_location url kv a \<longleftrightarrow>
     (if utf8_or_empty (fst kv) = ''location'' then a = Attr ''location'' url else a = Attr (fst kv) (snd kv))"

definition rewritten_tag :: "string \<Rightarrow> tag \<Rightarrow> tag \<Rightarrow> bool" where
  "rewritten_tag url e e' \<longleftrightarrow>
     tag_name e' = tag_name e \<and> list_all2 (same_but_location url) (attrs_ok (tag_attrs e)) (tag_attrs e')"

definition rewritten :: "string \<Rightarrow> event \<Rightarrow> event \<Rightarrow> bool" where
  "rewritten url ev ev' \<longleftrightarrow>
     (case (ev, ev') of
        (EvStart e, EvStart e') \<Rightarrow>
          if event_local (tag_name e) = ''address'' then rewritten_tag url e e' else e' = e
      | (EvEmpty e, EvEmpty e') \<Rightarrow>
          if event_local (tag_name e) = ''address'' then rewritten_tag url e e' else e' = e
      | _ \<Rightarrow> ev' = ev)"

lemma event_local_utf8: "event_local n = ''address'' \<Longrightarrow> utf8_valid (local_part n)"
  by (auto simp: event_local_def utf8_or_empty_def from_utf8_def split: if_splits)

lemma rewrite_tag_rewritten:
  "utf8_valid (tag_name e) \<Longrightarrow> rewritten_tag (esc url) e (rewrite_tag esc url e)"
  by (auto simp: rewritten_tag_def rewrite_tag_def from_utf8_def list_all2_map2 list_all2_same
      same_but_location_def rewrite_attr_def)

section \<open>Properties\<close>

text \<open>
  C7. Imports only add. The definitions of the resolved WSDL (messages, port types, bindings,
  services) are those of the root and of the documents loaded for its imports, directly or
  through others, together: what the root defines under a name is what stands under that name,
  every name that an imported document defines is defined, and nothing else is; the types section,
  the target namespace and the bytes kept for serving are the root's.
\<close>

theorem imports_only_add:
  assumes "resolve_wsdl rox loader bytes vis = Some (Inr (rw, vis'))"
  shows "\<exists>d. parse_wsdl rox bytes = Inr d \<and> extends_definition d (rw_definition rw) \<and> rw_raw_bytes rw = bytes \<and>
    (\<forall>i \<in> set (wsdl_imports d). \<forall>l. imp_location i = Some l \<longrightarrow> l \<in> vis') \<and>
    (\<forall>i \<in> documents_at rox loader (vis' - vis). covers_definition i (rw_definition rw)) \<and>
    drawn_from (insert d (documents_at rox loader (vis' - vis))) (rw_definition rw)"
proof -
  from assms obtain d st where "parse_wsdl rox bytes = Inr d" and "vis' = visited st"
    and run: "resolve_imports rox loader bytes (wsdl_imports d) d (resolve_start vis) = Some (Inr (rw, st))"
    by (auto simp: resolve_wsdl_Ok_iff)
  with resolve_imports_union [OF run] resolve_imports_visited [OF run] resolve_imports_raw_bytes [OF run]
  show ?thesis by (simp add: resolve_start_def)
qed

text \<open>Two documents that import each other and define a message of the same name.\<close>

definition sample_message :: "string \<Rightarrow> message" where
  "sample_message t = \<lparr>msg_name = ''m'', parts = [\<lparr>mp_name = t, mp_element = None, mp_type_ref = None\<rparr>]\<rparr>"

definition sample_rox :: rox_parser where
  "sample_rox text = Inr (Elem (Some WSDL_NS) ''definitions'' [(None, ''targetNamespace'', text)] []
     [Elem (Some WSDL_NS) ''import''
        [(None, ''location'', if text = ''a'' then ''b'' else ''a'')] [] [],
      Elem (Some WSDL_NS) ''message'' [(None, ''name'', ''m'')] []
        [Elem (Some WSDL_NS) ''part'' [(None, ''name'', text)] [] []],
      Elem (Some WSDL_NS) ''message'' [(None, ''name'', ''only-'' @ text)] [] []])"

definition sample_loader :: wsdl_loader where
  "sample_loader l = (if l = ''a'' \<or> l = ''b'' then Inr l else Inl (MalformedXml l))"

lemma sample_doc:
  "t = ''a'' \<or> t = ''b'' \<Longrightarrow> parse_wsdl sample_rox t =
     Inr ((empty_definition t)\<lparr>wsdl_imports :=
       [\<lparr>imp_namespace = [], imp_location = Some (if t = ''a'' then ''b'' else ''a'')\<rparr>],
       messages := [(''m'', sample_message t), (''only-'' @ t, \<lparr>msg_name = ''only-'' @ t, parts = []\<rparr>)]\<rparr>)"
  by (auto simp: parse_wsdl_def sample_rox_def from_utf8_def utf8_valid_ascii is_ascii_def byte_def
      node_attribute_def element_children_def parse_wsdl_child_def node_ns_or_empty_def parse_import_def
      parse_message_def parse_message_part_def required_attr_def resolve_optional_def ok_or_def hm_insert_def
      sample_message_def empty_definition_def)

lemma sample_run:
  "\<exists>rw. resolve_wsdl sample_rox sample_loader ''a'' {} = Some (Inr (rw, {''b'', ''a''}))"
proof -
  have finish: "resolve_imports sample_rox sample_loader raw [] d st = Some (Inr
      (\<lparr>rw_definition = d, rw_type_registry = snapshot_registry (acc_types st),
        rw_element_type_map = acc_element_types st, rw_raw_bytes = raw\<rparr>, st))"
    if "wsdl_types d = \<lparr>schemas = []\<rparr>" for raw d st
    using that by (subst resolve_imports.simps) simp
  have step: "resolve_imports sample_rox sample_loader raw (i # is) d st =
      (case imp_location i of
         None \<Rightarrow> resolve_imports sample_rox sample_loader raw is d st
       | Some location \<Rightarrow>
           if location \<in> visited st then resolve_imports sample_rox sample_loader raw is d st
           else
             (case res_bind (sample_loader location) (\<lambda>b. res_bind (parse_wsdl sample_rox b) (\<lambda>id. Inr (b, id))) of
                Inl e \<Rightarrow> Some (Inl e)
              | Inr (b, imported) \<Rightarrow>
                  Option.bind
                    (resolve_imports sample_rox sample_loader b (wsdl_imports imported) imported
                       (st\<lparr>visited := insert location (visited st)\<rparr>))
                    (\<lambda>res. case res of
                       Inl e \<Rightarrow> Some (Inl e)
                     | Inr (rw, st') \<Rightarrow>
                         resolve_imports sample_rox sample_loader raw is (merge_definitions d (rw_definition rw)) st')))"
    for raw i "is" d st
    by (subst resolve_imports.simps) simp
  show ?thesis
    by (simp add: resolve_wsdl_def resolve_wsdl_inner_def sample_doc step finish sample_loader_def
        resolve_start_def empty_definition_def merge_definitions_def insert_commute)
qed

lemma imports_only_add_witness:
  "\<exists>rw vis. resolve_wsdl sample_rox sample_loader ''a'' {} = Some (Inr (rw, vis)) \<and> ''b'' \<in> vis \<and>
     hm_get (messages (rw_definition rw)) ''m'' = Some (sample_message ''a'') \<and>
     hm_get (messages (rw_definition rw)) ''only-b'' \<noteq> None"
proof -
  obtain rw where run: "resolve_wsdl sample_rox sample_loader ''a'' {} = Some (Inr (rw, {''b'', ''a''}))"
    using sample_run by blast
  from imports_only_add [OF run] obtain d where d: "parse_wsdl sample_rox ''a'' = Inr d"
    "extends_definition d (rw_definition rw)"
    "\<forall>i \<in> documents_at sample_rox sample_loader {''b'', ''a''}. covers_definition i (rw_definition rw)" by auto
  obtain b where b: "parse_wsdl sample_rox ''b'' = Inr b" "hm_get (messages b) ''only-b'' \<noteq> None"
    using sample_doc [of "''b''"] by (simp add: hm_get_def)
  then have "b \<in> documents_at sample_rox sample_loader {''b'', ''a''}"
    by (auto simp: documents_at_def sample_loader_def)
  with d(3) have "covers_definition b (rw_definition rw)" ..
  with b(2) have "hm_get (messages (rw_definition rw)) ''only-b'' \<noteq> None"
    unfolding covers_definition_def by metis
  moreover have "hm_get (messages (rw_definition rw)) ''m'' = Some (sample_message ''a'')"
    using d(1,2) sample_doc [of "''a''"] by (auto simp: extends_definition_def hm_get_def)
  ultimately show ?thesis using run by blast
qed

definition event_ok :: "event \<Rightarrow> bool" where
  "event_ok ev \<longleftrightarrow>
     (case ev of EvStart e \<Rightarrow> utf8_valid (tag_name e) | EvEmpty e \<Rightarrow> utf8_valid (tag_name e)
      | EvEof \<Rightarrow> False | _ \<Rightarrow> True)"

lemma rewrite_event_rewritten: "event_ok ev \<Longrightarrow> rewritten (esc url) ev (rewrite_event esc url ev)"
  by (cases ev) (simp_all add: event_ok_def rewritten_def rewrite_tag_rewritten)

text \<open>
  C29. Serving a WSDL changes nothing but addresses: every event of the document is written
  back in order, and only the location attributes of elements named \<open>address\<close> differ,
  which hold the escaped URL of the server.
\<close>

theorem rewrite_changes_only_locations:
  assumes "tok False bytes = map (\<lambda>ev. Inr (Unbound, ev)) evs" and "list_all event_ok evs"
  shows "\<exists>evs'. rewrite_wsdl_address tok wr esc bytes url = wr evs' \<and>
    list_all2 (rewritten (esc url)) evs evs'"
proof -
  have "list_all2 (rewritten (esc url)) evs (rewrite_loop esc url (map (\<lambda>ev. Inr (Unbound, ev)) evs))"
    using assms(2)
  proof (induction evs)
    case Nil
    then show ?case by simp
  next
    case (Cons ev evs)
    then show ?case using rewrite_event_rewritten [of ev] by (auto simp: event_ok_def)
  qed
  then show ?thesis by (auto simp: rewrite_wsdl_address_def assms(1))
qed

definition address_event :: "bytes \<Rightarrow> event" where
  "address_event url = EvEmpty (Tag ''soap:address'' [Attr ''location'' url])"

lemma rewrite_changes_only_locations_witness:
  "\<exists>evs'. rewrite_wsdl_address (\<lambda>_ _. map (\<lambda>ev. Inr (Unbound, ev)) [address_event ''urn:old'']) (\<lambda>_. ''out'') id
     ''w'' ''urn:new'' = ''out'' \<and> list_all2 (rewritten ''urn:new'') [address_event ''urn:old''] evs'"
  using rewrite_changes_only_locations
    [of "\<lambda>_ _. map (\<lambda>ev. Inr (Unbound, ev)) [address_event ''urn:old'']" "''w''" "[address_event ''urn:old'']" "\<lambda>_. ''out''" id "''urn:new''"]
  by (auto simp: event_ok_def address_event_def utf8_valid_ascii is_ascii_def byte_def)

definition service_events :: "bytes \<Rightarrow> bytes \<Rightarrow> bytes \<Rightarrow> event list" where
  "service_events svc prt url =
     [EvStart (Tag ''wsdl:service'' [Attr ''name'' svc]), EvStart (Tag ''wsdl:port'' [Attr ''name'' prt]),
      address_event url, EvEnd ''wsdl:port'', EvEnd ''wsdl:service'']"

definition two_services :: reader where
  "two_services = map (\<lambda>ev. Inr (Unbound, ev)) (service_events ''A'' ''P'' ''urn:a'' @ service_events ''B'' ''P'' ''urn:b'')"

lemma wsdl_names [simp]:
  "event_local ''wsdl:service'' = ''service''" "event_local ''wsdl:port'' = ''port''"
  "event_local ''soap:address'' = ''address''"
  by (simp_all add: event_local_def local_part_def utf8_valid_ascii is_ascii_def byte_def)

lemma name_attr_name [simp]: "is_ascii v \<Longrightarrow> name_attr (Tag n [Attr ''name'' v]) = v"
  by (simp add: name_attr_def utf8_valid_ascii is_ascii_def byte_def)

text \<open>
  Rewriting for one service is not confined to it: in a WSDL with two services whose
  ports have the same name, asking for the first service rewrites the address of the second
  one too.
\<close>

theorem service_rewrite_leaks:
  "rewrite_wsdl_address_for_service (\<lambda>_ _. two_services) wr esc bytes url ''A'' =
     wr (service_events ''A'' ''P'' (esc url) @ service_events ''B'' ''P'' (esc url))"
  by (simp add: rewrite_wsdl_address_for_service_def two_services_def service_events_def target_port_names_def
      note_port_def address_event_def rewrite_tag_def rewrite_attr_def from_utf8_def utf8_valid_ascii is_ascii_def byte_def Let_def)

end
