(* ===== verification/XsdSemantics.thy ===== *)
theory XsdSemantics
  imports XsdResolver
begin

text \<open>
  What type resolution means: \<open>resolves_type\<close> relates the name of a type to its
  expansion, without a memo and without a set of open names. The lemmas show that the
  resolver of \<open>src/src/xsd/resolver.rs\<close> computes this relation, that its cycle error is
  exact, when it returns, and what the registry of a schema holds.
\<close>

section \<open>The relation\<close>

inductive resolves_type :: "flat_type_map \<Rightarrow> qname \<Rightarrow> complex_type \<Rightarrow> bool"
  and resolves_content :: "flat_type_map \<Rightarrow> complex_content \<Rightarrow> complex_content \<Rightarrow> bool"
  for flat :: flat_type_map where
  rt_unknown: "hm_get (ft_types flat) q = None \<Longrightarrow> resolves_type flat q opaque_type"
| rt_simple: "hm_get (ft_types flat) q = Some (Simple s) \<Longrightarrow> resolves_type flat q opaque_type"
| rt_complex: "hm_get (ft_types flat) q = Some (Complex raw) \<Longrightarrow>
    resolves_content flat (ct_content raw) cc \<Longrightarrow>
    resolve_attributes (ct_attributes raw) flat = Some attrs \<Longrightarrow>
    resolves_type flat q (ComplexType (ct_name raw) cc attrs)"
| rc_extension: "resolves_type flat base b \<Longrightarrow> resolves_content flat child cc \<Longrightarrow>
    resolves_content flat (ComplexExtension base child)
      (Sequence (extract_elements (ct_content b) @ extract_elements cc))"
| rc_restriction: "resolves_content flat child cc \<Longrightarrow>
    resolves_content flat (ComplexRestriction base child) cc"
| rc_sequence: "resolve_element_list flat els = Some els' \<Longrightarrow>
    resolves_content flat (Sequence els) (Sequence els')"
| rc_all: "resolve_element_list flat els = Some els' \<Longrightarrow> resolves_content flat (All els) (All els')"
| rc_choice: "resolve_element_list flat els = Some els' \<Longrightarrow>
    resolves_content flat (Choice els) (Choice els')"
| rc_simple: "resolves_content flat (SimpleContent scd) (SimpleContent scd)"
| rc_empty: "resolves_content flat EmptyContent EmptyContent"

inductive_cases resolves_typeE: "resolves_type flat q ct"
inductive_simps resolves_content_simps [simp]:
  "resolves_content flat (ComplexExtension base child) cc"
  "resolves_content flat (ComplexRestriction base child) cc"
  "resolves_content flat (Sequence els) cc"
  "resolves_content flat (All els) cc"
  "resolves_content flat (Choice els) cc"
  "resolves_content flat (SimpleContent scd) cc"
  "resolves_content flat EmptyContent cc"

lemma resolves_unique:
  "resolves_type flat q ct \<Longrightarrow> \<forall>ct'. resolves_type flat q ct' \<longrightarrow> ct' = ct"
  "resolves_content flat c cc \<Longrightarrow> \<forall>cc'. resolves_content flat c cc' \<longrightarrow> cc' = cc"
proof (induction rule: resolves_type_resolves_content.inducts)
  case (rt_complex q raw cc attrs)
  show ?case
  proof (intro allI impI)
    fix ct' assume "resolves_type flat q ct'"
    with rt_complex(1,4) obtain cc' where "resolves_content flat (ct_content raw) cc'"
      and ct': "ct' = ComplexType (ct_name raw) cc' attrs"
      by (auto elim!: resolves_typeE simp del: resolves_content_simps)
    with rt_complex(3) have "cc' = cc" by blast
    with ct' show "ct' = ComplexType (ct_name raw) cc attrs" by simp
  qed
next
  case (rt_unknown q)
  then show ?case by (auto elim!: resolves_typeE)
next
  case (rt_simple q s)
  then show ?case by (auto elim!: resolves_typeE)
next
  case (rc_extension base b child cc)
  then show ?case by (metis resolves_content_simps(1))
qed simp_all

section \<open>The resolver computes the relation\<close>

text \<open>What the memo holds: right expansions of complex types, each once.\<close>

definition memo_ok :: "flat_type_map \<Rightarrow> memo \<Rightarrow> bool" where
  "memo_ok flat memo \<longleftrightarrow>
     hm_wf memo \<and>
     (\<forall>q ct. hm_get memo q = Some ct \<longrightarrow>
        resolves_type flat q ct \<and> (\<exists>raw. hm_get (ft_types flat) q = Some (Complex raw)))"

lemma memo_ok_empty [simp]: "memo_ok flat []"
  by (simp add: memo_ok_def)

lemma memo_ok_insert:
  "memo_ok flat memo \<Longrightarrow> resolves_type flat q ct \<Longrightarrow> hm_get (ft_types flat) q = Some (Complex raw) \<Longrightarrow>
   memo_ok flat (hm_insert q ct memo)"
  by (auto simp: memo_ok_def)

lemma lift_elements_Ok_iff:
  "lift_elements mk memo r = Some (Inr (cc, memo')) \<longleftrightarrow>
     memo' = memo \<and> (\<exists>els. r = Some els \<and> cc = mk els)"
  by (cases r) (auto simp: lift_elements_def)

lemma lift_elements_no_error: "lift_elements mk memo r \<noteq> Some (Inl e)"
  by (cases r) (auto simp: lift_elements_def)

lemma resolver_sound:
  "resolve_named_type q flat memo R = Some (Inr (ct, memo')) \<Longrightarrow> memo_ok flat memo \<Longrightarrow>
     resolves_type flat q ct \<and> memo_ok flat memo'"
  "resolve_complex_type raw flat memo R = Some (Inr (ct, memo')) \<Longrightarrow> memo_ok flat memo \<Longrightarrow>
     (\<exists>cc attrs. resolves_content flat (ct_content raw) cc \<and>
        resolve_attributes (ct_attributes raw) flat = Some attrs \<and>
        ct = ComplexType (ct_name raw) cc attrs) \<and> memo_ok flat memo'"
  "resolve_content c flat memo R = Some (Inr (cc, memo')) \<Longrightarrow> memo_ok flat memo \<Longrightarrow>
     resolves_content flat c cc \<and> memo_ok flat memo'"
proof (induction q flat memo R and raw flat memo R and c flat memo R
    arbitrary: ct memo' and ct memo' and cc memo'
    rule: resolve_named_type_resolve_complex_type_resolve_content.induct)
  case (1 q flat memo R)
  show ?case
  proof (cases "hm_get memo q")
    case None
    show ?thesis
    proof (cases "hm_get (ft_types flat) q")
      case None
      with \<open>hm_get memo q = None\<close> 1(2,3) show ?thesis
        by (auto simp: resolve_named_type.simps [of q] intro: rt_unknown split: if_splits)
    next
      case (Some t)
      show ?thesis
      proof (cases t)
        case (Complex raw)
        from 1(2) None Some Complex obtain memo1 where
          open_q: "q \<notin> R" and run: "resolve_complex_type raw flat memo (insert q R) = Some (Inr (ct, memo1))"
          and memo': "memo' = hm_insert q ct memo1"
          by (auto simp: resolve_named_type.simps [of q] dbind_Ok_iff split: if_splits)
        from 1(1) [OF None open_q _ _ run 1(3)] Some Complex obtain cc attrs where
          "resolves_content flat (ct_content raw) cc"
          "resolve_attributes (ct_attributes raw) flat = Some attrs"
          "ct = ComplexType (ct_name raw) cc attrs" and "memo_ok flat memo1"
          by blast
        with Some Complex show ?thesis
          unfolding memo' by (auto intro: rt_complex memo_ok_insert)
      next
        case (Simple s)
        with Some None 1(2,3) show ?thesis
          by (auto simp: resolve_named_type.simps [of q] intro: rt_simple split: if_splits)
      qed
    qed
  next
    case (Some ct0)
    with 1(2,3) show ?thesis
      by (auto simp: resolve_named_type.simps [of q] memo_ok_def)
  qed
next
  case (2 raw flat memo R)
  then show ?case
    by (auto simp: resolve_complex_type.simps [of raw] dbind_Ok_iff split: option.splits)
next
  case (3 base child flat memo R)
  from 3(3) obtain b memo1 cc1 where
    b: "resolve_named_type base flat memo R = Some (Inr (b, memo1))"
    and c: "resolve_content child flat memo1 R = Some (Inr (cc1, memo'))"
    and cc: "cc = Sequence (extract_elements (ct_content b) @ extract_elements cc1)"
    by (auto simp: dbind_Ok_iff)
  from 3(1) [OF b 3(4)] have "resolves_type flat base b" "memo_ok flat memo1" by auto
  with 3(2) [OF b refl c] show ?case unfolding cc by (auto intro: rc_extension)
qed (auto simp: lift_elements_Ok_iff intro: resolves_type_resolves_content.intros)

section \<open>The cycle error is exact\<close>

fun bases :: "complex_content \<Rightarrow> qname list" where
  "bases (ComplexExtension base child) = base # bases child"
| "bases (ComplexRestriction base child) = bases child"
| "bases _ = []"

definition base_rel :: "flat_type_map \<Rightarrow> (qname \<times> qname) set" where
  "base_rel flat =
     {(q, p). \<exists>raw. hm_get (ft_types flat) q = Some (Complex raw) \<and> p \<in> set (bases (ct_content raw))}"

definition leads_to_cycle :: "flat_type_map \<Rightarrow> qname \<Rightarrow> bool" where
  "leads_to_cycle flat q \<longleftrightarrow> (\<exists>p. (q, p) \<in> (base_rel flat)\<^sup>* \<and> (p, p) \<in> (base_rel flat)\<^sup>+)"

definition blocked :: "flat_type_map \<Rightarrow> qname set \<Rightarrow> qname \<Rightarrow> bool" where
  "blocked flat R q \<longleftrightarrow> leads_to_cycle flat q \<or> (\<exists>p \<in> R. (q, p) \<in> (base_rel flat)\<^sup>*)"

lemma blocked_step:
  assumes step: "(q, b) \<in> base_rel flat" and b: "blocked flat (insert q R) b"
  shows "blocked flat R q"
proof -
  note star = converse_rtrancl_into_rtrancl [OF step]
  consider (cycle) "leads_to_cycle flat b" | (self) "(b, q) \<in> (base_rel flat)\<^sup>*"
    | (outer) p where "p \<in> R" "(b, p) \<in> (base_rel flat)\<^sup>*"
    using b by (auto simp: blocked_def)
  then show ?thesis
  proof cases
    case cycle
    then show ?thesis using star by (auto simp: blocked_def leads_to_cycle_def)
  next
    case self
    from rtrancl_into_trancl2 [OF step this] have "(q, q) \<in> (base_rel flat)\<^sup>+" .
    then show ?thesis by (auto simp: blocked_def leads_to_cycle_def)
  next
    case outer
    then show ?thesis using star by (auto simp: blocked_def)
  qed
qed

lemma dbind_Err_iff:
  "dbind m f = Some (Inl e) \<longleftrightarrow> m = Some (Inl e) \<or> (\<exists>x. m = Some (Inr x) \<and> f x = Some (Inl e))"
  by (auto simp: dbind_def split: option.splits sum.splits)

lemma resolver_error:
  "resolve_named_type q flat memo R = Some (Inl e) \<Longrightarrow> blocked flat R q"
  "resolve_complex_type raw flat memo R = Some (Inl e) \<Longrightarrow>
     \<exists>b \<in> set (bases (ct_content raw)). blocked flat R b"
  "resolve_content c flat memo R = Some (Inl e) \<Longrightarrow> \<exists>b \<in> set (bases c). blocked flat R b"
proof (induction q flat memo R and raw flat memo R and c flat memo R
    rule: resolve_named_type_resolve_complex_type_resolve_content.induct)
  case (1 q flat memo R)
  show ?case
  proof (cases "q \<in> R")
    case True
    then show ?thesis by (auto simp: blocked_def)
  next
    case False
    with 1(2) obtain raw where memo: "hm_get memo q = None"
      and raw: "hm_get (ft_types flat) q = Some (Complex raw)"
      and run: "resolve_complex_type raw flat memo (insert q R) = Some (Inl e)"
      by (auto simp: resolve_named_type.simps [of q] dbind_Err_iff split: option.splits xsd_type.splits)
    from 1(1) [OF memo False raw refl run] obtain b where
      "b \<in> set (bases (ct_content raw))" "blocked flat (insert q R) b" by blast
    moreover from this(1) raw have "(q, b) \<in> base_rel flat" by (auto simp: base_rel_def)
    ultimately show ?thesis by (blast intro: blocked_step)
  qed
next
  case (2 raw flat memo R)
  then show ?case
    by (auto simp: resolve_complex_type.simps [of raw] dbind_Err_iff split: option.splits)
next
  case (3 base child flat memo R)
  then show ?case by (auto simp: dbind_Err_iff)
qed (auto simp: lift_elements_no_error)

lemma no_cycle_from_acc:
  assumes "Wellfounded.accp (\<lambda>p q. (q, p) \<in> r) q"
  shows "(q, q) \<notin> r\<^sup>+"
  using assms
proof (induction rule: accp.induct)
  case (accI q)
  show ?case
  proof
    assume "(q, q) \<in> r\<^sup>+"
    then obtain s where s: "(q, s) \<in> r" "(s, q) \<in> r\<^sup>*" by (blast dest: tranclD)
    then have "(s, s) \<in> r\<^sup>+" by (meson rtrancl_into_trancl1)
    with accI.IH s show False by blast
  qed
qed

lemma accp_star:
  assumes "(q, p) \<in> r\<^sup>*" and "Wellfounded.accp (\<lambda>p q. (q, p) \<in> r) q"
  shows "Wellfounded.accp (\<lambda>p q. (q, p) \<in> r) p"
  using assms
proof (induction rule: rtrancl_induct)
  case (step y z)
  from step.IH [OF step.prems] step.hyps(2) show ?case
    by (rule accp_downward [where r = "\<lambda>p q. (q, p) \<in> r"])
qed

lemma resolves_acc:
  "resolves_type flat q ct \<Longrightarrow> Wellfounded.accp (\<lambda>p q. (q, p) \<in> base_rel flat) q"
  "resolves_content flat c cc \<Longrightarrow>
     \<forall>b \<in> set (bases c). Wellfounded.accp (\<lambda>p q. (q, p) \<in> base_rel flat) b"
proof (induction rule: resolves_type_resolves_content.inducts)
  case (rt_complex q raw cc attrs)
  show ?case
  proof (rule accp.accI)
    fix p assume "(q, p) \<in> base_rel flat"
    then have "p \<in> set (bases (ct_content raw))" using rt_complex(1) by (simp add: base_rel_def)
    with rt_complex(3) show "Wellfounded.accp (\<lambda>p q. (q, p) \<in> base_rel flat) p" by blast
  qed
next
  case (rt_unknown q)
  then show ?case by - (rule accp.accI, simp add: base_rel_def)
next
  case (rt_simple q s)
  then show ?case by - (rule accp.accI, simp add: base_rel_def)
qed simp_all

lemma resolves_no_cycle:
  assumes "resolves_type flat q ct"
  shows "\<not> leads_to_cycle flat q"
proof
  assume "leads_to_cycle flat q"
  then obtain p where path: "(q, p) \<in> (base_rel flat)\<^sup>*" and cyc: "(p, p) \<in> (base_rel flat)\<^sup>+"
    by (auto simp: leads_to_cycle_def)
  from no_cycle_from_acc [OF accp_star [OF path resolves_acc(1) [OF assms]]] cyc show False
    by contradiction
qed

section \<open>The registry\<close>

lemma register_simple_lookup:
  assumes "hm_wf (ft_types flat)"
  shows "registry_lookup (register_simple flat) q =
     (case hm_get (ft_types flat) q of Some (Simple s) \<Rightarrow> Some (Simple s) | _ \<Rightarrow> None)"
proof -
  have "registry_lookup (fold (\<lambda>(q, t) r. case t of Simple _ \<Rightarrow> registry_insert q t r | Complex _ \<Rightarrow> r) kvs r) q =
      (case map_of kvs q of Some (Simple s) \<Rightarrow> Some (Simple s) | _ \<Rightarrow> registry_lookup r q)"
    if "distinct (map fst kvs)" for kvs r
    using that
  proof (induction kvs arbitrary: r)
    case Nil
    then show ?case by simp
  next
    case (Cons kv kvs)
    obtain k t where kv: "kv = (k, t)" by force
    from Cons.prems have "map_of kvs k = None" by (simp add: kv map_of_eq_None_iff)
    with Cons show ?case by (cases t) (auto simp: kv split: option.splits xsd_type.splits)
  qed
  then show ?thesis using assms
    by (simp add: register_simple_def hm_get_def split: option.splits xsd_type.splits)
qed

lemma register_complex_lookup:
  assumes "hm_wf memo"
  shows "registry_lookup (register_complex memo r) q =
     (case hm_get memo q of Some ct \<Rightarrow> Some (Complex ct) | None \<Rightarrow> registry_lookup r q)"
proof -
  have "registry_lookup (fold (\<lambda>(q, ct). registry_insert q (Complex ct)) kvs r) q =
      (case map_of kvs q of Some ct \<Rightarrow> Some (Complex ct) | None \<Rightarrow> registry_lookup r q)"
    if "distinct (map fst kvs)" for kvs r
    using that
  proof (induction kvs arbitrary: r)
    case Nil
    then show ?case by simp
  next
    case (Cons kv kvs)
    obtain k t where kv: "kv = (k, t)" by force
    from Cons.prems have "map_of kvs k = None" by (simp add: kv map_of_eq_None_iff)
    with Cons show ?case by (auto simp: kv split: option.splits)
  qed
  with assms show ?thesis by (simp add: register_complex_def hm_get_def)
qed

lemma register_elements_keeps:
  "register_elements els flat r = Some r' \<Longrightarrow> registry_lookup r q = Some t \<Longrightarrow> registry_lookup r' q = Some t"
proof (induction els arbitrary: r)
  case Nil
  then show ?case by simp
next
  case (Cons e els)
  obtain k el where e: "e = (k, el)" by force
  from Cons.prems(1) consider "register_elements els flat r = Some r'"
    | ct where "registry_lookup r k = None" "register_elements els flat (registry_insert k (Complex ct) r) = Some r'"
    by (auto simp: e split: if_splits option.splits xsd_type.splits sum.splits)
  then show ?case
  proof cases
    case 1
    then show ?thesis using Cons.IH Cons.prems(2) by blast
  next
    case (2 ct)
    with Cons.prems(2) have "registry_lookup (registry_insert k (Complex ct) r) q = Some t" by auto
    with 2 Cons.IH show ?thesis by blast
  qed
qed

lemma complex_qnames_iff:
  "q \<in> set (complex_qnames flat) \<longleftrightarrow> (\<exists>raw. hm_get (ft_types flat) q = Some (Complex raw))"
  using hm_get_None_iff [of "ft_types flat" q]
  by (auto simp: complex_qnames_def split: option.splits xsd_type.splits)

lemma resolve_types_loop_ok:
  "resolve_types_loop qs flat memo = Some (Inr memo') \<Longrightarrow> memo_ok flat memo \<Longrightarrow>
   set qs \<subseteq> set (complex_qnames flat) \<Longrightarrow> memo_ok flat memo'"
proof (induction qs arbitrary: memo)
  case Nil
  then show ?case by simp
next
  case (Cons q qs)
  show ?case
  proof (cases "hm_get memo q")
    case None
    with Cons.prems(1) obtain ct memo1 where
      run: "resolve_named_type q flat memo {} = Some (Inr (ct, memo1))"
      and rest: "resolve_types_loop qs flat (hm_insert q ct memo1) = Some (Inr memo')"
      by (auto simp: dbind_Ok_iff)
    obtain raw where "hm_get (ft_types flat) q = Some (Complex raw)"
      using Cons.prems(3) by (auto simp: complex_qnames_iff)
    with resolver_sound(1) [OF run Cons.prems(2)] have "memo_ok flat (hm_insert q ct memo1)"
      by (blast intro: memo_ok_insert)
    with Cons.IH [OF rest] Cons.prems(3) show ?thesis by simp
  qed (use Cons in simp)
qed

text \<open>The memo only grows, and the loop leaves an entry for each name it was given.\<close>

lemma resolver_grows:
  "resolve_named_type q flat memo R = Some (Inr (ct, memo')) \<Longrightarrow> hm_get memo p \<noteq> None \<Longrightarrow> hm_get memo' p \<noteq> None"
  "resolve_complex_type raw flat memo R = Some (Inr (ct, memo')) \<Longrightarrow> hm_get memo p \<noteq> None \<Longrightarrow> hm_get memo' p \<noteq> None"
  "resolve_content c flat memo R = Some (Inr (cc, memo')) \<Longrightarrow> hm_get memo p \<noteq> None \<Longrightarrow> hm_get memo' p \<noteq> None"
proof (induction q flat memo R and raw flat memo R and c flat memo R
    arbitrary: ct memo' and ct memo' and cc memo'
    rule: resolve_named_type_resolve_complex_type_resolve_content.induct)
  case (1 q flat memo R)
  then show ?case
    by (fastforce simp: resolve_named_type.simps [of q] dbind_Ok_iff
        split: option.splits xsd_type.splits if_splits)
next
  case (2 raw flat memo R)
  then show ?case
    by (fastforce simp: resolve_complex_type.simps [of raw] dbind_Ok_iff split: option.splits)
next
  case (3 base child flat memo R)
  then show ?case by (fastforce simp: dbind_Ok_iff)
qed (auto simp: lift_elements_Ok_iff)

lemma resolve_types_loop_covers:
  "resolve_types_loop qs flat memo = Some (Inr memo') \<Longrightarrow>
   hm_get memo q \<noteq> None \<or> q \<in> set qs \<Longrightarrow> hm_get memo' q \<noteq> None"
proof (induction qs arbitrary: memo)
  case Nil
  then show ?case by simp
next
  case (Cons p qs)
  show ?case
  proof (cases "hm_get memo p")
    case None
    with Cons.prems(1) obtain ct memo1 where
      run: "resolve_named_type p flat memo {} = Some (Inr (ct, memo1))"
      and rest: "resolve_types_loop qs flat (hm_insert p ct memo1) = Some (Inr memo')"
      by (auto simp: dbind_Ok_iff)
    have "hm_get (hm_insert p ct memo1) q \<noteq> None \<or> q \<in> set qs"
      using Cons.prems(2) resolver_grows(1) [OF run] by auto
    with Cons.IH [OF rest] show ?thesis by blast
  next
    case (Some ct)
    then have "hm_get memo q \<noteq> None \<or> q \<in> set qs" using Cons.prems(2) by auto
    moreover from Some Cons.prems(1) have "resolve_types_loop qs flat memo = Some (Inr memo')" by simp
    ultimately show ?thesis using Cons.IH by blast
  qed
qed

lemma resolve_flat_complex:
  assumes wf: "hm_wf (ft_types flat)" and run: "resolve_flat flat = Some (Inr reg)"
    and q: "hm_get (ft_types flat) q = Some (Complex raw)"
  shows "\<exists>ct. registry_lookup reg q = Some (Complex ct) \<and> resolves_type flat q ct"
proof -
  from run obtain memo where
    loop: "resolve_types_loop (complex_qnames flat) flat [] = Some (Inr memo)"
    and elems: "register_elements (ft_elements flat) flat
        (register_complex memo (register_simple flat)) = Some reg"
    by (auto simp: resolve_flat_def dbind_Ok_iff)
  have ok: "memo_ok flat memo" by (rule resolve_types_loop_ok [OF loop]) simp_all
  have "q \<in> set (complex_qnames flat)" using q complex_qnames_iff by blast
  then obtain ct where ct: "hm_get memo q = Some ct"
    using resolve_types_loop_covers [OF loop] by blast
  then have "registry_lookup (register_complex memo (register_simple flat)) q = Some (Complex ct)"
    using ok by (simp add: register_complex_lookup memo_ok_def)
  from register_elements_keeps [OF elems this] ct ok show ?thesis
    by (auto simp: memo_ok_def)
qed

lemma resolve_flat_simple:
  assumes wf: "hm_wf (ft_types flat)" and run: "resolve_flat flat = Some (Inr reg)"
    and q: "hm_get (ft_types flat) q = Some (Simple s)"
  shows "registry_lookup reg q = Some (Simple s)"
proof -
  from run obtain memo where
    loop: "resolve_types_loop (complex_qnames flat) flat [] = Some (Inr memo)"
    and elems: "register_elements (ft_elements flat) flat
        (register_complex memo (register_simple flat)) = Some reg"
    by (auto simp: resolve_flat_def dbind_Ok_iff)
  have ok: "memo_ok flat memo" by (rule resolve_types_loop_ok [OF loop]) simp_all
  then have "hm_get memo q = None" using q by (cases "hm_get memo q") (fastforce simp: memo_ok_def)+
  then have "registry_lookup (register_complex memo (register_simple flat)) q = Some (Simple s)"
    using ok q by (simp add: register_complex_lookup register_simple_lookup [OF wf] memo_ok_def)
  from register_elements_keeps [OF elems this] show ?thesis .
qed

lemma resolve_types_loop_error:
  "resolve_types_loop qs flat memo = Some (Inl e) \<Longrightarrow> \<exists>q \<in> set qs. leads_to_cycle flat q"
proof (induction qs arbitrary: memo)
  case Nil
  then show ?case by simp
next
  case (Cons q qs)
  then show ?case
    by (auto simp: dbind_Err_iff blocked_def split: option.splits dest!: resolver_error(1))
qed

lemma resolve_flat_error:
  assumes "resolve_flat flat = Some (Inl e)"
  shows "\<exists>q raw. hm_get (ft_types flat) q = Some (Complex raw) \<and> leads_to_cycle flat q"
  using assms
  by (auto simp: resolve_flat_def dbind_Err_iff complex_qnames_iff dest!: resolve_types_loop_error)

section \<open>When resolution returns\<close>

text \<open>
  References between groups, and between attribute groups, that can be ranked: every
  nested reference has a smaller rank than the group it stands in.
\<close>

definition groups_ranked :: "(qname \<Rightarrow> nat) \<Rightarrow> flat_type_map \<Rightarrow> bool" where
  "groups_ranked rank flat \<longleftrightarrow>
     (\<forall>q g el p. hm_get (ft_groups flat) q = Some g \<longrightarrow> el \<in> set (group_elements (g_content g)) \<longrightarrow>
        el_ref el = Some p \<longrightarrow> rank p < rank q)"

definition attribute_groups_ranked :: "(qname \<Rightarrow> nat) \<Rightarrow> flat_type_map \<Rightarrow> bool" where
  "attribute_groups_ranked rank flat \<longleftrightarrow>
     (\<forall>q ag p. hm_get (ft_attribute_groups flat) q = Some ag \<longrightarrow> p \<in> set (ag_groups ag) \<longrightarrow> rank p < rank q)"

lemma resolve_element_list_returns:
  assumes ranked: "groups_ranked rank flat"
  shows "resolve_element_list flat els \<noteq> None"
proof -
  have bounded: "(\<forall>el \<in> set els. \<forall>p. el_ref el = Some p \<longrightarrow> rank p < n) \<Longrightarrow> resolve_element_list flat els \<noteq> None"
    for n els
  proof (induction n arbitrary: els rule: less_induct)
    case (less n)
    from less.prems show ?case
    proof (induction els)
      case Nil
      then show ?case by (simp add: resolve_element_list.simps [of flat "[]"])
    next
      case (Cons el els)
      then have r: "resolve_element_list flat els \<noteq> None" by auto
      have "resolve_element_list flat (group_elements (g_content g)) \<noteq> None"
        if "el_ref el = Some q" and "hm_get (ft_groups flat) q = Some g" for q g
        using Cons.prems that ranked
        by (intro less.IH [of "rank q"]) (auto simp: groups_ranked_def)
      with r show ?case
        by (subst resolve_element_list.simps)
          (auto simp: bind_eq_None_conv simp del: not_None_eq split: option.split)
    qed
  qed
  define top where "top = Suc (Max (insert 0 ((\<lambda>el. case el_ref el of Some p \<Rightarrow> rank p | None \<Rightarrow> 0) ` set els)))"
  have "rank p < top" if "el \<in> set els" and "el_ref el = Some p" for el p
  proof -
    have "rank p \<in> (\<lambda>el. case el_ref el of Some p \<Rightarrow> rank p | None \<Rightarrow> 0) ` set els"
      using that by force
    then show ?thesis unfolding top_def by (simp add: less_Suc_eq_le)
  qed
  with bounded [of els top] show ?thesis by blast
qed

lemma expand_group_refs_returns:
  assumes ranked: "attribute_groups_ranked rank flat"
  shows "expand_group_refs flat refs \<noteq> None"
proof -
  have bounded: "(\<forall>p \<in> set refs. rank p < n) \<Longrightarrow> expand_group_refs flat refs \<noteq> None" for n refs
  proof (induction n arbitrary: refs rule: less_induct)
    case (less n)
    from less.prems show ?case
    proof (induction refs)
      case Nil
      then show ?case by (simp add: expand_group_refs.simps [of flat "[]"])
    next
      case (Cons p ps)
      then have r: "expand_group_refs flat ps \<noteq> None" by auto
      have "expand_group_refs flat (ag_groups ag) \<noteq> None"
        if "hm_get (ft_attribute_groups flat) p = Some ag" for ag
        using Cons.prems that ranked
        by (intro less.IH [of "rank p"]) (auto simp: attribute_groups_ranked_def)
      with r show ?case
        by (subst expand_group_refs.simps)
          (auto simp: bind_eq_None_conv simp del: not_None_eq split: option.split)
    qed
  qed
  have "rank p < Suc (Max (insert 0 (rank ` set refs)))" if "p \<in> set refs" for p
    using that by (simp add: less_Suc_eq_le)
  with bounded [of refs] show ?thesis by blast
qed

lemma resolve_attributes_returns:
  "attribute_groups_ranked rank flat \<Longrightarrow> resolve_attributes as flat \<noteq> None"
proof (induction as)
  case Nil
  then show ?case by simp
next
  case (Cons a as)
  then show ?case
    using expand_group_refs_returns [OF Cons.prems]
    by (auto simp: expand_attribute_group_def bind_eq_None_conv simp del: not_None_eq split: option.split)
qed

lemma dbind_returns: "m \<noteq> None \<Longrightarrow> (\<And>x. m = Some (Inr x) \<Longrightarrow> f x \<noteq> None) \<Longrightarrow> dbind m f \<noteq> None"
  by (auto simp: dbind_None_iff)

lemma resolver_returns:
  assumes "groups_ranked rank flat" and "attribute_groups_ranked rank' flat"
  shows "resolve_named_type q flat memo R \<noteq> None"
    and "resolve_complex_type raw flat memo R \<noteq> None"
    and "resolve_content c flat memo R \<noteq> None"
  using assms
proof (induction q flat memo R and raw flat memo R and c flat memo R
    rule: resolve_named_type_resolve_complex_type_resolve_content.induct)
  case (1 q flat memo R)
  then show ?case
    by (auto simp: resolve_named_type.simps [of q] dbind_None_iff simp del: not_None_eq
        split: option.split xsd_type.split)
next
  case (2 raw flat memo R)
  then show ?case
    using resolve_attributes_returns [OF 2(3)]
    by (auto simp: resolve_complex_type.simps [of raw] dbind_None_iff simp del: not_None_eq
        split: option.split)
next
  case (3 base child flat memo R)
  then show ?case by (auto simp: dbind_None_iff simp del: not_None_eq)
qed (use resolve_element_list_returns in \<open>auto simp: lift_elements_def simp del: not_None_eq\<close>)

lemma resolve_types_loop_returns:
  "groups_ranked rank flat \<Longrightarrow> attribute_groups_ranked rank' flat \<Longrightarrow> resolve_types_loop qs flat memo \<noteq> None"
proof (induction qs arbitrary: memo)
  case Nil
  then show ?case by simp
next
  case (Cons q qs)
  then show ?case
    using resolver_returns(1) [OF Cons.prems]
    by (auto simp: dbind_None_iff simp del: not_None_eq split: option.split)
qed

lemma register_elements_returns:
  assumes "groups_ranked rank flat" and "attribute_groups_ranked rank' flat"
  shows "register_elements els flat r \<noteq> None"
proof (induction els arbitrary: r)
  case Nil
  then show ?case by simp
next
  case (Cons e els)
  then show ?case
    using resolver_returns(2) [OF assms]
    by (cases e) (auto simp del: not_None_eq split: option.split xsd_type.split sum.split)
qed

lemma resolve_flat_returns:
  assumes "groups_ranked rank flat" and "attribute_groups_ranked rank' flat"
  shows "resolve_flat flat \<noteq> None"
  using resolve_types_loop_returns [OF assms] register_elements_returns [OF assms]
  by (auto simp: resolve_flat_def dbind_None_iff simp del: not_None_eq)

text \<open>A group that refers to itself: any list of elements that refers to it is never finished.\<close>

lemma resolve_element_list_self_reference:
  assumes group: "hm_get (ft_groups flat) q = Some g"
    and inside: "el \<in> set (group_elements (g_content g))" "el_ref el = Some q" "el_name el \<noteq> Some any_marker"
  shows "resolve_element_list flat els = Some r \<Longrightarrow>
    \<forall>e \<in> set els. el_ref e = Some q \<longrightarrow> el_name e = Some any_marker"
proof -
  define P where "P = (\<lambda>flat' els (r :: xsd_element list). flat' = flat \<longrightarrow>
    (\<forall>e \<in> set els. el_ref e = Some q \<longrightarrow> el_name e = Some any_marker))"
  have "P flat els r" if "resolve_element_list flat els = Some r"
    using that
  proof (induction flat els r rule: resolve_element_list.raw_induct [rotated, consumes 1, case_names step])
    case (step f flat' els r)
    show ?case
    proof (cases els)
      case Nil
      then show ?thesis by (simp add: P_def)
    next
      case (Cons e es)
      show ?thesis
        unfolding P_def
      proof (intro impI)
        assume same: "flat' = flat"
        have rest: "\<forall>e \<in> set es. el_ref e = Some q \<longrightarrow> el_name e = Some any_marker"
        proof -
          from step(2) obtain r' where "f flat' es = Some r'"
            by (auto simp: Cons bind_eq_Some_conv split: if_splits option.splits)
          from step(1) [OF this] same show ?thesis by (simp add: P_def)
        qed
        have "el_ref e = Some q \<Longrightarrow> el_name e = Some any_marker"
        proof (rule ccontr)
          assume ref: "el_ref e = Some q" and "el_name e \<noteq> Some any_marker"
          with step(2) group same obtain r' where
            "f flat' (group_elements (g_content g)) = Some r'"
            by (auto simp: Cons bind_eq_Some_conv split: if_splits)
          from step(1) [OF this] same inside show False by (auto simp: P_def)
        qed
        with rest show "\<forall>e \<in> set els. el_ref e = Some q \<longrightarrow> el_name e = Some any_marker"
          by (simp add: Cons)
      qed
    qed
  qed
  then show "resolve_element_list flat els = Some r \<Longrightarrow>
    \<forall>e \<in> set els. el_ref e = Some q \<longrightarrow> el_name e = Some any_marker"
    by (simp add: P_def)
qed

lemma resolve_element_list_Nil [simp]: "resolve_element_list flat [] = Some []"
  by (subst resolve_element_list.simps) simp

lemma resolve_element_list_plain [simp]:
  "el_ref el = None \<Longrightarrow> resolve_element_list flat (el # els) =
     Option.bind (resolve_element_list flat els) (\<lambda>r. Some (el # r))"
  by (subst resolve_element_list.simps) simp

section \<open>Properties\<close>

text \<open>A small schema: a type \<open>Derived\<close> that extends \<open>Base\<close>, and one that extends itself.\<close>

definition named_element :: "string \<Rightarrow> nat \<Rightarrow> xsd_element" where
  "named_element n lo = XsdElement (Some n) None None lo (Bounded 1) False None None None"

definition sample_flat :: flat_type_map where
  "sample_flat = empty_flat\<lparr>ft_types :=
     [(qname_local ''Base'', Complex (ComplexType None (Sequence [named_element ''id'' 1]) [])),
      (qname_local ''Derived'', Complex (ComplexType None
         (ComplexExtension (qname_local ''Base'') (Sequence [named_element ''note'' 0])) []))]\<rparr>"

definition loop_ref :: xsd_element where
  "loop_ref = XsdElement None None None 1 (Bounded 1) False None None (Some (qname_local ''G''))"

definition group_loop_flat :: flat_type_map where
  "group_loop_flat = empty_flat\<lparr>ft_groups :=
     [(qname_local ''G'', \<lparr>g_name = ''G'', g_content = GSequence [loop_ref]\<rparr>)]\<rparr>"

text \<open>
  C8. Type resolution computes the meaning of a type, and its cycle error is exact: a
  successful call returns the expansion of the named type and keeps the memo right; a
  failed call means that the name has no expansion at all.
\<close>

theorem resolve_named_type_correct:
  assumes "memo_ok flat memo" and "resolve_named_type q flat memo {} = Some res"
  shows "case res of
      Inr (ct, memo') \<Rightarrow> resolves_type flat q ct \<and> memo_ok flat memo'
    | Inl e \<Rightarrow> \<not> (\<exists>ct. resolves_type flat q ct)"
proof (cases res)
  case (Inl e)
  with resolver_error(1) [of q flat memo "{}" e] assms(2) resolves_no_cycle show ?thesis
    by (auto simp: blocked_def)
next
  case (Inr r)
  obtain ct memo' where "r = (ct, memo')" by force
  with Inr resolver_sound(1) [of q flat memo "{}" ct memo'] assms show ?thesis by simp
qed

lemma resolve_named_type_correct_witness:
  "resolves_type sample_flat (qname_local ''Derived'')
     (ComplexType None (Sequence [named_element ''id'' 1, named_element ''note'' 0]) [])"
proof -
  have "resolve_named_type (qname_local ''Derived'') sample_flat [] {} =
    Some (Inr (ComplexType None (Sequence [named_element ''id'' 1, named_element ''note'' 0]) [],
      [(qname_local ''Base'', ComplexType None (Sequence [named_element ''id'' 1]) []),
       (qname_local ''Derived'',
        ComplexType None (Sequence [named_element ''id'' 1, named_element ''note'' 0]) [])]))"
    by (simp add: resolve_named_type.simps [of "qname_local ''Derived''"]
        resolve_named_type.simps [of "qname_local ''Base''"] resolve_complex_type.simps
        sample_flat_def empty_flat_def hm_get_def hm_insert_def lift_elements_def named_element_def)
  from resolve_named_type_correct [OF memo_ok_empty this] show ?thesis by simp
qed

text \<open>
  C9. Resolving a schema returns whenever its group references are not circular, and then
  it succeeds exactly when no complex type leads into a cycle of extensions.
\<close>

theorem resolve_flat_succeeds_iff:
  assumes "groups_ranked rank flat" and "attribute_groups_ranked rank' flat" and "hm_wf (ft_types flat)"
  shows "\<exists>res. resolve_flat flat = Some res \<and>
    ((\<exists>registry. res = Inr registry) \<longleftrightarrow>
       \<not> (\<exists>q raw. hm_get (ft_types flat) q = Some (Complex raw) \<and> leads_to_cycle flat q))"
proof -
  obtain res where res: "resolve_flat flat = Some res"
    using resolve_flat_returns [OF assms(1,2)] by blast
  show ?thesis
  proof (cases res)
    case (Inl e)
    with res resolve_flat_error [of flat e] show ?thesis by auto
  next
    case (Inr registry)
    with res resolve_flat_complex [OF assms(3), of registry] resolves_no_cycle show ?thesis by blast
  qed
qed

lemma resolve_flat_succeeds_iff_witness:
  "\<exists>res. resolve_flat sample_flat = Some res \<and>
    ((\<exists>registry. res = Inr registry) \<longleftrightarrow>
       \<not> (\<exists>q raw. hm_get (ft_types sample_flat) q = Some (Complex raw) \<and> leads_to_cycle sample_flat q))"
  by (rule resolve_flat_succeeds_iff [where rank = "\<lambda>_. 0" and rank' = "\<lambda>_. 0"])
    (simp_all add: groups_ranked_def attribute_groups_ranked_def sample_flat_def empty_flat_def)

text \<open>
  C22. The registry of a resolved schema holds every named type of it: a simple type as it
  was declared, a complex type in its full expansion.
\<close>

theorem resolve_flat_registry:
  assumes "hm_wf (ft_types flat)" and "resolve_flat flat = Some (Inr registry)"
  shows "(\<forall>q s. hm_get (ft_types flat) q = Some (Simple s) \<longrightarrow> registry_lookup registry q = Some (Simple s)) \<and>
    (\<forall>q raw. hm_get (ft_types flat) q = Some (Complex raw) \<longrightarrow>
      (\<exists>ct. registry_lookup registry q = Some (Complex ct) \<and> resolves_type flat q ct))"
  using resolve_flat_simple [OF assms] resolve_flat_complex [OF assms] by blast

lemma resolve_flat_registry_witness:
  "\<exists>registry ct. resolve_flat sample_flat = Some (Inr registry) \<and>
     registry_lookup registry (qname_local ''Derived'') = Some (Complex ct) \<and>
     resolves_type sample_flat (qname_local ''Derived'') ct"
proof -
  let ?b = "ComplexType None (Sequence [named_element ''id'' 1]) []"
  let ?d = "ComplexType None (Sequence [named_element ''id'' 1, named_element ''note'' 0]) []"
  have "resolve_flat sample_flat = Some (Inr (register_complex
      [(qname_local ''Base'', ?b), (qname_local ''Derived'', ?d)] registry_new))"
    by (simp add: resolve_flat_def complex_qnames_def register_simple_def
        resolve_named_type.simps [of "qname_local ''Derived''"]
        resolve_named_type.simps [of "qname_local ''Base''"] resolve_complex_type.simps
        sample_flat_def empty_flat_def hm_get_def hm_insert_def lift_elements_def named_element_def)
  moreover have "hm_wf (ft_types sample_flat)" by (simp add: sample_flat_def)
  moreover have "\<exists>raw. hm_get (ft_types sample_flat) (qname_local ''Derived'') = Some (Complex raw)"
    by (simp add: sample_flat_def hm_get_def)
  ultimately show ?thesis using resolve_flat_registry by blast
qed

text \<open>
  A named group that refers to itself makes the resolver run forever: no content model
  that refers to it is ever resolved (there is no check for such cycles).
\<close>

theorem self_referential_group_diverges:
  assumes "hm_get (ft_groups flat) q = Some g" and "el \<in> set (group_elements (g_content g))"
    and "el_ref el = Some q" and "el_name el \<noteq> Some any_marker"
    and "e \<in> set els" and "el_ref e = Some q" and "el_name e \<noteq> Some any_marker"
  shows "resolve_content (Sequence els) flat memo resolving = None"
proof (cases "resolve_element_list flat els")
  case None
  then show ?thesis by (simp add: lift_elements_def)
next
  case (Some r)
  from resolve_element_list_self_reference [OF assms(1-4) this] assms(5-7) show ?thesis by blast
qed

lemma self_referential_group_diverges_witness:
  "resolve_content (Sequence [loop_ref]) group_loop_flat [] {} = None"
  by (rule self_referential_group_diverges [where q = "qname_local ''G''" and el = loop_ref and e = loop_ref
        and g = "\<lparr>g_name = ''G'', g_content = GSequence [loop_ref]\<rparr>"])
    (simp_all add: group_loop_flat_def empty_flat_def hm_get_def loop_ref_def)

end
