(* ===== verification/WsdlReturns.thy ===== *)
theory WsdlReturns
  imports WsdlResolver XsdSemantics
begin

text \<open>
  When the resolution of a WSDL returns (\<open>resolve_wsdl\<close> of \<open>wsdl/resolver.rs\<close> with \<open>resolve_schema\<close> of
  \<open>xsd/resolver.rs\<close>): the loops over imported documents and imported schemas end because a location
  is loaded once, and the inline schemas resolve when their groups do not refer to themselves.
\<close>

section \<open>Collecting schemas\<close>

lemma load_schema_step:
  assumes "load_schema loader rox ns loc (queue, loaded) = Inr (queue', loaded')"
  shows "queue' = queue \<and> loaded' = loaded \<or>
    loaded' = insert loc loaded \<and> loc \<notin> loaded \<and> (\<exists>ns s. loader ns loc = Inr s)"
  using assms by (auto simp: load_schema_def res_simps split: if_splits)

text \<open>A batch of imports or includes pushes nothing, or loads some location that was not loaded before.\<close>

definition loads_new :: "schema_loader \<Rightarrow> raw_schema list \<times> string set \<Rightarrow> raw_schema list \<times> string set \<Rightarrow> bool" where
  "loads_new loader st st' \<longleftrightarrow> st' = st \<or>
     snd st \<subset> snd st' \<and> snd st' \<subseteq> snd st \<union> {l. \<exists>ns s. loader ns l = Inr s}"

lemma loads_new_trans: "loads_new loader st st' \<Longrightarrow> loads_new loader st' st'' \<Longrightarrow> loads_new loader st st''"
  unfolding loads_new_def by blast

lemma process_loads_new:
  "process_imports loader rox is st = Inr st' \<Longrightarrow> loads_new loader st st'"
  "process_includes loader rox ns st = Inr st' \<Longrightarrow> loads_new loader st st'"
proof -
  have one: "loads_new loader u u'" if "load_schema loader rox ns loc u = Inr u'" for ns loc u u'
    using load_schema_step [of loader rox ns loc "fst u" "snd u" "fst u'" "snd u'"] that
    unfolding loads_new_def by (cases u; cases u') auto
  show "process_imports loader rox is st = Inr st' \<Longrightarrow> loads_new loader st st'"
    unfolding process_imports_def
    by (erule res_fold_invariant [where I = "loads_new loader st", rotated 2])
      (auto simp: loads_new_def [of loader st st] split: option.splits intro: loads_new_trans one)
  show "process_includes loader rox ns st = Inr st' \<Longrightarrow> loads_new loader st st'"
    unfolding process_includes_def
    by (erule res_fold_invariant [where I = "loads_new loader st", rotated 2])
      (auto simp: loads_new_def [of loader st st] intro: loads_new_trans one)
qed

lemma collect_loop_returns:
  assumes fin: "finite {l. \<exists>ns s. loader ns l = Inr s}"
  shows "collect_loop loader rox queue flat loaded \<noteq> None"
proof (induction "(card ({l. \<exists>ns s. loader ns l = Inr s} - loaded), length queue)" arbitrary: queue flat loaded
    rule: wf_induct_rule [OF wf_lex_prod [OF wf_less_than wf_less_than]])
  case 1
  let ?L = "{l. \<exists>ns s. loader ns l = Inr s}"
  show ?case
  proof (cases queue)
    case Nil
    then show ?thesis by (subst collect_loop.simps) simp
  next
    case (Cons schema rest)
    show ?thesis
    proof (cases "res_bind (process_imports loader rox (rs_imports schema) (rest, loaded))
        (process_includes loader rox (rs_includes schema))")
      case (Inl e)
      then show ?thesis by (subst collect_loop.simps) (simp add: Cons)
    next
      case (Inr st)
      obtain queue' loaded' where st: "st = (queue', loaded')" by force
      have "loads_new loader (rest, loaded) (queue', loaded')"
        using Inr by (auto simp: res_simps st intro: loads_new_trans process_loads_new)
      then have "card (?L - loaded') < card (?L - loaded) \<or> queue' = rest \<and> loaded' = loaded"
        using fin by (auto simp: loads_new_def intro!: psubset_card_mono)
      then have "collect_loop loader rox queue' (flat_extend flat schema) loaded' \<noteq> None"
        by (intro 1) (auto simp: Cons)
      with Inr st show ?thesis by (subst collect_loop.simps) (simp add: Cons)
    qed
  qed
qed

section \<open>Inline schemas\<close>

text \<open>The inline schemas of the root document and of every document that can be loaded.\<close>

definition inline_schemas :: "rox_parser \<Rightarrow> wsdl_loader \<Rightarrow> bytes \<Rightarrow> string set" where
  "inline_schemas rox loader bytes =
     {s. \<exists>b d. (b = bytes \<or> (\<exists>l. loader l = Inr b)) \<and> parse_wsdl rox b = Inr d \<and> s \<in> set (schemas (wsdl_types d))}"

definition groups_acyclic :: "flat_type_map \<Rightarrow> bool" where
  "groups_acyclic flat \<longleftrightarrow> (\<exists>rank. groups_ranked rank flat) \<and> (\<exists>rank. attribute_groups_ranked rank flat)"

text \<open>In all that is collected for a schema, imports included, groups do not refer to themselves.\<close>

definition schema_acyclic :: "rox_parser \<Rightarrow> wsdl_loader \<Rightarrow> string \<Rightarrow> bool" where
  "schema_acyclic rox loader s \<longleftrightarrow>
     (\<forall>root raw loaded flat loaded'.
        rox s = Inr root \<longrightarrow> parse_schema root = Inr raw \<longrightarrow>
        collect_all_schemas raw (schema_loader_adapter loader) rox loaded = Some (Inr (flat, loaded')) \<longrightarrow>
        groups_acyclic flat)"

lemma adapter_finite:
  "finite {l. \<exists>b. loader l = Inr b} \<Longrightarrow> finite {l. \<exists>ns s. schema_loader_adapter loader ns l = Inr s}"
  by (erule finite_subset [rotated]) (auto simp: schema_loader_adapter_def res_simps)

lemma resolve_inline_schema_returns:
  assumes "finite {l. \<exists>b. loader l = Inr b}" and "schema_acyclic rox loader s"
  shows "resolve_inline_schema rox (schema_loader_adapter loader) s st \<noteq> None"
proof -
  have "resolve_schema raw (schema_loader_adapter loader) rox loaded \<noteq> None"
    if "rox s = Inr root" "parse_schema root = Inr raw" for root raw loaded
  proof -
    obtain res where res: "collect_all_schemas raw (schema_loader_adapter loader) rox loaded = Some res"
      using collect_loop_returns [OF adapter_finite [OF assms(1)]] unfolding collect_all_schemas_def by blast
    have "resolve_flat flat \<noteq> None" if "res = Inr (flat, loaded')" for flat loaded'
      using assms(2) \<open>rox s = Inr root\<close> \<open>parse_schema root = Inr raw\<close> res that resolve_flat_returns
      unfolding schema_acyclic_def groups_acyclic_def by metis
    with res show ?thesis
      by (cases res) (auto simp: resolve_schema_def dbind_def split: option.split sum.split)
  qed
  then have "resolve_schema raw (schema_loader_adapter loader) rox (loaded_schemas st) \<noteq> None"
    if "rox s = Inr root" "parse_schema root = Inr raw" for root raw
    using that by blast
  then show ?thesis
    unfolding resolve_inline_schema_def wbind_def map_err_def Let_def
    by (cases "rox s"; cases "parse_schema (projr (rox s))") (auto split: option.splits sum.splits)
qed

section \<open>Properties\<close>

text \<open>
  C28. Circular imports do not stop resolution: it returns whenever only finitely many locations
  can be loaded and, in what the inline schemas of the root and of the documents at those locations
  collect with their imports, no group and no attribute group refers to itself, directly or
  through others.
\<close>

theorem resolve_wsdl_returns:
  assumes "finite {l. \<exists>b. loader l = Inr b}"
    and "\<forall>s \<in> inline_schemas rox loader bytes. schema_acyclic rox loader s"
  shows "resolve_wsdl rox loader bytes vis \<noteq> None"
proof (cases "parse_wsdl rox bytes")
  case (Inl e)
  then show ?thesis by (simp add: resolve_wsdl_def resolve_wsdl_inner_def)
next
  case (Inr d)
  have "resolve_imports rox loader bytes (wsdl_imports d) d (resolve_start vis) \<noteq> None"
  proof (rule resolve_imports_returns [where S = "inline_schemas rox loader bytes", OF assms(1)])
    show "\<And>s st. s \<in> inline_schemas rox loader bytes \<Longrightarrow>
        resolve_inline_schema rox (schema_loader_adapter loader) s st \<noteq> None"
      using assms resolve_inline_schema_returns by blast
  qed (use Inr in \<open>auto simp: inline_schemas_def\<close>)
  with Inr show ?thesis
    by (auto simp: resolve_wsdl_def resolve_wsdl_inner_def wbind_def split: option.split sum.split)
qed

text \<open>
  Two documents that import each other, with an inline schema in which one group has a reference
  to another (the parser keeps the \<open>ref\<close> of an element; the resolver looks it up among the groups).
\<close>

definition group_schema :: xnode where
  "group_schema =
     xs_node ''schema'' []
       [xs_node ''group'' [(None, ''name'', ''G'')]
          [xs_node ''sequence'' [] [xs_node ''element'' [(None, ''name'', ''e'')] []]],
        xs_node ''group'' [(None, ''name'', ''H'')]
          [xs_node ''sequence'' [] [xs_node ''element'' [(None, ''ref'', ''G'')] []]]]"

definition group_rox :: rox_parser where
  "group_rox text =
     (if text = ''a'' \<or> text = ''b'' then
        Inr (Elem (Some WSDL_NS) ''definitions'' [(None, ''targetNamespace'', text)] []
          [Elem (Some WSDL_NS) ''types'' [] [] [group_schema],
           Elem (Some WSDL_NS) ''import''
             [(None, ''location'', if text = ''a'' then ''b'' else ''a'')] [] []])
      else Inr group_schema)"

lemma group_raw:
  "\<exists>e r. parse_schema group_schema = Inr ((empty_raw_schema None)\<lparr>rs_groups :=
      [(qname_local ''G'', \<lparr>g_name = ''G'', g_content = GSequence [e]\<rparr>),
       (qname_local ''H'', \<lparr>g_name = ''H'', g_content = GSequence [r]\<rparr>)]\<rparr>) \<and>
     el_ref e = None \<and> el_ref r = Some (qname_local ''G'')"
proof -
  have none: "xs_children (xs_node l as []) = []" for l as
    by (simp add: xs_children_def element_children_def)
  have some: "xs_children (xs_node l as [xs_node l1 as1 cs1, xs_node l2 as2 cs2]) =
      [xs_node l1 as1 cs1, xs_node l2 as2 cs2]" for l as l1 as1 cs1 l2 as2 cs2
    by (simp add: xs_children_def element_children_def)
  have name: "resolve_qname ''G'' (xs_node l as cs) = qname_local ''G''" for l as cs
    by (simp add: resolve_qname_def xs_node_def lookup_namespace_uri_def)
  show ?thesis
    by (simp add: parse_schema_def group_schema_def parse_schema_child_def some none node_attribute_def
        visit_group_def_def visit_sequence_def empty_raw_schema_def qualify_name_def hm_insert_def
        visit_particle_children.simps visit_element.simps name)
qed

lemma definitions_raw:
  "group_rox s = Inr root \<Longrightarrow> s = ''a'' \<or> s = ''b'' \<Longrightarrow>
     parse_schema root = Inr (empty_raw_schema (Some s))"
  by (auto simp: group_rox_def parse_schema_def xs_children_def element_children_def node_attribute_def
      WSDL_NS_def XS_NS_def)

lemma group_schema_acyclic: "schema_acyclic group_rox sample_loader s"
proof -
  have "groups_acyclic flat"
    if "group_rox s = Inr root" "parse_schema root = Inr raw"
      "collect_all_schemas raw (schema_loader_adapter sample_loader) group_rox loaded = Some (Inr (flat, loaded'))"
    for root raw loaded flat loaded'
  proof -
    obtain e r where g: "parse_schema group_schema = Inr ((empty_raw_schema None)\<lparr>rs_groups :=
        [(qname_local ''G'', \<lparr>g_name = ''G'', g_content = GSequence [e]\<rparr>),
         (qname_local ''H'', \<lparr>g_name = ''H'', g_content = GSequence [r]\<rparr>)]\<rparr>)"
      "el_ref e = None" "el_ref r = Some (qname_local ''G'')"
      using group_raw by blast
    let ?groups = "[(qname_local ''G'', \<lparr>g_name = ''G'', g_content = GSequence [e]\<rparr>),
         (qname_local ''H'', \<lparr>g_name = ''H'', g_content = GSequence [r]\<rparr>)]"
    note parsed = that
    obtain tns gs where raw: "raw = (empty_raw_schema tns)\<lparr>rs_groups := gs\<rparr>" and gs: "gs = [] \<or> gs = ?groups"
    proof (cases "s = ''a'' \<or> s = ''b''")
      case True
      then have "raw = (empty_raw_schema (Some s))\<lparr>rs_groups := []\<rparr>"
        using parsed(1,2) definitions_raw [of s root] by (auto simp: empty_raw_schema_def)
      with that show ?thesis by blast
    next
      case False
      then have "root = group_schema" using parsed(1) by (auto simp: group_rox_def)
      with parsed(2) g(1) show ?thesis by (intro that) auto
    qed
    have "flat = flat_extend empty_flat raw"
      using parsed(3) unfolding collect_all_schemas_def raw
      by (subst (asm) collect_loop.simps, simp add: empty_raw_schema_def process_imports_def process_includes_def)
        (subst (asm) collect_loop.simps, simp)
    then have flat: "ft_groups flat = gs" "ft_attribute_groups flat = []"
      using gs by (auto simp: raw flat_extend_def empty_flat_def empty_raw_schema_def hm_extend_def hm_insert_def)
    have "groups_ranked (\<lambda>q. if q = qname_local ''H'' then 1 else 0) flat"
      using gs g(2,3) by (auto simp: groups_ranked_def flat hm_get_def qname_local_def split: if_splits)
    moreover have "attribute_groups_ranked (\<lambda>_. 0) flat"
      by (simp add: attribute_groups_ranked_def flat hm_get_def)
    ultimately show ?thesis unfolding groups_acyclic_def by blast
  qed
  then show ?thesis unfolding schema_acyclic_def by blast
qed

theorem resolve_wsdl_returns_witness: "resolve_wsdl group_rox sample_loader ''a'' {} \<noteq> None"
proof (rule resolve_wsdl_returns)
  show "finite {l. \<exists>b. sample_loader l = Inr b}"
    by (rule finite_subset [of _ "{''a'', ''b''}"]) (auto simp: sample_loader_def split: if_splits)
qed (simp add: group_schema_acyclic)

end
