(* ===== verification/Fault.thy ===== *)
theory Fault
  imports WsdlDefs RustStr
begin

text \<open>
  \<open>src/src/fault.rs\<close> and \<open>src/src/xml_escape.rs\<close>: fault codes, faults, their
  constructors and the two serialisations. The escaping function of \<open>quick-xml\<close> is
  the parameter \<open>esc\<close>; \<open>escapes_markup\<close> is what its documentation promises.
\<close>

section \<open>Escaping\<close>

definition escape_text :: "(string \<Rightarrow> string) \<Rightarrow> string \<Rightarrow> string" where
  "escape_text esc s = esc s"

definition escape_attr :: "(string \<Rightarrow> string) \<Rightarrow> string \<Rightarrow> string" where
  "escape_attr esc s = esc s"

text \<open>No special character but the ampersand of an entity survives escaping.\<close>

definition escapes_markup :: "(string \<Rightarrow> string) \<Rightarrow> bool" where
  "escapes_markup esc \<longleftrightarrow>
     (\<forall>s. CHR ''<'' \<notin> set (esc s) \<and> CHR ''>'' \<notin> set (esc s) \<and> CHR 0x22 \<notin> set (esc s))"

text \<open>The replacement of the five special characters, as an instance.\<close>

definition xml_escape_char :: "char \<Rightarrow> string" where
  "xml_escape_char c =
     (if c = CHR ''<'' then ''&lt;'' else if c = CHR ''>'' then ''&gt;''
      else if c = CHR ''&'' then ''&amp;'' else if c = CHR 0x27 then ''&apos;''
      else if c = CHR 0x22 then ''&quot;'' else [c])"

definition xml_escape :: "string \<Rightarrow> string" where
  "xml_escape s = concat (map xml_escape_char s)"

lemma xml_escape_escapes_markup: "escapes_markup xml_escape"
proof -
  have "CHR ''<'' \<notin> set (xml_escape s) \<and> CHR ''>'' \<notin> set (xml_escape s) \<and> CHR 0x22 \<notin> set (xml_escape s)" for s
    by (induction s) (auto simp: xml_escape_def xml_escape_char_def split: if_splits)
  then show ?thesis by (simp add: escapes_markup_def)
qed

section \<open>Fault codes\<close>

datatype fault_code = VersionMismatch | MustUnderstand | DataEncodingUnknown | Sender | Receiver

fun as_soap12_str :: "fault_code \<Rightarrow> string" where
  "as_soap12_str VersionMismatch = ''env:VersionMismatch''"
| "as_soap12_str MustUnderstand = ''env:MustUnderstand''"
| "as_soap12_str DataEncodingUnknown = ''env:DataEncodingUnknown''"
| "as_soap12_str Sender = ''env:Sender''"
| "as_soap12_str Receiver = ''env:Receiver''"

fun as_soap11_str :: "fault_code \<Rightarrow> string" where
  "as_soap11_str VersionMismatch = ''env:VersionMismatch''"
| "as_soap11_str MustUnderstand = ''env:MustUnderstand''"
| "as_soap11_str DataEncodingUnknown = ''env:Server''"
| "as_soap11_str Sender = ''env:Client''"
| "as_soap11_str Receiver = ''env:Server''"

section \<open>Faults\<close>

record soap_fault =
  code :: fault_code
  reason :: string
  detail :: "string option"
  detail_xml :: "string option"

definition fault_new :: "fault_code \<Rightarrow> string \<Rightarrow> string option \<Rightarrow> soap_fault" where
  "fault_new c r d = \<lparr>code = c, reason = r, detail = d, detail_xml = None\<rparr>"

definition with_detail_xml :: "string \<Rightarrow> soap_fault \<Rightarrow> soap_fault" where
  "with_detail_xml xml f = f\<lparr>detail_xml := Some xml\<rparr>"

definition sender :: "string \<Rightarrow> soap_fault" where
  "sender r = fault_new Sender r None"

definition receiver :: "string \<Rightarrow> soap_fault" where
  "receiver r = fault_new Receiver r None"

definition version_mismatch :: soap_fault where
  "version_mismatch = fault_new VersionMismatch ''SOAP version mismatch'' None"

definition must_understand :: "string \<Rightarrow> soap_fault" where
  "must_understand header =
     fault_new MustUnderstand (''Header not understood: '' @ header) None"

definition action_not_supported :: "string \<Rightarrow> soap_fault" where
  "action_not_supported action =
     fault_new Sender (''Action not supported: '' @ action) None"

lemma sender_sel [simp]:
  "code (sender r) = Sender" "reason (sender r) = r"
  "detail (sender r) = None" "detail_xml (sender r) = None"
  by (simp_all add: sender_def fault_new_def)

lemma sender_inject [simp]: "sender r = sender r' \<longleftrightarrow> r = r'"
  by (metis sender_sel(2))

section \<open>Serialisation\<close>

fun soap11_fault_code :: "fault_code \<Rightarrow> string" where
  "soap11_fault_code Sender = ''SOAP-ENV:Client''"
| "soap11_fault_code Receiver = ''SOAP-ENV:Server''"
| "soap11_fault_code VersionMismatch = ''SOAP-ENV:VersionMismatch''"
| "soap11_fault_code MustUnderstand = ''SOAP-ENV:MustUnderstand''"
| "soap11_fault_code DataEncodingUnknown = ''SOAP-ENV:Server''"

definition soap11_detail :: "(string \<Rightarrow> string) \<Rightarrow> soap_fault \<Rightarrow> string" where
  "soap11_detail esc f =
     (case detail_xml f of
        Some raw \<Rightarrow> ''<detail>'' @ raw @ ''</detail>''
      | None \<Rightarrow>
          (case detail f of
             Some d \<Rightarrow> ''<detail>'' @ escape_text esc d @ ''</detail>''
           | None \<Rightarrow> []))"

definition to_xml_bytes_v11 :: "(string \<Rightarrow> string) \<Rightarrow> soap_fault \<Rightarrow> bytes" where
  "to_xml_bytes_v11 esc f =
     ''<SOAP-ENV:Envelope xmlns:SOAP-ENV=\"http://schemas.xmlsoap.org/soap/envelope/\"><SOAP-ENV:Body><SOAP-ENV:Fault><faultcode>'' @
     soap11_fault_code (code f) @ ''</faultcode><faultstring>'' @ escape_text esc (reason f) @
     ''</faultstring>'' @ soap11_detail esc f @
     ''</SOAP-ENV:Fault></SOAP-ENV:Body></SOAP-ENV:Envelope>''"

definition soap12_detail :: "soap_fault \<Rightarrow> string" where
  "soap12_detail f =
     (case detail_xml f of
        Some raw \<Rightarrow> ''<env:Detail>'' @ raw @ ''</env:Detail>''
      | None \<Rightarrow> [])"

definition to_xml_bytes :: "(string \<Rightarrow> string) \<Rightarrow> soap_fault \<Rightarrow> bytes" where
  "to_xml_bytes esc f =
     ''<env:Envelope xmlns:env=\"http://www.w3.org/2003/05/soap-envelope\"><env:Body><env:Fault><env:Code><env:Value>'' @
     as_soap12_str (code f) @ ''</env:Value></env:Code><env:Reason><env:Text xml:lang=\"en\">'' @
     escape_text esc (reason f) @ ''</env:Text></env:Reason>'' @ soap12_detail f @
     ''</env:Fault></env:Body></env:Envelope>''"

fun to_xml_bytes_versioned :: "(string \<Rightarrow> string) \<Rightarrow> soap_fault \<Rightarrow> soap_version \<Rightarrow> bytes" where
  "to_xml_bytes_versioned esc f Soap12 = to_xml_bytes esc f"
| "to_xml_bytes_versioned esc f Soap11 = to_xml_bytes_v11 esc f"

section \<open>The markup of a serialised fault\<close>

text \<open>
  What a reader of the bytes sees as markup: the pieces between an opening and the next
  closing angle bracket, in order.
\<close>

fun markup_in :: "string \<Rightarrow> string \<Rightarrow> string list"
  and markup :: "string \<Rightarrow> string list" where
  "markup_in acc [] = []"
| "markup_in acc (c # cs) = (if c = CHR ''>'' then rev acc # markup cs else markup_in (c # acc) cs)"
| "markup [] = []"
| "markup (c # cs) = (if c = CHR ''<'' then markup_in [] cs else markup cs)"

lemma markup_text: "CHR ''<'' \<notin> set t \<Longrightarrow> markup (t @ s) = markup s"
  by (induction t) auto

lemma markup_in_tag: "CHR ''>'' \<notin> set t \<Longrightarrow> markup_in acc (t @ CHR ''>'' # s) = (rev acc @ t) # markup s"
  by (induction t arbitrary: acc) auto

lemma markup_tag: "CHR ''>'' \<notin> set t \<Longrightarrow> markup (CHR ''<'' # t @ CHR ''>'' # s) = t # markup s"
  using markup_in_tag [of t "[]"] by simp

lemma markup_escaped: "escapes_markup esc \<Longrightarrow> markup (esc t @ s) = markup s"
  by (simp add: escapes_markup_def markup_text)

lemma markup_v12_code: "markup (as_soap12_str c @ s) = markup s"
  by (cases c) simp_all

lemma markup_v11_code: "markup (soap11_fault_code c @ s) = markup s"
  by (cases c) simp_all

lemma markup_to_xml_bytes:
  assumes "escapes_markup esc" and "detail_xml f = None"
  shows "markup (to_xml_bytes esc f) =
    [''env:Envelope xmlns:env=\"http://www.w3.org/2003/05/soap-envelope\"'', ''env:Body'', ''env:Fault'',
     ''env:Code'', ''env:Value'', ''/env:Value'', ''/env:Code'',
     ''env:Reason'', ''env:Text xml:lang=\"en\"'', ''/env:Text'', ''/env:Reason'',
     ''/env:Fault'', ''/env:Body'', ''/env:Envelope'']"
  using assms by (simp add: to_xml_bytes_def soap12_detail_def escape_text_def markup_v12_code markup_escaped)

lemma markup_to_xml_bytes_v11:
  assumes "escapes_markup esc" and "detail_xml f = None"
  shows "markup (to_xml_bytes_v11 esc f) =
    [''SOAP-ENV:Envelope xmlns:SOAP-ENV=\"http://schemas.xmlsoap.org/soap/envelope/\"'', ''SOAP-ENV:Body'',
     ''SOAP-ENV:Fault'', ''faultcode'', ''/faultcode'', ''faultstring'', ''/faultstring''] @
    (if detail f = None then [] else [''detail'', ''/detail'']) @
    [''/SOAP-ENV:Fault'', ''/SOAP-ENV:Body'', ''/SOAP-ENV:Envelope'']"
  using assms
  by (cases "detail f")
    (simp_all add: to_xml_bytes_v11_def soap11_detail_def escape_text_def markup_v11_code markup_escaped)

section \<open>Properties\<close>

text \<open>
  C37. No text of a fault reaches the markup of its serialisation: two faults without raw
  detail, and both with or both without text detail, serialise to the same sequence of
  tags in either version, whatever their reasons, details and codes hold.
\<close>

theorem fault_text_cannot_inject_markup:
  assumes "escapes_markup esc" and "detail_xml f = None" and "detail_xml g = None"
    and "detail f = None \<longleftrightarrow> detail g = None"
  shows "markup (to_xml_bytes_versioned esc f v) = markup (to_xml_bytes_versioned esc g v)"
  using markup_to_xml_bytes [OF assms(1,2)] markup_to_xml_bytes [OF assms(1,3)]
    markup_to_xml_bytes_v11 [OF assms(1,2)] markup_to_xml_bytes_v11 [OF assms(1,3)] assms(4)
  by (cases v) simp_all

lemma fault_text_cannot_inject_markup_witness:
  "markup (to_xml_bytes_versioned xml_escape (sender ''</faultstring><x>'') Soap11) =
   markup (to_xml_bytes_versioned xml_escape (receiver ''busy'') Soap11)"
  by (rule fault_text_cannot_inject_markup [OF xml_escape_escapes_markup])
    (simp_all add: receiver_def fault_new_def)

end
