(* ===== verification/NonceCache.thy ===== *)
theory NonceCache
  imports Fault
begin

text \<open>
  \<open>src/src/wssec/nonce_cache.rs\<close>: the two-bucket replay cache. \<open>Instant\<close>s are
  nanoseconds of the monotonic clock as natural numbers; a call reads the clock once, its
  first argument. \<open>rotate_if_needed\<close> is a loop that does not return when the half window
  is zero, so it is a \<^theory_text>\<open>partial_function\<close> and \<open>None\<close> is "does not return".
\<close>

section \<open>The cache\<close>

definition DEFAULT_MAX_ENTRIES :: nat where
  "DEFAULT_MAX_ENTRIES = 100000"

record nonce_cache =
  current :: "string set"
  previous :: "string set"
  bucket_start :: nat
  half_window_secs :: nat
  max_entries :: nat

definition nanos_per_sec :: nat where
  "nanos_per_sec = 1000000000"

definition with_max_entries :: "nat \<Rightarrow> nat \<Rightarrow> nat \<Rightarrow> nonce_cache" where
  "with_max_entries now hw cap =
     \<lparr>current = {}, previous = {}, bucket_start = now, half_window_secs = hw, max_entries = cap\<rparr>"

definition nonce_cache_new :: "nat \<Rightarrow> nat \<Rightarrow> nonce_cache" where
  "nonce_cache_new now hw = with_max_entries now hw DEFAULT_MAX_ENTRIES"

text \<open>\<open>Instant::elapsed\<close> saturates at zero, \<open>as_secs\<close> rounds down.\<close>

definition elapsed_secs :: "nat \<Rightarrow> nonce_cache \<Rightarrow> nat" where
  "elapsed_secs now c = (now - bucket_start c) div nanos_per_sec"

definition half_window_nanos :: "nonce_cache \<Rightarrow> nat" where
  "half_window_nanos c = half_window_secs c * nanos_per_sec"

definition rotate_once :: "nonce_cache \<Rightarrow> nonce_cache" where
  "rotate_once c =
     c\<lparr>previous := current c, current := {}, bucket_start := bucket_start c + half_window_nanos c\<rparr>"

partial_function (option) rotate_if_needed :: "nat \<Rightarrow> nonce_cache \<Rightarrow> nonce_cache option" where
  "rotate_if_needed now c =
     (if half_window_secs c \<le> elapsed_secs now c then rotate_if_needed now (rotate_once c)
      else Some c)"

definition force_rotate :: "nat \<Rightarrow> nonce_cache \<Rightarrow> nonce_cache" where
  "force_rotate now c = c\<lparr>previous := current c, current := {}, bucket_start := now\<rparr>"

definition replay_fault :: soap_fault where
  "replay_fault = sender ''WS-Security nonce replay detected''"

text \<open>The part of the call after the rotation.\<close>

definition insert_checked :: "nat \<Rightarrow> string \<Rightarrow> nonce_cache \<Rightarrow> (soap_fault + unit) \<times> nonce_cache" where
  "insert_checked now nonce c =
     (if nonce \<in> current c \<or> nonce \<in> previous c then (Inl replay_fault, c)
      else
        (let c' = (if max_entries c \<le> card (current c) then force_rotate now c else c)
         in (Inr (), c'\<lparr>current := insert nonce (current c')\<rparr>)))"

definition check_and_insert ::
  "nat \<Rightarrow> string \<Rightarrow> nonce_cache \<Rightarrow> ((soap_fault + unit) \<times> nonce_cache) option" where
  "check_and_insert now nonce c = map_option (insert_checked now nonce) (rotate_if_needed now c)"

section \<open>Rotation in closed form\<close>

lemma rotate_once_sel [simp]:
  "current (rotate_once c) = {}" "previous (rotate_once c) = current c"
  "bucket_start (rotate_once c) = bucket_start c + half_window_nanos c"
  "half_window_secs (rotate_once c) = half_window_secs c"
  "max_entries (rotate_once c) = max_entries c"
  "half_window_nanos (rotate_once c) = half_window_nanos c"
  by (simp_all add: rotate_once_def half_window_nanos_def)

lemma force_rotate_sel [simp]:
  "current (force_rotate now c) = {}" "previous (force_rotate now c) = current c"
  "bucket_start (force_rotate now c) = now"
  "half_window_secs (force_rotate now c) = half_window_secs c"
  "max_entries (force_rotate now c) = max_entries c"
  "half_window_nanos (force_rotate now c) = half_window_nanos c"
  by (simp_all add: force_rotate_def half_window_nanos_def)

lemma half_window_nanos_update [simp]:
  "half_window_nanos (c\<lparr>current := x\<rparr>) = half_window_nanos c"
  "half_window_nanos (c\<lparr>previous := x\<rparr>) = half_window_nanos c"
  "half_window_nanos (c\<lparr>bucket_start := b\<rparr>) = half_window_nanos c"
  by (simp_all add: half_window_nanos_def)

lemma half_window_nanos_pos: "0 < half_window_secs c \<Longrightarrow> 0 < half_window_nanos c"
  by (simp add: half_window_nanos_def nanos_per_sec_def)

text \<open>The loop guard, in nanoseconds.\<close>

lemma rotation_due_iff:
  "0 < half_window_secs c \<Longrightarrow>
   half_window_secs c \<le> elapsed_secs now c \<longleftrightarrow> bucket_start c + half_window_nanos c \<le> now"
proof -
  assume hw: "0 < half_window_secs c"
  have "half_window_secs c \<le> (now - bucket_start c) div nanos_per_sec \<longleftrightarrow>
        half_window_secs c * nanos_per_sec \<le> now - bucket_start c"
    by (simp add: less_eq_div_iff_mult_less_eq nanos_per_sec_def)
  then have "half_window_secs c \<le> elapsed_secs now c \<longleftrightarrow> half_window_nanos c \<le> now - bucket_start c"
    by (simp add: elapsed_secs_def half_window_nanos_def)
  then show ?thesis
    using half_window_nanos_pos [OF hw] by linarith
qed

text \<open>How many rotations are due, and what they leave.\<close>

definition rotations_due :: "nat \<Rightarrow> nonce_cache \<Rightarrow> nat" where
  "rotations_due now c = (now - bucket_start c) div half_window_nanos c"

definition rotate_closed :: "nat \<Rightarrow> nonce_cache \<Rightarrow> nonce_cache" where
  "rotate_closed now c =
     (let k = rotations_due now c in
      if k = 0 then c
      else c\<lparr>current := {}, previous := (if k = 1 then current c else {}),
             bucket_start := bucket_start c + k * half_window_nanos c\<rparr>)"

lemma rotations_due_rotate_once:
  assumes "0 < half_window_secs c" and "bucket_start c + half_window_nanos c \<le> now"
  shows "rotations_due now c = Suc (rotations_due now (rotate_once c))"
proof -
  define rest where "rest = now - (bucket_start c + half_window_nanos c)"
  have split: "now - bucket_start c = half_window_nanos c + rest"
    using assms(2) by (simp add: rest_def)
  have "(half_window_nanos c + rest) div half_window_nanos c = Suc (rest div half_window_nanos c)"
    using div_add_self1 [of "half_window_nanos c" rest] half_window_nanos_pos [OF assms(1)] by linarith
  then show ?thesis
    by (simp add: rotations_due_def split rest_def [symmetric])
qed

lemma rotate_closed_rotate_once:
  assumes "0 < half_window_secs c" and "bucket_start c + half_window_nanos c \<le> now"
  shows "rotate_closed now (rotate_once c) = rotate_closed now c"
proof -
  define k where "k = rotations_due now (rotate_once c)"
  have due: "rotations_due now c = Suc k"
    unfolding k_def by (rule rotations_due_rotate_once [OF assms])
  show ?thesis
    unfolding rotate_closed_def k_def [symmetric] due
    by (cases "k = 0") (simp_all add: Let_def rotate_once_def half_window_nanos_def)
qed

lemma rotate_if_needed_closed:
  assumes "0 < half_window_secs c"
  shows "rotate_if_needed now c = Some (rotate_closed now c)"
  using assms
proof (induction "rotations_due now c" arbitrary: c)
  case 0
  then have "\<not> bucket_start c + half_window_nanos c \<le> now"
    using rotations_due_rotate_once [of c now] by auto
  with 0 show ?case
    by (subst rotate_if_needed.simps) (simp add: rotation_due_iff rotate_closed_def Let_def)
next
  case (Suc k)
  have due: "bucket_start c + half_window_nanos c \<le> now"
  proof (rule ccontr)
    assume "\<not> bucket_start c + half_window_nanos c \<le> now"
    then have "now - bucket_start c < half_window_nanos c" using Suc.prems half_window_nanos_pos [of c] by auto
    with Suc.hyps(2) show False by (simp add: rotations_due_def)
  qed
  have "rotate_if_needed now (rotate_once c) = Some (rotate_closed now (rotate_once c))"
    using Suc rotations_due_rotate_once [OF Suc.prems due] by (intro Suc.hyps(1)) auto
  with due Suc.prems show ?case
    by (subst rotate_if_needed.simps) (simp add: rotation_due_iff rotate_closed_rotate_once)
qed

lemma rotate_closed_sel [simp]:
  "half_window_secs (rotate_closed now c) = half_window_secs c"
  "max_entries (rotate_closed now c) = max_entries c"
  "half_window_nanos (rotate_closed now c) = half_window_nanos c"
  by (simp_all add: rotate_closed_def Let_def half_window_nanos_def)

text \<open>After the rotation the clock is inside the current bucket.\<close>

lemma rotate_closed_in_bucket:
  assumes "0 < half_window_secs c"
  shows "now < bucket_start (rotate_closed now c) + half_window_nanos c"
proof -
  have "now - bucket_start c < Suc (rotations_due now c) * half_window_nanos c"
    unfolding rotations_due_def
    by (metis Suc_eq_plus1 half_window_nanos_pos [OF assms] dividend_less_times_div add.commute
        mult.commute mult_Suc)
  then show ?thesis
    using half_window_nanos_pos [OF assms] by (auto simp: rotate_closed_def Let_def)
qed

lemma rotate_idem:
  assumes "0 < half_window_secs c"
  shows "rotate_closed now (rotate_closed now c) = rotate_closed now c"
proof -
  have "rotations_due now (rotate_closed now c) = 0"
    using rotate_closed_in_bucket [OF assms, of now] half_window_nanos_pos [OF assms]
    by (auto simp: rotations_due_def)
  then show ?thesis by (simp add: rotate_closed_def [of now "rotate_closed now c"])
qed

section \<open>The promise of a replay guard\<close>

text \<open>
  What the token validation relies on: \<open>seen now c\<close> is the set of nonces that a check at
  time \<open>now\<close> refuses. A refused check changes nothing that is seen, an accepted one adds
  its nonce and its nonce was not there.
\<close>

locale replay_guard =
  fixes check :: "nat \<Rightarrow> string \<Rightarrow> 'c \<Rightarrow> ((soap_fault + unit) \<times> 'c) option"
    and seen :: "nat \<Rightarrow> 'c \<Rightarrow> string set"
    and guard_ok :: "'c \<Rightarrow> bool"
  assumes check_returns: "guard_ok c \<Longrightarrow> \<exists>r c'. check now n c = Some (r, c') \<and> guard_ok c'"
    and check_refuses: "guard_ok c \<Longrightarrow> check now n c = Some (Inl f, c') \<Longrightarrow> n \<in> seen now c"
    and check_accepts: "guard_ok c \<Longrightarrow> check now n c = Some (Inr u, c') \<Longrightarrow> n \<notin> seen now c \<and> n \<in> seen now c'"
begin

lemma seen_is_refused:
  assumes "guard_ok c" and "n \<in> seen now c"
  shows "\<exists>f c'. check now n c = Some (Inl f, c')"
proof -
  obtain r c' where r: "check now n c = Some (r, c')"
    using check_returns [OF assms(1)] by blast
  with check_accepts [OF assms(1)] assms(2) show ?thesis by (cases r) auto
qed

lemma second_check_refused:
  assumes "guard_ok c" and "check now n c = Some (Inr u, c')"
  shows "\<exists>f c''. check now n c' = Some (Inl f, c'')"
proof (rule seen_is_refused)
  show "guard_ok c'" using check_returns [OF assms(1), of now n] assms(2) by auto
  show "n \<in> seen now c'" using check_accepts [OF assms] by blast
qed

end

definition seen_nonces :: "nat \<Rightarrow> nonce_cache \<Rightarrow> string set" where
  "seen_nonces now c = current (rotate_closed now c) \<union> previous (rotate_closed now c)"

lemma check_and_insert_eq:
  "0 < half_window_secs c \<Longrightarrow> check_and_insert now n c = Some (insert_checked now n (rotate_closed now c))"
  by (simp add: check_and_insert_def rotate_if_needed_closed)

lemma insert_checked_frame [simp]:
  "half_window_secs (snd (insert_checked now n c)) = half_window_secs c"
  "max_entries (snd (insert_checked now n c)) = max_entries c"
  "half_window_nanos (snd (insert_checked now n c)) = half_window_nanos c"
  by (simp_all add: insert_checked_def Let_def half_window_nanos_def)

lemma insert_checked_seen:
  assumes "0 < half_window_secs c"
  shows "n \<in> seen_nonces now (snd (insert_checked now n (rotate_closed now c)))"
proof -
  let ?r = "rotate_closed now c"
  let ?c' = "snd (insert_checked now n ?r)"
  have kept: "n \<in> current ?c' \<or> n \<in> previous ?c'"
    by (auto simp: insert_checked_def Let_def)
  have "now < bucket_start ?c' + half_window_nanos ?c'"
    using rotate_closed_in_bucket [OF assms, of now] half_window_nanos_pos [OF assms]
    by (auto simp: insert_checked_def Let_def half_window_nanos_def)
  then have "now - bucket_start ?c' < half_window_nanos ?c'"
    using half_window_nanos_pos [OF assms] by (auto simp: less_diff_conv2)
  then have "rotations_due now ?c' = 0" by (simp add: rotations_due_def)
  with kept show ?thesis by (auto simp: seen_nonces_def rotate_closed_def [of now ?c'])
qed

interpretation nonces: replay_guard check_and_insert seen_nonces "\<lambda>c. 0 < half_window_secs c"
proof
  fix c :: nonce_cache and now n
  assume hw: "0 < half_window_secs c"
  show "\<exists>r c'. check_and_insert now n c = Some (r, c') \<and> 0 < half_window_secs c'"
    using hw by (cases "insert_checked now n (rotate_closed now c)")
      (auto simp: check_and_insert_eq dest: arg_cong [where f = "\<lambda>x. half_window_secs (snd x)"])
next
  fix c c' :: nonce_cache and now n f
  assume "0 < half_window_secs c" and "check_and_insert now n c = Some (Inl f, c')"
  then show "n \<in> seen_nonces now c"
    by (auto simp: check_and_insert_eq insert_checked_def seen_nonces_def Let_def split: if_splits)
next
  fix c c' :: nonce_cache and now n u
  assume hw: "0 < half_window_secs c" and run: "check_and_insert now n c = Some (Inr u, c')"
  then have "insert_checked now n (rotate_closed now c) = (Inr u, c')"
    by (simp add: check_and_insert_eq)
  with insert_checked_seen [OF hw, of n now]
  show "n \<notin> seen_nonces now c \<and> n \<in> seen_nonces now c'"
    by (auto simp: insert_checked_def seen_nonces_def Let_def split: if_splits)
qed

section \<open>Runs of the cache\<close>

text \<open>A sequence of checks, each with its clock reading; the results in order.\<close>

fun run_checks :: "(nat \<times> string) list \<Rightarrow> nonce_cache \<Rightarrow> ((soap_fault + unit) list \<times> nonce_cache) option" where
  "run_checks [] c = Some ([], c)"
| "run_checks ((now, n) # rest) c =
     (case check_and_insert now n c of
        None \<Rightarrow> None
      | Some (r, c') \<Rightarrow>
          (case run_checks rest c' of
             None \<Rightarrow> None
           | Some (rs, c'') \<Rightarrow> Some (r # rs, c'')))"

lemma run_checks_Cons:
  assumes "0 < half_window_secs c"
  shows "run_checks ((now, n) # rest) c =
    map_option (\<lambda>(rs, c'). (fst (insert_checked now n (rotate_closed now c)) # rs, c'))
      (run_checks rest (snd (insert_checked now n (rotate_closed now c))))"
  using assms
  by (cases "insert_checked now n (rotate_closed now c)")
    (auto simp: check_and_insert_eq split: option.splits)

lemma run_checks_step:
  "check_and_insert now n c = Some (r, c') \<Longrightarrow> run_checks xs c' = Some (rs, c'') \<Longrightarrow>
   run_checks ((now, n) # xs) c = Some (r # rs, c'')"
  by simp

declare run_checks.simps(2) [simp del]

lemma run_checks_returns:
  "0 < half_window_secs c \<Longrightarrow>
   \<exists>rs c'. run_checks xs c = Some (rs, c') \<and> half_window_secs c' = half_window_secs c \<and>
     max_entries c' = max_entries c \<and> length rs = length xs"
proof (induction xs arbitrary: c)
  case Nil
  then show ?case by simp
next
  case (Cons x xs)
  obtain now n where x: "x = (now, n)" by force
  let ?c' = "snd (insert_checked now n (rotate_closed now c))"
  from Cons.IH [of ?c'] Cons.prems obtain rs c' where
    "run_checks xs ?c' = Some (rs, c')" "half_window_secs c' = half_window_secs c"
    "max_entries c' = max_entries c" "length rs = length xs"
    by auto
  with Cons.prems show ?case unfolding x run_checks_Cons [OF Cons.prems] by simp
qed

subsection \<open>How many nonces are held\<close>

definition within_capacity :: "nonce_cache \<Rightarrow> bool" where
  "within_capacity c \<longleftrightarrow>
     finite (current c) \<and> finite (previous c) \<and>
     card (current c) \<le> max 1 (max_entries c) \<and> card (previous c) \<le> max 1 (max_entries c)"

lemma within_capacity_new: "within_capacity (with_max_entries now hw cap)"
  by (simp add: within_capacity_def with_max_entries_def)

lemma within_capacity_rotate: "within_capacity c \<Longrightarrow> within_capacity (rotate_closed now c)"
  by (auto simp: within_capacity_def rotate_closed_def Let_def)

lemma within_capacity_insert:
  "within_capacity c \<Longrightarrow> within_capacity (snd (insert_checked now n c))"
  by (auto simp: within_capacity_def insert_checked_def Let_def card_insert_if)

lemma within_capacity_run:
  "0 < half_window_secs c \<Longrightarrow> within_capacity c \<Longrightarrow> run_checks xs c = Some (rs, c') \<Longrightarrow> within_capacity c'"
proof (induction xs arbitrary: c rs)
  case Nil
  then show ?case by simp
next
  case (Cons x xs)
  obtain now n where x: "x = (now, n)" by force
  have "within_capacity (snd (insert_checked now n (rotate_closed now c)))"
    by (intro within_capacity_insert within_capacity_rotate Cons.prems)
  then show ?case
    using Cons.prems Cons.IH [of "snd (insert_checked now n (rotate_closed now c))"]
    by (auto simp: x run_checks_Cons)
qed

subsection \<open>How long a nonce is remembered\<close>

text \<open>
  The nonce is safe until \<open>deadline\<close> as long as at most \<open>budget\<close> more nonces are
  inserted: in the current bucket it survives one more rotation, in the previous bucket
  none, and a forced rotation needs a full current bucket.
\<close>

definition remembered :: "string \<Rightarrow> nat \<Rightarrow> nat \<Rightarrow> nonce_cache \<Rightarrow> bool" where
  "remembered n deadline budget c \<longleftrightarrow>
     finite (current c) \<and> 0 < half_window_secs c \<and>
     (n \<in> current c \<and> deadline \<le> bucket_start c + 2 * half_window_nanos c \<and> budget \<le> max_entries c \<or>
      n \<in> previous c \<and> deadline \<le> bucket_start c + half_window_nanos c \<and>
        card (current c) + budget \<le> max_entries c)"

lemma remembered_rotate:
  assumes "remembered n deadline budget c" and "now < deadline"
  shows "remembered n deadline budget (rotate_closed now c) \<and>
    (n \<in> current (rotate_closed now c) \<or> n \<in> previous (rotate_closed now c))"
proof -
  have hw: "0 < half_window_secs c" using assms(1) by (simp add: remembered_def)
  let ?h = "half_window_nanos c"
  have le: "rotations_due now c * ?h \<le> now - bucket_start c"
    by (simp add: rotations_due_def)
  consider "rotations_due now c = 0" | "rotations_due now c = 1" | "2 \<le> rotations_due now c" by linarith
  then show ?thesis
  proof cases
    case 1
    with assms(1) show ?thesis by (auto simp: rotate_closed_def remembered_def)
  next
    case 2
    with le have "bucket_start c + ?h \<le> now" using half_window_nanos_pos [OF hw] by auto
    with 2 assms show ?thesis
      by (auto simp: rotate_closed_def remembered_def)
  next
    case 3
    then have "2 * ?h \<le> rotations_due now c * ?h" by (rule mult_le_mono1)
    with le have "bucket_start c + 2 * ?h \<le> now" using half_window_nanos_pos [OF hw] by linarith
    with assms show ?thesis by (auto simp: remembered_def)
  qed
qed

lemma remembered_insert:
  assumes "remembered n deadline (Suc budget) c"
    and "deadline \<le> now + half_window_nanos c"
  shows "remembered n deadline budget (snd (insert_checked now m c))"
  using assms
  by (auto simp: remembered_def insert_checked_def Let_def card_insert_if)

text \<open>A nonce that was just accepted is remembered for a half window and \<open>max_entries\<close> inserts.\<close>

lemma remembered_accepted:
  assumes hw: "0 < half_window_secs c" and fin: "finite (current c)"
    and run: "check_and_insert now n c = Some (Inr (), c')"
  shows "remembered n (now + half_window_nanos c) (max_entries c) c'"
proof -
  let ?r = "rotate_closed now c"
  have r: "insert_checked now n ?r = (Inr (), c')" using run by (simp add: check_and_insert_eq hw)
  have fin': "finite (current ?r)" using fin by (simp add: rotate_closed_def Let_def)
  have start: "now < bucket_start ?r + half_window_nanos c" by (rule rotate_closed_in_bucket [OF hw])
  from r fin' start hw show ?thesis
    by (auto simp: remembered_def insert_checked_def Let_def split: if_splits)
qed

lemma remembered_run:
  assumes "remembered n deadline budget c" and "length xs \<le> budget"
    and "\<forall>(t, m) \<in> set xs. t < deadline \<and> deadline \<le> t + half_window_nanos c"
    and "run_checks xs c = Some (rs, c')" and "now < deadline"
  shows "\<exists>c''. check_and_insert now n c' = Some (Inl replay_fault, c'')"
  using assms
proof (induction xs arbitrary: c budget rs)
  case Nil
  have "0 < half_window_secs c" using Nil.prems(1) by (simp add: remembered_def)
  with remembered_rotate [OF Nil.prems(1,5)] Nil.prems(4) show ?case
    by (auto simp: check_and_insert_eq insert_checked_def)
next
  case (Cons x xs)
  obtain t m where x: "x = (t, m)" by force
  have hw: "0 < half_window_secs c" using Cons.prems(1) by (simp add: remembered_def)
  obtain b where b: "budget = Suc b" using Cons.prems(2) by (cases budget) auto
  let ?r = "rotate_closed t c"
  let ?c1 = "snd (insert_checked t m ?r)"
  have "remembered n deadline (Suc b) ?r"
    using remembered_rotate [OF Cons.prems(1), of t] Cons.prems(3) by (simp add: x b)
  then have "remembered n deadline b ?c1"
    using Cons.prems(3) by (intro remembered_insert) (auto simp: x)
  moreover obtain rs' where "run_checks xs ?c1 = Some (rs', c')"
    using Cons.prems(4) by (auto simp: x run_checks_Cons [OF hw])
  ultimately show ?case
    using Cons.IH [of b ?c1 rs'] Cons.prems by (auto simp: b)
qed

text \<open>An accepted nonce, a run of checks, and the nonce again.\<close>

lemma nonce_refused:
  assumes "0 < half_window_secs c" and "finite (current c)"
    and "check_and_insert t n c = Some (Inr (), c0)"
    and "length xs \<le> max_entries c"
    and "\<forall>(t', m) \<in> set xs. t \<le> t' \<and> t' < t + half_window_nanos c"
    and "run_checks xs c0 = Some (rs, c1)"
    and "t' < t + half_window_nanos c"
  shows "\<exists>c2. check_and_insert t' n c1 = Some (Inl replay_fault, c2)"
proof -
  have c0: "c0 = snd (insert_checked t n (rotate_closed t c))"
    using assms(3) by (simp add: check_and_insert_eq [OF assms(1)])
  then have "half_window_nanos c0 = half_window_nanos c" by simp
  with remembered_run [OF remembered_accepted [OF assms(1-3)] assms(4) _ assms(6,7)] assms(5)
  show ?thesis by fastforce
qed

text \<open>Two half windows after the start of the bucket it fell into, a nonce is forgotten.\<close>

lemma forgotten_after_two_windows:
  assumes "0 < half_window_secs c" and "bucket_start c + 2 * half_window_nanos c \<le> now"
  shows "seen_nonces now c = {}"
proof -
  have "2 * half_window_nanos c \<le> now - bucket_start c" using assms(2) by simp
  then have "2 \<le> rotations_due now c"
    using half_window_nanos_pos [OF assms(1)]
    by (simp add: rotations_due_def less_eq_div_iff_mult_less_eq)
  then show ?thesis by (auto simp: seen_nonces_def rotate_closed_def Let_def)
qed

lemma accepted_when_unseen:
  assumes "0 < half_window_secs c" and "n \<notin> seen_nonces now c"
  shows "\<exists>c'. check_and_insert now n c = Some (Inr (), c')"
  using assms by (auto simp: check_and_insert_eq insert_checked_def seen_nonces_def Let_def)

subsection \<open>A zero half window\<close>

lemma rotate_zero_window:
  assumes "half_window_secs c = 0"
  shows "rotate_if_needed now c = None"
proof (rule ccontr)
  assume "rotate_if_needed now c \<noteq> None"
  then obtain r where "rotate_if_needed now c = Some r" by blast
  then have "half_window_secs c \<noteq> 0"
  proof (rule rotate_if_needed.raw_induct [where P = "\<lambda>now c r. half_window_secs c \<noteq> 0", rotated])
    fix f now and c :: nonce_cache and r
    assume IH: "\<And>now c r. f now c = Some r \<Longrightarrow> half_window_secs c \<noteq> 0"
      and eq: "(if half_window_secs c \<le> elapsed_secs now c then f now (rotate_once c) else Some c) = Some r"
    show "half_window_secs c \<noteq> 0"
    proof (cases "half_window_secs c \<le> elapsed_secs now c")
      case True
      with eq IH [of now "rotate_once c" r] show ?thesis by simp
    qed simp
  qed
  with assms show False by simp
qed

section \<open>Properties\<close>

definition sample_cache :: nonce_cache where
  "sample_cache = with_max_entries 0 150 10"

text \<open>
  C4. The cache refuses a replay: a nonce that was accepted is refused by every check within
  half a window, whatever checks come in between, as long as they are at most as many as
  the capacity of a bucket.
\<close>

theorem replay_is_refused:
  assumes "0 < half_window_secs c" and "finite (current c)"
    and "check_and_insert t n c = Some (Inr (), c0)"
    and "length xs \<le> max_entries c"
    and "\<forall>(t', m) \<in> set xs. t \<le> t' \<and> t' < t + half_window_nanos c"
    and "run_checks xs c0 = Some (rs, c1)"
    and "t' < t + half_window_nanos c"
  shows "\<exists>c2. check_and_insert t' n c1 = Some (Inl replay_fault, c2)"
  by (rule nonce_refused [OF assms])

lemma sample_checks:
  "check_and_insert 5 ''n'' sample_cache = Some (Inr (), sample_cache\<lparr>current := {''n''}\<rparr>)"
  "run_checks [(7, ''m'')] (sample_cache\<lparr>current := {''n''}\<rparr>) =
     Some ([Inr ()], sample_cache\<lparr>current := {''m'', ''n''}\<rparr>)"
  by (simp_all add: sample_cache_def with_max_entries_def run_checks_Cons check_and_insert_eq
      rotate_closed_def rotations_due_def half_window_nanos_def nanos_per_sec_def insert_checked_def)

lemma replay_is_refused_witness:
  "\<exists>c2. check_and_insert 9 ''n'' (sample_cache\<lparr>current := {''m'', ''n''}\<rparr>) = Some (Inl replay_fault, c2)"
  by (rule replay_is_refused [where c = sample_cache and t = 5 and xs = "[(7, ''m'')]",
        OF _ _ sample_checks(1) _ _ sample_checks(2)])
    (simp_all add: sample_cache_def with_max_entries_def half_window_nanos_def nanos_per_sec_def)

text \<open>
  A check returns exactly when the half window is not zero: with a half window of zero
  the rotation never ends.
\<close>

theorem check_returns_iff:
  "(\<exists>r c'. check_and_insert now n c = Some (r, c')) \<longleftrightarrow> 0 < half_window_secs c"
proof (cases "half_window_secs c = 0")
  case True
  then show ?thesis by (simp add: check_and_insert_def rotate_zero_window)
next
  case False
  then show ?thesis using nonces.check_returns [of c now n] by blast
qed

text \<open>
  C17. What a check does, in closed form: it drops the buckets that are out of date by the
  number of whole half windows gone by, then refuses exactly the nonces still held.
\<close>

theorem check_refuses_exactly_held:
  assumes "0 < half_window_secs c"
  shows "\<exists>c'. check_and_insert now n c =
    Some (if n \<in> (case (now - bucket_start c) div half_window_nanos c of
                      0 \<Rightarrow> current c \<union> previous c
                    | Suc 0 \<Rightarrow> current c
                    | _ \<Rightarrow> {})
          then Inl replay_fault else Inr (), c')"
  using assms
  by (auto simp: check_and_insert_eq insert_checked_def rotate_closed_def rotations_due_def Let_def
      split: nat.split)

lemma check_refuses_exactly_held_witness:
  "\<exists>c'. check_and_insert 5 ''n'' (sample_cache\<lparr>current := {''n''}\<rparr>) = Some (Inl replay_fault, c')"
  using check_refuses_exactly_held [of "sample_cache\<lparr>current := {''n''}\<rparr>" 5 "''n''"]
  by (simp add: sample_cache_def with_max_entries_def half_window_nanos_def nanos_per_sec_def)

text \<open>
  C18. Memory is bounded: however many checks a cache has made, with whatever nonces and clock
  readings, each of its two buckets holds at most as many nonces as its capacity (one, when the
  capacity is zero); the cache of the server has the default capacity.
\<close>

theorem cache_is_bounded:
  assumes "run_checks xs (with_max_entries t hw m) = Some (rs, c)" and "0 < hw"
  shows "finite (current c) \<and> card (current c) \<le> max 1 m \<and> finite (previous c) \<and> card (previous c) \<le> max 1 m"
proof -
  have start: "0 < half_window_secs (with_max_entries t hw m)" using assms(2) by (simp add: with_max_entries_def)
  have "within_capacity c" by (rule within_capacity_run [OF start within_capacity_new assms(1)])
  moreover have "max_entries c = m"
    using run_checks_returns [OF start, of xs] assms(1) by (auto simp: with_max_entries_def)
  ultimately show ?thesis by (simp add: within_capacity_def)
qed

text \<open>
  At capacity one every new nonce starts a bucket; the nonce of the third check is in the older
  bucket and refused, the one of the last check has been dropped and is accepted again.
\<close>

definition tight_checks :: "(nat \<times> string) list" where
  "tight_checks = [(5, ''a''), (6, ''b''), (7, ''a''), (8, ''c''), (9, ''a'')]"

lemma tight_run:
  "\<exists>c. run_checks tight_checks (with_max_entries 0 150 1) =
     Some ([Inr (), Inr (), Inl replay_fault, Inr (), Inr ()], c) \<and> current c = {''a''} \<and> previous c = {''c''}"
  by (simp add: tight_checks_def with_max_entries_def run_checks_Cons rotate_closed_def rotations_due_def
      half_window_nanos_def nanos_per_sec_def insert_checked_def force_rotate_def)

lemma cache_is_bounded_witness:
  "\<exists>c. run_checks tight_checks (with_max_entries 0 150 1) =
     Some ([Inr (), Inr (), Inl replay_fault, Inr (), Inr ()], c) \<and>
     card (current c) \<le> 1 \<and> card (previous c) \<le> 1"
proof -
  obtain c where run: "run_checks tight_checks (with_max_entries 0 150 1) =
      Some ([Inr (), Inr (), Inl replay_fault, Inr (), Inr ()], c)" using tight_run by blast
  with cache_is_bounded [OF run] show ?thesis by auto
qed

end
