(* ===== verification/UsernameToken.thy ===== *)
theory UsernameToken
  imports NonceCache XmlModel
begin

text \<open>
  \<open>src/src/wssec/timestamp.rs\<close> and \<open>src/src/wssec/username_token.rs\<close>: parsing and
  validating a WS-Security UsernameToken. UTC times are nanoseconds as integers. The
  crates below it are parameters, gathered in \<open>wss_lib\<close>: the tokeniser, base64, SHA-1,
  RFC 3339 parsing and the conversion of seconds into a duration, which panics (\<open>None\<close>)
  outside its range. A panic is the failure \<open>Panic\<close>, which no fault response follows.
\<close>

section \<open>Third-party operations\<close>

record wss_lib =
  wl_tok :: tokenizer
  wl_b64_decode :: "string \<Rightarrow> string + bytes"
  wl_b64_encode :: "bytes \<Rightarrow> string"
  wl_sha1 :: "bytes \<Rightarrow> bytes"
  wl_rfc3339 :: "string \<Rightarrow> int option"
  wl_seconds :: "int \<Rightarrow> int option"

datatype failure = Fault soap_fault | Panic

text \<open>The documented range of \<open>Duration::seconds\<close>: every \<open>i64\<close> number of milliseconds.\<close>

definition seconds_ok :: "wss_lib \<Rightarrow> bool" where
  "seconds_ok lib \<longleftrightarrow> (\<forall>s. \<bar>s\<bar> \<le> 9223372036854775 \<longrightarrow> wl_seconds lib s = Some (s * 1000000000))"

section \<open>Timestamps\<close>

definition parse_created :: "wss_lib \<Rightarrow> string \<Rightarrow> failure + int" where
  "parse_created lib s =
     ok_or (Fault (sender ''Invalid WS-Security timestamp format'')) (wl_rfc3339 lib s)"

definition check_freshness :: "wss_lib \<Rightarrow> int \<Rightarrow> int \<Rightarrow> int \<Rightarrow> failure + unit" where
  "check_freshness lib now created tolerance_secs =
     (let diff = now - created in
      case wl_seconds lib tolerance_secs of
        None \<Rightarrow> Inl Panic
      | Some hi \<Rightarrow>
          if hi < diff then Inl (Fault (sender ''WS-Security timestamp expired''))
          else
            (case wl_seconds lib (- tolerance_secs) of
               None \<Rightarrow> Inl Panic
             | Some lo \<Rightarrow>
                 if diff < lo then Inl (Fault (sender ''WS-Security timestamp is in the future''))
                 else Inr ()))"

lemma check_freshness_Ok_iff:
  assumes "seconds_ok lib" and "\<bar>tol\<bar> \<le> 9223372036854775"
  shows "check_freshness lib now created tol = Inr () \<longleftrightarrow> \<bar>now - created\<bar> \<le> tol * 1000000000"
  using assms by (auto simp: check_freshness_def seconds_ok_def Let_def)

section \<open>Names and namespaces\<close>

definition WSSE_NS :: string where
  "WSSE_NS = ''http://docs.oasis-open.org/wss/2004/01/oasis-200401-wss-wssecurity-secext-1.0.xsd''"

definition WSU_NS :: string where
  "WSU_NS = ''http://docs.oasis-open.org/wss/2004/01/oasis-200401-wss-wssecurity-utility-1.0.xsd''"

definition PASSWORD_DIGEST_TYPE :: string where
  "PASSWORD_DIGEST_TYPE = ''http://docs.oasis-open.org/wss/2004/01/oasis-200401-wss-username-token-profile-1.0#PasswordDigest''"

definition PASSWORD_TEXT_TYPE :: string where
  "PASSWORD_TEXT_TYPE = ''http://docs.oasis-open.org/wss/2004/01/oasis-200401-wss-username-token-profile-1.0#PasswordText''"

datatype password_type = Digest | PlainText

record username_token =
  ut_username :: string
  ut_password :: string
  ut_password_type :: password_type
  ut_nonce :: "string option"
  ut_created :: "string option"

type_synonym ns_map = "(string, string) hashmap"

definition collect_ns_attr :: "bytes \<times> bytes \<Rightarrow> ns_map \<Rightarrow> ns_map" where
  "collect_ns_attr kv m =
     (let key = utf8_or_empty (fst kv); val = from_utf8_lossy (snd kv) in
      case strip_prefix ''xmlns:'' key of
        Some prefix \<Rightarrow> hm_insert prefix val m
      | None \<Rightarrow> if key = ''xmlns'' then hm_insert [] val m else m)"

definition collect_ns_attrs :: "attr list \<Rightarrow> ns_map \<Rightarrow> ns_map" where
  "collect_ns_attrs as m = fold collect_ns_attr (attrs_ok as) m"

definition split_name :: "bytes \<Rightarrow> string option \<times> string" where
  "split_name name =
     (let s = utf8_or_empty name in
      case split_once CHR '':'' s of
        Some (p, l) \<Rightarrow> (Some p, l)
      | None \<Rightarrow> (None, s))"

definition resolve_ns :: "string option \<Rightarrow> ns_map \<Rightarrow> string option" where
  "resolve_ns prefix m = (case prefix of Some p \<Rightarrow> hm_get m p | None \<Rightarrow> hm_get m [])"

section \<open>Parsing a token\<close>

text \<open>The local variables of the parser loop.\<close>

record token_parser =
  tp_username :: "string option"
  tp_password :: "string option"
  tp_password_type :: password_type
  tp_nonce :: "string option"
  tp_created :: "string option"
  tp_ns_map :: ns_map
  in_username_token :: bool
  in_username_elem :: bool
  in_password_elem :: bool
  in_nonce_elem :: bool
  in_created_elem :: bool
  found_token :: bool

definition token_parser_start :: token_parser where
  "token_parser_start =
     \<lparr>tp_username = None, tp_password = None, tp_password_type = Digest, tp_nonce = None,
      tp_created = None, tp_ns_map = [], in_username_token = False, in_username_elem = False,
      in_password_elem = False, in_nonce_elem = False, in_created_elem = False,
      found_token = False\<rparr>"

definition password_type_of :: "attr list \<Rightarrow> password_type \<Rightarrow> password_type" where
  "password_type_of as t =
     fold (\<lambda>(k, v) t.
         if utf8_or_empty k = ''Type'' then
           (let val = from_utf8_lossy v in
            if val = PASSWORD_DIGEST_TYPE then Digest
            else if val = PASSWORD_TEXT_TYPE then PlainText else Digest)
         else t)
       (attrs_ok as) t"

definition token_start :: "tag \<Rightarrow> token_parser \<Rightarrow> token_parser" where
  "token_start e p0 =
     (let p = p0\<lparr>tp_ns_map := collect_ns_attrs (tag_attrs e) (tp_ns_map p0)\<rparr>;
          (prefix, loc) = split_name (tag_name e);
          ns = resolve_ns prefix (tp_ns_map p)
      in if loc = ''UsernameToken'' \<and> ns = Some WSSE_NS then
           p\<lparr>in_username_token := True, found_token := True\<rparr>
         else if loc = ''Username'' \<and> ns = Some WSSE_NS \<and> in_username_token p then
           p\<lparr>in_username_elem := True\<rparr>
         else if loc = ''Password'' \<and> ns = Some WSSE_NS \<and> in_username_token p then
           p\<lparr>in_password_elem := True,
             tp_password_type := password_type_of (tag_attrs e) (tp_password_type p)\<rparr>
         else if loc = ''Nonce'' \<and> ns = Some WSSE_NS \<and> in_username_token p then
           p\<lparr>in_nonce_elem := True\<rparr>
         else if loc = ''Created'' \<and> ns = Some WSU_NS \<and> in_username_token p then
           p\<lparr>in_created_elem := True\<rparr>
         else p)"

definition token_empty :: "tag \<Rightarrow> token_parser \<Rightarrow> token_parser" where
  "token_empty e p0 =
     (let p = p0\<lparr>tp_ns_map := collect_ns_attrs (tag_attrs e) (tp_ns_map p0)\<rparr>;
          (prefix, loc) = split_name (tag_name e);
          ns = resolve_ns prefix (tp_ns_map p)
      in if loc = ''UsernameToken'' \<and> ns = Some WSSE_NS then p\<lparr>found_token := True\<rparr> else p)"

definition token_text :: "bytes \<Rightarrow> token_parser \<Rightarrow> token_parser" where
  "token_text t p =
     (let text = from_utf8_lossy t in
      if in_username_elem p then p\<lparr>tp_username := Some text, in_username_elem := False\<rparr>
      else if in_password_elem p then p\<lparr>tp_password := Some text, in_password_elem := False\<rparr>
      else if in_nonce_elem p then p\<lparr>tp_nonce := Some text, in_nonce_elem := False\<rparr>
      else if in_created_elem p then p\<lparr>tp_created := Some text, in_created_elem := False\<rparr>
      else p)"

definition token_end :: "bytes \<Rightarrow> token_parser \<Rightarrow> token_parser" where
  "token_end name p =
     (let loc = snd (split_name name) in
      if loc = ''UsernameToken'' then p\<lparr>in_username_token := False\<rparr>
      else if loc = ''Username'' then p\<lparr>in_username_elem := False\<rparr>
      else if loc = ''Password'' then p\<lparr>in_password_elem := False\<rparr>
      else if loc = ''Nonce'' then p\<lparr>in_nonce_elem := False\<rparr>
      else if loc = ''Created'' then p\<lparr>in_created_elem := False\<rparr>
      else p)"

fun token_step :: "event \<Rightarrow> token_parser \<Rightarrow> token_parser" where
  "token_step (EvStart e) p = token_start e p"
| "token_step (EvEmpty e) p = token_empty e p"
| "token_step (EvText t) p = token_text t p"
| "token_step (EvEnd n) p = token_end n p"
| "token_step _ p = p"

fun token_loop :: "reader \<Rightarrow> token_parser \<Rightarrow> soap_fault + token_parser" where
  "token_loop [] p = Inr p"
| "token_loop (Inl e # r) p = Inl (sender (''WS-Security XML parse error: '' @ e))"
| "token_loop (Inr (_, ev) # r) p =
     (if ev = EvEof then Inr p else token_loop r (token_step ev p))"

definition parse_username_token :: "tokenizer \<Rightarrow> bytes \<Rightarrow> soap_fault + username_token" where
  "parse_username_token tok xml =
     res_bind (token_loop (tok True xml) token_parser_start) (\<lambda>p.
     if \<not> found_token p then Inl (sender ''Missing UsernameToken'')
     else
       res_bind (ok_or (sender ''Missing Username in UsernameToken'') (tp_username p)) (\<lambda>username.
       res_bind (ok_or (sender ''Missing Password in UsernameToken'') (tp_password p)) (\<lambda>password.
       Inr \<lparr>ut_username = username, ut_password = password,
            ut_password_type = tp_password_type p, ut_nonce = tp_nonce p,
            ut_created = tp_created p\<rparr>)))"

section \<open>Digests\<close>

definition add_base64_padding :: "string \<Rightarrow> string" where
  "add_base64_padding s =
     (let remainder = length s mod 4 in
      if remainder = 0 then s else s @ replicate (4 - remainder) CHR ''='')"

definition compute_digest :: "wss_lib \<Rightarrow> string \<Rightarrow> string \<Rightarrow> string \<Rightarrow> soap_fault + string" where
  "compute_digest lib nonce_b64 created password =
     res_bind (map_err (\<lambda>e. sender (''Invalid nonce encoding: '' @ e))
                (wl_b64_decode lib (add_base64_padding nonce_b64)))
       (\<lambda>nonce_bytes. Inr (wl_b64_encode lib (wl_sha1 lib (nonce_bytes @ created @ password))))"

section \<open>Validation\<close>

definition auth_failed :: soap_fault where
  "auth_failed = sender ''Authentication failed''"

definition verify_password ::
  "wss_lib \<Rightarrow> username_token \<Rightarrow> string \<Rightarrow> int \<Rightarrow> int \<Rightarrow> failure + unit" where
  "verify_password lib token stored tolerance_secs now =
     (case ut_password_type token of
        Digest \<Rightarrow>
          res_bind (ok_or (Fault (sender ''Missing Nonce for PasswordDigest'')) (ut_nonce token)) (\<lambda>nonce.
          res_bind (ok_or (Fault (sender ''Missing Created for PasswordDigest'')) (ut_created token)) (\<lambda>created.
          res_bind (map_err Fault (compute_digest lib nonce created stored)) (\<lambda>expected.
          if expected \<noteq> ut_password token then Inl (Fault auth_failed)
          else
            res_bind (parse_created lib created) (\<lambda>created_dt.
            check_freshness lib now created_dt tolerance_secs))))
      | PlainText \<Rightarrow>
          res_bind (ok_or (Fault (sender ''Missing Created for PasswordText'')) (ut_created token)) (\<lambda>created_str.
          res_bind (parse_created lib created_str) (\<lambda>created_dt.
          res_bind (check_freshness lib now created_dt tolerance_secs) (\<lambda>_.
          if ut_password token \<noteq> stored then Inl (Fault auth_failed) else Inr ()))))"

text \<open>
  The whole validation. \<open>now\<close> is the wall clock, \<open>inst\<close> the monotonic clock that the
  nonce cache reads; the outer \<open>None\<close> is a cache that does not return.
\<close>

definition validate_username_token ::
  "wss_lib \<Rightarrow> bytes \<Rightarrow> (string \<Rightarrow> string option) \<Rightarrow> nonce_cache \<Rightarrow> int \<Rightarrow> int \<Rightarrow> nat \<Rightarrow>
   ((failure + string) \<times> nonce_cache) option" where
  "validate_username_token lib security get_password cache tolerance_secs now inst =
     (case res_bind (map_err Fault (parse_username_token (wl_tok lib) security)) (\<lambda>token.
             res_bind (ok_or (Fault auth_failed) (get_password (ut_username token))) (\<lambda>stored.
             res_bind (verify_password lib token stored tolerance_secs now) (\<lambda>_.
             Inr token))) of
        Inl e \<Rightarrow> Some (Inl e, cache)
      | Inr token \<Rightarrow>
          (case ut_nonce token of
             None \<Rightarrow> Some (Inr (ut_username token), cache)
           | Some nonce \<Rightarrow>
               (case check_and_insert inst nonce cache of
                  None \<Rightarrow> None
                | Some (Inl f, cache') \<Rightarrow> Some (Inl (Fault f), cache')
                | Some (Inr _, cache') \<Rightarrow> Some (Inr (ut_username token), cache'))))"

section \<open>What a valid token is\<close>

text \<open>
  The declarative side of the password check: the credentials match and the creation time
  is within the tolerance of the clock.
\<close>

definition fresh :: "wss_lib \<Rightarrow> int \<Rightarrow> int \<Rightarrow> string \<Rightarrow> bool" where
  "fresh lib tol now created \<longleftrightarrow>
     (\<exists>t. wl_rfc3339 lib created = Some t \<and> \<bar>now - t\<bar> \<le> tol * 1000000000)"

definition token_valid :: "wss_lib \<Rightarrow> int \<Rightarrow> int \<Rightarrow> username_token \<Rightarrow> string \<Rightarrow> bool" where
  "token_valid lib tol now token stored \<longleftrightarrow>
     (case ut_password_type token of
        Digest \<Rightarrow>
          (\<exists>nonce created nonce_bytes.
             ut_nonce token = Some nonce \<and> ut_created token = Some created \<and>
             wl_b64_decode lib (add_base64_padding nonce) = Inr nonce_bytes \<and>
             ut_password token = wl_b64_encode lib (wl_sha1 lib (nonce_bytes @ created @ stored)) \<and>
             fresh lib tol now created)
      | PlainText \<Rightarrow>
          (\<exists>created. ut_created token = Some created \<and> fresh lib tol now created \<and>
             ut_password token = stored))"

definition tolerance_ok :: "int \<Rightarrow> bool" where
  "tolerance_ok tol \<longleftrightarrow> \<bar>tol\<bar> \<le> 9223372036854775"

lemma verify_password_iff:
  assumes "seconds_ok lib" and "tolerance_ok tol"
  shows "verify_password lib token stored tol now = Inr () \<longleftrightarrow> token_valid lib tol now token stored"
  using check_freshness_Ok_iff [OF assms(1), of tol] assms(2)
  by (cases "ut_password_type token")
    (auto simp: verify_password_def token_valid_def fresh_def parse_created_def compute_digest_def
      tolerance_ok_def res_simps)

text \<open>The three parts of a validation.\<close>

definition token_checked ::
  "wss_lib \<Rightarrow> bytes \<Rightarrow> (string \<Rightarrow> string option) \<Rightarrow> int \<Rightarrow> int \<Rightarrow> failure + username_token" where
  "token_checked lib security get_password tol now =
     res_bind (map_err Fault (parse_username_token (wl_tok lib) security)) (\<lambda>token.
     res_bind (ok_or (Fault auth_failed) (get_password (ut_username token))) (\<lambda>stored.
     res_bind (verify_password lib token stored tol now) (\<lambda>_. Inr token)))"

lemma validate_eq:
  "validate_username_token lib security get_password cache tol now inst =
     (case token_checked lib security get_password tol now of
        Inl e \<Rightarrow> Some (Inl e, cache)
      | Inr token \<Rightarrow>
          (case ut_nonce token of
             None \<Rightarrow> Some (Inr (ut_username token), cache)
           | Some nonce \<Rightarrow>
               (case check_and_insert inst nonce cache of
                  None \<Rightarrow> None
                | Some (Inl f, cache') \<Rightarrow> Some (Inl (Fault f), cache')
                | Some (Inr _, cache') \<Rightarrow> Some (Inr (ut_username token), cache'))))"
  by (simp add: validate_username_token_def token_checked_def)

lemma token_checked_iff:
  assumes "seconds_ok lib" and "tolerance_ok tol"
  shows "token_checked lib security get_password tol now = Inr token \<longleftrightarrow>
    (\<exists>stored. parse_username_token (wl_tok lib) security = Inr token \<and>
       get_password (ut_username token) = Some stored \<and> token_valid lib tol now token stored)"
  by (auto simp: token_checked_def res_simps verify_password_iff [OF assms])

text \<open>A validation changes the cache only by one check of the token's nonce.\<close>

lemma validate_cache:
  assumes "validate_username_token lib security get_password cache tol now inst = Some (r, cache')"
  shows "cache' = cache \<or> (\<exists>n r'. check_and_insert inst n cache = Some (r', cache'))"
  using assms by (auto simp: validate_eq split: sum.splits option.splits)

lemma validate_Ok_nonce:
  assumes "validate_username_token lib security get_password cache tol now inst = Some (Inr u, cache')"
  obtains token where "token_checked lib security get_password tol now = Inr token"
    and "u = ut_username token"
    and "case ut_nonce token of None \<Rightarrow> cache' = cache
         | Some n \<Rightarrow> check_and_insert inst n cache = Some (Inr (), cache')"
  using assms by (auto simp: validate_eq split: sum.splits option.splits)

lemma token_checked_parses:
  "token_checked lib security get_password tol now = Inr token \<Longrightarrow>
   parse_username_token (wl_tok lib) security = Inr token"
  by (auto simp: token_checked_def res_simps)

section \<open>Properties\<close>

text \<open>The events of a token element with one text in each child.\<close>

definition plain_item :: "event \<Rightarrow> item" where
  "plain_item e = Inr (Unbound, e)"

definition text_element :: "bytes \<Rightarrow> attr list \<Rightarrow> event list \<Rightarrow> reader" where
  "text_element n as content = plain_item (EvStart (Tag n as)) # map plain_item content @ [plain_item (EvEnd n)]"

definition token_items :: "bytes \<Rightarrow> event list \<Rightarrow> bytes \<Rightarrow> bytes \<Rightarrow> bytes \<Rightarrow> reader" where
  "token_items ptype user pass nonce created =
     plain_item (EvStart (Tag ''wsse:UsernameToken''
        [Attr ''xmlns:wsse'' WSSE_NS, Attr ''xmlns:wsu'' WSU_NS])) #
     text_element ''wsse:Username'' [] user @
     text_element ''wsse:Password'' [Attr ''Type'' ptype] [EvText pass] @
     text_element ''wsse:Nonce'' [] [EvText nonce] @
     text_element ''wsu:Created'' [] [EvText created] @
     [plain_item (EvEnd ''wsse:UsernameToken'')]"

lemma split_names [simp]:
  "split_name ''wsse:UsernameToken'' = (Some ''wsse'', ''UsernameToken'')"
  "split_name ''wsse:Username'' = (Some ''wsse'', ''Username'')"
  "split_name ''wsse:Password'' = (Some ''wsse'', ''Password'')"
  "split_name ''wsse:Nonce'' = (Some ''wsse'', ''Nonce'')"
  "split_name ''wsu:Created'' = (Some ''wsu'', ''Created'')"
  by (simp_all add: split_name_def utf8_valid_ascii is_ascii_def byte_def)

lemma ns_consts_utf8 [simp]:
  "utf8_valid WSSE_NS" "utf8_valid WSU_NS" "utf8_valid PASSWORD_DIGEST_TYPE" "utf8_valid PASSWORD_TEXT_TYPE"
  by (simp_all add: utf8_valid_ascii is_ascii_def byte_def WSSE_NS_def WSU_NS_def
      PASSWORD_DIGEST_TYPE_def PASSWORD_TEXT_TYPE_def)

lemma ns_consts_distinct [simp]:
  "WSSE_NS \<noteq> WSU_NS" "WSU_NS \<noteq> WSSE_NS" "PASSWORD_TEXT_TYPE \<noteq> PASSWORD_DIGEST_TYPE"
  "PASSWORD_DIGEST_TYPE \<noteq> PASSWORD_TEXT_TYPE"
  by (simp_all add: WSSE_NS_def WSU_NS_def PASSWORD_DIGEST_TYPE_def PASSWORD_TEXT_TYPE_def)

lemma collect_ns_declared:
  "collect_ns_attrs [Attr ''xmlns:wsse'' WSSE_NS, Attr ''xmlns:wsu'' WSU_NS] [] =
     [(''wsse'', WSSE_NS), (''wsu'', WSU_NS)]"
  by (simp add: collect_ns_attrs_def collect_ns_attr_def utf8_valid_ascii is_ascii_def byte_def
      from_utf8_lossy_valid strip_prefix_def starts_with_def hm_insert_def Let_def)

lemma collect_ns_none [simp]: "collect_ns_attrs [] m = m"
  by (simp add: collect_ns_attrs_def)

lemma collect_ns_type [simp]: "collect_ns_attrs [Attr ''Type'' v] m = m"
  by (simp add: collect_ns_attrs_def collect_ns_attr_def utf8_valid_ascii is_ascii_def byte_def
      strip_prefix_def starts_with_def Let_def)

lemma password_type_attr [simp]:
  "password_type_of [Attr ''Type'' v] t =
     (if from_utf8_lossy v = PASSWORD_DIGEST_TYPE then Digest
      else if from_utf8_lossy v = PASSWORD_TEXT_TYPE then PlainText else Digest)"
  by (simp add: password_type_of_def utf8_valid_ascii is_ascii_def byte_def Let_def)

lemmas token_simps =
  token_start_def token_empty_def token_text_def token_end_def token_parser_start_def
  text_element_def plain_item_def resolve_ns_def collect_ns_declared hm_get_def Let_def

lemma token_loop_head:
  "token_loop (token_items ptype (EvText user # extra) pass nonce created) token_parser_start =
   token_loop (map plain_item extra @ [plain_item (EvEnd ''wsse:Username'')] @
       text_element ''wsse:Password'' [Attr ''Type'' ptype] [EvText pass] @
       text_element ''wsse:Nonce'' [] [EvText nonce] @
       text_element ''wsu:Created'' [] [EvText created] @
       [plain_item (EvEnd ''wsse:UsernameToken'')])
     (token_parser_start\<lparr>tp_ns_map := [(''wsse'', WSSE_NS), (''wsu'', WSU_NS)],
        in_username_token := True, found_token := True, tp_username := Some (from_utf8_lossy user)\<rparr>)"
  by (simp add: token_items_def token_simps)

lemma token_loop_tail:
  "tp_ns_map p = [(''wsse'', WSSE_NS), (''wsu'', WSU_NS)] \<Longrightarrow> in_username_token p \<Longrightarrow>
   \<not> in_username_elem p \<Longrightarrow> \<not> in_password_elem p \<Longrightarrow> \<not> in_nonce_elem p \<Longrightarrow> \<not> in_created_elem p \<Longrightarrow>
   token_loop ([plain_item (EvEnd ''wsse:Username'')] @
       text_element ''wsse:Password'' [Attr ''Type'' ptype] [EvText pass] @
       text_element ''wsse:Nonce'' [] [EvText nonce] @
       text_element ''wsu:Created'' [] [EvText created] @
       [plain_item (EvEnd ''wsse:UsernameToken'')]) p =
   Inr (p\<lparr>in_username_token := False,
          tp_password := Some (from_utf8_lossy pass),
          tp_password_type :=
            (if from_utf8_lossy ptype = PASSWORD_TEXT_TYPE then PlainText else Digest),
          tp_nonce := Some (from_utf8_lossy nonce), tp_created := Some (from_utf8_lossy created)\<rparr>)"
  by (cases p) (simp add: token_simps)

definition is_inert :: "event \<Rightarrow> bool" where
  "is_inert e \<longleftrightarrow> (case e of EvText _ \<Rightarrow> True | EvCData _ \<Rightarrow> True | EvGeneralRef _ \<Rightarrow> True | EvComment _ \<Rightarrow> True | _ \<Rightarrow> False)"

lemma token_loop_inert:
  "list_all is_inert es \<Longrightarrow>
   \<not> in_username_elem p \<Longrightarrow> \<not> in_password_elem p \<Longrightarrow> \<not> in_nonce_elem p \<Longrightarrow> \<not> in_created_elem p \<Longrightarrow>
   token_loop (map plain_item es @ r) p = token_loop r p"
proof (induction es)
  case Nil
  then show ?case by simp
next
  case (Cons e es)
  then show ?case by (cases e) (simp_all add: is_inert_def plain_item_def token_text_def Let_def)
qed

lemma parse_token_items:
  assumes "tok True xml = token_items ptype (EvText user # extra) pass nonce created"
    and "list_all is_inert extra"
  shows "parse_username_token tok xml =
    Inr \<lparr>ut_username = from_utf8_lossy user, ut_password = from_utf8_lossy pass,
         ut_password_type = (if from_utf8_lossy ptype = PASSWORD_TEXT_TYPE then PlainText else Digest),
         ut_nonce = Some (from_utf8_lossy nonce), ut_created = Some (from_utf8_lossy created)\<rparr>"
proof -
  define p where "p = token_parser_start\<lparr>tp_ns_map := [(''wsse'', WSSE_NS), (''wsu'', WSU_NS)],
    in_username_token := True, found_token := True, tp_username := Some (from_utf8_lossy user)\<rparr>"
  have flags: "tp_ns_map p = [(''wsse'', WSSE_NS), (''wsu'', WSU_NS)]" "in_username_token p"
    "\<not> in_username_elem p" "\<not> in_password_elem p" "\<not> in_nonce_elem p" "\<not> in_created_elem p"
    by (simp_all add: p_def token_parser_start_def)
  show ?thesis
    unfolding parse_username_token_def assms(1) token_loop_head p_def [symmetric]
      token_loop_inert [OF assms(2) flags(3-6)] token_loop_tail [OF flags]
    by (simp add: p_def)
qed

section \<open>Properties\<close>

text \<open>
  A library to run the model on: base64 drops its padding, SHA-1 is the identity, one
  timestamp is known, and four documents, which differ in the text of the user name and
  in the padding of the nonce.
\<close>

definition sample_token :: "event list \<Rightarrow> bytes \<Rightarrow> reader" where
  "sample_token user nonce = token_items PASSWORD_DIGEST_TYPE user ''abct0pw'' nonce ''t0''"

definition sample_lib :: wss_lib where
  "sample_lib =
     \<lparr>wl_tok = (\<lambda>_ xml.
        if xml = ''A'' then sample_token [EvText ''bob''] ''abc''
        else if xml = ''B'' then sample_token [EvText ''bob''] ''abc=''
        else if xml = ''C'' then sample_token [EvText ''bob'', EvGeneralRef ''amp'', EvText ''al''] ''abc''
        else []),
      wl_b64_decode = (\<lambda>s. Inr (filter (\<lambda>c. c \<noteq> CHR ''='') s)), wl_b64_encode = id, wl_sha1 = id,
      wl_rfc3339 = (\<lambda>s. if s = ''t0'' then Some 0 else None),
      wl_seconds = (\<lambda>s. Some (s * 1000000000))\<rparr>"

definition sample_passwords :: "string \<Rightarrow> string option" where
  "sample_passwords u = (if u = ''bob'' then Some ''pw'' else None)"

lemma sample_lib_seconds: "seconds_ok sample_lib"
  by (simp add: seconds_ok_def sample_lib_def)

lemma utf8_lossy_ascii: "is_ascii s \<Longrightarrow> from_utf8_lossy s = s"
  by (simp add: from_utf8_lossy_valid utf8_valid_ascii)

lemma sample_parse:
  "parse_username_token (wl_tok sample_lib) ''A'' =
     Inr \<lparr>ut_username = ''bob'', ut_password = ''abct0pw'', ut_password_type = Digest,
          ut_nonce = Some ''abc'', ut_created = Some ''t0''\<rparr>"
  "parse_username_token (wl_tok sample_lib) ''B'' =
     Inr \<lparr>ut_username = ''bob'', ut_password = ''abct0pw'', ut_password_type = Digest,
          ut_nonce = Some ''abc='', ut_created = Some ''t0''\<rparr>"
proof -
  have dig: "from_utf8_lossy PASSWORD_DIGEST_TYPE \<noteq> PASSWORD_TEXT_TYPE"
    by (simp add: from_utf8_lossy_valid)
  show "parse_username_token (wl_tok sample_lib) ''A'' =
     Inr \<lparr>ut_username = ''bob'', ut_password = ''abct0pw'', ut_password_type = Digest,
          ut_nonce = Some ''abc'', ut_created = Some ''t0''\<rparr>"
    using dig by (subst parse_token_items [where extra = "[]"])
      (auto simp: sample_lib_def sample_token_def utf8_lossy_ascii is_ascii_def byte_def)
  show "parse_username_token (wl_tok sample_lib) ''B'' =
     Inr \<lparr>ut_username = ''bob'', ut_password = ''abct0pw'', ut_password_type = Digest,
          ut_nonce = Some ''abc='', ut_created = Some ''t0''\<rparr>"
    using dig by (subst parse_token_items [where extra = "[]"])
      (auto simp: sample_lib_def sample_token_def utf8_lossy_ascii is_ascii_def byte_def)
qed

lemma sample_valid:
  "\<bar>now\<bar> \<le> 300000000000 \<Longrightarrow> token_valid sample_lib 300 now
     \<lparr>ut_username = ''bob'', ut_password = ''abct0pw'', ut_password_type = Digest,
      ut_nonce = Some ''abc'', ut_created = Some ''t0''\<rparr> ''pw''"
  "\<bar>now\<bar> \<le> 300000000000 \<Longrightarrow> token_valid sample_lib 300 now
     \<lparr>ut_username = ''bob'', ut_password = ''abct0pw'', ut_password_type = Digest,
      ut_nonce = Some ''abc='', ut_created = Some ''t0''\<rparr> ''pw''"
  by (simp_all add: token_valid_def fresh_def sample_lib_def add_base64_padding_def Let_def)

text \<open>
  C3. A UsernameToken is accepted exactly when it parses, names a known user, carries that
  user's credentials (for a digest, the digest of nonce, creation time and password), was
  created within the tolerance of the clock, and brings a nonce that the cache does not hold.
\<close>

theorem validate_accepts_iff:
  assumes "seconds_ok lib" and "tolerance_ok tol" and "0 < half_window_secs cache"
  shows "(\<exists>cache'. validate_username_token lib security get_password cache tol now inst = Some (Inr u, cache')) \<longleftrightarrow>
    (\<exists>token stored.
       parse_username_token (wl_tok lib) security = Inr token \<and> u = ut_username token \<and>
       get_password u = Some stored \<and> token_valid lib tol now token stored \<and>
       (\<forall>n. ut_nonce token = Some n \<longrightarrow> n \<notin> seen_nonces inst cache))" (is "?run \<longleftrightarrow> ?spec")
proof
  assume ?run
  then obtain cache' where "validate_username_token lib security get_password cache tol now inst = Some (Inr u, cache')" ..
  then obtain token where tok: "token_checked lib security get_password tol now = Inr token"
    and u: "u = ut_username token"
    and nonce: "case ut_nonce token of None \<Rightarrow> cache' = cache
         | Some n \<Rightarrow> check_and_insert inst n cache = Some (Inr (), cache')"
    by (rule validate_Ok_nonce)
  have "n \<notin> seen_nonces inst cache" if "ut_nonce token = Some n" for n
    using nonce that nonces.check_accepts [OF assms(3)] by auto
  with tok u show ?spec by (auto simp: token_checked_iff [OF assms(1,2)])
next
  assume ?spec
  then obtain token where "token_checked lib security get_password tol now = Inr token"
    and u: "u = ut_username token" and "\<forall>n. ut_nonce token = Some n \<longrightarrow> n \<notin> seen_nonces inst cache"
    by (auto simp: token_checked_iff [OF assms(1,2)])
  then show ?run
    using accepted_when_unseen [OF assms(3), of _ inst]
    by (cases "ut_nonce token") (force simp: validate_eq)+
qed

lemma validate_accepts_iff_witness:
  "\<exists>cache'. validate_username_token sample_lib ''A'' sample_passwords sample_cache 300 5 5 =
     Some (Inr ''bob'', cache')"
proof -
  have "''abc'' \<notin> seen_nonces 5 sample_cache"
    by (simp add: seen_nonces_def sample_cache_def with_max_entries_def rotate_closed_def Let_def)
  with sample_valid(1) [of 5] show ?thesis
    by (subst validate_accepts_iff [OF sample_lib_seconds])
      (simp_all add: tolerance_ok_def sample_parse sample_passwords_def sample_cache_def with_max_entries_def)
qed

text \<open>
  A failed authentication does not spend the nonce: unless the refusal is that of the
  replay check itself, the cache is as it was.
\<close>

theorem failed_validation_keeps_cache:
  assumes "validate_username_token lib security get_password cache tol now inst = Some (Inl f, cache')"
    and "f \<noteq> Fault replay_fault" and "0 < half_window_secs cache"
  shows "cache' = cache"
  using assms
  by (auto simp: validate_eq check_and_insert_eq insert_checked_def Let_def
      split: sum.splits option.splits if_splits)

lemma failed_validation_keeps_cache_witness:
  "\<exists>f. validate_username_token sample_lib ''A'' (\<lambda>_. None) sample_cache 300 5 5 =
     Some (Inl f, sample_cache)"
proof -
  have run: "validate_username_token sample_lib ''A'' (\<lambda>_. None) sample_cache 300 5 5 =
      Some (Inl (Fault auth_failed), sample_cache)"
    by (simp add: validate_eq token_checked_def sample_parse)
  have "auth_failed \<noteq> replay_fault" by (simp add: auth_failed_def replay_fault_def)
  with failed_validation_keeps_cache [OF run] run show ?thesis
    by (auto simp: sample_cache_def with_max_entries_def)
qed

text \<open>
  A user name that the tokeniser delivers in pieces, because it holds an entity
  reference, a CDATA section or a comment, is cut off after its first text piece: the token
  is read as if that piece were the whole name.
\<close>

theorem username_is_truncated:
  assumes "tok True xml = token_items ptype (EvText user # extra) pass nonce created"
    and "tok True xml' = token_items ptype [EvText user] pass nonce created"
    and "list_all is_inert extra"
  shows "parse_username_token tok xml = parse_username_token tok xml'"
  using assms parse_token_items [of tok xml ptype user extra pass nonce created]
    parse_token_items [of tok xml' ptype user "[]" pass nonce created]
  by simp

lemma username_is_truncated_witness:
  "parse_username_token (wl_tok sample_lib) ''C'' = parse_username_token (wl_tok sample_lib) ''A''"
  by (rule username_is_truncated [where user = "''bob''" and extra = "[EvGeneralRef ''amp'', EvText ''al'']"])
    (simp_all add: sample_lib_def sample_token_def is_inert_def)

text \<open>
  The replay check can be passed with the same credentials: padding the nonce changes
  the text that the cache compares but not the bytes that the digest is made of, so a
  token that was accepted once is accepted again with its nonce padded.
\<close>

theorem padded_nonce_is_replayed:
  assumes "seconds_ok lib" and "tolerance_ok tol" and "0 < half_window_secs cache"
    and "parse_username_token (wl_tok lib) security = Inr token"
    and "ut_password_type token = Digest" and "ut_nonce token = Some n"
    and "length n mod 4 \<noteq> 0"
    and "parse_username_token (wl_tok lib) security' = Inr (token\<lparr>ut_nonce := Some (add_base64_padding n)\<rparr>)"
    and "validate_username_token lib security get_password cache tol now inst = Some (Inr u, cache')"
    and "add_base64_padding n \<notin> seen_nonces inst cache'"
  shows "\<exists>cache''. validate_username_token lib security' get_password cache' tol now inst = Some (Inr u, cache'')"
proof -
  let ?token' = "token\<lparr>ut_nonce := Some (add_base64_padding n)\<rparr>"
  have len: "length (add_base64_padding n) mod 4 = 0"
  proof -
    have "length n mod 4 < 4" by simp
    then have "(length n + (4 - length n mod 4)) mod 4 = 0" by presburger
    then show ?thesis using assms(7) by (simp add: add_base64_padding_def Let_def)
  qed
  then have pad: "add_base64_padding (add_base64_padding n) = add_base64_padding n"
    by (simp add: add_base64_padding_def [of "add_base64_padding n"] Let_def)
  from assms(9) obtain token0 where "token_checked lib security get_password tol now = Inr token0"
    and u: "u = ut_username token0"
    and nonce: "case ut_nonce token0 of None \<Rightarrow> cache' = cache
         | Some n \<Rightarrow> check_and_insert inst n cache = Some (Inr (), cache')"
    by (rule validate_Ok_nonce)
  with assms(4) token_checked_parses have tok: "token_checked lib security get_password tol now = Inr token"
    by fastforce
  then obtain stored where stored: "get_password (ut_username token) = Some stored"
    and valid: "token_valid lib tol now token stored"
    by (auto simp: token_checked_iff [OF assms(1,2)])
  have u': "u = ut_username token" using u tok \<open>token_checked _ _ _ _ _ = Inr token0\<close> by simp
  have "token_valid lib tol now ?token' stored"
    using valid assms(5,6) by (simp add: token_valid_def pad)
  with stored assms(8) have "token_checked lib security' get_password tol now = Inr ?token'"
    by (auto simp: token_checked_iff [OF assms(1,2)])
  moreover have "check_and_insert inst n cache = Some (Inr (), cache')"
    using nonce tok \<open>token_checked _ _ _ _ _ = Inr token0\<close> assms(6) by simp
  then have "0 < half_window_secs cache'"
    using assms(3) by (auto simp: check_and_insert_eq dest: arg_cong [where f = "\<lambda>x. half_window_secs (snd x)"])
  then obtain cache'' where "check_and_insert inst (add_base64_padding n) cache' = Some (Inr (), cache'')"
    using accepted_when_unseen assms(10) by blast
  ultimately show ?thesis by (simp add: validate_eq u')
qed

lemma sample_first:
  "validate_username_token sample_lib ''A'' sample_passwords sample_cache 300 5 5 =
     Some (Inr ''bob'', sample_cache\<lparr>current := {''abc''}\<rparr>)"
proof -
  have "token_checked sample_lib ''A'' sample_passwords 300 5 =
      Inr \<lparr>ut_username = ''bob'', ut_password = ''abct0pw'', ut_password_type = Digest,
          ut_nonce = Some ''abc'', ut_created = Some ''t0''\<rparr>"
    using sample_valid(1) [of 5]
    by (subst token_checked_iff [OF sample_lib_seconds])
      (simp_all add: tolerance_ok_def sample_parse sample_passwords_def)
  then show ?thesis
    by (simp add: validate_eq sample_cache_def with_max_entries_def check_and_insert_eq
        rotate_closed_def rotations_due_def half_window_nanos_def nanos_per_sec_def insert_checked_def Let_def)
qed

lemma padded_nonce_is_replayed_witness:
  "\<exists>cache''. validate_username_token sample_lib ''B'' sample_passwords
     (sample_cache\<lparr>current := {''abc''}\<rparr>) 300 5 5 = Some (Inr ''bob'', cache'')"
  by (rule padded_nonce_is_replayed [OF sample_lib_seconds _ _ sample_parse(1) _ _ _ _ sample_first,
        where n = "''abc''"])
    (simp_all add: sample_parse(2) tolerance_ok_def sample_cache_def with_max_entries_def
      seen_nonces_def rotate_closed_def rotations_due_def add_base64_padding_def Let_def)

text \<open>
  Known user names can be told from unknown ones without a password: for a digest token
  without a nonce the refusal is the generic one exactly when the user is unknown.
\<close>

theorem user_names_are_disclosed:
  assumes "parse_username_token (wl_tok lib) security = Inr token"
    and "ut_password_type token = Digest" and "ut_nonce token = None"
  shows "\<exists>f. validate_username_token lib security get_password cache tol now inst = Some (Inl (Fault f), cache) \<and>
    (f = auth_failed \<longleftrightarrow> get_password (ut_username token) = None)"
  using assms
  by (cases "get_password (ut_username token)")
    (simp_all add: validate_eq token_checked_def verify_password_def auth_failed_def)

definition no_nonce_items :: reader where
  "no_nonce_items =
     plain_item (EvStart (Tag ''wsse:UsernameToken'' [Attr ''xmlns:wsse'' WSSE_NS, Attr ''xmlns:wsu'' WSU_NS])) #
     text_element ''wsse:Username'' [] [EvText ''bob''] @
     text_element ''wsse:Password'' [] [EvText ''x''] @ [plain_item (EvEnd ''wsse:UsernameToken'')]"

lemma user_names_are_disclosed_witness:
  "\<exists>f. validate_username_token (sample_lib\<lparr>wl_tok := \<lambda>_ _. no_nonce_items\<rparr>) ''A'' sample_passwords
     sample_cache 300 5 5 = Some (Inl (Fault f), sample_cache) \<and>
    (f = auth_failed \<longleftrightarrow> sample_passwords ''bob'' = None)"
proof -
  have "parse_username_token (wl_tok (sample_lib\<lparr>wl_tok := \<lambda>_ _. no_nonce_items\<rparr>)) ''A'' =
      Inr \<lparr>ut_username = ''bob'', ut_password = ''x'', ut_password_type = Digest,
          ut_nonce = None, ut_created = None\<rparr>"
    by (simp add: parse_username_token_def no_nonce_items_def token_simps password_type_of_def
        utf8_lossy_ascii is_ascii_def byte_def)
  from user_names_are_disclosed [OF this, of sample_passwords] show ?thesis by simp
qed

text \<open>
  A token that is still fresh can be replayed once its nonce is forgotten, which is two
  half windows after the start of the bucket it fell into, however late in that bucket it
  came: with the server's default settings a token may be accepted again 151 seconds later.
\<close>

theorem fresh_token_is_replayed:
  assumes "seconds_ok lib" and "tolerance_ok tol" and "0 < half_window_secs cache"
    and "parse_username_token (wl_tok lib) security = Inr token"
    and "get_password (ut_username token) = Some stored"
    and "token_valid lib tol now token stored" and "token_valid lib tol now' token stored"
    and "ut_nonce token = Some n" and "n \<notin> seen_nonces inst cache"
    and "inst < bucket_start cache + half_window_nanos cache" and "card (current cache) < max_entries cache"
    and "bucket_start cache + 2 * half_window_nanos cache \<le> inst'"
  shows "\<exists>cache' cache''.
    validate_username_token lib security get_password cache tol now inst = Some (Inr (ut_username token), cache') \<and>
    validate_username_token lib security get_password cache' tol now' inst' = Some (Inr (ut_username token), cache'')"
proof -
  have "rotations_due inst cache = 0"
    using assms(10) half_window_nanos_pos [OF assms(3)] by (auto simp: rotations_due_def)
  then have rot: "rotate_closed inst cache = cache" by (simp add: rotate_closed_def)
  let ?c = "cache\<lparr>current := insert n (current cache)\<rparr>"
  have check: "check_and_insert inst n cache = Some (Inr (), ?c)"
    using assms(9,11) by (simp add: check_and_insert_eq [OF assms(3)] rot insert_checked_def seen_nonces_def)
  have c: "0 < half_window_secs ?c" "bucket_start ?c + 2 * half_window_nanos ?c \<le> inst'"
    using assms(3,12) by simp_all
  obtain c'' where check': "check_and_insert inst' n ?c = Some (Inr (), c'')"
    using accepted_when_unseen [OF c(1), of n inst'] forgotten_after_two_windows [OF c] by blast
  have "token_checked lib security get_password tol now = Inr token"
    "token_checked lib security get_password tol now' = Inr token"
    using assms by (auto simp: token_checked_iff [OF assms(1,2)])
  with check check' assms(8) show ?thesis by (simp add: validate_eq)
qed

lemma fresh_token_is_replayed_witness:
  "\<exists>cache' cache''.
    validate_username_token sample_lib ''A'' sample_passwords sample_cache 300 149000000000 149000000000 =
      Some (Inr ''bob'', cache') \<and>
    validate_username_token sample_lib ''A'' sample_passwords cache' 300 300000000000 300000000000 =
      Some (Inr ''bob'', cache'')"
  using fresh_token_is_replayed [OF sample_lib_seconds, of 300 sample_cache "''A''" _ sample_passwords "''pw''"
      149000000000 300000000000 "''abc''" 149000000000 300000000000,
      OF _ _ sample_parse(1) _ sample_valid(1) sample_valid(1)]
  by (simp add: tolerance_ok_def sample_cache_def with_max_entries_def sample_passwords_def
      seen_nonces_def rotate_closed_def rotations_due_def half_window_nanos_def nanos_per_sec_def Let_def)

end
