(* ===== verification/XmlDoc.thy ===== *)
theory XmlDoc
  imports XmlModel
begin

text \<open>
  The abstract side of the event readers: an XML document as a tree, and the items a
  tokeniser yields for it. The theorems about the readers of envelopes and request bodies
  are stated on these trees.
\<close>

datatype xml =
    XElem resolved bytes "(bytes \<times> bytes) list" "xml list"
  | XEmpty resolved bytes "(bytes \<times> bytes) list"
  | XText bytes
  | XRef bytes
  | XCData bytes
  | XComment bytes
  | XPI bytes

definition tag_of :: "bytes \<Rightarrow> (bytes \<times> bytes) list \<Rightarrow> tag" where
  "tag_of n as = Tag n (map (\<lambda>(k, v). Attr k v) as)"

fun events :: "xml \<Rightarrow> reader" where
  "events (XElem res n as cs) =
     Inr (res, EvStart (tag_of n as)) # concat (map events cs) @ [Inr (res, EvEnd n)]"
| "events (XEmpty res n as) = [Inr (res, EvEmpty (tag_of n as))]"
| "events (XText t) = [Inr (Unbound, EvText t)]"
| "events (XRef r) = [Inr (Unbound, EvGeneralRef r)]"
| "events (XCData t) = [Inr (Unbound, EvCData t)]"
| "events (XComment t) = [Inr (Unbound, EvComment t)]"
| "events (XPI t) = [Inr (Unbound, EvPI t)]"

abbreviation all_events :: "xml list \<Rightarrow> reader" where
  "all_events xs \<equiv> concat (map events xs)"

fun is_elem :: "xml \<Rightarrow> bool" where
  "is_elem (XElem _ _ _ _) = True"
| "is_elem (XEmpty _ _ _) = True"
| "is_elem _ = False"

lemma attrs_tag_of [simp]:
  "tag_name (tag_of n as) = n"
  "attrs_ok (tag_attrs (tag_of n as)) = as"
  "attrs_strict e (tag_attrs (tag_of n as)) = Inr as"
proof -
  have ok: "attrs_ok (map (\<lambda>(k, v). Attr k v) as) = as" for as
    by (induction as) auto
  show "tag_name (tag_of n as) = n" by (simp add: tag_of_def)
  show "attrs_ok (tag_attrs (tag_of n as)) = as" by (simp add: tag_of_def ok)
  have "AttrErr \<notin> set (map (\<lambda>(k, v). Attr k v) as)" by auto
  then show "attrs_strict e (tag_attrs (tag_of n as)) = Inr as"
    by (simp add: tag_of_def attrs_strict_ok ok)
qed

fun root_attrs :: "xml \<Rightarrow> (bytes \<times> bytes) list" where
  "root_attrs (XElem res n as cs) = as"
| "root_attrs (XEmpty res n as) = as"
| "root_attrs _ = []"

text \<open>The events that may stand before the root element.\<close>

fun is_prolog :: "event \<Rightarrow> bool" where
  "is_prolog (EvStart _) = False"
| "is_prolog EvEof = False"
| "is_prolog _ = True"

end
