(* ===== verification/TokenDoc.thy ===== *)
theory TokenDoc
  imports UsernameToken XmlDoc
begin

text \<open>
  What \<open>parse_username_token\<close> of \<open>wssec/username_token.rs\<close> reads of a security header, stated on
  the tree of the header: the token may stand at any depth, its children in any order, with any
  prefixes and attributes. The parser keeps one map of prefixes for the whole header and never takes
  a declaration back, so the statement is about headers in which a prefix is declared with one
  URI only and is used where it is in scope.
\<close>

section \<open>Names in a header\<close>

type_synonym prefix_uri = "string \<Rightarrow> string option"

text \<open>The prefixes that the attributes of a tag declare.\<close>

definition declares :: "(bytes \<times> bytes) list \<Rightarrow> string set" where
  "declares as = {p. \<exists>v. (''xmlns:'' @ p, v) \<in> set as \<or> p = [] \<and> (''xmlns'', v) \<in> set as}"

definition expanded_name :: "prefix_uri \<Rightarrow> bytes \<Rightarrow> string option \<times> string" where
  "expanded_name uri n = (case split_once CHR '':'' n of Some (p, l) \<Rightarrow> (uri p, l) | None \<Rightarrow> (uri [], n))"

definition name_prefix :: "bytes \<Rightarrow> string" where
  "name_prefix n = (case split_once CHR '':'' n of Some (p, _) \<Rightarrow> p | None \<Rightarrow> [])"

text \<open>
  The tag is UTF-8, what it declares is what \<open>uri\<close> says, and its own prefix is declared here or
  above, or nowhere in the header.
\<close>

definition tag_scoped :: "prefix_uri \<Rightarrow> string set \<Rightarrow> bytes \<Rightarrow> (bytes \<times> bytes) list \<Rightarrow> bool" where
  "tag_scoped uri S n as \<longleftrightarrow>
     utf8_valid n \<and> (\<forall>(k, v) \<in> set as. utf8_valid k \<and> utf8_valid v) \<and>
     (\<forall>(k, v) \<in> set as. (\<forall>p. k = ''xmlns:'' @ p \<longrightarrow> uri p = Some v) \<and> (k = ''xmlns'' \<longrightarrow> uri [] = Some v)) \<and>
     (name_prefix n \<in> S \<union> declares as \<or> uri (name_prefix n) = None)"

fun scoped :: "prefix_uri \<Rightarrow> string set \<Rightarrow> xml \<Rightarrow> bool" where
  "scoped uri S (XElem res n as cs) \<longleftrightarrow> tag_scoped uri S n as \<and> list_all (scoped uri (S \<union> declares as)) cs"
| "scoped uri S (XEmpty res n as) \<longleftrightarrow> tag_scoped uri S n as"
| "scoped uri S _ \<longleftrightarrow> True"

section \<open>The fields of a token\<close>

definition token_name :: "string option \<times> string" where
  "token_name = (Some WSSE_NS, ''UsernameToken'')"

datatype token_field = UsernameField | PasswordField | NonceField | CreatedField

fun field_name :: "token_field \<Rightarrow> string option \<times> string" where
  "field_name UsernameField = (Some WSSE_NS, ''Username'')"
| "field_name PasswordField = (Some WSSE_NS, ''Password'')"
| "field_name NonceField = (Some WSSE_NS, ''Nonce'')"
| "field_name CreatedField = (Some WSU_NS, ''Created'')"

text \<open>The first text of an element, the texts of the children that are a field, in order.\<close>

fun first_text :: "xml list \<Rightarrow> string option" where
  "first_text [] = None"
| "first_text (XText t # cs) = Some (from_utf8_lossy t)"
| "first_text (_ # cs) = first_text cs"

definition field_values :: "prefix_uri \<Rightarrow> token_field \<Rightarrow> xml list \<Rightarrow> string list" where
  "field_values uri f kids =
     concat (map (\<lambda>k. case k of
         XElem res n as cs \<Rightarrow>
           if expanded_name uri n = field_name f then (case first_text cs of Some t \<Rightarrow> [t] | None \<Rightarrow> []) else []
       | _ \<Rightarrow> []) kids)"

definition type_values :: "prefix_uri \<Rightarrow> xml list \<Rightarrow> string list" where
  "type_values uri kids =
     concat (map (\<lambda>k. case k of
         XElem res n as cs \<Rightarrow>
           if expanded_name uri n = field_name PasswordField then map snd (filter (\<lambda>(k, _). k = ''Type'') as) else []
       | _ \<Rightarrow> []) kids)"

definition last_or :: "'a option \<Rightarrow> 'a list \<Rightarrow> 'a option" where
  "last_or d xs = (if xs = [] then d else Some (last xs))"

definition type_of_values :: "password_type \<Rightarrow> string list \<Rightarrow> password_type" where
  "type_of_values d vs =
     (if vs = [] then d else if last vs = PASSWORD_TEXT_TYPE then PlainText else Digest)"

text \<open>What is read of the children of a token.\<close>

definition token_of :: "prefix_uri \<Rightarrow> xml list \<Rightarrow> soap_fault + username_token" where
  "token_of uri kids =
     (case (last_or None (field_values uri UsernameField kids), last_or None (field_values uri PasswordField kids)) of
        (None, _) \<Rightarrow> Inl (sender ''Missing Username in UsernameToken'')
      | (Some _, None) \<Rightarrow> Inl (sender ''Missing Password in UsernameToken'')
      | (Some u, Some p) \<Rightarrow>
          Inr \<lparr>ut_username = u, ut_password = p,
               ut_password_type = type_of_values Digest (type_values uri kids),
               ut_nonce = last_or None (field_values uri NonceField kids),
               ut_created = last_or None (field_values uri CreatedField kids)\<rparr>)"

text \<open>A header that holds one token: the children of the token hold no elements.\<close>

fun no_token :: "prefix_uri \<Rightarrow> xml \<Rightarrow> bool" where
  "no_token uri (XElem res n as cs) \<longleftrightarrow> expanded_name uri n \<noteq> token_name \<and> list_all (no_token uri) cs"
| "no_token uri (XEmpty res n as) \<longleftrightarrow> expanded_name uri n \<noteq> token_name"
| "no_token uri _ \<longleftrightarrow> True"

fun token_child :: "prefix_uri \<Rightarrow> xml \<Rightarrow> bool" where
  "token_child uri (XElem res n as cs) \<longleftrightarrow>
     snd (expanded_name uri n) \<noteq> ''UsernameToken'' \<and> list_all (\<lambda>c. \<not> is_elem c) cs"
| "token_child uri (XEmpty res n as) \<longleftrightarrow> expanded_name uri n \<noteq> token_name"
| "token_child uri _ \<longleftrightarrow> True"

inductive one_token :: "prefix_uri \<Rightarrow> xml \<Rightarrow> xml list \<Rightarrow> bool" for uri where
  token_here: "expanded_name uri n = token_name \<Longrightarrow> list_all (token_child uri) kids \<Longrightarrow>
    one_token uri (XElem res n as kids) kids"
| token_inside: "expanded_name uri n \<noteq> token_name \<Longrightarrow> list_all (no_token uri) (before @ after) \<Longrightarrow>
    one_token uri x kids \<Longrightarrow> one_token uri (XElem res n as (before @ x # after)) kids"

section \<open>The map of prefixes\<close>

definition map_ok :: "prefix_uri \<Rightarrow> string set \<Rightarrow> ns_map \<Rightarrow> bool" where
  "map_ok uri S m \<longleftrightarrow> (\<forall>p u. hm_get m p = Some u \<longrightarrow> uri p = Some u) \<and> (\<forall>p \<in> S. hm_get m p \<noteq> None)"

lemma map_ok_mono: "map_ok uri S m \<Longrightarrow> T \<subseteq> S \<Longrightarrow> map_ok uri T m"
  unfolding map_ok_def by blast

lemma collect_ns_attr_ok:
  assumes "map_ok uri S m" and "utf8_valid k" and "utf8_valid v"
    and "\<forall>p. k = ''xmlns:'' @ p \<longrightarrow> uri p = Some v" and "k = ''xmlns'' \<longrightarrow> uri [] = Some v"
  shows "map_ok uri (S \<union> declares [(k, v)]) (collect_ns_attr (k, v) m)"
proof (cases "strip_prefix ''xmlns:'' k")
  case (Some p)
  then have k: "k = ''xmlns:'' @ p" by (simp add: strip_prefix_Some_iff)
  then have "declares [(k, v)] = {p}" by (auto simp: declares_def)
  moreover have "collect_ns_attr (k, v) m = hm_insert p v m"
    using Some assms(2,3) by (simp add: collect_ns_attr_def from_utf8_lossy_valid)
  ultimately show ?thesis using assms(1,4) k by (auto simp: map_ok_def)
next
  case None
  then have "\<nexists>p. k = ''xmlns:'' @ p" using strip_prefix_Some_iff [of "''xmlns:''" k] by auto
  then have "declares [(k, v)] = (if k = ''xmlns'' then {[]} else {})" by (auto simp: declares_def)
  moreover have "collect_ns_attr (k, v) m = (if k = ''xmlns'' then hm_insert [] v m else m)"
    using None assms(2,3) by (simp add: collect_ns_attr_def from_utf8_lossy_valid)
  ultimately show ?thesis using assms(1,5) by (auto simp: map_ok_def)
qed

lemma collect_ns_attrs_ok:
  assumes "map_ok uri S m" and "\<forall>(k, v) \<in> set as. utf8_valid k \<and> utf8_valid v"
    and "\<forall>(k, v) \<in> set as. (\<forall>p. k = ''xmlns:'' @ p \<longrightarrow> uri p = Some v) \<and> (k = ''xmlns'' \<longrightarrow> uri [] = Some v)"
  shows "map_ok uri (S \<union> declares as) (fold collect_ns_attr as m)"
  using assms
proof (induction as arbitrary: S m)
  case Nil
  then show ?case by (simp add: declares_def)
next
  case (Cons a as)
  obtain k v where a: "a = (k, v)" by force
  have "map_ok uri (S \<union> declares [(k, v)]) (collect_ns_attr (k, v) m)"
    using Cons.prems unfolding a by (intro collect_ns_attr_ok) auto
  with Cons.IH [of "S \<union> declares [(k, v)]" "collect_ns_attr (k, v) m"] Cons.prems
  have "map_ok uri (S \<union> declares [(k, v)] \<union> declares as) (fold collect_ns_attr as (collect_ns_attr (k, v) m))"
    unfolding a by simp
  moreover have "declares [(k, v)] \<union> declares as = declares (a # as)"
    by (auto simp: declares_def a)
  ultimately show ?case by (simp add: a Un_assoc)
qed

lemma resolved_name:
  assumes "tag_scoped uri S n as" and "map_ok uri (S \<union> declares as) m"
  shows "(case split_name n of (prefix, loc) \<Rightarrow> (resolve_ns prefix m, loc)) = expanded_name uri n"
    and "snd (split_name n) = snd (expanded_name uri n)"
proof -
  have found: "hm_get m p = uri p" if "p \<in> S \<union> declares as \<or> uri p = None" for p
    using that assms(2) unfolding map_ok_def by (metis option.exhaust)
  from assms(1) have "name_prefix n \<in> S \<union> declares as \<or> uri (name_prefix n) = None" "utf8_valid n"
    by (auto simp: tag_scoped_def)
  with found [of "name_prefix n"] show
    "(case split_name n of (prefix, loc) \<Rightarrow> (resolve_ns prefix m, loc)) = expanded_name uri n"
    and "snd (split_name n) = snd (expanded_name uri n)"
    by (auto simp: split_name_def expanded_name_def name_prefix_def resolve_ns_def split: option.splits)
qed

section \<open>The parser on a token\<close>

text \<open>A parser that waits for no text, and one that waits for the text of a field.\<close>

definition quiet :: "token_parser \<Rightarrow> bool" where
  "quiet p \<longleftrightarrow> \<not> in_username_elem p \<and> \<not> in_password_elem p \<and> \<not> in_nonce_elem p \<and> \<not> in_created_elem p"

fun armed :: "token_field \<Rightarrow> token_parser \<Rightarrow> token_parser" where
  "armed UsernameField p = p\<lparr>in_username_elem := True\<rparr>"
| "armed PasswordField p = p\<lparr>in_password_elem := True\<rparr>"
| "armed NonceField p = p\<lparr>in_nonce_elem := True\<rparr>"
| "armed CreatedField p = p\<lparr>in_created_elem := True\<rparr>"

fun store :: "token_field \<Rightarrow> string option \<Rightarrow> token_parser \<Rightarrow> token_parser" where
  "store UsernameField v p = p\<lparr>tp_username := v\<rparr>"
| "store PasswordField v p = p\<lparr>tp_password := v\<rparr>"
| "store NonceField v p = p\<lparr>tp_nonce := v\<rparr>"
| "store CreatedField v p = p\<lparr>tp_created := v\<rparr>"

fun stored :: "token_field \<Rightarrow> token_parser \<Rightarrow> string option" where
  "stored UsernameField p = tp_username p"
| "stored PasswordField p = tp_password p"
| "stored NonceField p = tp_nonce p"
| "stored CreatedField p = tp_created p"

lemma token_text_armed: "quiet p \<Longrightarrow> token_text t (armed f p) = store f (Some (from_utf8_lossy t)) p"
  by (cases f; cases p) (simp_all add: quiet_def token_text_def Let_def)

lemma token_text_quiet: "quiet p \<Longrightarrow> token_text t p = p"
  by (simp add: quiet_def token_text_def Let_def)

lemma quiet_store: "quiet p \<Longrightarrow> quiet (store f v p)"
  by (cases f) (simp_all add: quiet_def)

lemma token_end_field: "quiet p \<Longrightarrow> snd (split_name n) = snd (field_name f) \<Longrightarrow> token_end n (armed f p) = p"
  by (cases f; cases p) (simp_all add: quiet_def token_end_def Let_def)

lemma token_end_quiet: "quiet p \<Longrightarrow> snd (split_name n) \<noteq> ''UsernameToken'' \<Longrightarrow> token_end n p = p"
  by (cases p) (auto simp: quiet_def token_end_def Let_def)

text \<open>Content without elements: its first text is taken, the rest is passed over.\<close>

lemma content_quiet:
  "list_all (\<lambda>c. \<not> is_elem c) cs \<Longrightarrow> quiet p \<Longrightarrow> token_loop (all_events cs @ r) p = token_loop r p"
proof (induction cs)
  case (Cons c cs)
  then show ?case by (cases c) (simp_all add: token_text_quiet)
qed simp

lemma content_armed:
  "list_all (\<lambda>c. \<not> is_elem c) cs \<Longrightarrow> quiet p \<Longrightarrow>
   token_loop (all_events cs @ r) (armed f p) =
     token_loop r (case first_text cs of None \<Rightarrow> armed f p | Some t \<Rightarrow> store f (Some t) p)"
proof (induction cs)
  case (Cons c cs)
  then show ?case by (cases c) (simp_all add: token_text_armed content_quiet quiet_store)
qed simp

definition with_map :: "ns_map \<Rightarrow> token_parser \<Rightarrow> token_parser" where
  "with_map m p = p\<lparr>tp_ns_map := m\<rparr>"

lemma token_start_scoped:
  assumes "tag_scoped uri S n as" and "map_ok uri S (tp_ns_map p)"
  obtains m where "map_ok uri (S \<union> declares as) m" and "m = fold collect_ns_attr as (tp_ns_map p)"
    and "(case split_name n of (prefix, loc) \<Rightarrow> (resolve_ns prefix m, loc)) = expanded_name uri n"
    and "snd (split_name n) = snd (expanded_name uri n)"
proof -
  have "map_ok uri (S \<union> declares as) (fold collect_ns_attr as (tp_ns_map p))"
    using assms by (intro collect_ns_attrs_ok) (auto simp: tag_scoped_def)
  with resolved_name [OF assms(1) this] that show thesis by blast
qed

text \<open>An element outside every token only adds to the map of prefixes.\<close>

lemma token_start_outside:
  assumes "(case split_name n of (prefix, loc) \<Rightarrow> (resolve_ns prefix m, loc)) = q" and "q \<noteq> token_name"
    and "m = fold collect_ns_attr as (tp_ns_map p)" and "\<not> in_username_token p"
  shows "token_start (tag_of n as) p = with_map m p" and "token_empty (tag_of n as) p = with_map m p"
  using assms
  by (auto simp: token_start_def token_empty_def collect_ns_attrs_def with_map_def token_name_def Let_def
      split: prod.splits)

lemma token_end_outside: "quiet p \<Longrightarrow> \<not> in_username_token p \<Longrightarrow> token_end n p = p"
  by (cases p) (auto simp: quiet_def token_end_def Let_def)

lemma with_map_sel [simp]:
  "quiet (with_map m p) = quiet p" "in_username_token (with_map m p) = in_username_token p"
  "tp_ns_map (with_map m p) = m" "with_map m' (with_map m p) = with_map m' p"
  "stored f (with_map m p) = stored f p" "tp_password_type (with_map m p) = tp_password_type p"
  "found_token (with_map m p) = found_token p"
  by (cases f; simp add: with_map_def quiet_def)+

lemma with_map_self: "with_map (tp_ns_map p) p = p"
  by (simp add: with_map_def)

lemma elements_outside:
  assumes "\<And>x p r. x \<in> set xs \<Longrightarrow> quiet p \<Longrightarrow> \<not> in_username_token p \<Longrightarrow> map_ok uri S (tp_ns_map p) \<Longrightarrow>
      \<exists>m. map_ok uri S m \<and> token_loop (events x @ r) p = token_loop r (with_map m p)"
    and "quiet p" and "\<not> in_username_token p" and "map_ok uri S (tp_ns_map p)"
  shows "\<exists>m. map_ok uri S m \<and> token_loop (all_events xs @ r) p = token_loop r (with_map m p)"
  using assms
proof (induction xs arbitrary: p)
  case Nil
  then show ?case by (metis append_Nil concat.simps(1) list.map(1) with_map_self)
next
  case (Cons x xs)
  from Cons.prems(1) [of x p "all_events xs @ r"] Cons.prems(2-) obtain m where m: "map_ok uri S m"
    "token_loop (events x @ all_events xs @ r) p = token_loop (all_events xs @ r) (with_map m p)" by auto
  with Cons.IH [of "with_map m p"] Cons.prems obtain m' where "map_ok uri S m'"
    "token_loop (all_events xs @ r) (with_map m p) = token_loop r (with_map m' p)" by auto
  with m show ?case by auto
qed

lemma element_outside:
  "scoped uri S x \<Longrightarrow> no_token uri x \<Longrightarrow> quiet p \<Longrightarrow> \<not> in_username_token p \<Longrightarrow> map_ok uri S (tp_ns_map p) \<Longrightarrow>
   \<exists>m. map_ok uri S m \<and> token_loop (events x @ r) p = token_loop r (with_map m p)"
proof (induction x arbitrary: S p r)
  case (XElem res n as cs)
  let ?S = "S \<union> declares as"
  from XElem.prems obtain m where m: "map_ok uri ?S m" "m = fold collect_ns_attr as (tp_ns_map p)"
    "(case split_name n of (prefix, loc) \<Rightarrow> (resolve_ns prefix m, loc)) = expanded_name uri n"
    by (auto elim: token_start_scoped)
  have start: "token_start (tag_of n as) p = with_map m p"
    using token_start_outside [OF m(3) _ m(2)] XElem.prems by simp
  have "\<exists>m'. map_ok uri ?S m' \<and> token_loop (all_events cs @ Inr (res, EvEnd n) # r) (with_map m p) =
      token_loop (Inr (res, EvEnd n) # r) (with_map m' (with_map m p))"
  proof (rule elements_outside)
    fix x p r
    assume "x \<in> set cs" "quiet p" "\<not> in_username_token p" "map_ok uri ?S (tp_ns_map p)"
    with XElem show "\<exists>m. map_ok uri ?S m \<and> token_loop (events x @ r) p = token_loop r (with_map m p)"
      by (auto simp: list_all_iff)
  qed (use XElem.prems m in simp_all)
  then obtain m' where m': "map_ok uri ?S m'" "token_loop (all_events cs @ Inr (res, EvEnd n) # r) (with_map m p) =
      token_loop (Inr (res, EvEnd n) # r) (with_map m' p)" by auto
  have "token_end n (with_map m' p) = with_map m' p" using XElem.prems by (simp add: token_end_outside)
  with m' start have "token_loop (events (XElem res n as cs) @ r) p = token_loop r (with_map m' p)" by simp
  with m'(1) show ?case by (blast intro: map_ok_mono)
next
  case (XEmpty res n as)
  then obtain m where m: "map_ok uri (S \<union> declares as) m" "m = fold collect_ns_attr as (tp_ns_map p)"
    "(case split_name n of (prefix, loc) \<Rightarrow> (resolve_ns prefix m, loc)) = expanded_name uri n"
    by (auto elim: token_start_scoped)
  then have "token_empty (tag_of n as) p = with_map m p"
    using token_start_outside [OF m(3) _ m(2)] XEmpty.prems by simp
  then show ?case using m(1) by (auto intro: map_ok_mono)
qed (use with_map_self token_text_quiet in \<open>force+\<close>)

section \<open>The children of the token\<close>

text \<open>What the parser has taken from some children of the token when it is quiet again.\<close>

definition absorbs :: "prefix_uri \<Rightarrow> xml list \<Rightarrow> token_parser \<Rightarrow> token_parser \<Rightarrow> bool" where
  "absorbs uri kids p p' \<longleftrightarrow>
     quiet p' \<and> in_username_token p' = in_username_token p \<and> found_token p' = found_token p \<and>
     (\<forall>f. stored f p' = last_or (stored f p) (field_values uri f kids)) \<and>
     tp_password_type p' = type_of_values (tp_password_type p) (type_values uri kids)"

lemma absorbs_append: "absorbs uri ks p p1 \<Longrightarrow> absorbs uri ks' p1 p2 \<Longrightarrow> absorbs uri (ks @ ks') p p2"
  by (auto simp: absorbs_def field_values_def type_values_def last_or_def type_of_values_def)

lemma absorbs_nothing:
  "quiet p \<Longrightarrow> (\<And>f. field_values uri f kids = []) \<Longrightarrow> type_values uri kids = [] \<Longrightarrow> absorbs uri kids p (with_map m p)"
  by (simp add: absorbs_def last_or_def type_of_values_def)

lemma password_type_of_values:
  "\<forall>(k, v) \<in> set as. utf8_valid k \<and> utf8_valid v \<Longrightarrow>
   password_type_of (tag_attrs (tag_of n as)) t = type_of_values t (map snd (filter (\<lambda>(k, _). k = ''Type'') as))"
proof (induction as arbitrary: t)
  case (Cons a as)
  then show ?case
    by (cases a) (auto simp: password_type_of_def type_of_values_def from_utf8_lossy_valid Let_def)
qed (simp add: password_type_of_def type_of_values_def)

text \<open>The start of a child of the token.\<close>

lemma token_start_inside:
  assumes "(case split_name n of (prefix, loc) \<Rightarrow> (resolve_ns prefix m, loc)) = q" and "q \<noteq> token_name"
    and "m = fold collect_ns_attr as (tp_ns_map p)" and "in_username_token p"
  shows "q = field_name f \<Longrightarrow> token_start (tag_of n as) p = armed f
      (if f = PasswordField then (with_map m p)\<lparr>tp_password_type :=
         password_type_of (tag_attrs (tag_of n as)) (tp_password_type p)\<rparr> else with_map m p)"
    and "\<forall>f. q \<noteq> field_name f \<Longrightarrow> token_start (tag_of n as) p = with_map m p"
proof -
  obtain prefix loc where n: "split_name n = (prefix, loc)" by force
  then have q: "q = (resolve_ns prefix m, loc)" using assms(1) by simp
  show "q = field_name f \<Longrightarrow> token_start (tag_of n as) p = armed f
      (if f = PasswordField then (with_map m p)\<lparr>tp_password_type :=
         password_type_of (tag_attrs (tag_of n as)) (tp_password_type p)\<rparr> else with_map m p)"
    using assms(3,4) n q
    by (cases f) (simp_all add: token_start_def collect_ns_attrs_def with_map_def Let_def)
  assume other: "\<forall>f. q \<noteq> field_name f"
  have no: "(loc = ''UsernameToken'' \<and> resolve_ns prefix m = Some WSSE_NS) = False"
    "(loc = ''Username'' \<and> resolve_ns prefix m = Some WSSE_NS \<and> c) = False"
    "(loc = ''Password'' \<and> resolve_ns prefix m = Some WSSE_NS \<and> c) = False"
    "(loc = ''Nonce'' \<and> resolve_ns prefix m = Some WSSE_NS \<and> c) = False"
    "(loc = ''Created'' \<and> resolve_ns prefix m = Some WSU_NS \<and> c) = False" for c
    using assms(2) other [rule_format, of UsernameField] other [rule_format, of PasswordField]
      other [rule_format, of NonceField] other [rule_format, of CreatedField]
    by (auto simp: q token_name_def)
  have map: "p\<lparr>tp_ns_map := collect_ns_attrs (tag_attrs (tag_of n as)) (tp_ns_map p)\<rparr> = with_map m p"
    by (simp add: collect_ns_attrs_def with_map_def assms(3))
  show "token_start (tag_of n as) p = with_map m p"
    by (simp only: token_start_def map attrs_tag_of n Let_def prod.case with_map_sel no if_False)
qed

lemma field_name_inject: "field_name f = field_name g \<longleftrightarrow> f = g"
  by (cases f; cases g) simp_all

lemma stored_store: "stored f (store g v p) = (if f = g then v else stored f p)"
  by (cases f; cases g) simp_all

lemma store_sel [simp]:
  "in_username_token (store f v p) = in_username_token p" "found_token (store f v p) = found_token p"
  "tp_password_type (store f v p) = tp_password_type p" "tp_ns_map (store f v p) = tp_ns_map p"
  by (cases f; simp)+

lemma set_type_sel [simp]:
  "quiet (p\<lparr>tp_password_type := t\<rparr>) = quiet p" "stored f (p\<lparr>tp_password_type := t\<rparr>) = stored f p"
  by (cases f; simp add: quiet_def)+

lemma child_absorbed:
  assumes "scoped uri S k" and "token_child uri k" and "quiet p" and "in_username_token p"
    and "map_ok uri S (tp_ns_map p)"
  shows "\<exists>p'. token_loop (events k @ r) p = token_loop r p' \<and> absorbs uri [k] p p' \<and> map_ok uri S (tp_ns_map p')"
proof (cases "is_elem k")
  case False
  then have "token_loop (events k @ r) p = token_loop r (with_map (tp_ns_map p) p)"
    using content_quiet [of "[k]" p r] assms(3) by (simp add: with_map_self)
  moreover have "field_values uri f [k] = []" "type_values uri [k] = []" for f
    using False by (cases k; simp add: field_values_def type_values_def)+
  ultimately show ?thesis using absorbs_nothing [OF assms(3)] assms(5) by (metis with_map_sel(3))
next
  case True
  then consider (empty) res n as where "k = XEmpty res n as" | (element) res n as cs where "k = XElem res n as cs"
    by (cases k) auto
  then show ?thesis
  proof cases
    case empty
    from assms(1,5) obtain m where m: "map_ok uri (S \<union> declares as) m" "m = fold collect_ns_attr as (tp_ns_map p)"
      "(case split_name n of (prefix, loc) \<Rightarrow> (resolve_ns prefix m, loc)) = expanded_name uri n"
      by (auto simp: empty elim: token_start_scoped)
    have "token_empty (tag_of n as) p = with_map m p"
      using m(2,3) assms(2)
      by (auto simp: empty token_empty_def collect_ns_attrs_def with_map_def token_name_def Let_def split: prod.splits)
    moreover have "absorbs uri [k] p (with_map m p)"
      using assms(3) by (intro absorbs_nothing) (simp_all add: empty field_values_def type_values_def)
    ultimately show ?thesis using m(1) by (auto simp: empty intro!: exI [of _ "with_map m p"] intro: map_ok_mono)
  next
    case element
    let ?q = "expanded_name uri n"
    from assms(1,5) obtain m where m: "map_ok uri (S \<union> declares as) m" "m = fold collect_ns_attr as (tp_ns_map p)"
      "(case split_name n of (prefix, loc) \<Rightarrow> (resolve_ns prefix m, loc)) = ?q" "snd (split_name n) = snd ?q"
      by (auto simp: element elim: token_start_scoped)
    have mS: "map_ok uri S m" using m(1) by (rule map_ok_mono) simp
    from assms(2) have plain: "list_all (\<lambda>c. \<not> is_elem c) cs" and name: "snd ?q \<noteq> ''UsernameToken''"
      by (simp_all add: element)
    then have q: "?q \<noteq> token_name" by (auto simp: token_name_def)
    show ?thesis
    proof (cases "\<exists>f. ?q = field_name f")
      case True
      then obtain f where f: "?q = field_name f" ..
      define p1 where "p1 = (if f = PasswordField then (with_map m p)\<lparr>tp_password_type :=
         password_type_of (tag_attrs (tag_of n as)) (tp_password_type p)\<rparr> else with_map m p)"
      have p1: "quiet p1" "in_username_token p1" "found_token p1 = found_token p" "tp_ns_map p1 = m"
        "stored g p1 = stored g p" for g
        using assms(3,4) by (simp_all add: p1_def)
      let ?p' = "case first_text cs of None \<Rightarrow> p1 | Some t \<Rightarrow> store f (Some t) p1"
      have quiet': "quiet ?p'" using p1(1) quiet_store by (simp split: option.split)
      have "token_loop (events k @ r) p = token_loop (all_events cs @ Inr (res, EvEnd n) # r) (armed f p1)"
        using token_start_inside(1) [OF m(3) q m(2) assms(4) f] by (simp add: element p1_def)
      also have "\<dots> = token_loop (Inr (res, EvEnd n) # r)
          (case first_text cs of None \<Rightarrow> armed f p1 | Some t \<Rightarrow> store f (Some t) p1)"
        by (rule content_armed [OF plain p1(1)])
      also have "\<dots> = token_loop r ?p'"
        using token_end_field [OF p1(1), of n f] token_end_quiet [OF quiet_store [OF p1(1)], of n f] m(4) f name
        by (simp split: option.split)
      finally have run: "token_loop (events k @ r) p = token_loop r ?p'" .
      have vals: "field_values uri g [k] = (if g = f then (case first_text cs of Some t \<Rightarrow> [t] | None \<Rightarrow> []) else [])"
        for g using f by (simp add: field_values_def element field_name_inject)
      have types: "type_values uri [k] =
          (if f = PasswordField then map snd (filter (\<lambda>(k, _). k = ''Type'') as) else [])"
        using f field_name_inject [of f PasswordField] by (simp add: type_values_def element)
      have utf8: "\<forall>(k, v) \<in> set as. utf8_valid k \<and> utf8_valid v"
        using assms(1) by (auto simp: element tag_scoped_def)
      have "tp_password_type ?p' = type_of_values (tp_password_type p) (type_values uri [k])"
        using password_type_of_values [OF utf8] unfolding types
        by (simp add: p1_def type_of_values_def split: option.split)
      moreover have "stored g ?p' = last_or (stored g p) (field_values uri g [k])" for g
        using p1(5) by (simp add: vals last_or_def stored_store split: option.split)
      moreover have "in_username_token ?p'" "found_token ?p' = found_token p" "tp_ns_map ?p' = m"
        using p1 by (simp_all split: option.split)
      ultimately have "absorbs uri [k] p ?p'" "map_ok uri S (tp_ns_map ?p')"
        using quiet' assms(4) mS by (simp_all add: absorbs_def)
      with run show ?thesis by blast
    next
      case False
      then have start: "token_start (tag_of n as) p = with_map m p"
        using token_start_inside(2) [OF m(3) q m(2) assms(4)] by blast
      have "token_loop (events k @ r) p = token_loop (Inr (res, EvEnd n) # r) (with_map m p)"
        using content_quiet [OF plain, of "with_map m p"] assms(3) start by (simp add: element)
      also have "\<dots> = token_loop r (with_map m p)"
        using token_end_quiet [of "with_map m p" n] assms(3) m(4) name by simp
      finally have run: "token_loop (events k @ r) p = token_loop r (with_map m p)" .
      have "absorbs uri [k] p (with_map m p)"
        using False assms(3) unfolding not_ex
        by (intro absorbs_nothing) (simp_all only: element field_values_def type_values_def list.map concat.simps
            xml.case if_False append_Nil)
      with run mS show ?thesis by (metis with_map_sel(3))
    qed
  qed
qed

lemma children_absorbed:
  "list_all (scoped uri S) kids \<Longrightarrow> list_all (token_child uri) kids \<Longrightarrow> quiet p \<Longrightarrow> in_username_token p \<Longrightarrow>
   map_ok uri S (tp_ns_map p) \<Longrightarrow>
   \<exists>p'. token_loop (all_events kids @ r) p = token_loop r p' \<and> absorbs uri kids p p' \<and> map_ok uri S (tp_ns_map p')"
proof (induction kids arbitrary: p)
  case Nil
  then show ?case using absorbs_nothing [of p uri "[]"]
    by (intro exI [of _ p]) (simp add: absorbs_def field_values_def type_values_def last_or_def type_of_values_def)
next
  case (Cons k kids)
  from child_absorbed [of uri S k p "all_events kids @ r"] Cons.prems obtain p1 where
    p1: "token_loop (events k @ all_events kids @ r) p = token_loop (all_events kids @ r) p1"
    "absorbs uri [k] p p1" "map_ok uri S (tp_ns_map p1)" by auto
  with Cons.IH [of p1] Cons.prems obtain p' where "token_loop (all_events kids @ r) p1 = token_loop r p'"
    "absorbs uri kids p1 p'" "map_ok uri S (tp_ns_map p')" by (auto simp: absorbs_def)
  with p1 absorbs_append [OF p1(2)] show ?case by (intro exI [of _ p']) auto
qed

section \<open>The whole header\<close>

definition token_taken :: "prefix_uri \<Rightarrow> xml list \<Rightarrow> token_parser \<Rightarrow> token_parser \<Rightarrow> bool" where
  "token_taken uri kids p p' \<longleftrightarrow>
     quiet p' \<and> \<not> in_username_token p' \<and> found_token p' \<and>
     (\<forall>f. stored f p' = last_or (stored f p) (field_values uri f kids)) \<and>
     tp_password_type p' = type_of_values (tp_password_type p) (type_values uri kids)"

lemma taken_with_map:
  "token_taken uri kids (with_map m p) p' \<Longrightarrow> token_taken uri kids p p'"
  "token_taken uri kids p p' \<Longrightarrow> token_taken uri kids p (with_map m p')"
  by (simp_all add: token_taken_def)

lemma one_token_taken:
  "one_token uri x kids \<Longrightarrow> scoped uri S x \<Longrightarrow> quiet p \<Longrightarrow> \<not> in_username_token p \<Longrightarrow> map_ok uri S (tp_ns_map p) \<Longrightarrow>
   \<exists>p'. token_loop (events x @ r) p = token_loop r p' \<and> token_taken uri kids p p' \<and> map_ok uri S (tp_ns_map p')"
proof (induction arbitrary: S p r rule: one_token.induct)
  case (token_here n kids res as)
  let ?S = "S \<union> declares as"
  from token_here.prems obtain m where m: "map_ok uri ?S m" "m = fold collect_ns_attr as (tp_ns_map p)"
    "(case split_name n of (prefix, loc) \<Rightarrow> (resolve_ns prefix m, loc)) = expanded_name uri n"
    "snd (split_name n) = snd (expanded_name uri n)"
    by (auto elim: token_start_scoped)
  define p1 where "p1 = (with_map m p)\<lparr>in_username_token := True, found_token := True\<rparr>"
  have p1: "quiet p1" "in_username_token p1" "found_token p1" "tp_ns_map p1 = m" "stored f p1 = stored f p"
    "tp_password_type p1 = tp_password_type p" for f
    using token_here.prems(2) by (cases f; simp add: p1_def quiet_def with_map_def)+
  have start: "token_start (tag_of n as) p = p1"
  proof -
    obtain prefix loc where n: "split_name n = (prefix, loc)" by force
    then have q: "loc = ''UsernameToken''" "resolve_ns prefix m = Some WSSE_NS"
      using m(3) token_here.hyps(1) by (simp_all add: token_name_def)
    have map: "p\<lparr>tp_ns_map := collect_ns_attrs (tag_attrs (tag_of n as)) (tp_ns_map p)\<rparr> = with_map m p"
      by (simp add: collect_ns_attrs_def with_map_def m(2))
    show ?thesis
      by (simp only: token_start_def map attrs_tag_of n Let_def prod.case with_map_sel q simp_thms if_True p1_def)
  qed
  from children_absorbed [of uri ?S kids p1 "Inr (res, EvEnd n) # r"] p1 m(1) token_here.hyps(2) token_here.prems(1)
  obtain p2 where p2: "token_loop (all_events kids @ Inr (res, EvEnd n) # r) p1 = token_loop (Inr (res, EvEnd n) # r) p2"
    "absorbs uri kids p1 p2" "map_ok uri ?S (tp_ns_map p2)" by auto
  have stop: "token_end n p2 = p2\<lparr>in_username_token := False\<rparr>"
    using m(4) token_here.hyps(1) by (simp add: token_end_def token_name_def)
  have "stored f (p2\<lparr>in_username_token := False\<rparr>) = stored f p2" for f by (cases f) simp_all
  then have "token_taken uri kids p (p2\<lparr>in_username_token := False\<rparr>)"
    using p2(2) p1 by (simp add: token_taken_def absorbs_def quiet_def)
  moreover have "token_loop (events (XElem res n as kids) @ r) p = token_loop r (p2\<lparr>in_username_token := False\<rparr>)"
    using p2(1) start stop by simp
  moreover have "map_ok uri S (tp_ns_map (p2\<lparr>in_username_token := False\<rparr>))"
    using p2(3) by (auto intro: map_ok_mono)
  ultimately show ?case by blast
next
  case (token_inside n before after x kids res as)
  let ?S = "S \<union> declares as" and ?close = "Inr (res, EvEnd n)"
  from token_inside.prems(1) have sc: "list_all (scoped uri ?S) (before @ after)" "scoped uri ?S x" by simp_all
  have out: "\<exists>m. map_ok uri ?S m \<and> token_loop (all_events ys @ r) q = token_loop r (with_map m q)"
    if "set ys \<subseteq> set (before @ after)" "quiet q" "\<not> in_username_token q" "map_ok uri ?S (tp_ns_map q)" for ys q r
  proof (rule elements_outside [OF _ that(2-4)])
    fix y p r
    assume "y \<in> set ys" "quiet p" "\<not> in_username_token p" "map_ok uri ?S (tp_ns_map p)"
    moreover from \<open>y \<in> set ys\<close> have "scoped uri ?S y" "no_token uri y"
      using that(1) sc(1) token_inside.hyps(2) by (auto simp: list_all_iff)
    ultimately show "\<exists>m. map_ok uri ?S m \<and> token_loop (events y @ r) p = token_loop r (with_map m p)"
      using element_outside by blast
  qed
  from token_inside.prems obtain m where m: "map_ok uri ?S m" "m = fold collect_ns_attr as (tp_ns_map p)"
    "(case split_name n of (prefix, loc) \<Rightarrow> (resolve_ns prefix m, loc)) = expanded_name uri n"
    by (auto elim: token_start_scoped)
  have start: "token_start (tag_of n as) p = with_map m p"
    using token_start_outside [OF m(3) token_inside.hyps(1) m(2)] token_inside.prems by simp
  from out [of before "with_map m p" "events x @ all_events after @ ?close # r"] token_inside.prems m(1)
  obtain m1 where m1: "map_ok uri ?S m1"
    "token_loop (all_events before @ events x @ all_events after @ ?close # r) (with_map m p) =
     token_loop (events x @ all_events after @ ?close # r) (with_map m1 p)" by auto
  from token_inside.IH [OF sc(2), of "with_map m1 p" "all_events after @ ?close # r"] token_inside.prems m1(1)
  obtain p2 where p2: "token_loop (events x @ all_events after @ ?close # r) (with_map m1 p) =
      token_loop (all_events after @ ?close # r) p2" "token_taken uri kids p p2" "map_ok uri ?S (tp_ns_map p2)"
    using taken_with_map(1) by force
  then have q2: "quiet p2" "\<not> in_username_token p2" by (simp_all add: token_taken_def)
  from out [of after p2 "?close # r"] q2 p2(3) obtain m3 where m3: "map_ok uri ?S m3"
    "token_loop (all_events after @ ?close # r) p2 = token_loop (?close # r) (with_map m3 p2)" by auto
  have "token_loop (?close # r) (with_map m3 p2) = token_loop r (with_map m3 p2)"
    using token_end_outside [of "with_map m3 p2" n] q2 by simp
  then have "token_loop (events (XElem res n as (before @ x # after)) @ r) p = token_loop r (with_map m3 p2)"
    using start m1(2) p2(1) m3(2) by simp
  moreover have "map_ok uri S (tp_ns_map (with_map m3 p2))" using m3(1) by (auto intro: map_ok_mono)
  ultimately show ?case using taken_with_map(2) [OF p2(2)] by blast
qed

section \<open>Properties\<close>

text \<open>
  C38. The token parser reads what the token says. Take a security header that holds one
  UsernameToken, at any depth, in which every prefix stands for one URI and is used in scope, and
  the token's children hold no elements. Whatever the prefixes, attributes and order of the
  children, the parser takes user name, password, nonce and creation time from the first text
  of the (last) child of that name and namespace, and the kind of password from its Type
  attribute, a digest unless it says text; without a user name or a password it is refused for
  that.
\<close>

theorem username_token_is_read:
  assumes "tok True xml = events x" and "one_token uri x kids" and "scoped uri {} x"
  shows "parse_username_token tok xml = token_of uri kids"
proof -
  have start: "quiet token_parser_start" "\<not> in_username_token token_parser_start"
    "map_ok uri {} (tp_ns_map token_parser_start)"
    by (simp_all add: quiet_def token_parser_start_def map_ok_def)
  from one_token_taken [OF assms(2,3) start, of "[]"] obtain p where
    run: "token_loop (tok True xml) token_parser_start = Inr p" and p: "token_taken uri kids token_parser_start p"
    by (auto simp: assms(1))
  have fields: "stored f p = last_or None (field_values uri f kids)" for f
    using p by (cases f) (auto simp: token_taken_def token_parser_start_def)
  have "tp_password_type p = type_of_values Digest (type_values uri kids)" "found_token p"
    using p by (simp_all add: token_taken_def token_parser_start_def)
  then show ?thesis
    using fields [of UsernameField] fields [of PasswordField] fields [of NonceField] fields [of CreatedField]
    by (simp add: parse_username_token_def run token_of_def ok_or_def split: option.split)
qed

text \<open>
  A header as another stack writes it: a wrapper that declares one namespace as the default,
  another element before the token, the children in another order, one with its own prefix.
\<close>

definition wild_uri :: prefix_uri where
  "wild_uri = [[] \<mapsto> WSSE_NS, ''u'' \<mapsto> WSU_NS]"

definition wild_children :: "xml list" where
  "wild_children =
     [XElem Unbound ''u:Created'' [(''xmlns:u'', WSU_NS)] [XText ''t0''],
      XElem Unbound ''Password'' [(''Id'', ''p''), (''Type'', PASSWORD_TEXT_TYPE)] [XText ''pw''],
      XComment ''who'', XElem Unbound ''Username'' [] [XText ''bob'']]"

definition wild_header :: xml where
  "wild_header =
     XElem Unbound ''Security'' [(''xmlns'', WSSE_NS)]
       [XElem Unbound ''Timestamp'' [] [XText ''x''], XElem Unbound ''UsernameToken'' [(''Id'', ''1'')] wild_children]"

lemma username_token_is_read_witness:
  "parse_username_token (\<lambda>_ _. events wild_header) ''x'' =
     Inr \<lparr>ut_username = ''bob'', ut_password = ''pw'', ut_password_type = PlainText, ut_nonce = None,
          ut_created = Some ''t0''\<rparr>"
proof -
  note ascii = utf8_valid_ascii is_ascii_def byte_def
  have names: "expanded_name wild_uri ''Security'' = (Some WSSE_NS, ''Security'')"
    "expanded_name wild_uri ''Timestamp'' = (Some WSSE_NS, ''Timestamp'')"
    "expanded_name wild_uri ''UsernameToken'' = (Some WSSE_NS, ''UsernameToken'')"
    "expanded_name wild_uri ''Username'' = (Some WSSE_NS, ''Username'')"
    "expanded_name wild_uri ''Password'' = (Some WSSE_NS, ''Password'')"
    "expanded_name wild_uri ''u:Created'' = (Some WSU_NS, ''Created'')"
    by (simp_all add: expanded_name_def wild_uri_def)
  have prefixes: "name_prefix ''Security'' = []" "name_prefix ''Timestamp'' = []" "name_prefix ''UsernameToken'' = []"
    "name_prefix ''Username'' = []" "name_prefix ''Password'' = []" "name_prefix ''u:Created'' = ''u''"
    by (simp_all add: name_prefix_def)
  have token: "one_token wild_uri wild_header wild_children"
    unfolding wild_header_def
    by (rule token_inside [where before = "[XElem Unbound ''Timestamp'' [] [XText ''x'']]" and after = "[]", simplified])
      (auto simp: names token_name_def wild_children_def intro!: token_here)
  have scope: "scoped wild_uri {} wild_header"
    by (auto simp: wild_header_def wild_children_def tag_scoped_def prefixes declares_def wild_uri_def ascii)
  have "parse_username_token (\<lambda>_ _. events wild_header) ''x'' = token_of wild_uri wild_children"
    by (rule username_token_is_read [OF refl token scope])
  also have "\<dots> = Inr \<lparr>ut_username = ''bob'', ut_password = ''pw'', ut_password_type = PlainText, ut_nonce = None,
      ut_created = Some ''t0''\<rparr>"
    by (simp add: token_of_def field_values_def type_values_def wild_children_def names last_or_def type_of_values_def
        from_utf8_lossy_valid ascii)
  finally show ?thesis .
qed

end
