(* ===== verification/Envelope.thy ===== *)
theory Envelope
  imports Fault XmlDoc
begin

text \<open>
  \<open>src/src/envelope.rs\<close>: reading a SOAP envelope from a stream of events and writing
  one. The reader is the list of items still to come; a loop of the source that reads from
  it is a recursion on that list which returns the items it leaves. Header children and
  the first child of the Body are copied out as self-contained fragments. The lemmas
  describe the copies on the event streams of element trees.
\<close>

section \<open>Versions and content types\<close>

record parsed_envelope =
  env_soap_version :: soap_version
  header_children :: "bytes list"
  body_element :: bytes

definition SOAP12_NS :: bytes where
  "SOAP12_NS = ''http://www.w3.org/2003/05/soap-envelope''"

definition SOAP11_NS :: bytes where
  "SOAP11_NS = ''http://schemas.xmlsoap.org/soap/envelope/''"

definition detect_soap_version :: "string \<Rightarrow> soap_fault + soap_version" where
  "detect_soap_version content_type =
     (if str_contains ''application/soap+xml'' content_type then Inr Soap12
      else if str_contains ''text/xml'' content_type then Inr Soap11
      else Inl version_mismatch)"

definition response_content_type :: "soap_version \<Rightarrow> string" where
  "response_content_type v =
     (case v of Soap12 \<Rightarrow> ''application/soap+xml; charset=utf-8'' | Soap11 \<Rightarrow> ''text/xml; charset=utf-8'')"

definition serialize_envelope :: "bytes \<Rightarrow> soap_version \<Rightarrow> bytes" where
  "serialize_envelope body v =
     (let ns = (case v of Soap12 \<Rightarrow> ''http://www.w3.org/2003/05/soap-envelope''
                        | Soap11 \<Rightarrow> ''http://schemas.xmlsoap.org/soap/envelope/'')
      in ''<env:Envelope xmlns:env=\"'' @ ns @ ''\"><env:Body>'' @ body @ ''</env:Body></env:Envelope>'')"

section \<open>Namespace declarations\<close>

type_synonym ns_bindings = "(string \<times> string) list"

definition ns_decl :: "bytes \<times> bytes \<Rightarrow> ns_bindings" where
  "ns_decl kv =
     (let key = utf8_or_empty (fst kv) in
      if starts_with ''xmlns:'' key then [(trim_start_matches ''xmlns:'' key, utf8_or_empty (snd kv))]
      else if key = ''xmlns'' then [([], utf8_or_empty (snd kv))]
      else [])"

definition ns_decls :: "(bytes \<times> bytes) list \<Rightarrow> ns_bindings" where
  "ns_decls kvs = concat (map ns_decl kvs)"

definition collect_ns_from_attrs :: "tag \<Rightarrow> ns_bindings \<Rightarrow> ns_bindings" where
  "collect_ns_from_attrs e binds = ns_decls (attrs_ok (tag_attrs e)) @ binds"

definition ns_key :: "string \<Rightarrow> string" where
  "ns_key prefix = (if prefix = [] then ''xmlns'' else ''xmlns:'' @ prefix)"

definition emit_attr :: "bytes \<times> bytes \<Rightarrow> bytes" where
  "emit_attr kv = '' '' @ fst kv @ ''=\"'' @ snd kv @ ''\"''"

definition emit_attrs :: "(bytes \<times> bytes) list \<Rightarrow> bytes" where
  "emit_attrs kvs = concat (map emit_attr kvs)"

section \<open>Copying elements\<close>

definition xml_parse_fault :: "string \<Rightarrow> soap_fault" where
  "xml_parse_fault e = sender (''XML parse error: '' @ e)"

definition invalid_attribute :: soap_fault where
  "invalid_attribute = sender ''Invalid attribute''"

text \<open>A tag below the root of a fragment; \<open>close\<close> is its last characters.\<close>

definition nested_tag :: "tag \<Rightarrow> bytes \<Rightarrow> soap_fault + bytes" where
  "nested_tag e close =
     res_bind (attrs_strict invalid_attribute (tag_attrs e)) (\<lambda>kvs.
     Inr (''<'' @ tag_name e @ emit_attrs kvs @ close))"

text \<open>The root tag of a header child: malformed attributes are skipped.\<close>

definition header_root_tag :: "ns_bindings \<Rightarrow> tag \<Rightarrow> bytes \<Rightarrow> bytes" where
  "header_root_tag ns e close =
     (let own = attrs_ok (tag_attrs e);
          own_attr_keys = set (map (\<lambda>kv. utf8_or_empty (fst kv)) own)
      in ''<'' @ tag_name e @
         emit_attrs (concat (map (\<lambda>(prefix, uri).
             if ns_key prefix \<in> own_attr_keys then [] else [(ns_key prefix, uri)]) ns)) @
         emit_attrs own @ close)"

text \<open>The root tag of the Body's first child: a malformed attribute is an error.\<close>

definition body_root_tag :: "ns_bindings \<Rightarrow> tag \<Rightarrow> bytes \<Rightarrow> soap_fault + bytes" where
  "body_root_tag ns e close =
     res_bind (attrs_strict invalid_attribute (tag_attrs e)) (\<lambda>own.
     let own_prefixes = set (map fst (ns_decls own))
     in Inr (''<'' @ tag_name e @
         emit_attrs (concat (map (\<lambda>(prefix, uri).
             if prefix \<in> own_prefixes then [] else [(ns_key prefix, uri)]) ns)) @
         emit_attrs own @ close))"

definition end_tag :: "bytes \<Rightarrow> bytes" where
  "end_tag n = ''</'' @ n @ ''>''"

definition entity_ref :: "bytes \<Rightarrow> bytes" where
  "entity_ref r = ''&'' @ r @ '';''"

section \<open>Header children\<close>

text \<open>The children so far, the depth and the buffer of \<open>collect_header_children\<close>.\<close>

type_synonym header_state = "bytes list \<times> int \<times> bytes"

fun header_step :: "ns_bindings \<Rightarrow> event \<Rightarrow> header_state \<Rightarrow> soap_fault + header_state" where
  "header_step ns (EvStart e) (children, depth, buf) =
     (if depth = 0 then Inr (children, 1, header_root_tag ns e ''>'')
      else res_bind (nested_tag e ''>'') (\<lambda>t. Inr (children, depth + 1, buf @ t)))"
| "header_step ns (EvEmpty e) (children, depth, buf) =
     (if depth = 0 then Inr (children @ [header_root_tag ns e ''/>''], depth, [])
      else res_bind (nested_tag e ''/>'') (\<lambda>t. Inr (children, depth, buf @ t)))"
| "header_step ns (EvEnd n) (children, depth, buf) =
     (if depth - 1 = 0 then Inr (children @ [buf @ end_tag n], 0, [])
      else Inr (children, depth - 1, buf @ end_tag n))"
| "header_step ns (EvText t) (children, depth, buf) =
     Inr (children, depth, if 0 < depth then buf @ t else buf)"
| "header_step ns (EvGeneralRef r) (children, depth, buf) =
     Inr (children, depth, if 0 < depth then buf @ entity_ref r else buf)"
| "header_step ns _ st = Inr st"

fun header_loop :: "ns_bindings \<Rightarrow> reader \<Rightarrow> header_state \<Rightarrow> soap_fault + (bytes list \<times> reader)" where
  "header_loop ns [] st = Inl (sender ''Unexpected EOF in Header'')"
| "header_loop ns (Inl e # r) st = Inl (xml_parse_fault e)"
| "header_loop ns (Inr (_, ev) # r) st =
     (if ev = EvEof then Inl (sender ''Unexpected EOF in Header'')
      else if (case ev of EvEnd _ \<Rightarrow> fst (snd st) = 0 | _ \<Rightarrow> False) then Inr (fst st, r)
      else res_bind (header_step ns ev st) (header_loop ns r))"

definition collect_header_children :: "reader \<Rightarrow> ns_bindings \<Rightarrow> soap_fault + (bytes list \<times> reader)" where
  "collect_header_children r ns = header_loop ns r ([], 0, [])"

section \<open>The first child of the Body\<close>

fun body_content :: "reader \<Rightarrow> int \<Rightarrow> bytes \<Rightarrow> soap_fault + (bytes \<times> reader)" where
  "body_content [] depth buf = Inl (sender ''Unexpected EOF in Body child'')"
| "body_content (Inl e # r) depth buf = Inl (xml_parse_fault e)"
| "body_content (Inr (_, ev) # r) depth buf =
     (case ev of
        EvEof \<Rightarrow> Inl (sender ''Unexpected EOF in Body child'')
      | EvStart e \<Rightarrow> res_bind (nested_tag e ''>'') (\<lambda>t. body_content r (depth + 1) (buf @ t))
      | EvEmpty e \<Rightarrow> res_bind (nested_tag e ''/>'') (\<lambda>t. body_content r depth (buf @ t))
      | EvEnd n \<Rightarrow>
          if depth - 1 = 0 then Inr (buf @ end_tag n, r)
          else body_content r (depth - 1) (buf @ end_tag n)
      | EvText t \<Rightarrow> body_content r depth (buf @ t)
      | EvGeneralRef n \<Rightarrow> body_content r depth (buf @ entity_ref n)
      | _ \<Rightarrow> body_content r depth buf)"

fun extract_body_first_child :: "reader \<Rightarrow> ns_bindings \<Rightarrow> soap_fault + (bytes \<times> reader)" where
  "extract_body_first_child [] ns = Inl (sender ''Missing Body child element'')"
| "extract_body_first_child (Inl e # r) ns = Inl (xml_parse_fault e)"
| "extract_body_first_child (Inr (_, ev) # r) ns =
     (case ev of
        EvEof \<Rightarrow> Inl (sender ''Missing Body child element'')
      | EvStart e \<Rightarrow> res_bind (body_root_tag ns e ''>'') (\<lambda>buf. body_content r 1 buf)
      | EvEmpty e \<Rightarrow> res_bind (body_root_tag ns e ''/>'') (\<lambda>buf. Inr (buf, r))
      | EvEnd n \<Rightarrow> Inl (sender ''Missing Body'')
      | _ \<Rightarrow> extract_body_first_child r ns)"

fun skip_to_end :: "reader \<Rightarrow> int \<Rightarrow> soap_fault + reader" where
  "skip_to_end [] depth = Inl (sender ''Unexpected EOF'')"
| "skip_to_end (Inl e # r) depth = Inl (xml_parse_fault e)"
| "skip_to_end (Inr (_, ev) # r) depth =
     (case ev of
        EvEof \<Rightarrow> Inl (sender ''Unexpected EOF'')
      | EvStart _ \<Rightarrow> skip_to_end r (depth + 1)
      | EvEnd _ \<Rightarrow> if depth - 1 = 0 then Inr r else skip_to_end r (depth - 1)
      | _ \<Rightarrow> skip_to_end r depth)"

definition skip_element :: "reader \<Rightarrow> soap_fault + reader" where
  "skip_element r = skip_to_end r 1"

section \<open>Envelopes\<close>

definition ns_bytes :: "resolved \<Rightarrow> bytes" where
  "ns_bytes r = (case r of Bound ns \<Rightarrow> ns | _ \<Rightarrow> [])"

definition envelope_version :: "resolved \<Rightarrow> soap_version option" where
  "envelope_version r =
     (if ns_bytes r = SOAP12_NS then Some Soap12
      else if ns_bytes r = SOAP11_NS then Some Soap11 else None)"

fun find_envelope :: "reader \<Rightarrow> soap_fault + (soap_version \<times> ns_bindings \<times> reader)" where
  "find_envelope [] = Inl (sender ''Missing SOAP Envelope element'')"
| "find_envelope (Inl e # r) = Inl (xml_parse_fault e)"
| "find_envelope (Inr (res, ev) # r) =
     (case ev of
        EvEof \<Rightarrow> Inl (sender ''Missing SOAP Envelope element'')
      | EvStart e \<Rightarrow>
          if local_part (tag_name e) = ''Envelope'' then
            res_bind (ok_or (sender ''Unknown SOAP Envelope namespace'') (envelope_version res)) (\<lambda>v.
            res_bind (attrs_strict invalid_attribute (tag_attrs e)) (\<lambda>kvs.
            Inr (v, ns_decls kvs, r)))
          else find_envelope r
      | _ \<Rightarrow> find_envelope r)"

text \<open>Header, Body or another child of the Envelope, by namespace and local name.\<close>

datatype part = HeaderPart | BodyPart | OtherPart

definition part_of :: "resolved \<Rightarrow> tag \<Rightarrow> part" where
  "part_of res e =
     (let is_soap_ns = ns_bytes res = SOAP12_NS \<or> ns_bytes res = SOAP11_NS in
      if is_soap_ns \<and> local_part (tag_name e) = ''Header'' then HeaderPart
      else if is_soap_ns \<and> local_part (tag_name e) = ''Body'' then BodyPart
      else OtherPart)"

text \<open>The loop variables \<open>header_children\<close>, \<open>body_element\<close> and \<open>found_body\<close>.\<close>

type_synonym envelope_state = "bytes list \<times> bytes option \<times> bool"

text \<open>What one child element of the Envelope does, and the items it leaves.\<close>

definition envelope_child ::
  "ns_bindings \<Rightarrow> resolved \<Rightarrow> tag \<Rightarrow> reader \<Rightarrow> envelope_state \<Rightarrow> soap_fault + (envelope_state \<times> reader)" where
  "envelope_child ns res e r st =
     (case st of (headers, body, found) \<Rightarrow>
       (case part_of res e of
          HeaderPart \<Rightarrow>
            res_bind (collect_header_children r (collect_ns_from_attrs e ns)) (\<lambda>(hs, r').
            Inr ((hs, body, found), r'))
        | BodyPart \<Rightarrow>
            res_bind (extract_body_first_child r (collect_ns_from_attrs e ns)) (\<lambda>(b, r').
            res_bind (skip_to_end r' 1) (\<lambda>r''.
            Inr ((headers, Some b, True), r'')))
        | OtherPart \<Rightarrow>
            res_bind (skip_element r) (\<lambda>r'. Inr ((headers, body, found), r'))))"

lemma header_loop_shorter:
  "header_loop ns r st = Inr (hs, r') \<Longrightarrow> length r' < length r"
  by (induction ns r st rule: header_loop.induct)
    (fastforce simp: res_simps split: if_splits)+

lemma body_content_shorter: "body_content r d buf = Inr (b, r') \<Longrightarrow> length r' < length r"
  by (induction r d buf rule: body_content.induct)
    (fastforce simp: res_simps split: event.splits if_splits)+

lemma extract_body_shorter: "extract_body_first_child r ns = Inr (b, r') \<Longrightarrow> length r' < length r"
  by (induction r ns rule: extract_body_first_child.induct)
    (fastforce simp: res_simps dest: body_content_shorter split: event.splits)+

lemma skip_to_end_shorter: "skip_to_end r d = Inr r' \<Longrightarrow> length r' < length r"
  by (induction r d rule: skip_to_end.induct) (fastforce split: event.splits if_splits)+

lemma envelope_child_shorter:
  "envelope_child ns res e r st = Inr (st', r') \<Longrightarrow> length r' < length r"
  unfolding envelope_child_def collect_header_children_def skip_element_def
  by (auto simp: res_simps split: prod.splits part.splits
      dest!: header_loop_shorter extract_body_shorter skip_to_end_shorter)

function envelope_loop ::
  "ns_bindings \<Rightarrow> reader \<Rightarrow> envelope_state \<Rightarrow> soap_fault + envelope_state" where
  "envelope_loop ns [] st = Inr st"
| "envelope_loop ns (Inl e # r) st = Inl (xml_parse_fault e)"
| "envelope_loop ns (Inr (res, ev) # r) st =
     (case ev of
        EvEof \<Rightarrow> Inr st
      | EvStart e \<Rightarrow> res_bind (envelope_child ns res e r st) (\<lambda>(st', r'). envelope_loop ns r' st')
      | EvEnd _ \<Rightarrow> Inr st
      | _ \<Rightarrow> envelope_loop ns r st)"
  by pat_completeness auto
termination
  by (relation "measure (\<lambda>(ns, r, st). length r)") (auto dest: envelope_child_shorter)

definition parse_envelope :: "tokenizer \<Rightarrow> bytes \<Rightarrow> soap_fault + parsed_envelope" where
  "parse_envelope tok input =
     res_bind (find_envelope (tok False input)) (\<lambda>(v, ns, r).
     res_bind (envelope_loop ns r ([], None, False)) (\<lambda>(headers, body, found).
     if \<not> found then Inl (sender ''Missing Body'')
     else
       Inr \<lparr>env_soap_version = v, header_children = headers,
            body_element = (case body of Some b \<Rightarrow> b | None \<Rightarrow> [])\<rparr>))"

section \<open>Copies of trees\<close>

text \<open>
  What the copying keeps of a tree: CDATA sections, comments and processing instructions
  are not kept.
\<close>

fun copied :: "xml \<Rightarrow> bytes" where
  "copied (XElem res n as cs) =
     ''<'' @ n @ emit_attrs as @ ''>'' @ concat (map copied cs) @ end_tag n"
| "copied (XEmpty res n as) = ''<'' @ n @ emit_attrs as @ ''/>''"
| "copied (XText t) = t"
| "copied (XRef r) = entity_ref r"
| "copied (XCData t) = []"
| "copied (XComment t) = []"
| "copied (XPI t) = []"

lemma nested_tag_of [simp]: "nested_tag (tag_of n as) close = Inr (''<'' @ n @ emit_attrs as @ close)"
  by (simp add: nested_tag_def)

text \<open>The three loops over the items of one tree below their current depth.\<close>

lemma body_content_events [simp]:
  "0 < d \<Longrightarrow> body_content (events x @ r) d buf = body_content r d (buf @ copied x)"
proof (induction x arbitrary: r d buf)
  case (XElem res n as cs)
  have kids: "body_content (all_events ys @ r) d buf = body_content r d (buf @ concat (map copied ys))"
    if "set ys \<subseteq> set cs" and "0 < d" for ys r d buf
    using that
  proof (induction ys arbitrary: buf)
    case Nil
    then show ?case by simp
  next
    case (Cons y ys)
    then show ?case using XElem.IH [of y] by simp
  qed
  from XElem.prems show ?case by (simp add: kids)
qed simp_all

lemma header_loop_events [simp]:
  "0 < d \<Longrightarrow> header_loop ns (events x @ r) (ch, d, buf) = header_loop ns r (ch, d, buf @ copied x)"
proof (induction x arbitrary: r d buf)
  case (XElem res n as cs)
  have kids: "header_loop ns (all_events ys @ r) (ch, d, buf) =
      header_loop ns r (ch, d, buf @ concat (map copied ys))"
    if "set ys \<subseteq> set cs" and "0 < d" for ys r d buf
    using that
  proof (induction ys arbitrary: buf)
    case Nil
    then show ?case by simp
  next
    case (Cons y ys)
    then show ?case using XElem.IH [of y] by simp
  qed
  from XElem.prems show ?case by (simp add: kids)
qed simp_all

lemma header_loop_all_events [simp]:
  "0 < d \<Longrightarrow> header_loop ns (all_events xs @ r) (ch, d, buf) =
     header_loop ns r (ch, d, buf @ concat (map copied xs))"
  by (induction xs arbitrary: buf) simp_all

lemma body_content_all_events [simp]:
  "0 < d \<Longrightarrow> body_content (all_events xs @ r) d buf = body_content r d (buf @ concat (map copied xs))"
  by (induction xs arbitrary: buf) simp_all

lemma skip_to_end_events [simp]: "0 < d \<Longrightarrow> skip_to_end (events x @ r) d = skip_to_end r d"
proof (induction x arbitrary: r d)
  case (XElem res n as cs)
  have kids: "skip_to_end (all_events ys @ r) d = skip_to_end r d"
    if "set ys \<subseteq> set cs" and "0 < d" for ys r d
    using that by (induction ys) (simp_all add: XElem.IH)
  from XElem.prems show ?case by (simp add: kids)
qed simp_all

lemma skip_to_end_all_events [simp]: "0 < d \<Longrightarrow> skip_to_end (all_events xs @ r) d = skip_to_end r d"
  by (induction xs) simp_all

section \<open>Fragments\<close>

text \<open>
  A fragment is an element with the namespace declarations in scope added to its root,
  those first that its root does not make itself.
\<close>

definition inherited :: "(bytes \<times> bytes) list \<Rightarrow> ns_bindings \<Rightarrow> (bytes \<times> bytes) list" where
  "inherited as ns =
     map (\<lambda>(p, uri). (ns_key p, uri)) (filter (\<lambda>(p, _). p \<notin> fst ` set (ns_decls as)) ns)"

definition inherited_by_key :: "(bytes \<times> bytes) list \<Rightarrow> ns_bindings \<Rightarrow> (bytes \<times> bytes) list" where
  "inherited_by_key as ns =
     map (\<lambda>(p, uri). (ns_key p, uri))
       (filter (\<lambda>(p, _). ns_key p \<notin> (\<lambda>kv. utf8_or_empty (fst kv)) ` set as) ns)"

fun add_root_attrs :: "(bytes \<times> bytes) list \<Rightarrow> xml \<Rightarrow> xml" where
  "add_root_attrs new (XElem res n as cs) = XElem res n (new @ as) cs"
| "add_root_attrs new (XEmpty res n as) = XEmpty res n (new @ as)"
| "add_root_attrs new x = x"

definition body_fragment :: "ns_bindings \<Rightarrow> xml \<Rightarrow> xml" where
  "body_fragment ns x = add_root_attrs (inherited (root_attrs x) ns) x"

definition header_fragment :: "ns_bindings \<Rightarrow> xml \<Rightarrow> xml" where
  "header_fragment ns x = add_root_attrs (inherited_by_key (root_attrs x) ns) x"

lemma emit_attrs_append [simp]: "emit_attrs (as @ bs) = emit_attrs as @ emit_attrs bs"
  by (simp add: emit_attrs_def)

lemma concat_map_filter:
  "concat (map (\<lambda>(p, uri). if P p then [] else [(f p, uri)]) ns) =
     map (\<lambda>(p, uri). (f p, uri)) (filter (\<lambda>(p, _). \<not> P p) ns)"
  by (induction ns) auto

lemma body_root_tag_of [simp]:
  "body_root_tag ns (tag_of n as) close =
     Inr (''<'' @ n @ emit_attrs (inherited as ns) @ emit_attrs as @ close)"
  by (simp add: body_root_tag_def inherited_def concat_map_filter image_image Let_def)

lemma header_root_tag_of [simp]:
  "header_root_tag ns (tag_of n as) close =
     ''<'' @ n @ emit_attrs (inherited_by_key as ns) @ emit_attrs as @ close"
  by (simp add: header_root_tag_def inherited_by_key_def concat_map_filter image_image Let_def)

lemma extract_body_first_child_events:
  assumes "is_elem x"
  shows "extract_body_first_child (events x @ r) ns = Inr (copied (body_fragment ns x), r)"
  using assms by (cases x) (simp_all add: body_fragment_def)

lemma extract_body_first_child_gap:
  "\<not> is_elem x \<Longrightarrow> extract_body_first_child (events x @ r) ns = extract_body_first_child r ns"
  by (cases x) simp_all

lemma extract_body_first_child_gaps:
  "list_all (\<lambda>x. \<not> is_elem x) gap \<Longrightarrow>
   extract_body_first_child (all_events gap @ r) ns = extract_body_first_child r ns"
  by (induction gap) (simp_all add: extract_body_first_child_gap)

lemma header_loop_child:
  "is_elem x \<Longrightarrow> header_loop ns (events x @ r) (ch, 0, buf) =
     header_loop ns r (ch @ [copied (header_fragment ns x)], 0, [])"
  by (cases x) (simp_all add: header_fragment_def)

lemma header_loop_gap:
  "\<not> is_elem x \<Longrightarrow> header_loop ns (events x @ r) (ch, 0, buf) = header_loop ns r (ch, 0, buf)"
  by (cases x) simp_all

lemma header_loop_children:
  "header_loop ns (all_events xs @ Inr (res, EvEnd n) # r) (ch, 0, buf) =
     Inr (ch @ map (\<lambda>x. copied (header_fragment ns x)) (filter is_elem xs), r)"
proof (induction xs arbitrary: ch buf)
  case Nil
  then show ?case by simp
next
  case (Cons x xs)
  then show ?case
    by (cases "is_elem x") (simp_all add: header_loop_child header_loop_gap)
qed

section \<open>The tree reading of an envelope\<close>

text \<open>
  What an Envelope element means, item by item of its content: the last Header gives the
  header fragments, the last Body the body fragment, and a Body must have an element.
\<close>

fun read_item :: "ns_bindings \<Rightarrow> xml \<Rightarrow> envelope_state \<Rightarrow> soap_fault + envelope_state" where
  "read_item ns (XElem res n as cs) (headers, body, found) =
     (case part_of res (tag_of n as) of
        HeaderPart \<Rightarrow>
          Inr (map (\<lambda>x. copied (header_fragment (ns_decls as @ ns) x)) (filter is_elem cs), body, found)
      | BodyPart \<Rightarrow>
          (case filter is_elem cs of
             [] \<Rightarrow> Inl (sender ''Missing Body'')
           | x # _ \<Rightarrow> Inr (headers, Some (copied (body_fragment (ns_decls as @ ns) x)), True))
      | OtherPart \<Rightarrow> Inr (headers, body, found))"
| "read_item ns _ st = Inr st"

definition read_envelope ::
  "resolved \<Rightarrow> (bytes \<times> bytes) list \<Rightarrow> xml list \<Rightarrow> soap_fault + parsed_envelope" where
  "read_envelope res as items =
     res_bind (ok_or (sender ''Unknown SOAP Envelope namespace'') (envelope_version res)) (\<lambda>v.
     res_bind (res_fold (read_item (ns_decls as)) items ([], None, False)) (\<lambda>(headers, body, found).
     case body of
       None \<Rightarrow> Inl (sender ''Missing Body'')
     | Some b \<Rightarrow>
         Inr \<lparr>env_soap_version = v, header_children = headers, body_element = b\<rparr>))"

text \<open>The items of a whole document: prolog, Envelope element, anything after it.\<close>

definition envelope_events ::
  "event list \<Rightarrow> resolved \<Rightarrow> bytes \<Rightarrow> (bytes \<times> bytes) list \<Rightarrow> xml list \<Rightarrow> reader \<Rightarrow> reader" where
  "envelope_events prolog res n as items rest =
     map (\<lambda>ev. Inr (Unbound, ev)) prolog @
     Inr (res, EvStart (tag_of n as)) # all_events items @ Inr (res, EvEnd n) # rest"

lemma filter_is_elem_Cons:
  "filter is_elem cs = x # xs \<Longrightarrow>
   \<exists>gap post. cs = gap @ x # post \<and> list_all (\<lambda>y. \<not> is_elem y) gap \<and> is_elem x"
  by (auto simp: filter_eq_Cons_iff list_all_iff)

lemma extract_body_first_child_all:
  "extract_body_first_child (all_events cs @ Inr (res, EvEnd n) # r) ns =
     (case filter is_elem cs of
        [] \<Rightarrow> Inl (sender ''Missing Body'')
      | x # _ \<Rightarrow>
          Inr (copied (body_fragment ns x),
               all_events (tl (dropWhile (\<lambda>y. \<not> is_elem y) cs)) @ Inr (res, EvEnd n) # r))"
proof (cases "filter is_elem cs")
  case Nil
  then have "list_all (\<lambda>x. \<not> is_elem x) cs" by (simp add: filter_empty_conv list_all_iff)
  with Nil show ?thesis by (simp add: extract_body_first_child_gaps)
next
  case (Cons x xs)
  from filter_is_elem_Cons [OF Cons] obtain gap post where
    cs: "cs = gap @ x # post" and gap: "list_all (\<lambda>y. \<not> is_elem y) gap" and x: "is_elem x"
    by blast
  have "dropWhile (\<lambda>y. \<not> is_elem y) cs = x # post"
    using gap x by (simp add: cs dropWhile_append list_all_iff)
  with Cons gap x show ?thesis
    by (simp add: cs extract_body_first_child_gaps extract_body_first_child_events)
qed

lemma envelope_child_elem:
  "envelope_child ns res (tag_of n as) (all_events cs @ Inr (res, EvEnd n) # r) st =
     res_bind (read_item ns (XElem res n as cs) st) (\<lambda>st'. Inr (st', r))"
proof (cases st)
  case (fields headers body found)
  then show ?thesis
    by (cases "part_of res (tag_of n as)"; cases "filter is_elem cs")
      (simp_all add: envelope_child_def collect_header_children_def collect_ns_from_attrs_def
        skip_element_def header_loop_children extract_body_first_child_all)
qed

lemma envelope_loop_item:
  "envelope_loop ns (events x @ r) st = res_bind (read_item ns x st) (envelope_loop ns r)"
proof (cases x)
  case (XElem res n as cs)
  then show ?thesis
    by (cases "read_item ns (XElem res n as cs) st") (simp_all add: envelope_child_elem)
qed simp_all

lemma envelope_loop_items:
  "envelope_loop ns (all_events xs @ Inr (res, EvEnd n) # r) st = res_fold (read_item ns) xs st"
  by (induction xs arbitrary: st) (auto simp: envelope_loop_item intro!: res_bind_cong)

lemma find_envelope_prolog:
  "list_all is_prolog p \<Longrightarrow> find_envelope (map (\<lambda>ev. Inr (Unbound, ev)) p @ r) = find_envelope r"
proof (induction p)
  case Nil
  then show ?case by simp
next
  case (Cons ev p)
  then show ?case by (cases ev) simp_all
qed

text \<open>\<open>found_body\<close> and \<open>body_element\<close> agree at every point of the loop.\<close>

definition body_found_ok :: "envelope_state \<Rightarrow> bool" where
  "body_found_ok st = (case st of (_, body, found) \<Rightarrow> found = (body \<noteq> None))"

lemma read_item_found: "read_item ns x st = Inr st' \<Longrightarrow> body_found_ok st \<Longrightarrow> body_found_ok st'"
  by (induction ns x st rule: read_item.induct)
    (auto simp: body_found_ok_def split: part.splits list.splits)

lemma read_items_found:
  assumes "res_fold (read_item ns) xs ([], None, False) = Inr (h, b, f)"
  shows "f = (b \<noteq> None)"
proof -
  have "body_found_ok (h, b, f)"
  proof (rule res_fold_invariant [OF _ _ assms])
    show "body_found_ok ([], None, False)" by (simp add: body_found_ok_def)
  qed (rule read_item_found)
  then show ?thesis by (simp add: body_found_ok_def)
qed

lemma parse_envelope_document:
  assumes "tok False input = envelope_events prolog res n as items rest"
    and "list_all is_prolog prolog" and "local_part n = ''Envelope''"
  shows "parse_envelope tok input = read_envelope res as items"
proof -
  have "find_envelope (tok False input) =
      res_bind (ok_or (sender ''Unknown SOAP Envelope namespace'') (envelope_version res))
        (\<lambda>v. Inr (v, ns_decls as, all_events items @ Inr (res, EvEnd n) # rest))"
    using assms by (simp add: envelope_events_def find_envelope_prolog)
  then show ?thesis
    by (cases "envelope_version res"; cases "res_fold (read_item (ns_decls as)) items ([], None, False)")
      (auto simp: parse_envelope_def read_envelope_def envelope_loop_items
        dest: read_items_found split: option.splits)
qed

section \<open>Namespaces of a fragment\<close>

text \<open>
  A set of bindings as a tokeniser reports them: distinct prefixes, each a well-formed
  prefix, and URIs that are UTF-8.
\<close>

definition prefix_ok :: "string \<Rightarrow> bool" where
  "prefix_ok p \<longleftrightarrow> utf8_valid (ns_key p) \<and> \<not> starts_with ''xmlns:'' p"


lemma ns_decl_key:
  assumes "prefix_ok p" and "utf8_valid uri"
  shows "ns_decl (ns_key p, uri) = [(p, uri)]"
proof (cases "p = []")
  case True
  with assms show ?thesis by (simp add: ns_decl_def ns_key_def prefix_ok_def starts_with_def)
next
  case False
  have "trim_start_matches ''xmlns:'' (''xmlns:'' @ p) = p"
    using assms(1) False
    by (subst trim_start_matches.simps)
      (simp add: starts_with_def prefix_ok_def trim_start_matches.simps [of "''xmlns:''" p])
  with False assms show ?thesis
    by (simp add: ns_decl_def ns_key_def prefix_ok_def starts_with_def)
qed

lemma ns_decls_append [simp]: "ns_decls (as @ bs) = ns_decls as @ ns_decls bs"
  by (simp add: ns_decls_def)














lemma add_root_attrs_root: "is_elem x \<Longrightarrow> root_attrs (add_root_attrs new x) = new @ root_attrs x"
  by (cases x) simp_all





section \<open>Properties\<close>

text \<open>A document to read: a Header with one child, and a Body with one.\<close>

definition sample_env_attrs :: "(bytes \<times> bytes) list" where
  "sample_env_attrs = [(''xmlns:s'', SOAP12_NS), (''xmlns:t'', ''urn:t'')]"

definition sample_body_child :: xml where
  "sample_body_child = XElem (Bound ''urn:t'') ''t:Get'' [] [XText ''1'', XCData ''2'', XRef ''amp'']"

definition sample_items :: "xml list" where
  "sample_items =
     [XElem (Bound SOAP12_NS) ''s:Header'' [] [XEmpty (Bound ''urn:t'') ''t:Id'' []],
      XText ''  '',
      XElem (Bound SOAP12_NS) ''s:Body'' [] [XComment ''c'', sample_body_child]]"

definition sample_env_tok :: tokenizer where
  "sample_env_tok = (\<lambda>_ xml.
     envelope_events [EvDecl ''version''] (Bound SOAP12_NS) ''s:Envelope'' sample_env_attrs sample_items [])"

lemma sample_local: "local_part ''s:Envelope'' = ''Envelope''"
  by (simp add: local_part_def)

text \<open>
  C10. Reading an envelope from its event stream is reading its tree: for every document
  whose root is an Envelope element the streaming parser gives exactly the result, value or
  fault, of the item-by-item reading of that element.
\<close>

theorem parse_envelope_reads_tree:
  assumes "tok False input = envelope_events prolog res n as items rest"
    and "list_all is_prolog prolog" and "local_part n = ''Envelope''"
  shows "parse_envelope tok input = read_envelope res as items"
  by (rule parse_envelope_document [of tok, OF assms])

lemma parse_envelope_reads_tree_witness:
  "parse_envelope sample_env_tok ''x'' = read_envelope (Bound SOAP12_NS) sample_env_attrs sample_items"
  by (rule parse_envelope_reads_tree [where prolog = "[EvDecl ''version'']" and n = "''s:Envelope''"])
    (simp_all add: sample_env_tok_def sample_local)

lemma part_of_named:
  "ns_bytes res = SOAP12_NS \<or> ns_bytes res = SOAP11_NS \<Longrightarrow> local_part n = ''Header'' \<Longrightarrow>
     part_of res (tag_of n as) = HeaderPart"
  "ns_bytes res = SOAP12_NS \<or> ns_bytes res = SOAP11_NS \<Longrightarrow> local_part n = ''Body'' \<Longrightarrow>
     part_of res (tag_of n as) = BodyPart"
  by (simp_all add: part_of_def)

text \<open>
  C11. A well-formed envelope with a Header and a Body is read as the version its namespace
  names, one fragment per element of the Header, and the fragment of the first element of
  the Body, each with the declarations of its ancestors.
\<close>

theorem parse_envelope_header_and_body:
  assumes "tok False input = envelope_events prolog res n as
      [XElem hres hn has hcs, XElem bres bn bas (gap @ x # post)] rest"
    and "list_all is_prolog prolog" and "local_part n = ''Envelope''"
    and "envelope_version res = Some v"
    and "ns_bytes hres = ns_bytes res" and "local_part hn = ''Header''"
    and "ns_bytes bres = ns_bytes res" and "local_part bn = ''Body''"
    and "list_all (\<lambda>y. \<not> is_elem y) gap" and "is_elem x"
  shows "parse_envelope tok input = Inr
    \<lparr>env_soap_version = v,
     header_children = map (\<lambda>h. copied (header_fragment (ns_decls has @ ns_decls as) h)) (filter is_elem hcs),
     body_element = copied (body_fragment (ns_decls bas @ ns_decls as) x)\<rparr>"
proof -
  have soap: "ns_bytes res = SOAP12_NS \<or> ns_bytes res = SOAP11_NS"
    using assms(4) by (auto simp: envelope_version_def split: if_splits)
  have "filter is_elem (gap @ x # post) = x # filter is_elem post"
    using assms(9,10) by (simp add: filter_empty_conv list_all_iff)
  then show ?thesis
    using parse_envelope_document [of tok, OF assms(1-3)] soap assms(4-8)
    by (simp add: read_envelope_def part_of_named)
qed

definition plain_tok :: tokenizer where
  "plain_tok = (\<lambda>_ _. envelope_events [] (Bound SOAP11_NS) ''Envelope'' []
     [XElem (Bound SOAP11_NS) ''Header'' [] [XEmpty Unbound ''a'' []],
      XElem (Bound SOAP11_NS) ''Body'' [] ([XText '' ''] @ XEmpty Unbound ''b'' [] # [])] [])"

lemma parse_envelope_header_and_body_witness:
  "parse_envelope plain_tok ''x'' =
   Inr \<lparr>env_soap_version = Soap11, header_children = [''<a/>''], body_element = ''<b/>''\<rparr>"
proof -
  have "envelope_version (Bound SOAP11_NS) = Some Soap11"
    by (simp add: envelope_version_def ns_bytes_def SOAP11_NS_def SOAP12_NS_def)
  then show ?thesis
    using parse_envelope_header_and_body [of plain_tok "''x''" "[]" "Bound SOAP11_NS" "''Envelope''" "[]"
        "Bound SOAP11_NS" "''Header''" "[]" "[XEmpty Unbound ''a'' []]" "Bound SOAP11_NS" "''Body''" "[]"
        "[XText '' '']" "XEmpty Unbound ''b'' []" "[]" "[]" Soap11]
    by (simp add: plain_tok_def local_part_def header_fragment_def body_fragment_def inherited_def
        inherited_by_key_def ns_decls_def emit_attrs_def)
qed



text \<open>
  A prefix that the Body redeclares is declared twice on the fragment: when the Envelope
  and the Body both declare it and the child does not, the root of the fragment carries the
  same attribute twice, which is not well-formed XML.
\<close>

theorem redeclared_prefix_is_duplicated:
  assumes "(p, u) \<in> set (ns_decls bas)" and "(p, u') \<in> set (ns_decls as)"
    and "p \<notin> fst ` set (ns_decls (root_attrs x))" and "is_elem x"
  shows "\<not> distinct (map fst (root_attrs (body_fragment (ns_decls bas @ ns_decls as) x)))"
proof -
  let ?ns = "ns_decls bas @ ns_decls as"
  have split: "inherited (root_attrs x) ?ns = inherited (root_attrs x) (ns_decls bas) @ inherited (root_attrs x) (ns_decls as)"
    by (simp add: inherited_def)
  have "ns_key p \<in> fst ` set (inherited (root_attrs x) ns)" if "(p, w) \<in> set ns" for ns w
    using that assms(3) unfolding inherited_def by (force simp: image_image)
  from this [OF assms(1)] this [OF assms(2)]
  have "\<not> distinct (map fst (inherited (root_attrs x) ?ns))" unfolding split by auto
  then show ?thesis using assms(4) by (cases x) (auto simp: body_fragment_def)
qed

lemma redeclared_prefix_is_duplicated_witness:
  "\<not> distinct (map fst (root_attrs (body_fragment
     (ns_decls [(''xmlns'', ''urn:b'')] @ ns_decls [(''xmlns'', ''urn:a'')]) (XEmpty Unbound ''c'' []))))"
  by (rule redeclared_prefix_is_duplicated [where p = "[]" and u = "''urn:b''" and u' = "''urn:a''"])
    (simp_all add: ns_decls_def ns_decl_def utf8_valid_ascii is_ascii_def byte_def starts_with_def)

text \<open>The tree without its CDATA sections.\<close>

fun is_cdata :: "xml \<Rightarrow> bool" where
  "is_cdata (XCData _) = True"
| "is_cdata _ = False"

fun drop_cdata :: "xml \<Rightarrow> xml" where
  "drop_cdata (XElem res n as cs) = XElem res n as (map drop_cdata (filter (\<lambda>x. \<not> is_cdata x) cs))"
| "drop_cdata x = x"

lemma copied_drop_cdata: "copied (drop_cdata x) = copied x"
proof (induction x)
  case (XElem res n as cs)
  have "concat (map copied (map drop_cdata (filter (\<lambda>x. \<not> is_cdata x) ys))) = concat (map copied ys)"
    if "set ys \<subseteq> set cs" for ys
    using that
  proof (induction ys)
    case Nil
    then show ?case by simp
  next
    case (Cons y ys)
    then show ?case using XElem.IH [of y] by (cases y) simp_all
  qed
  then show ?case by simp
qed simp_all

lemma is_elem_drop_cdata [simp]: "is_elem (drop_cdata x) = is_elem x"
  by (cases x) simp_all

lemma root_attrs_drop_cdata [simp]: "root_attrs (drop_cdata x) = root_attrs x"
  by (cases x) simp_all

lemma add_root_attrs_drop_cdata: "add_root_attrs new (drop_cdata x) = drop_cdata (add_root_attrs new x)"
  by (cases x) simp_all

lemma fragments_drop_cdata:
  "copied (body_fragment ns (drop_cdata x)) = copied (body_fragment ns x)"
  "copied (header_fragment ns (drop_cdata x)) = copied (header_fragment ns x)"
  by (simp_all add: body_fragment_def header_fragment_def add_root_attrs_drop_cdata copied_drop_cdata)

lemma elems_drop_cdata:
  "filter is_elem (map drop_cdata (filter (\<lambda>x. \<not> is_cdata x) cs)) = map drop_cdata (filter is_elem cs)"
proof (induction cs)
  case Nil
  then show ?case by simp
next
  case (Cons c cs)
  then show ?case by (cases c) simp_all
qed

lemma read_item_drop_cdata: "read_item ns (drop_cdata x) st = read_item ns x st"
proof (cases x)
  case (XElem res n as cs)
  obtain headers body found where st: "st = (headers, body, found)" by (rule prod_cases3)
  have "map (\<lambda>x. copied (header_fragment b x)) (map drop_cdata (filter is_elem cs)) =
      map (\<lambda>x. copied (header_fragment b x)) (filter is_elem cs)" for b
    by (simp add: fragments_drop_cdata comp_def)
  then show ?thesis
    unfolding XElem st
    by (simp only: drop_cdata.simps read_item.simps elems_drop_cdata)
      (auto simp: fragments_drop_cdata split: part.split list.split)
qed simp_all

text \<open>
  CDATA sections are lost: an envelope and the same envelope with every CDATA section
  below the Envelope's children removed are read alike, so the text of such a section never
  reaches a handler.
\<close>

theorem cdata_is_lost:
  assumes "tok False input = envelope_events prolog res n as items rest"
    and "tok False input' = envelope_events prolog res n as (map drop_cdata items) rest"
    and "list_all is_prolog prolog" and "local_part n = ''Envelope''"
  shows "parse_envelope tok input = parse_envelope tok input'"
proof -
  have "res_fold (read_item ns) (map drop_cdata items) st = res_fold (read_item ns) items st" for ns st
    by (induction items arbitrary: st) (auto simp: read_item_drop_cdata intro!: res_bind_cong)
  then show ?thesis
    using parse_envelope_document [of tok, OF assms(1,3,4)] parse_envelope_document [of tok, OF assms(2,3,4)]
    by (simp add: read_envelope_def)
qed

definition cdata_tok :: tokenizer where
  "cdata_tok = (\<lambda>_ xml. envelope_events [] (Bound SOAP12_NS) ''s:Envelope'' sample_env_attrs
     (if xml = ''A'' then sample_items else map drop_cdata sample_items) [])"

lemma cdata_is_lost_witness:
  "parse_envelope cdata_tok ''A'' = parse_envelope cdata_tok ''B''"
  by (rule cdata_is_lost [where prolog = "[]" and items = sample_items and n = "''s:Envelope''"])
    (simp_all add: cdata_tok_def sample_local)

definition version_ns :: "soap_version \<Rightarrow> bytes" where
  "version_ns v = (case v of Soap12 \<Rightarrow> SOAP12_NS | Soap11 \<Rightarrow> SOAP11_NS)"

definition written_envelope :: "soap_version \<Rightarrow> xml \<Rightarrow> reader" where
  "written_envelope v x =
     envelope_events [] (Bound (version_ns v)) ''env:Envelope'' [(''xmlns:env'', version_ns v)]
       [XElem (Bound (version_ns v)) ''env:Body'' [] [x]] []"

lemma version_ns_props:
  "ns_bytes (Bound (version_ns v)) = version_ns v"
  "envelope_version (Bound (version_ns v)) = Some v"
  "ns_decls [(''xmlns:env'', version_ns v)] = [(''env'', version_ns v)]"
proof -
  have "utf8_valid (version_ns v)"
    by (cases v) (simp_all add: version_ns_def SOAP12_NS_def SOAP11_NS_def utf8_valid_ascii is_ascii_def byte_def)
  then show "ns_decls [(''xmlns:env'', version_ns v)] = [(''env'', version_ns v)]"
    using ns_decl_key [of "''env''" "version_ns v"]
    by (simp add: ns_decls_def ns_key_def prefix_ok_def utf8_valid_ascii is_ascii_def byte_def starts_with_def)
  show "ns_bytes (Bound (version_ns v)) = version_ns v" by (simp add: ns_bytes_def)
  show "envelope_version (Bound (version_ns v)) = Some v"
    by (cases v) (simp_all add: envelope_version_def ns_bytes_def version_ns_def SOAP12_NS_def SOAP11_NS_def)
qed

lemma parse_written_envelope:
  assumes "tok False (serialize_envelope (copied x) v) = written_envelope v x" and "is_elem x"
  shows "parse_envelope tok (serialize_envelope (copied x) v) = Inr
    \<lparr>env_soap_version = v, header_children = [],
     body_element = copied (body_fragment [(''env'', version_ns v)] x)\<rparr>"
proof -
  have soap: "ns_bytes (Bound (version_ns v)) = SOAP12_NS \<or> ns_bytes (Bound (version_ns v)) = SOAP11_NS"
    by (cases v) (simp_all add: ns_bytes_def version_ns_def)
  have "local_part ''env:Envelope'' = ''Envelope''" "local_part ''env:Body'' = ''Body''"
    by (simp_all add: local_part_def)
  with parse_envelope_document [of tok, OF assms(1) [unfolded written_envelope_def]] soap assms(2)
  show ?thesis
    by (simp add: read_envelope_def version_ns_props part_of_named ns_decls_def [of "[]"])
qed

text \<open>
  A response can be read back: whatever the bytes of the envelope that is written around
  a body element tokenise to, as long as it is that element inside the written tags, parsing
  it returns the version and the element, now carrying the declaration of the envelope.
\<close>

theorem serialize_then_parse:
  assumes "tok False (serialize_envelope (copied x) v) = written_envelope v x" and "is_elem x"
  shows "parse_envelope tok (serialize_envelope (copied x) v) = Inr
    \<lparr>env_soap_version = v, header_children = [],
     body_element = copied (body_fragment [(''env'', version_ns v)] x)\<rparr>"
  using assms by (rule parse_written_envelope)

lemma serialize_then_parse_witness:
  "parse_envelope (\<lambda>_ _. written_envelope Soap12 (XEmpty Unbound ''r'' []))
     (serialize_envelope ''<r/>'' Soap12) = Inr
    \<lparr>env_soap_version = Soap12, header_children = [],
     body_element = copied (body_fragment [(''env'', version_ns Soap12)] (XEmpty Unbound ''r'' []))\<rparr>"
  using serialize_then_parse [of "\<lambda>_ _. written_envelope Soap12 (XEmpty Unbound ''r'' [])"
      "XEmpty Unbound ''r'' []" Soap12]
  by (simp add: emit_attrs_def)

end
