(* ===== verification/Handler.thy ===== *)
theory Handler
  imports Fault
begin

text \<open>
  \<open>src/src/handler.rs\<close>: the operation handlers. A handler is application code, so it
  may read and change the application's state \<open>'s\<close>; the model threads that state
  through every call, and a state that comes out unchanged is a handler that did not run.
\<close>

type_synonym 's body_fn = "bytes \<Rightarrow> 's \<Rightarrow> (soap_fault + bytes) \<times> 's"

record 's soap_handler =
  handle :: "'s body_fn"
  handle_with_headers :: "bytes \<Rightarrow> bytes list \<Rightarrow> 's \<Rightarrow> (soap_fault + bytes) \<times> 's"

text \<open>The trait's default for \<open>handle_with_headers\<close> ignores the headers.\<close>

definition default_handle_with_headers ::
  "'s body_fn \<Rightarrow> bytes \<Rightarrow> bytes list \<Rightarrow> 's \<Rightarrow> (soap_fault + bytes) \<times> 's" where
  "default_handle_with_headers h body headers s = h body s"

text \<open>\<open>FnHandler::new\<close>: a closure as a handler, with the default for headers.\<close>

definition fn_handler :: "'s body_fn \<Rightarrow> 's soap_handler" where
  "fn_handler f = \<lparr>handle = f, handle_with_headers = default_handle_with_headers f\<rparr>"

lemma fn_handler_ignores_headers:
  "handle_with_headers (fn_handler f) body headers s = handle (fn_handler f) body s"
  by (simp add: fn_handler_def default_handle_with_headers_def)

end
