(* ===== verification/Dispatch.thy ===== *)
theory Dispatch
  imports Handler WsdlResolver XmlDoc XsdSemantics
begin

text \<open>
  \<open>src/src/dispatch.rs\<close>: the routing table built at startup from the resolved WSDL, the
  routing of a request, and the structural validation of its body. The lemmas state what
  a successfully built table holds, which entry a request gets, and that validation
  accepts exactly the bodies with every required child.
\<close>

section \<open>Tables and errors\<close>

record 's dispatch_entry =
  handler :: "'s soap_handler"
  auth_required :: bool
  input_type :: "qname option"
  validation_type :: "qname option"

record 's dispatch_table =
  by_element :: "(qname, 's dispatch_entry) hashmap"
  by_action :: "(string, 's dispatch_entry) hashmap"
  default_handler :: "'s soap_handler option"

definition dispatch_empty :: "'s dispatch_table" where
  "dispatch_empty = \<lparr>by_element = [], by_action = [], default_handler = None\<rparr>"

datatype dispatch_error =
    UnregisteredOperation string
  | UnknownOperation string
  | UnresolvableInputType string string string

fun dispatch_error_to_string :: "dispatch_error \<Rightarrow> string" where
  "dispatch_error_to_string (UnregisteredOperation op) =
     ''WSDL operation '' @ [CHR 0x27] @ op @ [CHR 0x27] @ '' has no registered handler''"
| "dispatch_error_to_string (UnknownOperation op) =
     ''Registered handler '' @ [CHR 0x27] @ op @ [CHR 0x27] @ '' has no matching operation in WSDL''"
| "dispatch_error_to_string (UnresolvableInputType op el ty) =
     ''Operation '' @ [CHR 0x27] @ op @ [CHR 0x27] @ '' input element '' @ [CHR 0x27] @ el @ [CHR 0x27] @
     '' references type '' @ [CHR 0x27] @ ty @ [CHR 0x27] @ '' which is not in the type registry''"

section \<open>Collecting operations\<close>

text \<open>Operation name, SOAPAction, style and RPC namespace.\<close>

type_synonym op_info = "string \<times> string \<times> binding_style \<times> string option"

definition binding_op_info :: "resolved_wsdl \<Rightarrow> binding \<Rightarrow> binding_operation \<Rightarrow> op_info" where
  "binding_op_info rw b bo =
     (bo_name bo, bo_soap_action bo, sb_style (b_soap_binding b),
      if sb_style (b_soap_binding b) = Rpc then
        (case body_namespace (bm_body (bo_input bo)) of
           Some ns \<Rightarrow> Some ns
         | None \<Rightarrow> Some (target_namespace (rw_definition rw)))
      else None)"

definition binding_ops :: "resolved_wsdl \<Rightarrow> binding \<Rightarrow> op_info list" where
  "binding_ops rw b = map (binding_op_info rw b) (b_operations b)"

definition service_ops :: "resolved_wsdl \<Rightarrow> service \<Rightarrow> op_info list" where
  "service_ops rw s =
     concat (map (\<lambda>p.
       case hm_get (bindings (rw_definition rw)) (local_name (port_binding p)) of
         Some b \<Rightarrow> binding_ops rw b
       | None \<Rightarrow> []) (ports s))"

fun dedup_ops :: "string set \<Rightarrow> op_info list \<Rightarrow> op_info list" where
  "dedup_ops seen [] = []"
| "dedup_ops seen (op # ops) =
     (if fst op \<in> seen then dedup_ops seen ops else op # dedup_ops (insert (fst op) seen) ops)"

definition collect_ops_for_service :: "string option \<Rightarrow> resolved_wsdl \<Rightarrow> op_info list" where
  "collect_ops_for_service svc rw =
     (let service_iter =
            (case svc of
               Some name \<Rightarrow> (case hm_get (services (rw_definition rw)) name of Some s \<Rightarrow> [s] | None \<Rightarrow> [])
             | None \<Rightarrow> hm_values (services (rw_definition rw)));
          from_services = concat (map (service_ops rw) service_iter);
          all_binding_ops =
            (if from_services = [] \<and> svc = None then
               concat (map (binding_ops rw) (hm_values (bindings (rw_definition rw))))
             else from_services)
      in dedup_ops {} all_binding_ops)"

section \<open>Building the table\<close>

definition input_element_of :: "resolved_wsdl \<Rightarrow> operation \<Rightarrow> qname option" where
  "input_element_of rw op =
     Option.bind (op_input op) (\<lambda>m.
     Option.bind (hm_get (messages (rw_definition rw)) (local_name (om_message m))) (\<lambda>msg.
     case parts msg of [] \<Rightarrow> None | p # _ \<Rightarrow> mp_element p))"

definition resolve_input_element :: "resolved_wsdl \<Rightarrow> string \<Rightarrow> qname option" where
  "resolve_input_element rw name =
     (case find (\<lambda>op. op_name op = name)
             (concat (map pt_operations (hm_values (port_types (rw_definition rw))))) of
        Some op \<Rightarrow> input_element_of rw op
      | None \<Rightarrow> None)"

text \<open>The routing name and the validation type of one operation.\<close>

definition document_types ::
  "resolved_wsdl \<Rightarrow> string \<Rightarrow> dispatch_error + (qname option \<times> qname option)" where
  "document_types rw name =
     (case resolve_input_element rw name of
        None \<Rightarrow> Inr (None, None)
      | Some el \<Rightarrow>
          (case hm_get (rw_element_type_map rw) el of
             None \<Rightarrow> Inr (Some el, None)
           | Some ty \<Rightarrow>
               if registry_lookup (rw_type_registry rw) ty = None then
                 Inl (UnresolvableInputType name (qname_to_string el) (qname_to_string ty))
               else Inr (Some el, Some ty)))"

definition operation_types ::
  "resolved_wsdl \<Rightarrow> op_info \<Rightarrow> dispatch_error + (qname option \<times> qname option)" where
  "operation_types rw op =
     (case op of (name, action, style, rpc_ns) \<Rightarrow>
        if style = Rpc then
          (let ns = (case rpc_ns of Some ns \<Rightarrow> ns | None \<Rightarrow> target_namespace (rw_definition rw));
               qn = Some (qname_new ns name)
           in Inr (qn, qn))
        else document_types rw name)"

definition operation_handler ::
  "(string, 's soap_handler) hashmap \<Rightarrow> 's soap_handler option \<Rightarrow> string \<Rightarrow> dispatch_error + 's soap_handler" where
  "operation_handler handlers dflt name =
     (case hm_get handlers name of
        Some h \<Rightarrow> Inr h
      | None \<Rightarrow> (case dflt of Some d \<Rightarrow> Inr d | None \<Rightarrow> Inl (UnregisteredOperation name)))"

type_synonym 's table_state =
  "(qname, 's dispatch_entry) hashmap \<times> (string, 's dispatch_entry) hashmap \<times> string set"

definition add_operation ::
  "resolved_wsdl \<Rightarrow> (string, 's soap_handler) hashmap \<Rightarrow> string set \<Rightarrow> 's soap_handler option \<Rightarrow>
   op_info \<Rightarrow> 's table_state \<Rightarrow> dispatch_error + 's table_state" where
  "add_operation rw handlers bypass dflt op st =
     (case (op, st) of ((name, action, style, rpc_ns), (els, acts, consumed)) \<Rightarrow>
        res_bind (operation_handler handlers dflt name) (\<lambda>h.
        res_bind (operation_types rw op) (\<lambda>(input, val).
        let entry = \<lparr>handler = h, auth_required = (name \<notin> bypass), input_type = input,
                     validation_type = val\<rparr>
        in Inr (case input of Some qn \<Rightarrow> hm_insert qn entry els | None \<Rightarrow> els,
                if action \<noteq> [] then hm_insert action entry acts else acts,
                insert name consumed))))"

definition build_dispatch_table_from_ops ::
  "op_info list \<Rightarrow> resolved_wsdl \<Rightarrow> (string, 's soap_handler) hashmap \<Rightarrow> string set \<Rightarrow>
   's soap_handler option \<Rightarrow> dispatch_error + 's dispatch_table" where
  "build_dispatch_table_from_ops ops rw handlers bypass dflt =
     res_bind (res_fold (add_operation rw handlers bypass dflt) ops ([], [], {}))
       (\<lambda>(els, acts, consumed).
          case find (\<lambda>h. h \<notin> consumed) (hm_keys handlers) of
            Some h \<Rightarrow> Inl (UnknownOperation h)
          | None \<Rightarrow> Inr \<lparr>by_element = els, by_action = acts, default_handler = dflt\<rparr>)"

definition build_dispatch_table ::
  "resolved_wsdl \<Rightarrow> (string, 's soap_handler) hashmap \<Rightarrow> string set \<Rightarrow> 's soap_handler option \<Rightarrow>
   dispatch_error + 's dispatch_table" where
  "build_dispatch_table rw handlers bypass dflt =
     build_dispatch_table_from_ops (collect_ops_for_service None rw) rw handlers bypass dflt"

definition build_dispatch_table_for_service ::
  "string \<Rightarrow> resolved_wsdl \<Rightarrow> (string, 's soap_handler) hashmap \<Rightarrow> string set \<Rightarrow>
   's soap_handler option \<Rightarrow> dispatch_error + 's dispatch_table" where
  "build_dispatch_table_for_service svc rw handlers bypass dflt =
     build_dispatch_table_from_ops (collect_ops_for_service (Some svc) rw) rw handlers bypass dflt"

section \<open>Routing\<close>

definition route ::
  "'s dispatch_table \<Rightarrow> qname \<Rightarrow> string option \<Rightarrow> soap_fault + 's dispatch_entry" where
  "route t q action =
     (case hm_get (by_element t) q of
        Some e \<Rightarrow> Inr e
      | None \<Rightarrow>
          (case Option.bind action (hm_get (by_action t)) of
             Some e \<Rightarrow> Inr e
           | None \<Rightarrow> Inl (action_not_supported (qname_to_string q))))"

section \<open>Validation\<close>

fun collect_required_from_content :: "complex_content \<Rightarrow> string list" where
  "collect_required_from_content (Sequence els) =
     List.map_filter (\<lambda>el. if 0 < el_min_occurs el then el_name el else None) els"
| "collect_required_from_content (All els) =
     List.map_filter (\<lambda>el. if 0 < el_min_occurs el then el_name el else None) els"
| "collect_required_from_content (Choice els) = []"
| "collect_required_from_content (ComplexExtension base content) = collect_required_from_content content"
| "collect_required_from_content (ComplexRestriction base content) = collect_required_from_content content"
| "collect_required_from_content EmptyContent = []"
| "collect_required_from_content (SimpleContent scd) = []"

fun collect_required_element_names :: "xsd_type \<Rightarrow> string list" where
  "collect_required_element_names (Complex ct) = collect_required_from_content (ct_content ct)"
| "collect_required_element_names (Simple st) = []"

definition child_name :: "tag \<Rightarrow> string + string" where
  "child_name e =
     (let l = local_part (tag_name e) in ok_or (utf8_error l) (from_utf8 l))"

fun child_names_loop :: "reader \<Rightarrow> nat \<Rightarrow> string set \<Rightarrow> string + string set" where
  "child_names_loop [] depth children = Inr children"
| "child_names_loop (Inl e # r) depth children = Inl e"
| "child_names_loop (Inr (_, ev) # r) depth children =
     (case ev of
        EvStart e \<Rightarrow>
          if depth + 1 = 2 then
            res_bind (child_name e) (\<lambda>n. child_names_loop r (depth + 1) (insert n children))
          else child_names_loop r (depth + 1) children
      | EvEmpty e \<Rightarrow>
          if depth = 1 then res_bind (child_name e) (\<lambda>n. child_names_loop r depth (insert n children))
          else child_names_loop r depth children
      | EvEnd _ \<Rightarrow> if depth = 0 then Inr children else child_names_loop r (depth - 1) children
      | EvEof \<Rightarrow> Inr children
      | _ \<Rightarrow> child_names_loop r depth children)"

definition parse_child_element_names :: "tokenizer \<Rightarrow> bytes \<Rightarrow> string + string set" where
  "parse_child_element_names tok body = child_names_loop (tok True body) 0 {}"

definition missing_element :: "string \<Rightarrow> soap_fault" where
  "missing_element n =
     sender (''Schema validation failed: required element '' @ [CHR 0x27] @ n @ [CHR 0x27] @ '' is missing'')"

definition validate_request ::
  "tokenizer \<Rightarrow> bytes \<Rightarrow> type_registry \<Rightarrow> qname option \<Rightarrow> soap_fault + unit" where
  "validate_request tok body reg input =
     (case input of
        None \<Rightarrow> Inr ()
      | Some q \<Rightarrow>
          (case registry_lookup reg q of
             None \<Rightarrow> Inr ()
           | Some ty \<Rightarrow>
               (let required = collect_required_element_names ty in
                if required = [] then Inr ()
                else
                  res_bind (map_err (\<lambda>e. sender (''Schema validation failed: malformed XML: '' @ e))
                             (parse_child_element_names tok body)) (\<lambda>present.
                  case find (\<lambda>n. n \<notin> present) required of
                    Some n \<Rightarrow> Inl (missing_element n)
                  | None \<Rightarrow> Inr ()))))"

section \<open>What a built table holds\<close>

text \<open>The entry of one operation, or why there is none.\<close>

definition entry_of ::
  "resolved_wsdl \<Rightarrow> (string, 's soap_handler) hashmap \<Rightarrow> string set \<Rightarrow> 's soap_handler option \<Rightarrow>
   op_info \<Rightarrow> dispatch_error + 's dispatch_entry" where
  "entry_of rw handlers bypass dflt op =
     res_bind (operation_handler handlers dflt (fst op)) (\<lambda>h.
     res_bind (operation_types rw op) (\<lambda>(input, val).
     Inr \<lparr>handler = h, auth_required = (fst op \<notin> bypass), input_type = input, validation_type = val\<rparr>))"

definition op_action :: "op_info \<Rightarrow> string" where
  "op_action op = fst (snd op)"

lemma add_operation_eq:
  "add_operation rw handlers bypass dflt op (els, acts, consumed) =
     res_bind (entry_of rw handlers bypass dflt op) (\<lambda>e.
       Inr (case input_type e of Some qn \<Rightarrow> hm_insert qn e els | None \<Rightarrow> els,
            if op_action op \<noteq> [] then hm_insert (op_action op) e acts else acts,
            insert (fst op) consumed))"
  by (cases op; cases "operation_handler handlers dflt (fst op)"; cases "operation_types rw op")
    (auto simp: add_operation_def entry_of_def op_action_def Let_def)

lemma entry_of_fields:
  assumes "entry_of rw handlers bypass dflt op = Inr e"
  shows "auth_required e \<longleftrightarrow> fst op \<notin> bypass"
    and "operation_handler handlers dflt (fst op) = Inr (handler e)"
    and "operation_types rw op = Inr (input_type e, validation_type e)"
  using assms by (auto simp: entry_of_def res_simps)

text \<open>The loop over the operations succeeds exactly when each has an entry.\<close>

lemma add_operations_consumed:
  "res_fold (add_operation rw handlers bypass dflt) ops (els, acts, c) = Inr (els', acts', c') \<Longrightarrow>
   c' = c \<union> fst ` set ops"
  by (induction ops arbitrary: els acts c) (auto simp: add_operation_eq res_simps)

lemma add_operations_Inr_iff:
  "(\<exists>st'. res_fold (add_operation rw handlers bypass dflt) ops st = Inr st') \<longleftrightarrow>
     (\<forall>op \<in> set ops. \<exists>e. entry_of rw handlers bypass dflt op = Inr e)"
proof (induction ops arbitrary: st)
  case Nil
  then show ?case by (cases st rule: prod_cases3) simp
next
  case (Cons op ops)
  obtain els acts c where st: "st = (els, acts, c)" by (rule prod_cases3)
  show ?case
  proof (cases "entry_of rw handlers bypass dflt op")
    case (Inl e)
    then show ?thesis by (auto simp: st add_operation_eq)
  next
    case (Inr e)
    then show ?thesis using Cons.IH by (simp add: st add_operation_eq)
  qed
qed

lemma build_from_ops_Inr_iff:
  "(\<exists>t. build_dispatch_table_from_ops ops rw handlers bypass dflt = Inr t) \<longleftrightarrow>
     (\<forall>op \<in> set ops. \<exists>e. entry_of rw handlers bypass dflt op = Inr e) \<and>
     set (hm_keys handlers) \<subseteq> fst ` set ops"
proof (cases "res_fold (add_operation rw handlers bypass dflt) ops ([], [], {})")
  case (Inl e)
  with add_operations_Inr_iff [of rw handlers bypass dflt ops "([], [], {})"] show ?thesis
    by (auto simp: build_dispatch_table_from_ops_def)
next
  case (Inr st)
  obtain els acts c where st: "st = (els, acts, c)" by (rule prod_cases3)
  have all: "\<forall>op \<in> set ops. \<exists>e. entry_of rw handlers bypass dflt op = Inr e"
    using add_operations_Inr_iff [of rw handlers bypass dflt ops "([], [], {})"] Inr by blast
  have c: "c = fst ` set ops" using add_operations_consumed Inr st by fastforce
  show ?thesis
  proof (cases "find (\<lambda>h. h \<notin> c) (hm_keys handlers)")
    case None
    then have "set (hm_keys handlers) \<subseteq> fst ` set ops"
      unfolding find_None_iff c by blast
    with None all Inr st show ?thesis by (simp add: build_dispatch_table_from_ops_def)
  next
    case (Some h)
    then have "h \<in> set (hm_keys handlers)" "h \<notin> fst ` set ops"
      unfolding c by (auto dest: find_SomeD)
    with Some all Inr st show ?thesis by (auto simp: build_dispatch_table_from_ops_def)
  qed
qed

text \<open>An invariant of the loop: every entry is that of an operation read so far.\<close>

definition table_sound ::
  "resolved_wsdl \<Rightarrow> (string, 's soap_handler) hashmap \<Rightarrow> string set \<Rightarrow> 's soap_handler option \<Rightarrow>
   op_info list \<Rightarrow> 's table_state \<Rightarrow> bool" where
  "table_sound rw handlers bypass dflt ops st \<longleftrightarrow>
     (case st of (els, acts, c) \<Rightarrow>
        (\<forall>q e. hm_get els q = Some e \<longrightarrow>
           (\<exists>op \<in> set ops. entry_of rw handlers bypass dflt op = Inr e \<and> input_type e = Some q)) \<and>
        (\<forall>a e. hm_get acts a = Some e \<longrightarrow>
           (\<exists>op \<in> set ops. entry_of rw handlers bypass dflt op = Inr e \<and> op_action op = a)))"

lemma add_operation_sound:
  assumes "op \<in> set ops" and "table_sound rw handlers bypass dflt ops st"
    and "add_operation rw handlers bypass dflt op st = Inr st'"
  shows "table_sound rw handlers bypass dflt ops st'"
proof -
  obtain els acts c where st: "st = (els, acts, c)" by (rule prod_cases3)
  obtain e where e: "entry_of rw handlers bypass dflt op = Inr e"
    using assms(3) by (auto simp: st add_operation_eq res_simps)
  then have st': "st' =
      (case input_type e of Some qn \<Rightarrow> hm_insert qn e els | None \<Rightarrow> els,
       if op_action op \<noteq> [] then hm_insert (op_action op) e acts else acts, insert (fst op) c)"
    using assms(3) by (simp add: st add_operation_eq)
  show ?thesis
    using assms(1,2) e unfolding st st' table_sound_def
    by (auto split: option.splits if_splits)
qed

text \<open>What a finished loop holds for an operation that no later one replaced.\<close>

definition op_key_free :: "resolved_wsdl \<Rightarrow> (string, 's soap_handler) hashmap \<Rightarrow> string set \<Rightarrow>
   's soap_handler option \<Rightarrow> qname \<Rightarrow> op_info list \<Rightarrow> bool" where
  "op_key_free rw handlers bypass dflt q ops \<longleftrightarrow>
     (\<forall>op \<in> set ops. \<forall>e. entry_of rw handlers bypass dflt op = Inr e \<longrightarrow> input_type e \<noteq> Some q)"

lemma add_operations_keep:
  "res_fold (add_operation rw handlers bypass dflt) ops (els, acts, c) = Inr (els', acts', c') \<Longrightarrow>
   op_key_free rw handlers bypass dflt q ops \<Longrightarrow> hm_get els' q = hm_get els q"
proof (induction ops arbitrary: els acts c)
  case Nil
  then show ?case by simp
next
  case (Cons op ops)
  from Cons.prems(1) obtain e where e: "entry_of rw handlers bypass dflt op = Inr e"
    by (auto simp: add_operation_eq res_simps)
  with Cons show ?case
    by (fastforce simp: add_operation_eq op_key_free_def split: option.splits)
qed

lemma add_operations_action_keep:
  "res_fold (add_operation rw handlers bypass dflt) ops (els, acts, c) = Inr (els', acts', c') \<Longrightarrow>
   a \<notin> op_action ` set ops \<Longrightarrow> hm_get acts' a = hm_get acts a"
  by (induction ops arbitrary: els acts c) (fastforce simp: add_operation_eq res_simps)+

lemma build_from_ops_Inr:
  assumes "build_dispatch_table_from_ops ops rw handlers bypass dflt = Inr t"
  obtains c where "res_fold (add_operation rw handlers bypass dflt) ops ([], [], {}) =
      Inr (by_element t, by_action t, c)"
    and "default_handler t = dflt"
  using assms by (auto simp: build_dispatch_table_from_ops_def res_simps split: option.splits)

lemma build_from_ops_sound:
  assumes "build_dispatch_table_from_ops ops rw handlers bypass dflt = Inr t"
  shows "table_sound rw handlers bypass dflt ops (by_element t, by_action t, {})"
proof -
  obtain c where run: "res_fold (add_operation rw handlers bypass dflt) ops ([], [], {}) =
      Inr (by_element t, by_action t, c)"
    using build_from_ops_Inr [OF assms] by blast
  have "table_sound rw handlers bypass dflt ops (by_element t, by_action t, c)"
  proof (rule res_fold_invariant [OF _ _ run])
    show "table_sound rw handlers bypass dflt ops ([], [], {})"
      by (simp add: table_sound_def)
  qed (rule add_operation_sound)
  then show ?thesis by (simp add: table_sound_def)
qed

text \<open>The last operation with an input element is the one that element is routed to.\<close>

lemma build_from_ops_last:
  assumes build: "build_dispatch_table_from_ops (pre @ op # post) rw handlers bypass dflt = Inr t"
    and e: "entry_of rw handlers bypass dflt op = Inr e" and q: "input_type e = Some q"
    and last: "op_key_free rw handlers bypass dflt q post"
  shows "hm_get (by_element t) q = Some e"
proof -
  obtain c where run: "res_fold (add_operation rw handlers bypass dflt) (pre @ op # post) ([], [], {}) =
      Inr (by_element t, by_action t, c)"
    using build_from_ops_Inr [OF build] by blast
  then obtain els acts c1 where
    "res_fold (add_operation rw handlers bypass dflt) post (hm_insert q e els, acts, c1) =
      Inr (by_element t, by_action t, c)"
    using e q by (auto simp: res_fold_append res_simps add_operation_eq)
  from add_operations_keep [OF this last] show ?thesis by simp
qed

section \<open>Routing a request\<close>

lemma route_by_element: "hm_get (by_element t) q = Some e \<Longrightarrow> route t q a = Inr e"
  by (simp add: route_def)

lemma route_by_action:
  "hm_get (by_element t) q = None \<Longrightarrow> hm_get (by_action t) a = Some e \<Longrightarrow> route t q (Some a) = Inr e"
  by (simp add: route_def)

lemma route_Inr_cases:
  assumes "route t q action = Inr e"
  obtains (element) "hm_get (by_element t) q = Some e"
  | (action) a where "action = Some a" "hm_get (by_element t) q = None" "hm_get (by_action t) a = Some e"
  using assms by (cases "action") (auto simp: route_def split: option.splits)

lemma dedup_ops_distinct: "distinct (map fst (dedup_ops seen ops)) \<and> fst ` set (dedup_ops seen ops) \<inter> seen = {}"
  by (induction seen ops rule: dedup_ops.induct) auto

lemma dedup_ops_names: "fst ` set (dedup_ops seen ops) = fst ` set ops - seen"
  by (induction seen ops rule: dedup_ops.induct) auto

section \<open>Validation on trees\<close>

fun xml_name :: "xml \<Rightarrow> bytes" where
  "xml_name (XElem _ n _ _) = n"
| "xml_name (XEmpty _ n _) = n"
| "xml_name _ = []"

definition child_names :: "xml list \<Rightarrow> string set" where
  "child_names cs = (\<lambda>x. local_part (xml_name x)) ` set (filter is_elem cs)"

definition names_utf8 :: "xml list \<Rightarrow> bool" where
  "names_utf8 cs \<longleftrightarrow> list_all (\<lambda>x. utf8_valid (local_part (xml_name x))) (filter is_elem cs)"

lemma child_names_events [simp]:
  "2 \<le> d \<Longrightarrow> child_names_loop (events x @ r) d ch = child_names_loop r d ch"
proof (induction x arbitrary: r d)
  case (XElem res n as cs)
  have kids: "child_names_loop (all_events ys @ r) d ch = child_names_loop r d ch"
    if "set ys \<subseteq> set cs" and "2 \<le> d" for ys r d
    using that by (induction ys) (simp_all add: XElem.IH)
  from XElem.prems show ?case by (simp add: kids)
qed simp_all

lemma child_names_all_events [simp]:
  "2 \<le> d \<Longrightarrow> child_names_loop (all_events xs @ r) d ch = child_names_loop r d ch"
  by (induction xs) simp_all

lemma child_names_child:
  "is_elem x \<Longrightarrow> utf8_valid (local_part (xml_name x)) \<Longrightarrow>
   child_names_loop (events x @ r) (Suc 0) ch = child_names_loop r (Suc 0) (insert (local_part (xml_name x)) ch)"
  by (cases x) (simp_all add: child_name_def from_utf8_def Let_def)

lemma child_names_children:
  "names_utf8 cs \<Longrightarrow>
   child_names_loop (all_events cs @ r) (Suc 0) ch = child_names_loop r (Suc 0) (ch \<union> child_names cs)"
proof (induction cs arbitrary: ch)
  case Nil
  then show ?case by (simp add: child_names_def)
next
  case (Cons x cs)
  show ?case
  proof (cases "is_elem x")
    case True
    with Cons show ?thesis by (simp add: child_names_child names_utf8_def child_names_def)
  next
    case False
    then have "child_names_loop (events x @ all_events cs @ r) (Suc 0) ch =
        child_names_loop (all_events cs @ r) (Suc 0) ch"
      by (cases x) simp_all
    with Cons False show ?thesis by (simp add: names_utf8_def child_names_def)
  qed
qed

lemma child_names_prolog:
  "list_all is_prolog p \<Longrightarrow> list_all (\<lambda>ev. case ev of EvEmpty _ \<Rightarrow> False | EvEnd _ \<Rightarrow> False | _ \<Rightarrow> True) p \<Longrightarrow>
   child_names_loop (map (\<lambda>ev. Inr (Unbound, ev)) p @ r) 0 ch = child_names_loop r 0 ch"
proof (induction p)
  case Nil
  then show ?case by simp
next
  case (Cons ev p)
  then show ?case by (cases ev) simp_all
qed

lemma child_names_root:
  "names_utf8 cs \<Longrightarrow> child_names_loop (events (XElem res n as cs)) 0 {} = Inr (child_names cs)"
  using child_names_children [of cs "[Inr (res, EvEnd n)]" "{}"] by simp

text \<open>Validation, on the tree of the body: every required name is among the children.\<close>

lemma validate_request_tree:
  assumes "tok True body = events (XElem res n as cs)" and "names_utf8 cs"
    and "registry_lookup reg q = Some ty"
  shows "validate_request tok body reg (Some q) =
     (case find (\<lambda>x. x \<notin> child_names cs) (collect_required_element_names ty) of
        None \<Rightarrow> Inr () | Some x \<Rightarrow> Inl (missing_element x))"
proof -
  have "parse_child_element_names tok body = Inr (child_names cs)"
    unfolding parse_child_element_names_def assms(1) by (rule child_names_root [OF assms(2)])
  with assms(3) show ?thesis
    by (simp add: validate_request_def Let_def split: option.split)
qed

section \<open>Required elements of derived types\<close>

lemma resolved_content_flat:
  "resolves_type flat q ct \<Longrightarrow> \<forall>b c. ct_content ct \<noteq> ComplexExtension b c \<and> ct_content ct \<noteq> ComplexRestriction b c"
  "resolves_content flat c cc \<Longrightarrow> \<forall>b d. cc \<noteq> ComplexExtension b d \<and> cc \<noteq> ComplexRestriction b d"
  by (induction rule: resolves_type_resolves_content.inducts) (simp_all add: opaque_type_def)

definition required_of :: "xsd_element list \<Rightarrow> string list" where
  "required_of els = List.map_filter (\<lambda>el. if 0 < el_min_occurs el then el_name el else None) els"

lemma required_of_append: "required_of (xs @ ys) = required_of xs @ required_of ys"
  by (simp add: required_of_def map_filter_def)

lemma required_of_member:
  "el \<in> set els \<Longrightarrow> 0 < el_min_occurs el \<Longrightarrow> el_name el = Some n \<Longrightarrow> n \<in> set (required_of els)"
  by (force simp: required_of_def map_filter_def)

lemma required_Sequence: "collect_required_from_content (Sequence els) = required_of els"
  by (simp add: required_of_def)

lemma resolves_extension:
  assumes "hm_get (ft_types flat) q = Some (Complex raw)" and "ct_content raw = ComplexExtension base child"
    and "resolves_type flat q ct" and "resolves_type flat base b"
  shows "\<exists>own. ct_content ct = Sequence (extract_elements (ct_content b) @ own)"
proof -
  from assms(1-3) obtain cc where "resolves_content flat (ComplexExtension base child) cc"
    and cc: "ct_content ct = cc"
    by (auto elim!: resolves_typeE simp del: resolves_content_simps)
  then obtain b' own where "resolves_type flat base b'"
    "ct_content ct = Sequence (extract_elements (ct_content b') @ own)"
    by auto
  with resolves_unique(1) [OF assms(4)] show ?thesis by blast
qed

section \<open>Properties\<close>

text \<open>A definition with one RPC operation, and a handler that answers with its body.\<close>

definition demo_handler :: "'s soap_handler" where
  "demo_handler = fn_handler (\<lambda>body s. (Inr body, s))"

definition sample_message :: binding_message where
  "sample_message = \<lparr>bm_body = \<lparr>use_attr = Literal, body_namespace = Some ''urn:e'', encoding_style = None\<rparr>,
     bm_headers = []\<rparr>"

definition sample_binding :: binding where
  "sample_binding =
     \<lparr>b_name = ''B'', b_port_type = qname_local ''P'',
      b_soap_binding = \<lparr>sb_style = Rpc, sb_transport = SOAP_HTTP_TRANSPORT, sb_soap_version = Soap12\<rparr>,
      b_operations = [\<lparr>bo_name = ''Echo'', bo_soap_action = ''urn:e#Echo'',
                       bo_input = sample_message, bo_output = sample_message\<rparr>]\<rparr>"

definition sample_resolved :: resolved_wsdl where
  "sample_resolved =
     \<lparr>rw_definition = (empty_definition ''urn:e'')\<lparr>bindings := [(''B'', sample_binding)]\<rparr>,
      rw_type_registry = registry_new, rw_element_type_map = [], rw_raw_bytes = ''w''\<rparr>"

definition echo_handlers :: "(string, nat soap_handler) hashmap" where
  "echo_handlers = [(''Echo'', demo_handler)]"

lemma sample_ops:
  "collect_ops_for_service None sample_resolved = [(''Echo'', ''urn:e#Echo'', Rpc, Some ''urn:e'')]"
  by (simp add: collect_ops_for_service_def sample_resolved_def empty_definition_def binding_ops_def
      binding_op_info_def sample_binding_def sample_message_def)

definition echo_entry :: "nat dispatch_entry" where
  "echo_entry = \<lparr>handler = demo_handler, auth_required = True,
     input_type = Some (qname_new ''urn:e'' ''Echo''), validation_type = Some (qname_new ''urn:e'' ''Echo'')\<rparr>"

definition echo_table :: "nat dispatch_table" where
  "echo_table =
     \<lparr>by_element = [(qname_new ''urn:e'' ''Echo'', echo_entry)],
      by_action = [(''urn:e#Echo'', echo_entry)], default_handler = None\<rparr>"

lemma echo_build: "build_dispatch_table sample_resolved echo_handlers {} None = Inr echo_table"
  by (simp add: build_dispatch_table_def build_dispatch_table_from_ops_def sample_ops add_operation_def
      operation_handler_def operation_types_def echo_handlers_def echo_table_def echo_entry_def
      hm_get_def hm_insert_def Let_def)

text \<open>What it takes for the input of an operation to be usable.\<close>

definition input_resolvable :: "resolved_wsdl \<Rightarrow> op_info \<Rightarrow> bool" where
  "input_resolvable rw op \<longleftrightarrow>
     (case op of (name, _, style, _) \<Rightarrow>
        style = Rpc \<or>
        (case Option.bind (resolve_input_element rw name) (hm_get (rw_element_type_map rw)) of
           None \<Rightarrow> True
         | Some ty \<Rightarrow> registry_lookup (rw_type_registry rw) ty \<noteq> None))"

lemma operation_types_Inr_iff: "(\<exists>t. operation_types rw op = Inr t) \<longleftrightarrow> input_resolvable rw op"
  by (cases op)
    (auto simp: operation_types_def document_types_def input_resolvable_def Let_def split: option.splits)

lemma entry_of_Inr_iff:
  "(\<exists>e. entry_of rw handlers bypass dflt op = Inr e) \<longleftrightarrow>
     (hm_get handlers (fst op) \<noteq> None \<or> dflt \<noteq> None) \<and> input_resolvable rw op"
proof -
  have "(\<exists>h. operation_handler handlers dflt (fst op) = Inr h) \<longleftrightarrow>
      hm_get handlers (fst op) \<noteq> None \<or> dflt \<noteq> None"
    by (auto simp: operation_handler_def split: option.splits)
  then show ?thesis
    using operation_types_Inr_iff [of rw op] by (fastforce simp: entry_of_def res_simps)
qed

text \<open>
  C14. The table is built exactly when the registration fits the WSDL: every operation has a
  handler or there is a default one, the input type of every operation is known, and every
  registered name is an operation.
\<close>

theorem build_succeeds_iff:
  "(\<exists>t. build_dispatch_table rw handlers bypass dflt = Inr t) \<longleftrightarrow>
     (\<forall>op \<in> set (collect_ops_for_service None rw).
        (hm_get handlers (fst op) \<noteq> None \<or> dflt \<noteq> None) \<and> input_resolvable rw op) \<and>
     set (hm_keys handlers) \<subseteq> fst ` set (collect_ops_for_service None rw)"
  unfolding build_dispatch_table_def build_from_ops_Inr_iff by (simp add: entry_of_Inr_iff)

lemma build_succeeds_iff_witness:
  "\<exists>t. build_dispatch_table sample_resolved echo_handlers {} None = Inr t"
  unfolding build_succeeds_iff
  by (simp add: sample_ops echo_handlers_def input_resolvable_def hm_get_def)

text \<open>A routed entry is that of one of the operations the table was built from.\<close>

lemma routed_from_ops:
  assumes "build_dispatch_table_from_ops ops rw handlers bypass dflt = Inr t" and "route t q action = Inr e"
  obtains op where "op \<in> set ops"
    and "hm_get handlers (fst op) = Some (handler e) \<or>
      hm_get handlers (fst op) = None \<and> dflt = Some (handler e)"
    and "auth_required e \<longleftrightarrow> fst op \<notin> bypass"
    and "input_type e = Some q \<or> action = Some (op_action op)"
proof -
  have sound: "table_sound rw handlers bypass dflt ops (by_element t, by_action t, {})"
    by (rule build_from_ops_sound [OF assms(1)])
  then have els: "\<And>q e. hm_get (by_element t) q = Some e \<Longrightarrow> \<exists>op \<in> set ops.
        entry_of rw handlers bypass dflt op = Inr e \<and> input_type e = Some q"
    and acts: "\<And>a e. hm_get (by_action t) a = Some e \<Longrightarrow> \<exists>op \<in> set ops.
        entry_of rw handlers bypass dflt op = Inr e \<and> op_action op = a"
    unfolding table_sound_def prod.case by blast+
  from assms(2) obtain op where op: "op \<in> set ops"
    "entry_of rw handlers bypass dflt op = Inr e" "input_type e = Some q \<or> action = Some (op_action op)"
    by (rule route_Inr_cases) (use els acts in blast)+
  from entry_of_fields [OF op(2)] have "auth_required e \<longleftrightarrow> fst op \<notin> bypass"
    "hm_get handlers (fst op) = Some (handler e) \<or> hm_get handlers (fst op) = None \<and> dflt = Some (handler e)"
    by (auto simp: operation_handler_def split: option.splits)
  with op show ?thesis using that by blast
qed

text \<open>
  A request is only ever routed to an operation of the WSDL: the entry found has that
  operation's handler, asks for authentication unless the operation is exempt, and was
  found by its input element or its SOAPAction.
\<close>

theorem routed_entry_is_of_an_operation:
  assumes "build_dispatch_table rw handlers bypass dflt = Inr t" and "route t q action = Inr e"
  shows "\<exists>op \<in> set (collect_ops_for_service None rw).
    (hm_get handlers (fst op) = Some (handler e) \<or>
       hm_get handlers (fst op) = None \<and> dflt = Some (handler e)) \<and>
    (auth_required e \<longleftrightarrow> fst op \<notin> bypass) \<and>
    (input_type e = Some q \<or> action = Some (op_action op))"
  using routed_from_ops [OF assms(1) [unfolded build_dispatch_table_def] assms(2)] by metis

lemma routed_entry_is_of_an_operation_witness:
  "\<exists>op \<in> set (collect_ops_for_service None sample_resolved).
    (hm_get echo_handlers (fst op) = Some (handler echo_entry) \<or>
       hm_get echo_handlers (fst op) = None \<and> None = Some (handler echo_entry)) \<and>
    (auth_required echo_entry \<longleftrightarrow> fst op \<notin> {}) \<and>
    (input_type echo_entry = Some (qname_new ''urn:e'' ''Echo'') \<or> None = Some (op_action op))"
  by (rule routed_entry_is_of_an_operation [OF echo_build])
    (simp add: route_def echo_table_def hm_get_def)

lemma operation_is_routed:
  assumes "build_dispatch_table rw handlers bypass dflt = Inr t"
    and "op \<in> set (collect_ops_for_service None rw)"
    and "operation_types rw op = Inr (Some q, val)"
    and "\<forall>op' \<in> set (collect_ops_for_service None rw). op' \<noteq> op \<longrightarrow>
      (\<forall>val'. operation_types rw op' \<noteq> Inr (Some q, val'))"
  shows "\<exists>e. route t q action = Inr e \<and> input_type e = Some q \<and> validation_type e = val \<and>
    operation_handler handlers dflt (fst op) = Inr (handler e) \<and> (auth_required e \<longleftrightarrow> fst op \<notin> bypass)"
proof -
  let ?ops = "collect_ops_for_service None rw"
  note build = assms(1) [unfolded build_dispatch_table_def]
  from build build_from_ops_Inr_iff [of ?ops rw handlers bypass dflt] assms(2)
  obtain e where e: "entry_of rw handlers bypass dflt op = Inr e" by blast
  note fields = entry_of_fields [OF e]
  from fields(3) assms(3) have types: "input_type e = Some q" "validation_type e = val" by simp_all
  obtain pre post where split: "?ops = pre @ op # post" and last: "op \<notin> set post"
    using split_list_last [OF assms(2)] by blast
  have "op_key_free rw handlers bypass dflt q post"
    unfolding op_key_free_def
  proof (intro ballI allI impI)
    fix op' e' assume "op' \<in> set post" "entry_of rw handlers bypass dflt op' = Inr e'"
    with assms(4) last entry_of_fields(3) [of rw handlers bypass dflt op' e'] show "input_type e' \<noteq> Some q"
      unfolding split by (metis Un_iff list.set_intros(2) set_append)
  qed
  from build_from_ops_last [OF build [unfolded split] e types(1) this]
  have "route t q action = Inr e" by (rule route_by_element)
  with types fields show ?thesis by blast
qed

text \<open>
  C13. Every operation can be reached: in a built table, a body whose first element is the
  input element of an operation that shares it with no other is routed to that operation's
  own handler, whatever the SOAPAction says.
\<close>

theorem every_operation_is_routed:
  assumes "build_dispatch_table rw handlers bypass dflt = Inr t"
    and "op \<in> set (collect_ops_for_service None rw)"
    and "operation_types rw op = Inr (Some q, val)"
    and "\<forall>op' \<in> set (collect_ops_for_service None rw). op' \<noteq> op \<longrightarrow>
      (\<forall>val'. operation_types rw op' \<noteq> Inr (Some q, val'))"
  shows "\<exists>e. route t q action = Inr e \<and> input_type e = Some q \<and> validation_type e = val \<and>
    operation_handler handlers dflt (fst op) = Inr (handler e) \<and> (auth_required e \<longleftrightarrow> fst op \<notin> bypass)"
  using assms by (rule operation_is_routed)

lemma every_operation_is_routed_witness:
  "\<exists>e. route echo_table (qname_new ''urn:e'' ''Echo'') (Some ''other'') = Inr e \<and>
    input_type e = Some (qname_new ''urn:e'' ''Echo'') \<and>
    validation_type e = Some (qname_new ''urn:e'' ''Echo'') \<and>
    operation_handler echo_handlers None ''Echo'' = Inr (handler e) \<and> (auth_required e \<longleftrightarrow> ''Echo'' \<notin> {})"
  using every_operation_is_routed [OF echo_build, of "(''Echo'', ''urn:e#Echo'', Rpc, Some ''urn:e'')"
      "qname_new ''urn:e'' ''Echo''" "Some (qname_new ''urn:e'' ''Echo'')"]
  by (simp add: sample_ops operation_types_def Let_def)

text \<open>
  C12. Validation accepts a request body exactly when each required element of its type is
  among the children of the body's root, and otherwise names a missing one.
\<close>

theorem validation_accepts_iff_required_present:
  assumes "tok True body = events (XElem res n as cs)" and "names_utf8 cs"
    and "registry_lookup reg q = Some ty"
  shows "(validate_request tok body reg (Some q) = Inr () \<longleftrightarrow>
      set (collect_required_element_names ty) \<subseteq> child_names cs) \<and>
    (\<forall>f. validate_request tok body reg (Some q) = Inl f \<longrightarrow>
      (\<exists>m \<in> set (collect_required_element_names ty). m \<notin> child_names cs \<and> f = missing_element m))"
proof (cases "find (\<lambda>x. x \<notin> child_names cs) (collect_required_element_names ty)")
  case None
  then have "set (collect_required_element_names ty) \<subseteq> child_names cs"
    by (auto simp: find_None_iff)
  with None validate_request_tree [of tok, OF assms] show ?thesis by simp
next
  case (Some m)
  then have "m \<in> set (collect_required_element_names ty)" "m \<notin> child_names cs"
    by (auto dest: find_SomeD)
  with Some validate_request_tree [of tok, OF assms] show ?thesis by auto
qed

definition id_type :: xsd_type where
  "id_type = Complex (ComplexType None (Sequence [named_element ''id'' 1]) [])"

lemma validation_accepts_iff_required_present_witness:
  "validate_request (\<lambda>_ _. events (XElem Unbound ''r'' [] [XEmpty Unbound ''t:id'' []])) ''x''
     (registry_insert (qname_local ''T'') id_type registry_new) (Some (qname_local ''T'')) = Inr ()"
  using validation_accepts_iff_required_present
    [of "\<lambda>_ _. events (XElem Unbound ''r'' [] [XEmpty Unbound ''t:id'' []])" "''x''" Unbound "''r''" "[]"
      "[XEmpty Unbound ''t:id'' []]" "registry_insert (qname_local ''T'') id_type registry_new"
      "qname_local ''T''" id_type]
  by (simp add: names_utf8_def child_names_def local_part_def utf8_valid_ascii is_ascii_def byte_def
      id_type_def named_element_def map_filter_def)

text \<open>
  A derived type asks for everything its base asks for: the required elements of the
  base of an extension are required by the extension.
\<close>

theorem extension_requires_base_elements:
  assumes "hm_get (ft_types flat) q = Some (Complex raw)" and "ct_content raw = ComplexExtension base child"
    and "resolves_type flat q ct" and "resolves_type flat base b"
  shows "set (collect_required_element_names (Complex b)) \<subseteq> set (collect_required_element_names (Complex ct))"
proof -
  obtain own where "ct_content ct = Sequence (extract_elements (ct_content b) @ own)"
    using resolves_extension [OF assms] by blast
  then show ?thesis
    using resolved_content_flat(1) [OF assms(4)]
    by (cases "ct_content b") (auto simp: required_Sequence required_of_append map_filter_def required_of_def)
qed

lemma sample_flat_types:
  "resolves_type sample_flat (qname_local ''Base'') (ComplexType None (Sequence [named_element ''id'' 1]) [])"
  "resolves_type sample_flat (qname_local ''Derived'')
     (ComplexType None (Sequence [named_element ''id'' 1, named_element ''note'' 0]) [])"
proof -
  show base: "resolves_type sample_flat (qname_local ''Base'') (ComplexType None (Sequence [named_element ''id'' 1]) [])"
    using rt_complex [of sample_flat "qname_local ''Base''" "ComplexType None (Sequence [named_element ''id'' 1]) []"]
    by (simp add: sample_flat_def hm_get_def named_element_def)
  have "resolves_content sample_flat
      (ComplexExtension (qname_local ''Base'') (Sequence [named_element ''note'' 0]))
      (Sequence [named_element ''id'' 1, named_element ''note'' 0])"
    using rc_extension [OF base, of "Sequence [named_element ''note'' 0]" "Sequence [named_element ''note'' 0]"]
    by (simp add: named_element_def)
  then show "resolves_type sample_flat (qname_local ''Derived'')
     (ComplexType None (Sequence [named_element ''id'' 1, named_element ''note'' 0]) [])"
    using rt_complex [of sample_flat "qname_local ''Derived''" "ComplexType None
        (ComplexExtension (qname_local ''Base'') (Sequence [named_element ''note'' 0])) []"]
    by (simp add: sample_flat_def hm_get_def del: resolves_content_simps)
qed

lemma extension_requires_base_elements_witness:
  "set (collect_required_element_names (Complex (ComplexType None (Sequence [named_element ''id'' 1]) []))) \<subseteq>
   set (collect_required_element_names
     (Complex (ComplexType None (Sequence [named_element ''id'' 1, named_element ''note'' 0]) [])))"
  using extension_requires_base_elements [OF _ _ sample_flat_types(2,1),
      of "ComplexType None (ComplexExtension (qname_local ''Base'') (Sequence [named_element ''note'' 0])) []"]
  by (simp add: sample_flat_def hm_get_def)

text \<open>
  Extending a type whose content is a choice makes every branch of the choice required:
  the base asks for none of its branches, the derived type for all that have a minimal
  occurrence.
\<close>

theorem extension_of_choice_requires_all_branches:
  assumes "hm_get (ft_types flat) q = Some (Complex raw)" and "ct_content raw = ComplexExtension base child"
    and "resolves_type flat q ct" and "resolves_type flat base b" and "ct_content b = Choice els"
    and "el \<in> set els" and "0 < el_min_occurs el" and "el_name el = Some n"
  shows "n \<in> set (collect_required_element_names (Complex ct)) \<and>
    collect_required_element_names (Complex b) = []"
proof -
  obtain own where "ct_content ct = Sequence (els @ own)"
    using resolves_extension [OF assms(1-4)] assms(5) by auto
  with assms(5) required_of_member [OF assms(6-8)] show ?thesis
    by (simp add: required_Sequence required_of_append del: collect_required_from_content.simps(1))
qed

definition choice_flat :: flat_type_map where
  "choice_flat = empty_flat\<lparr>ft_types :=
     [(qname_local ''Base'', Complex (ComplexType None (Choice [named_element ''a'' 1, named_element ''b'' 1]) [])),
      (qname_local ''Derived'', Complex (ComplexType None
         (ComplexExtension (qname_local ''Base'') EmptyContent) []))]\<rparr>"

lemma extension_of_choice_requires_all_branches_witness:
  "''b'' \<in> set (collect_required_element_names
     (Complex (ComplexType None (Sequence [named_element ''a'' 1, named_element ''b'' 1]) [])))"
proof -
  let ?b = "ComplexType None (Choice [named_element ''a'' 1, named_element ''b'' 1]) []"
  have base: "resolves_type choice_flat (qname_local ''Base'') ?b"
    using rt_complex [of choice_flat "qname_local ''Base''" ?b]
    by (simp add: choice_flat_def hm_get_def named_element_def)
  have "resolves_content choice_flat (ComplexExtension (qname_local ''Base'') EmptyContent)
      (Sequence [named_element ''a'' 1, named_element ''b'' 1])"
    using rc_extension [OF base rc_empty] by (simp del: resolves_content_simps)
  then have derived: "resolves_type choice_flat (qname_local ''Derived'')
      (ComplexType None (Sequence [named_element ''a'' 1, named_element ''b'' 1]) [])"
    using rt_complex [of choice_flat "qname_local ''Derived''"
        "ComplexType None (ComplexExtension (qname_local ''Base'') EmptyContent) []"]
    by (simp add: choice_flat_def hm_get_def del: resolves_content_simps)
  show ?thesis
    using extension_of_choice_requires_all_branches [OF _ _ derived base, where el = "named_element ''b'' 1"]
    by (simp add: choice_flat_def hm_get_def named_element_def)
qed

text \<open>
  A wildcard cannot be satisfied: when a sequence holds an \<open>xs:any\<close> without
  \<open>minOccurs\<close>, every body is refused in which no child is literally named \<open>__any__\<close>.
\<close>

theorem wildcard_rejects_bodies:
  assumes "registry_lookup reg q = Some (Complex (visit_complex_type
      (xs_node ''complexType'' as [xs_node ''sequence'' as1 [xs_node ''any'' as2 []]])))"
    and "node_attribute (xs_node ''any'' as2 []) ''minOccurs'' = None"
    and "tok True body = events (XElem res n as3 cs)" and "names_utf8 cs" and "any_marker \<notin> child_names cs"
  shows "validate_request tok body reg (Some q) = Inl (missing_element any_marker)"
proof -
  have "visit_particle_children (xs_node ''sequence'' as1 [xs_node ''any'' as2 []]) =
      [any_as_element (visit_any (xs_node ''any'' as2 []))]"
    by (subst visit_particle_children.simps) simp
  moreover have "parse_min_occurs (xs_node ''any'' as2 []) = 1"
    using assms(2) by (simp add: parse_min_occurs_def parse_u64_attr_def)
  ultimately have "collect_required_element_names (Complex (visit_complex_type
      (xs_node ''complexType'' as [xs_node ''sequence'' as1 [xs_node ''any'' as2 []]]))) = [any_marker]"
    by (simp add: visit_complex_type.simps any_as_element_def visit_any_def map_filter_def)
  with validate_request_tree [of tok, OF assms(3,4,1)] assms(5) show ?thesis by simp
qed

lemma wildcard_rejects_bodies_witness:
  "validate_request (\<lambda>_ _. events (XElem Unbound ''r'' [] [XEmpty Unbound ''x'' []])) ''b''
     (registry_insert (qname_local ''T'') (Complex (visit_complex_type
        (xs_node ''complexType'' [] [xs_node ''sequence'' [] [xs_node ''any'' [] []]]))) registry_new)
     (Some (qname_local ''T'')) = Inl (missing_element any_marker)"
  by (rule wildcard_rejects_bodies [where as = "[]" and ?as1.0 = "[]" and ?as2.0 = "[]" and ?as3.0 = "[]"
        and res = Unbound and n = "''r''" and cs = "[XEmpty Unbound ''x'' []]"])
    (simp_all add: node_attribute_def names_utf8_def child_names_def local_part_def any_marker_def
      utf8_valid_ascii is_ascii_def byte_def)

end
