(* ===== verification/Server.thy ===== *)
theory Server
  imports UsernameToken Envelope Dispatch
begin

text \<open>
  \<open>src/src/server.rs\<close>: the builder, the service it produces, its routes and the request
  handlers. A POST reads and changes two states, the shared nonce cache and the
  application's own state \<open>'s\<close>; its result is a response or the abort of the request by a
  panic, and \<open>None\<close> when it does not return. HTTP, the file system, the XML libraries and
  Unicode lower-casing are gathered in \<open>server_lib\<close>.
\<close>

section \<open>Surroundings\<close>

text \<open>Paths as the components that \<open>Path::components\<close> yields on Unix.\<close>

datatype path_component = RootDir | CurDir | ParentDir | Normal string

type_synonym path = "path_component list"

record server_lib =
  sl_wss :: wss_lib
  sl_esc :: "string \<Rightarrow> string"
  sl_write :: "event list \<Rightarrow> bytes"
  sl_rox :: rox_parser
  sl_read_file :: "path \<Rightarrow> string + bytes"
  sl_lowercase :: "string \<Rightarrow> string"

definition sl_tok :: "server_lib \<Rightarrow> tokenizer" where
  "sl_tok lib = wl_tok (sl_wss lib)"

text \<open>
  A header map, asked for a name: the first value of that name, none when its bytes are not
  visible ASCII.
\<close>

type_synonym headers = "string \<Rightarrow> string option option"

definition header_str :: "string option option \<Rightarrow> string option" where
  "header_str v = Option.bind v id"

record response =
  status :: nat
  content_type :: "string option"
  resp_body :: bytes

datatype outcome = Respond response | Aborted

section \<open>Paths and loaders\<close>

fun split_slash :: "string \<Rightarrow> string \<Rightarrow> string list" where
  "split_slash acc [] = [rev acc]"
| "split_slash acc (c # cs) =
     (if c = CHR ''/'' then rev acc # split_slash [] cs else split_slash (c # acc) cs)"

definition component_of :: "string \<Rightarrow> path_component" where
  "component_of s = (if s = ''..'' then ParentDir else Normal s)"

definition components :: "string \<Rightarrow> path" where
  "components s =
     (let pieces = split_slash [] s;
          lead = (if starts_with ''/'' s then [RootDir]
                  else if hd pieces = ''.'' then [CurDir] else [])
      in lead @ map component_of (filter (\<lambda>p. p \<noteq> [] \<and> p \<noteq> ''.'') pieces))"

definition path_join :: "path \<Rightarrow> string \<Rightarrow> path" where
  "path_join base loc =
     (if starts_with ''/'' loc then components loc
      else if base = [] then components loc
      else base @ filter (\<lambda>c. c \<noteq> CurDir) (components loc))"

definition path_parent :: "path \<Rightarrow> path option" where
  "path_parent p = (if p = [] \<or> last p = RootDir then None else Some (butlast p))"

definition path_push :: "path \<Rightarrow> path_component \<Rightarrow> path" where
  "path_push p c = (if c = RootDir then [RootDir] else p @ [c])"

definition path_pop :: "path \<Rightarrow> path" where
  "path_pop p = (case path_parent p of Some q \<Rightarrow> q | None \<Rightarrow> p)"

definition normalize_path :: "path \<Rightarrow> path" where
  "normalize_path p =
     foldl (\<lambda>n c. case c of ParentDir \<Rightarrow> path_pop n | CurDir \<Rightarrow> n | other \<Rightarrow> path_push n other) [] p"

fun component_str :: "path_component \<Rightarrow> string" where
  "component_str RootDir = []"
| "component_str CurDir = ''.''"
| "component_str ParentDir = ''..''"
| "component_str (Normal s) = s"

fun path_display :: "path \<Rightarrow> string" where
  "path_display [] = []"
| "path_display [c] = (if c = RootDir then ''/'' else component_str c)"
| "path_display (c # cs) = component_str c @ ''/'' @ path_display cs"

definition quoted :: "string \<Rightarrow> string" where
  "quoted s = [CHR 0x27] @ s @ [CHR 0x27]"

definition noop_loader :: wsdl_loader where
  "noop_loader loc =
     Inl (MalformedXml (''External WSDL import '' @ quoted loc @ '' not supported in embedded mode''))"

definition file_wsdl_loader :: "(path \<Rightarrow> string + bytes) \<Rightarrow> path \<Rightarrow> wsdl_loader" where
  "file_wsdl_loader read base_dir loc =
     (let p = normalize_path (path_join base_dir loc) in
      map_err (\<lambda>e. MalformedXml (''Failed to load WSDL import '' @ quoted loc @ '' from '' @
                      quoted (path_display p) @ '': '' @ e))
        (read p))"

definition extract_path_from_url :: "string \<Rightarrow> string" where
  "extract_path_from_url url =
     (case split_once_str ''://'' url of
        Some (_, after_scheme) \<Rightarrow>
          (let rest = dropWhile (\<lambda>c. c \<noteq> CHR ''/'') after_scheme
           in if rest = [] then ''/'' else rest)
      | None \<Rightarrow> if starts_with ''/'' url then url else ''/'' @ url)"

section \<open>The builder\<close>

definition DEFAULT_NONCE_CACHE_HALF_WINDOW_SECS :: nat where
  "DEFAULT_NONCE_CACHE_HALF_WINDOW_SECS = 150"

definition DEFAULT_TIMESTAMP_TOLERANCE_SECS :: int where
  "DEFAULT_TIMESTAMP_TOLERANCE_SECS = 300"

definition DEFAULT_MAX_BODY_BYTES :: nat where
  "DEFAULT_MAX_BODY_BYTES = 2 * 1024 * 1024"

type_synonym auth_fn = "(string \<Rightarrow> string option) option"

record 's server_builder =
  sb_wsdl_bytes :: "bytes option"
  sb_wsdl_path :: "path option"
  sb_custom_loader :: "wsdl_loader option"
  sb_handlers :: "(string, 's soap_handler) hashmap"
  sb_default_handler :: "'s soap_handler option"
  sb_auth_fn :: auth_fn
  sb_auth_bypass :: "string set"
  sb_mount_path :: string
  sb_timestamp_tolerance_secs :: int
  sb_nonce_cache_half_window_secs :: nat
  sb_max_body_bytes :: nat

definition builder_new :: "'s server_builder" where
  "builder_new =
     \<lparr>sb_wsdl_bytes = None, sb_wsdl_path = None, sb_custom_loader = None, sb_handlers = [],
      sb_default_handler = None, sb_auth_fn = None, sb_auth_bypass = {}, sb_mount_path = ''/soap'',
      sb_timestamp_tolerance_secs = DEFAULT_TIMESTAMP_TOLERANCE_SECS,
      sb_nonce_cache_half_window_secs = DEFAULT_NONCE_CACHE_HALF_WINDOW_SECS,
      sb_max_body_bytes = DEFAULT_MAX_BODY_BYTES\<rparr>"

definition from_wsdl_file :: "path \<Rightarrow> 's server_builder" where
  "from_wsdl_file p = builder_new\<lparr>sb_wsdl_path := Some p\<rparr>"

definition from_wsdl_bytes :: "bytes \<Rightarrow> 's server_builder" where
  "from_wsdl_bytes b = builder_new\<lparr>sb_wsdl_bytes := Some b\<rparr>"

definition from_wsdl_bytes_with_loader :: "bytes \<Rightarrow> wsdl_loader \<Rightarrow> 's server_builder" where
  "from_wsdl_bytes_with_loader b loader =
     builder_new\<lparr>sb_wsdl_bytes := Some b, sb_custom_loader := Some loader\<rparr>"

definition with_handler :: "string \<Rightarrow> 's soap_handler \<Rightarrow> 's server_builder \<Rightarrow> 's server_builder" where
  "with_handler op h b = b\<lparr>sb_handlers := hm_insert op h (sb_handlers b)\<rparr>"

definition with_default_handler :: "'s soap_handler \<Rightarrow> 's server_builder \<Rightarrow> 's server_builder" where
  "with_default_handler h b = b\<lparr>sb_default_handler := Some h\<rparr>"

definition with_auth :: "(string \<Rightarrow> string option) \<Rightarrow> 's server_builder \<Rightarrow> 's server_builder" where
  "with_auth f b = b\<lparr>sb_auth_fn := Some f\<rparr>"

definition with_auth_bypass :: "string list \<Rightarrow> 's server_builder \<Rightarrow> 's server_builder" where
  "with_auth_bypass ops b = b\<lparr>sb_auth_bypass := fold insert ops (sb_auth_bypass b)\<rparr>"

definition with_path :: "string \<Rightarrow> 's server_builder \<Rightarrow> 's server_builder" where
  "with_path p b = b\<lparr>sb_mount_path := p\<rparr>"

definition with_timestamp_tolerance_secs :: "int \<Rightarrow> 's server_builder \<Rightarrow> 's server_builder" where
  "with_timestamp_tolerance_secs s b = b\<lparr>sb_timestamp_tolerance_secs := s\<rparr>"

definition with_max_body_bytes :: "nat \<Rightarrow> 's server_builder \<Rightarrow> 's server_builder" where
  "with_max_body_bytes n b = b\<lparr>sb_max_body_bytes := n\<rparr>"

section \<open>The service and its construction\<close>

record 's soap_service =
  svc_dispatch_table :: "'s dispatch_table"
  svc_service_tables :: "(string, 's dispatch_table) hashmap"
  svc_service_path_names :: "(string, string) hashmap"
  svc_type_registry :: type_registry
  svc_wsdl_raw :: bytes
  svc_auth_fn :: auth_fn
  svc_nonce_cache :: nonce_cache
  svc_timestamp_tolerance_secs :: int
  svc_mount_path :: string
  svc_max_body_bytes :: nat

datatype build_error =
    MissingWsdl
  | WsdlIo string
  | WsdlParse string
  | BuildUnregisteredOperation string
  | BuildUnknownOperation string
  | UnknownService string

fun build_error_of :: "dispatch_error \<Rightarrow> build_error" where
  "build_error_of (UnregisteredOperation op) = BuildUnregisteredOperation op"
| "build_error_of (UnknownOperation op) = BuildUnknownOperation op"
| "build_error_of (UnresolvableInputType op el ty) =
     WsdlParse (''Operation '' @ quoted op @ '' input element '' @ quoted el @
       '' references unresolvable type '' @ quoted ty)"

text \<open>The names of the operations bound to the ports of a service.\<close>

definition service_op_names :: "resolved_wsdl \<Rightarrow> service \<Rightarrow> string list" where
  "service_op_names rw s =
     concat (map (\<lambda>p.
       case hm_get (bindings (rw_definition rw)) (local_name (port_binding p)) of
         Some b \<Rightarrow> map bo_name (b_operations b)
       | None \<Rightarrow> []) (ports s))"

definition lookup_service :: "resolved_wsdl \<Rightarrow> string \<Rightarrow> build_error + service" where
  "lookup_service rw name = ok_or (UnknownService name) (hm_get (services (rw_definition rw)) name)"

definition select_handlers ::
  "(string, 's soap_handler) hashmap \<Rightarrow> string list \<Rightarrow> (string, 's soap_handler) hashmap" where
  "select_handlers handlers names =
     fold (\<lambda>n m. case hm_get handlers n of Some h \<Rightarrow> hm_insert n h m | None \<Rightarrow> m) names []"

definition service_path :: "server_lib \<Rightarrow> service \<Rightarrow> string \<Rightarrow> string" where
  "service_path lib s name =
     (case ports s of
        p # _ \<Rightarrow> extract_path_from_url (port_address p)
      | [] \<Rightarrow> ''/'' @ sl_lowercase lib name)"

type_synonym 's service_maps = "(string, 's dispatch_table) hashmap \<times> (string, string) hashmap"

definition add_service ::
  "server_lib \<Rightarrow> 's server_builder \<Rightarrow> resolved_wsdl \<Rightarrow> string \<Rightarrow> 's service_maps \<Rightarrow>
   build_error + 's service_maps" where
  "add_service lib b rw name maps =
     (case maps of (tables, names) \<Rightarrow>
        res_bind (lookup_service rw name) (\<lambda>s.
        res_bind
          (map_err build_error_of
            (build_dispatch_table_for_service name rw
              (select_handlers (sb_handlers b) (service_op_names rw s))
              (sb_auth_bypass b) (sb_default_handler b))) (\<lambda>t.
        let p = service_path lib s name in Inr (hm_insert p t tables, hm_insert p name names))))"

definition build_service_tables ::
  "server_lib \<Rightarrow> 's server_builder \<Rightarrow> resolved_wsdl \<Rightarrow> string list \<Rightarrow>
   build_error + ('s dispatch_table \<times> 's service_maps)" where
  "build_service_tables lib b rw service_names =
     res_bind (res_map (lookup_service rw) service_names) (\<lambda>svcs.
     let all_ops = set (concat (map (service_op_names rw) svcs)) in
     case find (\<lambda>h. h \<notin> all_ops) (hm_keys (sb_handlers b)) of
       Some h \<Rightarrow> Inl (BuildUnknownOperation h)
     | None \<Rightarrow>
         res_bind (res_fold (add_service lib b rw) service_names ([], [])) (\<lambda>(tables, names).
         Inr (case hm_values tables of t # _ \<Rightarrow> t | [] \<Rightarrow> dispatch_empty, tables, names)))"

definition build_tables ::
  "server_lib \<Rightarrow> 's server_builder \<Rightarrow> resolved_wsdl \<Rightarrow>
   build_error + ('s dispatch_table \<times> 's service_maps)" where
  "build_tables lib b rw =
     (let service_names = hm_keys (services (rw_definition rw)) in
      if 1 < length service_names then build_service_tables lib b rw service_names
      else
        res_bind (map_err build_error_of
                   (build_dispatch_table rw (sb_handlers b) (sb_auth_bypass b) (sb_default_handler b)))
          (\<lambda>t. Inr (t, [], [])))"

definition load_wsdl :: "server_lib \<Rightarrow> 's server_builder \<Rightarrow> build_error + (bytes \<times> path option)" where
  "load_wsdl lib b =
     (case sb_wsdl_bytes b of
        Some bytes \<Rightarrow> Inr (bytes, None)
      | None \<Rightarrow>
          (case sb_wsdl_path b of
             Some p \<Rightarrow> res_bind (map_err WsdlIo (sl_read_file lib p)) (\<lambda>bytes. Inr (bytes, Some p))
           | None \<Rightarrow> Inl MissingWsdl))"

definition select_loader :: "server_lib \<Rightarrow> 's server_builder \<Rightarrow> path option \<Rightarrow> wsdl_loader" where
  "select_loader lib b file =
     (case sb_custom_loader b of
        Some l \<Rightarrow> l
      | None \<Rightarrow>
          (case file of
             Some p \<Rightarrow>
               file_wsdl_loader (sl_read_file lib)
                 (case path_parent p of Some d \<Rightarrow> d | None \<Rightarrow> [CurDir])
           | None \<Rightarrow> noop_loader))"

definition build :: "server_lib \<Rightarrow> nat \<Rightarrow> 's server_builder \<Rightarrow> (build_error + 's soap_service) option" where
  "build lib inst b =
     (case load_wsdl lib b of
        Inl e \<Rightarrow> Some (Inl e)
      | Inr (bytes, file) \<Rightarrow>
          map_option (\<lambda>r.
            res_bind (map_err (\<lambda>e. WsdlParse (wsdl_error_to_string e)) r) (\<lambda>(rw, _).
            res_bind (build_tables lib b rw) (\<lambda>(t, tables, names).
            Inr \<lparr>svc_dispatch_table = t, svc_service_tables = tables,
                 svc_service_path_names = names, svc_type_registry = rw_type_registry rw,
                 svc_wsdl_raw = bytes, svc_auth_fn = sb_auth_fn b,
                 svc_nonce_cache = nonce_cache_new inst (sb_nonce_cache_half_window_secs b),
                 svc_timestamp_tolerance_secs = sb_timestamp_tolerance_secs b,
                 svc_mount_path = sb_mount_path b, svc_max_body_bytes = sb_max_body_bytes b\<rparr>)))
            (resolve_wsdl (sl_rox lib) (select_loader lib b file) bytes {}))"

section \<open>Routes\<close>

text \<open>The two kinds of route: the whole service, or one table with its service's name.\<close>

datatype 's endpoint = SingleEndpoint | ServiceEndpoint "'s dispatch_table" string

record 's router =
  routes :: "(string \<times> 's endpoint) list"
  body_limit :: nat

definition into_router :: "'s soap_service \<Rightarrow> 's router" where
  "into_router svc =
     (if svc_service_tables svc \<noteq> [] then
        \<lparr>routes =
           map (\<lambda>(p, t).
             (p, ServiceEndpoint t
                   (case hm_get (svc_service_path_names svc) p of Some n \<Rightarrow> n | None \<Rightarrow> [])))
             (svc_service_tables svc),
         body_limit = svc_max_body_bytes svc\<rparr>
      else
        \<lparr>routes = [(svc_mount_path svc, SingleEndpoint)], body_limit = svc_max_body_bytes svc\<rparr>)"

section \<open>Answering a POST\<close>

definition fault_response :: "server_lib \<Rightarrow> soap_fault \<Rightarrow> soap_version \<Rightarrow> response" where
  "fault_response lib f v =
     \<lparr>status = 500, content_type = Some (response_content_type v),
      resp_body = to_xml_bytes_versioned (sl_esc lib) f v\<rparr>"

definition resolved_qname :: "resolved \<Rightarrow> tag \<Rightarrow> soap_fault + qname" where
  "resolved_qname res e =
     (let l = local_part (tag_name e) in
      res_bind (ok_or (sender (''Invalid UTF-8 in element name: '' @ utf8_error l)) (from_utf8 l)) (\<lambda>loc.
      res_bind
        (case res of
           Bound ns \<Rightarrow> ok_or (sender (''Invalid UTF-8 in namespace: '' @ utf8_error ns)) (from_utf8 ns)
         | _ \<Rightarrow> Inr []) (\<lambda>ns.
      Inr (if ns = [] then qname_local loc else qname_new ns loc))))"

fun body_qname_loop :: "reader \<Rightarrow> soap_fault + qname" where
  "body_qname_loop [] = Inl (sender ''Empty SOAP Body element'')"
| "body_qname_loop (Inl e # r) = Inl (sender (''XML parse error in body: '' @ e))"
| "body_qname_loop (Inr (res, ev) # r) =
     (case ev of
        EvEof \<Rightarrow> Inl (sender ''Empty SOAP Body element'')
      | EvStart e \<Rightarrow> resolved_qname res e
      | EvEmpty e \<Rightarrow> resolved_qname res e
      | _ \<Rightarrow> body_qname_loop r)"

definition extract_body_qname :: "tokenizer \<Rightarrow> bytes \<Rightarrow> soap_fault + qname" where
  "extract_body_qname tok body = body_qname_loop (tok True body)"

definition is_security :: "resolved \<Rightarrow> tag \<Rightarrow> bool" where
  "is_security res e \<longleftrightarrow>
     utf8_or_empty (local_part (tag_name e)) = ''Security'' \<and>
     (case res of Bound ns \<Rightarrow> utf8_or_empty ns = WSSE_NS | _ \<Rightarrow> False)"

fun security_root :: "reader \<Rightarrow> bool" where
  "security_root [] = False"
| "security_root (Inl e # r) = False"
| "security_root (Inr (res, ev) # r) =
     (case ev of
        EvStart e \<Rightarrow> is_security res e
      | EvEmpty e \<Rightarrow> is_security res e
      | EvEof \<Rightarrow> False
      | _ \<Rightarrow> security_root r)"

definition find_security_header :: "tokenizer \<Rightarrow> bytes list \<Rightarrow> bytes option" where
  "find_security_header tok children = find (\<lambda>c. security_root (tok True c)) children"

definition request_soap_action :: "headers \<Rightarrow> string option" where
  "request_soap_action h =
     map_option (trim_matches CHR 0x22)
       (header_str (case h ''soapaction'' of Some v \<Rightarrow> Some v | None \<Rightarrow> h ''SOAPAction''))"

definition request_content_type :: "headers \<Rightarrow> string" where
  "request_content_type h = (case header_str (h ''content-type'') of Some c \<Rightarrow> c | None \<Rightarrow> [])"

text \<open>Steps 1 to 4 of a POST: version, envelope, body name, route. \<open>Inl\<close> answers at once.\<close>

definition open_request ::
  "server_lib \<Rightarrow> 's dispatch_table \<Rightarrow> headers \<Rightarrow> bytes \<Rightarrow> response + (parsed_envelope \<times> 's dispatch_entry)" where
  "open_request lib table h body =
     res_bind (map_err (\<lambda>f. fault_response lib f Soap12)
                (detect_soap_version (request_content_type h))) (\<lambda>soap_version.
     res_bind (map_err (\<lambda>f. fault_response lib f soap_version)
                (parse_envelope (sl_tok lib) body)) (\<lambda>envelope.
     res_bind (map_err (\<lambda>f. fault_response lib f (env_soap_version envelope))
                (extract_body_qname (sl_tok lib) (body_element envelope))) (\<lambda>body_qname.
     res_bind (map_err (\<lambda>f. fault_response lib f (env_soap_version envelope))
                (route table body_qname (request_soap_action h))) (\<lambda>entry.
     Inr (envelope, entry)))))"

text \<open>Step 5: the token of a request to an operation that needs one.\<close>

definition authenticate ::
  "server_lib \<Rightarrow> 's soap_service \<Rightarrow> parsed_envelope \<Rightarrow> 's dispatch_entry \<Rightarrow> int \<Rightarrow> nat \<Rightarrow> nonce_cache \<Rightarrow>
   ((outcome + unit) \<times> nonce_cache) option" where
  "authenticate lib svc envelope entry now inst cache =
     (let refuse = (\<lambda>f. Inl (Respond (fault_response lib f (env_soap_version envelope)))) in
      if auth_required entry \<and> svc_auth_fn svc \<noteq> None then
        (case find_security_header (sl_tok lib) (header_children envelope) of
           None \<Rightarrow> Some (refuse (sender ''WS-Security header required but not provided''), cache)
         | Some security \<Rightarrow>
             (case svc_auth_fn svc of
                None \<Rightarrow>
                  Some (refuse (sender ''Authentication required but no credential store configured''), cache)
              | Some auth \<Rightarrow>
                  (case validate_username_token (sl_wss lib) security auth cache
                          (svc_timestamp_tolerance_secs svc) now inst of
                     None \<Rightarrow> None
                   | Some (Inl (Fault f), cache') \<Rightarrow> Some (refuse f, cache')
                   | Some (Inl Panic, cache') \<Rightarrow> Some (Inl Aborted, cache')
                   | Some (Inr _, cache') \<Rightarrow> Some (Inr (), cache'))))
      else Some (Inr (), cache))"

text \<open>Steps 6 to 8: validation of the body, the handler, the response envelope.\<close>

definition invoke ::
  "server_lib \<Rightarrow> 's soap_service \<Rightarrow> parsed_envelope \<Rightarrow> 's dispatch_entry \<Rightarrow> 's \<Rightarrow> response \<times> 's" where
  "invoke lib svc envelope entry s =
     (let v = env_soap_version envelope in
      case validate_request (sl_tok lib) (body_element envelope) (svc_type_registry svc)
             (validation_type entry) of
        Inl f \<Rightarrow> (fault_response lib f v, s)
      | Inr _ \<Rightarrow>
          (case handle_with_headers (handler entry) (body_element envelope) (header_children envelope) s of
             (Inl f, s') \<Rightarrow> (fault_response lib f v, s')
           | (Inr response_body, s') \<Rightarrow>
               (\<lparr>status = 200, content_type = Some (response_content_type v),
                 resp_body = serialize_envelope response_body v\<rparr>, s')))"

definition soap_post_handler ::
  "server_lib \<Rightarrow> 's soap_service \<Rightarrow> headers \<Rightarrow> bytes \<Rightarrow> int \<Rightarrow> nat \<Rightarrow> nonce_cache \<times> 's \<Rightarrow>
   (outcome \<times> nonce_cache \<times> 's) option" where
  "soap_post_handler lib svc h body now inst st =
     (case (st, open_request lib (svc_dispatch_table svc) h body) of
        ((cache, s), Inl r) \<Rightarrow> Some (Respond r, cache, s)
      | ((cache, s), Inr (envelope, entry)) \<Rightarrow>
          (case authenticate lib svc envelope entry now inst cache of
             None \<Rightarrow> None
           | Some (Inl out, cache') \<Rightarrow> Some (out, cache', s)
           | Some (Inr _, cache') \<Rightarrow>
               (case invoke lib svc envelope entry s of (r, s') \<Rightarrow> Some (Respond r, cache', s'))))"

text \<open>The state of one route in multi-service mode.\<close>

record 's soap_service_route =
  rt_svc :: "'s soap_service"
  rt_table :: "'s dispatch_table"
  rt_service_name :: string

definition soap_post_handler_for_route ::
  "server_lib \<Rightarrow> 's soap_service_route \<Rightarrow> headers \<Rightarrow> bytes \<Rightarrow> int \<Rightarrow> nat \<Rightarrow> nonce_cache \<times> 's \<Rightarrow>
   (outcome \<times> nonce_cache \<times> 's) option" where
  "soap_post_handler_for_route lib rt h body now inst st =
     (let svc = rt_svc rt; table = rt_table rt in
      case (st, open_request lib table h body) of
        ((cache, s), Inl r) \<Rightarrow> Some (Respond r, cache, s)
      | ((cache, s), Inr (envelope, entry)) \<Rightarrow>
          (case authenticate lib svc envelope entry now inst cache of
             None \<Rightarrow> None
           | Some (Inl out, cache') \<Rightarrow> Some (out, cache', s)
           | Some (Inr _, cache') \<Rightarrow>
               (case invoke lib svc envelope entry s of (r, s') \<Rightarrow> Some (Respond r, cache', s'))))"

section \<open>Serving the WSDL\<close>

definition not_found :: response where
  "not_found = \<lparr>status = 404, content_type = None, resp_body = []\<rparr>"

definition server_url :: "'s soap_service \<Rightarrow> string option \<Rightarrow> headers \<Rightarrow> string" where
  "server_url svc matched_path h =
     (let host = (case header_str (case h ''x-forwarded-host'' of Some v \<Rightarrow> Some v | None \<Rightarrow> h ''host'') of
                    Some v \<Rightarrow> v | None \<Rightarrow> ''localhost'');
          p = (case matched_path of Some mp \<Rightarrow> mp | None \<Rightarrow> svc_mount_path svc)
      in ''http://'' @ host @ p)"

definition wsdl_response :: "bytes \<Rightarrow> response" where
  "wsdl_response b = \<lparr>status = 200, content_type = Some ''text/xml; charset=utf-8'', resp_body = b\<rparr>"

definition wsdl_get_handler ::
  "server_lib \<Rightarrow> 's soap_service \<Rightarrow> string option \<Rightarrow> string option \<Rightarrow> headers \<Rightarrow> response" where
  "wsdl_get_handler lib svc matched_path wsdl h =
     (if wsdl = None then not_found
      else wsdl_response
        (rewrite_wsdl_address (sl_tok lib) (sl_write lib) (sl_esc lib) (svc_wsdl_raw svc)
          (server_url svc matched_path h)))"

definition wsdl_get_handler_for_route ::
  "server_lib \<Rightarrow> 's soap_service_route \<Rightarrow> string option \<Rightarrow> string option \<Rightarrow> headers \<Rightarrow> response" where
  "wsdl_get_handler_for_route lib rt matched_path wsdl h =
     (if wsdl = None then not_found
      else wsdl_response
        (rewrite_wsdl_address_for_service (sl_tok lib) (sl_write lib) (sl_esc lib)
          (svc_wsdl_raw (rt_svc rt)) (server_url (rt_svc rt) matched_path h) (rt_service_name rt)))"

text \<open>What a mounted route does with a POST and with a GET.\<close>

definition service_route :: "'s soap_service \<Rightarrow> 's dispatch_table \<Rightarrow> string \<Rightarrow> 's soap_service_route" where
  "service_route svc table name = \<lparr>rt_svc = svc, rt_table = table, rt_service_name = name\<rparr>"

fun post_endpoint ::
  "server_lib \<Rightarrow> 's soap_service \<Rightarrow> 's endpoint \<Rightarrow> headers \<Rightarrow> bytes \<Rightarrow> int \<Rightarrow> nat \<Rightarrow> nonce_cache \<times> 's \<Rightarrow>
   (outcome \<times> nonce_cache \<times> 's) option" where
  "post_endpoint lib svc SingleEndpoint = soap_post_handler lib svc"
| "post_endpoint lib svc (ServiceEndpoint table name) =
     soap_post_handler_for_route lib (service_route svc table name)"

fun get_endpoint ::
  "server_lib \<Rightarrow> 's soap_service \<Rightarrow> 's endpoint \<Rightarrow> string option \<Rightarrow> string option \<Rightarrow> headers \<Rightarrow> response" where
  "get_endpoint lib svc SingleEndpoint = wsdl_get_handler lib svc"
| "get_endpoint lib svc (ServiceEndpoint table name) =
     wsdl_get_handler_for_route lib (service_route svc table name)"

section \<open>Facts about a POST\<close>

lemma fault_response_status [simp]:
  "status (fault_response lib f v) = 500"
  "content_type (fault_response lib f v) = Some (response_content_type v)"
  by (simp_all add: fault_response_def)

definition answered_ok :: "outcome \<Rightarrow> bool" where
  "answered_ok out \<longleftrightarrow> (case out of Respond r \<Rightarrow> status r = 200 | Aborted \<Rightarrow> False)"

lemma open_request_Inl: "open_request lib table h body = Inl r \<Longrightarrow> status r = 500"
  by (auto simp: open_request_def map_err_def res_simps split: sum.splits)

lemma open_request_parsed:
  "open_request lib table h body = Inr (envelope, entry) \<Longrightarrow> parse_envelope (sl_tok lib) body = Inr envelope"
  by (auto simp: open_request_def res_simps)

lemma open_request_version:
  "open_request lib table h body = Inl r \<Longrightarrow> parse_envelope (sl_tok lib) body = Inr envelope \<Longrightarrow>
   detect_soap_version (request_content_type h) = Inr v \<Longrightarrow>
   content_type r = Some (response_content_type (env_soap_version envelope))"
  by (auto simp: open_request_def map_err_def split: sum.splits)

lemma authenticate_Ok:
  assumes "authenticate lib svc envelope entry now inst cache = Some (Inr u, cache')"
    and "auth_required entry" and "svc_auth_fn svc = Some auth"
  obtains security user where "find_security_header (sl_tok lib) (header_children envelope) = Some security"
    and "validate_username_token (sl_wss lib) security auth cache (svc_timestamp_tolerance_secs svc) now inst =
      Some (Inr user, cache')"
  using assms
  by (auto simp: authenticate_def Let_def split: option.splits sum.splits failure.splits)

lemma authenticate_refuses:
  "authenticate lib svc envelope entry now inst cache = Some (Inl out, cache') \<Longrightarrow> \<not> answered_ok out"
  by (auto simp: authenticate_def answered_ok_def Let_def split: option.splits sum.splits failure.splits if_splits)

lemma authenticate_version:
  "authenticate lib svc envelope entry now inst cache = Some (Inl (Respond r), cache') \<Longrightarrow>
   status r = 500 \<and> content_type r = Some (response_content_type (env_soap_version envelope))"
  by (auto simp: authenticate_def Let_def split: option.splits sum.splits failure.splits if_splits)

lemma authenticate_cache:
  "authenticate lib svc envelope entry now inst cache = Some (r, cache') \<Longrightarrow>
   cache' = cache \<or> (\<exists>n r'. check_and_insert inst n cache = Some (r', cache'))"
  by (auto simp: authenticate_def Let_def split: option.splits sum.splits failure.splits if_splits dest: validate_cache)

lemma invoke_version:
  "invoke lib svc envelope entry s = (r, s') \<Longrightarrow>
   (status r = 200 \<or> status r = 500) \<and>
   content_type r = Some (response_content_type (env_soap_version envelope))"
  by (auto simp: invoke_def Let_def split: sum.splits prod.splits)

lemma invoke_ran:
  "invoke lib svc envelope entry s = (r, s') \<Longrightarrow> s' \<noteq> s \<or> status r = 200 \<Longrightarrow>
   validate_request (sl_tok lib) (body_element envelope) (svc_type_registry svc) (validation_type entry) = Inr ()"
  by (auto simp: invoke_def Let_def split: sum.splits prod.splits)

text \<open>A route's handler is the service's on that route's table.\<close>

lemma route_post_eq:
  "soap_post_handler_for_route lib rt h body now inst st =
   soap_post_handler lib ((rt_svc rt)\<lparr>svc_dispatch_table := rt_table rt\<rparr>) h body now inst st"
proof -
  have sel: "svc_auth_fn (svc\<lparr>svc_dispatch_table := t\<rparr>) = svc_auth_fn svc"
    "svc_timestamp_tolerance_secs (svc\<lparr>svc_dispatch_table := t\<rparr>) = svc_timestamp_tolerance_secs svc"
    "svc_type_registry (svc\<lparr>svc_dispatch_table := t\<rparr>) = svc_type_registry svc"
    for svc :: "'a soap_service" and t by simp_all
  have auth: "authenticate lib (svc\<lparr>svc_dispatch_table := t\<rparr>) = authenticate lib svc"
    for svc :: "'a soap_service" and t by (intro ext, unfold authenticate_def sel, rule refl)
  have inv: "invoke lib (svc\<lparr>svc_dispatch_table := t\<rparr>) = invoke lib svc"
    for svc :: "'a soap_service" and t by (intro ext, unfold invoke_def sel, rule refl)
  show ?thesis
    unfolding soap_post_handler_for_route_def soap_post_handler_def Let_def auth inv by simp
qed

text \<open>The three ways a POST can end.\<close>

lemma soap_post_cases:
  assumes "soap_post_handler lib svc h body now inst (cache, s) = Some (out, cache', s')"
  obtains (early) r where "open_request lib (svc_dispatch_table svc) h body = Inl r"
      and "out = Respond r" "cache' = cache" "s' = s"
  | (refused) envelope entry where
      "open_request lib (svc_dispatch_table svc) h body = Inr (envelope, entry)"
      and "authenticate lib svc envelope entry now inst cache = Some (Inl out, cache')" and "s' = s"
  | (invoked) envelope entry r where
      "open_request lib (svc_dispatch_table svc) h body = Inr (envelope, entry)"
      and "authenticate lib svc envelope entry now inst cache = Some (Inr (), cache')"
      and "invoke lib svc envelope entry s = (r, s')" and "out = Respond r"
  using assms
  by (auto simp: soap_post_handler_def split: sum.splits option.splits prod.splits)

lemma soap_post_cache:
  assumes "soap_post_handler lib svc h body now inst (cache, s) = Some (out, cache', s')"
  shows "cache' = cache \<or> (\<exists>n r. check_and_insert inst n cache = Some (r, cache'))"
  using assms by (rule soap_post_cases) (auto dest: authenticate_cache)

section \<open>Runs of the server\<close>

text \<open>A request with its headers, body, wall clock and monotonic clock; a run of requests.\<close>

record post =
  p_headers :: headers
  p_body :: bytes
  p_now :: int
  p_inst :: nat

definition serve :: "server_lib \<Rightarrow> 's soap_service \<Rightarrow> post \<Rightarrow> nonce_cache \<times> 's \<Rightarrow> (outcome \<times> nonce_cache \<times> 's) option" where
  "serve lib svc p st = soap_post_handler lib svc (p_headers p) (p_body p) (p_now p) (p_inst p) st"

inductive run_posts :: "server_lib \<Rightarrow> 's soap_service \<Rightarrow> post list \<Rightarrow> nonce_cache \<times> 's \<Rightarrow> nonce_cache \<times> 's \<Rightarrow> bool"
  for lib svc where
  run_Nil: "run_posts lib svc [] st st"
| run_Cons: "serve lib svc p st = Some (out, st') \<Longrightarrow> run_posts lib svc ps st' st'' \<Longrightarrow>
    run_posts lib svc (p # ps) st st''"

inductive_cases run_posts_ConsE: "run_posts lib svc (p # ps) st st'"

text \<open>To the nonce cache a run of requests is a run of checks, at most one for each.\<close>

lemma run_posts_checks:
  assumes "run_posts lib svc ps st st'"
  shows "0 < half_window_secs (fst st) \<Longrightarrow>
    \<exists>xs rs. run_checks xs (fst st) = Some (rs, fst st') \<and> length xs \<le> length ps \<and>
      set (map fst xs) \<subseteq> set (map p_inst ps)"
  using assms
proof (induction rule: run_posts.induct)
  case (run_Nil st)
  then show ?case by (intro exI [of _ "[]"]) simp
next
  case (run_Cons p st out st' ps st'')
  obtain c s where st: "st = (c, s)" by (cases st)
  obtain c' s' where st': "st' = (c', s')" by (cases st')
  have hw: "0 < half_window_secs c" using run_Cons.prems by (simp add: st)
  have "c' = c \<or> (\<exists>n r. check_and_insert (p_inst p) n c = Some (r, c'))"
    using run_Cons.hyps(1) soap_post_cache by (fastforce simp: serve_def st st')
  then show ?case
  proof
    assume "c' = c"
    then obtain xs rs where "run_checks xs c = Some (rs, fst st'')" "length xs \<le> length ps"
      "set (map fst xs) \<subseteq> set (map p_inst ps)"
      using run_Cons.IH hw by (auto simp: st')
    then show ?thesis by (intro exI [of _ xs] exI [of _ rs]) (auto simp: st)
  next
    assume "\<exists>n r. check_and_insert (p_inst p) n c = Some (r, c')"
    then obtain n r where check: "check_and_insert (p_inst p) n c = Some (r, c')" by blast
    then have "0 < half_window_secs c'"
      using hw by (auto simp: check_and_insert_eq dest: arg_cong [where f = "\<lambda>x. half_window_secs (snd x)"])
    then obtain xs rs where "run_checks xs c' = Some (rs, fst st'')" "length xs \<le> length ps"
      "set (map fst xs) \<subseteq> set (map p_inst ps)"
      using run_Cons.IH by (auto simp: st')
    then show ?thesis
      by (intro exI [of _ "(p_inst p, n) # xs"] exI [of _ "r # rs"])
        (auto simp: st check run_checks_step)
  qed
qed

section \<open>Facts about the service and its routes\<close>

lemma normalize_no_parent: "ParentDir \<notin> set (normalize_path p)"
proof -
  have "ParentDir \<notin> set (foldl (\<lambda>n c. case c of ParentDir \<Rightarrow> path_pop n | CurDir \<Rightarrow> n | other \<Rightarrow> path_push n other) n p)"
    if "ParentDir \<notin> set n" for n
    using that
  proof (induction p arbitrary: n)
    case Nil
    then show ?case by simp
  next
    case (Cons c p)
    have "ParentDir \<notin> set (path_pop n)"
      using Cons.prems by (auto simp: path_pop_def path_parent_def dest: in_set_butlastD)
    with Cons show ?case by (cases c) (auto simp: path_push_def)
  qed
  then show ?thesis by (simp add: normalize_path_def)
qed

lemma build_eq:
  assumes "load_wsdl lib b = Inr (bytes, file)"
    and "resolve_wsdl (sl_rox lib) (select_loader lib b file) bytes {} = Some (Inr (rw, vis))"
    and "build lib inst b = Some (Inr svc)"
  obtains t tables names where "build_tables lib b rw = Inr (t, tables, names)"
    and "svc_dispatch_table svc = t" and "svc_service_tables svc = tables"
    and "svc_service_path_names svc = names" and "svc_mount_path svc = sb_mount_path b"
    and "svc_max_body_bytes svc = sb_max_body_bytes b" and "svc_auth_fn svc = sb_auth_fn b"
    and "svc_nonce_cache svc = nonce_cache_new inst (sb_nonce_cache_half_window_secs b)"
  using assms by (auto simp: build_def res_simps)

section \<open>Properties\<close>

text \<open>A service with the one operation of \<open>echo_table\<close>, and a POST to it.\<close>

definition echo_items :: "xml list" where
  "echo_items =
     [XElem (Bound SOAP12_NS) ''s:Header'' [] [XEmpty (Bound WSSE_NS) ''Security'' []],
      XElem (Bound SOAP12_NS) ''s:Body'' [] [XEmpty (Bound ''urn:e'') ''Echo'' []]]"

definition echo_rox :: rox_parser where
  "echo_rox _ = Inr (Elem (Some WSDL_NS) ''definitions'' [(None, ''targetNamespace'', ''urn:e'')] []
     [Elem (Some WSDL_NS) ''binding'' [(None, ''name'', ''B''), (None, ''type'', ''P'')] []
        [Elem (Some SOAP12_BINDING_NS) ''binding'' [(None, ''style'', ''rpc'')] [] [],
         Elem (Some WSDL_NS) ''operation'' [(None, ''name'', ''Echo'')] []
           [Elem (Some SOAP12_BINDING_NS) ''operation'' [(None, ''soapAction'', ''urn:e#Echo'')] [] [],
            Elem (Some WSDL_NS) ''input'' [] []
              [Elem (Some SOAP12_BINDING_NS) ''body'' [(None, ''namespace'', ''urn:e'')] [] []],
            Elem (Some WSDL_NS) ''output'' [] []
              [Elem (Some SOAP12_BINDING_NS) ''body'' [(None, ''namespace'', ''urn:e'')] [] []]]]])"

definition echo_lib :: server_lib where
  "echo_lib =
     \<lparr>sl_wss = sample_lib\<lparr>wl_tok := \<lambda>trim xml.
        if \<not> trim then envelope_events [] (Bound SOAP12_NS) ''s:Envelope'' [] echo_items []
        else if xml = ''<Echo/>'' then [Inr (Bound ''urn:e'', EvEmpty (Tag ''Echo'' []))]
        else Inr (Bound WSSE_NS, EvStart (Tag ''Security'' [])) # sample_token [EvText ''bob''] ''abc''\<rparr>,
      sl_esc = xml_escape, sl_write = (\<lambda>_. []), sl_rox = echo_rox, sl_read_file = (\<lambda>_. Inl []),
      sl_lowercase = id\<rparr>"

definition echo_service :: "nat soap_service" where
  "echo_service =
     \<lparr>svc_dispatch_table = echo_table, svc_service_tables = [], svc_service_path_names = [],
      svc_type_registry = registry_new, svc_wsdl_raw = [], svc_auth_fn = Some sample_passwords,
      svc_nonce_cache = sample_cache, svc_timestamp_tolerance_secs = 300, svc_mount_path = ''/soap'',
      svc_max_body_bytes = DEFAULT_MAX_BODY_BYTES\<rparr>"

definition soap12_headers :: headers where
  "soap12_headers n = (if n = ''content-type'' then Some (Some ''application/soap+xml'') else None)"

text \<open>
  C2. No handler runs unauthenticated: when credentials are configured and a POST changes
  the application or is answered with success, then its envelope parsed, it was routed, its
  body passed validation, and, unless the operation is exempt, its Security header was
  found and its token accepted.
\<close>

theorem handler_runs_only_if_authenticated:
  assumes "soap_post_handler lib svc h body now inst (cache, s) = Some (out, cache', s')"
    and "svc_auth_fn svc = Some auth" and "s' \<noteq> s \<or> answered_ok out"
  shows "\<exists>envelope entry.
    parse_envelope (sl_tok lib) body = Inr envelope \<and>
    open_request lib (svc_dispatch_table svc) h body = Inr (envelope, entry) \<and>
    validate_request (sl_tok lib) (body_element envelope) (svc_type_registry svc) (validation_type entry) = Inr () \<and>
    (auth_required entry \<longrightarrow> (\<exists>security user.
       find_security_header (sl_tok lib) (header_children envelope) = Some security \<and>
       validate_username_token (sl_wss lib) security auth cache (svc_timestamp_tolerance_secs svc) now inst =
         Some (Inr user, cache')))"
  using assms(1)
proof (cases rule: soap_post_cases)
  case (early r)
  with assms(3) open_request_Inl [OF early(1)] show ?thesis by (simp add: answered_ok_def)
next
  case (refused envelope entry)
  with assms(3) authenticate_refuses [OF refused(2)] show ?thesis by simp
next
  case (invoked envelope entry r)
  have "s' \<noteq> s \<or> status r = 200" using assms(3) invoked(4) by (simp add: answered_ok_def)
  from invoke_ran [OF invoked(3) this] invoked(1) open_request_parsed [OF invoked(1)]
    authenticate_Ok [OF invoked(2) _ assms(2)]
  show ?thesis by metis
qed

text \<open>The sample POST, step by step.\<close>

definition echo_envelope :: parsed_envelope where
  "echo_envelope = \<lparr>env_soap_version = Soap12, header_children = [''<Security/>''], body_element = ''<Echo/>''\<rparr>"

lemma echo_parse: "parse_envelope (sl_tok echo_lib) ''req'' = Inr echo_envelope"
proof -
  have v: "envelope_version (Bound SOAP12_NS) = Some Soap12"
    by (simp add: envelope_version_def ns_bytes_def)
  have "local_part ''s:Header'' = ''Header''" "local_part ''s:Body'' = ''Body''"
    by (simp_all add: local_part_def)
  then have parts: "part_of (Bound SOAP12_NS) (tag_of ''s:Header'' []) = HeaderPart"
    "part_of (Bound SOAP12_NS) (tag_of ''s:Body'' []) = BodyPart"
    by (simp_all add: part_of_named ns_bytes_def)
  have "parse_envelope (sl_tok echo_lib) ''req'' = read_envelope (Bound SOAP12_NS) [] echo_items"
    by (rule parse_envelope_document [where prolog = "[]" and n = "''s:Envelope''" and rest = "[]"])
      (simp_all add: sl_tok_def echo_lib_def local_part_def)
  then show ?thesis
    by (simp add: read_envelope_def v echo_items_def parts echo_envelope_def ns_decls_def header_fragment_def
        body_fragment_def inherited_def inherited_by_key_def emit_attrs_def)
qed

lemma echo_open:
  "open_request echo_lib echo_table soap12_headers ''req'' = Inr (echo_envelope, echo_entry)"
proof -
  have ct: "detect_soap_version (request_content_type soap12_headers) = Inr Soap12"
    by (simp add: request_content_type_def soap12_headers_def header_str_def detect_soap_version_def
        starts_with_def)
  have "extract_body_qname (sl_tok echo_lib) ''<Echo/>'' = Inr (qname_new ''urn:e'' ''Echo'')"
    by (simp add: extract_body_qname_def sl_tok_def echo_lib_def resolved_qname_def local_part_def
        from_utf8_def utf8_valid_ascii is_ascii_def byte_def)
  then show ?thesis
    by (simp add: open_request_def ct echo_parse echo_envelope_def route_def echo_table_def hm_get_def)
qed

lemma echo_token:
  "parse_username_token (wl_tok (sl_wss echo_lib)) ''<Security/>'' =
     parse_username_token (wl_tok sample_lib) ''A''"
proof -
  have "split_name ''Security'' = (None, ''Security'')"
    by (simp add: split_name_def utf8_valid_ascii is_ascii_def byte_def)
  then have "token_loop (Inr (res, EvStart (Tag ''Security'' [])) # r) token_parser_start =
      token_loop r token_parser_start" for res r
    by (simp add: token_start_def token_parser_start_def)
  then show ?thesis
    by (simp add: parse_username_token_def echo_lib_def sample_lib_def)
qed

lemma echo_validate:
  "validate_username_token (sl_wss echo_lib) ''<Security/>'' sample_passwords sample_cache 300 5 5 =
     Some (Inr ''bob'', sample_cache\<lparr>current := {''abc''}\<rparr>)"
proof -
  have sel: "wl_b64_decode (lib\<lparr>wl_tok := x\<rparr>) = wl_b64_decode lib"
    "wl_b64_encode (lib\<lparr>wl_tok := x\<rparr>) = wl_b64_encode lib" "wl_sha1 (lib\<lparr>wl_tok := x\<rparr>) = wl_sha1 lib"
    "wl_rfc3339 (lib\<lparr>wl_tok := x\<rparr>) = wl_rfc3339 lib" "wl_seconds (lib\<lparr>wl_tok := x\<rparr>) = wl_seconds lib"
    for lib x by simp_all
  have "verify_password (sample_lib\<lparr>wl_tok := x\<rparr>) = verify_password sample_lib" for x
    by (intro ext, unfold verify_password_def compute_digest_def parse_created_def check_freshness_def sel, rule refl)
  then have "verify_password (sl_wss echo_lib) = verify_password sample_lib"
    by (simp add: echo_lib_def)
  with echo_token have "validate_username_token (sl_wss echo_lib) ''<Security/>'' sample_passwords sample_cache 300 5 5 =
      validate_username_token sample_lib ''A'' sample_passwords sample_cache 300 5 5"
    by (simp only: validate_username_token_def)
  then show ?thesis by (simp only: sample_first)
qed

lemma echo_security: "find_security_header (sl_tok echo_lib) [''<Security/>''] = Some ''<Security/>''"
  by (simp add: find_security_header_def sl_tok_def echo_lib_def is_security_def local_part_def
      utf8_valid_ascii [of "''Security''"] is_ascii_def byte_def)

lemma echo_authenticate:
  "authenticate echo_lib echo_service echo_envelope echo_entry 5 5 sample_cache =
     Some (Inr (), sample_cache\<lparr>current := {''abc''}\<rparr>)"
  by (simp add: authenticate_def echo_service_def echo_entry_def echo_envelope_def echo_security echo_validate)

definition echo_response :: response where
  "echo_response = \<lparr>status = 200, content_type = Some (response_content_type Soap12),
     resp_body = serialize_envelope ''<Echo/>'' Soap12\<rparr>"

lemma echo_invoke:
  "invoke echo_lib echo_service echo_envelope echo_entry s = (echo_response, s)"
  by (simp add: invoke_def echo_service_def echo_entry_def echo_envelope_def echo_response_def
      validate_request_def demo_handler_def fn_handler_def default_handle_with_headers_def)

lemma echo_post:
  "soap_post_handler echo_lib echo_service soap12_headers ''req'' 5 5 (sample_cache, 0) =
     Some (Respond echo_response, sample_cache\<lparr>current := {''abc''}\<rparr>, 0)"
proof -
  have "svc_dispatch_table echo_service = echo_table" by (simp add: echo_service_def)
  then show ?thesis
    by (simp add: soap_post_handler_def echo_open echo_authenticate echo_invoke)
qed

lemma handler_runs_only_if_authenticated_witness:
  "\<exists>security user. find_security_header (sl_tok echo_lib) [''<Security/>''] = Some security \<and>
     validate_username_token (sl_wss echo_lib) security sample_passwords sample_cache 300 5 5 =
       Some (Inr user, sample_cache\<lparr>current := {''abc''}\<rparr>)"
proof -
  have fields: "svc_auth_fn echo_service = Some sample_passwords"
    "svc_timestamp_tolerance_secs echo_service = 300" "svc_dispatch_table echo_service = echo_table"
    "auth_required echo_entry" "header_children echo_envelope = [''<Security/>'']"
    by (simp_all add: echo_service_def echo_entry_def echo_envelope_def)
  have "answered_ok (Respond echo_response)" by (simp add: answered_ok_def echo_response_def)
  with handler_runs_only_if_authenticated [OF echo_post fields(1)] show ?thesis
    by (auto simp: fields echo_open)
qed

text \<open>
  The answer to a POST whose envelope could be parsed speaks the version of that
  envelope: its content type is that version's, and it is a success or a fault with status 500.
\<close>

theorem response_speaks_envelope_version:
  assumes "soap_post_handler lib svc h body now inst (cache, s) = Some (Respond r, cache', s')"
    and "parse_envelope (sl_tok lib) body = Inr envelope"
    and "detect_soap_version (request_content_type h) = Inr v"
  shows "content_type r = Some (response_content_type (env_soap_version envelope)) \<and>
    (status r = 200 \<or> status r = 500)"
  using assms(1)
proof (cases rule: soap_post_cases)
  case (early r')
  with open_request_version [OF early(1) assms(2,3)] open_request_Inl [OF early(1)] show ?thesis by simp
next
  case (refused envelope' entry)
  with authenticate_version [OF refused(2)] open_request_parsed [OF refused(1)] assms(2) show ?thesis by simp
next
  case (invoked envelope' entry r')
  with invoke_version [OF invoked(3)] open_request_parsed [OF invoked(1)] assms(2) show ?thesis by simp
qed

lemma response_speaks_envelope_version_witness:
  "content_type echo_response = Some (response_content_type Soap12)"
proof -
  have "detect_soap_version (request_content_type soap12_headers) = Inr Soap12"
    by (simp add: request_content_type_def soap12_headers_def header_str_def detect_soap_version_def
        starts_with_def)
  from response_speaks_envelope_version [OF echo_post echo_parse this] show ?thesis
    by (simp add: echo_envelope_def)
qed

text \<open>
  The two POST handlers agree: a per-service route answers exactly as a single service
  with that route's table would.
\<close>

theorem route_handler_is_service_handler:
  "soap_post_handler_for_route lib rt h body now inst st =
   soap_post_handler lib ((rt_svc rt)\<lparr>svc_dispatch_table := rt_table rt\<rparr>) h body now inst st"
  by (rule route_post_eq)

text \<open>
  C5. A request cannot be replayed: after an authenticated POST whose token carries a nonce
  was answered with success, the same POST is refused, without running a handler, for half a
  window, whatever other requests came in between, as long as they are no more than the capacity
  of the nonce cache.
\<close>

theorem replayed_post_is_refused:
  assumes "0 < half_window_secs cache" and "finite (current cache)"
    and "svc_auth_fn svc = Some auth"
    and "soap_post_handler lib svc h body now inst (cache, s) = Some (out, cache0, s0)" and "answered_ok out"
    and "open_request lib (svc_dispatch_table svc) h body = Inr (envelope, entry)" and "auth_required entry"
    and "find_security_header (sl_tok lib) (header_children envelope) = Some security"
    and "parse_username_token (wl_tok (sl_wss lib)) security = Inr token" and "ut_nonce token = Some n"
    and "run_posts lib svc ps (cache0, s0) (cache1, s1)" and "length ps \<le> max_entries cache"
    and "\<forall>p \<in> set ps. inst \<le> p_inst p \<and> p_inst p < inst + half_window_nanos cache"
    and "inst' < inst + half_window_nanos cache"
  shows "\<exists>out' cache'. soap_post_handler lib svc h body now' inst' (cache1, s1) = Some (out', cache', s1) \<and>
    \<not> answered_ok out'"
proof -
  from assms(4) obtain auth_ok: "authenticate lib svc envelope entry now inst cache = Some (Inr (), cache0)"
  proof (cases rule: soap_post_cases)
    case (refused envelope' entry')
    with assms(5) authenticate_refuses [OF refused(2)] show ?thesis by simp
  qed (use assms(6) that in auto)
  obtain user where "validate_username_token (sl_wss lib) security auth cache
      (svc_timestamp_tolerance_secs svc) now inst = Some (Inr user, cache0)"
    using authenticate_Ok [OF auth_ok assms(7,3)] assms(8) by auto
  then obtain token0 where "token_checked (sl_wss lib) security auth (svc_timestamp_tolerance_secs svc) now = Inr token0"
    and "case ut_nonce token0 of None \<Rightarrow> cache0 = cache
         | Some n \<Rightarrow> check_and_insert inst n cache = Some (Inr (), cache0)"
    by (rule validate_Ok_nonce)
  with token_checked_parses assms(9,10) have check: "check_and_insert inst n cache = Some (Inr (), cache0)"
    by fastforce
  have hw0: "0 < half_window_secs cache0"
    using check assms(1) by (auto simp: check_and_insert_eq dest: arg_cong [where f = "\<lambda>x. half_window_secs (snd x)"])
  obtain xs rs where run: "run_checks xs cache0 = Some (rs, cache1)" and len: "length xs \<le> length ps"
    and times: "set (map fst xs) \<subseteq> set (map p_inst ps)"
    using run_posts_checks [OF assms(11)] hw0 by auto
  have "\<exists>c2. check_and_insert inst' n cache1 = Some (Inl replay_fault, c2)"
  proof (rule nonce_refused [OF assms(1,2) check _ _ run assms(14)])
    show "length xs \<le> max_entries cache" using len assms(12) by simp
    show "\<forall>(t', m) \<in> set xs. inst \<le> t' \<and> t' < inst + half_window_nanos cache"
      using times assms(13) by fastforce
  qed
  then obtain c2 where refused: "check_and_insert inst' n cache1 = Some (Inl replay_fault, c2)" ..
  have "\<exists>f c. validate_username_token (sl_wss lib) security auth cache1
      (svc_timestamp_tolerance_secs svc) now' inst' = Some (Inl f, c)"
    using refused token_checked_parses [of "sl_wss lib" security auth _ now'] assms(9,10)
    by (cases "token_checked (sl_wss lib) security auth (svc_timestamp_tolerance_secs svc) now'")
      (fastforce simp: validate_eq)+
  then obtain f c where invalid: "validate_username_token (sl_wss lib) security auth cache1
      (svc_timestamp_tolerance_secs svc) now' inst' = Some (Inl f, c)" by blast
  then obtain out' where "authenticate lib svc envelope entry now' inst' cache1 = Some (Inl out', c)"
    using assms(3,7,8) by (cases f) (auto simp: authenticate_def)
  with authenticate_refuses [OF this] assms(6) show ?thesis
    by (auto simp: soap_post_handler_def)
qed

lemma replayed_post_is_refused_witness:
  "\<exists>out' cache'. soap_post_handler echo_lib echo_service soap12_headers ''req'' 9 9
     (sample_cache\<lparr>current := {''abc''}\<rparr>, 0) = Some (out', cache', 0) \<and> \<not> answered_ok out'"
proof -
  have "open_request echo_lib (svc_dispatch_table echo_service) soap12_headers ''req'' = Inr (echo_envelope, echo_entry)"
    by (simp add: echo_service_def echo_open)
  note run = replayed_post_is_refused [OF _ _ _ echo_post _ this, where auth = sample_passwords
      and security = "''<Security/>''" and n = "''abc''" and ps = "[]" and inst' = 9 and now' = 9
      and token = "\<lparr>ut_username = ''bob'', ut_password = ''abct0pw'', ut_password_type = Digest,
        ut_nonce = Some ''abc'', ut_created = Some ''t0''\<rparr>"]
  show ?thesis
    by (rule run [OF _ _ _ _ _ _ _ _ run_Nil])
      (simp_all add: sample_cache_def with_max_entries_def echo_service_def answered_ok_def echo_response_def
        echo_entry_def echo_envelope_def echo_security echo_token sample_parse half_window_nanos_def nanos_per_sec_def)
qed

text \<open>
  A single-service WSDL is served at the builder's mount path: whatever address its port
  names, the only route of the built service is that path (\<open>/soap\<close> unless overridden).
\<close>

theorem single_service_ignores_wsdl_address:
  assumes "load_wsdl lib b = Inr (bytes, file)"
    and "resolve_wsdl (sl_rox lib) (select_loader lib b file) bytes {} = Some (Inr (rw, vis))"
    and "build lib inst b = Some (Inr svc)" and "length (services (rw_definition rw)) \<le> 1"
  shows "into_router svc = \<lparr>routes = [(sb_mount_path b, SingleEndpoint)], body_limit = sb_max_body_bytes b\<rparr>"
proof -
  obtain t tables names where "build_tables lib b rw = Inr (t, tables, names)"
    and svc: "svc_service_tables svc = tables" "svc_mount_path svc = sb_mount_path b"
      "svc_max_body_bytes svc = sb_max_body_bytes b"
    using build_eq [OF assms(1-3)] by metis
  then have "tables = []" using assms(4) by (auto simp: build_tables_def res_simps)
  with svc show ?thesis by (simp add: into_router_def)
qed

definition one_service_rox :: rox_parser where
  "one_service_rox _ = Inr (Elem (Some WSDL_NS) ''definitions'' [] []
     [Elem (Some WSDL_NS) ''service'' [(None, ''name'', ''S'')] []
        [Elem (Some WSDL_NS) ''port'' [(None, ''name'', ''P''), (None, ''binding'', ''B'')] []
           [Elem (Some SOAP12_BINDING_NS) ''address'' [(None, ''location'', ''http://h/elsewhere'')] [] []]]])"

definition one_service_lib :: server_lib where
  "one_service_lib = echo_lib\<lparr>sl_rox := one_service_rox\<rparr>"

definition one_service :: service where
  "one_service = \<lparr>svc_name = ''S'', ports =
     [\<lparr>port_name = ''P'', port_binding = qname_local ''B'', port_address = ''http://h/elsewhere''\<rparr>]\<rparr>"

definition one_service_wsdl :: resolved_wsdl where
  "one_service_wsdl =
     \<lparr>rw_definition = (empty_definition [])\<lparr>services := [(''S'', one_service)]\<rparr>,
      rw_type_registry = registry_new, rw_element_type_map = [], rw_raw_bytes = ''w''\<rparr>"

lemma one_service_resolves:
  "resolve_wsdl one_service_rox loader ''w'' {} = Some (Inr (one_service_wsdl, {}))"
proof -
  have "parse_wsdl one_service_rox ''w'' = Inr ((empty_definition [])\<lparr>services := [(''S'', one_service)]\<rparr>)"
    by (simp add: parse_wsdl_def one_service_rox_def from_utf8_def utf8_valid_ascii is_ascii_def byte_def
        node_attribute_def element_children_def parse_wsdl_child_def node_ns_or_empty_def parse_service_def
        required_attr_def parse_port_def resolve_qname_str_def lookup_namespace_uri_def empty_definition_def
        one_service_def hm_insert_def)
  then show ?thesis
    by (simp add: resolve_wsdl_def resolve_wsdl_inner_def resolve_imports.simps [of _ _ _ "[]"]
        empty_definition_def resolve_start_def snapshot_registry_def one_service_wsdl_def)
qed

lemma single_service_ignores_wsdl_address_witness:
  "\<exists>svc. build one_service_lib 0 (from_wsdl_bytes ''w'' :: nat server_builder) = Some (Inr svc) \<and>
     into_router svc = \<lparr>routes = [(''/soap'', SingleEndpoint)], body_limit = DEFAULT_MAX_BODY_BYTES\<rparr>"
proof -
  let ?b = "from_wsdl_bytes ''w'' :: nat server_builder"
  have b: "sb_wsdl_bytes ?b = Some ''w''" "sb_handlers ?b = []" "sb_mount_path ?b = ''/soap''"
    "sb_max_body_bytes ?b = DEFAULT_MAX_BODY_BYTES"
    by (simp_all add: from_wsdl_bytes_def builder_new_def)
  have load: "load_wsdl one_service_lib ?b = Inr (''w'', None)"
    by (simp add: load_wsdl_def b)
  have resolve: "resolve_wsdl (sl_rox one_service_lib) (select_loader one_service_lib ?b None) ''w'' {} =
      Some (Inr (one_service_wsdl, {}))"
    by (simp add: one_service_lib_def one_service_resolves)
  have "\<exists>r. build_tables one_service_lib ?b one_service_wsdl = Inr r"
    by (simp add: build_tables_def one_service_wsdl_def build_dispatch_table_def collect_ops_for_service_def
        service_ops_def one_service_def empty_definition_def build_dispatch_table_from_ops_def b)
  then obtain svc where svc: "build one_service_lib 0 ?b = Some (Inr svc)"
    by (auto simp: build_def load resolve)
  from single_service_ignores_wsdl_address [OF load resolve svc] svc b show ?thesis
    by (simp add: one_service_wsdl_def)
qed

text \<open>
  Two services whose first ports share a path shadow each other: only one route is
  mounted there, with the table of the later service, and the operations of the other
  cannot be reached.
\<close>

theorem services_on_one_path_shadow:
  assumes "hm_keys (services (rw_definition rw)) = [n1, n2]"
    and "hm_get (services (rw_definition rw)) n1 = Some s1" and "hm_get (services (rw_definition rw)) n2 = Some s2"
    and "service_path lib s1 n1 = p" and "service_path lib s2 n2 = p"
    and "build_tables lib b rw = Inr (t, tables, names)"
  shows "hm_keys tables = [p] \<and> hm_get names p = Some n2"
proof -
  have "length (services (rw_definition rw)) = 2"
    using arg_cong [OF assms(1), of length] by simp
  then obtain t1 t2 where "tables = hm_insert p t2 (hm_insert p t1 [])" and
    "names = hm_insert p n2 (hm_insert p n1 [])"
    using assms
    by (auto simp: build_tables_def build_service_tables_def add_service_def lookup_service_def res_simps Let_def
        split: option.splits)
  then show ?thesis by (simp add: hm_insert_def hm_get_def)
qed

lemma services_on_one_path_shadow_witness:
  "\<exists>t tables names. build_tables echo_lib (builder_new :: nat server_builder)
     (one_service_wsdl\<lparr>rw_definition := (empty_definition [])\<lparr>services := [(''S'', one_service), (''T'', one_service)]\<rparr>\<rparr>) =
       Inr (t, tables, names) \<and> hm_keys tables = [''/elsewhere''] \<and> hm_get names ''/elsewhere'' = Some ''T''"
proof -
  let ?rw = "one_service_wsdl\<lparr>rw_definition := (empty_definition [])\<lparr>services := [(''S'', one_service), (''T'', one_service)]\<rparr>\<rparr>"
  have path: "service_path echo_lib one_service n = ''/elsewhere''" for n
    by (simp add: service_path_def one_service_def extract_path_from_url_def starts_with_def)
  have "\<exists>r. build_tables echo_lib (builder_new :: nat server_builder) ?rw = Inr r"
    by (simp add: build_tables_def build_service_tables_def builder_new_def lookup_service_def add_service_def
        build_dispatch_table_for_service_def build_dispatch_table_from_ops_def collect_ops_for_service_def
        service_ops_def service_op_names_def one_service_def empty_definition_def select_handlers_def hm_get_def
        Let_def split: prod.split list.split)
  then obtain t tables names where "build_tables echo_lib (builder_new :: nat server_builder) ?rw = Inr (t, tables, names)"
    by auto
  from services_on_one_path_shadow [OF _ _ _ path path this] this show ?thesis
    by (simp add: hm_get_def)
qed

text \<open>
  Normalising a path removes every parent component, and one that has nothing to go up
  from is dropped: a relative path that leaves its directory names a file inside it instead.
\<close>

theorem normalize_drops_leading_parents:
  "ParentDir \<notin> set (normalize_path p) \<and> normalize_path (ParentDir # p) = normalize_path p"
proof
  have "path_pop [] = []" by (simp add: path_pop_def path_parent_def)
  then show "normalize_path (ParentDir # p) = normalize_path p" by (simp add: normalize_path_def)
qed (rule normalize_no_parent)

end
