(* ===== verification/Built.thy ===== *)
theory Built
  imports Server
begin

text \<open>
  Services as the builder makes them: every table that a route answers from is made of the
  operations of the WSDL and of the builder's handlers (\<open>ServerBuilder::build\<close> and
  \<open>into_router\<close> of \<open>server.rs\<close>, \<open>build_dispatch_table\<close> of \<open>dispatch.rs\<close>).
\<close>

text \<open>The table that a mounted route answers from.\<close>

fun endpoint_table :: "'s soap_service \<Rightarrow> 's endpoint \<Rightarrow> 's dispatch_table" where
  "endpoint_table svc SingleEndpoint = svc_dispatch_table svc"
| "endpoint_table svc (ServiceEndpoint table name) = table"

lemma post_endpoint_eq:
  "post_endpoint lib svc ep h body now inst st =
     soap_post_handler lib (svc\<lparr>svc_dispatch_table := endpoint_table svc ep\<rparr>) h body now inst st"
  by (cases ep) (simp_all add: route_post_eq service_route_def)

text \<open>Checks and handlers are those of the service, whatever the table of the route.\<close>

lemma route_irrelevant [simp]:
  "authenticate lib (svc\<lparr>svc_dispatch_table := t\<rparr>) = authenticate lib svc"
  "invoke lib (svc\<lparr>svc_dispatch_table := t\<rparr>) = invoke lib svc"
proof -
  have sel: "svc_auth_fn (svc\<lparr>svc_dispatch_table := t\<rparr>) = svc_auth_fn svc"
    "svc_timestamp_tolerance_secs (svc\<lparr>svc_dispatch_table := t\<rparr>) = svc_timestamp_tolerance_secs svc"
    "svc_type_registry (svc\<lparr>svc_dispatch_table := t\<rparr>) = svc_type_registry svc"
    by simp_all
  show "authenticate lib (svc\<lparr>svc_dispatch_table := t\<rparr>) = authenticate lib svc"
    by (intro ext, unfold authenticate_def sel, rule refl)
  show "invoke lib (svc\<lparr>svc_dispatch_table := t\<rparr>) = invoke lib svc"
    by (intro ext, unfold invoke_def sel, rule refl)
qed

lemma post_endpoint_cases:
  assumes "post_endpoint lib svc ep h body now inst (cache, s) = Some (out, cache', s')"
  obtains (early) r where "open_request lib (endpoint_table svc ep) h body = Inl r"
      and "out = Respond r" "cache' = cache" "s' = s"
  | (refused) envelope entry where
      "open_request lib (endpoint_table svc ep) h body = Inr (envelope, entry)"
      and "authenticate lib svc envelope entry now inst cache = Some (Inl out, cache')" and "s' = s"
  | (invoked) envelope entry r where
      "open_request lib (endpoint_table svc ep) h body = Inr (envelope, entry)"
      and "authenticate lib svc envelope entry now inst cache = Some (Inr (), cache')"
      and "invoke lib svc envelope entry s = (r, s')" and "out = Respond r"
  using assms unfolding post_endpoint_eq by (rule soap_post_cases) (simp_all add: that)

text \<open>A WSDL with at most one service: one route, and the table of all operations.\<close>

lemma single_service_built:
  assumes "build lib inst b = Some (Inr svc)" and "load_wsdl lib b = Inr (wsdl, file)"
    and "resolve_wsdl (sl_rox lib) (select_loader lib b file) wsdl {} = Some (Inr (rw, vis))"
    and "length (hm_keys (services (rw_definition rw))) \<le> 1"
  shows "build_dispatch_table rw (sb_handlers b) (sb_auth_bypass b) (sb_default_handler b) = Inr (svc_dispatch_table svc)"
    and "svc_auth_fn svc = sb_auth_fn b" and "svc_type_registry svc = rw_type_registry rw"
    and "into_router svc = \<lparr>routes = [(sb_mount_path b, SingleEndpoint)], body_limit = sb_max_body_bytes b\<rparr>"
proof -
  from assms(1-3) obtain t ts names where
    "build_tables lib b rw = Inr (t, ts, names)"
    "svc_dispatch_table svc = t" "svc_service_tables svc = ts" "svc_auth_fn svc = sb_auth_fn b"
    "svc_type_registry svc = rw_type_registry rw" "svc_mount_path svc = sb_mount_path b"
    "svc_max_body_bytes svc = sb_max_body_bytes b"
    by (auto simp: build_def res_simps)
  with assms(4) show
    "build_dispatch_table rw (sb_handlers b) (sb_auth_bypass b) (sb_default_handler b) = Inr (svc_dispatch_table svc)"
    and "svc_auth_fn svc = sb_auth_fn b" and "svc_type_registry svc = rw_type_registry rw"
    and "into_router svc = \<lparr>routes = [(sb_mount_path b, SingleEndpoint)], body_limit = sb_max_body_bytes b\<rparr>"
    by (auto simp: build_tables_def res_simps into_router_def)
qed

lemma select_handlers_sub:
  "hm_get (select_handlers handlers names) n = Some h \<Longrightarrow> hm_get handlers n = Some h"
proof -
  have "hm_get (fold (\<lambda>n m. case hm_get handlers n of Some h \<Rightarrow> hm_insert n h m | None \<Rightarrow> m) names m0) n = Some h \<Longrightarrow>
      hm_get m0 n = Some h \<or> hm_get handlers n = Some h" for m0
    by (induction names arbitrary: m0) (fastforce split: option.splits if_splits)+
  from this [of "[]"] show "hm_get (select_handlers handlers names) n = Some h \<Longrightarrow> hm_get handlers n = Some h"
    by (simp add: select_handlers_def)
qed

text \<open>
  A table that a built service answers from: built for some scope (one service, or the whole
  WSDL) from handlers that are the builder's.
\<close>

definition table_of_builder :: "'s server_builder \<Rightarrow> resolved_wsdl \<Rightarrow> 's dispatch_table \<Rightarrow> bool" where
  "table_of_builder b rw t \<longleftrightarrow>
     (\<exists>scope handlers. (\<forall>n h. hm_get handlers n = Some h \<longrightarrow> hm_get (sb_handlers b) n = Some h) \<and>
        build_dispatch_table_from_ops (collect_ops_for_service scope rw) rw handlers
          (sb_auth_bypass b) (sb_default_handler b) = Inr t)"

lemma add_service_of_builder:
  assumes "\<forall>t \<in> set (hm_values tables). table_of_builder b rw t"
    and "add_service lib b rw name (tables, names) = Inr (tables', names')"
  shows "\<forall>t \<in> set (hm_values tables'). table_of_builder b rw t"
proof -
  obtain s t where t: "build_dispatch_table_for_service name rw
        (select_handlers (sb_handlers b) (service_op_names rw s)) (sb_auth_bypass b) (sb_default_handler b) = Inr t"
    and tables': "tables' = hm_insert (service_path lib s name) t tables"
    using assms(2) by (auto simp: add_service_def res_simps Let_def)
  from t have "table_of_builder b rw t"
    unfolding table_of_builder_def build_dispatch_table_for_service_def
    by (metis select_handlers_sub)
  with assms(1) show ?thesis using hm_values_insert unfolding tables' by fastforce
qed

lemma build_service_tables_Inr:
  assumes "build_service_tables lib b rw ns = Inr (t, tables, names)"
  shows "res_fold (add_service lib b rw) ns ([], []) = Inr (tables, names) \<and>
    t = (case hm_values tables of t # _ \<Rightarrow> t | [] \<Rightarrow> dispatch_empty)"
proof -
  from assms obtain svcs where "(case find (\<lambda>h. h \<notin> set (concat (map (service_op_names rw) svcs))) (hm_keys (sb_handlers b)) of
       Some h \<Rightarrow> Inl (BuildUnknownOperation h)
     | None \<Rightarrow>
         res_bind (res_fold (add_service lib b rw) ns ([], [])) (\<lambda>(tables, names).
         Inr (case hm_values tables of t # _ \<Rightarrow> t | [] \<Rightarrow> dispatch_empty, tables, names))) = Inr (t, tables, names)"
    unfolding build_service_tables_def Let_def res_bind_Inr_iff by blast
  then have "res_bind (res_fold (add_service lib b rw) ns ([], [])) (\<lambda>(tables, names).
         Inr (case hm_values tables of t # _ \<Rightarrow> t | [] \<Rightarrow> dispatch_empty, tables, names)) =
      (Inr (t, tables, names) :: build_error + _)"
    by (simp only: split: option.splits) simp
  then show ?thesis
    by (cases "res_fold (add_service lib b rw) ns ([], [])") auto
qed

lemma build_tables_of_builder:
  assumes "build_tables lib b rw = Inr (t, tables, names)"
  shows "(\<forall>t' \<in> set (hm_values tables). table_of_builder b rw t') \<and>
    (table_of_builder b rw t \<or> t = dispatch_empty)"
proof (cases "1 < length (hm_keys (services (rw_definition rw)))")
  case True
  with assms have "build_service_tables lib b rw (hm_keys (services (rw_definition rw))) = Inr (t, tables, names)"
    unfolding build_tables_def Let_def by (simp only: if_True)
  from build_service_tables_Inr [OF this]
  have run: "res_fold (add_service lib b rw) (hm_keys (services (rw_definition rw))) ([], []) = Inr (tables, names)"
    and t: "t = (case hm_values tables of t # _ \<Rightarrow> t | [] \<Rightarrow> dispatch_empty)"
    by blast+
  have "\<forall>t' \<in> set (hm_values (fst (tables, names))). table_of_builder b rw t'"
  proof (rule res_fold_invariant [OF _ _ run])
    show "\<forall>t' \<in> set (hm_values (fst ([], []))). table_of_builder b rw t'" by simp
  next
    fix name st st'
    assume "\<forall>t' \<in> set (hm_values (fst st)). table_of_builder b rw t'" and "add_service lib b rw name st = Inr st'"
    then show "\<forall>t' \<in> set (hm_values (fst st')). table_of_builder b rw t'"
      using add_service_of_builder [of "fst st" b rw lib name "snd st" "fst st'" "snd st'"]
      unfolding prod.collapse by blast
  qed
  then show ?thesis unfolding t fst_conv by (cases "hm_values tables") auto
next
  case False
  then have "build_dispatch_table rw (sb_handlers b) (sb_auth_bypass b) (sb_default_handler b) = Inr t"
    and "tables = []"
    using assms by (auto simp: build_tables_def res_simps map_err_def split: sum.splits)
  then show ?thesis
    unfolding table_of_builder_def build_dispatch_table_def by auto
qed

lemma mounted_table:
  assumes "load_wsdl lib b = Inr (bytes, file)"
    and "resolve_wsdl (sl_rox lib) (select_loader lib b file) bytes {} = Some (Inr (rw, vis))"
    and "build lib inst b = Some (Inr svc)" and "(p, ep) \<in> set (routes (into_router svc))"
  shows "table_of_builder b rw (endpoint_table svc ep) \<or> endpoint_table svc ep = dispatch_empty"
proof -
  obtain t tables names where "build_tables lib b rw = Inr (t, tables, names)"
    and "svc_dispatch_table svc = t" "svc_service_tables svc = tables"
    using build_eq [OF assms(1-3)] by metis
  then show ?thesis
    using build_tables_of_builder [of lib b rw t tables names] assms(4)
    by (fastforce simp: into_router_def split: if_splits)
qed

lemma routed_by_builder:
  assumes "table_of_builder b rw t \<or> t = dispatch_empty" and "route t q action = Inr e"
  obtains scope op where "op \<in> set (collect_ops_for_service scope rw)"
    and "hm_get (sb_handlers b) (fst op) = Some (handler e) \<or> sb_default_handler b = Some (handler e)"
    and "auth_required e \<longleftrightarrow> fst op \<notin> sb_auth_bypass b"
proof -
  have "t \<noteq> dispatch_empty"
    using assms(2) by (cases action) (auto simp: route_def dispatch_empty_def split: option.splits)
  with assms(1) obtain scope handlers where
    sub: "\<forall>n h. hm_get handlers n = Some h \<longrightarrow> hm_get (sb_handlers b) n = Some h" and
    t: "build_dispatch_table_from_ops (collect_ops_for_service scope rw) rw handlers
          (sb_auth_bypass b) (sb_default_handler b) = Inr t"
    unfolding table_of_builder_def by blast
  from routed_from_ops [OF t assms(2)] sub that show thesis by metis
qed

end
