(* ===== verification/Concurrent.thy ===== *)
theory Concurrent
  imports Built
begin

text \<open>
  POSTs that overlap. \<open>soap_post_handler\<close> is asynchronous: it waits for the lock of the nonce
  cache and for the handler, and other requests run in between. A request is therefore taken in
  atomic steps: it arrives; it is answered at once when it cannot be opened with the table of its route, or its token is
  checked under the lock (the guard is dropped at the end of that block, before the body is
  validated); an admitted request is invoked later. The steps of different requests interleave
  in any order; the clock is read under the lock and does not go back. A handler is one step on
  the application.
\<close>

section \<open>The system\<close>

datatype 's stage =
    Arrived "'s endpoint" headers bytes
  | Admitted parsed_envelope "'s dispatch_entry"
  | Answered outcome

record 's system =
  sy_cache :: nonce_cache
  sy_clock :: nat
  sy_app :: 's
  sy_stage :: "nat \<Rightarrow> 's stage option"

datatype 's label = Arrive nat "'s endpoint" headers bytes | Open nat | Lock nat int nat | Handle nat

fun stage_after :: "outcome + unit \<Rightarrow> parsed_envelope \<Rightarrow> 's dispatch_entry \<Rightarrow> 's stage" where
  "stage_after (Inl out) envelope entry = Answered out"
| "stage_after (Inr _) envelope entry = Admitted envelope entry"

definition set_stage :: "nat \<Rightarrow> 's stage \<Rightarrow> 's system \<Rightarrow> 's system" where
  "set_stage i g y = y\<lparr>sy_stage := (sy_stage y)(i \<mapsto> g)\<rparr>"

inductive post_step :: "server_lib \<Rightarrow> 's soap_service \<Rightarrow> 's system \<Rightarrow> 's label \<Rightarrow> 's system \<Rightarrow> bool"
  for lib svc where
  arrive: "sy_stage y i = None \<Longrightarrow> post_step lib svc y (Arrive i ep h body) (set_stage i (Arrived ep h body) y)"
| open_fails: "sy_stage y i = Some (Arrived ep h body) \<Longrightarrow>
    open_request lib (endpoint_table svc ep) h body = Inl r \<Longrightarrow>
    post_step lib svc y (Open i) (set_stage i (Answered (Respond r)) y)"
| locked: "sy_stage y i = Some (Arrived ep h body) \<Longrightarrow>
    open_request lib (endpoint_table svc ep) h body = Inr (envelope, entry) \<Longrightarrow>
    sy_clock y \<le> inst \<Longrightarrow>
    authenticate lib svc envelope entry now inst (sy_cache y) = Some (res, cache') \<Longrightarrow>
    post_step lib svc y (Lock i now inst)
      (set_stage i (stage_after res envelope entry) (y\<lparr>sy_cache := cache', sy_clock := inst\<rparr>))"
| handle: "sy_stage y i = Some (Admitted envelope entry) \<Longrightarrow>
    invoke lib svc envelope entry (sy_app y) = (r, s') \<Longrightarrow>
    post_step lib svc y (Handle i) (set_stage i (Answered (Respond r)) (y\<lparr>sy_app := s'\<rparr>))"

inductive post_run :: "server_lib \<Rightarrow> 's soap_service \<Rightarrow> 's system \<Rightarrow> 's label list \<Rightarrow> 's system \<Rightarrow> bool"
  for lib svc where
  run_done [simp, intro]: "post_run lib svc y [] y"
| run_step: "post_step lib svc y l y1 \<Longrightarrow> post_run lib svc y1 ls y' \<Longrightarrow> post_run lib svc y (l # ls) y'"

inductive_cases ArriveE: "post_step lib svc y (Arrive i ep h body) y'"
inductive_cases OpenE: "post_step lib svc y (Open i) y'"
inductive_cases LockE: "post_step lib svc y (Lock i now inst) y'"
inductive_cases HandleE: "post_step lib svc y (Handle i) y'"
inductive_simps post_run_Nil [simp]: "post_run lib svc y [] y'"
inductive_simps post_run_Cons: "post_run lib svc y (l # ls) y'"

lemmas post_stepE = ArriveE OpenE LockE HandleE

lemma set_stage_sel [simp]:
  "sy_cache (set_stage i g y) = sy_cache y" "sy_clock (set_stage i g y) = sy_clock y"
  "sy_app (set_stage i g y) = sy_app y" "sy_stage (set_stage i g y) = (sy_stage y)(i \<mapsto> g)"
  by (simp_all add: set_stage_def)

fun is_lock :: "'s label \<Rightarrow> bool" where
  "is_lock (Lock _ _ _) = True"
| "is_lock _ = False"

section \<open>The sequential server is one schedule\<close>

text \<open>A POST that runs alone takes its steps one after the other.\<close>

lemma serve_is_a_run:
  assumes "post_endpoint lib svc ep h body now inst (sy_cache y, sy_app y) = Some (out, cache', s')"
    and "sy_stage y i = None" and "sy_clock y \<le> inst"
  shows "\<exists>ls y'. post_run lib svc y ls y' \<and> sy_cache y' = cache' \<and> sy_app y' = s' \<and>
    sy_stage y' = (sy_stage y)(i \<mapsto> Answered out)"
  using assms(1)
proof (cases rule: post_endpoint_cases)
  case (early r)
  let ?y = "set_stage i (Answered (Respond r)) (set_stage i (Arrived ep h body) y)"
  have "post_run lib svc y [Arrive i ep h body, Open i] ?y"
    using assms(2) early(1) by (auto simp: post_run_Cons intro!: exI post_step.intros)
  with early show ?thesis by (intro exI [of _ "[Arrive i ep h body, Open i]"] exI [of _ ?y]) simp
next
  case (refused envelope entry)
  let ?y = "set_stage i (Answered out) ((set_stage i (Arrived ep h body) y)\<lparr>sy_cache := cache', sy_clock := inst\<rparr>)"
  have "post_run lib svc y [Arrive i ep h body, Lock i now inst] ?y"
    using assms(2,3) refused
    by (auto simp: post_run_Cons intro!: exI [of _ "set_stage i (Arrived ep h body) y"] arrive
        locked [where res = "Inl out", simplified])
  with refused show ?thesis by (intro exI [of _ "[Arrive i ep h body, Lock i now inst]"] exI [of _ ?y]) simp
next
  case (invoked envelope entry r)
  let ?y1 = "set_stage i (Arrived ep h body) y"
  let ?y2 = "set_stage i (Admitted envelope entry) (?y1\<lparr>sy_cache := cache', sy_clock := inst\<rparr>)"
  let ?y = "set_stage i (Answered out) (?y2\<lparr>sy_app := s'\<rparr>)"
  have "post_step lib svc y (Arrive i ep h body) ?y1" using assms(2) by (rule arrive)
  moreover have "post_step lib svc ?y1 (Lock i now inst) ?y2"
    using assms(3) invoked(1,2) locked [of ?y1 i ep h body lib svc envelope entry inst now "Inr ()"] by simp
  moreover have "post_step lib svc ?y2 (Handle i) ?y"
    using invoked(3,4) handle [of ?y2 i envelope entry lib svc r s'] by simp
  ultimately have "post_run lib svc y [Arrive i ep h body, Lock i now inst, Handle i] ?y"
    by (meson run_step run_done)
  then show ?thesis by (intro exI [of _ "[Arrive i ep h body, Lock i now inst, Handle i]"] exI [of _ ?y]) simp
qed

section \<open>The nonce cache under interleaving\<close>

text \<open>The nonce of the token that a request carries.\<close>

definition carries :: "server_lib \<Rightarrow> parsed_envelope \<Rightarrow> string \<Rightarrow> bool" where
  "carries lib envelope n \<longleftrightarrow>
     (\<exists>security token. find_security_header (sl_tok lib) (header_children envelope) = Some security \<and>
        parse_username_token (wl_tok (sl_wss lib)) security = Inr token \<and> ut_nonce token = Some n)"

lemma authenticate_checks:
  assumes "authenticate lib svc envelope entry now inst cache = Some (Inr u, cache')"
    and "auth_required entry" and "svc_auth_fn svc = Some auth" and "carries lib envelope n"
  shows "check_and_insert inst n cache = Some (Inr (), cache')"
proof -
  obtain security token where s: "find_security_header (sl_tok lib) (header_children envelope) = Some security"
    "parse_username_token (wl_tok (sl_wss lib)) security = Inr token" "ut_nonce token = Some n"
    using assms(4) by (auto simp: carries_def)
  obtain user where "validate_username_token (sl_wss lib) security auth cache
      (svc_timestamp_tolerance_secs svc) now inst = Some (Inr user, cache')"
    using authenticate_Ok [OF assms(1-3)] s(1) by auto
  then obtain token0 where "token_checked (sl_wss lib) security auth (svc_timestamp_tolerance_secs svc) now = Inr token0"
    and "case ut_nonce token0 of None \<Rightarrow> cache' = cache
         | Some n \<Rightarrow> check_and_insert inst n cache = Some (Inr (), cache')"
    by (rule validate_Ok_nonce)
  with token_checked_parses s(2,3) show ?thesis by fastforce
qed

lemma post_step_cache:
  assumes "post_step lib svc y l y'"
  shows "sy_clock y \<le> sy_clock y' \<and>
    (sy_cache y' = sy_cache y \<or>
     is_lock l \<and> (\<exists>n r. check_and_insert (sy_clock y') n (sy_cache y) = Some (r, sy_cache y')))"
  using assms by cases (auto dest: authenticate_cache)

text \<open>To the cache an interleaving is a run of checks, at most one for each lock, in clock order.\<close>

lemma post_run_checks:
  assumes "post_run lib svc y ls y'"
  shows "0 < half_window_secs (sy_cache y) \<Longrightarrow>
    \<exists>xs rs. run_checks xs (sy_cache y) = Some (rs, sy_cache y') \<and> length xs \<le> length (filter is_lock ls) \<and>
      (\<forall>(t, m) \<in> set xs. sy_clock y \<le> t \<and> t \<le> sy_clock y') \<and> sy_clock y \<le> sy_clock y'"
  using assms
proof (induction rule: post_run.induct)
  case (run_done y)
  then show ?case by (intro exI [of _ "[]"]) simp
next
  case (run_step y l y1 ls y')
  note step = post_step_cache [OF run_step.hyps(1)]
  show ?case
  proof (cases "sy_cache y1 = sy_cache y")
    case True
    then obtain xs rs where xs: "run_checks xs (sy_cache y) = Some (rs, sy_cache y')"
      "length xs \<le> length (filter is_lock ls)" "\<forall>(t, m) \<in> set xs. sy_clock y1 \<le> t \<and> t \<le> sy_clock y'"
      "sy_clock y1 \<le> sy_clock y'"
      using run_step.IH run_step.prems by auto
    then have "\<forall>(t, m) \<in> set xs. sy_clock y \<le> t \<and> t \<le> sy_clock y'" using step by fastforce
    with xs step show ?thesis by (intro exI [of _ xs] exI [of _ rs]) auto
  next
    case False
    with step obtain n r where l: "is_lock l"
      and check: "check_and_insert (sy_clock y1) n (sy_cache y) = Some (r, sy_cache y1)" by blast
    then have "0 < half_window_secs (sy_cache y1)"
      using run_step.prems by (auto simp: check_and_insert_eq dest: arg_cong [where f = "\<lambda>x. half_window_secs (snd x)"])
    then obtain xs rs where xs: "run_checks xs (sy_cache y1) = Some (rs, sy_cache y')"
      "length xs \<le> length (filter is_lock ls)" "\<forall>(t, m) \<in> set xs. sy_clock y1 \<le> t \<and> t \<le> sy_clock y'"
      "sy_clock y1 \<le> sy_clock y'"
      using run_step.IH by auto
    then have "\<forall>(t, m) \<in> set ((sy_clock y1, n) # xs). sy_clock y \<le> t \<and> t \<le> sy_clock y'"
      using step by fastforce
    with xs l check step show ?thesis
      by (intro exI [of _ "(sy_clock y1, n) # xs"] exI [of _ "r # rs"]) (auto simp: run_checks_step)
  qed
qed

section \<open>Checks return\<close>

lemma nonce_validate_returns:
  assumes "\<And>n. \<exists>r c'. check_and_insert inst n cache = Some (r, c')"
  shows "\<exists>r c'. validate_username_token lib security auth cache tol now inst = Some (r, c')"
proof (cases "token_checked lib security auth tol now")
  case (Inr token)
  show ?thesis
  proof (cases "ut_nonce token")
    case (Some n)
    obtain r c' where c: "check_and_insert inst n cache = Some (r, c')" using assms by blast
    show ?thesis by (cases r) (auto simp: validate_eq Inr Some c)
  qed (simp add: validate_eq Inr)
qed (simp add: validate_eq)

lemma authenticate_returns:
  assumes "0 < half_window_secs cache"
  shows "\<exists>res cache'. authenticate lib svc envelope entry now inst cache = Some (res, cache')"
proof -
  have returns: "\<exists>r c'. validate_username_token (sl_wss lib) security auth cache tol now inst = Some (r, c')"
    for security auth tol
  proof -
    have "\<exists>r c'. check_and_insert inst n cache = Some (r, c')" for n
      using nonces.check_returns [OF assms, of inst n] by blast
    then show ?thesis by (rule nonce_validate_returns)
  qed
  show ?thesis
  proof (cases "auth_required entry \<and> svc_auth_fn svc \<noteq> None")
    case True
    then obtain auth where auth: "auth_required entry" "svc_auth_fn svc = Some auth" by auto
    show ?thesis
    proof (cases "find_security_header (sl_tok lib) (header_children envelope)")
      case (Some security)
      from returns [of security auth] obtain r c' where
        "validate_username_token (sl_wss lib) security auth cache (svc_timestamp_tolerance_secs svc) now inst
           = Some (r, c')" by blast
      with Some auth show ?thesis
        by (cases r) (auto simp: authenticate_def Let_def split: failure.splits)
    qed (use auth in \<open>auto simp: authenticate_def\<close>)
  qed (auto simp: authenticate_def)
qed

section \<open>Properties\<close>

text \<open>
  C6. A replay loses the race too: once a request with some nonce has been admitted, every other
  request with that nonce, on any route, even one that was already being processed, is refused
  without its
  handler being run when its token is checked within half a window, whatever steps of whatever
  requests on whatever routes come in between, up to the capacity of the nonce cache in checks.
\<close>

theorem concurrent_replay_is_refused:
  assumes "0 < half_window_secs (sy_cache y)" and "finite (current (sy_cache y))" and "svc_auth_fn svc = Some auth"
    and "post_step lib svc y (Lock i now inst) y1" and "sy_stage y1 i = Some (Admitted envelope entry)"
    and "auth_required entry" and "carries lib envelope n"
    and "post_run lib svc y1 ls y2" and "length (filter is_lock ls) \<le> max_entries (sy_cache y)"
    and "sy_stage y2 j = Some (Arrived ep h body)"
    and "open_request lib (endpoint_table svc ep) h body = Inr (envelope', entry')"
    and "auth_required entry'" and "carries lib envelope' n"
    and "post_step lib svc y2 (Lock j now' inst') y3" and "inst' < inst + half_window_nanos (sy_cache y)"
  shows "\<exists>out. sy_stage y3 j = Some (Answered out) \<and> \<not> answered_ok out \<and> sy_app y3 = sy_app y2"
proof -
  from assms(4,5) have admitted: "authenticate lib svc envelope entry now inst (sy_cache y) = Some (Inr (), sy_cache y1)"
    and clock1: "sy_clock y1 = inst"
    by (auto elim!: LockE) (metis (full_types) stage.distinct(5) stage.inject(2) stage_after.elims old.unit.exhaust)+
  have check: "check_and_insert inst n (sy_cache y) = Some (Inr (), sy_cache y1)"
    by (rule authenticate_checks [OF admitted assms(6,3,7)])
  then have "0 < half_window_secs (sy_cache y1)"
    using assms(1) by (auto simp: check_and_insert_eq dest: arg_cong [where f = "\<lambda>x. half_window_secs (snd x)"])
  then obtain xs rs where run: "run_checks xs (sy_cache y1) = Some (rs, sy_cache y2)"
    and len: "length xs \<le> length (filter is_lock ls)"
    and times: "\<forall>(t, m) \<in> set xs. inst \<le> t \<and> t \<le> sy_clock y2"
    using post_run_checks [OF assms(8)] clock1 by auto
  from assms(14,10,11) obtain res cache' where clock2: "sy_clock y2 \<le> inst'"
    and auth2: "authenticate lib svc envelope' entry' now' inst' (sy_cache y2) = Some (res, cache')"
    and y3: "y3 = set_stage j (stage_after res envelope' entry') (y2\<lparr>sy_cache := cache', sy_clock := inst'\<rparr>)"
    by (auto elim!: LockE)
  have "\<exists>c2. check_and_insert inst' n (sy_cache y2) = Some (Inl replay_fault, c2)"
  proof (rule nonce_refused [OF assms(1,2) check _ _ run assms(15)])
    show "length xs \<le> max_entries (sy_cache y)" using len assms(9) by simp
    show "\<forall>(t', m) \<in> set xs. inst \<le> t' \<and> t' < inst + half_window_nanos (sy_cache y)"
      using times clock2 assms(15) by fastforce
  qed
  then obtain out where "res = Inl out"
    using authenticate_checks [of lib svc envelope' entry' now' inst' "sy_cache y2" _ cache' auth n] auth2 assms(3,12,13)
    by (cases res) auto
  with auth2 have "\<not> answered_ok out" using authenticate_refuses by blast
  then show ?thesis by (simp add: y3 \<open>res = Inl out\<close>)
qed

text \<open>Two copies of one request that have both arrived before the first token is checked.\<close>

definition racing :: "nat system" where
  "racing = \<lparr>sy_cache = sample_cache, sy_clock = 0, sy_app = 0,
     sy_stage = [0 \<mapsto> Arrived SingleEndpoint soap12_headers ''req'', 1 \<mapsto> Arrived SingleEndpoint soap12_headers ''req'']\<rparr>"

definition racing_admitted :: "nat system" where
  "racing_admitted = set_stage 0 (Admitted echo_envelope echo_entry)
     (racing\<lparr>sy_cache := sample_cache\<lparr>current := {''abc''}\<rparr>, sy_clock := 5\<rparr>)"

lemma racing_opened:
  "open_request echo_lib (endpoint_table echo_service SingleEndpoint) soap12_headers ''req'' = Inr (echo_envelope, echo_entry)"
  by (simp add: echo_service_def echo_open)

lemma racing_first: "post_step echo_lib echo_service racing (Lock 0 5 5) racing_admitted"
  using locked [OF _ racing_opened, of racing 0 5 5 "Inr ()" "sample_cache\<lparr>current := {''abc''}\<rparr>"] echo_authenticate
  by (simp add: racing_def racing_admitted_def)

lemma racing_second:
  assumes "sy_stage y 1 = Some (Arrived SingleEndpoint soap12_headers ''req'')" and "sy_clock y \<le> 6"
    and "0 < half_window_secs (sy_cache y)"
  shows "\<exists>y'. post_step echo_lib echo_service y (Lock 1 6 6) y'"
  using authenticate_returns [OF assms(3), of echo_lib echo_service echo_envelope echo_entry 6 6]
    locked [OF assms(1) racing_opened assms(2)] by blast

lemma concurrent_replay_is_refused_witness:
  "\<exists>y3 out. post_run echo_lib echo_service racing [Lock 0 5 5, Lock 1 6 6] y3 \<and>
     sy_stage racing_admitted 0 = Some (Admitted echo_envelope echo_entry) \<and>
     sy_stage y3 1 = Some (Answered out) \<and> \<not> answered_ok out"
proof -
  have arrived: "sy_stage racing_admitted 1 = Some (Arrived SingleEndpoint soap12_headers ''req'')"
    by (simp add: racing_admitted_def racing_def)
  then obtain y3 where second: "post_step echo_lib echo_service racing_admitted (Lock 1 6 6) y3"
    using racing_second [of racing_admitted]
    by (auto simp: racing_admitted_def racing_def sample_cache_def with_max_entries_def)
  have carried: "carries echo_lib echo_envelope ''abc''"
    using echo_security echo_token sample_parse(1) by (auto simp: carries_def echo_envelope_def)
  have fields: "svc_auth_fn echo_service = Some sample_passwords" "auth_required echo_entry"
    by (simp_all add: echo_service_def echo_entry_def)
  have "\<exists>out. sy_stage y3 1 = Some (Answered out) \<and> \<not> answered_ok out \<and> sy_app y3 = sy_app racing_admitted"
    by (rule concurrent_replay_is_refused [OF _ _ fields(1) racing_first _ fields(2) carried run_done _ arrived
          racing_opened fields(2) carried second])
      (simp_all add: racing_admitted_def racing_def sample_cache_def with_max_entries_def half_window_nanos_def
        nanos_per_sec_def)
  with racing_first second show ?thesis
    by (auto simp: racing_admitted_def intro: post_run.intros)
qed

end
