(* ===== verification/XmlWrite.thy ===== *)
theory XmlWrite
  imports XmlModel QName
begin

text \<open>
  Vocabulary for writing components as element trees, the specification side of the WSDL and
  the schema parser: qualified names under a choice of prefixes, optional attributes, decimal
  numbers and lists separated by spaces, each with the reading that gives it back, and the
  loops that read one written entry after the other into a table.
\<close>

type_synonym scope = "(string option \<times> string) list"

section \<open>Writing names and attributes\<close>

text \<open>A qualified name, given the prefix of each namespace.\<close>

definition qname_text :: "(string \<Rightarrow> string) \<Rightarrow> qname \<Rightarrow> string" where
  "qname_text pf q =
     (case namespace q of Some ns \<Rightarrow> pf ns @ '':'' @ local_name q | None \<Rightarrow> local_name q)"

text \<open>
  When the name reads back in a scope: the prefix is bound to the namespace there; a name
  without one needs a scope without default namespace.
\<close>

definition qname_writable :: "(string option \<times> string) list \<Rightarrow> (string \<Rightarrow> string) \<Rightarrow> qname \<Rightarrow> bool" where
  "qname_writable nss pf q \<longleftrightarrow>
     (case namespace q of
        Some ns \<Rightarrow> CHR '':'' \<notin> set (pf ns) \<and> find (\<lambda>(p, _). p = Some (pf ns)) nss = Some (Some (pf ns), ns)
      | None \<Rightarrow> CHR '':'' \<notin> set (local_name q) \<and> find (\<lambda>(p, _). p = None) nss = None)"

definition opt_attr :: "string \<Rightarrow> string option \<Rightarrow> (string option \<times> string \<times> string) list" where
  "opt_attr a v = (case v of Some s \<Rightarrow> [(None, a, s)] | None \<Rightarrow> [])"

text \<open>\<open>Option::or\<close>.\<close>

fun option_or :: "'a option \<Rightarrow> 'a option \<Rightarrow> 'a option" where
  "option_or (Some x) y = Some x"
| "option_or None y = y"

lemma option_or_None [simp]: "option_or x None = x"
  by (cases x) simp_all

lemma node_attribute_simps [simp]:
  "node_attribute (Elem ns l [] nss cs) a = None"
  "node_attribute (Elem ns l ((None, b, v) # as) nss cs) a =
     (if b = a then Some v else node_attribute (Elem ns l as nss cs) a)"
  "node_attribute (Elem ns l (opt_attr b w @ as) nss cs) a =
     (if b = a then option_or w (node_attribute (Elem ns l as nss cs) a)
      else node_attribute (Elem ns l as nss cs) a)"
  "node_attribute (Elem ns l (opt_attr b w) nss cs) a = (if b = a then w else None)"
  by (auto simp: node_attribute_def opt_attr_def split: option.splits)

section \<open>Numbers and lists\<close>

text \<open>A 64-bit number in decimal reads back.\<close>

lemma byte_digit [simp]: "d < 10 \<Longrightarrow> byte (char_of (48 + d :: nat)) = 48 + d"
  by (simp add: byte_def)

lemma parse_digits_snoc:
  "parse_digits acc (s @ [c]) =
     (case parse_digits acc s of None \<Rightarrow> None | Some v \<Rightarrow> parse_digits v [c])"
  by (induction acc s rule: parse_digits.induct) (simp_all add: Let_def)

lemma parse_digits_decimal: "n < u64_bound \<Longrightarrow> parse_digits 0 (nat_to_string n) = Some n"
proof (induction n rule: less_induct)
  case (less n)
  show ?case
  proof (cases "n < 10")
    case True
    with less.prems show ?thesis
      by (subst nat_to_string.simps) (simp add: in_range_def Let_def)
  next
    case False
    moreover have "n div 10 < u64_bound" using less.prems by linarith
    ultimately have "parse_digits 0 (nat_to_string (n div 10)) = Some (n div 10)"
      using less.IH [of "n div 10"] by simp
    then show ?thesis
      using False less.prems
      by (subst nat_to_string.simps) (simp add: parse_digits_snoc in_range_def Let_def)
  qed
qed

lemma decimal_no_letter:
  assumes "byte c < 48 \<or> 57 < byte c"
  shows "c \<notin> set (nat_to_string n)"
  using assms by (auto dest!: nat_to_string_digits)

lemma parse_decimal [simp]: "n < u64_bound \<Longrightarrow> parse_u64 (nat_to_string n) = Some n"
  using parse_digits_decimal [of n] decimal_no_letter [of "CHR ''+''" n]
  by (cases "nat_to_string n") (auto simp: parse_u64_def byte_def)

lemma decimal_not_unbounded [simp]: "nat_to_string n \<noteq> ''unbounded''"
  using decimal_no_letter [of "CHR ''u''" n] by (auto simp: byte_def)

text \<open>A list of words, with a space after each; a word holds no byte that starts white space.\<close>

definition ws_lead :: "char \<Rightarrow> bool" where
  "ws_lead c \<longleftrightarrow> byte c \<in> {9, 10, 11, 12, 13, 32, 0xC2, 0xE1, 0xE2, 0xE3}"

definition plain_word :: "string \<Rightarrow> bool" where
  "plain_word w \<longleftrightarrow> w \<noteq> [] \<and> list_all (\<lambda>c. \<not> ws_lead c) w"

definition word_list :: "string list \<Rightarrow> string" where
  "word_list ws = concat (map (\<lambda>w. w @ '' '') ws)"

lemma ws_len_plain: "\<not> ws_lead c \<Longrightarrow> ws_len (c # s) = 0"
  by (auto simp: ws_len_def ws_lead_def)

lemma split_ws_aux_word:
  "list_all (\<lambda>c. \<not> ws_lead c) w \<Longrightarrow> split_ws_aux acc (w @ s) = split_ws_aux (rev w @ acc) s"
proof (induction w arbitrary: acc)
  case (Cons c w)
  then show ?case by (subst split_ws_aux.simps) (simp add: ws_len_plain)
qed simp

lemma split_whitespace_words [simp]: "list_all plain_word ws \<Longrightarrow> split_whitespace (word_list ws) = ws"
proof (induction ws)
  case Nil
  show ?case by (simp add: split_whitespace_def word_list_def split_ws_aux.simps)
next
  case (Cons w ws)
  have space: "ws_len (CHR '' '' # s) = 1" for s by (simp add: ws_len_def byte_def)
  from Cons.prems have "w \<noteq> []" and "list_all (\<lambda>c. \<not> ws_lead c) w" by (simp_all add: plain_word_def)
  then have "split_whitespace (word_list (w # ws)) = w # split_whitespace (word_list ws)"
    unfolding split_whitespace_def word_list_def
    by (simp add: split_ws_aux_word split_ws_aux.simps [of "rev w"] space)
  with Cons show ?case by simp
qed

section \<open>Loops over written elements\<close>

definition opt_list :: "'a option \<Rightarrow> 'a list" where
  "opt_list x = (case x of Some y \<Rightarrow> [y] | None \<Rightarrow> [])"

lemma opt_list_simps [simp]: "opt_list None = []" "opt_list (Some x) = [x]"
  by (simp_all add: opt_list_def)

text \<open>A loop over written elements, and the collection of their readings.\<close>

lemma res_map_written:
  "(\<And>x. x \<in> set xs \<Longrightarrow> f (pr x) = Inr x) \<Longrightarrow> res_map f (map pr xs) = Inr xs"
  by (induction xs) simp_all

lemma filter_written:
  "(\<And>x. P (pr x)) \<Longrightarrow> filter P (map pr xs) = map pr xs"
  by (induction xs) simp_all

lemma fold_written:
  "(\<And>x s. x \<in> set xs \<Longrightarrow> f (pr x) (g s) = g (s @ [x])) \<Longrightarrow> fold f (map pr xs) (g s) = g (s @ xs)"
  by (induction xs arbitrary: s) simp_all

lemma res_fold_total: "res_fold (\<lambda>x s. Inr (f x s)) xs s = Inr (fold f xs s)"
  by (induction xs arbitrary: s) simp_all

lemma filter_elements [simp]: "(\<And>x. is_element (pr x)) \<Longrightarrow> filter is_element (map pr xs) = map pr xs"
  by (rule filter_written)

section \<open>Tables filled by a loop\<close>

lemma update_append_notin: "k \<notin> fst ` set m \<Longrightarrow> AList.update k v m = m @ [(k, v)]"
  by (induction m) auto

text \<open>A table of a definition, as a loop that files one entry at a time uses it.\<close>

locale table_field =
  fixes table :: "'d \<Rightarrow> ('k, 'v) hashmap"
    and set_table :: "('k, 'v) hashmap \<Rightarrow> 'd \<Rightarrow> 'd"
  assumes table_set: "table (set_table m d) = m"
    and set_set: "set_table m (set_table m' d) = set_table m d"
    and set_table: "set_table (table d) d = d"
begin

lemma entries_filed:
  assumes "\<And>k v d. (k, v) \<in> set kvs \<Longrightarrow> f (pr v) d = Inr (set_table (hm_insert k v (table d)) d)"
    and "hm_wf (table d @ kvs)"
  shows "res_fold f (map pr (hm_values kvs)) d = Inr (set_table (table d @ kvs) d)"
  using assms
proof (induction kvs arbitrary: d)
  case Nil
  then show ?case by (simp add: set_table)
next
  case (Cons kv kvs)
  obtain k v where kv: "kv = (k, v)" by force
  have "hm_insert k v (table d) = table d @ [(k, v)]"
    using Cons.prems(2) by (simp add: kv hm_insert_def update_append_notin)
  then have "f (pr v) d = Inr (set_table (table d @ [(k, v)]) d)"
    using Cons.prems(1) [of k v d] kv by simp
  moreover have "res_fold f (map pr (hm_values kvs)) (set_table (table d @ [(k, v)]) d) =
      Inr (set_table (table d @ kv # kvs) d)"
    using Cons.IH [of "set_table (table d @ [(k, v)]) d"] Cons.prems by (simp add: table_set set_set kv)
  ultimately show ?case by (simp add: kv)
qed

text \<open>The same for the values of a table that is keyed by them.\<close>

lemma keyed_filed:
  assumes "hm_wf kvs" and "\<And>k v. (k, v) \<in> set kvs \<Longrightarrow> k = key v" and "list_all ok (hm_values kvs)" and "table d = []"
    and step: "\<And>v d. ok v \<Longrightarrow> f (pr v) d = Inr (set_table (hm_insert (key v) v (table d)) d)"
  shows "res_fold f (map pr (hm_values kvs)) d = Inr (set_table kvs d)"
proof -
  have "f (pr v) d' = Inr (set_table (hm_insert k v (table d')) d')" if "(k, v) \<in> set kvs" for k v d'
    using step [of v d'] assms(2) [OF that] assms(3) that by (fastforce simp: list_all_iff)
  then have "res_fold f (map pr (hm_values kvs)) d = Inr (set_table (table d @ kvs) d)"
    by (rule entries_filed) (use assms(1,4) in simp_all)
  with assms(4) show ?thesis by simp
qed

lemma entries_folded:
  assumes "\<And>k v d. (k, v) \<in> set kvs \<Longrightarrow> f (pr v) d = set_table (hm_insert k v (table d)) d"
    and "hm_wf (table d @ kvs)"
  shows "fold f (map pr (hm_values kvs)) d = set_table (table d @ kvs) d"
proof -
  have "res_fold (\<lambda>x s. Inr (f x s) :: unit + 'd) (map pr (hm_values kvs)) d = Inr (set_table (table d @ kvs) d)"
    using assms by (intro entries_filed) simp_all
  then show ?thesis by (simp add: res_fold_total del: map_map)
qed

end

end
