(* ===== verification/ServiceWsdl.thy ===== *)
theory ServiceWsdl
  imports Built XmlDoc XmlWrite
begin

text \<open>
  What a service with several routes advertises. On the tree of a WSDL document,
  \<open>rewrite_wsdl_address_for_service\<close> of \<open>wsdl/resolver.rs\<close> is \<open>relocate_service\<close>: it moves the
  addresses inside the ports of one service and leaves the rest; and the routes that
  \<open>into_router\<close> of \<open>server.rs\<close> mounts are one per service, at the path of its first port.
\<close>

section \<open>WSDL documents as trees\<close>

text \<open>A node that neither is nor contains a service or a port.\<close>

fun plain_node :: "xml \<Rightarrow> bool" where
  "plain_node (XElem res n as cs) \<longleftrightarrow>
     utf8_valid n \<and> event_local n \<noteq> ''service'' \<and> event_local n \<noteq> ''port'' \<and> list_all plain_node cs"
| "plain_node (XEmpty res n as) \<longleftrightarrow> utf8_valid n \<and> event_local n \<noteq> ''service'' \<and> event_local n \<noteq> ''port''"
| "plain_node _ \<longleftrightarrow> True"

fun node_label :: "xml \<Rightarrow> string" where
  "node_label (XElem res n as cs) = name_attr (tag_of n as)"
| "node_label _ = []"

fun inner_nodes :: "xml \<Rightarrow> xml list" where
  "inner_nodes (XElem res n as cs) = cs"
| "inner_nodes _ = []"

fun port_node :: "xml \<Rightarrow> bool" where
  "port_node (XElem res n as cs) \<longleftrightarrow>
     event_local n = ''port'' \<and> name_attr (tag_of n as) \<noteq> [] \<and> list_all plain_node cs"
| "port_node _ \<longleftrightarrow> False"

fun service_node :: "xml \<Rightarrow> bool" where
  "service_node (XElem res n as cs) \<longleftrightarrow>
     event_local n = ''service'' \<and> list_all (\<lambda>c. plain_node c \<or> port_node c) cs"
| "service_node _ \<longleftrightarrow> False"

fun wsdl_tree :: "xml \<Rightarrow> bool" where
  "wsdl_tree (XElem res n as cs) \<longleftrightarrow>
     event_local n \<noteq> ''service'' \<and> event_local n \<noteq> ''port'' \<and> list_all (\<lambda>c. plain_node c \<or> service_node c) cs"
| "wsdl_tree _ \<longleftrightarrow> False"

lemma plain_not_port [simp]: "plain_node x \<Longrightarrow> \<not> port_node x" "plain_node x \<Longrightarrow> \<not> service_node x"
  by (cases x; simp)+

text \<open>The names of the ports of a service node, and of the services with a name.\<close>

definition port_labels :: "xml \<Rightarrow> string set" where
  "port_labels x = node_label ` set (filter port_node (inner_nodes x))"

definition labels_of_service :: "string \<Rightarrow> xml list \<Rightarrow> string set" where
  "labels_of_service svc xs = \<Union> (port_labels ` set (filter (\<lambda>c. service_node c \<and> node_label c = svc) xs))"

section \<open>Moving the addresses of a service\<close>

definition set_location :: "bytes \<Rightarrow> (bytes \<times> bytes) list \<Rightarrow> (bytes \<times> bytes) list" where
  "set_location u as = map (\<lambda>(k, v). (k, if k = ''location'' then u else v)) as"

fun relocate :: "bytes \<Rightarrow> xml \<Rightarrow> xml" where
  "relocate u (XElem res n as cs) =
     XElem res n (if event_local n = ''address'' then set_location u as else as) (map (relocate u) cs)"
| "relocate u (XEmpty res n as) = XEmpty res n (if event_local n = ''address'' then set_location u as else as)"
| "relocate u x = x"

fun relocate_port :: "bytes \<Rightarrow> xml \<Rightarrow> xml" where
  "relocate_port u (XElem res n as cs) =
     (if port_node (XElem res n as cs) then XElem res n as (map (relocate u) cs) else XElem res n as cs)"
| "relocate_port u x = x"

fun relocate_ports :: "bytes \<Rightarrow> string \<Rightarrow> xml \<Rightarrow> xml" where
  "relocate_ports u svc (XElem res n as cs) =
     (if service_node (XElem res n as cs) \<and> name_attr (tag_of n as) = svc
      then XElem res n as (map (relocate_port u) cs) else XElem res n as cs)"
| "relocate_ports u svc x = x"

fun relocate_service :: "bytes \<Rightarrow> string \<Rightarrow> xml \<Rightarrow> xml" where
  "relocate_service u svc (XElem res n as cs) = XElem res n as (map (relocate_ports u svc) cs)"
| "relocate_service u svc x = x"

section \<open>The first pass collects the ports of the service\<close>

lemma scan_plain:
  "plain_node x \<Longrightarrow> in_target_service s \<longrightarrow> 1 \<le> service_depth s \<Longrightarrow>
   port_scan_loop svc (events x @ r) s = port_scan_loop svc r s"
proof (induction x arbitrary: s r)
  case (XElem res n as cs)
  have kids: "port_scan_loop svc (all_events ys @ r') s' = port_scan_loop svc r' s'"
    if "set ys \<subseteq> set cs" "in_target_service s' \<longrightarrow> 1 \<le> service_depth s'" for ys s' r'
    using that
  proof (induction ys)
    case (Cons y ys)
    then show ?case using XElem.IH [of y s' "all_events ys @ r'"] XElem.prems(1) by (auto simp: list_all_iff)
  qed simp
  show ?case
  proof (cases "in_target_service s")
    case True
    with XElem.prems kids [of cs "s\<lparr>service_depth := service_depth s + 1\<rparr>" "Inr (res, EvEnd n) # r"]
    show ?thesis by (simp add: Let_def)
  next
    case False
    with XElem.prems kids [of cs s "Inr (res, EvEnd n) # r"] show ?thesis by simp
  qed
qed simp_all

lemma scan_plain_all:
  "list_all plain_node xs \<Longrightarrow> in_target_service s \<longrightarrow> 1 \<le> service_depth s \<Longrightarrow>
   port_scan_loop svc (all_events xs @ r) s = port_scan_loop svc r s"
  by (induction xs) (simp_all add: scan_plain)

abbreviation scanned :: "string set \<Rightarrow> bool \<Rightarrow> int \<Rightarrow> port_scan" where
  "scanned P b d \<equiv> \<lparr>sc_ports = P, in_target_service = b, service_depth = d\<rparr>"

lemma scan_target_children:
  "list_all (\<lambda>c. plain_node c \<or> port_node c) cs \<Longrightarrow>
   port_scan_loop svc (all_events cs @ r) (scanned P True 1) =
     port_scan_loop svc r (scanned (P \<union> node_label ` set (filter port_node cs)) True 1)"
proof (induction cs arbitrary: P)
  case (Cons c cs)
  show ?case
  proof (cases "port_node c")
    case True
    then obtain res n as ds where c: "c = XElem res n as ds" by (cases c) auto
    with True have "port_scan_loop svc (events c @ all_events cs @ r) (scanned P True 1) =
        port_scan_loop svc (all_events cs @ r) (scanned (insert (node_label c) P) True 1)"
      using scan_plain_all [of ds "scanned (insert (node_label c) P) True 2" svc "Inr (res, EvEnd n) # all_events cs @ r"]
      by (simp add: Let_def note_port_def)
    with Cons True show ?thesis by simp
  next
    case False
    with Cons.prems have "plain_node c" by simp
    with Cons False show ?thesis by (simp add: scan_plain)
  qed
qed simp

lemma scan_other_children:
  "list_all (\<lambda>c. plain_node c \<or> port_node c) cs \<Longrightarrow>
   port_scan_loop svc (all_events cs @ r) (scanned P False 0) = port_scan_loop svc r (scanned P False 0)"
proof (induction cs)
  case (Cons c cs)
  show ?case
  proof (cases "port_node c")
    case True
    then obtain res n as ds where c: "c = XElem res n as ds" by (cases c) auto
    with True have "port_scan_loop svc (events c @ all_events cs @ r) (scanned P False 0) =
        port_scan_loop svc (all_events cs @ r) (scanned P False 0)"
      using scan_plain_all [of ds "scanned P False 0" svc "Inr (res, EvEnd n) # all_events cs @ r"] by simp
    with Cons show ?thesis by simp
  next
    case False
    with Cons show ?thesis by (simp add: scan_plain)
  qed
qed simp

lemma scan_services:
  "list_all (\<lambda>c. plain_node c \<or> service_node c) cs \<Longrightarrow>
   port_scan_loop svc (all_events cs @ r) (scanned P False 0) =
     port_scan_loop svc r (scanned (P \<union> labels_of_service svc cs) False 0)"
proof (induction cs arbitrary: P)
  case Nil
  then show ?case by (simp add: labels_of_service_def)
next
  case (Cons c cs)
  show ?case
  proof (cases "service_node c")
    case True
    then obtain res n as ds where c: "c = XElem res n as ds" by (cases c) auto
    let ?P = "if node_label c = svc then P \<union> port_labels c else P"
    have "port_scan_loop svc (events c @ all_events cs @ r) (scanned P False 0) =
        port_scan_loop svc (all_events cs @ r) (scanned ?P False 0)"
      using True scan_target_children [of ds svc "Inr (res, EvEnd n) # all_events cs @ r" P]
        scan_other_children [of ds svc "Inr (res, EvEnd n) # all_events cs @ r" P]
      by (simp add: c Let_def port_labels_def)
    with Cons True show ?thesis by (simp add: labels_of_service_def Un_assoc)
  next
    case False
    with Cons show ?thesis by (simp add: scan_plain labels_of_service_def)
  qed
qed

section \<open>The second pass rewrites inside these ports\<close>

fun event_of :: "item \<Rightarrow> event" where
  "event_of (Inr (res, ev)) = ev"
| "event_of (Inl e) = EvEof"

abbreviation written :: "reader \<Rightarrow> event list" where
  "written r \<equiv> map event_of r"

lemma rewrite_attr_location:
  "rewrite_attr u kv = Attr (fst kv) (if fst kv = ''location'' then u else snd kv)"
proof (cases "utf8_valid (fst kv)")
  case True
  then show ?thesis by (simp add: rewrite_attr_def utf8_or_empty_valid)
next
  case False
  then have "fst kv \<noteq> ''location''" by (auto simp: utf8_valid_ascii is_ascii_def byte_def)
  with False show ?thesis by (simp add: rewrite_attr_def utf8_or_empty_def from_utf8_def)
qed

lemma rewrite_tag_of:
  "utf8_valid n \<Longrightarrow> rewrite_tag esc url (tag_of n as) = tag_of n (set_location (esc url) as)"
  by (simp add: rewrite_tag_def from_utf8_def set_location_def)
    (simp add: tag_of_def rewrite_attr_location case_prod_beta')

lemma rewrite_unmatched:
  "plain_node x \<Longrightarrow>
   service_rewrite_loop esc url target (events x @ r) (False, d) =
     written (events x) @ service_rewrite_loop esc url target r (False, d)"
proof (induction x arbitrary: r)
  case (XElem res n as cs)
  have kids: "service_rewrite_loop esc url target (all_events ys @ r') (False, d) =
      written (all_events ys) @ service_rewrite_loop esc url target r' (False, d)" if "set ys \<subseteq> set cs" for ys r'
    using that
  proof (induction ys)
    case (Cons y ys)
    then show ?case using XElem.IH [of y "all_events ys @ r'"] XElem.prems(1) by (auto simp: list_all_iff)
  qed simp
  with XElem.prems kids [of cs "Inr (res, EvEnd n) # r"] show ?case by simp
qed simp_all

lemma rewrite_matched:
  "plain_node x \<Longrightarrow> 1 \<le> d \<Longrightarrow>
   service_rewrite_loop esc url target (events x @ r) (True, d) =
     written (events (relocate (esc url) x)) @ service_rewrite_loop esc url target r (True, d)"
proof (induction x arbitrary: r d)
  case (XElem res n as cs)
  have kids: "service_rewrite_loop esc url target (all_events ys @ r') (True, d') =
      written (all_events (map (relocate (esc url)) ys)) @ service_rewrite_loop esc url target r' (True, d')"
    if "set ys \<subseteq> set cs" "1 \<le> d'" for ys r' d'
    using that
  proof (induction ys)
    case (Cons y ys)
    then show ?case using XElem.IH [of y d' "all_events ys @ r'"] XElem.prems(1) by (auto simp: list_all_iff)
  qed simp
  with XElem.prems kids [of cs "d + 1" "Inr (res, EvEnd n) # r"] show ?case by (simp add: rewrite_tag_of)
qed (simp_all add: rewrite_tag_of)

lemma rewrite_unmatched_all:
  "list_all plain_node xs \<Longrightarrow>
   service_rewrite_loop esc url target (all_events xs @ r) (False, d) =
     written (all_events xs) @ service_rewrite_loop esc url target r (False, d)"
  by (induction xs) (simp_all add: rewrite_unmatched)

lemma rewrite_matched_all:
  "list_all plain_node xs \<Longrightarrow> 1 \<le> d \<Longrightarrow>
   service_rewrite_loop esc url target (all_events xs @ r) (True, d) =
     written (all_events (map (relocate (esc url)) xs)) @ service_rewrite_loop esc url target r (True, d)"
  by (induction xs) (simp_all add: rewrite_matched)

lemma rewrite_port:
  assumes "port_node c"
  shows "service_rewrite_loop esc url target (events c @ r) (False, 0) =
     written (events (if node_label c \<in> target then relocate_port (esc url) c else c)) @
     service_rewrite_loop esc url target r (False, 0)"
proof -
  from assms obtain res n as ds where c: "c = XElem res n as ds" by (cases c) auto
  then show ?thesis
    using assms rewrite_matched_all [of ds 1 esc url target "Inr (res, EvEnd n) # r"]
      rewrite_unmatched_all [of ds esc url target "Inr (res, EvEnd n) # r" 0]
    by simp
qed

lemma rewrite_service_children:
  "list_all (\<lambda>c. plain_node c \<or> port_node c) cs \<Longrightarrow>
   service_rewrite_loop esc url target (all_events cs @ r) (False, 0) =
     written (all_events (map (\<lambda>c. if port_node c \<and> node_label c \<in> target then relocate_port (esc url) c else c) cs)) @
     service_rewrite_loop esc url target r (False, 0)"
proof (induction cs)
  case (Cons c cs)
  then show ?case
    by (cases "port_node c") (simp_all add: rewrite_port rewrite_unmatched)
qed simp

text \<open>
  The ports of the service are told apart by their names: no port of another service has the
  name of one of its ports.
\<close>

definition ports_apart :: "string \<Rightarrow> xml list \<Rightarrow> bool" where
  "ports_apart svc xs \<longleftrightarrow>
     list_all (\<lambda>c. service_node c \<and> node_label c \<noteq> svc \<longrightarrow> port_labels c \<inter> labels_of_service svc xs = {}) xs"

lemma relocate_port_other: "\<not> port_node c \<Longrightarrow> relocate_port u c = c"
  by (cases c) auto

lemma relocate_ports_other: "\<not> service_node c \<Longrightarrow> relocate_ports u svc c = c"
  by (cases c) auto

lemma rewrite_services:
  assumes "list_all (\<lambda>c. plain_node c \<or> service_node c) cs" and "set cs \<subseteq> set xs" and "ports_apart svc xs"
  shows "service_rewrite_loop esc url (labels_of_service svc xs) (all_events cs @ r) (False, 0) =
     written (all_events (map (relocate_ports (esc url) svc) cs)) @
     service_rewrite_loop esc url (labels_of_service svc xs) r (False, 0)"
  using assms(1,2)
proof (induction cs)
  case (Cons c cs)
  let ?t = "labels_of_service svc xs"
  show ?case
  proof (cases "service_node c")
    case True
    then obtain res n as ds where c: "c = XElem res n as ds" by (cases c) auto
    have "(if port_node d \<and> node_label d \<in> ?t then relocate_port (esc url) d else d) =
        (if node_label c = svc then relocate_port (esc url) d else d)" if d: "d \<in> set ds" for d
    proof (cases "port_node d")
      case True
      with d have "node_label d \<in> port_labels c" by (simp add: port_labels_def c)
      moreover have "port_labels c \<subseteq> ?t" if "node_label c = svc"
        using \<open>service_node c\<close> Cons.prems(2) that by (auto simp: labels_of_service_def)
      moreover have "port_labels c \<inter> ?t = {}" if "node_label c \<noteq> svc"
        using \<open>service_node c\<close> Cons.prems(2) that assms(3) by (auto simp: ports_apart_def list_all_iff)
      ultimately show ?thesis using True by auto
    next
      case False
      then show ?thesis by (simp add: relocate_port_other)
    qed
    then have children: "map (\<lambda>d. if port_node d \<and> node_label d \<in> ?t then relocate_port (esc url) d else d) ds =
        (if node_label c = svc then map (relocate_port (esc url)) ds else ds)"
      by (simp add: map_idI)
    have "service_rewrite_loop esc url ?t (events c @ all_events cs @ r) (False, 0) =
        written (events (relocate_ports (esc url) svc c)) @ service_rewrite_loop esc url ?t (all_events cs @ r) (False, 0)"
      using True rewrite_service_children [of ds esc url ?t "Inr (res, EvEnd n) # all_events cs @ r"]
      unfolding children by (simp add: c)
    with Cons show ?thesis by simp
  next
    case False
    with Cons show ?thesis by (simp add: rewrite_unmatched relocate_ports_other)
  qed
qed simp

section \<open>The whole document\<close>

text \<open>What may stand before and after the root element.\<close>

fun quiet_item :: "item \<Rightarrow> bool" where
  "quiet_item (Inr (_, EvDecl _)) \<longleftrightarrow> True"
| "quiet_item (Inr (_, EvDocType _)) \<longleftrightarrow> True"
| "quiet_item (Inr (_, EvPI _)) \<longleftrightarrow> True"
| "quiet_item (Inr (_, EvComment _)) \<longleftrightarrow> True"
| "quiet_item (Inr (_, EvText _)) \<longleftrightarrow> True"
| "quiet_item _ \<longleftrightarrow> False"

lemma quiet_item_cases:
  assumes "quiet_item i"
  obtains res ev where "i = Inr (res, ev)" "ev \<noteq> EvEof" "\<And>svc s. port_scan_step svc ev s = s"
    "\<And>esc url target st. service_rewrite_step esc url target ev st = (ev, st)"
  using assms by (cases i rule: quiet_item.cases) auto

lemma scan_quiet: "list_all quiet_item r \<Longrightarrow> port_scan_loop svc (r @ r') s = port_scan_loop svc r' s"
  by (induction r) (auto elim!: quiet_item_cases)

lemma rewrite_quiet:
  "list_all quiet_item r \<Longrightarrow>
   service_rewrite_loop esc url target (r @ r') st = written r @ service_rewrite_loop esc url target r' st"
  by (induction r) (cases st; auto elim!: quiet_item_cases)+

lemma rewrite_for_service_eq:
  assumes "tok False wsdl = pre @ events x @ post" and "list_all quiet_item (pre @ post)"
    and "wsdl_tree x" and "ports_apart svc (inner_nodes x)" and "svc \<noteq> []"
  shows "rewrite_wsdl_address_for_service tok wr esc wsdl url svc =
    wr (written (pre @ events (relocate_service (esc url) svc x) @ post))"
proof -
  from assms(3) obtain res n as cs where x: "x = XElem res n as cs" by (cases x) auto
  have cs: "list_all (\<lambda>c. plain_node c \<or> service_node c) cs"
    and root: "event_local n \<noteq> ''service''" "event_local n \<noteq> ''port''"
    and pre: "list_all quiet_item pre" and post: "list_all quiet_item post"
    using assms(2,3) by (simp_all add: x)
  let ?t = "labels_of_service svc cs"
  have "target_port_names svc (pre @ events x @ post) = ?t"
    using root scan_services [OF cs, of svc "Inr (res, EvEnd n) # post" "{}"] scan_quiet [OF post, where r' = "[]"]
    by (simp add: target_port_names_def scan_quiet [OF pre] x)
  moreover have "service_rewrite_loop esc url ?t (pre @ events x @ post) (False, 0) =
      written (pre @ events (relocate_service (esc url) svc x) @ post)"
    using root rewrite_services [OF cs subset_refl, of svc esc url "Inr (res, EvEnd n) # post"]
      assms(4) rewrite_quiet [OF post, where r' = "[]"]
    by (simp add: rewrite_quiet [OF pre] x)
  ultimately show ?thesis
    using assms(5) by (simp add: rewrite_wsdl_address_for_service_def assms(1) Let_def)
qed

section \<open>The routes of a service with several services\<close>

definition route_path :: "server_lib \<Rightarrow> resolved_wsdl \<Rightarrow> string \<Rightarrow> string" where
  "route_path lib rw name =
     (case hm_get (services (rw_definition rw)) name of Some s \<Rightarrow> service_path lib s name | None \<Rightarrow> [])"

text \<open>The table of one service, made of its own operations and of the handlers for them.\<close>

definition service_table :: "'s server_builder \<Rightarrow> resolved_wsdl \<Rightarrow> string \<Rightarrow> 's dispatch_table \<Rightarrow> bool" where
  "service_table b rw name t \<longleftrightarrow>
     (\<exists>s. hm_get (services (rw_definition rw)) name = Some s \<and>
        build_dispatch_table_for_service name rw (select_handlers (sb_handlers b) (service_op_names rw s))
          (sb_auth_bypass b) (sb_default_handler b) = Inr t)"

definition table_of_route ::
  "server_lib \<Rightarrow> 's server_builder \<Rightarrow> resolved_wsdl \<Rightarrow> string \<Rightarrow> string \<times> 's dispatch_table \<Rightarrow> bool" where
  "table_of_route lib b rw name pt \<longleftrightarrow> fst pt = route_path lib rw name \<and> service_table b rw name (snd pt)"

lemma add_service_new:
  assumes "add_service lib b rw name (ts, ps) = Inr (ts', ps')"
    and "route_path lib rw name \<notin> set (map fst ts)" and "map fst ps = map fst ts"
  obtains t where "ts' = ts @ [(route_path lib rw name, t)]" and "ps' = ps @ [(route_path lib rw name, name)]"
    and "service_table b rw name t"
proof -
  from assms(1) obtain s t where s: "hm_get (services (rw_definition rw)) name = Some s"
    and t: "build_dispatch_table_for_service name rw (select_handlers (sb_handlers b) (service_op_names rw s))
          (sb_auth_bypass b) (sb_default_handler b) = Inr t"
    and "ts' = hm_insert (service_path lib s name) t ts" and "ps' = hm_insert (service_path lib s name) name ps"
    by (auto simp: add_service_def lookup_service_def res_simps Let_def)
  moreover have "service_path lib s name = route_path lib rw name" by (simp add: route_path_def s)
  moreover have "route_path lib rw name \<notin> fst ` set ps" "route_path lib rw name \<notin> fst ` set ts"
    using assms(2) arg_cong [OF assms(3), of set] by simp_all
  ultimately show thesis
    using that by (simp add: hm_insert_def update_append_notin service_table_def)
qed

lemma add_services_new:
  assumes "res_fold (add_service lib b rw) ns (ts, ps) = Inr (ts', ps')"
    and "distinct (map fst ts @ map (route_path lib rw) ns)" and "map fst ps = map fst ts"
  shows "\<exists>new. ts' = ts @ new \<and> list_all2 (table_of_route lib b rw) ns new \<and>
    ps' = ps @ map (\<lambda>n. (route_path lib rw n, n)) ns"
  using assms
proof (induction ns arbitrary: ts ps)
  case (Cons n ns)
  from Cons.prems(1) obtain ts1 ps1 where one: "add_service lib b rw n (ts, ps) = Inr (ts1, ps1)"
    and rest: "res_fold (add_service lib b rw) ns (ts1, ps1) = Inr (ts', ps')"
    by (auto simp: res_simps)
  from add_service_new [OF one] Cons.prems(2,3)
  obtain t where t: "ts1 = ts @ [(route_path lib rw n, t)]" "ps1 = ps @ [(route_path lib rw n, n)]"
    "service_table b rw n t" by auto
  with Cons.IH [OF rest] Cons.prems(2,3) obtain new where
    "ts' = ts1 @ new" "list_all2 (table_of_route lib b rw) ns new" "ps' = ps1 @ map (\<lambda>n. (route_path lib rw n, n)) ns"
    by auto
  moreover have "table_of_route lib b rw n (route_path lib rw n, t)" by (simp add: table_of_route_def t(3))
  ultimately show ?case
    using t(1,2) by (intro exI [of _ "(route_path lib rw n, t) # new"]) simp
qed simp

definition service_endpoint :: "'s server_builder \<Rightarrow> resolved_wsdl \<Rightarrow> server_lib \<Rightarrow> string \<Rightarrow> string \<times> 's endpoint \<Rightarrow> bool" where
  "service_endpoint b rw lib name pe \<longleftrightarrow>
     fst pe = route_path lib rw name \<and> (\<exists>t. snd pe = ServiceEndpoint t name \<and> service_table b rw name t)"

lemma routes_of_services:
  assumes "load_wsdl lib b = Inr (bytes, file)"
    and "resolve_wsdl (sl_rox lib) (select_loader lib b file) bytes {} = Some (Inr (rw, vis))"
    and "build lib inst b = Some (Inr svc)"
    and names: "ns = hm_keys (services (rw_definition rw))" and many: "1 < length ns"
    and paths: "distinct (map (route_path lib rw) ns)"
  shows "list_all2 (service_endpoint b rw lib) ns (routes (into_router svc))"
proof -
  obtain t tables pnames where built: "build_tables lib b rw = Inr (t, tables, pnames)"
    and svc: "svc_service_tables svc = tables" "svc_service_path_names svc = pnames"
    using build_eq [OF assms(1-3)] by metis
  from built many have "build_service_tables lib b rw ns = Inr (t, tables, pnames)"
    unfolding build_tables_def Let_def names [symmetric] by (simp only: if_True)
  from build_service_tables_Inr [OF this] have "res_fold (add_service lib b rw) ns ([], []) = Inr (tables, pnames)" by blast
  from add_services_new [OF this] paths have all: "list_all2 (table_of_route lib b rw) ns tables"
    and pnames: "pnames = map (\<lambda>n. (route_path lib rw n, n)) ns" by simp_all
  have name: "map_of pnames (route_path lib rw n) = Some n" if "n \<in> set ns" for n
    using paths that by (auto simp: pnames intro!: map_of_is_SomeI simp: comp_def)
  have "tables \<noteq> []" using all many by auto
  moreover have "service_endpoint b rw lib n (p, ServiceEndpoint t' (case hm_get pnames p of Some n \<Rightarrow> n | None \<Rightarrow> []))"
    if "table_of_route lib b rw n (p, t')" "n \<in> set ns" for n p t'
    using that name by (simp add: service_endpoint_def table_of_route_def hm_get_def)
  ultimately show ?thesis
    using all by (auto simp: into_router_def svc list_all2_conv_all_nth case_prod_beta')
qed

section \<open>Properties\<close>

text \<open>
  C16. With several services on distinct paths, routes and services correspond one to one: the
  route of a service is at the path of its first port, answers from the table made of its own
  operations, and serves the WSDL with the addresses of its own ports moved to that very route
  and everything else, the addresses of the other services included, as the author wrote it,
  provided that no port of another service has the name of one of its ports.
\<close>

theorem services_are_served_at_their_routes:
  assumes "load_wsdl lib b = Inr (bytes, file)"
    and "resolve_wsdl (sl_rox lib) (select_loader lib b file) bytes {} = Some (Inr (rw, vis))"
    and "build lib inst b = Some (Inr svc)"
    and "ns = hm_keys (services (rw_definition rw))" and "1 < length ns"
    and "distinct (map (route_path lib rw) ns)"
    and doc: "sl_tok lib False bytes = pre @ events x @ post" "list_all quiet_item (pre @ post)" "wsdl_tree x"
    and apart: "\<forall>n \<in> set ns. n \<noteq> [] \<and> ports_apart n (inner_nodes x)"
  shows "list_all2 (\<lambda>n (p, ep). p = route_path lib rw n \<and>
      (\<exists>t. ep = ServiceEndpoint t n \<and> service_table b rw n t) \<and>
      (\<forall>q h. get_endpoint lib svc ep (Some p) (Some q) h =
         wsdl_response (sl_write lib
           (written (pre @ events (relocate_service (sl_esc lib (server_url svc (Some p) h)) n x) @ post)))))
    ns (routes (into_router svc))"
proof -
  have raw: "svc_wsdl_raw svc = bytes"
    using assms(1-3) by (auto simp: build_def res_simps)
  have "get_endpoint lib svc (ServiceEndpoint t n) (Some p) (Some q) h =
      wsdl_response (sl_write lib
        (written (pre @ events (relocate_service (sl_esc lib (server_url svc (Some p) h)) n x) @ post)))"
    if "n \<in> set ns" for t n p q h
    using apart that rewrite_for_service_eq [where tok = "sl_tok lib" and wsdl = bytes and pre = pre and x = x
        and post = post and svc = n and wr = "sl_write lib" and esc = "sl_esc lib"] doc
    by (simp add: wsdl_get_handler_for_route_def service_route_def raw)
  with routes_of_services [OF assms(1-6)] show ?thesis
    by (auto simp: list_all2_conv_all_nth service_endpoint_def)
qed

text \<open>Two services, each with one port.\<close>

definition pair_rox :: rox_parser where
  "pair_rox _ = Inr (Elem (Some WSDL_NS) ''definitions'' [] []
     (map (\<lambda>(s, p, a). Elem (Some WSDL_NS) ''service'' [(None, ''name'', s)] []
        [Elem (Some WSDL_NS) ''port'' [(None, ''name'', p), (None, ''binding'', ''B'')] []
           [Elem (Some SOAP12_BINDING_NS) ''address'' [(None, ''location'', a)] [] []]])
      [(''S'', ''P'', ''http://h/s''), (''T'', ''Q'', ''http://h/t'')]))"

definition pair_service :: "string \<Rightarrow> string \<Rightarrow> bytes \<Rightarrow> xml" where
  "pair_service s p a =
     XElem (Bound WSDL_NS) ''service'' [(''name'', s)]
       [XElem (Bound WSDL_NS) ''port'' [(''name'', p), (''binding'', ''B'')]
          [XEmpty (Bound SOAP12_BINDING_NS) ''address'' [(''location'', a)]]]"

definition pair_tree :: "bytes \<Rightarrow> bytes \<Rightarrow> xml" where
  "pair_tree a1 a2 =
     XElem (Bound WSDL_NS) ''definitions'' [] [pair_service ''S'' ''P'' a1, pair_service ''T'' ''Q'' a2]"

definition pair_lib :: server_lib where
  "pair_lib = echo_lib\<lparr>sl_rox := pair_rox, sl_wss := sample_lib\<lparr>wl_tok := \<lambda>_ _. events (pair_tree ''http://h/s'' ''http://h/t'')\<rparr>\<rparr>"

definition pair_svc :: "string \<Rightarrow> string \<Rightarrow> string \<Rightarrow> service" where
  "pair_svc s p a = \<lparr>svc_name = s, ports = [\<lparr>port_name = p, port_binding = qname_local ''B'', port_address = a\<rparr>]\<rparr>"

definition pair_wsdl :: resolved_wsdl where
  "pair_wsdl =
     \<lparr>rw_definition = (empty_definition [])\<lparr>services :=
        [(''S'', pair_svc ''S'' ''P'' ''http://h/s''), (''T'', pair_svc ''T'' ''Q'' ''http://h/t'')]\<rparr>,
      rw_type_registry = registry_new, rw_element_type_map = [], rw_raw_bytes = ''w''\<rparr>"

lemma pair_resolves: "resolve_wsdl pair_rox loader ''w'' {} = Some (Inr (pair_wsdl, {}))"
proof -
  have "parse_wsdl pair_rox ''w'' = Inr (rw_definition pair_wsdl)"
    by (simp add: parse_wsdl_def pair_rox_def from_utf8_def utf8_valid_ascii is_ascii_def byte_def
        element_children_def parse_wsdl_child_def node_ns_or_empty_def parse_service_def
        required_attr_def parse_port_def resolve_qname_str_def lookup_namespace_uri_def empty_definition_def
        pair_svc_def pair_wsdl_def hm_insert_def)
  then show ?thesis
    by (simp add: resolve_wsdl_def resolve_wsdl_inner_def resolve_imports.simps [of _ _ _ "[]"]
        empty_definition_def resolve_start_def snapshot_registry_def pair_wsdl_def)
qed

lemma pair_paths: "route_path pair_lib pair_wsdl ''S'' = ''/s''" "route_path pair_lib pair_wsdl ''T'' = ''/t''"
  by (simp_all add: route_path_def pair_wsdl_def hm_get_def service_path_def pair_svc_def empty_definition_def
      extract_path_from_url_def starts_with_def)

lemma label_name [simp]:
  assumes "is_ascii v"
  shows "name_attr (tag_of n ((''name'', v) # as)) = v"
proof -
  have "attrs_ok (tag_attrs (tag_of n ((''name'', v) # as))) = (''name'', v) # as" by simp
  then show ?thesis
    using assms by (simp add: name_attr_def utf8_valid_ascii is_ascii_def byte_def del: attrs_tag_of)
qed

lemma pair_tree_ok: "wsdl_tree (pair_tree a1 a2)"
  "n \<in> {''S'', ''T''} \<Longrightarrow> ports_apart n (inner_nodes (pair_tree a1 a2))"
  by (auto simp: pair_tree_def pair_service_def event_local_def local_part_def utf8_valid_ascii is_ascii_def byte_def
      ports_apart_def port_labels_def labels_of_service_def)

lemma services_are_served_at_their_routes_witness:
  "\<exists>svc ep1 ep2. build pair_lib 0 (from_wsdl_bytes ''w'' :: nat server_builder) = Some (Inr svc) \<and>
     routes (into_router svc) = [(''/s'', ep1), (''/t'', ep2)] \<and>
     get_endpoint pair_lib svc ep2 (Some ''/t'') (Some []) (\<lambda>_. None) =
       wsdl_response (sl_write pair_lib (written (events (relocate_service (xml_escape ''http://localhost/t'') ''T''
         (pair_tree ''http://h/s'' ''http://h/t'')))))"
proof -
  let ?b = "from_wsdl_bytes ''w'' :: nat server_builder"
  have load: "load_wsdl pair_lib ?b = Inr (''w'', None)"
    by (simp add: load_wsdl_def from_wsdl_bytes_def builder_new_def)
  have resolve: "resolve_wsdl (sl_rox pair_lib) (select_loader pair_lib ?b None) ''w'' {} = Some (Inr (pair_wsdl, {}))"
    by (simp add: pair_lib_def pair_resolves)
  have keys: "[''S'', ''T''] = hm_keys (services (rw_definition pair_wsdl))" by (simp add: pair_wsdl_def)
  have "\<exists>r. build_tables pair_lib ?b pair_wsdl = Inr r"
    by (simp add: build_tables_def build_service_tables_def builder_new_def from_wsdl_bytes_def lookup_service_def add_service_def
        build_dispatch_table_for_service_def build_dispatch_table_from_ops_def collect_ops_for_service_def
        service_ops_def service_op_names_def pair_svc_def empty_definition_def select_handlers_def hm_get_def pair_wsdl_def
        Let_def split: prod.split list.split)
  then obtain svc where svc: "build pair_lib 0 ?b = Some (Inr svc)"
    by (auto simp: build_def load resolve)
  have doc: "sl_tok pair_lib False ''w'' = [] @ events (pair_tree ''http://h/s'' ''http://h/t'') @ []"
    by (simp add: sl_tok_def pair_lib_def)
  have "list_all2 (\<lambda>n (p, ep). p = route_path pair_lib pair_wsdl n \<and>
      (\<exists>t. ep = ServiceEndpoint t n \<and> service_table ?b pair_wsdl n t) \<and>
      (\<forall>q h. get_endpoint pair_lib svc ep (Some p) (Some q) h =
         wsdl_response (sl_write pair_lib (written ([] @ events (relocate_service
           (sl_esc pair_lib (server_url svc (Some p) h)) n (pair_tree ''http://h/s'' ''http://h/t'')) @ [])))))
    [''S'', ''T''] (routes (into_router svc))"
    by (rule services_are_served_at_their_routes [OF load resolve svc keys _ _ doc])
      (simp_all add: pair_paths pair_tree_ok)
  moreover have "sl_esc pair_lib = xml_escape" by (simp add: pair_lib_def echo_lib_def)
  moreover have "server_url svc (Some ''/t'') (\<lambda>_. None) = ''http://localhost/t''"
    by (simp add: server_url_def header_str_def)
  ultimately show ?thesis
    using svc by (auto simp: list_all2_Cons1 pair_paths simp del: get_endpoint.simps)
qed

end
