(* ===== verification/WsdlPrint.thy ===== *)
theory WsdlPrint
  imports WsdlParser XmlWrite
begin

text \<open>
  The specification side of the WSDL parser: a WSDL definition written out as the element tree
  of a WSDL 1.1 document, with every declaration in scope at the root. What
  \<open>src/src/wsdl/parser.rs\<close> reads of such a tree is the definition it was written from.
\<close>

section \<open>Writing a definition\<close>

definition wsdl_elem :: "scope \<Rightarrow> string \<Rightarrow> (string option \<times> string \<times> string) list \<Rightarrow> xnode list \<Rightarrow> xnode" where
  "wsdl_elem nss l as cs = Elem (Some WSDL_NS) l as nss cs"

lemma wsdl_elem_sel [simp]:
  "node_name (wsdl_elem nss l as cs) = l" "node_ns_or_empty (wsdl_elem nss l as cs) = WSDL_NS"
  "node_namespaces (wsdl_elem nss l as cs) = nss" "is_element (wsdl_elem nss l as cs)"
  "node_children (wsdl_elem nss l as cs) = cs"
  "node_attribute (wsdl_elem nss l as cs) a = node_attribute (Elem (Some WSDL_NS) l as nss cs) a"
  by (simp_all add: wsdl_elem_def node_ns_or_empty_def)

lemma element_children_all: "list_all is_element cs \<Longrightarrow> node_children n = cs \<Longrightarrow> element_children n = cs"
  by (simp add: element_children_def list_all_iff)

definition print_import :: "scope \<Rightarrow> wsdl_import \<Rightarrow> xnode" where
  "print_import nss i =
     wsdl_elem nss ''import'' ((None, ''namespace'', imp_namespace i) # opt_attr ''location'' (imp_location i)) []"

definition print_part :: "scope \<Rightarrow> (string \<Rightarrow> string) \<Rightarrow> message_part \<Rightarrow> xnode" where
  "print_part nss pf p =
     wsdl_elem nss ''part''
       ((None, ''name'', mp_name p) # opt_attr ''element'' (map_option (qname_text pf) (mp_element p)) @
        opt_attr ''type'' (map_option (qname_text pf) (mp_type_ref p))) []"

definition print_message :: "scope \<Rightarrow> (string \<Rightarrow> string) \<Rightarrow> message \<Rightarrow> xnode" where
  "print_message nss pf m =
     wsdl_elem nss ''message'' [(None, ''name'', msg_name m)] (map (print_part nss pf) (parts m))"

definition print_operation_message ::
  "scope \<Rightarrow> (string \<Rightarrow> string) \<Rightarrow> string \<Rightarrow> operation_message \<Rightarrow> xnode" where
  "print_operation_message nss pf l m =
     wsdl_elem nss l ((None, ''message'', qname_text pf (om_message m)) # opt_attr ''name'' (om_name m)) []"

definition print_operation_fault :: "scope \<Rightarrow> (string \<Rightarrow> string) \<Rightarrow> operation_fault \<Rightarrow> xnode" where
  "print_operation_fault nss pf f =
     wsdl_elem nss ''fault'' [(None, ''name'', of_name f), (None, ''message'', qname_text pf (of_message f))] []"

definition print_operation :: "scope \<Rightarrow> (string \<Rightarrow> string) \<Rightarrow> operation \<Rightarrow> xnode" where
  "print_operation nss pf op =
     wsdl_elem nss ''operation'' [(None, ''name'', op_name op)]
       (map (print_operation_message nss pf ''input'') (opt_list (op_input op)) @
        map (print_operation_message nss pf ''output'') (opt_list (op_output op)) @
        map (print_operation_fault nss pf) (op_faults op))"

definition print_port_type :: "scope \<Rightarrow> (string \<Rightarrow> string) \<Rightarrow> port_type \<Rightarrow> xnode" where
  "print_port_type nss pf p =
     wsdl_elem nss ''portType'' [(None, ''name'', pt_name p)] (map (print_operation nss pf) (pt_operations p))"

definition soap_elem ::
  "scope \<Rightarrow> soap_version \<Rightarrow> string \<Rightarrow> (string option \<times> string \<times> string) list \<Rightarrow> xnode" where
  "soap_elem nss v l as = Elem (Some (soap_binding_ns v)) l as nss []"

lemma soap_elem_sel [simp]:
  "node_name (soap_elem nss v l as) = l" "node_ns_or_empty (soap_elem nss v l as) = soap_binding_ns v"
  "node_namespaces (soap_elem nss v l as) = nss" "is_element (soap_elem nss v l as)"
  "node_attribute (soap_elem nss v l as) a = node_attribute (Elem (Some (soap_binding_ns v)) l as nss []) a"
  by (simp_all add: soap_elem_def node_ns_or_empty_def)

definition print_soap_header :: "scope \<Rightarrow> (string \<Rightarrow> string) \<Rightarrow> soap_version \<Rightarrow> soap_header \<Rightarrow> xnode" where
  "print_soap_header nss pf v h =
     soap_elem nss v ''header'' [(None, ''message'', qname_text pf (sh_message h)), (None, ''part'', sh_part h)]"

definition print_binding_message ::
  "scope \<Rightarrow> (string \<Rightarrow> string) \<Rightarrow> soap_version \<Rightarrow> string \<Rightarrow> binding_message \<Rightarrow> xnode" where
  "print_binding_message nss pf v l m =
     wsdl_elem nss l []
       (soap_elem nss v ''body''
          ((None, ''use'', case use_attr (bm_body m) of Literal \<Rightarrow> ''literal'' | Encoded \<Rightarrow> ''encoded'') #
           opt_attr ''namespace'' (body_namespace (bm_body m)) @
           opt_attr ''encodingStyle'' (encoding_style (bm_body m))) #
        map (print_soap_header nss pf v) (bm_headers m))"

definition print_binding_operation :: "scope \<Rightarrow> (string \<Rightarrow> string) \<Rightarrow> soap_version \<Rightarrow> binding_operation \<Rightarrow> xnode" where
  "print_binding_operation nss pf v bo =
     wsdl_elem nss ''operation'' [(None, ''name'', bo_name bo)]
       [soap_elem nss v ''operation'' [(None, ''soapAction'', bo_soap_action bo)],
        print_binding_message nss pf v ''input'' (bo_input bo),
        print_binding_message nss pf v ''output'' (bo_output bo)]"

definition print_soap_binding :: "scope \<Rightarrow> soap_binding \<Rightarrow> xnode" where
  "print_soap_binding nss sb =
     soap_elem nss (sb_soap_version sb) ''binding''
       [(None, ''style'', case sb_style sb of Rpc \<Rightarrow> ''rpc'' | Document \<Rightarrow> ''document''),
        (None, ''transport'', sb_transport sb)]"

definition print_binding :: "scope \<Rightarrow> (string \<Rightarrow> string) \<Rightarrow> binding \<Rightarrow> xnode" where
  "print_binding nss pf b =
     wsdl_elem nss ''binding''
       [(None, ''name'', b_name b), (None, ''type'', qname_text pf (b_port_type b))]
       (print_soap_binding nss (b_soap_binding b) #
        map (print_binding_operation nss pf (sb_soap_version (b_soap_binding b))) (b_operations b))"

definition print_port :: "scope \<Rightarrow> (string \<Rightarrow> string) \<Rightarrow> soap_version \<Rightarrow> port \<Rightarrow> xnode" where
  "print_port nss pf v p =
     wsdl_elem nss ''port''
       [(None, ''name'', port_name p), (None, ''binding'', qname_text pf (port_binding p))]
       [soap_elem nss v ''address'' [(None, ''location'', port_address p)]]"

definition print_service :: "scope \<Rightarrow> (string \<Rightarrow> string) \<Rightarrow> soap_version \<Rightarrow> service \<Rightarrow> xnode" where
  "print_service nss pf v s =
     wsdl_elem nss ''service'' [(None, ''name'', svc_name s)] (map (print_port nss pf v) (ports s))"

text \<open>The whole document; the inline schemas are given as elements, the parser keeps their text.\<close>

definition print_wsdl ::
  "scope \<Rightarrow> (string \<Rightarrow> string) \<Rightarrow> soap_version \<Rightarrow> xnode list \<Rightarrow> wsdl_definition \<Rightarrow> xnode" where
  "print_wsdl nss pf v xs d =
     wsdl_elem nss ''definitions'' [(None, ''targetNamespace'', target_namespace d)]
       (map (print_import nss) (wsdl_imports d) @
        [wsdl_elem nss ''types'' [] xs] @
        map (print_message nss pf) (hm_values (messages d)) @
        map (print_port_type nss pf) (hm_values (port_types d)) @
        map (print_binding nss pf) (hm_values (bindings d)) @
        map (print_service nss pf v) (hm_values (services d)))"

section \<open>What can be written\<close>

definition part_names :: "message_part \<Rightarrow> qname list" where
  "part_names p = opt_list (mp_element p) @ opt_list (mp_type_ref p)"

definition operation_names :: "operation \<Rightarrow> qname list" where
  "operation_names op =
     map om_message (opt_list (op_input op) @ opt_list (op_output op)) @ map of_message (op_faults op)"

definition binding_names :: "binding \<Rightarrow> qname list" where
  "binding_names b =
     b_port_type b # concat (map (\<lambda>bo. map sh_message (bm_headers (bo_input bo) @ bm_headers (bo_output bo)))
       (b_operations b))"

text \<open>Every qualified name that the document mentions.\<close>

definition wsdl_names :: "wsdl_definition \<Rightarrow> qname list" where
  "wsdl_names d =
     concat (map part_names (concat (map parts (hm_values (messages d))))) @
     concat (map operation_names (concat (map pt_operations (hm_values (port_types d))))) @
     concat (map binding_names (hm_values (bindings d))) @
     map port_binding (concat (map ports (hm_values (services d))))"

text \<open>Tables keyed by the names of their entries, and styles that follow from the messages.\<close>

definition wsdl_keyed :: "wsdl_definition \<Rightarrow> bool" where
  "wsdl_keyed d \<longleftrightarrow>
     hm_wf (messages d) \<and> (\<forall>(k, m) \<in> set (messages d). k = msg_name m) \<and>
     hm_wf (port_types d) \<and> (\<forall>(k, p) \<in> set (port_types d). k = pt_name p) \<and>
     hm_wf (bindings d) \<and> (\<forall>(k, b) \<in> set (bindings d). k = b_name b) \<and>
     hm_wf (services d) \<and> (\<forall>(k, s) \<in> set (services d). k = svc_name s) \<and>
     (\<forall>p \<in> set (hm_values (port_types d)). \<forall>op \<in> set (pt_operations p).
        op_style op = operation_style_of (op_input op) (op_output op))"

definition schema_nodes :: "xnode list \<Rightarrow> bool" where
  "schema_nodes xs \<longleftrightarrow>
     list_all (\<lambda>x. is_element x \<and> node_ns_or_empty x = XSD_NS \<and> node_name x = ''schema'') xs"

section \<open>Reading what was written\<close>

lemma resolve_written:
  assumes "qname_writable (node_namespaces n) pf q"
  shows "resolve_qname_str (qname_text pf q) n = Inr q"
proof (cases q rule: qname_cases_new_local)
  case (new ns l)
  with assms show ?thesis
    by (simp add: qname_writable_def resolve_qname_str_def qname_text_def lookup_namespace_uri_def)
next
  case (local l)
  with assms show ?thesis
    by (simp add: qname_writable_def resolve_qname_str_def qname_text_def lookup_namespace_uri_def
        split_once_None_iff [THEN iffD2])
qed

lemma ns_distinct [simp]:
  "soap_binding_ns v \<noteq> WSDL_NS" "WSDL_NS \<noteq> soap_binding_ns v"
  "SOAP11_BINDING_NS \<noteq> WSDL_NS" "SOAP12_BINDING_NS \<noteq> WSDL_NS" "SOAP11_BINDING_NS \<noteq> SOAP12_BINDING_NS"
  "WSDL_NS \<noteq> SOAP11_BINDING_NS" "WSDL_NS \<noteq> SOAP12_BINDING_NS" "SOAP12_BINDING_NS \<noteq> SOAP11_BINDING_NS"
  by (cases v; simp add: soap_binding_ns_def WSDL_NS_def SOAP11_BINDING_NS_def SOAP12_BINDING_NS_def)+

lemma element_children_wsdl [simp]:
  "element_children (wsdl_elem nss l as cs) = filter is_element cs"
  by (simp add: element_children_def)

lemma written_are_elements [simp]:
  "is_element (print_import nss i)" "is_element (print_part nss pf p)" "is_element (print_message nss pf m)"
  "is_element (print_operation_message nss pf l om)" "is_element (print_operation_fault nss pf fa)"
  "is_element (print_operation nss pf op)" "is_element (print_port_type nss pf pt)"
  "is_element (print_soap_header nss pf v h)" "is_element (print_binding_message nss pf v l bm)"
  "is_element (print_binding_operation nss pf v bo)" "is_element (print_soap_binding nss sb)"
  "is_element (print_binding nss pf b)" "is_element (print_port nss pf v po)" "is_element (print_service nss pf v se)"
  by (simp_all add: print_import_def print_part_def print_message_def print_operation_message_def
      print_operation_fault_def print_operation_def print_port_type_def print_soap_header_def
      print_binding_message_def print_binding_operation_def print_soap_binding_def print_binding_def
      print_port_def print_service_def)

lemma parse_part_written:
  assumes "list_all (qname_writable nss pf) (part_names p)" and "node_namespaces parent = nss"
  shows "parse_message_part (print_part nss pf p) parent = Inr p"
proof -
  have "qname_writable nss pf q" if "mp_element p = Some q \<or> mp_type_ref p = Some q" for q
    using assms(1) that by (auto simp: part_names_def)
  then show ?thesis
    using assms(2)
    by (cases "mp_element p"; cases "mp_type_ref p")
      (simp_all add: parse_message_part_def print_part_def required_attr_def resolve_optional_def resolve_written)
qed

lemma parse_message_written:
  assumes "list_all (qname_writable nss pf) (concat (map part_names (parts m)))"
  shows "parse_message (print_message nss pf m) = Inr m"
proof -
  have "res_map (\<lambda>c. parse_message_part c (print_message nss pf m)) (map (print_part nss pf) (parts m)) = Inr (parts m)"
    using assms by (intro res_map_written parse_part_written) (auto simp: list_all_iff print_message_def)
  moreover have "filter (\<lambda>c. node_name c = ''part'') (map (print_part nss pf) (parts m)) = map (print_part nss pf) (parts m)"
    by (rule filter_written) (simp add: print_part_def)
  ultimately show ?thesis
    by (simp add: parse_message_def print_message_def required_attr_def)
qed

lemma parse_operation_message_written:
  "qname_writable nss pf (om_message m) \<Longrightarrow>
   parse_operation_message (print_operation_message nss pf l m) what = Inr m"
  by (simp add: parse_operation_message_def print_operation_message_def required_attr_def resolve_written)

lemma parse_operation_fault_written:
  "qname_writable nss pf (of_message f) \<Longrightarrow> parse_operation_fault (print_operation_fault nss pf f) = Inr f"
  by (simp add: parse_operation_fault_def print_operation_fault_def required_attr_def resolve_written)

lemma res_fold_faults:
  assumes "list_all (\<lambda>f. qname_writable nss pf (of_message f)) fs"
    and "\<And>c st. node_name c = ''fault'' \<Longrightarrow> step c st =
      (case st of (i, out, faults) \<Rightarrow> res_bind (parse_operation_fault c) (\<lambda>f. Inr (i, out, faults @ [f])))"
  shows "res_fold step (map (print_operation_fault nss pf) fs) (i, out, faults) = Inr (i, out, faults @ fs)"
  using assms(1)
proof (induction fs arbitrary: faults)
  case (Cons f fs)
  have "node_name (print_operation_fault nss pf f) = ''fault''" by (simp add: print_operation_fault_def)
  with Cons show ?case by (simp add: assms(2) parse_operation_fault_written)
qed simp

lemma print_operation_message_name [simp]: "node_name (print_operation_message nss pf l m) = l"
  by (simp add: print_operation_message_def)

lemma parse_operation_written:
  assumes "list_all (qname_writable nss pf) (operation_names op)"
    and "op_style op = operation_style_of (op_input op) (op_output op)"
  shows "parse_operation (print_operation nss pf op) = Inr op"
proof -
  have faults: "list_all (\<lambda>f. qname_writable nss pf (of_message f)) (op_faults op)"
    using assms(1) by (auto simp: operation_names_def list_all_iff)
  have messages: "qname_writable nss pf (om_message m)" if "op_input op = Some m \<or> op_output op = Some m" for m
    using assms(1) that by (auto simp: operation_names_def)
  let ?step = "\<lambda>c (input, output, faults).
      if node_name c = ''input'' then
        res_bind (parse_operation_message c ''input/@message'') (\<lambda>m. Inr (Some m, output, faults))
      else if node_name c = ''output'' then
        res_bind (parse_operation_message c ''output/@message'') (\<lambda>m. Inr (input, Some m, faults))
      else if node_name c = ''fault'' then
        res_bind (parse_operation_fault c) (\<lambda>f. Inr (input, output, faults @ [f]))
      else Inr (input, output, faults)"
  have "res_fold ?step (map (print_operation_fault nss pf) (op_faults op)) (i, out, []) = Inr (i, out, op_faults op)" for i out
    using res_fold_faults [OF faults, of ?step i out "[]"] by simp
  then have "res_fold ?step
      (map (print_operation_message nss pf ''input'') (opt_list (op_input op)) @
       map (print_operation_message nss pf ''output'') (opt_list (op_output op)) @
       map (print_operation_fault nss pf) (op_faults op)) (None, None, []) =
      Inr (op_input op, op_output op, op_faults op)"
    using messages
    by (cases "op_input op"; cases "op_output op") (simp_all add: parse_operation_message_written)
  then show ?thesis
    unfolding parse_operation_def print_operation_def required_attr_def
    by (cases "op_input op"; cases "op_output op") (simp_all add: assms(2))
qed

lemma parse_port_type_written:
  assumes "list_all (qname_writable nss pf) (concat (map operation_names (pt_operations p)))"
    and "\<forall>op \<in> set (pt_operations p). op_style op = operation_style_of (op_input op) (op_output op)"
  shows "parse_port_type (print_port_type nss pf p) = Inr p"
proof -
  have "res_map parse_operation (map (print_operation nss pf) (pt_operations p)) = Inr (pt_operations p)"
    using assms by (intro res_map_written parse_operation_written) (auto simp: list_all_iff)
  moreover have "filter (\<lambda>c. node_name c = ''operation'') (map (print_operation nss pf) (pt_operations p)) =
      map (print_operation nss pf) (pt_operations p)"
    by (rule filter_written) (simp add: print_operation_def)
  ultimately show ?thesis by (simp add: parse_port_type_def print_port_type_def required_attr_def)
qed

lemma parse_port_written:
  assumes "qname_writable nss pf (port_binding p)"
  shows "parse_port (print_port nss pf v p) = Inr p"
  using assms by (simp add: parse_port_def print_port_def required_attr_def resolve_written)

lemma parse_service_written:
  assumes "list_all (\<lambda>p. qname_writable nss pf (port_binding p)) (ports s)"
  shows "parse_service (print_service nss pf v s) = Inr s"
proof -
  have "res_map parse_port (map (print_port nss pf v) (ports s)) = Inr (ports s)"
    using assms by (intro res_map_written parse_port_written) (auto simp: list_all_iff)
  moreover have "filter (\<lambda>c. node_name c = ''port'') (map (print_port nss pf v) (ports s)) = map (print_port nss pf v) (ports s)"
    by (rule filter_written) (simp add: print_port_def)
  ultimately show ?thesis by (simp add: parse_service_def print_service_def required_attr_def)
qed

section \<open>Reading bindings\<close>

lemma binding_message_headers_written:
  assumes "list_all (qname_writable nss pf) (map sh_message hs)"
    and "\<And>c bm. node_ns_or_empty c = soap_binding_ns v \<Longrightarrow> node_name c = ''header'' \<Longrightarrow>
      step c bm = (case (node_attribute c ''message'', node_attribute c ''part'') of
                 (Some msg_str, Some part) \<Rightarrow>
                   res_bind (resolve_qname_str msg_str c) (\<lambda>message.
                   Inr (bm\<lparr>bm_headers := bm_headers bm @ [\<lparr>sh_message = message, sh_part = part\<rparr>]\<rparr>))
               | _ \<Rightarrow> Inr bm)"
  shows "res_fold step (map (print_soap_header nss pf v) hs) bm = Inr (bm\<lparr>bm_headers := bm_headers bm @ hs\<rparr>)"
  using assms(1)
proof (induction hs arbitrary: bm)
  case (Cons h hs)
  have "step (print_soap_header nss pf v h) bm = Inr (bm\<lparr>bm_headers := bm_headers bm @ [h]\<rparr>)"
    using Cons.prems by (simp add: assms(2) print_soap_header_def resolve_written)
  with Cons show ?case by simp
qed simp

lemma parse_binding_message_written:
  assumes "list_all (qname_writable nss pf) (map sh_message (bm_headers m))"
  shows "parse_binding_message (print_binding_message nss pf v l m) (soap_binding_ns v) = Inr m"
proof -
  let ?step = "\<lambda>c bm.
      if node_ns_or_empty c = soap_binding_ns v then
        (if node_name c = ''body'' then
           Inr (bm\<lparr>bm_body :=
             \<lparr>use_attr = (if node_attribute c ''use'' = Some ''encoded'' then Encoded else Literal),
              body_namespace = node_attribute c ''namespace'',
              encoding_style = node_attribute c ''encodingStyle''\<rparr>\<rparr>)
         else if node_name c = ''header'' then
           (case (node_attribute c ''message'', node_attribute c ''part'') of
              (Some msg_str, Some part) \<Rightarrow>
                res_bind (resolve_qname_str msg_str c) (\<lambda>message.
                Inr (bm\<lparr>bm_headers := bm_headers bm @ [\<lparr>sh_message = message, sh_part = part\<rparr>]\<rparr>))
            | _ \<Rightarrow> Inr bm)
         else Inr bm)
      else Inr bm"
  let ?body = "soap_elem nss v ''body''
      ((None, ''use'', case use_attr (bm_body m) of Literal \<Rightarrow> ''literal'' | Encoded \<Rightarrow> ''encoded'') #
       opt_attr ''namespace'' (body_namespace (bm_body m)) @ opt_attr ''encodingStyle'' (encoding_style (bm_body m)))"
  have "?step ?body default_binding_message = Inr \<lparr>bm_body = bm_body m, bm_headers = []\<rparr>"
    by (cases "use_attr (bm_body m)"; cases "body_namespace (bm_body m)") (simp_all add: default_binding_message_def)
  moreover have "res_fold ?step (map (print_soap_header nss pf v) (bm_headers m))
      \<lparr>bm_body = bm_body m, bm_headers = []\<rparr> = Inr m"
    by (subst binding_message_headers_written [OF assms]) simp_all
  ultimately show ?thesis
    by (simp only: parse_binding_message_def print_binding_message_def element_children_wsdl filter.simps
        soap_elem_sel filter_elements written_are_elements if_True res_fold.simps res_bind_simps)
qed

lemma parse_binding_operation_written:
  assumes "list_all (qname_writable nss pf) (map sh_message (bm_headers (bo_input bo) @ bm_headers (bo_output bo)))"
  shows "parse_binding_operation (print_binding_operation nss pf v bo) v = Inr bo"
proof -
  have kind: "node_name (print_binding_message nss pf v l m) = l"
    "node_ns_or_empty (print_binding_message nss pf v l m) = WSDL_NS" for l m
    by (simp_all add: print_binding_message_def)
  show ?thesis
    using assms
    by (simp add: parse_binding_operation_def print_binding_operation_def required_attr_def kind
        parse_binding_message_written)
qed

lemma parse_soap_binding_written: "parse_soap_binding (print_soap_binding nss sb) (sb_soap_version sb) = sb"
  by (cases "sb_style sb") (simp_all add: parse_soap_binding_def print_soap_binding_def parse_binding_style_def)

lemma parse_binding_written:
  assumes "list_all (qname_writable nss pf) (binding_names b)"
  shows "parse_binding (print_binding nss pf b) = Inr b"
proof -
  let ?sb = "b_soap_binding b"
  have kind: "node_name (print_soap_binding nss ?sb) = ''binding''"
    "node_ns_or_empty (print_soap_binding nss ?sb) = soap_binding_ns (sb_soap_version ?sb)"
    by (simp_all add: print_soap_binding_def)
  have style: "parse_binding_child (print_soap_binding nss ?sb) (default_soap_binding, []) = Inr (?sb, [])"
    using parse_soap_binding_written [of nss ?sb] kind
    by (cases "sb_soap_version ?sb") (simp_all add: parse_binding_child_def soap_binding_ns_def)
  have "res_fold parse_binding_child (map (print_binding_operation nss pf (sb_soap_version ?sb)) bos) (?sb, ops) =
      Inr (?sb, ops @ bos)" if "set bos \<subseteq> set (b_operations b)" for bos ops
    using that
  proof (induction bos arbitrary: ops)
    case (Cons bo bos)
    have kind: "node_name (print_binding_operation nss pf v bo) = ''operation''"
      "node_ns_or_empty (print_binding_operation nss pf v bo) = WSDL_NS" for v
      by (simp_all add: print_binding_operation_def)
    have "parse_binding_operation (print_binding_operation nss pf (sb_soap_version ?sb) bo) (sb_soap_version ?sb) = Inr bo"
      using assms Cons.prems by (intro parse_binding_operation_written) (auto simp: binding_names_def list_all_iff)
    with Cons show ?case by (simp add: parse_binding_child_def kind)
  qed simp
  from this [of "b_operations b" "[]"] style show ?thesis
    using assms
    by (simp add: parse_binding_def print_binding_def required_attr_def resolve_written binding_names_def)
qed

section \<open>Reading a document\<close>

interpretation messages: table_field messages "\<lambda>m d. d\<lparr>messages := m\<rparr>" by unfold_locales simp_all
interpretation port_types: table_field port_types "\<lambda>m d. d\<lparr>port_types := m\<rparr>" by unfold_locales simp_all
interpretation bindings: table_field bindings "\<lambda>m d. d\<lparr>bindings := m\<rparr>" by unfold_locales simp_all
interpretation services: table_field services "\<lambda>m d. d\<lparr>services := m\<rparr>" by unfold_locales simp_all

lemma parse_imports_written:
  "res_fold parse_wsdl_child (map (print_import nss) is) d = Inr (d\<lparr>wsdl_imports := wsdl_imports d @ is\<rparr>)"
proof (induction "is" arbitrary: d)
  case (Cons i rest)
  have "parse_wsdl_child (print_import nss i) d = Inr (d\<lparr>wsdl_imports := wsdl_imports d @ [i]\<rparr>)"
    by (simp add: parse_wsdl_child_def print_import_def parse_import_def)
  with Cons show ?case by simp
qed simp

lemma parse_types_written:
  assumes "schema_nodes xs"
  shows "parse_wsdl_child (wsdl_elem nss ''types'' [] xs) d = Inr (d\<lparr>wsdl_types := \<lparr>schemas = map node_to_string xs\<rparr>\<rparr>)"
proof -
  have "filter is_element xs = xs"
    "filter (\<lambda>c. node_ns_or_empty c = XSD_NS \<and> node_name c = ''schema'') xs = xs"
    using assms by (simp_all add: schema_nodes_def list_all_iff filter_id_conv)
  then show ?thesis by (simp add: parse_wsdl_child_def parse_types_def)
qed

lemma parse_entry_written:
  "parse_message (print_message nss pf m) = Inr m \<Longrightarrow>
   parse_wsdl_child (print_message nss pf m) d = Inr (d\<lparr>messages := hm_insert (msg_name m) m (messages d)\<rparr>)"
  "parse_port_type (print_port_type nss pf p) = Inr p \<Longrightarrow>
   parse_wsdl_child (print_port_type nss pf p) d = Inr (d\<lparr>port_types := hm_insert (pt_name p) p (port_types d)\<rparr>)"
  "parse_binding (print_binding nss pf b) = Inr b \<Longrightarrow>
   parse_wsdl_child (print_binding nss pf b) d = Inr (d\<lparr>bindings := hm_insert (b_name b) b (bindings d)\<rparr>)"
  "parse_service (print_service nss pf v s) = Inr s \<Longrightarrow>
   parse_wsdl_child (print_service nss pf v s) d = Inr (d\<lparr>services := hm_insert (svc_name s) s (services d)\<rparr>)"
  by (simp_all add: parse_wsdl_child_def print_message_def print_port_type_def print_binding_def print_service_def)

text \<open>One table at a time, from an entry for each of its values.\<close>

lemma messages_read:
  assumes "wsdl_keyed d" and "list_all (qname_writable nss pf) (wsdl_names d)" and "messages d0 = []"
  shows "res_fold parse_wsdl_child (map (print_message nss pf) (hm_values (messages d))) d0 = Inr (d0\<lparr>messages := messages d\<rparr>)"
proof (rule messages.keyed_filed [where key = msg_name and f = parse_wsdl_child and pr = "print_message nss pf"
    and ok = "\<lambda>x. parse_message (print_message nss pf x) = Inr x"])
  show "list_all (\<lambda>x. parse_message (print_message nss pf x) = Inr x) (hm_values (messages d))"
    unfolding list_all_iff
  proof
    fix x assume x: "x \<in> set (hm_values (messages d))"
    with assms(2) show "parse_message (print_message nss pf x) = Inr x"
      by (intro parse_message_written) (fastforce simp: wsdl_names_def list_all_iff)
  qed
qed (use assms(1,3) in \<open>auto simp: wsdl_keyed_def parse_entry_written\<close>)

lemma port_types_read:
  assumes "wsdl_keyed d" and "list_all (qname_writable nss pf) (wsdl_names d)" and "port_types d0 = []"
  shows "res_fold parse_wsdl_child (map (print_port_type nss pf) (hm_values (port_types d))) d0 = Inr (d0\<lparr>port_types := port_types d\<rparr>)"
proof (rule port_types.keyed_filed [where key = pt_name and f = parse_wsdl_child and pr = "print_port_type nss pf"
    and ok = "\<lambda>x. parse_port_type (print_port_type nss pf x) = Inr x"])
  show "list_all (\<lambda>x. parse_port_type (print_port_type nss pf x) = Inr x) (hm_values (port_types d))"
    unfolding list_all_iff
  proof
    fix x assume x: "x \<in> set (hm_values (port_types d))"
    then have "\<forall>op \<in> set (pt_operations x). op_style op = operation_style_of (op_input op) (op_output op)"
      using assms(1) by (auto simp: wsdl_keyed_def)
    moreover have "list_all (qname_writable nss pf) (concat (map operation_names (pt_operations x)))"
      using assms(2) x by (fastforce simp: wsdl_names_def list_all_iff)
    ultimately show "parse_port_type (print_port_type nss pf x) = Inr x" by (intro parse_port_type_written)
  qed
qed (use assms(1,3) in \<open>auto simp: wsdl_keyed_def parse_entry_written\<close>)

lemma bindings_read:
  assumes "wsdl_keyed d" and "list_all (qname_writable nss pf) (wsdl_names d)" and "bindings d0 = []"
  shows "res_fold parse_wsdl_child (map (print_binding nss pf) (hm_values (bindings d))) d0 = Inr (d0\<lparr>bindings := bindings d\<rparr>)"
proof (rule bindings.keyed_filed [where key = b_name and f = parse_wsdl_child and pr = "print_binding nss pf"
    and ok = "\<lambda>x. parse_binding (print_binding nss pf x) = Inr x"])
  show "list_all (\<lambda>x. parse_binding (print_binding nss pf x) = Inr x) (hm_values (bindings d))"
    unfolding list_all_iff
  proof
    fix x assume x: "x \<in> set (hm_values (bindings d))"
    with assms(2) show "parse_binding (print_binding nss pf x) = Inr x"
      by (intro parse_binding_written) (fastforce simp: wsdl_names_def list_all_iff)
  qed
qed (use assms(1,3) in \<open>auto simp: wsdl_keyed_def parse_entry_written\<close>)

lemma services_read:
  assumes "wsdl_keyed d" and "list_all (qname_writable nss pf) (wsdl_names d)" and "services d0 = []"
  shows "res_fold parse_wsdl_child (map (print_service nss pf v) (hm_values (services d))) d0 = Inr (d0\<lparr>services := services d\<rparr>)"
proof (rule services.keyed_filed [where key = svc_name and f = parse_wsdl_child and pr = "print_service nss pf v"
    and ok = "\<lambda>x. parse_service (print_service nss pf v x) = Inr x"])
  show "list_all (\<lambda>x. parse_service (print_service nss pf v x) = Inr x) (hm_values (services d))"
    unfolding list_all_iff
  proof
    fix x assume x: "x \<in> set (hm_values (services d))"
    with assms(2) show "parse_service (print_service nss pf v x) = Inr x"
      by (intro parse_service_written) (fastforce simp: wsdl_names_def list_all_iff)
  qed
qed (use assms(1,3) in \<open>auto simp: wsdl_keyed_def parse_entry_written\<close>)

section \<open>Properties\<close>

text \<open>
  C27. The WSDL parser reads every document there is for a definition: a definition whose tables
  are keyed by the names of their entries, written out as a WSDL 1.1 document, is parsed back to
  itself, in full: imports, inline schemas as text, messages, port types with their operation
  styles, bindings of both SOAP versions with bodies and headers, services with their addresses,
  and every qualified name resolved in the scope of the document.
\<close>

theorem parse_written_wsdl:
  assumes "wsdl_keyed d" and "list_all (qname_writable nss pf) (wsdl_names d)"
    and "schema_nodes xs" and "wsdl_types d = \<lparr>schemas = map node_to_string xs\<rparr>"
    and "from_utf8 bytes = Some doc" and "rox doc = Inr (print_wsdl nss pf v xs d)"
  shows "parse_wsdl rox bytes = Inr d"
proof -
  let ?start = "empty_definition (target_namespace d)"
  have "res_fold parse_wsdl_child (node_children (print_wsdl nss pf v xs d)) ?start = Inr d"
    unfolding print_wsdl_def wsdl_elem_sel res_fold_append parse_imports_written
    by (simp add: empty_definition_def parse_types_written [OF assms(3)] messages_read [OF assms(1,2)]
        port_types_read [OF assms(1,2)] bindings_read [OF assms(1,2)] services_read [OF assms(1,2)]
        res_fold_append assms(4) [symmetric] del: map_map)
  moreover have "element_children (print_wsdl nss pf v xs d) = node_children (print_wsdl nss pf v xs d)"
    using assms(3) by (simp add: print_wsdl_def schema_nodes_def)
  ultimately show ?thesis
    using assms(5,6) by (simp add: parse_wsdl_def) (simp add: print_wsdl_def)
qed

definition stock_scope :: scope where
  "stock_scope = [(Some ''t'', ''urn:t''), (Some ''x'', XSD_NS)]"

definition stock_prefix :: "string \<Rightarrow> string" where
  "stock_prefix ns = (if ns = XSD_NS then ''x'' else ''t'')"

definition stock_body :: binding_message where
  "stock_body = \<lparr>bm_body = \<lparr>use_attr = Encoded, body_namespace = Some ''urn:t'', encoding_style = None\<rparr>,
     bm_headers = [\<lparr>sh_message = qname_new ''urn:t'' ''In'', sh_part = ''auth''\<rparr>]\<rparr>"

definition stock_wsdl :: wsdl_definition where
  "stock_wsdl =
     \<lparr>target_namespace = ''urn:t'', wsdl_imports = [\<lparr>imp_namespace = ''urn:o'', imp_location = Some ''o.wsdl''\<rparr>],
      wsdl_types = \<lparr>schemas = map node_to_string [Elem (Some XSD_NS) ''schema'' [] stock_scope []]\<rparr>,
      messages = [(''In'', \<lparr>msg_name = ''In'',
        parts = [\<lparr>mp_name = ''p'', mp_element = Some (qname_new ''urn:t'' ''E''), mp_type_ref = None\<rparr>,
                 \<lparr>mp_name = ''auth'', mp_element = None, mp_type_ref = Some (qname_new XSD_NS ''string'')\<rparr>]\<rparr>)],
      port_types = [(''PT'', \<lparr>pt_name = ''PT'',
        pt_operations = [\<lparr>op_name = ''Get'', op_input = Some \<lparr>om_name = None, om_message = qname_new ''urn:t'' ''In''\<rparr>,
          op_output = None, op_faults = [\<lparr>of_name = ''F'', of_message = qname_local ''In''\<rparr>], op_style = OneWay\<rparr>]\<rparr>)],
      bindings = [(''B'', \<lparr>b_name = ''B'', b_port_type = qname_new ''urn:t'' ''PT'',
        b_soap_binding = \<lparr>sb_style = Rpc, sb_transport = SOAP_HTTP_TRANSPORT, sb_soap_version = Soap11\<rparr>,
        b_operations = [\<lparr>bo_name = ''Get'', bo_soap_action = ''urn:get'', bo_input = stock_body, bo_output = stock_body\<rparr>]\<rparr>)],
      services = [(''S'', \<lparr>svc_name = ''S'',
        ports = [\<lparr>port_name = ''P'', port_binding = qname_new ''urn:t'' ''B'', port_address = ''http://h/s''\<rparr>]\<rparr>)]\<rparr>"

lemma parse_written_wsdl_witness:
  "parse_wsdl (\<lambda>_. Inr (print_wsdl stock_scope stock_prefix Soap11
     [Elem (Some XSD_NS) ''schema'' [] stock_scope []] stock_wsdl)) ''w'' = Inr stock_wsdl"
proof (rule parse_written_wsdl [where doc = "''w''"])
  show "wsdl_keyed stock_wsdl"
    by (simp add: wsdl_keyed_def stock_wsdl_def operation_style_of_def)
  show "list_all (qname_writable stock_scope stock_prefix) (wsdl_names stock_wsdl)"
    by (simp add: wsdl_names_def stock_wsdl_def part_names_def operation_names_def binding_names_def
        stock_body_def qname_writable_def stock_scope_def stock_prefix_def XSD_NS_def)
  show "schema_nodes [Elem (Some XSD_NS) ''schema'' [] stock_scope []]"
    by (simp add: schema_nodes_def node_ns_or_empty_def)
  show "wsdl_types stock_wsdl = \<lparr>schemas = map node_to_string [Elem (Some XSD_NS) ''schema'' [] stock_scope []]\<rparr>"
    by (simp add: stock_wsdl_def)
  show "from_utf8 ''w'' = Some ''w''" by (simp add: from_utf8_def utf8_valid_ascii is_ascii_def byte_def)
qed simp

end
