(* ===== verification/XsdTyping.thy ===== *)
theory XsdTyping
  imports XsdResolver
begin

text \<open>
  What resolution makes of schema components. \<open>content_flat\<close> says that a content model is not
  a derivation and that no element of it is a reference; every step of the resolver establishes or
  keeps it, for the types it registers. It says nothing of the anonymous types of local elements:
  the resolver copies an element with its inline type as it stands (\<open>inline_type_is_copied\<close>). The
  structs of \<open>xsd/elements.rs\<close> hold their counts as \<open>u64\<close>, the model as natural numbers:
  \<open>type_ok\<close> says that every count at any depth is in range, as what the parser builds is and
  what the resolver makes of it stays.
\<close>

section \<open>The predicates\<close>

fun max_ok :: "max_occurs \<Rightarrow> bool" where
  "max_ok (Bounded n) \<longleftrightarrow> n < u64_bound"
| "max_ok Unbounded \<longleftrightarrow> True"

definition count_ok :: "nat option \<Rightarrow> bool" where
  "count_ok v \<longleftrightarrow> (case v of Some n \<Rightarrow> n < u64_bound | None \<Rightarrow> True)"

definition restriction_ok :: "restriction \<Rightarrow> bool" where
  "restriction_ok r \<longleftrightarrow>
     count_ok (min_length r) \<and> count_ok (max_length r) \<and> count_ok (r_length r) \<and>
     count_ok (total_digits r) \<and> count_ok (fraction_digits r)"

definition simple_ok :: "simple_type \<Rightarrow> bool" where
  "simple_ok st \<longleftrightarrow> (case st_restriction st of Some r \<Rightarrow> restriction_ok r | None \<Rightarrow> True)"

fun element_ok :: "xsd_element \<Rightarrow> bool"
  and content_ok :: "complex_content \<Rightarrow> bool"
  and complex_ok :: "complex_type \<Rightarrow> bool"
  and type_ok :: "xsd_type \<Rightarrow> bool" where
  "element_ok (XsdElement name tr it mn mx nl df fx ref) \<longleftrightarrow>
     mn < u64_bound \<and> max_ok mx \<and> (case it of Some t \<Rightarrow> type_ok t | None \<Rightarrow> True)"
| "content_ok (Sequence els) \<longleftrightarrow> list_all element_ok els"
| "content_ok (All els) \<longleftrightarrow> list_all element_ok els"
| "content_ok (Choice els) \<longleftrightarrow> list_all element_ok els"
| "content_ok EmptyContent \<longleftrightarrow> True"
| "content_ok (SimpleContent _) \<longleftrightarrow> True"
| "content_ok (ComplexExtension _ c) \<longleftrightarrow> content_ok c"
| "content_ok (ComplexRestriction _ c) \<longleftrightarrow> content_ok c"
| "complex_ok (ComplexType name c attrs) \<longleftrightarrow> content_ok c"
| "type_ok (Complex ct) \<longleftrightarrow> complex_ok ct"
| "type_ok (Simple st) \<longleftrightarrow> simple_ok st"

text \<open>
  An element that stands for itself: a wildcard, an element without a reference, or a global
  declaration as it was collected.
\<close>

definition element_flat :: "flat_type_map \<Rightarrow> xsd_element \<Rightarrow> bool" where
  "element_flat flat el \<longleftrightarrow>
     el_name el = Some any_marker \<or> el_ref el = None \<or> el \<in> set (hm_values (ft_elements flat))"

fun content_flat :: "flat_type_map \<Rightarrow> complex_content \<Rightarrow> bool" where
  "content_flat flat (Sequence els) \<longleftrightarrow> list_all (element_flat flat) els"
| "content_flat flat (All els) \<longleftrightarrow> list_all (element_flat flat) els"
| "content_flat flat (Choice els) \<longleftrightarrow> list_all (element_flat flat) els"
| "content_flat flat EmptyContent \<longleftrightarrow> True"
| "content_flat flat (SimpleContent _) \<longleftrightarrow> True"
| "content_flat flat (ComplexExtension _ _) \<longleftrightarrow> False"
| "content_flat flat (ComplexRestriction _ _) \<longleftrightarrow> False"

fun type_flat :: "flat_type_map \<Rightarrow> xsd_type \<Rightarrow> bool" where
  "type_flat flat (Complex ct) \<longleftrightarrow> content_flat flat (ct_content ct)"
| "type_flat flat (Simple _) \<longleftrightarrow> True"

fun group_ok :: "group_content \<Rightarrow> bool" where
  "group_ok (GSequence els) \<longleftrightarrow> list_all element_ok els"
| "group_ok (GAll els) \<longleftrightarrow> list_all element_ok els"
| "group_ok (GChoice els) \<longleftrightarrow> list_all element_ok els"

lemma complex_ok_content: "complex_ok ct \<longleftrightarrow> content_ok (ct_content ct)"
  by (cases ct) simp

lemma group_ok_elements: "group_ok g \<Longrightarrow> list_all element_ok (group_elements g)"
  by (cases g) simp_all

lemma extract_elements_flat: "content_flat flat c \<Longrightarrow> list_all (element_flat flat) (extract_elements c)"
  by (cases c) simp_all

lemma extract_elements_ok: "content_ok c \<Longrightarrow> list_all element_ok (extract_elements c)"
  by (cases c) simp_all

section \<open>What the parser builds\<close>

lemma parse_u64_count: "count_ok (Option.bind v parse_u64)"
  by (auto simp: count_ok_def dest: parse_u64_bound split: option.splits bind_splits)

lemma parse_max_occurs_bound: "max_ok (parse_max_occurs n)"
  by (auto simp: parse_max_occurs_def dest: parse_u64_bound split: option.splits)
    (simp_all add: u64_bound_def)

lemma visit_facet_ok: "restriction_ok r \<Longrightarrow> restriction_ok (visit_facet c r)"
  using parse_u64_count
  by (simp add: visit_facet_def Let_def restriction_ok_def split: option.split)

lemma visit_restriction_ok: "restriction_ok (visit_restriction n)"
  unfolding visit_restriction_def Let_def
  by (rule fold_invariant_list)
    (simp_all add: visit_facet_ok, simp add: restriction_ok_def empty_restriction_def count_ok_def)

lemma visit_simple_type_ok: "simple_ok (visit_simple_type n)"
  unfolding visit_simple_type_def
  by (rule fold_invariant_list) (simp_all add: simple_ok_def visit_restriction_ok)

lemma visit_simple_content_ok: "content_ok (visit_simple_content n)"
  by (auto simp: visit_simple_content_def dest!: find_map_Some split: option.splits if_splits)

text \<open>The loops over the children, with what they give on each child.\<close>

lemma fold_children:
  assumes "I s" and "\<And>c s. c \<in> set cs \<Longrightarrow> I s \<Longrightarrow> I (f c s)"
  shows "I (fold f cs s)"
  using assms by (rule_tac fold_invariant [where Q = "\<lambda>c. c \<in> set cs"]) auto

lemma visit_ok:
  "complex_ok (visit_complex_type n1)" "content_ok (visit_complex_content n2)"
  "content_ok (snd (visit_extension n3))" "content_ok (visit_complex_restriction_content n4)"
  "list_all element_ok (visit_particle_children n5)" "element_ok (visit_element n6)"
proof (induction n1 and n2 and n3 and n4 and n5 and n6
    rule: visit_complex_type_visit_complex_content_visit_extension_visit_complex_restriction_content_visit_particle_children_visit_element.induct)
  case (1 n)
  let ?I = "\<lambda>s :: complex_content \<times> xsd_attribute list. content_ok (fst s)"
  show ?case
    unfolding visit_complex_type.simps [of n] Let_def complex_ok_content
    by (simp add: split_def)
      (rule fold_children [where I = ?I],
        use 1 visit_simple_content_ok in \<open>auto simp: split_def split: option.splits\<close>)
next
  case (2 n)
  then show ?case
    unfolding visit_complex_content.simps [of n]
    by (auto simp: split_def dest!: find_map_Some split: option.splits if_splits)
next
  case (3 n)
  show ?case
    unfolding visit_extension.simps [of n]
    by simp (rule fold_children [where I = content_ok], use 3 in auto)
next
  case (4 n)
  then show ?case
    unfolding visit_complex_restriction_content.simps [of n]
    by (auto dest!: find_map_Some split: option.splits if_splits)
next
  case (5 n)
  then show ?case
    unfolding visit_particle_children.simps [of n]
    by (auto simp: list_all_iff any_as_element_def visit_any_def parse_min_occurs_bound parse_max_occurs_bound)
next
  case (6 n)
  then show ?case
    unfolding visit_element.simps [of n]
    by (auto simp: parse_min_occurs_bound parse_max_occurs_bound visit_simple_type_ok dest!: find_map_Some
        split: option.splits if_splits)
qed

text \<open>A map whose values are all fine keeps that under the updates of the program.\<close>

definition values_ok :: "('v \<Rightarrow> bool) \<Rightarrow> ('k, 'v) hashmap \<Rightarrow> bool" where
  "values_ok P m \<longleftrightarrow> (\<forall>v \<in> set (hm_values m). P v)"

lemma values_ok_Nil [simp]: "values_ok P []"
  by (simp add: values_ok_def)

lemma values_ok_insert: "values_ok P m \<Longrightarrow> P v \<Longrightarrow> values_ok P (hm_insert k v m)"
  using hm_values_insert [of k v m] unfolding values_ok_def by blast

lemma values_ok_extend: "values_ok P m \<Longrightarrow> values_ok P new \<Longrightarrow> values_ok P (hm_extend m new)"
  unfolding hm_extend_def
  by (rule fold_children [where I = "values_ok P"])
    (auto simp: values_ok_def [of P new] intro!: values_ok_insert)

lemma values_ok_get: "values_ok P m \<Longrightarrow> hm_get m k = Some v \<Longrightarrow> P v"
  using hm_get_value_in [of m k v] unfolding values_ok_def by blast

lemma values_ok_pair: "values_ok P m \<Longrightarrow> (k, v) \<in> set m \<Longrightarrow> P v"
  by (force simp: values_ok_def)

definition raw_ok :: "raw_schema \<Rightarrow> bool" where
  "raw_ok s \<longleftrightarrow>
     values_ok type_ok (rs_types s) \<and> values_ok element_ok (rs_elements s) \<and>
     values_ok (\<lambda>g. group_ok (g_content g)) (rs_groups s)"

lemma visit_group_def_ok: "visit_group_def n = Some g \<Longrightarrow> group_ok (g_content g)"
proof -
  assume "visit_group_def n = Some g"
  moreover have "pred_option group_ok
      (fold (\<lambda>c content.
           if node_name c = ''sequence'' then Some (GSequence (visit_sequence c))
           else if node_name c = ''all'' then Some (GAll (visit_all c))
           else if node_name c = ''choice'' then Some (GChoice (visit_choice c))
           else content) (xs_children n) None)"
    by (rule fold_children [where I = "pred_option group_ok"])
      (auto simp: visit_sequence_def visit_all_def visit_choice_def visit_ok)
  ultimately show ?thesis
    by (auto simp: visit_group_def_def Let_def split: option.splits)
qed

lemma parse_schema_child_typed: "raw_ok s \<Longrightarrow> raw_ok (parse_schema_child tns c s)"
  unfolding parse_schema_child_def Let_def raw_ok_def
  by (auto simp: visit_ok visit_simple_type_ok intro!: values_ok_insert dest: visit_group_def_ok split: option.splits)

lemma parse_schema_typed: "parse_schema n = Inr s \<Longrightarrow> raw_ok s"
  unfolding parse_schema_def Let_def
  by (auto intro!: fold_invariant_list [where I = raw_ok] parse_schema_child_typed)
    (simp add: raw_ok_def empty_raw_schema_def)

section \<open>What the resolver makes of it\<close>

definition flat_ok :: "flat_type_map \<Rightarrow> bool" where
  "flat_ok f \<longleftrightarrow>
     values_ok type_ok (ft_types f) \<and> values_ok element_ok (ft_elements f) \<and>
     values_ok (\<lambda>g. group_ok (g_content g)) (ft_groups f)"

lemma flat_extend_ok: "flat_ok f \<Longrightarrow> raw_ok s \<Longrightarrow> flat_ok (flat_extend f s)"
  by (simp add: flat_ok_def raw_ok_def flat_extend_def values_ok_extend)

lemma load_schema_ok:
  "load_schema loader rox ns loc (queue, loaded) = Inr (queue', loaded') \<Longrightarrow> list_all raw_ok queue \<Longrightarrow>
   list_all raw_ok queue'"
  by (auto simp: load_schema_def res_simps parse_schema_typed split: if_splits)

lemma process_ok:
  assumes "list_all raw_ok (fst st)"
  shows "process_imports loader rox is st = Inr st' \<Longrightarrow> list_all raw_ok (fst st')"
    and "process_includes loader rox ns st = Inr st' \<Longrightarrow> list_all raw_ok (fst st')"
  using assms unfolding process_imports_def process_includes_def
  by - (erule res_fold_invariant [where I = "\<lambda>s. list_all raw_ok (fst s)", rotated 2];
      auto dest: load_schema_ok split: option.splits)+

lemma collect_loop_ok:
  "collect_loop loader rox queue flat loaded = Some r \<Longrightarrow>
   list_all raw_ok queue \<longrightarrow> flat_ok flat \<longrightarrow> (case r of Inr (f, _) \<Rightarrow> flat_ok f | Inl _ \<Rightarrow> True)"
proof (induction loader rox queue flat loaded r
    rule: collect_loop.raw_induct [rotated, consumes 1, case_names step])
  case (step f loader rox queue flat loaded r)
  show ?case
  proof (cases queue)
    case Nil
    with step(2) show ?thesis by auto
  next
    case (Cons schema rest)
    define pr where "pr = res_bind (process_imports loader rox (rs_imports schema) (rest, loaded))
        (process_includes loader rox (rs_includes schema))"
    have eq: "(case pr of Inl e \<Rightarrow> Some (Inl e)
        | Inr (queue', loaded') \<Rightarrow> f loader rox queue' (flat_extend flat schema) loaded') = Some r"
      using step(2) by (simp add: Cons pr_def)
    show ?thesis
    proof (cases pr)
      case (Inl e)
      with eq show ?thesis by auto
    next
      case (Inr st)
      obtain queue' loaded' where st: "st = (queue', loaded')" by force
      have rest: "list_all raw_ok queue'" if "list_all raw_ok rest"
      proof -
        from Inr obtain st1 where "process_imports loader rox (rs_imports schema) (rest, loaded) = Inr st1"
          "process_includes loader rox (rs_includes schema) st1 = Inr st"
          by (auto simp: pr_def res_simps)
        then show ?thesis using process_ok(1) [of "(rest, loaded)"] process_ok(2) [of st1] that st by fastforce
      qed
      have "f loader rox queue' (flat_extend flat schema) loaded' = Some r"
        using eq by (simp add: Inr st)
      from step(1) [OF this] rest show ?thesis by (auto simp: Cons intro: flat_extend_ok)
    qed
  qed
qed

lemma flat_ok_get:
  assumes "flat_ok flat"
  shows "hm_get (ft_groups flat) q = Some g \<Longrightarrow> list_all element_ok (group_elements (g_content g))"
    and "hm_get (ft_elements flat) q = Some e \<Longrightarrow> element_ok e"
    and "hm_get (ft_types flat) q = Some t \<Longrightarrow> type_ok t"
proof -
  show "hm_get (ft_groups flat) q = Some g \<Longrightarrow> list_all element_ok (group_elements (g_content g))"
    using assms values_ok_get [of "\<lambda>g. group_ok (g_content g)" "ft_groups flat" q g]
    by (intro group_ok_elements) (simp add: flat_ok_def)
  show "hm_get (ft_elements flat) q = Some e \<Longrightarrow> element_ok e"
    using assms values_ok_get [of element_ok "ft_elements flat" q e] by (simp add: flat_ok_def)
  show "hm_get (ft_types flat) q = Some t \<Longrightarrow> type_ok t"
    using assms values_ok_get [of type_ok "ft_types flat" q t] by (simp add: flat_ok_def)
qed

lemma resolve_element_list_ok:
  "resolve_element_list flat els = Some r \<Longrightarrow> flat_ok flat \<longrightarrow> list_all element_ok els \<longrightarrow> list_all element_ok r"
proof (induction flat els r rule: resolve_element_list.raw_induct [rotated, consumes 1, case_names step])
  case (step f flat els r)
  note IH = step(1) [rule_format]
  show ?case
  proof (intro impI)
    assume ok: "flat_ok flat" "list_all element_ok els"
    show "list_all element_ok r"
    proof (cases els)
      case Nil
      with step(2) show ?thesis by simp
    next
      case (Cons el els')
      have rest: "list_all element_ok r'" if "f flat els' = Some r'" for r'
        using IH [OF that ok(1)] ok(2) Cons by simp
      have inlined: "list_all element_ok r'"
        if "f flat (group_elements (g_content g)) = Some r'" "hm_get (ft_groups flat) q = Some g" for r' g q
        using IH [OF that(1) ok(1)] flat_ok_get(1) [OF ok(1) that(2)] by simp
      show ?thesis
        using step(2) Cons ok rest inlined flat_ok_get(2) [OF ok(1)]
        by (auto simp: bind_eq_Some_conv split: if_splits option.splits)
    qed
  qed
qed

lemma element_flat_intros:
  "el_name el = Some any_marker \<Longrightarrow> element_flat flat el" "el_ref el = None \<Longrightarrow> element_flat flat el"
  "hm_get (ft_elements flat) q = Some el \<Longrightarrow> element_flat flat el"
  using hm_get_value_in [of "ft_elements flat" q el] by (simp_all add: element_flat_def)

lemma resolve_element_list_flat:
  "resolve_element_list flat els = Some r \<Longrightarrow> list_all (element_flat flat) r"
proof (induction flat els r rule: resolve_element_list.raw_induct [rotated, consumes 1, case_names step])
  case (step f flat els r)
  show ?case
  proof (cases els)
    case Nil
    with step(2) show ?thesis by simp
  next
    case (Cons el els')
    show ?thesis
      using step(2) Cons step(1)
      by (auto simp: bind_eq_Some_conv element_flat_intros split: if_splits option.splits)
  qed
qed

text \<open>A finished type: in range and flat.\<close>

definition finished :: "flat_type_map \<Rightarrow> complex_type \<Rightarrow> bool" where
  "finished flat ct \<longleftrightarrow> complex_ok ct \<and> content_flat flat (ct_content ct)"

lemma finished_content:
  "finished flat ct \<Longrightarrow> content_ok (ct_content ct)" "finished flat ct \<Longrightarrow> content_flat flat (ct_content ct)"
  by (simp_all add: finished_def complex_ok_content)

lemma resolve_types_ok:
  "resolve_named_type q flat memo resolving = Some (Inr (ct, memo')) \<Longrightarrow> flat_ok flat \<Longrightarrow>
   values_ok (finished flat) memo \<Longrightarrow> finished flat ct \<and> values_ok (finished flat) memo'"
  "resolve_complex_type raw flat2 memo2 resolving2 = Some (Inr (ct2, memo2')) \<Longrightarrow> flat_ok flat2 \<Longrightarrow>
   values_ok (finished flat2) memo2 \<Longrightarrow> complex_ok raw \<Longrightarrow> finished flat2 ct2 \<and> values_ok (finished flat2) memo2'"
  "resolve_content c flat3 memo3 resolving3 = Some (Inr (c3, memo3')) \<Longrightarrow> flat_ok flat3 \<Longrightarrow>
   values_ok (finished flat3) memo3 \<Longrightarrow> content_ok c \<Longrightarrow>
   content_ok c3 \<and> content_flat flat3 c3 \<and> values_ok (finished flat3) memo3'"
proof (induction q flat memo resolving and raw flat2 memo2 resolving2 and c flat3 memo3 resolving3
    arbitrary: ct memo' and ct2 memo2' and c3 memo3'
    rule: resolve_named_type_resolve_complex_type_resolve_content.induct)
  case (1 q flat memo resolving)
  show ?case
  proof (cases "hm_get memo q")
    case (Some ct0)
    with 1 show ?thesis by (auto simp: resolve_named_type.simps [of q] dest: values_ok_get)
  next
    case None
    have opaque: "finished flat opaque_type" by (simp add: finished_def opaque_type_def)
    show ?thesis
    proof (cases "hm_get (ft_types flat) q")
      case (Some t)
      show ?thesis
      proof (cases t)
        case (Complex raw)
        with Some have "complex_ok raw" using flat_ok_get(3) [OF 1(3)] by fastforce
        with 1 None Some Complex show ?thesis
          by (auto simp: resolve_named_type.simps [of q] dbind_Ok_iff intro!: values_ok_insert split: if_splits)
      qed (use 1(2-) None Some opaque in \<open>auto simp: resolve_named_type.simps [of q] split: if_splits\<close>)
    qed (use 1(2-) None opaque in \<open>auto simp: resolve_named_type.simps [of q] split: if_splits\<close>)
  qed
next
  case (2 raw flat memo resolving)
  then show ?case
    by (auto simp: resolve_complex_type.simps [of raw] dbind_Ok_iff finished_def complex_ok_content
        split: option.splits)
next
  case (3 base child flat memo resolving)
  from 3(3) obtain base_ct memo1 child' memo2 where
    base: "resolve_named_type base flat memo resolving = Some (Inr (base_ct, memo1))"
    and child: "resolve_content child flat memo1 resolving = Some (Inr (child', memo2))"
    and result: "c3 = Sequence (extract_elements (ct_content base_ct) @ extract_elements child')" "memo3' = memo2"
    by (auto simp: dbind_Ok_iff)
  have b: "finished flat base_ct \<and> values_ok (finished flat) memo1"
    using 3(1) [OF base 3(4,5)] .
  have c: "content_ok child' \<and> content_flat flat child' \<and> values_ok (finished flat) memo2"
    using 3(2) [OF base refl child 3(4)] b 3(6) by simp
  from b c show ?case
    by (auto simp: result dest: finished_content intro: extract_elements_ok extract_elements_flat)
next
  case (4 base child flat memo resolving)
  then show ?case by simp
next
  case (5 els flat memo resolving)
  then show ?case using resolve_element_list_ok [of flat els] resolve_element_list_flat [of flat els]
    by (auto simp: lift_elements_def)
next
  case (6 els flat memo resolving)
  then show ?case using resolve_element_list_ok [of flat els] resolve_element_list_flat [of flat els]
    by (auto simp: lift_elements_def)
next
  case (7 els flat memo resolving)
  then show ?case using resolve_element_list_ok [of flat els] resolve_element_list_flat [of flat els]
    by (auto simp: lift_elements_def)
next
  case (8 scd flat memo resolving)
  then show ?case by auto
next
  case (9 flat memo resolving)
  then show ?case by auto
qed

section \<open>The registry\<close>

definition registry_ok :: "flat_type_map \<Rightarrow> type_registry \<Rightarrow> bool" where
  "registry_ok flat r \<longleftrightarrow> (\<forall>q t. registry_lookup r q = Some t \<longrightarrow> type_ok t \<and> type_flat flat t)"

lemma registry_ok_insert:
  "registry_ok flat r \<Longrightarrow> type_ok t \<Longrightarrow> type_flat flat t \<Longrightarrow> registry_ok flat (registry_insert q t r)"
  by (simp add: registry_ok_def)

lemma finished_type: "finished flat ct \<Longrightarrow> type_ok (Complex ct)" "finished flat ct \<Longrightarrow> type_flat flat (Complex ct)"
  by (simp_all add: finished_def)

lemma register_simple_ok: "flat_ok flat \<Longrightarrow> registry_ok flat (register_simple flat)"
  unfolding register_simple_def
  by (rule fold_children [where I = "registry_ok flat"])
    (auto simp: registry_ok_def flat_ok_def split: xsd_type.splits if_splits dest!: values_ok_pair [where P = type_ok])

lemma register_complex_ok: "values_ok (finished flat) memo \<Longrightarrow> registry_ok flat r \<Longrightarrow> registry_ok flat (register_complex memo r)"
  unfolding register_complex_def
  by (rule fold_children [where I = "registry_ok flat"])
    (auto intro!: registry_ok_insert finished_type dest: values_ok_pair)

lemma resolve_types_loop_finished:
  "resolve_types_loop qs flat memo = Some (Inr memo') \<Longrightarrow> flat_ok flat \<Longrightarrow> values_ok (finished flat) memo \<Longrightarrow>
   values_ok (finished flat) memo'"
proof (induction qs arbitrary: memo)
  case (Cons q qs)
  show ?case
  proof (cases "hm_get memo q")
    case None
    with Cons.prems(1) obtain ct memo1 where "resolve_named_type q flat memo {} = Some (Inr (ct, memo1))"
      and loop: "resolve_types_loop qs flat (hm_insert q ct memo1) = Some (Inr memo')"
      by (auto simp: dbind_Ok_iff)
    then have "finished flat ct \<and> values_ok (finished flat) memo1"
      using resolve_types_ok(1) Cons.prems by blast
    with Cons.IH [OF loop] Cons.prems show ?thesis by (simp add: values_ok_insert)
  qed (use Cons in simp)
qed simp

lemma register_elements_ok:
  "register_elements els flat r = Some r' \<Longrightarrow> flat_ok flat \<Longrightarrow> values_ok element_ok els \<Longrightarrow> registry_ok flat r \<Longrightarrow>
   registry_ok flat r'"
proof (induction els flat r rule: register_elements.induct)
  case (2 q el els flat r)
  have els: "values_ok element_ok els" and el: "element_ok el"
    using 2(8) by (simp_all add: values_ok_def)
  have inline: "finished flat ct"
    if "el_inline_type el = Some (Complex raw)" "resolve_complex_type raw flat [] {} = Some (Inr (ct, m))" for raw ct m
    using resolve_types_ok(2) [OF that(2) 2(7)] el that(1) by (cases el) auto
  show ?case
  proof (cases "registry_lookup r q")
    case None
    show ?thesis
    proof (cases "el_inline_type el")
      case (Some t)
      show ?thesis
      proof (cases t)
        case (Complex raw)
        show ?thesis
        proof (cases "resolve_complex_type raw flat [] {}")
          case (Some res)
          show ?thesis
          proof (cases res)
            case (Inr p)
            obtain ct m where p: "p = (ct, m)" by force
            have "registry_ok flat (registry_insert q (Complex ct) r)"
              using inline finished_type 2(9) \<open>el_inline_type el = Some t\<close> Complex Some Inr p
              by (blast intro: registry_ok_insert)
            then show ?thesis
              using 2 None \<open>el_inline_type el = Some t\<close> Complex Some Inr p els by simp
          qed (use 2 None \<open>el_inline_type el = Some t\<close> Complex Some els in simp)
        qed (use 2 None \<open>el_inline_type el = Some t\<close> Complex in simp)
      qed (use 2 None Some els in simp)
    qed (use 2 None els in simp)
  qed (use 2 els in simp)
qed simp

lemma resolve_flat_ok: "resolve_flat flat = Some (Inr r) \<Longrightarrow> flat_ok flat \<Longrightarrow> registry_ok flat r"
proof -
  assume "resolve_flat flat = Some (Inr r)" and ok: "flat_ok flat"
  then obtain memo where memo: "resolve_types_loop (complex_qnames flat) flat [] = Some (Inr memo)"
    and reg: "register_elements (ft_elements flat) flat (register_complex memo (register_simple flat)) = Some r"
    by (auto simp: resolve_flat_def dbind_Ok_iff)
  have "registry_ok flat (register_complex memo (register_simple flat))"
    using resolve_types_loop_finished [OF memo ok] by (simp add: register_complex_ok register_simple_ok ok)
  with register_elements_ok [OF reg ok] ok show ?thesis by (simp add: flat_ok_def)
qed

lemma resolve_schema_collects:
  "resolve_schema raw loader rox loaded = Some (Inr (registry, loaded')) \<longleftrightarrow>
   (\<exists>flat. collect_all_schemas raw loader rox loaded = Some (Inr (flat, loaded')) \<and>
      resolve_flat flat = Some (Inr registry))"
  by (auto simp: resolve_schema_def dbind_Ok_iff)

lemma resolved_registry_ok:
  assumes "parse_schema n = Inr raw"
    and "collect_all_schemas raw loader rox loaded = Some (Inr (flat, loaded'))"
    and "resolve_flat flat = Some (Inr registry)"
  shows "registry_ok flat registry"
proof -
  have "flat_ok flat"
    using collect_loop_ok [OF assms(2) [unfolded collect_all_schemas_def]] parse_schema_typed [OF assms(1)]
    by (simp add: flat_ok_def empty_flat_def)
  then show ?thesis by (rule resolve_flat_ok [OF assms(3)])
qed

text \<open>An element without a reference is copied with its anonymous type, whatever that derives from.\<close>

lemma inline_type_is_copied:
  "el_ref el = None \<Longrightarrow> resolve_element_list flat (el # els) = map_option ((#) el) (resolve_element_list flat els)"
  by (subst resolve_element_list.simps) (simp add: map_option_case split: option.split)

section \<open>Properties\<close>

text \<open>
  C23. Registered types are flat: whatever schema is parsed and whatever its imports and includes
  load, the content of every complex type in the registry is neither an extension nor a
  restriction, and each element of it is a wildcard, an element without a reference, or a global
  declaration: references to groups have been replaced by the elements of the group, references
  to elements by the declarations. (The anonymous types inside such elements are left as they were
  written.)
\<close>

theorem resolved_types_are_flat:
  assumes "parse_schema n = Inr raw"
    and "collect_all_schemas raw loader rox loaded = Some (Inr (flat, loaded'))"
    and "resolve_schema raw loader rox loaded = Some (Inr (registry, loaded''))"
    and "registry_lookup registry q = Some (Complex ct)"
  shows "content_flat flat (ct_content ct)"
proof -
  have "resolve_flat flat = Some (Inr registry)"
    using assms(2,3) by (simp add: resolve_schema_collects)
  from resolved_registry_ok [OF assms(1,2) this] assms(4) show ?thesis
    by (force simp: registry_ok_def)
qed

text \<open>
  A schema in which a type extends another; the base has a reference to a group, the extension
  one to a global element.
\<close>

definition flat_schema :: xnode where
  "flat_schema =
     xs_node ''schema'' []
       [xs_node ''group'' [(None, ''name'', ''G'')]
          [xs_node ''sequence'' [] [xs_node ''element'' [(None, ''name'', ''e'')] []]],
        xs_node ''element'' [(None, ''name'', ''f'')] [],
        xs_node ''complexType'' [(None, ''name'', ''B'')]
          [xs_node ''sequence'' [] [xs_node ''element'' [(None, ''ref'', ''G'')] []]],
        xs_node ''complexType'' [(None, ''name'', ''D'')]
          [xs_node ''complexContent'' []
            [xs_node ''extension'' [(None, ''base'', ''B'')]
              [xs_node ''sequence'' [] [xs_node ''element'' [(None, ''ref'', ''f'')] []]]]]]"

definition plain_element :: "string option \<Rightarrow> string option \<Rightarrow> xsd_element" where
  "plain_element name ref = XsdElement name None None 1 (Bounded 1) False None None (map_option qname_local ref)"

definition flat_raw :: raw_schema where
  "flat_raw = (empty_raw_schema None)\<lparr>
     rs_types :=
       [(qname_local ''B'', Complex (ComplexType (Some ''B'') (Sequence [plain_element None (Some ''G'')]) [])),
        (qname_local ''D'', Complex (ComplexType (Some ''D'')
           (ComplexExtension (qname_local ''B'') (Sequence [plain_element None (Some ''f'')])) []))],
     rs_elements := [(qname_local ''f'', plain_element (Some ''f'') None)],
     rs_groups := [(qname_local ''G'', \<lparr>g_name = ''G'', g_content = GSequence [plain_element (Some ''e'') None]\<rparr>)]\<rparr>"

lemma parse_flat: "parse_schema flat_schema = Inr flat_raw"
proof -
  have none: "xs_children (xs_node l as []) = []" for l as
    by (simp add: xs_children_def element_children_def)
  have names: "resolve_qname v (xs_node l as cs) = qname_local v" if "v \<in> {''B'', ''G'', ''f''}" for v l as cs
    using that by (auto simp: resolve_qname_def xs_node_def lookup_namespace_uri_def)
  have all: "xs_children (xs_node ''schema'' [] [xs_node l1 as1 cs1, xs_node l2 as2 cs2, xs_node l3 as3 cs3,
      xs_node l4 as4 cs4]) = [xs_node l1 as1 cs1, xs_node l2 as2 cs2, xs_node l3 as3 cs3, xs_node l4 as4 cs4]"
    for l1 as1 cs1 l2 as2 cs2 l3 as3 cs3 l4 as4 cs4
    by (simp add: xs_children_def element_children_def)
  show ?thesis
    by (simp add: parse_schema_def flat_schema_def flat_raw_def parse_schema_child_def all none names node_attribute_def
        visit_group_def_def visit_sequence_def empty_raw_schema_def qualify_name_def hm_insert_def plain_element_def
        visit_complex_type.simps visit_complex_content.simps visit_extension.simps visit_particle_children.simps
        visit_element.simps parse_min_occurs_def parse_max_occurs_def parse_u64_attr_def)
qed

definition flat_map :: flat_type_map where
  "flat_map = \<lparr>ft_types = rs_types flat_raw, ft_attribute_groups = [], ft_groups = rs_groups flat_raw,
     ft_elements = rs_elements flat_raw\<rparr>"

lemma collect_flat:
  "collect_all_schemas flat_raw null_schema_loader rox {} = Some (Inr (flat_map, {}))"
  unfolding collect_all_schemas_def
  by (subst collect_loop.simps, simp add: flat_raw_def empty_raw_schema_def process_imports_def process_includes_def)
    (subst collect_loop.simps, simp add: flat_extend_def empty_flat_def hm_extend_def hm_insert_def flat_map_def
      flat_raw_def empty_raw_schema_def)

lemma resolve_flat_schema:
  "\<exists>registry. resolve_schema flat_raw null_schema_loader rox {} = Some (Inr (registry, {})) \<and>
     registry_lookup registry (qname_local ''D'') = Some (Complex (ComplexType (Some ''D'')
       (Sequence [plain_element (Some ''e'') None, plain_element (Some ''f'') None]) []))"
proof -
  have nil: "resolve_element_list flat_map [] = Some []" by (subst resolve_element_list.simps) simp
  have keep: "resolve_element_list flat_map [plain_element (Some ''e'') None] = Some [plain_element (Some ''e'') None]"
    by (subst resolve_element_list.simps) (simp add: nil plain_element_def any_marker_def)
  have group: "resolve_element_list flat_map [plain_element None (Some ''G'')] = Some [plain_element (Some ''e'') None]"
    by (subst resolve_element_list.simps)
      (simp add: nil keep [simplified plain_element_def, simplified] plain_element_def flat_map_def [THEN arg_cong, of ft_groups]
        flat_raw_def hm_get_def)
  have global: "resolve_element_list flat_map [plain_element None (Some ''f'')] = Some [plain_element (Some ''f'') None]"
    by (subst resolve_element_list.simps)
      (simp add: nil plain_element_def flat_map_def [THEN arg_cong, of ft_groups]
        flat_map_def [THEN arg_cong, of ft_elements] flat_raw_def hm_get_def qname_local_def)
  have types: "ft_types flat_map = rs_types flat_raw" "ft_elements flat_map = rs_elements flat_raw"
    by (simp_all add: flat_map_def)
  have "\<exists>registry. resolve_flat flat_map = Some (Inr registry) \<and>
     registry_lookup registry (qname_local ''D'') = Some (Complex (ComplexType (Some ''D'')
       (Sequence [plain_element (Some ''e'') None, plain_element (Some ''f'') None]) []))"
    by (simp add: resolve_flat_def complex_qnames_def types flat_raw_def hm_get_def hm_insert_def
        resolve_named_type.simps resolve_complex_type.simps lift_elements_def group global register_simple_def
        register_complex_def qname_local_def plain_element_def [of "Some ''f''" None])
  then show ?thesis using collect_flat by (auto simp: resolve_schema_collects)
qed

theorem resolved_types_are_flat_witness:
  "\<exists>registry ct. resolve_schema flat_raw null_schema_loader (\<lambda>_. Inl []) {} = Some (Inr (registry, {})) \<and>
     registry_lookup registry (qname_local ''D'') = Some (Complex ct) \<and> content_flat flat_map (ct_content ct)"
proof -
  obtain registry where run: "resolve_schema flat_raw null_schema_loader (\<lambda>_. Inl []) {} = Some (Inr (registry, {}))"
    and found: "registry_lookup registry (qname_local ''D'') = Some (Complex (ComplexType (Some ''D'')
      (Sequence [plain_element (Some ''e'') None, plain_element (Some ''f'') None]) []))"
    using resolve_flat_schema by blast
  from resolved_types_are_flat [OF parse_flat collect_flat run found] run found show ?thesis by blast
qed

end
