(* ===== verification/XsdPrint.thy ===== *)
theory XsdPrint
  imports XsdTyping XmlWrite
begin

text \<open>
  The specification side of the schema parser: schema components written out as the elements of
  an XML Schema document, with every declaration in scope at each element. What
  \<open>src/src/xsd/parser.rs\<close> reads of such a document is the schema it was written from.
\<close>

section \<open>Writing attributes and simple types\<close>

definition xs_elem :: "scope \<Rightarrow> string \<Rightarrow> (string option \<times> string \<times> string) list \<Rightarrow> xnode list \<Rightarrow> xnode" where
  "xs_elem nss l as cs = Elem (Some XS_NS) l as nss cs"

lemma xs_elem_sel [simp]:
  "node_name (xs_elem nss l as cs) = l" "node_ns (xs_elem nss l as cs) = Some XS_NS"
  "node_namespaces (xs_elem nss l as cs) = nss" "is_element (xs_elem nss l as cs)"
  "node_children (xs_elem nss l as cs) = cs"
  "node_attribute (xs_elem nss l as cs) a = node_attribute (Elem (Some XS_NS) l as nss cs) a"
  by (simp_all add: xs_elem_def)

definition print_use :: "attribute_use \<Rightarrow> string" where
  "print_use u = (case u of Required \<Rightarrow> ''required'' | Optional \<Rightarrow> ''optional'' | Prohibited \<Rightarrow> ''prohibited'')"

definition print_attribute :: "scope \<Rightarrow> (string \<Rightarrow> string) \<Rightarrow> xsd_attribute \<Rightarrow> xnode" where
  "print_attribute nss pf a =
     xs_elem nss ''attribute''
       (opt_attr ''name'' (at_name a) @ opt_attr ''type'' (map_option (qname_text pf) (at_type_ref a)) @
        (None, ''use'', print_use (at_use a)) # opt_attr ''default'' (at_default a) @
        opt_attr ''fixed'' (at_fixed a) @ opt_attr ''ref'' (map_option (qname_text pf) (at_ref a))) []"

definition print_group_ref :: "scope \<Rightarrow> (string \<Rightarrow> string) \<Rightarrow> qname \<Rightarrow> xnode" where
  "print_group_ref nss pf q = xs_elem nss ''attributeGroup'' [(None, ''ref'', qname_text pf q)] []"

text \<open>An attribute of a complex type, where the parser keeps a group reference as an attribute.\<close>

definition print_member :: "scope \<Rightarrow> (string \<Rightarrow> string) \<Rightarrow> xsd_attribute \<Rightarrow> xnode" where
  "print_member nss pf a =
     (case at_ref a of
        Some q \<Rightarrow> if a = group_ref_attribute q then print_group_ref nss pf q else print_attribute nss pf a
      | None \<Rightarrow> print_attribute nss pf a)"

definition print_attribute_group :: "scope \<Rightarrow> (string \<Rightarrow> string) \<Rightarrow> attribute_group \<Rightarrow> xnode" where
  "print_attribute_group nss pf g =
     xs_elem nss ''attributeGroup'' [(None, ''name'', ag_name g)]
       (map (print_attribute nss pf) (ag_attributes g) @ map (print_group_ref nss pf) (ag_groups g))"

definition print_facet :: "scope \<Rightarrow> string \<Rightarrow> string \<Rightarrow> xnode" where
  "print_facet nss l v = xs_elem nss l [(None, ''value'', v)] []"

definition print_whitespace :: "whitespace_handling \<Rightarrow> string" where
  "print_whitespace w = (case w of Preserve \<Rightarrow> ''preserve'' | Replace \<Rightarrow> ''replace'' | Collapse \<Rightarrow> ''collapse'')"

definition print_restriction :: "scope \<Rightarrow> (string \<Rightarrow> string) \<Rightarrow> restriction \<Rightarrow> xnode" where
  "print_restriction nss pf r =
     xs_elem nss ''restriction'' [(None, ''base'', qname_text pf (r_base r))]
       (map (print_facet nss ''enumeration'') (enumeration r) @
        map (print_facet nss ''minInclusive'') (opt_list (min_inclusive r)) @
        map (print_facet nss ''maxInclusive'') (opt_list (max_inclusive r)) @
        map (print_facet nss ''minExclusive'') (opt_list (min_exclusive r)) @
        map (print_facet nss ''maxExclusive'') (opt_list (max_exclusive r)) @
        map (\<lambda>n. print_facet nss ''minLength'' (nat_to_string n)) (opt_list (min_length r)) @
        map (\<lambda>n. print_facet nss ''maxLength'' (nat_to_string n)) (opt_list (max_length r)) @
        map (\<lambda>n. print_facet nss ''length'' (nat_to_string n)) (opt_list (r_length r)) @
        map (print_facet nss ''pattern'') (opt_list (pattern r)) @
        map (\<lambda>w. print_facet nss ''whiteSpace'' (print_whitespace w)) (opt_list (whitespace r)) @
        map (\<lambda>n. print_facet nss ''totalDigits'' (nat_to_string n)) (opt_list (total_digits r)) @
        map (\<lambda>n. print_facet nss ''fractionDigits'' (nat_to_string n)) (opt_list (fraction_digits r)))"

definition print_simple_type :: "scope \<Rightarrow> (string \<Rightarrow> string) \<Rightarrow> simple_type \<Rightarrow> xnode" where
  "print_simple_type nss pf st =
     xs_elem nss ''simpleType'' (opt_attr ''name'' (st_name st))
       (map (print_restriction nss pf) (opt_list (st_restriction st)) @
        map (\<lambda>l. xs_elem nss ''list'' [(None, ''itemType'', qname_text pf (item_type l))] []) (opt_list (st_list st)) @
        map (\<lambda>u. xs_elem nss ''union'' [(None, ''memberTypes'', word_list (map (qname_text pf) (member_types u)))] [])
          (opt_list (st_union st)))"

section \<open>Writing elements and complex types\<close>

definition print_max :: "max_occurs \<Rightarrow> string" where
  "print_max m = (case m of Unbounded \<Rightarrow> ''unbounded'' | Bounded n \<Rightarrow> nat_to_string n)"

definition occurs_attrs :: "nat \<Rightarrow> max_occurs \<Rightarrow> (string option \<times> string \<times> string) list" where
  "occurs_attrs lo hi = [(None, ''minOccurs'', nat_to_string lo), (None, ''maxOccurs'', print_max hi)]"

definition print_bool :: "bool \<Rightarrow> string" where
  "print_bool b = (if b then ''true'' else ''false'')"

text \<open>An element that the parser makes of a wildcard is written as one.\<close>

fun print_element :: "scope \<Rightarrow> (string \<Rightarrow> string) \<Rightarrow> xsd_element \<Rightarrow> xnode"
  and print_content :: "scope \<Rightarrow> (string \<Rightarrow> string) \<Rightarrow> complex_content \<Rightarrow> xnode list"
  and print_complex_type :: "scope \<Rightarrow> (string \<Rightarrow> string) \<Rightarrow> complex_type \<Rightarrow> xnode"
  and print_type :: "scope \<Rightarrow> (string \<Rightarrow> string) \<Rightarrow> xsd_type \<Rightarrow> xnode" where
  "print_element nss pf (XsdElement name tr it lo hi nl df fx ref) =
     (if name = Some any_marker then xs_elem nss ''any'' (occurs_attrs lo hi) []
      else
        xs_elem nss ''element''
          (opt_attr ''name'' name @ opt_attr ''type'' (map_option (qname_text pf) tr) @ occurs_attrs lo hi @
           (None, ''nillable'', print_bool nl) # opt_attr ''default'' df @ opt_attr ''fixed'' fx @
           opt_attr ''ref'' (map_option (qname_text pf) ref))
          (case it of Some t \<Rightarrow> [print_type nss pf t] | None \<Rightarrow> []))"
| "print_content nss pf (Sequence els) = [xs_elem nss ''sequence'' [] (map (print_element nss pf) els)]"
| "print_content nss pf (All els) = [xs_elem nss ''all'' [] (map (print_element nss pf) els)]"
| "print_content nss pf (Choice els) = [xs_elem nss ''choice'' [] (map (print_element nss pf) els)]"
| "print_content nss pf EmptyContent = []"
| "print_content nss pf (SimpleContent sc) =
     [xs_elem nss ''simpleContent'' []
        [xs_elem nss ''extension'' [(None, ''base'', qname_text pf (sc_base sc))]
           (map (print_attribute nss pf) (sc_attributes sc))]]"
| "print_content nss pf (ComplexExtension b c) =
     [xs_elem nss ''complexContent'' []
        [xs_elem nss ''extension'' [(None, ''base'', qname_text pf b)] (print_content nss pf c)]]"
| "print_content nss pf (ComplexRestriction b c) =
     [xs_elem nss ''complexContent'' []
        [xs_elem nss ''restriction'' [(None, ''base'', qname_text pf b)] (print_content nss pf c)]]"
| "print_complex_type nss pf (ComplexType name c attrs) =
     xs_elem nss ''complexType'' (opt_attr ''name'' name) (print_content nss pf c @ map (print_member nss pf) attrs)"
| "print_type nss pf (Complex ct) = print_complex_type nss pf ct"
| "print_type nss pf (Simple st) = print_simple_type nss pf st"

definition print_group_def :: "scope \<Rightarrow> (string \<Rightarrow> string) \<Rightarrow> group_def \<Rightarrow> xnode" where
  "print_group_def nss pf g =
     xs_elem nss ''group'' [(None, ''name'', g_name g)]
       [case g_content g of
          GSequence els \<Rightarrow> xs_elem nss ''sequence'' [] (map (print_element nss pf) els)
        | GAll els \<Rightarrow> xs_elem nss ''all'' [] (map (print_element nss pf) els)
        | GChoice els \<Rightarrow> xs_elem nss ''choice'' [] (map (print_element nss pf) els)]"

definition print_schema_import :: "scope \<Rightarrow> schema_import \<Rightarrow> xnode" where
  "print_schema_import nss i =
     xs_elem nss ''import'' (opt_attr ''namespace'' (si_namespace i) @ opt_attr ''schemaLocation'' (si_schema_location i)) []"

definition print_include :: "scope \<Rightarrow> schema_include \<Rightarrow> xnode" where
  "print_include nss i = xs_elem nss ''include'' [(None, ''schemaLocation'', inc_schema_location i)] []"

definition print_schema :: "scope \<Rightarrow> (string \<Rightarrow> string) \<Rightarrow> raw_schema \<Rightarrow> xnode" where
  "print_schema nss pf s =
     xs_elem nss ''schema'' (opt_attr ''targetNamespace'' (rs_target_namespace s))
       (map (print_schema_import nss) (rs_imports s) @ map (print_include nss) (rs_includes s) @
        map (print_type nss pf) (hm_values (rs_types s)) @
        map (print_element nss pf) (hm_values (rs_elements s)) @
        map (print_attribute_group nss pf) (hm_values (rs_attribute_groups s)) @
        map (print_group_def nss pf) (hm_values (rs_groups s)))"

section \<open>What can be written\<close>

definition attribute_writable :: "scope \<Rightarrow> (string \<Rightarrow> string) \<Rightarrow> xsd_attribute \<Rightarrow> bool" where
  "attribute_writable nss pf a \<longleftrightarrow> list_all (qname_writable nss pf) (opt_list (at_type_ref a) @ opt_list (at_ref a))"

definition attribute_group_writable :: "scope \<Rightarrow> (string \<Rightarrow> string) \<Rightarrow> attribute_group \<Rightarrow> bool" where
  "attribute_group_writable nss pf g \<longleftrightarrow>
     list_all (attribute_writable nss pf) (ag_attributes g) \<and> list_all (qname_writable nss pf) (ag_groups g)"

definition simple_writable :: "scope \<Rightarrow> (string \<Rightarrow> string) \<Rightarrow> simple_type \<Rightarrow> bool" where
  "simple_writable nss pf st \<longleftrightarrow>
     list_all (\<lambda>r. restriction_ok r \<and> qname_writable nss pf (r_base r)) (opt_list (st_restriction st)) \<and>
     list_all (\<lambda>l. qname_writable nss pf (item_type l)) (opt_list (st_list st)) \<and>
     list_all (\<lambda>u. list_all (\<lambda>q. qname_writable nss pf q \<and> plain_word (qname_text pf q)) (member_types u))
       (opt_list (st_union st))"

text \<open>What the parser expects inside an extension or a restriction of complex content.\<close>

fun model_group :: "complex_content \<Rightarrow> bool" where
  "model_group (SimpleContent _) \<longleftrightarrow> False"
| "model_group (ComplexExtension _ _) \<longleftrightarrow> False"
| "model_group (ComplexRestriction _ _) \<longleftrightarrow> False"
| "model_group _ \<longleftrightarrow> True"

fun element_writable :: "scope \<Rightarrow> (string \<Rightarrow> string) \<Rightarrow> xsd_element \<Rightarrow> bool"
  and content_writable :: "scope \<Rightarrow> (string \<Rightarrow> string) \<Rightarrow> complex_content \<Rightarrow> bool"
  and complex_writable :: "scope \<Rightarrow> (string \<Rightarrow> string) \<Rightarrow> complex_type \<Rightarrow> bool"
  and type_writable :: "scope \<Rightarrow> (string \<Rightarrow> string) \<Rightarrow> xsd_type \<Rightarrow> bool" where
  "element_writable nss pf (XsdElement name tr it lo hi nl df fx ref) \<longleftrightarrow>
     lo < u64_bound \<and> max_ok hi \<and>
     (if name = Some any_marker then tr = None \<and> it = None \<and> \<not> nl \<and> df = None \<and> fx = None \<and> ref = None
      else list_all (qname_writable nss pf) (opt_list tr @ opt_list ref) \<and>
        (case it of Some t \<Rightarrow> type_writable nss pf t | None \<Rightarrow> True))"
| "content_writable nss pf (Sequence els) \<longleftrightarrow> list_all (element_writable nss pf) els"
| "content_writable nss pf (All els) \<longleftrightarrow> list_all (element_writable nss pf) els"
| "content_writable nss pf (Choice els) \<longleftrightarrow> list_all (element_writable nss pf) els"
| "content_writable nss pf EmptyContent \<longleftrightarrow> True"
| "content_writable nss pf (SimpleContent sc) \<longleftrightarrow>
     qname_writable nss pf (sc_base sc) \<and> list_all (attribute_writable nss pf) (sc_attributes sc)"
| "content_writable nss pf (ComplexExtension b c) \<longleftrightarrow>
     qname_writable nss pf b \<and> model_group c \<and> content_writable nss pf c"
| "content_writable nss pf (ComplexRestriction b c) \<longleftrightarrow>
     qname_writable nss pf b \<and> model_group c \<and> content_writable nss pf c"
| "complex_writable nss pf (ComplexType name c attrs) \<longleftrightarrow>
     content_writable nss pf c \<and> list_all (attribute_writable nss pf) attrs"
| "type_writable nss pf (Complex ct) \<longleftrightarrow> complex_writable nss pf ct"
| "type_writable nss pf (Simple st) \<longleftrightarrow> simple_writable nss pf st"

fun group_writable :: "scope \<Rightarrow> (string \<Rightarrow> string) \<Rightarrow> group_content \<Rightarrow> bool" where
  "group_writable nss pf (GSequence els) \<longleftrightarrow> list_all (element_writable nss pf) els"
| "group_writable nss pf (GAll els) \<longleftrightarrow> list_all (element_writable nss pf) els"
| "group_writable nss pf (GChoice els) \<longleftrightarrow> list_all (element_writable nss pf) els"

fun type_name :: "xsd_type \<Rightarrow> string option" where
  "type_name (Complex ct) = ct_name ct"
| "type_name (Simple st) = st_name st"

text \<open>
  A schema as the parser files it: each table has one entry per name, under the name of its
  value in the target namespace, and everything in it can be written.
\<close>

definition filed :: "string option \<Rightarrow> ('a \<Rightarrow> string option) \<Rightarrow> (qname, 'a) hashmap \<Rightarrow> bool" where
  "filed tns nm m \<longleftrightarrow> hm_wf m \<and> list_all (\<lambda>(k, v). map_option (\<lambda>n. qualify_name n tns) (nm v) = Some k) m"

definition schema_writable :: "scope \<Rightarrow> (string \<Rightarrow> string) \<Rightarrow> raw_schema \<Rightarrow> bool" where
  "schema_writable nss pf s \<longleftrightarrow>
     (let tns = rs_target_namespace s in
      filed tns type_name (rs_types s) \<and> list_all (type_writable nss pf) (hm_values (rs_types s)) \<and>
      filed tns el_name (rs_elements s) \<and> list_all (element_writable nss pf) (hm_values (rs_elements s)) \<and>
      list_all (\<lambda>e. el_name e \<noteq> Some any_marker) (hm_values (rs_elements s)) \<and>
      filed tns (\<lambda>g. Some (ag_name g)) (rs_attribute_groups s) \<and>
      list_all (attribute_group_writable nss pf) (hm_values (rs_attribute_groups s)) \<and>
      filed tns (\<lambda>g. Some (g_name g)) (rs_groups s) \<and>
      list_all (\<lambda>g. group_writable nss pf (g_content g)) (hm_values (rs_groups s)))"

section \<open>Reading attributes and simple types\<close>

lemma resolve_qname_written [simp]:
  assumes "qname_writable (node_namespaces n) pf q"
  shows "resolve_qname (qname_text pf q) n = q"
proof (cases q rule: qname_cases_new_local)
  case (new ns l)
  with assms show ?thesis
    by (simp add: qname_writable_def resolve_qname_def qname_text_def lookup_namespace_uri_def)
next
  case (local l)
  with assms show ?thesis
    by (simp add: qname_writable_def resolve_qname_def qname_text_def lookup_namespace_uri_def
        split_once_None_iff [THEN iffD2])
qed

definition xs_only :: "xnode list \<Rightarrow> bool" where
  "xs_only cs \<longleftrightarrow> list_all (\<lambda>c. is_element c \<and> node_ns c = Some XS_NS) cs"

lemma xs_children_written [simp]: "xs_only cs \<Longrightarrow> xs_children (xs_elem nss l as cs) = cs"
  by (simp add: xs_only_def xs_children_def element_children_def filter_id_conv list_all_iff)

lemma xs_only_simps [simp]:
  "xs_only []" "xs_only (c # cs) \<longleftrightarrow> is_element c \<and> node_ns c = Some XS_NS \<and> xs_only cs"
  "xs_only (as @ bs) \<longleftrightarrow> xs_only as \<and> xs_only bs"
  by (auto simp: xs_only_def)

lemma xs_only_map: "(\<And>x. x \<in> set xs \<Longrightarrow> is_element (pr x) \<and> node_ns (pr x) = Some XS_NS) \<Longrightarrow> xs_only (map pr xs)"
  by (simp add: xs_only_def list_all_iff)

lemma print_leaf_sel [simp]:
  "is_element (print_attribute nss pf a)" "node_ns (print_attribute nss pf a) = Some XS_NS"
  "node_name (print_attribute nss pf a) = ''attribute''"
  "is_element (print_group_ref nss pf q)" "node_ns (print_group_ref nss pf q) = Some XS_NS"
  "node_name (print_group_ref nss pf q) = ''attributeGroup''"
  "is_element (print_facet nss l v)" "node_ns (print_facet nss l v) = Some XS_NS"
  "node_name (print_facet nss l v) = l" "node_attribute (print_facet nss l v) ''value'' = Some v"
  "is_element (print_restriction nss pf r)" "node_ns (print_restriction nss pf r) = Some XS_NS"
  "node_name (print_restriction nss pf r) = ''restriction''"
  "is_element (print_simple_type nss pf st)" "node_ns (print_simple_type nss pf st) = Some XS_NS"
  "node_name (print_simple_type nss pf st) = ''simpleType''"
  by (simp_all add: print_attribute_def print_group_ref_def print_facet_def print_restriction_def print_simple_type_def)

lemma resolve_optional_written [simp]:
  "list_all (qname_writable (node_namespaces n) pf) (opt_list v) \<Longrightarrow>
   map_option (\<lambda>t. resolve_qname t n) (map_option (qname_text pf) v) = v"
  by (cases v) simp_all

lemma visit_attribute_written [simp]:
  "attribute_writable nss pf a \<Longrightarrow> visit_attribute (print_attribute nss pf a) = a"
  by (cases "at_use a")
    (simp_all add: visit_attribute_def print_attribute_def attribute_writable_def print_use_def del: option.map_comp)

lemma visit_attribute_group_written [simp]:
  assumes "attribute_group_writable nss pf g"
  shows "visit_attribute_group_def (print_attribute_group nss pf g) = Some g"
proof -
  let ?f = "\<lambda>c (as, gs).
      if node_name c = ''attribute'' then (as @ [visit_attribute c], gs)
      else if node_name c = ''attributeGroup'' then
        (case node_attribute c ''ref'' of Some r \<Rightarrow> (as, gs @ [resolve_qname r c]) | None \<Rightarrow> (as, gs))
      else (as, gs)"
  have "fold ?f (map (print_attribute nss pf) (ag_attributes g)) ([], []) = (ag_attributes g, [])"
    using fold_written [of "ag_attributes g" ?f "print_attribute nss pf" "\<lambda>as. (as, [])" "[]"] assms
    by (simp add: attribute_group_writable_def list_all_iff)
  moreover have "fold ?f (map (print_group_ref nss pf) (ag_groups g)) (ag_attributes g, []) = (ag_attributes g, ag_groups g)"
    using fold_written [of "ag_groups g" ?f "print_group_ref nss pf" "\<lambda>gs. (ag_attributes g, gs)" "[]"] assms
    by (simp add: attribute_group_writable_def list_all_iff print_group_ref_def)
  moreover have "xs_only (map (print_attribute nss pf) (ag_attributes g) @ map (print_group_ref nss pf) (ag_groups g))"
    by (simp add: xs_only_map)
  ultimately show ?thesis by (simp add: visit_attribute_group_def_def print_attribute_group_def)
qed

lemma enumeration_written:
  "fold visit_facet (map (print_facet nss ''enumeration'') vs) r = r\<lparr>enumeration := enumeration r @ vs\<rparr>"
  by (induction vs arbitrary: r) (simp_all add: visit_facet_def)

text \<open>A facet that has not been read yet takes the value that is written, or stays absent.\<close>

lemma text_facet_written:
  "min_inclusive r = None \<Longrightarrow> fold visit_facet (map (print_facet nss ''minInclusive'') (opt_list v)) r = r\<lparr>min_inclusive := v\<rparr>"
  "max_inclusive r = None \<Longrightarrow> fold visit_facet (map (print_facet nss ''maxInclusive'') (opt_list v)) r = r\<lparr>max_inclusive := v\<rparr>"
  "min_exclusive r = None \<Longrightarrow> fold visit_facet (map (print_facet nss ''minExclusive'') (opt_list v)) r = r\<lparr>min_exclusive := v\<rparr>"
  "max_exclusive r = None \<Longrightarrow> fold visit_facet (map (print_facet nss ''maxExclusive'') (opt_list v)) r = r\<lparr>max_exclusive := v\<rparr>"
  "pattern r = None \<Longrightarrow> fold visit_facet (map (print_facet nss ''pattern'') (opt_list v)) r = r\<lparr>pattern := v\<rparr>"
  by (cases v; cases r; simp add: visit_facet_def)+

lemma count_facet_written:
  assumes "count_ok v"
  shows
  "min_length r = None \<Longrightarrow> fold visit_facet (map (\<lambda>n. print_facet nss ''minLength'' (nat_to_string n)) (opt_list v)) r = r\<lparr>min_length := v\<rparr>"
  "max_length r = None \<Longrightarrow> fold visit_facet (map (\<lambda>n. print_facet nss ''maxLength'' (nat_to_string n)) (opt_list v)) r = r\<lparr>max_length := v\<rparr>"
  "r_length r = None \<Longrightarrow> fold visit_facet (map (\<lambda>n. print_facet nss ''length'' (nat_to_string n)) (opt_list v)) r = r\<lparr>r_length := v\<rparr>"
  "total_digits r = None \<Longrightarrow> fold visit_facet (map (\<lambda>n. print_facet nss ''totalDigits'' (nat_to_string n)) (opt_list v)) r = r\<lparr>total_digits := v\<rparr>"
  "fraction_digits r = None \<Longrightarrow> fold visit_facet (map (\<lambda>n. print_facet nss ''fractionDigits'' (nat_to_string n)) (opt_list v)) r = r\<lparr>fraction_digits := v\<rparr>"
  using assms by (cases v; cases r; simp add: visit_facet_def count_ok_def)+

lemma whitespace_facet_written:
  "whitespace r = None \<Longrightarrow>
   fold visit_facet (map (\<lambda>w. print_facet nss ''whiteSpace'' (print_whitespace w)) (opt_list v)) r = r\<lparr>whitespace := v\<rparr>"
proof (cases v)
  case (Some w)
  then show ?thesis by (cases w) (simp_all add: visit_facet_def print_whitespace_def)
qed (cases r; simp)

lemma visit_restriction_written [simp]:
  assumes "restriction_ok r" and "qname_writable nss pf (r_base r)"
  shows "visit_restriction (print_restriction nss pf r) = r"
proof -
  have "count_ok (min_length r)" "count_ok (max_length r)" "count_ok (r_length r)"
    "count_ok (total_digits r)" "count_ok (fraction_digits r)"
    using assms(1) by (simp_all add: restriction_ok_def)
  then have "fold visit_facet (node_children (print_restriction nss pf r)) (empty_restriction (r_base r)) = r"
    by (simp add: print_restriction_def enumeration_written text_facet_written count_facet_written
        whitespace_facet_written empty_restriction_def)
  moreover have "xs_only (node_children (print_restriction nss pf r))"
    by (simp add: print_restriction_def xs_only_map)
  ultimately show ?thesis
    using assms(2) by (simp add: visit_restriction_def print_restriction_def)
qed

lemma visit_simple_type_written [simp]:
  assumes "simple_writable nss pf st"
  shows "visit_simple_type (print_simple_type nss pf st) = st"
proof -
  have union: "map (\<lambda>t. resolve_qname t n) (split_whitespace (word_list (map (qname_text pf) qs))) = qs"
    if "list_all (\<lambda>q. qname_writable nss pf q \<and> plain_word (qname_text pf q)) qs" and "node_namespaces n = nss" for n qs
  proof -
    have "list_all plain_word (map (qname_text pf) qs)" using that(1) by (simp add: list_all_iff)
    with that show ?thesis by (simp add: list_all_iff map_idI)
  qed
  show ?thesis
    using assms
    by (cases "st_restriction st"; cases "st_list st"; cases "st_union st")
      (simp_all add: visit_simple_type_def print_simple_type_def simple_writable_def visit_list_def visit_union_def union
        del: split_whitespace_words)
qed

section \<open>Reading elements and complex types\<close>

lemma print_element_sel [simp]:
  "is_element (print_element nss pf e)" "node_ns (print_element nss pf e) = Some XS_NS"
  "node_name (print_element nss pf e) = (if el_name e = Some any_marker then ''any'' else ''element'')"
  by (cases e; simp)+

lemma print_complex_type_sel [simp]:
  "is_element (print_complex_type nss pf ct)" "node_ns (print_complex_type nss pf ct) = Some XS_NS"
  "node_name (print_complex_type nss pf ct) = ''complexType''"
  by (cases ct; simp)+

lemma print_type_sel [simp]:
  "is_element (print_type nss pf t)" "node_ns (print_type nss pf t) = Some XS_NS"
  by (cases t; simp)+

lemma print_member_sel [simp]:
  "is_element (print_member nss pf a)" "node_ns (print_member nss pf a) = Some XS_NS"
  by (simp_all add: print_member_def split: option.split)

lemma xs_only_content [simp]: "xs_only (print_content nss pf c)"
  by (cases c) simp_all

lemma xs_only_elements [simp]: "xs_only (map (print_element nss pf) els)"
  by (simp add: xs_only_map)

lemma occurs_written:
  assumes "lo < u64_bound" and "max_ok hi"
    and "\<And>a. a = ''minOccurs'' \<or> a = ''maxOccurs'' \<Longrightarrow>
      node_attribute n a = node_attribute (Elem None [] (occurs_attrs lo hi) [] []) a"
  shows "parse_min_occurs n = lo" and "parse_max_occurs n = hi"
  using assms(1,2)
  by (cases hi; simp add: parse_min_occurs_def parse_max_occurs_def parse_u64_attr_def assms(3) occurs_attrs_def
      print_max_def)+

text \<open>What a written element gives in a content model.\<close>

definition read_particle :: "xnode \<Rightarrow> xsd_element list" where
  "read_particle c =
     (if node_name c = ''element'' then [visit_element c]
      else if node_name c = ''any'' then [any_as_element (visit_any c)]
      else if node_name c = ''sequence'' then visit_particle_children c
      else if node_name c = ''choice'' then visit_particle_children c
      else if node_name c = ''all'' then visit_particle_children c
      else [])"

lemma visit_particle_children_eq:
  "visit_particle_children n = concat (map read_particle (xs_children n))"
  by (subst visit_particle_children.simps) (simp add: read_particle_def [abs_def])

lemma visit_particles_written:
  assumes "\<And>e. e \<in> set els \<Longrightarrow> read_particle (print_element nss pf e) = [e]"
  shows "visit_particle_children (xs_elem nss l as (map (print_element nss pf) els)) = els"
proof -
  have "concat (map read_particle (map (print_element nss pf) es)) = es" if "set es \<subseteq> set els" for es
    using that assms by (induction es) simp_all
  then show ?thesis by (simp add: visit_particle_children_eq)
qed

lemma read_member:
  assumes "list_all (attribute_writable nss pf) attrs"
    and "\<And>c as. node_name c = ''attribute'' \<Longrightarrow> f c (cc, as) = (cc, as @ [visit_attribute c])"
    and "\<And>c as r. node_name c = ''attributeGroup'' \<Longrightarrow> node_attribute c ''ref'' = Some r \<Longrightarrow>
      f c (cc, as) = (cc, as @ [group_ref_attribute (resolve_qname r c)])"
  shows "fold f (map (print_member nss pf) attrs) (cc, []) = (cc, attrs)"
proof -
  have "f (print_member nss pf a) (cc, as) = (cc, as @ [a])" if "a \<in> set attrs" for a as
  proof -
    have a: "attribute_writable nss pf a" using assms(1) that by (simp add: list_all_iff)
    show ?thesis
    proof (cases "\<exists>q. at_ref a = Some q \<and> a = group_ref_attribute q")
      case True
      then obtain q where q: "at_ref a = Some q" "a = group_ref_attribute q" by auto
      have "node_attribute (print_group_ref nss pf q) ''ref'' = Some (qname_text pf q)"
        by (simp add: print_group_ref_def)
      moreover have "resolve_qname (qname_text pf q) (print_group_ref nss pf q) = q"
        using a q(1) by (simp add: attribute_writable_def print_group_ref_def)
      ultimately have "f (print_group_ref nss pf q) (cc, as) = (cc, as @ [group_ref_attribute q])"
        using assms(3) [of "print_group_ref nss pf q"] by simp
      with q show ?thesis by (simp add: print_member_def)
    next
      case False
      then have "print_member nss pf a = print_attribute nss pf a"
        by (auto simp: print_member_def split: option.split)
      with a show ?thesis by (simp add: assms(2))
    qed
  qed
  with fold_written [of attrs f "print_member nss pf" "\<lambda>as. (cc, as)" "[]"] show ?thesis by simp
qed

lemma complex_type_step:
  assumes "list_all (attribute_writable nss pf) attrs" and "xs_only cs"
    and "fold (\<lambda>c (content, attributes).
        if node_name c = ''sequence'' then (Sequence (visit_particle_children c), attributes)
        else if node_name c = ''all'' then (All (visit_particle_children c), attributes)
        else if node_name c = ''choice'' then (Choice (visit_particle_children c), attributes)
        else if node_name c = ''complexContent'' then (visit_complex_content c, attributes)
        else if node_name c = ''simpleContent'' then (visit_simple_content c, attributes)
        else if node_name c = ''attribute'' then (content, attributes @ [visit_attribute c])
        else if node_name c = ''attributeGroup'' then
          (case node_attribute c ''ref'' of
             Some r \<Rightarrow> (content, attributes @ [group_ref_attribute (resolve_qname r c)])
           | None \<Rightarrow> (content, attributes))
        else (content, attributes)) cs (EmptyContent, []) = (cc, [])"
  shows "visit_complex_type (xs_elem nss ''complexType'' (opt_attr ''name'' name) (cs @ map (print_member nss pf) attrs)) =
    ComplexType name cc attrs"
proof -
  have "xs_only (map (print_member nss pf) attrs)" by (simp add: xs_only_map)
  with assms(2) show ?thesis
    by (simp add: visit_complex_type.simps assms(3) read_member [OF assms(1)])
qed

lemmas complex_type_steps =
  complex_type_step [where cs = "[]", unfolded append_Nil]
  complex_type_step [where cs = "[c]" for c, unfolded append_Cons append_Nil]

definition content_reads :: "scope \<Rightarrow> (string \<Rightarrow> string) \<Rightarrow> complex_content \<Rightarrow> bool" where
  "content_reads nss pf c \<longleftrightarrow>
     (\<forall>name attrs. list_all (attribute_writable nss pf) attrs \<longrightarrow>
        visit_complex_type (xs_elem nss ''complexType'' (opt_attr ''name'' name)
          (print_content nss pf c @ map (print_member nss pf) attrs)) = ComplexType name c attrs) \<and>
     (model_group c \<longrightarrow>
        (\<forall>as. snd (visit_extension (xs_elem nss ''extension'' as (print_content nss pf c))) = c \<and>
           visit_complex_restriction_content (xs_elem nss ''restriction'' as (print_content nss pf c)) = c))"

lemma group_content_reads:
  assumes "\<And>e. e \<in> set els \<Longrightarrow> read_particle (print_element nss pf e) = [e]"
    and "c \<in> {Sequence els, All els, Choice els}"
  shows "content_reads nss pf c"
proof -
  have read: "visit_particle_children (xs_elem nss l [] (map (print_element nss pf) els)) = els" for l
    using assms(1) by (rule visit_particles_written)
  show ?thesis
    using assms(2)
    by (auto simp: content_reads_def complex_type_steps visit_extension.simps visit_complex_restriction_content.simps read)
qed

lemma simple_content_reads:
  assumes "content_writable nss pf (SimpleContent sc)"
  shows "content_reads nss pf (SimpleContent sc)"
proof -
  have attrs: "filter (\<lambda>a. is_xs a ''attribute'') (map (print_attribute nss pf) as) = map (print_attribute nss pf) as" for as
    by (rule filter_written) (simp add: is_xs_def)
  have "map (\<lambda>a. visit_attribute (print_attribute nss pf a)) (sc_attributes sc) = sc_attributes sc"
    using assms by (intro map_idI) (simp add: list_all_iff)
  then have "visit_simple_content (hd (print_content nss pf (SimpleContent sc))) = SimpleContent sc"
    using assms by (simp add: visit_simple_content_def element_children_def attrs comp_def)
  then show ?thesis by (simp add: content_reads_def complex_type_steps)
qed

lemma derived_content_reads:
  assumes "qname_writable nss pf b" and "content_reads nss pf c" and "model_group c"
  shows "content_reads nss pf (ComplexExtension b c)" and "content_reads nss pf (ComplexRestriction b c)"
proof -
  have "visit_extension (xs_elem nss ''extension'' [(None, ''base'', qname_text pf b)] (print_content nss pf c)) = (b, c)"
    using assms by (intro prod_eqI) (simp_all add: content_reads_def visit_extension.simps)
  then have "visit_complex_content (hd (print_content nss pf (ComplexExtension b c))) = ComplexExtension b c"
    by (simp add: visit_complex_content.simps)
  then show "content_reads nss pf (ComplexExtension b c)" by (simp add: content_reads_def complex_type_steps)
  have "visit_complex_content (hd (print_content nss pf (ComplexRestriction b c))) = ComplexRestriction b c"
    using assms by (simp add: visit_complex_content.simps content_reads_def)
  then show "content_reads nss pf (ComplexRestriction b c)" by (simp add: content_reads_def complex_type_steps)
qed

fun read_type :: "xnode \<Rightarrow> xsd_type \<Rightarrow> xsd_type" where
  "read_type n (Complex _) = Complex (visit_complex_type n)"
| "read_type n (Simple _) = Simple (visit_simple_type n)"

lemma element_read:
  assumes "element_writable nss pf (XsdElement name tr it lo hi nl df fx ref)" and "name \<noteq> Some any_marker"
    and "\<And>t. it = Some t \<Longrightarrow> read_type (print_type nss pf t) t = t"
  shows "visit_element (print_element nss pf (XsdElement name tr it lo hi nl df fx ref)) = XsdElement name tr it lo hi nl df fx ref"
proof -
  let ?n = "print_element nss pf (XsdElement name tr it lo hi nl df fx ref)"
  have occ: "parse_min_occurs ?n = lo" "parse_max_occurs ?n = hi"
    using assms(1,2) by (auto intro!: occurs_written simp: occurs_attrs_def)
  have "find_map (\<lambda>c.
          if node_name c = ''complexType'' then Some (Complex (visit_complex_type c))
          else if node_name c = ''simpleType'' then Some (Simple (visit_simple_type c))
          else None) (xs_children ?n) = it"
  proof (cases it)
    case (Some t)
    with assms(2,3) show ?thesis by (cases t) auto
  qed (use assms(2) in simp)
  then show ?thesis
    using assms(1,2) occ
    by (simp add: visit_element.simps print_bool_def occurs_attrs_def del: option.map_comp)
qed

theorem written_components_read:
  "element_writable nss pf e \<Longrightarrow> read_particle (print_element nss pf e) = [e]"
  "content_writable nss pf c \<Longrightarrow> content_reads nss pf c"
  "complex_writable nss pf ct \<Longrightarrow> visit_complex_type (print_complex_type nss pf ct) = ct"
  "type_writable nss pf t \<Longrightarrow> read_type (print_type nss pf t) t = t"
proof (induction nss pf e and nss pf c and nss pf ct and nss pf t
    rule: print_element_print_content_print_complex_type_print_type.induct)
  case (1 nss pf name tr it lo hi nl df fx ref)
  show ?case
  proof (cases "name = Some any_marker")
    case True
    with 1 show ?thesis
      by (auto simp: read_particle_def any_as_element_def visit_any_def occurs_attrs_def intro!: occurs_written)
  next
    case False
    with 1 have "read_type (print_type nss pf t) t = t" if "it = Some t" for t
      using that by auto
    from element_read [OF "1.prems" False this] False show ?thesis
      by (simp add: read_particle_def)
  qed
next
  case (2 nss pf els)
  then show ?case by (intro group_content_reads) (auto simp: list_all_iff)
next
  case (3 nss pf els)
  then show ?case by (intro group_content_reads) (auto simp: list_all_iff)
next
  case (4 nss pf els)
  then show ?case by (intro group_content_reads) (auto simp: list_all_iff)
next
  case (5 nss pf)
  then show ?case
    by (simp add: content_reads_def complex_type_steps visit_extension.simps visit_complex_restriction_content.simps)
next
  case (6 nss pf sc)
  then show ?case by (rule simple_content_reads)
next
  case (7 nss pf b c)
  then show ?case by (simp add: derived_content_reads)
next
  case (8 nss pf b c)
  then show ?case by (simp add: derived_content_reads)
next
  case (9 nss pf name c attrs)
  then show ?case by (simp add: content_reads_def)
qed simp_all

section \<open>Reading a schema\<close>

text \<open>A table of a schema, filled from the written values of a table that is filed by name.\<close>

locale schema_table = table_field table set_table
  for table :: "'d \<Rightarrow> (qname, 'v) hashmap"
    and set_table :: "(qname, 'v) hashmap \<Rightarrow> 'd \<Rightarrow> 'd"
begin

lemma filed_folded:
  assumes "filed tns nm kvs" and "list_all ok (hm_values kvs)" and "table d = []"
    and step: "\<And>v n d. ok v \<Longrightarrow> nm v = Some n \<Longrightarrow> f (pr v) d = set_table (hm_insert (qualify_name n tns) v (table d)) d"
  shows "fold f (map pr (hm_values kvs)) d = set_table kvs d"
proof -
  have "f (pr v) d' = set_table (hm_insert k v (table d')) d'" if "(k, v) \<in> set kvs" for k v d'
    using step [of v _ d'] assms(1,2) that by (fastforce simp: filed_def list_all_iff)
  then have "fold f (map pr (hm_values kvs)) d = set_table (table d @ kvs) d"
    by (rule entries_folded) (use assms(1,3) in \<open>simp_all add: filed_def\<close>)
  with assms(3) show ?thesis by simp
qed

end

interpretation rs_types: schema_table rs_types "\<lambda>m s. s\<lparr>rs_types := m\<rparr>" by unfold_locales simp_all
interpretation rs_elements: schema_table rs_elements "\<lambda>m s. s\<lparr>rs_elements := m\<rparr>" by unfold_locales simp_all
interpretation rs_attribute_groups: schema_table rs_attribute_groups "\<lambda>m s. s\<lparr>rs_attribute_groups := m\<rparr>"
  by unfold_locales simp_all
interpretation rs_groups: schema_table rs_groups "\<lambda>m s. s\<lparr>rs_groups := m\<rparr>" by unfold_locales simp_all

lemma written_name [simp]:
  "node_attribute (print_complex_type nss pf ct) ''name'' = ct_name ct"
  "node_attribute (print_simple_type nss pf st) ''name'' = st_name st"
  "el_name e \<noteq> Some any_marker \<Longrightarrow> node_attribute (print_element nss pf e) ''name'' = el_name e"
  by (cases ct; simp) (simp add: print_simple_type_def, cases e, simp add: occurs_attrs_def)

lemma visit_group_written [simp]:
  assumes "group_writable nss pf (g_content g)"
  shows "visit_group_def (print_group_def nss pf g) = Some g"
proof -
  have read: "visit_particle_children (xs_elem nss l [] (map (print_element nss pf) els)) = els"
    if "list_all (element_writable nss pf) els" for l els
    using that by (intro visit_particles_written written_components_read) (simp add: list_all_iff)
  show ?thesis
    using assms
    by (cases "g_content g")
      (simp_all add: visit_group_def_def print_group_def_def visit_sequence_def visit_all_def visit_choice_def read)
qed

lemma parse_schema_child_written:
  "type_writable nss pf t \<Longrightarrow> type_name t = Some n \<Longrightarrow>
   parse_schema_child tns (print_type nss pf t) s = s\<lparr>rs_types := hm_insert (qualify_name n tns) t (rs_types s)\<rparr>"
  "element_writable nss pf e \<Longrightarrow> el_name e = Some n \<Longrightarrow> n \<noteq> any_marker \<Longrightarrow>
   parse_schema_child tns (print_element nss pf e) s = s\<lparr>rs_elements := hm_insert (qualify_name n tns) e (rs_elements s)\<rparr>"
  "attribute_group_writable nss pf ag \<Longrightarrow>
   parse_schema_child tns (print_attribute_group nss pf ag) s =
     s\<lparr>rs_attribute_groups := hm_insert (qualify_name (ag_name ag) tns) ag (rs_attribute_groups s)\<rparr>"
  "group_writable nss pf (g_content g) \<Longrightarrow>
   parse_schema_child tns (print_group_def nss pf g) s = s\<lparr>rs_groups := hm_insert (qualify_name (g_name g) tns) g (rs_groups s)\<rparr>"
proof -
  assume t: "type_writable nss pf t" and n: "type_name t = Some n"
  from written_components_read(4) [OF t] n
  show "parse_schema_child tns (print_type nss pf t) s = s\<lparr>rs_types := hm_insert (qualify_name n tns) t (rs_types s)\<rparr>"
    by (cases t) (simp_all add: parse_schema_child_def)
next
  assume "element_writable nss pf e" and "el_name e = Some n" "n \<noteq> any_marker"
  with written_components_read(1) [of nss pf e]
  show "parse_schema_child tns (print_element nss pf e) s = s\<lparr>rs_elements := hm_insert (qualify_name n tns) e (rs_elements s)\<rparr>"
    by (simp add: parse_schema_child_def read_particle_def)
next
  have "node_name (print_attribute_group nss pf ag) = ''attributeGroup''" by (simp add: print_attribute_group_def)
  then show "attribute_group_writable nss pf ag \<Longrightarrow>
     parse_schema_child tns (print_attribute_group nss pf ag) s =
       s\<lparr>rs_attribute_groups := hm_insert (qualify_name (ag_name ag) tns) ag (rs_attribute_groups s)\<rparr>"
    by (simp add: parse_schema_child_def)
next
  have "node_name (print_group_def nss pf g) = ''group''" by (simp add: print_group_def_def)
  then show "group_writable nss pf (g_content g) \<Longrightarrow>
     parse_schema_child tns (print_group_def nss pf g) s = s\<lparr>rs_groups := hm_insert (qualify_name (g_name g) tns) g (rs_groups s)\<rparr>"
    by (simp add: parse_schema_child_def)
qed

lemma schema_tables_read:
  assumes "schema_writable nss pf s" and "rs_target_namespace s = tns"
  shows "rs_types s0 = [] \<Longrightarrow>
      fold (parse_schema_child tns) (map (print_type nss pf) (hm_values (rs_types s))) s0 = s0\<lparr>rs_types := rs_types s\<rparr>"
    and "rs_elements s0 = [] \<Longrightarrow>
      fold (parse_schema_child tns) (map (print_element nss pf) (hm_values (rs_elements s))) s0 = s0\<lparr>rs_elements := rs_elements s\<rparr>"
    and "rs_attribute_groups s0 = [] \<Longrightarrow>
      fold (parse_schema_child tns) (map (print_attribute_group nss pf) (hm_values (rs_attribute_groups s))) s0 =
      s0\<lparr>rs_attribute_groups := rs_attribute_groups s\<rparr>"
    and "rs_groups s0 = [] \<Longrightarrow>
      fold (parse_schema_child tns) (map (print_group_def nss pf) (hm_values (rs_groups s))) s0 = s0\<lparr>rs_groups := rs_groups s\<rparr>"
proof -
  have filed: "filed tns type_name (rs_types s)" "filed tns el_name (rs_elements s)"
    "filed tns (\<lambda>g. Some (ag_name g)) (rs_attribute_groups s)" "filed tns (\<lambda>g. Some (g_name g)) (rs_groups s)"
    and ok: "list_all (type_writable nss pf) (hm_values (rs_types s))"
    "list_all (\<lambda>e. element_writable nss pf e \<and> el_name e \<noteq> Some any_marker) (hm_values (rs_elements s))"
    "list_all (attribute_group_writable nss pf) (hm_values (rs_attribute_groups s))"
    "list_all (\<lambda>g. group_writable nss pf (g_content g)) (hm_values (rs_groups s))"
    using assms by (simp_all add: schema_writable_def Let_def list_all_iff)
  show "rs_types s0 = [] \<Longrightarrow>
      fold (parse_schema_child tns) (map (print_type nss pf) (hm_values (rs_types s))) s0 = s0\<lparr>rs_types := rs_types s\<rparr>"
    by (rule rs_types.filed_folded [OF filed(1) ok(1)]) (simp_all add: parse_schema_child_written)
  show "rs_elements s0 = [] \<Longrightarrow>
      fold (parse_schema_child tns) (map (print_element nss pf) (hm_values (rs_elements s))) s0 = s0\<lparr>rs_elements := rs_elements s\<rparr>"
    by (rule rs_elements.filed_folded [OF filed(2) ok(2)]) (auto simp: parse_schema_child_written)
  show "rs_attribute_groups s0 = [] \<Longrightarrow>
      fold (parse_schema_child tns) (map (print_attribute_group nss pf) (hm_values (rs_attribute_groups s))) s0 =
      s0\<lparr>rs_attribute_groups := rs_attribute_groups s\<rparr>"
    by (rule rs_attribute_groups.filed_folded [OF filed(3) ok(3)]) (auto simp: parse_schema_child_written)
  show "rs_groups s0 = [] \<Longrightarrow>
      fold (parse_schema_child tns) (map (print_group_def nss pf) (hm_values (rs_groups s))) s0 = s0\<lparr>rs_groups := rs_groups s\<rparr>"
    by (rule rs_groups.filed_folded [OF filed(4) ok(4)]) (auto simp: parse_schema_child_written)
qed

lemma schema_references_read:
  "fold (parse_schema_child tns) (map (print_schema_import nss) is) s = s\<lparr>rs_imports := rs_imports s @ is\<rparr>"
  "fold (parse_schema_child tns) (map (print_include nss) incs) s = s\<lparr>rs_includes := rs_includes s @ incs\<rparr>"
proof -
  show "fold (parse_schema_child tns) (map (print_schema_import nss) is) s = s\<lparr>rs_imports := rs_imports s @ is\<rparr>"
    by (induction "is" arbitrary: s) (simp_all add: parse_schema_child_def print_schema_import_def)
  show "fold (parse_schema_child tns) (map (print_include nss) incs) s = s\<lparr>rs_includes := rs_includes s @ incs\<rparr>"
    by (induction incs arbitrary: s) (simp_all add: parse_schema_child_def print_include_def)
qed

lemma xs_only_schema: "xs_only (node_children (print_schema nss pf s))"
  by (simp add: print_schema_def xs_only_map print_schema_import_def print_include_def
      print_attribute_group_def print_group_def_def del: map_map)

section \<open>Properties\<close>

text \<open>
  C26. The schema parser reads every construct it supports: a schema written out as an XML
  Schema document is parsed back to itself, with its imports and includes, its named simple and
  complex types with every facet, list and union, its elements with occurrence, nillability,
  defaults and anonymous types at any depth, its wildcards, derivations, attribute groups and
  groups, and with every qualified name resolved in the scope of the document.
\<close>

theorem parse_written_schema:
  assumes "schema_writable nss pf s"
  shows "parse_schema (print_schema nss pf s) = Inr s"
proof -
  let ?tns = "rs_target_namespace s"
  have "fold (parse_schema_child ?tns) (node_children (print_schema nss pf s)) (empty_raw_schema ?tns) = s"
    unfolding print_schema_def xs_elem_sel fold_append comp_def schema_references_read
    by (simp add: schema_tables_read [OF assms refl] empty_raw_schema_def del: map_map)
  moreover have "node_attribute (print_schema nss pf s) ''targetNamespace'' = ?tns"
    by (simp add: print_schema_def)
  moreover have "xs_children (print_schema nss pf s) = node_children (print_schema nss pf s)"
    using xs_only_schema [of nss pf s] by (simp add: print_schema_def)
  ultimately show ?thesis by (simp add: parse_schema_def)
qed

definition sample_scope :: scope where
  "sample_scope = [(Some ''t'', ''urn:t''), (Some ''x'', XS_NS)]"

definition sample_prefix :: "string \<Rightarrow> string" where
  "sample_prefix ns = (if ns = XS_NS then ''x'' else ''t'')"

definition sample_code :: simple_type where
  "sample_code = \<lparr>st_name = Some ''Code'',
     st_restriction = Some ((empty_restriction (qname_new XS_NS ''string''))
       \<lparr>enumeration := [''a'', ''b''], max_length := Some 12, pattern := Some ''[a-z]'', whitespace := Some Collapse\<rparr>),
     st_list = None, st_union = Some \<lparr>member_types = [qname_new ''urn:t'' ''A'', qname_local ''B'']\<rparr>\<rparr>"

definition sample_schema :: raw_schema where
  "sample_schema =
     \<lparr>rs_target_namespace = Some ''urn:t'',
      rs_types = [(qname_new ''urn:t'' ''Code'', Simple sample_code),
        (qname_new ''urn:t'' ''Order'', Complex (ComplexType (Some ''Order'')
          (ComplexExtension (qname_new ''urn:t'' ''Base'')
            (Sequence [XsdElement (Some ''item'') None
                (Some (Complex (ComplexType None (Choice [XsdElement None None None 1 (Bounded 1) False None None
                  (Some (qname_new ''urn:t'' ''Line''))]) []))) 0 Unbounded True None None None,
              XsdElement (Some any_marker) None None 0 (Bounded 3) False None None None]))
          [group_ref_attribute (qname_new ''urn:t'' ''Common'')]))],
      rs_elements = [(qname_new ''urn:t'' ''Line'', XsdElement (Some ''Line'') (Some (qname_new XS_NS ''string'')) None 1
        (Bounded 1) False (Some ''d'') None None)],
      rs_attribute_groups = [(qname_new ''urn:t'' ''Common'', \<lparr>ag_name = ''Common'',
        ag_attributes = [\<lparr>at_name = Some ''id'', at_type_ref = Some (qname_new XS_NS ''ID''), at_use = Required,
          at_default = None, at_fixed = None, at_ref = None\<rparr>], ag_groups = [qname_new ''urn:t'' ''Other'']\<rparr>)],
      rs_groups = [(qname_new ''urn:t'' ''G'', \<lparr>g_name = ''G'', g_content = GAll []\<rparr>)],
      rs_imports = [\<lparr>si_namespace = Some ''urn:o'', si_schema_location = None\<rparr>],
      rs_includes = [\<lparr>inc_schema_location = ''more.xsd''\<rparr>]\<rparr>"

lemma parse_written_schema_witness:
  "parse_schema (print_schema sample_scope sample_prefix sample_schema) = Inr sample_schema"
proof (rule parse_written_schema)
  have names: "qname_writable sample_scope sample_prefix (qname_new ''urn:t'' l)"
    "qname_writable sample_scope sample_prefix (qname_new XS_NS l)"
    "qname_writable sample_scope sample_prefix (qname_local ''B'')" for l
    by (simp_all add: qname_writable_def sample_scope_def sample_prefix_def XS_NS_def)
  have words: "plain_word (qname_text sample_prefix (qname_new ''urn:t'' ''A''))"
    "plain_word (qname_text sample_prefix (qname_local ''B''))"
    by (simp_all add: plain_word_def ws_lead_def byte_def qname_text_def sample_prefix_def XS_NS_def)
  have "simple_writable sample_scope sample_prefix sample_code"
    by (simp add: simple_writable_def sample_code_def names words restriction_ok_def empty_restriction_def count_ok_def
        u64_bound_def)
  then show "schema_writable sample_scope sample_prefix sample_schema"
    by (simp add: schema_writable_def sample_schema_def filed_def qualify_name_def names sample_code_def
        attribute_group_writable_def attribute_writable_def group_ref_attribute_def any_marker_def u64_bound_def)
qed

end
