(* ===== verification/Normalize.thy ===== *)
theory Normalize
  imports XmlDoc "HOL-Library.Multiset" "HOL-Library.Char_ord" "HOL-Library.List_Lexorder"
begin

text \<open>
  The XML normalisation of the cross-implementation harness (\<open>crossref/src/normalize.rs\<close>,
  \<open>crossref/src/mask_rules.rs\<close>): masking of text and attributes below given paths, dropping of
  subtrees, and the rewriting of namespace prefixes. The readers are lists of items as in
  \<open>XmlModel\<close>; a reader with namespaces also answers how an attribute name resolves at each
  item. The masking passes hand events to the writer of quick-xml, a parameter; the
  rewriting of prefixes writes its bytes itself.
\<close>

section \<open>Names, paths and attributes\<close>

text \<open>\<open>str::split\<close> on a character: the pieces between its occurrences, empty ones included.\<close>

fun split_char :: "char \<Rightarrow> string \<Rightarrow> string list" where
  "split_char c [] = [[]]"
| "split_char c (x # xs) =
     (if x = c then [] # split_char c xs
      else (case split_char c xs of [] \<Rightarrow> [[x]] | p # ps \<Rightarrow> (x # p) # ps))"

text \<open>What follows the last occurrence of a byte, or everything.\<close>

definition after_last :: "char \<Rightarrow> bytes \<Rightarrow> bytes" where
  "after_last c s = rev (takeWhile (\<lambda>x. x \<noteq> c) (rev s))"

definition MASK_SENTINEL :: string where
  "MASK_SENTINEL = ''__MASKED__''"

record mask_rule =
  mr_segments :: "string list"

definition mask_rule_new :: "string \<Rightarrow> mask_rule" where
  "mask_rule_new path = \<lparr>mr_segments = split_char CHR ''/'' path\<rparr>"

definition mask_matches :: "mask_rule \<Rightarrow> string list \<Rightarrow> bool" where
  "mask_matches r stack \<longleftrightarrow>
     length stack = length (mr_segments r) \<and> list_all (\<lambda>(a, b). a = b) (zip stack (mr_segments r))"

lemma mask_matches_iff [simp]: "mask_matches r stack \<longleftrightarrow> stack = mr_segments r"
  by (auto simp: mask_matches_def list_all_iff list_eq_iff_zip_eq)

definition masked_at :: "mask_rule list \<Rightarrow> string list \<Rightarrow> bool" where
  "masked_at rules stack \<longleftrightarrow> list_ex (\<lambda>r. mask_matches r stack) rules"

definition default_masks :: "mask_rule list" where
  "default_masks = []"

definition local_name :: "tag \<Rightarrow> string" where
  "local_name e = from_utf8_lossy (after_last CHR '':'' (tag_name e))"

record attr_mask_rule =
  am_segments :: "string list"
  am_attr :: string

definition attr_mask_rule_new :: "string \<Rightarrow> string \<Rightarrow> attr_mask_rule" where
  "attr_mask_rule_new path attr = \<lparr>am_segments = split_char CHR ''/'' path, am_attr = attr\<rparr>"

definition attr_matches_path :: "attr_mask_rule \<Rightarrow> string list \<Rightarrow> bool" where
  "attr_matches_path r stack \<longleftrightarrow>
     length stack = length (am_segments r) \<and> list_all (\<lambda>(a, b). a = b) (zip stack (am_segments r))"

definition should_drop_attr :: "attr_mask_rule \<Rightarrow> string list \<Rightarrow> string \<Rightarrow> bool" where
  "should_drop_attr r stack name \<longleftrightarrow> attr_matches_path r stack \<and> am_attr r = name"

text \<open>Sorting by the bytes of the key; a stable sort, as \<open>sort_by\<close> is.\<close>

definition sort_attrs :: "(bytes \<times> bytes) list \<Rightarrow> (bytes \<times> bytes) list" where
  "sort_attrs kvs = sort_key fst kvs"

definition start_event :: "bool \<Rightarrow> tag \<Rightarrow> event" where
  "start_event is_empty t = (if is_empty then EvEmpty t else EvStart t)"

text \<open>
  The tag that is written has its name decoded lossily and its attributes verbatim and
  sorted; \<open>aerr\<close> is the text of quick-xml's error for a malformed attribute.
\<close>

definition write_sorted_start :: "string \<Rightarrow> tag \<Rightarrow> bool \<Rightarrow> string + event" where
  "write_sorted_start aerr e is_empty =
     res_bind (attrs_strict aerr (tag_attrs e)) (\<lambda>kvs.
       Inr (start_event is_empty (tag_of (from_utf8_lossy (tag_name e)) (sort_attrs kvs))))"

definition attr_dropped :: "attr_mask_rule list \<Rightarrow> string list \<Rightarrow> bytes \<Rightarrow> bool" where
  "attr_dropped rules stack k \<longleftrightarrow> list_ex (\<lambda>r. should_drop_attr r stack (from_utf8_lossy k)) rules"

definition write_masked_start ::
  "string \<Rightarrow> tag \<Rightarrow> string list \<Rightarrow> attr_mask_rule list \<Rightarrow> bool \<Rightarrow> string + event" where
  "write_masked_start aerr e stack attr_masks is_empty =
     res_bind (attrs_strict aerr (tag_attrs e)) (\<lambda>kvs.
       Inr (start_event is_empty (tag_of (from_utf8_lossy (tag_name e))
         (sort_attrs (filter (\<lambda>(k, _). \<not> attr_dropped attr_masks stack k) kvs)))))"

section \<open>Passes over the events\<close>

text \<open>
  The loop of the three passes: read an event, write what the step gives, stop at the end of
  the input or at the first error. The stack of open elements is a vector: \<open>push\<close> appends
  and \<open>pop\<close> drops the last element.
\<close>

fun event_pass ::
  "(event \<Rightarrow> 's \<Rightarrow> string + event list \<times> 's) \<Rightarrow> reader \<Rightarrow> 's \<Rightarrow> string + event list \<times> 's" where
  "event_pass step [] s = Inr ([], s)"
| "event_pass step (Inl e # r) s = Inl e"
| "event_pass step (Inr (_, ev) # r) s =
     (if ev = EvEof then Inr ([], s)
      else res_bind (step ev s) (\<lambda>(out, s').
           res_bind (event_pass step r s') (\<lambda>(out', s''). Inr (out @ out', s''))))"

fun normalize_step :: "string \<Rightarrow> mask_rule list \<Rightarrow> event \<Rightarrow> string list \<Rightarrow> string + event list \<times> string list" where
  "normalize_step aerr masks (EvStart e) stack =
     res_bind (write_sorted_start aerr e False) (\<lambda>ev. Inr ([ev], stack @ [local_name e]))"
| "normalize_step aerr masks (EvEmpty e) stack =
     res_bind (write_sorted_start aerr e True) (\<lambda>ev. Inr ([ev], butlast (stack @ [local_name e])))"
| "normalize_step aerr masks (EvEnd n) stack = Inr ([EvEnd n], butlast stack)"
| "normalize_step aerr masks (EvText t) stack =
     Inr ([EvText (if masked_at masks stack then MASK_SENTINEL else t)], stack)"
| "normalize_step aerr masks (EvCData t) stack =
     Inr ([if masked_at masks stack then EvText MASK_SENTINEL else EvCData t], stack)"
| "normalize_step aerr masks ev stack = Inr ([ev], stack)"

definition normalize_xml ::
  "tokenizer \<Rightarrow> (event list \<Rightarrow> bytes) \<Rightarrow> string \<Rightarrow> bytes \<Rightarrow> mask_rule list \<Rightarrow> string + string" where
  "normalize_xml tok wr aerr xml masks =
     res_bind (event_pass (normalize_step aerr masks) (tok False xml) []) (\<lambda>(out, _).
       (case from_utf8 (wr out) of Some s \<Rightarrow> Inr s | None \<Rightarrow> Inl (utf8_error (wr out))))"

text \<open>Dropping of subtrees: the state is the stack and the depth of the dropped element, if any.\<close>

fun drop_step ::
  "mask_rule list \<Rightarrow> event \<Rightarrow> string list \<times> nat option \<Rightarrow> string + event list \<times> (string list \<times> nat option)" where
  "drop_step rules (EvStart e) (stack, dd) =
     (let stack' = stack @ [local_name e] in
      Inr (if dd \<noteq> None then ([], (stack', dd))
           else if masked_at rules stack' then ([], (stack', Some (length stack')))
           else ([EvStart e], (stack', None))))"
| "drop_step rules (EvEmpty e) (stack, dd) =
     (let stack' = stack @ [local_name e] in
      Inr (if dd = None \<and> \<not> masked_at rules stack' then [EvEmpty e] else [], (butlast stack', dd)))"
| "drop_step rules (EvEnd n) (stack, dd) =
     Inr (case dd of
            Some d \<Rightarrow> ([], (butlast stack, if length stack = d then None else Some d))
          | None \<Rightarrow> ([EvEnd n], (butlast stack, None)))"
| "drop_step rules ev (stack, dd) = Inr (if dd = None then [ev] else [], (stack, dd))"

definition drop_subtrees ::
  "tokenizer \<Rightarrow> (event list \<Rightarrow> bytes) \<Rightarrow> bytes \<Rightarrow> mask_rule list \<Rightarrow> string + bytes" where
  "drop_subtrees tok wr xml drop_paths =
     res_bind (event_pass (drop_step drop_paths) (tok False xml) ([], None)) (\<lambda>(out, _). Inr (wr out))"

text \<open>Masking: the state is the stack and whether the sentinel has been written.\<close>

fun mask_step ::
  "string \<Rightarrow> mask_rule list \<Rightarrow> attr_mask_rule list \<Rightarrow> event \<Rightarrow> string list \<times> bool \<Rightarrow>
   string + event list \<times> (string list \<times> bool)" where
  "mask_step aerr tm am (EvStart e) (stack, written) =
     (let stack' = stack @ [local_name e] in
      res_bind (write_masked_start aerr e stack' am False) (\<lambda>ev. Inr ([ev], (stack', False))))"
| "mask_step aerr tm am (EvEmpty e) (stack, written) =
     (let stack' = stack @ [local_name e] in
      res_bind (write_masked_start aerr e stack' am True) (\<lambda>ev. Inr ([ev], (butlast stack', False))))"
| "mask_step aerr tm am (EvEnd n) (stack, written) = Inr ([EvEnd n], (butlast stack, False))"
| "mask_step aerr tm am (EvText t) (stack, written) =
     Inr (if masked_at tm stack then (if written then [] else [EvText MASK_SENTINEL], (stack, True))
          else ([EvText t], (stack, written)))"
| "mask_step aerr tm am (EvCData t) (stack, written) =
     Inr (if masked_at tm stack then (if written then [] else [EvText MASK_SENTINEL], (stack, True))
          else ([EvCData t], (stack, written)))"
| "mask_step aerr tm am (EvGeneralRef n) (stack, written) =
     Inr (if masked_at tm stack then [] else [EvGeneralRef n], (stack, written))"
| "mask_step aerr tm am ev (stack, written) = Inr ([ev], (stack, written))"

definition apply_masks ::
  "tokenizer \<Rightarrow> (event list \<Rightarrow> bytes) \<Rightarrow> string \<Rightarrow> bytes \<Rightarrow> mask_rule list \<Rightarrow> attr_mask_rule list \<Rightarrow> string + bytes" where
  "apply_masks tok wr aerr xml tm am =
     res_bind (event_pass (mask_step aerr tm am) (tok False xml) ([], False)) (\<lambda>(out, _). Inr (wr out))"

section \<open>Canonical prefixes\<close>

text \<open>An item of a reader with namespaces: the resolved element, the event, and how attribute names resolve.\<close>

type_synonym ns_item = "string + resolved \<times> event \<times> (bytes \<Rightarrow> resolved)"

type_synonym ns_tokenizer = "bool \<Rightarrow> bytes \<Rightarrow> ns_item list"

definition XML_NS :: string where
  "XML_NS = ''http://www.w3.org/XML/1998/namespace''"

definition is_xmlns :: "bytes \<Rightarrow> bool" where
  "is_xmlns k \<longleftrightarrow> k = ''xmlns'' \<or> starts_with ''xmlns:'' k"

text \<open>A \<open>BTreeSet<String>\<close> is the sorted list of its elements.\<close>

definition uri_insert :: "string \<Rightarrow> string list \<Rightarrow> string list" where
  "uri_insert u us = (if u = XML_NS then us else insort_insert u us)"

definition collect_attr_uris ::
  "string \<Rightarrow> (bytes \<Rightarrow> resolved) \<Rightarrow> tag \<Rightarrow> string list \<Rightarrow> string + string list" where
  "collect_attr_uris aerr ar e uris =
     res_bind (attrs_strict aerr (tag_attrs e)) (\<lambda>kvs.
       Inr (fold (\<lambda>(k, _) us.
              if is_xmlns k \<or> starts_with ''xml:'' k then us
              else (case ar k of Bound ns \<Rightarrow> uri_insert (from_utf8_lossy ns) us | _ \<Rightarrow> us)) kvs uris))"

fun start_tag :: "event \<Rightarrow> tag option" where
  "start_tag (EvStart e) = Some e"
| "start_tag (EvEmpty e) = Some e"
| "start_tag _ = None"

fun collect_used_uris :: "string \<Rightarrow> ns_item list \<Rightarrow> string list \<Rightarrow> string + string list" where
  "collect_used_uris aerr [] uris = Inr uris"
| "collect_used_uris aerr (Inl e # r) uris = Inl e"
| "collect_used_uris aerr (Inr (res, ev, ar) # r) uris =
     (if ev = EvEof then Inr uris
      else (case (res, start_tag ev) of
              (Bound ns, Some e) \<Rightarrow>
                res_bind (collect_attr_uris aerr ar e (uri_insert (from_utf8_lossy ns) uris))
                  (collect_used_uris aerr r)
            | (Unbound, Some e) \<Rightarrow>
                res_bind (collect_attr_uris aerr ar e uris) (collect_used_uris aerr r)
            | _ \<Rightarrow> collect_used_uris aerr r uris))"

text \<open>The map from URIs to prefixes, in the order of its keys.\<close>

definition canon_prefix :: "nat \<Rightarrow> string" where
  "canon_prefix i = CHR ''n'' # nat_to_string i"

definition prefix_map :: "string list \<Rightarrow> (string \<times> string) list" where
  "prefix_map uris = map (\<lambda>(i, u). (u, canon_prefix i)) (enumerate 0 uris)"

definition resolved_canonical_prefix :: "resolved \<Rightarrow> (string \<times> string) list \<Rightarrow> string + string" where
  "resolved_canonical_prefix res m =
     (case res of
        Bound ns \<Rightarrow>
          ok_or (''unmapped namespace URI: '' @ from_utf8_lossy ns) (map_of m (from_utf8_lossy ns))
      | Unbound \<Rightarrow> Inr []
      | UnknownPrefix p \<Rightarrow> Inl (''unknown namespace prefix: '' @ from_utf8_lossy p))"

definition local_name_str :: "bytes \<Rightarrow> string" where
  "local_name_str raw = from_utf8_lossy (after_last CHR '':'' raw)"

definition write_attr_byte :: "char \<Rightarrow> bytes" where
  "write_attr_byte b =
     (if b = CHR 0x22 then ''&quot;''
      else if b = CHR ''<'' then ''&lt;''
      else if b = CHR ''&'' then ''&amp;''
      else [b])"

definition write_attr_value :: "bytes \<Rightarrow> bytes" where
  "write_attr_value v = concat (map write_attr_byte v)"

text \<open>The attribute that is written for one that is read, if any.\<close>

definition canon_attr ::
  "(string \<times> string) list \<Rightarrow> (bytes \<Rightarrow> resolved) \<Rightarrow> bytes \<times> bytes \<Rightarrow> (bytes \<times> bytes) option" where
  "canon_attr m ar kv =
     (case kv of (k, v) \<Rightarrow>
        if is_xmlns k then None
        else if starts_with ''xml:'' k then Some (k, v)
        else (case (split_once CHR '':'' k, ar k) of
                (Some (_, l), Bound ns) \<Rightarrow>
                  (case map_of m (from_utf8_lossy ns) of
                     Some p \<Rightarrow> Some (p @ CHR '':'' # l, v)
                   | None \<Rightarrow> Some (k, v))
              | _ \<Rightarrow> Some (k, v)))"

definition quoted_attr :: "bytes \<Rightarrow> bytes" where
  "quoted_attr v = [CHR 0x22] @ v @ [CHR 0x22]"

definition name_bytes :: "string \<Rightarrow> string \<Rightarrow> bytes" where
  "name_bytes cpfx local = (if cpfx = [] then [] else cpfx @ '':'') @ local"

definition root_declarations :: "(string \<times> string) list \<Rightarrow> bytes" where
  "root_declarations m =
     concat (map (\<lambda>(uri, pfx). '' xmlns:'' @ pfx @ ''='' @ quoted_attr uri) (sort_key snd m))"

definition emit_canon_start ::
  "string \<Rightarrow> tag \<Rightarrow> string \<Rightarrow> string \<Rightarrow> (string \<times> string) list \<Rightarrow> (bytes \<Rightarrow> resolved) \<Rightarrow>
   bool \<Rightarrow> bool \<Rightarrow> string + bytes" where
  "emit_canon_start aerr e cpfx local m ar is_root is_empty =
     res_bind (attrs_strict aerr (tag_attrs e)) (\<lambda>kvs.
       Inr (''<'' @ name_bytes cpfx local @ (if is_root then root_declarations m else []) @
            concat (map (\<lambda>(k, v). '' '' @ k @ ''='' @ quoted_attr (write_attr_value v))
                     (sort_attrs (List.map_filter (canon_attr m ar) kvs))) @
            (if is_empty then ''/>'' else ''>'')))"

record canon_state =
  cs_out :: bytes
  cs_first :: bool
  cs_stack :: "(string \<times> string) list"

definition emit :: "bytes \<Rightarrow> canon_state \<Rightarrow> canon_state" where
  "emit bs st = st\<lparr>cs_out := cs_out st @ bs\<rparr>"

definition canon_start ::
  "string \<Rightarrow> (string \<times> string) list \<Rightarrow> resolved \<Rightarrow> tag \<Rightarrow> (bytes \<Rightarrow> resolved) \<Rightarrow> bool \<Rightarrow>
   canon_state \<Rightarrow> string + canon_state" where
  "canon_start aerr m res e ar is_empty st =
     res_bind (resolved_canonical_prefix res m) (\<lambda>cpfx.
       let local = local_name_str (tag_name e) in
       res_bind (emit_canon_start aerr e cpfx local m ar (cs_first st) is_empty) (\<lambda>bs.
         Inr ((emit bs st)
           \<lparr>cs_first := False,
            cs_stack := if is_empty then cs_stack st else (local, cpfx) # cs_stack st\<rparr>)))"

fun canon_step ::
  "string \<Rightarrow> (string \<times> string) list \<Rightarrow> resolved \<Rightarrow> event \<Rightarrow> (bytes \<Rightarrow> resolved) \<Rightarrow>
   canon_state \<Rightarrow> string + canon_state" where
  "canon_step aerr m res (EvStart e) ar st = canon_start aerr m res e ar False st"
| "canon_step aerr m res (EvEmpty e) ar st = canon_start aerr m res e ar True st"
| "canon_step aerr m res (EvEnd n) ar st =
     (case cs_stack st of
        [] \<Rightarrow> Inl ''end tag without matching start''
      | (local, cpfx) # rest \<Rightarrow>
          Inr (emit (''</'' @ name_bytes cpfx local @ ''>'') (st\<lparr>cs_stack := rest\<rparr>)))"
| "canon_step aerr m res (EvText t) ar st = Inr (emit t st)"
| "canon_step aerr m res (EvCData t) ar st = Inr (emit (''<![CDATA['' @ t @ '']]>'') st)"
| "canon_step aerr m res (EvGeneralRef n) ar st = Inr (emit (''&'' @ n @ '';'') st)"
| "canon_step aerr m res ev ar st = Inr st"

fun canon_loop ::
  "string \<Rightarrow> (string \<times> string) list \<Rightarrow> ns_item list \<Rightarrow> canon_state \<Rightarrow> string + bytes" where
  "canon_loop aerr m [] st = Inr (cs_out st)"
| "canon_loop aerr m (Inl e # r) st = Inl e"
| "canon_loop aerr m (Inr (res, ev, ar) # r) st =
     (if ev = EvEof then Inr (cs_out st)
      else res_bind (canon_step aerr m res ev ar st) (canon_loop aerr m r))"

definition canonicalize_prefixes :: "ns_tokenizer \<Rightarrow> string \<Rightarrow> bytes \<Rightarrow> string + bytes" where
  "canonicalize_prefixes ntok aerr xml =
     res_bind (collect_used_uris aerr (ntok False xml) []) (\<lambda>uris.
       canon_loop aerr (prefix_map uris) (ntok False xml)
         \<lparr>cs_out = [], cs_first = True, cs_stack = []\<rparr>)"

section \<open>The normal forms that are compared\<close>

definition mask_only ::
  "tokenizer \<Rightarrow> ns_tokenizer \<Rightarrow> (event list \<Rightarrow> bytes) \<Rightarrow> string \<Rightarrow> bytes \<Rightarrow> mask_rule list \<Rightarrow>
   attr_mask_rule list \<Rightarrow> string + bytes" where
  "mask_only tok ntok wr aerr xml tm am =
     res_bind (apply_masks tok wr aerr xml tm am) (canonicalize_prefixes ntok aerr)"

definition mask_only_with_drops ::
  "tokenizer \<Rightarrow> ns_tokenizer \<Rightarrow> (event list \<Rightarrow> bytes) \<Rightarrow> string \<Rightarrow> bytes \<Rightarrow> mask_rule list \<Rightarrow>
   attr_mask_rule list \<Rightarrow> mask_rule list \<Rightarrow> string + bytes" where
  "mask_only_with_drops tok ntok wr aerr xml tm am drop_paths =
     res_bind (drop_subtrees tok wr xml drop_paths) (\<lambda>dropped.
     res_bind (apply_masks tok wr aerr dropped tm am) (canonicalize_prefixes ntok aerr))"

end
