(* ===== verification/Masking.thy ===== *)
theory Masking
  imports Normalize
begin

text \<open>
  What the masking passes of \<open>Normalize\<close> do to a document, read on trees: dropping of
  subtrees prunes the tree, masking hides the content and the attributes at the masked paths
  and nothing else.
\<close>

section \<open>Sorting attributes\<close>

lemma sort_attrs_unique:
  assumes same: "mset kvs = mset kvs'" and dist: "distinct (map fst kvs)"
  shows "sort_attrs kvs = sort_attrs kvs'"
  unfolding sort_attrs_def
proof (rule properties_for_sort_key)
  show "mset (sort_key fst kvs') = mset kvs" by (simp add: same)
  show "sorted (map fst (sort_key fst kvs'))" by simp
next
  fix k assume "k \<in> set (sort_key fst kvs')"
  then have k: "k \<in> set kvs" by (metis set_mset_mset set_sort same)
  have one: "filter (\<lambda>x. fst k = fst x) xs = [k]" if "distinct (map fst xs)" "k \<in> set xs" for xs
    using that by (induction xs) (auto simp: filter_empty_conv rev_image_eqI)
  have "distinct (map fst (sort_key fst kvs'))"
    using dist mset_eq_imp_distinct_iff [of "map fst kvs" "map fst (sort_key fst kvs')"] same by simp
  with one k \<open>k \<in> set (sort_key fst kvs')\<close> dist
  show "filter (\<lambda>x. fst k = fst x) (sort_key fst kvs') = filter (\<lambda>x. fst k = fst x) kvs" by simp
qed

lemma sort_attrs_idem [simp]: "sort_attrs (sort_attrs kvs) = sort_attrs kvs"
  by (simp add: sort_attrs_def sort_key_id_if_sorted)

lemma filter_sort_attrs: "filter (\<lambda>(k, _). P k) (sort_attrs kvs) = sort_attrs (filter (\<lambda>(k, _). P k) kvs)"
  by (simp add: sort_attrs_def filter_sort)

section \<open>Passes over trees\<close>

abbreviation element_path :: "string list \<Rightarrow> bytes \<Rightarrow> string list" where
  "element_path p n \<equiv> p @ [from_utf8_lossy (after_last CHR '':'' n)]"

lemma local_name_tag_of [simp]: "local_name (tag_of n as) = from_utf8_lossy (after_last CHR '':'' n)"
  by (simp add: local_name_def)

definition eof_free :: "reader \<Rightarrow> bool" where
  "eof_free r \<longleftrightarrow> (\<forall>res. Inr (res, EvEof) \<notin> set r)"

lemma eof_free_events [simp]: "eof_free (events x)"
  by (induction x) (auto simp: eof_free_def)

lemma eof_free_all_events [simp]: "eof_free (all_events xs)"
  using eof_free_events by (fastforce simp: eof_free_def)

lemma event_pass_append:
  "eof_free r \<Longrightarrow>
   event_pass step (r @ r') s =
     res_bind (event_pass step r s) (\<lambda>(out, s').
       res_bind (event_pass step r' s') (\<lambda>(out', s''). Inr (out @ out', s'')))"
proof (induction r arbitrary: s)
  case Nil
  then show ?case by (cases "event_pass step r' s") auto
next
  case (Cons i r)
  show ?case
  proof (cases i)
    case (Inl e)
    then show ?thesis by simp
  next
    case (Inr re)
    obtain res ev where re: "re = (res, ev)" by force
    have "ev \<noteq> EvEof" "eof_free r" using Cons.prems by (auto simp: eof_free_def Inr re)
    then show ?thesis
      by (cases "step ev s") (simp_all add: Inr re Cons.IH res_bind_assoc split_beta)
  qed
qed

lemma event_pass_Inr_append:
  "eof_free r \<Longrightarrow> event_pass step r s = Inr (out, s') \<Longrightarrow> event_pass step r' s' = Inr (out', s'') \<Longrightarrow>
   event_pass step (r @ r') s = Inr (out @ out', s'')"
  by (simp add: event_pass_append)

text \<open>The events that are written for a tree when nothing is changed.\<close>

fun written :: "xml \<Rightarrow> event list" where
  "written (XElem res n as cs) = EvStart (tag_of n as) # concat (map written cs) @ [EvEnd n]"
| "written (XEmpty res n as) = [EvEmpty (tag_of n as)]"
| "written (XText t) = [EvText t]"
| "written (XRef r) = [EvGeneralRef r]"
| "written (XCData t) = [EvCData t]"
| "written (XComment t) = [EvComment t]"
| "written (XPI t) = [EvPI t]"

abbreviation all_written :: "xml list \<Rightarrow> event list" where
  "all_written xs \<equiv> concat (map written xs)"

section \<open>Dropping subtrees\<close>

fun prune :: "mask_rule list \<Rightarrow> string list \<Rightarrow> xml \<Rightarrow> xml list" where
  "prune rules p (XElem res n as cs) =
     (if masked_at rules (element_path p n) then []
      else [XElem res n as (concat (map (prune rules (element_path p n)) cs))])"
| "prune rules p (XEmpty res n as) =
     (if masked_at rules (element_path p n) then [] else [XEmpty res n as])"
| "prune rules p x = [x]"

lemma concat_concat: "concat (map (\<lambda>x. concat (f x)) xs) = concat (concat (map f xs))"
  by (induction xs) auto

lemma event_pass_forest:
  "(\<And>x. x \<in> set xs \<Longrightarrow> event_pass step (events x) s = Inr (f x, s)) \<Longrightarrow>
   event_pass step (all_events xs) s = Inr (concat (map f xs), s)"
proof (induction xs)
  case Nil
  then show ?case by simp
next
  case (Cons x xs)
  have "event_pass step (all_events xs) s = Inr (concat (map f xs), s)"
    by (rule Cons.IH) (simp add: Cons.prems)
  then show ?case
    using event_pass_Inr_append [OF eof_free_events Cons.prems [of x]] by simp
qed

lemma drop_inside:
  "d \<le> length p \<Longrightarrow> event_pass (drop_step rules) (events x) (p, Some d) = Inr ([], (p, Some d))"
proof (induction x arbitrary: p)
  case (XElem res n as cs)
  have "event_pass (drop_step rules) (all_events cs) (element_path p n, Some d) =
      Inr ([], (element_path p n, Some d))"
    using event_pass_forest [of cs "drop_step rules" _ "\<lambda>_. []"] XElem by simp
  with XElem.prems show ?case
    by (simp add: event_pass_append)
qed simp_all

lemma drop_tree:
  "event_pass (drop_step rules) (events x) (p, None) = Inr (all_written (prune rules p x), (p, None))"
proof (induction x arbitrary: p)
  case (XElem res n as cs)
  have kept: "event_pass (drop_step rules) (all_events cs) (element_path p n, None) =
      Inr (concat (map (\<lambda>c. all_written (prune rules (element_path p n) c)) cs), (element_path p n, None))"
    using XElem by (intro event_pass_forest) simp
  have dropped: "event_pass (drop_step rules) (all_events cs) (element_path p n, Some (Suc (length p))) =
      Inr ([], (element_path p n, Some (Suc (length p))))"
    using event_pass_forest [of cs "drop_step rules" _ "\<lambda>_. []"] drop_inside by simp
  show ?case
    using kept dropped by (simp add: event_pass_append map_concat comp_def concat_concat)
qed simp_all


text \<open>No path of a pruned document is one of the dropped paths.\<close>

fun element_paths :: "string list \<Rightarrow> xml \<Rightarrow> string list list" where
  "element_paths p (XElem res n as cs) =
     element_path p n # concat (map (element_paths (element_path p n)) cs)"
| "element_paths p (XEmpty res n as) = [element_path p n]"
| "element_paths p _ = []"

lemma prune_paths: "y \<in> set (prune rules p x) \<Longrightarrow> q \<in> set (element_paths p y) \<Longrightarrow> \<not> masked_at rules q"
proof (induction x arbitrary: p y)
  case (XElem res n as cs)
  then show ?case by (fastforce split: if_splits)
qed (auto split: if_splits)

section \<open>Masking\<close>

text \<open>Character data; and a run of it that holds text, so that the sentinel replaces it.\<close>

fun is_chars :: "xml \<Rightarrow> bool" where
  "is_chars (XText t) = True"
| "is_chars (XCData t) = True"
| "is_chars (XRef n) = True"
| "is_chars _ = False"

fun is_textual :: "xml \<Rightarrow> bool" where
  "is_textual (XText t) = True"
| "is_textual (XCData t) = True"
| "is_textual _ = False"

definition masked_run :: "xml list \<Rightarrow> bool" where
  "masked_run xs \<longleftrightarrow> list_all is_chars xs \<and> list_ex is_textual xs"

definition kept_attrs :: "attr_mask_rule list \<Rightarrow> string list \<Rightarrow> (bytes \<times> bytes) list \<Rightarrow> (bytes \<times> bytes) list" where
  "kept_attrs am p as = filter (\<lambda>(k, _). \<not> attr_dropped am p k) as"

definition attrs_variant ::
  "attr_mask_rule list \<Rightarrow> string list \<Rightarrow> (bytes \<times> bytes) list \<Rightarrow> (bytes \<times> bytes) list \<Rightarrow> bool" where
  "attrs_variant am p as bs \<longleftrightarrow>
     distinct (map fst (kept_attrs am p as)) \<and> mset (kept_attrs am p as) = mset (kept_attrs am p bs)"

text \<open>
  Two documents that differ only in what is masked: other text in a run at a masked path,
  other values, presence or order of masked attributes, another order of the remaining ones.
\<close>

inductive masked_variant ::
  "mask_rule list \<Rightarrow> attr_mask_rule list \<Rightarrow> string list \<Rightarrow> xml list \<Rightarrow> xml list \<Rightarrow> bool"
  for tm am where
  mv_nil: "masked_variant tm am p [] []"
| mv_run: "masked_at tm p \<Longrightarrow> masked_run us \<Longrightarrow> masked_run vs \<Longrightarrow> masked_variant tm am p xs ys \<Longrightarrow>
    masked_variant tm am p (us @ xs) (vs @ ys)"
| mv_leaf: "\<not> is_elem x \<Longrightarrow> masked_variant tm am p xs ys \<Longrightarrow> masked_variant tm am p (x # xs) (x # ys)"
| mv_elem: "attrs_variant am (element_path p n) as bs \<Longrightarrow>
    masked_variant tm am (element_path p n) cs ds \<Longrightarrow> masked_variant tm am p xs ys \<Longrightarrow>
    masked_variant tm am p (XElem res n as cs # xs) (XElem res' n bs ds # ys)"
| mv_empty: "attrs_variant am (element_path p n) as bs \<Longrightarrow> masked_variant tm am p xs ys \<Longrightarrow>
    masked_variant tm am p (XEmpty res n as # xs) (XEmpty res' n bs # ys)"

lemma write_masked_start_tree:
  "write_masked_start aerr (tag_of n as) p am is_empty =
     Inr (start_event is_empty (tag_of (from_utf8_lossy n) (sort_attrs (kept_attrs am p as))))"
  by (simp add: write_masked_start_def kept_attrs_def)

lemma mask_chars:
  "masked_at tm p \<Longrightarrow> list_all is_chars us \<Longrightarrow>
   event_pass (mask_step aerr tm am) (all_events us) (p, w) =
     Inr (if w \<or> \<not> list_ex is_textual us then [] else [EvText MASK_SENTINEL],
          (p, w \<or> list_ex is_textual us))"
proof (induction us arbitrary: w)
  case Nil
  then show ?case by simp
next
  case (Cons u us)
  then show ?case by (cases u) simp_all
qed

lemma mask_run:
  "masked_at tm p \<Longrightarrow> masked_run us \<Longrightarrow>
   event_pass (mask_step aerr tm am) (all_events us) (p, w) =
     Inr (if w then [] else [EvText MASK_SENTINEL], (p, True))"
  by (simp add: mask_chars masked_run_def)

lemma mask_element:
  "event_pass (mask_step aerr tm am) (events (XElem res n as cs) @ r) (p, w) =
     res_bind (event_pass (mask_step aerr tm am) (all_events cs) (element_path p n, False)) (\<lambda>(out, (p', _)).
     res_bind (event_pass (mask_step aerr tm am) r (butlast p', False)) (\<lambda>(out', s').
       Inr (EvStart (tag_of (from_utf8_lossy n) (sort_attrs (kept_attrs am (element_path p n) as))) #
            out @ EvEnd n # out', s')))"
proof (cases "event_pass (mask_step aerr tm am) (all_events cs) (element_path p n, False)")
  case (Inl e)
  then show ?thesis
    by (simp add: Let_def write_masked_start_tree start_event_def event_pass_append)
next
  case (Inr o1)
  then show ?thesis
    by (cases o1; cases "event_pass (mask_step aerr tm am) r (butlast (fst (snd o1)), False)")
      (auto simp: Let_def write_masked_start_tree start_event_def event_pass_append)
qed

text \<open>Masking a forest never fails, and keeps the path.\<close>

lemma mask_total:
  "\<exists>out w'. event_pass (mask_step aerr tm am) (all_events xs) (p, w) = Inr (out, (p, w'))"
proof (induction "size_list size xs" arbitrary: xs p w rule: less_induct)
  case less
  show ?case
  proof (cases xs)
    case Nil
    then show ?thesis by simp
  next
    case (Cons x xs')
    have rest: "\<exists>out w'. event_pass (mask_step aerr tm am) (all_events xs') (p, w1) = Inr (out, (p, w'))" for w1
      by (rule less) (simp add: Cons)
    show ?thesis
    proof (cases x)
      case (XElem res n as cs)
      have "\<exists>out w'. event_pass (mask_step aerr tm am) (all_events cs) (element_path p n, False) =
          Inr (out, (element_path p n, w'))"
        by (rule less) (simp add: Cons XElem)
      then show ?thesis using rest [of False]
        unfolding Cons XElem list.map concat.simps by (auto simp only: mask_element) auto
    next
      case (XEmpty res n as)
      then show ?thesis using rest [of False]
        by (auto simp: Cons write_masked_start_tree Let_def)
    qed (use rest [of w] rest [of True] in \<open>auto simp: Cons\<close>)
  qed
qed

lemma mask_variant:
  "masked_variant tm am p xs ys \<Longrightarrow>
   event_pass (mask_step aerr tm am) (all_events xs) (p, w) =
   event_pass (mask_step aerr tm am) (all_events ys) (p, w)"
proof (induction arbitrary: w rule: masked_variant.induct)
  case (mv_nil p)
  then show ?case by simp
next
  case (mv_run p us vs xs ys)
  then show ?case by (simp add: event_pass_append mask_run)
next
  case (mv_leaf x p xs ys)
  then show ?case by (cases x) simp_all
next
  case (mv_elem p n as bs cs ds xs ys res res')
  obtain out w' where "event_pass (mask_step aerr tm am) (all_events ds) (element_path p n, False) =
      Inr (out, (element_path p n, w'))"
    using mask_total by blast
  moreover have "sort_attrs (kept_attrs am (element_path p n) as) = sort_attrs (kept_attrs am (element_path p n) bs)"
    using mv_elem.hyps(1) by (simp add: attrs_variant_def sort_attrs_unique)
  ultimately show ?case
    unfolding list.map concat.simps mask_element by (simp add: mv_elem.IH)
next
  case (mv_empty p n as bs xs ys res res')
  moreover have "sort_attrs (kept_attrs am (element_path p n) as) = sort_attrs (kept_attrs am (element_path p n) bs)"
    using mv_empty.hyps(1) by (simp add: attrs_variant_def sort_attrs_unique)
  ultimately show ?case
    by (simp add: Let_def write_masked_start_tree)
qed
section \<open>What masking leaves\<close>

text \<open>The document without the character data and the attributes that are masked.\<close>

fun redact :: "mask_rule list \<Rightarrow> attr_mask_rule list \<Rightarrow> string list \<Rightarrow> xml \<Rightarrow> xml list" where
  "redact tm am p (XElem res n as cs) =
     [XElem Unbound n (sort_attrs (kept_attrs am (element_path p n) as))
       (concat (map (redact tm am (element_path p n)) cs))]"
| "redact tm am p (XEmpty res n as) =
     [XEmpty Unbound n (sort_attrs (kept_attrs am (element_path p n) as))]"
| "redact tm am p x = (if masked_at tm p \<and> is_chars x then [] else [x])"

fun utf8_names :: "xml \<Rightarrow> bool" where
  "utf8_names (XElem res n as cs) = (utf8_valid n \<and> list_all utf8_names cs)"
| "utf8_names (XEmpty res n as) = utf8_valid n"
| "utf8_names _ = True"

text \<open>Reading the redacted document off the events that were written.\<close>

fun unmasked_events :: "mask_rule list \<Rightarrow> string list \<Rightarrow> event list \<Rightarrow> event list" where
  "unmasked_events tm p [] = []"
| "unmasked_events tm p (EvStart e # r) = EvStart e # unmasked_events tm (p @ [local_name e]) r"
| "unmasked_events tm p (EvEnd n # r) = EvEnd n # unmasked_events tm (butlast p) r"
| "unmasked_events tm p (EvText t # r) = (if masked_at tm p then [] else [EvText t]) @ unmasked_events tm p r"
| "unmasked_events tm p (EvCData t # r) = (if masked_at tm p then [] else [EvCData t]) @ unmasked_events tm p r"
| "unmasked_events tm p (EvGeneralRef n # r) =
     (if masked_at tm p then [] else [EvGeneralRef n]) @ unmasked_events tm p r"
| "unmasked_events tm p (ev # r) = ev # unmasked_events tm p r"

lemma mask_redacts:
  "list_all utf8_names xs \<Longrightarrow>
   \<exists>out w'. event_pass (mask_step aerr tm am) (all_events xs) (p, w) = Inr (out, (p, w')) \<and>
     (\<forall>r. unmasked_events tm p (out @ r) =
        all_written (concat (map (redact tm am p) xs)) @ unmasked_events tm p r)"
proof (induction "size_list size xs" arbitrary: xs p w rule: less_induct)
  case less
  show ?case
  proof (cases xs)
    case Nil
    then show ?thesis by simp
  next
    case (Cons x xs')
    have rest: "\<exists>out w'. event_pass (mask_step aerr tm am) (all_events xs') (p, w1) = Inr (out, (p, w')) \<and>
        (\<forall>r. unmasked_events tm p (out @ r) =
          all_written (concat (map (redact tm am p) xs')) @ unmasked_events tm p r)" for w1
      by (rule less) (use less.prems in \<open>simp_all add: Cons\<close>)
    show ?thesis
    proof (cases x)
      case (XElem res n as cs)
      have n: "from_utf8_lossy n = n" using less.prems by (simp add: Cons XElem from_utf8_lossy_valid)
      obtain out w2 where cs: "event_pass (mask_step aerr tm am) (all_events cs) (element_path p n, False) =
            Inr (out, (element_path p n, w2))"
          "\<forall>r. unmasked_events tm (element_path p n) (out @ r) =
             all_written (concat (map (redact tm am (element_path p n)) cs)) @ unmasked_events tm (element_path p n) r"
        using less(1) [of cs "element_path p n" False] less.prems by (auto simp: Cons XElem)
      obtain out' w3 where xs': "event_pass (mask_step aerr tm am) (all_events xs') (p, False) = Inr (out', (p, w3))"
          "\<forall>r. unmasked_events tm p (out' @ r) =
             all_written (concat (map (redact tm am p) xs')) @ unmasked_events tm p r"
        using rest by blast
      have "event_pass (mask_step aerr tm am) (all_events xs) (p, w) =
          Inr (EvStart (tag_of n (sort_attrs (kept_attrs am (element_path p n) as))) # out @ EvEnd n # out', (p, w3))"
        unfolding Cons XElem list.map concat.simps mask_element by (simp add: cs(1) xs'(1) n)
      with cs(2) xs'(2) show ?thesis by (simp add: Cons XElem)
    next
      case (XEmpty res n as)
      have n: "from_utf8_lossy n = n" using less.prems by (simp add: Cons XEmpty from_utf8_lossy_valid)
      from rest [of False] show ?thesis
        by (auto simp: Cons XEmpty write_masked_start_tree Let_def start_event_def n)
    qed (use rest [of w] rest [of True] in \<open>auto simp: Cons\<close>)
  qed
qed

section \<open>Properties\<close>

text \<open>A writer for the witnesses, without attributes.\<close>

fun plain_event :: "event \<Rightarrow> bytes" where
  "plain_event (EvStart t) = ''<'' @ tag_name t @ ''>''"
| "plain_event (EvEmpty t) = ''<'' @ tag_name t @ ''/>''"
| "plain_event (EvEnd n) = ''</'' @ n @ ''>''"
| "plain_event (EvText t) = t"
| "plain_event (EvGeneralRef n) = ''&'' @ n @ '';''"
| "plain_event _ = []"

definition write_plain :: "event list \<Rightarrow> bytes" where
  "write_plain evs = concat (map plain_event evs)"

lemma event_pass_doc:
  "event_pass step (all_events doc) s = Inr (out, s') \<Longrightarrow>
   event_pass step (all_events doc @ [Inr (Unbound, EvEof)]) s = Inr (out, s')"
  by (simp add: event_pass_append)

text \<open>
  C36. Dropping subtrees is exact: what is written for a document is the document with every
  element at one of the paths cut out, its whole content included, and every other node
  unchanged; no path of the result is one of the dropped paths.
\<close>

theorem drop_subtrees_prunes:
  assumes "tok False xml = all_events doc @ [Inr (Unbound, EvEof)]"
  shows "drop_subtrees tok wr xml drop_paths =
      Inr (wr (all_written (concat (map (prune drop_paths []) doc)))) \<and>
    (\<forall>x \<in> set doc. \<forall>y \<in> set (prune drop_paths [] x). \<forall>q \<in> set (element_paths [] y).
       \<not> masked_at drop_paths q)"
proof -
  have "event_pass (drop_step drop_paths) (all_events doc) ([], None) =
      Inr (concat (map (\<lambda>x. all_written (prune drop_paths [] x)) doc), ([], None))"
    by (rule event_pass_forest) (simp add: drop_tree)
  from event_pass_doc [OF this] show ?thesis
    using prune_paths by (auto simp: drop_subtrees_def assms map_concat comp_def concat_concat)
qed

text \<open>A SOAP response whose header is cut out, as the WS-Security scenarios do.\<close>

lemma drop_subtrees_prunes_witness:
  "drop_subtrees (\<lambda>_ _. all_events [XElem Unbound ''s:Envelope'' []
       [XElem Unbound ''s:Header'' [] [XText ''x''], XElem Unbound ''s:Body'' [] [XText ''y'']]] @ [Inr (Unbound, EvEof)])
     write_plain ''x'' [mask_rule_new ''Envelope/Header''] =
   Inr ''<s:Envelope><s:Body>y</s:Body></s:Envelope>''"
  using drop_subtrees_prunes [THEN conjunct1, of "\<lambda>_ _. all_events [XElem Unbound ''s:Envelope'' []
       [XElem Unbound ''s:Header'' [] [XText ''x''], XElem Unbound ''s:Body'' [] [XText ''y'']]] @ [Inr (Unbound, EvEof)]"
     "''x''" "[XElem Unbound ''s:Envelope'' []
       [XElem Unbound ''s:Header'' [] [XText ''x''], XElem Unbound ''s:Body'' [] [XText ''y'']]]"
     write_plain "[mask_rule_new ''Envelope/Header'']"]
  by (simp add: masked_at_def mask_rule_new_def after_last_def from_utf8_lossy_valid utf8_valid_ascii
      is_ascii_def byte_def write_plain_def tag_of_def)

text \<open>
  C35. Masking hides what it should: two documents that differ only in masked attributes (and the
  order of the others) and in runs of character data at masked paths, each of which has a text or
  a CDATA section in both documents, have the same normal form. (A run that is empty or
  references only on one side is told apart, see \<open>masked_reference_leaves_no_sentinel\<close>.)
\<close>

theorem masked_content_is_hidden:
  assumes "tok False xml = all_events doc @ [Inr (Unbound, EvEof)]"
    and "tok False xml' = all_events doc' @ [Inr (Unbound, EvEof)]"
    and "masked_variant tm am [] doc doc'"
  shows "apply_masks tok wr aerr xml tm am = apply_masks tok wr aerr xml' tm am \<and>
    (\<exists>b. apply_masks tok wr aerr xml tm am = Inr b) \<and>
    mask_only tok ntok wr aerr xml tm am = mask_only tok ntok wr aerr xml' tm am"
proof -
  obtain out w' where out: "event_pass (mask_step aerr tm am) (all_events doc) ([], False) = Inr (out, ([], w'))"
    using mask_total by blast
  then have "event_pass (mask_step aerr tm am) (all_events doc') ([], False) = Inr (out, ([], w'))"
    using mask_variant [OF assms(3), of aerr False] by simp
  with out have "apply_masks tok wr aerr xml tm am = Inr (wr out)" "apply_masks tok wr aerr xml' tm am = Inr (wr out)"
    using assms(1,2) by (simp_all add: apply_masks_def event_pass_doc)
  then show ?thesis by (simp add: mask_only_def)
qed

text \<open>Two time stamps, one of them in two pieces around an entity reference.\<close>

lemma masked_content_is_hidden_witness:
  "apply_masks (\<lambda>_ b. if b = ''1'' then all_events [XElem Unbound ''t'' [(''Id'', ''1'')] [XText ''noon'']] @ [Inr (Unbound, EvEof)]
       else all_events [XElem Unbound ''t'' [] [XText ''a'', XRef ''amp'', XText ''b'']] @ [Inr (Unbound, EvEof)])
     write_plain ''e'' ''1'' [mask_rule_new ''t''] [attr_mask_rule_new ''t'' ''Id''] =
   apply_masks (\<lambda>_ b. if b = ''1'' then all_events [XElem Unbound ''t'' [(''Id'', ''1'')] [XText ''noon'']] @ [Inr (Unbound, EvEof)]
       else all_events [XElem Unbound ''t'' [] [XText ''a'', XRef ''amp'', XText ''b'']] @ [Inr (Unbound, EvEof)])
     write_plain ''e'' ''2'' [mask_rule_new ''t''] [attr_mask_rule_new ''t'' ''Id'']"
proof (rule masked_content_is_hidden [THEN conjunct1])
  have t: "from_utf8_lossy (after_last CHR '':'' ''t'') = ''t''" "from_utf8_lossy ''Id'' = ''Id''"
    by (simp_all add: from_utf8_lossy_valid utf8_valid_ascii is_ascii_def byte_def after_last_def)
  have attrs: "attrs_variant [attr_mask_rule_new ''t'' ''Id''] (element_path [] ''t'') [(''Id'', ''1'')] []"
    by (simp add: attrs_variant_def kept_attrs_def attr_dropped_def should_drop_attr_def
        attr_matches_path_def attr_mask_rule_new_def t)
  have "masked_variant [mask_rule_new ''t''] [attr_mask_rule_new ''t'' ''Id''] (element_path [] ''t'')
      ([XText ''noon''] @ []) ([XText ''a'', XRef ''amp'', XText ''b''] @ [])"
    by (rule mv_run) (simp_all add: masked_at_def mask_rule_new_def masked_run_def t mv_nil)
  then show "masked_variant [mask_rule_new ''t''] [attr_mask_rule_new ''t'' ''Id''] []
      [XElem Unbound ''t'' [(''Id'', ''1'')] [XText ''noon'']]
      [XElem Unbound ''t'' [] [XText ''a'', XRef ''amp'', XText ''b'']]"
    using attrs by (intro mv_elem) (simp_all add: mv_nil)
qed simp_all

text \<open>
  Masking hides nothing else: when two documents give the same events after masking, their
  elements, their remaining attributes (in sorted order), and all their text, references,
  comments and instructions outside the masked paths are the same.
\<close>

theorem unmasked_content_is_kept:
  assumes "list_all utf8_names doc" and "list_all utf8_names doc'"
    and "event_pass (mask_step aerr tm am) (all_events doc) ([], False) =
         event_pass (mask_step aerr tm am) (all_events doc') ([], False)"
  shows "all_written (concat (map (redact tm am []) doc)) = all_written (concat (map (redact tm am []) doc'))"
proof -
  obtain out w where "event_pass (mask_step aerr tm am) (all_events doc) ([], False) = Inr (out, ([], w))"
    "unmasked_events tm [] (out @ []) = all_written (concat (map (redact tm am []) doc)) @ unmasked_events tm [] []"
    using mask_redacts [OF assms(1)] by metis
  moreover obtain out' w' where "event_pass (mask_step aerr tm am) (all_events doc') ([], False) = Inr (out', ([], w'))"
    "unmasked_events tm [] (out' @ []) = all_written (concat (map (redact tm am []) doc')) @ unmasked_events tm [] []"
    using mask_redacts [OF assms(2)] by metis
  ultimately show ?thesis using assms(3) by simp
qed

lemma unmasked_content_is_kept_witness:
  "all_written (concat (map (redact [] [] []) [XElem Unbound ''a'' [(''x'', ''1''), (''b'', ''2'')] [XText ''t'']])) =
   all_written (concat (map (redact [] [] []) [XElem Unbound ''a'' [(''b'', ''2''), (''x'', ''1'')] [XText ''t'']]))"
  by (rule unmasked_content_is_kept [where aerr = "[]"])
    (simp_all add: utf8_valid_ascii is_ascii_def byte_def write_masked_start_tree Let_def event_pass_append
      kept_attrs_def attr_dropped_def sort_attrs_def start_event_def)

text \<open>
  Masked content that is an entity reference alone leaves no sentinel, so the normal forms
  of two documents that differ only in masked content can differ: the reference must be
  preceded by text for the element to compare equal to one with text.
\<close>

theorem masked_reference_leaves_no_sentinel:
  assumes "tok False xml = all_events [XElem res n as [XRef r]] @ [Inr (Unbound, EvEof)]"
    and "masked_at tm (element_path [] n)"
  shows "apply_masks tok wr aerr xml tm am =
    Inr (wr [EvStart (tag_of (from_utf8_lossy n) (sort_attrs (kept_attrs am (element_path [] n) as))), EvEnd n])"
  using assms by (simp add: apply_masks_def write_masked_start_tree Let_def start_event_def)

lemma masked_reference_leaves_no_sentinel_witness:
  "apply_masks (\<lambda>_ _. all_events [XElem Unbound ''t'' [] [XRef ''amp'']] @ [Inr (Unbound, EvEof)])
     write_plain aerr xml [mask_rule_new ''t''] [] = Inr ''<t></t>''"
proof -
  have t: "from_utf8_lossy ''t'' = ''t''" "after_last CHR '':'' ''t'' = ''t''"
    by (simp_all add: from_utf8_lossy_valid utf8_valid_ascii is_ascii_def byte_def after_last_def)
  show ?thesis
    using masked_reference_leaves_no_sentinel [of "\<lambda>_ _. all_events [XElem Unbound ''t'' [] [XRef ''amp'']] @ [Inr (Unbound, EvEof)]"
        xml Unbound "''t''" "[]" "''amp''" "[mask_rule_new ''t'']" write_plain aerr "[]"]
    by (simp add: masked_at_def mask_rule_new_def t write_plain_def kept_attrs_def sort_attrs_def)
qed

end
