(* ===== verification/Canonical.thy ===== *)
theory Canonical
  imports Masking
begin

text \<open>
  Canonical prefixes are what they are for: two documents that say the same with other
  prefixes, other places of the declarations and another order of the attributes are written as
  the same bytes. The abstract side is the sequence of facts that a namespace-aware reader
  has of a document: expanded names instead of prefixed ones, attributes as a multiset.
\<close>

section \<open>The information in a document\<close>

text \<open>An attribute name: without a namespace, of the reserved \<open>xml\<close> prefix, or in a namespace.\<close>

datatype attr_name = Plain bytes | Reserved bytes | Qualified string bytes

datatype info =
    IStart "string option" string "(attr_name \<times> bytes) multiset"
  | IEmpty "string option" string "(attr_name \<times> bytes) multiset"
  | IEnd
  | IText bytes
  | ICData bytes
  | IRef bytes

definition expand_attr :: "(bytes \<Rightarrow> resolved) \<Rightarrow> bytes \<times> bytes \<Rightarrow> (attr_name \<times> bytes) option" where
  "expand_attr ar kv =
     (case kv of (k, v) \<Rightarrow>
        if is_xmlns k then None
        else if starts_with ''xml:'' k then Some (Reserved k, v)
        else (case (split_once CHR '':'' k, ar k) of
                (Some (_, l), Bound ns) \<Rightarrow> Some (Qualified (from_utf8_lossy ns) l, v)
              | _ \<Rightarrow> Some (Plain k, v)))"

definition expand_attrs :: "(bytes \<Rightarrow> resolved) \<Rightarrow> tag \<Rightarrow> (attr_name \<times> bytes) list" where
  "expand_attrs ar e = List.map_filter (expand_attr ar) (attrs_ok (tag_attrs e))"

definition element_uri :: "resolved \<Rightarrow> string option" where
  "element_uri res = (case res of Bound ns \<Rightarrow> Some (from_utf8_lossy ns) | _ \<Rightarrow> None)"

fun item_info :: "resolved \<Rightarrow> event \<Rightarrow> (bytes \<Rightarrow> resolved) \<Rightarrow> info list" where
  "item_info res (EvStart e) ar =
     [IStart (element_uri res) (local_name_str (tag_name e)) (mset (expand_attrs ar e))]"
| "item_info res (EvEmpty e) ar =
     [IEmpty (element_uri res) (local_name_str (tag_name e)) (mset (expand_attrs ar e))]"
| "item_info res (EvEnd n) ar = [IEnd]"
| "item_info res (EvText t) ar = [IText t]"
| "item_info res (EvCData t) ar = [ICData t]"
| "item_info res (EvGeneralRef n) ar = [IRef n]"
| "item_info res _ ar = []"

fun infoset :: "ns_item list \<Rightarrow> info list" where
  "infoset [] = []"
| "infoset (Inl e # r) = []"
| "infoset (Inr (res, ev, ar) # r) = (if ev = EvEof then [] else item_info res ev ar @ infoset r)"

text \<open>
  A document that is namespace-well-formed: every prefix is declared, an attribute without a
  prefix has no namespace, no prefix but \<open>xml\<close> stands for the reserved namespace, and no
  element has two attributes of one expanded name.
\<close>

definition attr_well_formed :: "(bytes \<Rightarrow> resolved) \<Rightarrow> bytes \<Rightarrow> bool" where
  "attr_well_formed ar k \<longleftrightarrow> is_xmlns k \<or> starts_with ''xml:'' k \<or>
     (if CHR '':'' \<in> set k then \<exists>ns. ar k = Bound ns \<and> from_utf8_lossy ns \<noteq> XML_NS
      else \<forall>ns. ar k \<noteq> Bound ns)"

definition tag_well_formed :: "resolved \<Rightarrow> tag \<Rightarrow> (bytes \<Rightarrow> resolved) \<Rightarrow> bool" where
  "tag_well_formed res e ar \<longleftrightarrow>
     AttrErr \<notin> set (tag_attrs e) \<and> (\<forall>p. res \<noteq> UnknownPrefix p) \<and> element_uri res \<noteq> Some XML_NS \<and>
     (\<forall>(k, v) \<in> set (attrs_ok (tag_attrs e)). attr_well_formed ar k) \<and>
     distinct (map fst (expand_attrs ar e))"

fun item_well_formed :: "ns_item \<Rightarrow> bool" where
  "item_well_formed (Inl e) = False"
| "item_well_formed (Inr (res, EvStart e, ar)) = tag_well_formed res e ar"
| "item_well_formed (Inr (res, EvEmpty e, ar)) = tag_well_formed res e ar"
| "item_well_formed (Inr (res, _, ar)) = True"

definition ns_well_formed :: "ns_item list \<Rightarrow> bool" where
  "ns_well_formed r \<longleftrightarrow> list_all item_well_formed r"

section \<open>Prefixes are distinct\<close>

lemma nat_to_string_inj: "nat_to_string n = nat_to_string m \<Longrightarrow> n = m"
proof (induction n arbitrary: m rule: less_induct)
  case (less n)
  have digit: "x = y" if "char_of (48 + x) = (char_of (48 + y) :: char)" "x < 10" "y < 10" for x y :: nat
  proof -
    have "of_char (char_of (48 + x) :: char) = (of_char (char_of (48 + y) :: char) :: nat)"
      using that(1) by simp
    with that(2,3) show ?thesis by simp
  qed
  show ?case
  proof (cases "n < 10 \<or> m < 10")
    case True
    with less.prems digit [of n m] show ?thesis
      by (cases "n < 10"; cases "m < 10") (simp_all add: nat_to_string.simps [of n] nat_to_string.simps [of m])
  next
    case False
    with less.prems have "nat_to_string (n div 10) = nat_to_string (m div 10)"
      and last: "char_of (48 + n mod 10) = (char_of (48 + m mod 10) :: char)"
      by (simp_all add: nat_to_string.simps [of n] nat_to_string.simps [of m])
    with less.IH [of "n div 10" "m div 10"] False have "n div 10 = m div 10" by simp
    moreover have "n mod 10 = m mod 10" using digit [OF last] by simp
    ultimately show ?thesis by (metis div_mult_mod_eq)
  qed
qed

lemma canon_prefix_no_colon: "CHR '':'' \<notin> set (canon_prefix i)"
proof
  assume "CHR '':'' \<in> set (canon_prefix i)"
  then obtain d where d: "d < 10" "CHR '':'' = char_of (48 + d :: nat)"
    using nat_to_string_digits by (auto simp: canon_prefix_def)
  then have "of_char (CHR '':'') = (48 + d :: nat)" by simp
  with d(1) show False by simp
qed

lemma canon_prefix_inj: "canon_prefix i = canon_prefix j \<Longrightarrow> i = j"
  using nat_to_string_inj by (simp add: canon_prefix_def)


definition prefixes_ok :: "(string \<times> string) list \<Rightarrow> bool" where
  "prefixes_ok m \<longleftrightarrow>
     (\<forall>u p. map_of m u = Some p \<longrightarrow> CHR '':'' \<notin> set p \<and> p \<noteq> ''xml'') \<and>
     (\<forall>u u' p. map_of m u = Some p \<and> map_of m u' = Some p \<longrightarrow> u = u')"

lemma prefix_map_Some:
  assumes "map_of (prefix_map us) u = Some p"
  obtains i where "i < length us" "us ! i = u" "p = canon_prefix i"
  using map_of_SomeD [OF assms] by (auto simp: prefix_map_def in_set_enumerate_eq)

lemma prefix_map_dom: "map_of (prefix_map us) u \<noteq> None \<longleftrightarrow> u \<in> set us"
proof -
  have "map fst (prefix_map us) = us"
    by (simp add: prefix_map_def comp_def split_def)
  then show ?thesis by (metis map_of_eq_None_iff list.set_map)
qed

lemma prefix_map_ok: "prefixes_ok (prefix_map us)"
proof -
  have "CHR '':'' \<notin> set p \<and> p \<noteq> ''xml''" if "map_of (prefix_map us) u = Some p" for u p
    using that canon_prefix_no_colon by (auto elim!: prefix_map_Some simp: canon_prefix_def)
  moreover have "u = u'" if "map_of (prefix_map us) u = Some p" "map_of (prefix_map us) u' = Some p" for u u' p
    using that by (metis prefix_map_Some canon_prefix_inj)
  ultimately show ?thesis unfolding prefixes_ok_def by blast
qed

section \<open>Attributes\<close>

fun key_of :: "(string \<times> string) list \<Rightarrow> attr_name \<Rightarrow> bytes" where
  "key_of m (Plain k) = k"
| "key_of m (Reserved k) = k"
| "key_of m (Qualified u l) = (case map_of m u of Some p \<Rightarrow> p @ CHR '':'' # l | None \<Rightarrow> l)"

definition named_uris :: "attr_name \<Rightarrow> string set" where
  "named_uris n = (case n of Qualified u l \<Rightarrow> {u} | _ \<Rightarrow> {})"

fun info_uris :: "info \<Rightarrow> string set" where
  "info_uris (IStart u l as) = set_option u \<union> (\<Union>(n, _) \<in> set_mset as. named_uris n)"
| "info_uris (IEmpty u l as) = set_option u \<union> (\<Union>(n, _) \<in> set_mset as. named_uris n)"
| "info_uris _ = {}"

lemma canon_attr_expand:
  assumes "\<And>n w. expand_attr ar (k, v) = Some (n, w) \<Longrightarrow> named_uris n \<subseteq> dom (map_of m)"
  shows "canon_attr m ar (k, v) = map_option (\<lambda>(n, w). (key_of m n, w)) (expand_attr ar (k, v))"
  using assms
  by (auto simp: canon_attr_def expand_attr_def named_uris_def split: option.splits resolved.splits if_splits)

lemma canon_attrs_expand:
  "(\<And>n w. (n, w) \<in> set (List.map_filter (expand_attr ar) kvs) \<Longrightarrow> named_uris n \<subseteq> dom (map_of m)) \<Longrightarrow>
   List.map_filter (canon_attr m ar) kvs =
     map (\<lambda>(n, w). (key_of m n, w)) (List.map_filter (expand_attr ar) kvs)"
proof (induction kvs)
  case Nil
  then show ?case by (simp add: List.map_filter_def)
next
  case (Cons kv kvs)
  obtain k v where kv: "kv = (k, v)" by force
  have "canon_attr m ar (k, v) = map_option (\<lambda>(n, w). (key_of m n, w)) (expand_attr ar (k, v))"
    by (rule canon_attr_expand) (use Cons.prems in \<open>force simp: kv List.map_filter_simps\<close>)
  moreover have "List.map_filter (canon_attr m ar) kvs =
     map (\<lambda>(n, w). (key_of m n, w)) (List.map_filter (expand_attr ar) kvs)"
  proof (rule Cons.IH)
    fix n w assume "(n, w) \<in> set (List.map_filter (expand_attr ar) kvs)"
    then have "(n, w) \<in> set (List.map_filter (expand_attr ar) (kv # kvs))"
      by (simp add: List.map_filter_simps split: option.split)
    then show "named_uris n \<subseteq> dom (map_of m)" by (rule Cons.prems)
  qed
  ultimately show ?case
    by (cases "expand_attr ar (k, v)") (auto simp: kv List.map_filter_simps)
qed

text \<open>The shape of the names that well-formed attributes expand to.\<close>

definition name_shape :: "(string \<times> string) list \<Rightarrow> attr_name \<Rightarrow> bool" where
  "name_shape m n =
     (case n of
        Plain k \<Rightarrow> CHR '':'' \<notin> set k
      | Reserved k \<Rightarrow> starts_with ''xml:'' k
      | Qualified u l \<Rightarrow> u \<in> dom (map_of m))"

fun is_plain :: "attr_name \<Rightarrow> bool" where
  "is_plain (Plain k) = True"
| "is_plain _ = False"

lemma key_of_inj:
  assumes m: "prefixes_ok m" and n: "name_shape m n" "name_shape m n'" and eq: "key_of m n = key_of m n'"
  shows "n = n'"
proof -
  have first: "p = p' \<and> l = l'" if "p @ CHR '':'' # l = p' @ CHR '':'' # l'" "CHR '':'' \<notin> set p" "CHR '':'' \<notin> set p'"
    for p p' l l' :: bytes
    using that by (metis option.inject prod.inject split_once_append)
  have xml: "\<exists>l. k = ''xml'' @ CHR '':'' # l" if "starts_with ''xml:'' k" for k
    using that by (auto simp: starts_with_iff)
  have pfx: "CHR '':'' \<notin> set p \<and> p \<noteq> ''xml''" if "map_of m u = Some p" for u p
    using m that unfolding prefixes_ok_def by blast
  have inj: "u = u'" if "map_of m u = Some p" "map_of m u' = Some p" for u u' p
    using m that unfolding prefixes_ok_def by blast
  consider (pp) k k' where "n = Plain k" "n' = Plain k'" | (rr) k k' where "n = Reserved k" "n' = Reserved k'"
    | (qq) u l u' l' where "n = Qualified u l" "n' = Qualified u' l'"
    | (colon) "is_plain n \<noteq> is_plain n'"
    | (rq) k u l where "{n, n'} = {Reserved k, Qualified u l}"
    by (cases n; cases n'; fastforce)
  then show ?thesis
  proof cases
    case qq
    then obtain p p' where p: "map_of m u = Some p" "map_of m u' = Some p'"
      using n by (auto simp: name_shape_def)
    then have "p = p'" "l = l'" using eq qq first [of p l p' l'] pfx by simp_all
    with p inj qq show ?thesis by auto
  next
    case colon
    have "CHR '':'' \<in> set (key_of m x) \<longleftrightarrow> \<not> is_plain x" if "name_shape m x" for x
      using that by (cases x) (auto simp: name_shape_def dest!: xml)
    with n colon eq show ?thesis by metis
  next
    case rq
    then have "key_of m (Reserved k) = key_of m (Qualified u l)" "name_shape m (Reserved k)" "name_shape m (Qualified u l)"
      using eq n by (metis doubleton_eq_iff)+
    moreover from this(3) obtain p where "map_of m u = Some p" by (auto simp: name_shape_def)
    ultimately show ?thesis
      using pfx [of u p] xml [of k] first [of "''xml''" _ p l] by (auto simp: name_shape_def)
  qed (use eq in auto)
qed


lemma expand_attrs_shape:
  assumes "tag_well_formed res e ar" and "(n, w) \<in> set (expand_attrs ar e)"
    and "named_uris n \<subseteq> dom (map_of m)"
  shows "name_shape m n"
proof -
  obtain k v where kv: "(k, v) \<in> set (attrs_ok (tag_attrs e))" "expand_attr ar (k, v) = Some (n, w)"
    using assms(2) by (auto simp: expand_attrs_def List.map_filter_def)
  then have "attr_well_formed ar k" using assms(1) by (auto simp: tag_well_formed_def)
  with kv(2) assms(3) show ?thesis
    by (auto simp: attr_well_formed_def expand_attr_def name_shape_def named_uris_def split_once_None_iff
        split: option.splits resolved.splits if_splits)
qed

text \<open>The attributes that are written depend on the expanded ones alone, order excluded.\<close>

lemma canon_attrs_sorted:
  assumes m: "prefixes_ok m"
    and wf: "tag_well_formed res e ar" "tag_well_formed res' e' ar'"
    and same: "mset (expand_attrs ar e) = mset (expand_attrs ar' e')"
    and dom: "(\<Union>(n, _) \<in> set (expand_attrs ar e). named_uris n) \<subseteq> dom (map_of m)"
  shows "sort_attrs (List.map_filter (canon_attr m ar) (attrs_ok (tag_attrs e))) =
    sort_attrs (List.map_filter (canon_attr m ar') (attrs_ok (tag_attrs e')))"
proof -
  let ?f = "\<lambda>(n, w). (key_of m n, w)"
  have dom': "named_uris n \<subseteq> dom (map_of m)" if "(n, w) \<in> set (expand_attrs ar e)" for n w
    using dom that by auto
  have set': "set (expand_attrs ar' e') = set (expand_attrs ar e)" using same by (metis set_mset_mset)
  have "List.map_filter (canon_attr m ar') (attrs_ok (tag_attrs e')) = map ?f (expand_attrs ar' e')"
    using set' dom' unfolding expand_attrs_def by (intro canon_attrs_expand) blast
  moreover have "List.map_filter (canon_attr m ar) (attrs_ok (tag_attrs e)) = map ?f (expand_attrs ar e)"
    using set' dom' unfolding expand_attrs_def by (intro canon_attrs_expand) blast
  moreover have "distinct (map fst (map ?f (expand_attrs ar e)))"
  proof -
    have "distinct (map (key_of m) (map fst (expand_attrs ar e)))"
      unfolding distinct_map [of "key_of m"]
    proof (intro conjI inj_onI)
      show "distinct (map fst (expand_attrs ar e))" using wf(1) by (simp add: tag_well_formed_def)
    next
      fix n n' assume "n \<in> set (map fst (expand_attrs ar e))" "n' \<in> set (map fst (expand_attrs ar e))"
        and eq: "key_of m n = key_of m n'"
      then have "name_shape m n" "name_shape m n'"
        using expand_attrs_shape [OF wf(1)] dom' by auto
      with m eq show "n = n'" by (blast intro: key_of_inj)
    qed
    then show ?thesis by (simp add: comp_def split_def)
  qed
  ultimately show ?thesis
    using sort_attrs_unique [of "map ?f (expand_attrs ar e)" "map ?f (expand_attrs ar' e')"] same by simp
qed

section \<open>The namespaces that are declared\<close>

lemma uri_insert_props:
  "sorted us \<Longrightarrow> distinct us \<Longrightarrow> sorted (uri_insert u us) \<and> distinct (uri_insert u us) \<and>
   set (uri_insert u us) = (if u = XML_NS then set us else insert u (set us))"
  by (simp add: uri_insert_def set_insort_insert sorted_insort_insert distinct_insort_insert)


lemma collect_attr_uris_wf:
  assumes wf: "tag_well_formed res e ar" and us: "sorted us" "distinct us"
  shows "\<exists>us'. collect_attr_uris aerr ar e us = Inr us' \<and> sorted us' \<and> distinct us' \<and>
    set us' = set us \<union> (\<Union>(n, _) \<in> set (expand_attrs ar e). named_uris n)"
proof -
  let ?f = "\<lambda>(k, v :: bytes) us. if is_xmlns k \<or> starts_with ''xml:'' k then us
              else (case ar k of Bound ns \<Rightarrow> uri_insert (from_utf8_lossy ns) us | _ \<Rightarrow> us)"
  have "sorted (fold ?f kvs us) \<and> distinct (fold ?f kvs us) \<and>
      set (fold ?f kvs us) = set us \<union> (\<Union>(n, _) \<in> set (List.map_filter (expand_attr ar) kvs). named_uris n)"
    if "\<forall>(k, v) \<in> set kvs. attr_well_formed ar k" "sorted us" "distinct us" for kvs us
    using that
  proof (induction kvs arbitrary: us)
    case Nil
    then show ?case by (simp add: List.map_filter_simps)
  next
    case (Cons kv kvs)
    obtain k v where kv: "kv = (k, v)" by force
    have step: "sorted (?f kv us) \<and> distinct (?f kv us) \<and>
        set (?f kv us) = set us \<union> (case expand_attr ar (k, v) of Some (n, _) \<Rightarrow> named_uris n | None \<Rightarrow> {})"
      using Cons.prems
      by (auto simp: kv expand_attr_def attr_well_formed_def named_uris_def uri_insert_props split_once_None_iff
          split: resolved.splits option.splits if_splits)
    with Cons.IH [of "?f kv us"] Cons.prems(1) show ?case
      by (cases "expand_attr ar (k, v)") (auto simp: kv List.map_filter_simps)
  qed
  from this [of "attrs_ok (tag_attrs e)" us] wf us show ?thesis
    by (simp add: collect_attr_uris_def attrs_strict_ok tag_well_formed_def expand_attrs_def)
qed

definition all_uris :: "info list \<Rightarrow> string set" where
  "all_uris is = (\<Union>i \<in> set is. info_uris i)"

lemma collect_used_uris_wf:
  "ns_well_formed r \<Longrightarrow> sorted us \<Longrightarrow> distinct us \<Longrightarrow>
   \<exists>us'. collect_used_uris aerr r us = Inr us' \<and> sorted us' \<and> distinct us' \<and>
     set us' = set us \<union> all_uris (infoset r)"
proof (induction r arbitrary: us)
  case Nil
  then show ?case by (simp add: all_uris_def)
next
  case (Cons i r)
  then obtain res ev ar where i: "i = Inr (res, ev, ar)" and r: "ns_well_formed r"
    by (cases i) (auto simp: ns_well_formed_def)
  show ?case
  proof (cases "start_tag ev")
    case None
    then have "collect_used_uris aerr (i # r) us = (if ev = EvEof then Inr us else collect_used_uris aerr r us)"
      by (simp add: i split: resolved.split)
    moreover have "all_uris (infoset (i # r)) = (if ev = EvEof then {} else all_uris (infoset r))"
      using None by (cases ev) (simp_all add: i all_uris_def)
    ultimately show ?thesis using Cons.IH [OF r Cons.prems(2,3)] Cons.prems by simp
  next
    case (Some e)
    have wf: "tag_well_formed res e ar"
      using Cons.prems(1) Some by (cases ev) (auto simp: i ns_well_formed_def)
    define us1 where "us1 = (case res of Bound ns \<Rightarrow> uri_insert (from_utf8_lossy ns) us | _ \<Rightarrow> us)"
    have us1: "sorted us1" "distinct us1" "set us1 = set us \<union> set_option (element_uri res)"
      using wf Cons.prems(2,3) uri_insert_props
      by (auto simp: us1_def element_uri_def tag_well_formed_def split: resolved.splits)
    from collect_attr_uris_wf [OF wf us1(1,2)] obtain us2 where us2:
      "collect_attr_uris aerr ar e us1 = Inr us2" "sorted us2" "distinct us2"
      "set us2 = set us1 \<union> (\<Union>(n, _) \<in> set (expand_attrs ar e). named_uris n)" by blast
    have "ev \<noteq> EvEof" using Some by auto
    then have "collect_used_uris aerr (i # r) us = collect_used_uris aerr r us2"
      using wf Some us2(1) by (simp add: i us1_def tag_well_formed_def split: resolved.splits)
    moreover have "all_uris (infoset (i # r)) = set_option (element_uri res) \<union>
        (\<Union>(n, _) \<in> set (expand_attrs ar e). named_uris n) \<union> all_uris (infoset r)"
      using Some by (cases ev) (simp_all add: i all_uris_def)
    ultimately show ?thesis using Cons.IH [OF r us2(2,3)] us1(3) us2(4) by auto
  qed
qed

section \<open>Equal information, equal bytes\<close>

fun relevant :: "ns_item list \<Rightarrow> (resolved \<times> event \<times> (bytes \<Rightarrow> resolved)) list" where
  "relevant [] = []"
| "relevant (Inl e # r) = []"
| "relevant (Inr (res, ev, ar) # r) =
     (if ev = EvEof then [] else if item_info res ev ar = [] then relevant r
      else (res, ev, ar) # relevant r)"

lemma infoset_relevant: "map (\<lambda>i. [i]) (infoset r) = map (\<lambda>(res, ev, ar). item_info res ev ar) (relevant r)"
proof (induction r rule: relevant.induct)
  case (3 res ev ar r)
  then show ?case by (cases ev) simp_all
qed simp_all

lemma canon_loop_relevant:
  "ns_well_formed r \<Longrightarrow>
   canon_loop aerr m r st =
     res_bind (res_fold (\<lambda>(res, ev, ar). canon_step aerr m res ev ar) (relevant r) st) (\<lambda>st. Inr (cs_out st))"
proof (induction r arbitrary: st rule: relevant.induct)
  case (3 res ev ar r)
  then have IH: "canon_loop aerr m r st =
     res_bind (res_fold (\<lambda>(res, ev, ar). canon_step aerr m res ev ar) (relevant r) st) (\<lambda>st. Inr (cs_out st))"
    if "ev \<noteq> EvEof" for st
    using that by (cases "item_info res ev ar = []") (auto simp: ns_well_formed_def)
  show ?case
    using IH by (cases ev) (auto simp: res_bind_assoc intro!: arg_cong [where f = "res_bind _"])
qed (simp_all add: ns_well_formed_def)

lemma canon_start_same:
  assumes m: "prefixes_ok m"
    and wf: "tag_well_formed res e ar" "tag_well_formed res' e' ar'"
    and uri: "element_uri res = element_uri res'"
    and local: "local_name_str (tag_name e) = local_name_str (tag_name e')"
    and attrs: "mset (expand_attrs ar e) = mset (expand_attrs ar' e')"
    and dom: "(\<Union>(n, _) \<in> set (expand_attrs ar e). named_uris n) \<subseteq> dom (map_of m)"
  shows "canon_start aerr m res e ar b st = canon_start aerr m res' e' ar' b st"
proof -
  have "resolved_canonical_prefix res m = resolved_canonical_prefix res' m"
    using uri wf
    by (auto simp: resolved_canonical_prefix_def element_uri_def tag_well_formed_def split: resolved.splits)
  moreover have "emit_canon_start aerr e p l m ar f b = emit_canon_start aerr e' p l m ar' f b" for p l f
    using canon_attrs_sorted [OF m wf attrs dom] wf
    by (simp add: emit_canon_start_def attrs_strict_ok tag_well_formed_def)
  ultimately show ?thesis by (simp add: canon_start_def local)
qed

lemma canon_start_ok:
  assumes "tag_well_formed res e ar" and "set_option (element_uri res) \<subseteq> dom (map_of m)"
  shows "\<exists>st'. canon_start aerr m res e ar b st = Inr st' \<and>
    length (cs_stack st') = (if b then length (cs_stack st) else Suc (length (cs_stack st)))"
proof -
  obtain p where "resolved_canonical_prefix res m = Inr p"
    using assms
    by (fastforce simp: resolved_canonical_prefix_def element_uri_def tag_well_formed_def split: resolved.splits)
  then show ?thesis
    using assms(1)
    by (simp add: canon_start_def emit_canon_start_def attrs_strict_ok tag_well_formed_def Let_def emit_def)
qed

lemma canon_step_same:
  assumes "prefixes_ok m" and "item_well_formed (Inr (res, ev, ar))" "item_well_formed (Inr (res', ev', ar'))"
    and "item_info res ev ar = item_info res' ev' ar'" "item_info res ev ar \<noteq> []"
    and "all_uris (item_info res ev ar) \<subseteq> dom (map_of m)"
  shows "canon_step aerr m res ev ar st = canon_step aerr m res' ev' ar' st"
proof (cases "start_tag ev")
  case None
  with assms(4,5) show ?thesis by (cases ev; cases ev') simp_all
next
  case (Some e)
  then consider (start) e' where "ev = EvStart e" "ev' = EvStart e'" | (empty) e' where "ev = EvEmpty e" "ev' = EvEmpty e'"
    using assms(4) by (cases ev; cases ev') simp_all
  then show ?thesis
  proof cases
    case start
    have "(\<Union>(n, _) \<in> set (expand_attrs ar e). named_uris n) \<subseteq> dom (map_of m)"
      using assms(6) by (simp add: start all_uris_def)
    moreover have "element_uri res = element_uri res'" "local_name_str (tag_name e) = local_name_str (tag_name e')"
      "mset (expand_attrs ar e) = mset (expand_attrs ar' e')"
      "tag_well_formed res e ar" "tag_well_formed res' e' ar'"
      using assms(2-4) by (simp_all add: start)
    ultimately show ?thesis unfolding start canon_step.simps by (intro canon_start_same [OF assms(1)])
  next
    case empty
    have "(\<Union>(n, _) \<in> set (expand_attrs ar e). named_uris n) \<subseteq> dom (map_of m)"
      using assms(6) by (simp add: empty all_uris_def)
    moreover have "element_uri res = element_uri res'" "local_name_str (tag_name e) = local_name_str (tag_name e')"
      "mset (expand_attrs ar e) = mset (expand_attrs ar' e')"
      "tag_well_formed res e ar" "tag_well_formed res' e' ar'"
      using assms(2-4) by (simp_all add: empty)
    ultimately show ?thesis unfolding empty canon_step.simps by (intro canon_start_same [OF assms(1)])
  qed
qed

text \<open>End tags match: the number of open elements never drops below zero.\<close>

fun balanced :: "nat \<Rightarrow> info list \<Rightarrow> bool" where
  "balanced d [] = True"
| "balanced d (IStart u l as # is) = balanced (Suc d) is"
| "balanced d (IEnd # is) = (0 < d \<and> balanced (d - 1) is)"
| "balanced d (_ # is) = balanced d is"

lemma canon_fold_same:
  assumes m: "prefixes_ok m"
  shows "list_all2 (\<lambda>(res, ev, ar) (res', ev', ar'). item_info res ev ar = item_info res' ev' ar' \<and>
      item_info res ev ar \<noteq> [] \<and> item_well_formed (Inr (res, ev, ar)) \<and> item_well_formed (Inr (res', ev', ar')) \<and>
      all_uris (item_info res ev ar) \<subseteq> dom (map_of m)) xs ys \<Longrightarrow>
    res_fold (\<lambda>(res, ev, ar). canon_step aerr m res ev ar) xs st =
    res_fold (\<lambda>(res, ev, ar). canon_step aerr m res ev ar) ys st"
proof (induction arbitrary: st rule: list_all2_induct)
  case Nil
  then show ?case by simp
next
  case (Cons x xs y ys)
  obtain res ev ar res' ev' ar' where xy: "x = (res, ev, ar)" "y = (res', ev', ar')" by (metis prod_cases3)
  from Cons.hyps(1) have "item_info res ev ar = item_info res' ev' ar'" "item_info res ev ar \<noteq> []"
    "item_well_formed (Inr (res, ev, ar))" "item_well_formed (Inr (res', ev', ar'))"
    "all_uris (item_info res ev ar) \<subseteq> dom (map_of m)"
    unfolding xy prod.case by blast+
  then have "canon_step aerr m res ev ar st = canon_step aerr m res' ev' ar' st"
    by (intro canon_step_same [OF m])
  then show ?case
    using Cons.IH by (cases "canon_step aerr m res' ev' ar' st") (simp_all add: xy)
qed

lemma relevant_wf:
  "ns_well_formed r \<Longrightarrow> (res, ev, ar) \<in> set (relevant r) \<Longrightarrow>
   item_well_formed (Inr (res, ev, ar)) \<and> item_info res ev ar \<noteq> []"
  by (induction r rule: relevant.induct) (auto simp: ns_well_formed_def split: if_splits)

lemma canon_loop_same:
  assumes m: "prefixes_ok m" and wf: "ns_well_formed r" "ns_well_formed r'"
    and same: "infoset r = infoset r'" and dom: "all_uris (infoset r) \<subseteq> dom (map_of m)"
  shows "canon_loop aerr m r st = canon_loop aerr m r' st"
proof -
  have eq: "map (\<lambda>(res, ev, ar). item_info res ev ar) (relevant r) =
      map (\<lambda>(res, ev, ar). item_info res ev ar) (relevant r')"
    using infoset_relevant same by metis
  then have pairs: "list_all2 (\<lambda>(res, ev, ar) (res', ev', ar'). item_info res ev ar = item_info res' ev' ar')
      (relevant r) (relevant r')"
    by (auto simp: list_all2_conv_all_nth list_eq_iff_nth_eq split_beta)
  have sub: "all_uris (item_info res ev ar) \<subseteq> dom (map_of m)" if "(res, ev, ar) \<in> set (relevant r)" for res ev ar
  proof -
    have "item_info res ev ar \<in> set (map (\<lambda>i. [i]) (infoset r))"
      unfolding infoset_relevant using that by force
    then obtain i where "item_info res ev ar = [i]" "i \<in> set (infoset r)" by auto
    with dom show ?thesis unfolding all_uris_def by simp blast
  qed
  let ?R = "\<lambda>(res, ev, ar) (res', ev', ar'). item_info res ev ar = item_info res' ev' ar'"
  let ?Q = "\<lambda>(res, ev, ar) (res', ev', ar'). item_info res ev ar = item_info res' ev' ar' \<and>
      item_info res ev ar \<noteq> [] \<and> item_well_formed (Inr (res, ev, ar)) \<and> item_well_formed (Inr (res', ev', ar')) \<and>
      all_uris (item_info res ev ar) \<subseteq> dom (map_of m)"
  have "?Q x y" if "x \<in> set (relevant r)" "y \<in> set (relevant r')" "?R x y" for x y
  proof -
    obtain res ev ar res' ev' ar' where xy: "x = (res, ev, ar)" "y = (res', ev', ar')" by (metis prod_cases3)
    then show ?thesis
      using that relevant_wf [OF wf(1), of res ev ar] relevant_wf [OF wf(2), of res' ev' ar'] sub [of res ev ar]
      by simp
  qed
  with pairs have "list_all2 ?Q (relevant r) (relevant r')" by (rule list.rel_mono_strong)
  then have "res_fold (\<lambda>(res, ev, ar). canon_step aerr m res ev ar) (relevant r) st =
      res_fold (\<lambda>(res, ev, ar). canon_step aerr m res ev ar) (relevant r') st"
    by (rule canon_fold_same [OF m])
  then show ?thesis by (simp add: canon_loop_relevant wf)
qed

lemma canon_loop_ok:
  "ns_well_formed r \<Longrightarrow> balanced (length (cs_stack st)) (infoset r) \<Longrightarrow>
   all_uris (infoset r) \<subseteq> dom (map_of m) \<Longrightarrow> \<exists>b. canon_loop aerr m r st = Inr b"
proof (induction r arbitrary: st rule: relevant.induct)
  case (3 res ev ar r)
  show ?case
  proof (cases "ev = EvEof")
    case True
    then show ?thesis by simp
  next
    case False
    have wf: "ns_well_formed r" "item_well_formed (Inr (res, ev, ar))"
      using "3.prems"(1) by (simp_all add: ns_well_formed_def)
    have IH: "\<exists>b. canon_loop aerr m r st' = Inr b" if "balanced (length (cs_stack st')) (infoset r)" for st'
      using "3.IH" False wf(1) that "3.prems"(3) by (cases "item_info res ev ar = []") (auto simp: all_uris_def)
    obtain st' where "canon_step aerr m res ev ar st = Inr st'" "balanced (length (cs_stack st')) (infoset r)"
    proof (cases ev)
      case (EvStart e)
      with wf(2) "3.prems"(2,3) canon_start_ok [of res e ar m aerr False st] that show ?thesis
        by (auto simp: all_uris_def)
    next
      case (EvEmpty e)
      with wf(2) "3.prems"(2,3) canon_start_ok [of res e ar m aerr True st] that show ?thesis
        by (auto simp: all_uris_def)
    next
      case (EvEnd n)
      with "3.prems"(2) that show ?thesis by (cases "cs_stack st") (auto simp: emit_def)
    qed (use "3.prems"(2) that False in \<open>auto simp: emit_def\<close>)
    with IH [of st'] show ?thesis by (simp add: False)
  qed
qed (simp_all add: ns_well_formed_def)

section \<open>Properties\<close>

text \<open>
  C19. Canonicalising prefixes decides nothing about prefixes: two namespace-well-formed
  documents with the same expanded names, attributes (in any order) and text are written as
  the same bytes, whatever prefixes they use and wherever they declare them; and a
  well-formed document is always written.
\<close>

theorem canonical_form_ignores_prefixes:
  assumes "ns_well_formed (ntok False xml)" and "ns_well_formed (ntok False xml')"
    and "infoset (ntok False xml) = infoset (ntok False xml')"
    and "balanced 0 (infoset (ntok False xml))"
  shows "\<exists>b. canonicalize_prefixes ntok aerr xml = Inr b \<and> canonicalize_prefixes ntok aerr xml' = Inr b"
proof -
  let ?st = "\<lparr>cs_out = [], cs_first = True, cs_stack = []\<rparr>"
  obtain us where us: "collect_used_uris aerr (ntok False xml) [] = Inr us" "sorted us" "distinct us"
    "set us = all_uris (infoset (ntok False xml))"
    using collect_used_uris_wf [OF assms(1), of "[]"] by auto
  obtain us' where us': "collect_used_uris aerr (ntok False xml') [] = Inr us'" "sorted us'" "distinct us'"
    "set us' = all_uris (infoset (ntok False xml'))"
    using collect_used_uris_wf [OF assms(2), of "[]"] by auto
  have "us' = us" using us us' assms(3) by (simp add: sorted_distinct_set_unique)
  moreover have dom: "all_uris (infoset (ntok False xml)) \<subseteq> dom (map_of (prefix_map us))"
    using us(4) prefix_map_dom by (auto simp: dom_def)
  moreover obtain b where "canon_loop aerr (prefix_map us) (ntok False xml) ?st = Inr b"
    using canon_loop_ok [OF assms(1) _ dom, of ?st] assms(4) by auto
  ultimately show ?thesis
    using canon_loop_same [OF prefix_map_ok assms(1-3) dom] us(1) us'(1)
    by (simp add: canonicalize_prefixes_def)
qed

text \<open>A default namespace against a prefix declared further down.\<close>

lemma canonical_form_ignores_prefixes_witness:
  "\<exists>b. canonicalize_prefixes
       (\<lambda>_ x. if x = ''1'' then
            [Inr (Bound ''u'', EvStart (tag_of ''a'' [(''xmlns'', ''u''), (''x'', ''1'')]), \<lambda>_. Unbound),
             Inr (Bound ''u'', EvEnd ''a'', \<lambda>_. Unbound)]
          else
            [Inr (Bound ''u'', EvStart (tag_of ''p:a'' [(''x'', ''1''), (''xmlns:p'', ''u'')]), \<lambda>_. Unbound),
             Inr (Bound ''u'', EvEnd ''p:a'', \<lambda>_. Unbound)]) [] ''1'' = Inr b \<and>
     canonicalize_prefixes
       (\<lambda>_ x. if x = ''1'' then
            [Inr (Bound ''u'', EvStart (tag_of ''a'' [(''xmlns'', ''u''), (''x'', ''1'')]), \<lambda>_. Unbound),
             Inr (Bound ''u'', EvEnd ''a'', \<lambda>_. Unbound)]
          else
            [Inr (Bound ''u'', EvStart (tag_of ''p:a'' [(''x'', ''1''), (''xmlns:p'', ''u'')]), \<lambda>_. Unbound),
             Inr (Bound ''u'', EvEnd ''p:a'', \<lambda>_. Unbound)]) [] ''2'' = Inr b"
proof (rule canonical_form_ignores_prefixes)
qed (simp_all add: ns_well_formed_def tag_well_formed_def attr_well_formed_def element_uri_def expand_attrs_def
    expand_attr_def List.map_filter_simps is_xmlns_def starts_with_def local_name_str_def after_last_def
    XML_NS_def from_utf8_lossy_valid utf8_valid_ascii is_ascii_def byte_def tag_of_def)

text \<open>
  Writing an attribute value escapes its raw bytes again: an ampersand of an entity
  reference comes out as an escaped ampersand, so the canonical form has another value than
  the document.
\<close>

lemma attribute_references_are_escaped_again:
  "write_attr_value (u @ ''&'' @ v) = write_attr_value u @ ''&amp;'' @ write_attr_value v"
  by (simp add: write_attr_value_def write_attr_byte_def)

end
