(* ===== verification/Verdict.thy ===== *)
theory Verdict
  imports RustStr
begin

text \<open>
  Verdicts of the cross-implementation harness (\<open>crossref/src/layer2/verdict.rs\<close>) and the
  report that gates a release (\<open>crossref/src/layer2/report.rs\<close>).
\<close>

section \<open>Verdicts\<close>

datatype verdict =
    Pass
  | SutFail string
  | ReferenceDisagreement string
  | KnownDivergence string
  | HarnessError string

record eval =
  ev_sut :: "string + bytes"
  ev_reference :: "string + bytes"
  ev_known_divergences :: "string list"

definition side_by_side :: "bytes \<Rightarrow> bytes \<Rightarrow> string" where
  "side_by_side s r = ''sut='' @ from_utf8_lossy s @ '' ref='' @ from_utf8_lossy r"

text \<open>
  The loop over the known divergences: the first that matches is returned. A window of length
  zero panics, which is \<open>None\<close>; a window of another length that equals the token is an
  occurrence of it.
\<close>

fun known_divergence :: "bytes \<Rightarrow> bytes \<Rightarrow> string list \<Rightarrow> string option option" where
  "known_divergence s r [] = Some None"
| "known_divergence s r (k # ks) =
     (if k = [] then None
      else if k = side_by_side s r \<or> str_contains k s \<or> str_contains k r \<or>
              str_contains k (side_by_side s r) then Some (Some k)
      else known_divergence s r ks)"

definition evaluate :: "eval \<Rightarrow> verdict option" where
  "evaluate e =
     (case (ev_sut e, ev_reference e) of
        (Inl msg, _) \<Rightarrow> Some (SutFail msg)
      | (Inr _, Inl msg) \<Rightarrow> Some (ReferenceDisagreement msg)
      | (Inr s, Inr r) \<Rightarrow>
          if s = r then Some Pass
          else map_option
            (\<lambda>known. case known of
               Some k \<Rightarrow> KnownDivergence k
             | None \<Rightarrow> SutFail (''outputs differ: '' @ side_by_side s r))
            (known_divergence s r (ev_known_divergences e)))"

section \<open>Equivalence of outcomes\<close>

record resp =
  rs_schema_valid :: bool
  rs_is_success :: bool
  rs_masked_body_canon :: bytes

definition outcome_text :: "bool \<Rightarrow> string" where
  "outcome_text success = (if success then ''success'' else ''fault'')"

text \<open>The em dash of one message, in UTF-8.\<close>

definition em_dash :: bytes where
  "em_dash = [CHR 0xE2, CHR 0x80, CHR 0x94]"

definition apostrophe :: bytes where
  "apostrophe = [CHR 0x27]"

definition evaluate_outcome_equivalence :: "bool \<Rightarrow> resp \<Rightarrow> resp \<Rightarrow> verdict" where
  "evaluate_outcome_equivalence declared_success our cxf =
     (if \<not> rs_schema_valid our then SutFail ''our response schema-invalid''
      else if rs_is_success our \<noteq> declared_success then
        SutFail (''our server outcome ('' @ outcome_text (rs_is_success our) @
          '') does not match the scenario'' @ apostrophe @ ''s declared outcome ('' @
          outcome_text declared_success @ '')'')
      else if \<not> rs_schema_valid cxf then ReferenceDisagreement ''CXF response schema-invalid''
      else if rs_is_success cxf \<noteq> declared_success then
        ReferenceDisagreement (''CXF outcome ('' @ outcome_text (rs_is_success cxf) @
          '') differs from the declared/SUT outcome ('' @ outcome_text declared_success @ '') '' @
          em_dash @ '' needs triage'')
      else if declared_success then
        (if rs_masked_body_canon our = rs_masked_body_canon cxf then Pass
         else SutFail (''both succeeded but body differs: our='' @
                from_utf8_lossy (rs_masked_body_canon our) @ '' cxf='' @
                from_utf8_lossy (rs_masked_body_canon cxf)))
      else Pass)"

section \<open>Reports\<close>

record report =
  rp_rows :: "(string \<times> verdict) list"
  rp_unverified_remaining :: nat

fun is_ok :: "verdict \<Rightarrow> bool" where
  "is_ok Pass = True"
| "is_ok (KnownDivergence _) = True"
| "is_ok _ = False"

definition is_green :: "report \<Rightarrow> bool" where
  "is_green rp \<longleftrightarrow> list_all (\<lambda>(_, v). is_ok v) (rp_rows rp)"

definition fail_count :: "report \<Rightarrow> nat" where
  "fail_count rp = length (filter (\<lambda>(_, v). \<not> is_ok v) (rp_rows rp))"

text \<open>
  The numbers that \<open>print\<close> shows: passes and failures among the conformance rows and among the
  interop rows, told apart by the prefix of the name, the totals, and the count in its last line.
\<close>

definition is_interop :: "string \<times> verdict \<Rightarrow> bool" where
  "is_interop row \<longleftrightarrow> starts_with ''interop_'' (fst row)"

definition count_rows :: "(string \<times> verdict \<Rightarrow> bool) \<Rightarrow> report \<Rightarrow> nat" where
  "count_rows P rp = length (filter P (rp_rows rp))"

record printed =
  pr_conf_pass :: nat
  pr_conf_fail :: nat
  pr_interop_pass :: nat
  pr_interop_fail :: nat
  pr_total :: nat
  pr_total_pass :: nat
  pr_total_fail :: nat
  pr_complete :: bool
  pr_bad :: "nat option"

definition printed_summary :: "report \<Rightarrow> printed" where
  "printed_summary rp =
     (let conf_pass = count_rows (\<lambda>row. \<not> is_interop row \<and> is_ok (snd row)) rp;
          conf_fail = count_rows (\<lambda>row. \<not> is_interop row \<and> \<not> is_ok (snd row)) rp;
          interop_pass = count_rows (\<lambda>row. is_interop row \<and> is_ok (snd row)) rp;
          interop_fail = count_rows (\<lambda>row. is_interop row \<and> \<not> is_ok (snd row)) rp
      in \<lparr>pr_conf_pass = conf_pass, pr_conf_fail = conf_fail,
          pr_interop_pass = interop_pass, pr_interop_fail = interop_fail,
          pr_total = length (rp_rows rp),
          pr_total_pass = conf_pass + interop_pass, pr_total_fail = conf_fail + interop_fail,
          pr_complete = (is_green rp \<and> rp_unverified_remaining rp = 0),
          pr_bad = (if is_green rp then None
                    else Some (count_rows (\<lambda>(_, v). case v of
                           SutFail _ \<Rightarrow> True | HarnessError _ \<Rightarrow> True | ReferenceDisagreement _ \<Rightarrow> True
                         | _ \<Rightarrow> False) rp))\<rparr>)"

section \<open>Properties\<close>

lemma known_divergence_None: "known_divergence s r ks = None \<Longrightarrow> [] \<in> set ks"
  by (induction ks) (auto split: if_splits)

lemma known_divergence_Some:
  "known_divergence s r ks = Some (Some k) \<Longrightarrow>
   k \<in> set ks \<and> (str_contains k s \<or> str_contains k r \<or> str_contains k (side_by_side s r))"
proof (induction ks)
  case (Cons k' ks)
  have "str_contains k k" for k :: string by (auto simp: str_contains_iff intro: exI [of _ "[]"])
  with Cons show ?case by (auto split: if_splits)
qed simp

text \<open>
  A comparison passes exactly when both sides gave a valid document and their normal forms
  are the same bytes; no list of known divergences turns a difference into a pass. Otherwise
  our own failure is reported first, then the reference's, and a difference is excused only by a
  declared token that occurs in it; the comparison panics only on an empty token.
\<close>

theorem evaluate_passes_iff_equal:
  "(evaluate e = Some Pass \<longleftrightarrow> (\<exists>b. ev_sut e = Inr b \<and> ev_reference e = Inr b)) \<and>
   (\<forall>msg. ev_sut e = Inl msg \<longrightarrow> evaluate e = Some (SutFail msg)) \<and>
   (\<forall>b msg. ev_sut e = Inr b \<longrightarrow> ev_reference e = Inl msg \<longrightarrow>
      evaluate e = Some (ReferenceDisagreement msg)) \<and>
   (\<forall>k. evaluate e = Some (KnownDivergence k) \<longrightarrow>
      (\<exists>s r. ev_sut e = Inr s \<and> ev_reference e = Inr r \<and> s \<noteq> r \<and> k \<in> set (ev_known_divergences e) \<and>
        (str_contains k s \<or> str_contains k r \<or> str_contains k (side_by_side s r)))) \<and>
   (evaluate e = None \<longrightarrow> [] \<in> set (ev_known_divergences e))"
  by (cases "ev_sut e"; cases "ev_reference e")
    (auto simp: evaluate_def dest: known_divergence_None known_divergence_Some split: option.splits if_splits)

lemma evaluate_passes_iff_equal_witness:
  "evaluate \<lparr>ev_sut = Inr ''<a/>'', ev_reference = Inr ''<a/>'', ev_known_divergences = []\<rparr> = Some Pass \<and>
   evaluate \<lparr>ev_sut = Inl ''x'', ev_reference = Inr ''<a/>'', ev_known_divergences = []\<rparr> = Some (SutFail ''x'') \<and>
   evaluate \<lparr>ev_sut = Inr ''<a/>'', ev_reference = Inl ''y'', ev_known_divergences = []\<rparr> =
     Some (ReferenceDisagreement ''y'')"
  using evaluate_passes_iff_equal [of "\<lparr>ev_sut = Inr ''<a/>'', ev_reference = Inr ''<a/>'', ev_known_divergences = []\<rparr>"]
    evaluate_passes_iff_equal [of "\<lparr>ev_sut = Inl ''x'', ev_reference = Inr ''<a/>'', ev_known_divergences = []\<rparr>"]
    evaluate_passes_iff_equal [of "\<lparr>ev_sut = Inr ''<a/>'', ev_reference = Inl ''y'', ev_known_divergences = []\<rparr>"]
  by simp

text \<open>
  A WS-Security scenario passes exactly when both responses are valid, both have the outcome
  that the scenario declares, and, where that is success, their bodies are equal; the verdict is
  never an excuse or a harness error, and our server is blamed whenever it breaks the contract,
  whatever the reference does.
\<close>

theorem outcome_equivalence_iff:
  "(evaluate_outcome_equivalence d our cxf = Pass \<longleftrightarrow>
      rs_schema_valid our \<and> rs_schema_valid cxf \<and> rs_is_success our = d \<and> rs_is_success cxf = d \<and>
      (d \<longrightarrow> rs_masked_body_canon our = rs_masked_body_canon cxf)) \<and>
   (\<not> (rs_schema_valid our \<and> rs_is_success our = d) \<longrightarrow>
      (\<exists>msg. evaluate_outcome_equivalence d our cxf = SutFail msg)) \<and>
   (\<forall>msg. evaluate_outcome_equivalence d our cxf = ReferenceDisagreement msg \<longrightarrow>
      rs_schema_valid our \<and> rs_is_success our = d \<and> \<not> (rs_schema_valid cxf \<and> rs_is_success cxf = d))"
  by (auto simp: evaluate_outcome_equivalence_def)

lemma outcome_equivalence_iff_witness:
  "evaluate_outcome_equivalence True
     \<lparr>rs_schema_valid = True, rs_is_success = True, rs_masked_body_canon = ''<b/>''\<rparr>
     \<lparr>rs_schema_valid = True, rs_is_success = True, rs_masked_body_canon = ''<b/>''\<rparr> = Pass \<and>
   (\<exists>msg. evaluate_outcome_equivalence True
     \<lparr>rs_schema_valid = True, rs_is_success = False, rs_masked_body_canon = []\<rparr>
     \<lparr>rs_schema_valid = False, rs_is_success = False, rs_masked_body_canon = []\<rparr> = SutFail msg)"
  using outcome_equivalence_iff [of True "\<lparr>rs_schema_valid = True, rs_is_success = True, rs_masked_body_canon = ''<b/>''\<rparr>"
      "\<lparr>rs_schema_valid = True, rs_is_success = True, rs_masked_body_canon = ''<b/>''\<rparr>"]
    outcome_equivalence_iff [of True "\<lparr>rs_schema_valid = True, rs_is_success = False, rs_masked_body_canon = []\<rparr>"
      "\<lparr>rs_schema_valid = False, rs_is_success = False, rs_masked_body_canon = []\<rparr>"]
  by simp

lemma count_split: "length (filter P xs) = length (filter (\<lambda>x. \<not> Q x \<and> P x) xs) + length (filter (\<lambda>x. Q x \<and> P x) xs)"
  by (induction xs) auto

lemma is_ok_iff_not_bad:
  "\<not> is_ok v \<longleftrightarrow> (case v of SutFail _ \<Rightarrow> True | HarnessError _ \<Rightarrow> True | ReferenceDisagreement _ \<Rightarrow> True | _ \<Rightarrow> False)"
  by (cases v) auto

text \<open>
  The release gate agrees with the numbers: a run is green exactly when no verdict failed,
  the printed totals of the two categories add up to the rows and to the failure count, and the
  number in the closing line is that failure count.
\<close>

theorem report_is_consistent:
  "(is_green rp \<longleftrightarrow> fail_count rp = 0) \<and>
   pr_total_fail (printed_summary rp) = fail_count rp \<and>
   pr_total_pass (printed_summary rp) + fail_count rp = pr_total (printed_summary rp) \<and>
   pr_bad (printed_summary rp) = (if fail_count rp = 0 then None else Some (fail_count rp))"
proof -
  have green: "is_green rp \<longleftrightarrow> fail_count rp = 0"
    by (auto simp: is_green_def fail_count_def filter_empty_conv list_all_iff)
  have fail: "pr_total_fail (printed_summary rp) = fail_count rp"
    using count_split [of "\<lambda>row. \<not> is_ok (snd row)" "rp_rows rp" is_interop]
    by (simp add: printed_summary_def fail_count_def count_rows_def Let_def split_def)
  have pass: "pr_total_pass (printed_summary rp) = length (filter (\<lambda>row. is_ok (snd row)) (rp_rows rp))"
    using count_split [of "\<lambda>row. is_ok (snd row)" "rp_rows rp" is_interop]
    by (simp add: printed_summary_def count_rows_def Let_def)
  have "pr_bad (printed_summary rp) = (if is_green rp then None else Some (fail_count rp))"
    by (simp add: printed_summary_def Let_def count_rows_def fail_count_def split_def is_ok_iff_not_bad)
  moreover have "pr_total (printed_summary rp) = length (rp_rows rp)"
    by (simp add: printed_summary_def Let_def)
  ultimately show ?thesis
    using green fail pass sum_length_filter_compl [of "\<lambda>row. is_ok (snd row)" "rp_rows rp"]
    by (simp add: fail_count_def split_def)
qed

text \<open>A run without scenarios counts as green.\<close>

lemma empty_run_is_green: "is_green \<lparr>rp_rows = [], rp_unverified_remaining = n\<rparr>"
  by (simp add: is_green_def)

end
