(* ===== verification/HarnessChecks.thy ===== *)
theory HarnessChecks
  imports Verdict Normalize WsdlResolver
begin

text \<open>
  Scenarios of the harness (\<open>crossref/src/scenario.rs\<close>) and the checks of
  \<open>crossref/src/layer2/mod.rs\<close> that look into a response themselves: the addresses of a served
  WSDL, the fault code, the raw fault detail and the first child of the body. Each is a loop
  over the events of one reader.
\<close>

section \<open>Scenarios\<close>

datatype soap_ver = SoapV11 | SoapV12

datatype outcome_kind = OutcomeSuccess | OutcomeFault

datatype detail_policy = DetailAbsent | DetailPresent | RawXmlChild

record fault_expectation =
  fe_code :: string
  fe_subcode :: "string option"
  fe_detail_policy :: detail_policy

record scenario =
  sn_name :: string
  sn_operation :: string
  sn_http_method :: string
  sn_http_path :: string
  sn_content_type :: string
  sn_soap_version :: soap_ver
  sn_expected_status :: nat
  sn_outcome :: outcome_kind
  sn_request_file :: string
  sn_fault :: "fault_expectation option"
  sn_interop_driven :: bool

section \<open>Strings\<close>

text \<open>What \<open>decode().unwrap_or_default()\<close> gives of a text is \<open>utf8_or_empty\<close>.\<close>

definition last_local :: "bytes \<Rightarrow> bytes" where
  "last_local n = after_last CHR '':'' n"

section \<open>Addresses of a WSDL\<close>

record addr_scan =
  ad_addresses :: "(string \<times> string) list"
  ad_current :: "string option"
  ad_in_service :: bool

text \<open>The attribute loops: the last \<open>name\<close> counts, every \<open>location\<close> is recorded.\<close>

definition service_name :: "tag \<Rightarrow> string option \<Rightarrow> string option" where
  "service_name e cur =
     fold (\<lambda>(k, v) c. if k = ''name'' then Some (from_utf8_lossy v) else c) (attrs_ok (tag_attrs e)) cur"

definition locations :: "tag \<Rightarrow> string list" where
  "locations e = map (\<lambda>(_, v). from_utf8_lossy v) (filter (\<lambda>(k, _). k = ''location'') (attrs_ok (tag_attrs e)))"

definition addr_tag :: "tag \<Rightarrow> addr_scan \<Rightarrow> addr_scan" where
  "addr_tag e s =
     (if last_local (tag_name e) = ''service'' then
        s\<lparr>ad_current := service_name e (ad_current s), ad_in_service := True\<rparr>
      else if last_local (tag_name e) = ''address'' \<and> ad_in_service s then
        (case ad_current s of
           Some svc \<Rightarrow> s\<lparr>ad_addresses := ad_addresses s @ map (Pair svc) (locations e)\<rparr>
         | None \<Rightarrow> s)
      else s)"

fun addr_step :: "event \<Rightarrow> addr_scan \<Rightarrow> addr_scan" where
  "addr_step (EvStart e) s = addr_tag e s"
| "addr_step (EvEmpty e) s = addr_tag e s"
| "addr_step (EvEnd n) s =
     (if last_local n = ''service'' then s\<lparr>ad_in_service := False, ad_current := None\<rparr> else s)"
| "addr_step _ s = s"

fun addr_loop :: "reader \<Rightarrow> addr_scan \<Rightarrow> string + (string \<times> string) list" where
  "addr_loop [] s = Inr (ad_addresses s)"
| "addr_loop (Inl e # r) s = Inl e"
| "addr_loop (Inr (_, ev) # r) s =
     (if ev = EvEof then Inr (ad_addresses s) else addr_loop r (addr_step ev s))"

definition extract_soap_addresses :: "tokenizer \<Rightarrow> bytes \<Rightarrow> string + (string \<times> string) list" where
  "extract_soap_addresses tok wsdl =
     addr_loop (tok False wsdl) \<lparr>ad_addresses = [], ad_current = None, ad_in_service = False\<rparr>"

definition url_host :: "string \<Rightarrow> string" where
  "url_host url =
     takeWhile (\<lambda>c. c \<noteq> CHR ''/'')
       (trim_start_matches ''https://'' (trim_start_matches ''http://'' url))"

definition single_host_error :: "string \<Rightarrow> string \<times> string \<Rightarrow> string" where
  "single_host_error expected a =
     ''service '' @ apostrophe @ fst a @ apostrophe @ '' address '' @ apostrophe @ snd a @ apostrophe @
     '' host is '' @ apostrophe @ url_host (snd a) @ apostrophe @ '', expected '' @ apostrophe @ expected @
     apostrophe @ '' (rewrite invariant failed)''"

definition check_single_rewrite_invariant :: "tokenizer \<Rightarrow> bytes \<Rightarrow> string \<Rightarrow> string + unit" where
  "check_single_rewrite_invariant tok wsdl our_base =
     res_bind (extract_soap_addresses tok wsdl) (\<lambda>addresses.
       if addresses = [] then Inl ''no <soap:address> elements found in WSDL''
       else (case find (\<lambda>(_, l). url_host l \<noteq> url_host our_base) addresses of
               Some a \<Rightarrow> Inl (single_host_error (url_host our_base) a)
             | None \<Rightarrow> Inr ()))"

text \<open>The loop of the second check: which of the two services have been found.\<close>

definition is_service_a :: "(string \<Rightarrow> string) \<Rightarrow> string \<Rightarrow> bool" where
  "is_service_a lower svc \<longleftrightarrow> CHR ''A'' \<in> set svc \<or> str_contains ''servicea'' (lower svc)"

definition is_service_b :: "(string \<Rightarrow> string) \<Rightarrow> string \<Rightarrow> bool" where
  "is_service_b lower svc \<longleftrightarrow> CHR ''B'' \<in> set svc \<or> str_contains ''serviceb'' (lower svc)"

definition multi_step ::
  "(string \<Rightarrow> string) \<Rightarrow> string \<Rightarrow> string \<times> string \<Rightarrow> bool \<times> bool \<Rightarrow> string + bool \<times> bool" where
  "multi_step lower expected a found =
     (case (a, found) of ((svc, location), (found_a, found_b)) \<Rightarrow>
        if is_service_a lower svc then
          (if url_host location \<noteq> expected then
             Inl (''ServiceA address '' @ apostrophe @ location @ apostrophe @ '' host is '' @ apostrophe @
               url_host location @ apostrophe @ '', expected '' @ apostrophe @ expected @ apostrophe @
               '' (ServiceA rewrite invariant failed)'')
           else if \<not> str_contains ''/soap/a'' location then
             Inl (''ServiceA address '' @ apostrophe @ location @ apostrophe @ '' does not contain '' @
               apostrophe @ ''/soap/a'' @ apostrophe @ '' (expected rewritten path)'')
           else Inr (True, found_b))
        else if is_service_b lower svc then
          (if \<not> str_contains ''/soap/b'' location then
             Inl (''ServiceB address '' @ apostrophe @ location @ apostrophe @ '' does not contain '' @
               apostrophe @ ''/soap/b'' @ apostrophe @ '' (non-matched service address was clobbered '' @
               em_dash @ '' BLOCK-OS-C08-class finding)'')
           else Inr (found_a, True))
        else Inr (found_a, found_b))"

text \<open>\<open>dbg\<close> is the debug format of the list of addresses.\<close>

definition check_multi_rewrite_invariant ::
  "tokenizer \<Rightarrow> (string \<Rightarrow> string) \<Rightarrow> ((string \<times> string) list \<Rightarrow> string) \<Rightarrow> bytes \<Rightarrow> string \<Rightarrow> string + unit" where
  "check_multi_rewrite_invariant tok lower dbg wsdl our_base =
     res_bind (extract_soap_addresses tok wsdl) (\<lambda>addresses.
     res_bind (res_fold (multi_step lower (url_host our_base)) addresses (False, False)) (\<lambda>(found_a, found_b).
       if \<not> found_a then Inl (''ServiceA not found in WSDL addresses: '' @ dbg addresses)
       else if \<not> found_b then Inl (''ServiceB not found in WSDL addresses: '' @ dbg addresses)
       else Inr ()))"

section \<open>The fault code\<close>

record code_scan =
  fc_in_code_parent :: bool
  fc_in_value :: bool
  fc_accumulated :: string

definition code_target :: "bool \<Rightarrow> string" where
  "code_target is_soap11 = (if is_soap11 then ''faultcode'' else ''Value'')"

definition code_start :: "bool \<Rightarrow> bytes \<Rightarrow> code_scan \<Rightarrow> code_scan" where
  "code_start is_soap11 n s =
     (if \<not> is_soap11 then
        (if last_local n = ''Code'' then s\<lparr>fc_in_code_parent := True\<rparr>
         else if last_local n = ''Value'' \<and> fc_in_code_parent s then
           s\<lparr>fc_in_value := True, fc_accumulated := []\<rparr>
         else s)
      else if last_local n = code_target is_soap11 then s\<lparr>fc_in_value := True, fc_accumulated := []\<rparr>
      else s)"

text \<open>The comparison at the end tag of the code; \<open>None\<close> is agreement.\<close>

definition compare_code :: "string \<Rightarrow> string \<Rightarrow> string \<Rightarrow> verdict option" where
  "compare_code declared name acc =
     (let code = str_trim acc; local = after_last CHR '':'' code in
      if local = declared then None
      else Some (SutFail (''['' @ name @ ''] fault code mismatch: our code '' @ apostrophe @ code @ apostrophe @
        '' local='' @ apostrophe @ local @ apostrophe @ '', declared='' @ apostrophe @ declared @ apostrophe)))"

fun code_loop :: "string \<Rightarrow> string \<Rightarrow> bool \<Rightarrow> reader \<Rightarrow> code_scan \<Rightarrow> verdict option" where
  "code_loop declared name is_soap11 [] s = None"
| "code_loop declared name is_soap11 (Inl e # r) s = None"
| "code_loop declared name is_soap11 (Inr (_, ev) # r) s =
     (case ev of
        EvEof \<Rightarrow> None
      | EvStart e \<Rightarrow> code_loop declared name is_soap11 r (code_start is_soap11 (tag_name e) s)
      | EvText t \<Rightarrow>
          code_loop declared name is_soap11 r
            (if fc_in_value s then s\<lparr>fc_accumulated := fc_accumulated s @ utf8_or_empty t\<rparr> else s)
      | EvEnd n \<Rightarrow>
          if fc_in_value s \<and> last_local n = code_target is_soap11 then
            compare_code declared name (fc_accumulated s)
          else code_loop declared name is_soap11 r
            (if \<not> is_soap11 \<and> last_local n = ''Code'' then s\<lparr>fc_in_code_parent := False\<rparr> else s)
      | _ \<Rightarrow> code_loop declared name is_soap11 r s)"

definition enforce_fault_code :: "tokenizer \<Rightarrow> bytes \<Rightarrow> string \<Rightarrow> string \<Rightarrow> bool \<Rightarrow> verdict option" where
  "enforce_fault_code tok body declared name is_soap11 =
     code_loop declared name is_soap11 (tok True body)
       \<lparr>fc_in_code_parent = False, fc_in_value = False, fc_accumulated = []\<rparr>"

section \<open>The raw fault detail\<close>

record detail_scan =
  dt_in_detail :: bool
  dt_child :: bool
  dt_escaped :: bool
  dt_seen :: bool

fun detail_step :: "event \<Rightarrow> detail_scan \<Rightarrow> detail_scan" where
  "detail_step (EvStart e) s =
     (if last_local (tag_name e) = ''Detail'' then s\<lparr>dt_in_detail := True, dt_seen := True\<rparr>
      else if dt_in_detail s then s\<lparr>dt_child := True\<rparr> else s)"
| "detail_step (EvText t) s =
     (if dt_in_detail s \<and>
         (let text = utf8_or_empty t in str_contains ''&lt;'' text \<or> starts_with ''<'' (str_trim text))
      then s\<lparr>dt_escaped := True\<rparr> else s)"
| "detail_step (EvEnd n) s = (if last_local n = ''Detail'' then s\<lparr>dt_in_detail := False\<rparr> else s)"
| "detail_step _ s = s"

fun detail_loop :: "reader \<Rightarrow> detail_scan \<Rightarrow> detail_scan" where
  "detail_loop [] s = s"
| "detail_loop (Inl e # r) s = s"
| "detail_loop (Inr (_, ev) # r) s = (if ev = EvEof then s else detail_loop r (detail_step ev s))"

definition enforce_raw_xml_child_detail :: "tokenizer \<Rightarrow> bytes \<Rightarrow> string \<Rightarrow> verdict option" where
  "enforce_raw_xml_child_detail tok body name =
     (let s = detail_loop (tok False body)
               \<lparr>dt_in_detail = False, dt_child = False, dt_escaped = False, dt_seen = False\<rparr>;
          fail = (\<lambda>msg. Some (SutFail (''['' @ name @ ''] raw_xml_child: '' @ msg))) in
      if \<not> dt_seen s then fail ''<Detail> element absent in our fault response''
      else if dt_escaped s then fail ''<Detail> contains escaped XML text (expected raw child element)''
      else if \<not> dt_child s then fail ''<Detail> has no child element (detail_policy requires raw XML child)''
      else None)"

section \<open>The first child of the body\<close>

definition tag_bytes :: "tag \<Rightarrow> bytes" where
  "tag_bytes e =
     ''<'' @ tag_name e @
     concat (map (\<lambda>(k, v). '' '' @ k @ ''='' @ quoted_attr v) (attrs_ok (tag_attrs e)))"

record child_scan =
  ch_in_body :: bool
  ch_collecting :: bool
  ch_depth :: nat
  ch_out :: bytes

text \<open>A step either ends the function with a value or goes on.\<close>

fun child_step :: "event \<Rightarrow> child_scan \<Rightarrow> bytes + child_scan" where
  "child_step (EvStart e) s =
     Inr (if \<not> ch_in_body s then
            (if last_local (tag_name e) = ''Body'' then s\<lparr>ch_in_body := True\<rparr> else s)
          else if \<not> ch_collecting s then
            s\<lparr>ch_collecting := True, ch_depth := 1, ch_out := tag_bytes e @ ''>''\<rparr>
          else s\<lparr>ch_depth := ch_depth s + 1, ch_out := ch_out s @ tag_bytes e @ ''>''\<rparr>)"
| "child_step (EvEmpty e) s =
     (if ch_in_body s \<and> \<not> ch_collecting s then Inl (tag_bytes e @ ''/>'')
      else Inr (if ch_collecting s then s\<lparr>ch_out := ch_out s @ tag_bytes e @ ''/>''\<rparr> else s))"
| "child_step (EvEnd n) s =
     (if ch_collecting s then
        (if ch_depth s = 1 then Inl (ch_out s @ ''</'' @ n @ ''>'')
         else Inr (s\<lparr>ch_depth := ch_depth s - 1, ch_out := ch_out s @ ''</'' @ n @ ''>''\<rparr>))
      else Inr s)"
| "child_step (EvText t) s = Inr (if ch_collecting s then s\<lparr>ch_out := ch_out s @ t\<rparr> else s)"
| "child_step _ s = Inr s"

fun child_loop :: "reader \<Rightarrow> child_scan \<Rightarrow> bytes option" where
  "child_loop [] s = None"
| "child_loop (Inl e # r) s = None"
| "child_loop (Inr (_, ev) # r) s =
     (if ev = EvEof then None
      else (case child_step ev s of Inl b \<Rightarrow> Some b | Inr s' \<Rightarrow> child_loop r s'))"

definition extract_body_child :: "tokenizer \<Rightarrow> bytes \<Rightarrow> bytes option" where
  "extract_body_child tok envelope =
     child_loop (tok False envelope)
       \<lparr>ch_in_body = False, ch_collecting = False, ch_depth = 0, ch_out = []\<rparr>"

end
