(* ===== verification/Effects.thy ===== *)
theory Effects
  imports Prelude
begin

text \<open>
  Functions of the harness that act on the outside (files, HTTP, processes) and may return
  early: they take the world and give a result together with the world they leave, also when
  they fail. \<open>confined\<close> is the shared way to prove what a sequence of such
  steps preserves.
\<close>

type_synonym ('w, 'e, 'a) act = "'w \<Rightarrow> ('e + 'a) \<times> 'w"

definition act_return :: "'a \<Rightarrow> ('w, 'e, 'a) act" where
  "act_return x = (\<lambda>w. (Inr x, w))"

definition act_fail :: "'e \<Rightarrow> ('w, 'e, 'a) act" where
  "act_fail e = (\<lambda>w. (Inl e, w))"

text \<open>The \<open>?\<close> operator, or a \<open>match\<close> whose error arm returns.\<close>

definition act_bind :: "('w, 'e, 'a) act \<Rightarrow> ('a \<Rightarrow> ('w, 'e, 'b) act) \<Rightarrow> ('w, 'e, 'b) act" where
  "act_bind m f = (\<lambda>w. case m w of (Inl e, w') \<Rightarrow> (Inl e, w') | (Inr x, w') \<Rightarrow> f x w')"

definition act_lift :: "'e + 'a \<Rightarrow> ('w, 'e, 'a) act" where
  "act_lift r = (\<lambda>w. (r, w))"

definition act_map_err :: "('e \<Rightarrow> 'f) \<Rightarrow> ('w, 'e, 'a) act \<Rightarrow> ('w, 'f, 'a) act" where
  "act_map_err g m = (\<lambda>w. case m w of (r, w') \<Rightarrow> (map_err g r, w'))"

text \<open>A read of the world.\<close>

definition act_read :: "('w \<Rightarrow> 'e + 'a) \<Rightarrow> ('w, 'e, 'a) act" where
  "act_read q = (\<lambda>w. (q w, w))"

text \<open>A step whose error is only logged.\<close>

definition act_log_err :: "('w, 'e, 'a) act \<Rightarrow> ('w, 'f, unit) act" where
  "act_log_err m = (\<lambda>w. (Inr (), snd (m w)))"

lemma act_bind_simps [simp]:
  "act_bind (act_return x) f = f x"
  "act_bind (act_fail e) f = act_fail e"
  "act_bind (act_bind m f) g = act_bind m (\<lambda>x. act_bind (f x) g)"
  by (auto simp: act_bind_def act_return_def act_fail_def fun_eq_iff split: sum.splits prod.splits)

lemma act_bind_Inr_iff:
  "act_bind m f w = (Inr y, w') \<longleftrightarrow> (\<exists>x u. m w = (Inr x, u) \<and> f x u = (Inr y, w'))"
  by (auto simp: act_bind_def split: sum.splits prod.splits)

lemma act_bind_Inl_iff:
  "act_bind m f w = (Inl e, w') \<longleftrightarrow> m w = (Inl e, w') \<or> (\<exists>x u. m w = (Inr x, u) \<and> f x u = (Inl e, w'))"
  by (auto simp: act_bind_def split: sum.splits prod.splits)

lemma act_basic_iff [simp]:
  "act_return x w = (r, w') \<longleftrightarrow> r = Inr x \<and> w' = w"
  "act_fail e w = (r, w') \<longleftrightarrow> r = Inl e \<and> w' = w"
  "act_lift q w = (r, w') \<longleftrightarrow> r = q \<and> w' = w"
  "act_read g w = (r, w') \<longleftrightarrow> r = g w \<and> w' = w"
  "act_log_err m w = (r', w') \<longleftrightarrow> r' = Inr () \<and> w' = snd (m w)"
  by (auto simp: act_return_def act_fail_def act_lift_def act_read_def act_log_err_def)

lemma act_map_err_iff:
  "act_map_err g m w = (Inr x, w') \<longleftrightarrow> m w = (Inr x, w')"
  "act_map_err g m w = (Inl e, w') \<longleftrightarrow> (\<exists>e'. m w = (Inl e', w') \<and> e = g e')"
  by (cases "m w"; cases "fst (m w)"; auto simp: act_map_err_def)+

section \<open>What a sequence of steps keeps\<close>

named_theorems confined_intros "rules that a composed action respects a relation"

text \<open>The world before and after are related, however the action ends.\<close>

definition confined :: "('w \<Rightarrow> 'w \<Rightarrow> bool) \<Rightarrow> ('w, 'e, 'a) act \<Rightarrow> bool" where
  "confined R m \<longleftrightarrow> (\<forall>w. R w (snd (m w)))"

lemma confined_basic [confined_intros]:
  "reflp R \<Longrightarrow> confined R (act_return x)"
  "reflp R \<Longrightarrow> confined R (act_fail e)"
  "reflp R \<Longrightarrow> confined R (act_lift r)"
  "reflp R \<Longrightarrow> confined R (act_read q)"
  by (simp_all add: confined_def act_return_def act_fail_def act_lift_def act_read_def reflpD)

lemma confined_bind [confined_intros]:
  assumes "transp R" and "confined R m" and "\<And>x. confined R (f x)"
  shows "confined R (act_bind m f)"
  unfolding confined_def
proof
  fix w
  obtain r u where mw: "m w = (r, u)" by force
  then have "R w u" using assms(2) by (metis confined_def snd_conv)
  then show "R w (snd (act_bind m f w))"
    using assms(1,3) by (cases r) (auto simp: act_bind_def mw confined_def dest: transpD)
qed

lemma confined_map_err [confined_intros]: "confined R m \<Longrightarrow> confined R (act_map_err g m)"
  by (simp add: confined_def act_map_err_def split_beta)

lemma confined_log_err [confined_intros]: "confined R m \<Longrightarrow> confined R (act_log_err m)"
  by (simp add: confined_def act_log_err_def)

lemma confined_if [confined_intros]: "confined R m \<Longrightarrow> confined R n \<Longrightarrow> confined R (if b then m else n)"
  by simp

lemma confined_option [confined_intros]:
  "confined R m \<Longrightarrow> (\<And>x. confined R (f x)) \<Longrightarrow> confined R (case z of None \<Rightarrow> m | Some x \<Rightarrow> f x)"
  by (cases z) simp_all

lemma confined_sum [confined_intros]:
  "(\<And>x. confined R (f x)) \<Longrightarrow> (\<And>x. confined R (g x)) \<Longrightarrow> confined R (case z of Inl x \<Rightarrow> f x | Inr x \<Rightarrow> g x)"
  by (cases z) simp_all

lemma confined_prod [confined_intros]:
  "(\<And>x y. confined R (f x y)) \<Longrightarrow> confined R (case z of (x, y) \<Rightarrow> f x y)"
  by (cases z) simp

lemma confinedD: "confined R m \<Longrightarrow> m w = (r, w') \<Longrightarrow> R w w'"
  by (metis confined_def snd_conv)

end
