(* ===== verification/Snapshot.thy ===== *)
theory Snapshot
  imports RustStr Effects "HOL-Library.Char_ord" "HOL-Library.List_Lexorder"
begin

text \<open>
  The golden snapshots of the harness and their promotion (\<open>crossref/src/snapshot.rs\<close>,
  \<open>crossref/src/layer2/promote.rs\<close>) over the part of \<open>std::fs\<close> they use: files and directories
  named by paths, where the environment may refuse a write. The \<open>toml\<close> crate is a parameter.
\<close>

section \<open>Files\<close>

record fs =
  fs_files :: "string \<Rightarrow> bytes option"
  fs_dirs :: "string set"
  fs_refuses :: "string \<Rightarrow> string option"

definition io_not_found :: string where
  "io_not_found = ''No such file or directory (os error 2)''"

text \<open>\<open>Path::join\<close>: an absolute path replaces, any other is appended.\<close>

definition join_path :: "string \<Rightarrow> string \<Rightarrow> string" where
  "join_path d n = (if starts_with ''/'' n then n else d @ ''/'' @ n)"

definition parent_dir :: "string \<Rightarrow> string" where
  "parent_dir p = rev (drop 1 (dropWhile (\<lambda>c. c \<noteq> CHR ''/'') (rev p)))"

definition fs_read :: "fs \<Rightarrow> string \<Rightarrow> string + bytes" where
  "fs_read f p = ok_or io_not_found (fs_files f p)"

definition fs_read_to_string :: "fs \<Rightarrow> string \<Rightarrow> string + string" where
  "fs_read_to_string f p =
     res_bind (fs_read f p) (\<lambda>b. ok_or ''stream did not contain valid UTF-8'' (from_utf8 b))"

definition fs_write :: "string \<Rightarrow> bytes \<Rightarrow> (fs, string, unit) act" where
  "fs_write p b = (\<lambda>f.
     (case fs_refuses f p of
        Some e \<Rightarrow> (Inl e, f)
      | None \<Rightarrow> if parent_dir p \<in> fs_dirs f then (Inr (), f\<lparr>fs_files := (fs_files f)(p \<mapsto> b)\<rparr>)
                else (Inl io_not_found, f)))"

text \<open>A directory and the ones above it.\<close>

definition with_ancestors :: "string \<Rightarrow> string list" where
  "with_ancestors d = d # map (\<lambda>i. take i d) (filter (\<lambda>i. d ! i = CHR ''/'') [0..<length d])"

definition fs_create_dir_all :: "string \<Rightarrow> (fs, string, unit) act" where
  "fs_create_dir_all d = (\<lambda>f.
     (case fs_refuses f d of
        Some e \<Rightarrow> (Inl e, f)
      | None \<Rightarrow> (Inr (), f\<lparr>fs_dirs := set (with_ancestors d) \<union> fs_dirs f\<rparr>)))"

section \<open>Ordered maps\<close>

text \<open>A \<open>BTreeMap\<close> is the list of its entries in the order of the keys.\<close>

type_synonym btree_map = "(string \<times> string) list"

definition bt_get :: "btree_map \<Rightarrow> string \<Rightarrow> string option" where
  "bt_get m k = map_of m k"

definition bt_insert :: "string \<Rightarrow> string \<Rightarrow> btree_map \<Rightarrow> btree_map" where
  "bt_insert k v m = insort_key fst (k, v) (AList.delete k m)"

lemma map_of_insort:
  "k \<notin> fst ` set m \<Longrightarrow> map_of (insort_key fst (k, v) m) k' = (if k' = k then Some v else map_of m k')"
  by (induction m) auto

interpretation bt: map_store bt_get bt_insert
proof unfold_locales
  fix k k' v m
  show "bt_get (bt_insert k v m) k' = (if k' = k then Some v else bt_get m k')"
    using map_of_insort [of k "AList.delete k m" v k'] delete_notin_dom [of k m]
    by (simp add: bt_get_def bt_insert_def delete_conv')
qed

section \<open>The store\<close>

datatype status = Unverified | Verified

fun status_as_str :: "status \<Rightarrow> string" where
  "status_as_str Unverified = ''unverified''"
| "status_as_str Verified = ''verified''"

definition status_parse :: "string \<Rightarrow> status option" where
  "status_parse s =
     (if s = ''unverified'' then Some Unverified else if s = ''verified'' then Some Verified else None)"

text \<open>The \<open>toml\<close> crate: reading and printing a table of strings.\<close>

record toml_lib =
  from_toml :: "string \<Rightarrow> string + btree_map"
  to_toml :: "btree_map \<Rightarrow> string + string"

record snapshot_store =
  ss_dir :: string

definition snap_path :: "snapshot_store \<Rightarrow> string \<Rightarrow> string" where
  "snap_path st name = join_path (ss_dir st) (name @ ''.xml'')"

definition status_path :: "snapshot_store \<Rightarrow> string" where
  "status_path st = join_path (ss_dir st) ''status.toml''"

definition canonical_path :: "snapshot_store \<Rightarrow> string \<Rightarrow> string" where
  "canonical_path st name = join_path (join_path (ss_dir st) ''canonical'') (name @ ''.c14n'')"

definition load_status_map :: "toml_lib \<Rightarrow> snapshot_store \<Rightarrow> fs \<Rightarrow> btree_map" where
  "load_status_map lib st f =
     (case fs_read_to_string f (status_path st) of
        Inr s \<Rightarrow> (case from_toml lib s of Inr m \<Rightarrow> m | Inl _ \<Rightarrow> [])
      | Inl _ \<Rightarrow> [])"

definition save_status_map :: "toml_lib \<Rightarrow> snapshot_store \<Rightarrow> btree_map \<Rightarrow> (fs, string, unit) act" where
  "save_status_map lib st m =
     act_bind (act_lift (to_toml lib m)) (\<lambda>s. fs_write (status_path st) s)"

definition read_snapshot :: "snapshot_store \<Rightarrow> string \<Rightarrow> fs \<Rightarrow> string option" where
  "read_snapshot st name f =
     (case fs_read_to_string f (snap_path st name) of Inr s \<Rightarrow> Some s | Inl _ \<Rightarrow> None)"

definition snapshot_status :: "toml_lib \<Rightarrow> snapshot_store \<Rightarrow> string \<Rightarrow> fs \<Rightarrow> status option" where
  "snapshot_status lib st name f =
     (case bt_get (load_status_map lib st f) name of Some s \<Rightarrow> status_parse s | None \<Rightarrow> None)"

definition set_status :: "toml_lib \<Rightarrow> snapshot_store \<Rightarrow> string \<Rightarrow> status \<Rightarrow> (fs, string, unit) act" where
  "set_status lib st name x =
     act_bind (act_read (\<lambda>f. Inr (load_status_map lib st f))) (\<lambda>m.
       save_status_map lib st (bt_insert name (status_as_str x) m))"

definition write_unverified :: "toml_lib \<Rightarrow> snapshot_store \<Rightarrow> string \<Rightarrow> string \<Rightarrow> (fs, string, unit) act" where
  "write_unverified lib st name normalized =
     act_bind (fs_create_dir_all (ss_dir st)) (\<lambda>_.
     act_bind (fs_write (snap_path st name) normalized) (\<lambda>_.
     set_status lib st name Unverified))"

definition unverified_count :: "toml_lib \<Rightarrow> snapshot_store \<Rightarrow> fs \<Rightarrow> string + nat" where
  "unverified_count lib st f =
     Inr (length (filter (\<lambda>(_, v). v = status_as_str Unverified) (load_status_map lib st f)))"

definition write_verified :: "toml_lib \<Rightarrow> snapshot_store \<Rightarrow> string \<Rightarrow> (fs, string, unit) act" where
  "write_verified lib st name = set_status lib st name Verified"

definition write_canonical :: "snapshot_store \<Rightarrow> string \<Rightarrow> bytes \<Rightarrow> (fs, string, unit) act" where
  "write_canonical st name b =
     act_bind (fs_create_dir_all (join_path (ss_dir st) ''canonical'')) (\<lambda>_.
     fs_write (canonical_path st name) b)"

definition read_canonical :: "snapshot_store \<Rightarrow> string \<Rightarrow> fs \<Rightarrow> bytes option" where
  "read_canonical st name f =
     (case fs_read f (canonical_path st name) of Inr b \<Rightarrow> Some b | Inl _ \<Rightarrow> None)"

definition promote :: "toml_lib \<Rightarrow> snapshot_store \<Rightarrow> string \<Rightarrow> bytes \<Rightarrow> (fs, string, unit) act" where
  "promote lib st name canonical =
     act_bind (write_canonical st name canonical) (\<lambda>_. write_verified lib st name)"
section \<open>Where the files are\<close>

definition relative :: "string \<Rightarrow> bool" where
  "relative n \<longleftrightarrow> \<not> starts_with ''/'' n"

lemma join_path_suffix: "\<exists>u. join_path d (n @ e) = u @ e"
  by (cases "starts_with ''/'' (n @ e)") (auto simp: join_path_def intro: exI [of _ "d @ ''/'' @ n"])

lemma paths_distinct [simp]:
  "snap_path st n \<noteq> status_path st" "canonical_path st n \<noteq> status_path st"
  "canonical_path st n \<noteq> snap_path st n'" "snap_path st n' \<noteq> canonical_path st n"
proof -
  obtain u where u: "snap_path st n = u @ ''.xml''" unfolding snap_path_def using join_path_suffix by blast
  obtain u' where u': "snap_path st n' = u' @ ''.xml''" unfolding snap_path_def using join_path_suffix by blast
  obtain v where v: "canonical_path st n = v @ ''.c14n''" unfolding canonical_path_def using join_path_suffix by blast
  have t: "status_path st = (ss_dir st @ ''/status'') @ ''.toml''"
    by (simp add: status_path_def join_path_def starts_with_def)
  have differ: "a @ x \<noteq> b @ y" if "take 3 (rev x) \<noteq> take 3 (rev y)" "3 \<le> length x" "3 \<le> length y" for a b x y :: string
  proof
    assume "a @ x = b @ y"
    then have "take 3 (rev (a @ x)) = take 3 (rev (b @ y))" by simp
    with that show False by simp
  qed
  show "snap_path st n \<noteq> status_path st" unfolding u t by (rule differ) simp_all
  show "canonical_path st n \<noteq> status_path st" unfolding v t by (rule differ) simp_all
  show "canonical_path st n \<noteq> snap_path st n'" unfolding v u' by (rule differ) simp_all
  then show "snap_path st n' \<noteq> canonical_path st n" by simp
qed

lemma starts_with_slash_append: "relative n \<Longrightarrow> e \<noteq> [] \<Longrightarrow> hd e \<noteq> CHR ''/'' \<Longrightarrow> \<not> starts_with ''/'' (n @ e)"
  by (cases n; cases e) (auto simp: relative_def starts_with_def)

lemma paths_inj:
  "relative n \<Longrightarrow> relative n' \<Longrightarrow> snap_path st n = snap_path st n' \<longleftrightarrow> n = n'"
  "relative n \<Longrightarrow> relative n' \<Longrightarrow> canonical_path st n = canonical_path st n' \<longleftrightarrow> n = n'"
  using starts_with_slash_append
  by (simp_all add: snap_path_def canonical_path_def join_path_def)

section \<open>The abstract store\<close>

text \<open>What the files stand for: three tables by scenario name.\<close>

record abstract_store =
  as_snapshot :: "string \<Rightarrow> string option"
  as_status :: "string \<Rightarrow> status option"
  as_evidence :: "string \<Rightarrow> bytes option"

definition abstract_of :: "toml_lib \<Rightarrow> snapshot_store \<Rightarrow> fs \<Rightarrow> abstract_store" where
  "abstract_of lib st f =
     \<lparr>as_snapshot = (\<lambda>n. if relative n then read_snapshot st n f else None),
      as_status = (\<lambda>n. if relative n then snapshot_status lib st n f else None),
      as_evidence = (\<lambda>n. if relative n then read_canonical st n f else None)\<rparr>"

definition abs_promote :: "string \<Rightarrow> bytes \<Rightarrow> abstract_store \<Rightarrow> abstract_store" where
  "abs_promote n b a =
     a\<lparr>as_status := (as_status a)(n \<mapsto> Verified), as_evidence := (as_evidence a)(n \<mapsto> b)\<rparr>"

definition abs_capture :: "string \<Rightarrow> string \<Rightarrow> abstract_store \<Rightarrow> abstract_store" where
  "abs_capture n s a =
     a\<lparr>as_snapshot := (as_snapshot a)(n \<mapsto> s), as_status := (as_status a)(n \<mapsto> Unverified)\<rparr>"

text \<open>
  The documented behaviour of the \<open>toml\<close> crate on a \<open>BTreeMap\<close>: what is read is sorted with
  distinct keys, and printing and reading such a map gives it back.
\<close>

definition bt_wf :: "btree_map \<Rightarrow> bool" where
  "bt_wf m \<longleftrightarrow> sorted (map fst m) \<and> distinct (map fst m)"

definition toml_ok :: "toml_lib \<Rightarrow> bool" where
  "toml_ok lib \<longleftrightarrow>
     (\<forall>s m. from_toml lib s = Inr m \<longrightarrow> bt_wf m) \<and>
     (\<forall>m s. bt_wf m \<longrightarrow> to_toml lib m = Inr s \<longrightarrow> utf8_valid s \<and> from_toml lib s = Inr m)"

lemma bt_wf_insert: "bt_wf m \<Longrightarrow> bt_wf (bt_insert k v m)"
proof -
  assume m: "bt_wf m"
  have "map fst (AList.delete k m) = filter (\<lambda>x. x \<noteq> k) (map fst m)"
    by (induction m) (auto simp: AList.delete_eq)
  with m have "sorted (map fst (AList.delete k m))" "distinct (map fst (AList.delete k m))"
    by (auto simp: bt_wf_def intro: sorted_wrt_filter)
  moreover have "map fst (insort_key fst (k, v) xs) = insort k (map fst xs)" for xs
    by (induction xs) auto
  ultimately show ?thesis
    using delete_notin_dom [of k m] by (simp add: bt_wf_def bt_insert_def sorted_insort distinct_insort)
qed

lemma load_status_map_wf: "toml_ok lib \<Longrightarrow> bt_wf (load_status_map lib st f)"
proof -
  assume ok: "toml_ok lib"
  have "bt_wf m" if "from_toml lib s = Inr m" for s m using ok that unfolding toml_ok_def by blast
  moreover have "bt_wf []" by (simp add: bt_wf_def)
  ultimately show ?thesis by (auto simp: load_status_map_def split: sum.split)
qed

lemma load_status_map_frame:
  "p \<noteq> status_path st \<Longrightarrow>
   load_status_map lib st (f\<lparr>fs_files := (fs_files f)(p \<mapsto> b)\<rparr>) = load_status_map lib st f"
  "load_status_map lib st (f\<lparr>fs_dirs := ds\<rparr>) = load_status_map lib st f"
  by (simp_all add: load_status_map_def fs_read_to_string_def fs_read_def)

lemma set_status_cases:
  assumes "toml_ok lib" and "set_status lib st name x f = (r, f')"
  shows "(\<exists>e. r = Inl e) \<and> f' = f \<or>
    r = Inr () \<and> load_status_map lib st f' = bt_insert name (status_as_str x) (load_status_map lib st f) \<and>
    (\<exists>s. f' = f\<lparr>fs_files := (fs_files f)(status_path st \<mapsto> s)\<rparr>)"
proof -
  let ?m = "bt_insert name (status_as_str x) (load_status_map lib st f)"
  have act: "set_status lib st name x f =
      act_bind (act_lift (to_toml lib ?m)) (\<lambda>s. fs_write (status_path st) s) f"
    by (simp add: set_status_def save_status_map_def act_bind_def act_read_def)
  show ?thesis
  proof (cases "to_toml lib ?m")
    case (Inl e)
    then show ?thesis using assms(2) by (auto simp: act act_bind_def act_lift_def)
  next
    case (Inr s)
    have s: "utf8_valid s" "from_toml lib s = Inr ?m"
      using assms(1) Inr bt_wf_insert [OF load_status_map_wf [OF assms(1)]] unfolding toml_ok_def by blast+
    then have "load_status_map lib st (f\<lparr>fs_files := (fs_files f)(status_path st \<mapsto> s)\<rparr>) = ?m"
      by (simp add: load_status_map_def fs_read_to_string_def fs_read_def from_utf8_def)
    then show ?thesis
      using assms(2) Inr by (auto simp: act act_bind_def act_lift_def fs_write_def split: option.splits if_splits)
  qed
qed

lemma status_after_insert:
  "load_status_map lib st f' = bt_insert name (status_as_str x) (load_status_map lib st f) \<Longrightarrow>
   snapshot_status lib st n f' = (if n = name then Some x else snapshot_status lib st n f)"
  by (cases x) (simp_all add: snapshot_status_def bt.get_put status_parse_def)

lemma fs_write_cases:
  "fs_write p b f = (r, f') \<Longrightarrow>
   (\<exists>e. r = Inl e) \<and> f' = f \<or> r = Inr () \<and> f' = f\<lparr>fs_files := (fs_files f)(p \<mapsto> b)\<rparr>"
  by (auto simp: fs_write_def split: option.splits if_splits)

lemma fs_create_dir_all_cases:
  "fs_create_dir_all d f = (r, f') \<Longrightarrow> (\<exists>e. r = Inl e) \<and> f' = f \<or> r = Inr () \<and> (\<exists>ds. f' = f\<lparr>fs_dirs := ds\<rparr>)"
  by (auto simp: fs_create_dir_all_def split: option.splits)

lemma abstract_of_dirs [simp]: "abstract_of lib st (f\<lparr>fs_dirs := ds\<rparr>) = abstract_of lib st f"
  by (auto simp: abstract_of_def read_snapshot_def snapshot_status_def read_canonical_def load_status_map_frame
      fs_read_to_string_def fs_read_def fun_eq_iff)

lemma abstract_of_canonical:
  "relative name \<Longrightarrow>
   abstract_of lib st (f\<lparr>fs_files := (fs_files f)(canonical_path st name \<mapsto> b)\<rparr>) =
     (abstract_of lib st f)\<lparr>as_evidence := (as_evidence (abstract_of lib st f))(name \<mapsto> b)\<rparr>"
  using paths_distinct(4)
  by (auto simp: abstract_of_def read_snapshot_def snapshot_status_def read_canonical_def load_status_map_frame
      fs_read_to_string_def fs_read_def fun_eq_iff paths_inj)

lemma abstract_of_snapshot:
  "relative name \<Longrightarrow> utf8_valid s \<Longrightarrow>
   abstract_of lib st (f\<lparr>fs_files := (fs_files f)(snap_path st name \<mapsto> s)\<rparr>) =
     (abstract_of lib st f)\<lparr>as_snapshot := (as_snapshot (abstract_of lib st f))(name \<mapsto> s)\<rparr>"
  using paths_distinct(3)
  by (auto simp: abstract_of_def read_snapshot_def snapshot_status_def read_canonical_def load_status_map_frame
      fs_read_to_string_def fs_read_def fun_eq_iff paths_inj from_utf8_def)

lemma abstract_of_set_status:
  assumes "toml_ok lib" and "relative name" and "set_status lib st name x f = (r, f')"
  shows "(\<exists>e. r = Inl e) \<and> f' = f \<or>
    r = Inr () \<and> abstract_of lib st f' =
      (abstract_of lib st f)\<lparr>as_status := (as_status (abstract_of lib st f))(name \<mapsto> x)\<rparr>"
proof -
  have "abstract_of lib st f' = (abstract_of lib st f)\<lparr>as_status := (as_status (abstract_of lib st f))(name \<mapsto> x)\<rparr>"
    if "load_status_map lib st f' = bt_insert name (status_as_str x) (load_status_map lib st f)"
      and "f' = f\<lparr>fs_files := (fs_files f)(status_path st \<mapsto> s)\<rparr>" for s
    using that(2) assms(2) status_after_insert [OF that(1)]
    by (auto simp: abstract_of_def read_snapshot_def read_canonical_def fs_read_to_string_def fs_read_def fun_eq_iff)
  with set_status_cases [OF assms(1,3)] show ?thesis by blast
qed

lemma write_canonical_abs:
  assumes "relative name" and "write_canonical st name b f = (r, f')"
  shows "abstract_of lib st f' = abstract_of lib st f \<and> (\<exists>e. r = Inl e) \<or>
    r = Inr () \<and> abstract_of lib st f' =
      (abstract_of lib st f)\<lparr>as_evidence := (as_evidence (abstract_of lib st f))(name \<mapsto> b)\<rparr>"
proof -
  obtain r1 f1 where dir: "fs_create_dir_all (join_path (ss_dir st) ''canonical'') f = (r1, f1)" by force
  have abs1: "abstract_of lib st f1 = abstract_of lib st f"
    using fs_create_dir_all_cases [OF dir] by auto
  show ?thesis
  proof (cases r1)
    case (Inl e)
    then show ?thesis using assms(2) abs1 by (auto simp: write_canonical_def act_bind_def dir)
  next
    case (Inr u)
    then have "fs_write (canonical_path st name) b f1 = (r, f')"
      using assms(2) by (simp add: write_canonical_def act_bind_def dir)
    from fs_write_cases [OF this] show ?thesis
      using abs1 abstract_of_canonical [OF assms(1), of lib st f1 b] by auto
  qed
qed

lemma promote_abs:
  assumes "toml_ok lib" and "relative name" and "promote lib st name b f = (r, f')"
  shows "abstract_of lib st f' = abstract_of lib st f \<and> (\<exists>e. r = Inl e) \<or>
    abstract_of lib st f' =
      (abstract_of lib st f)\<lparr>as_evidence := (as_evidence (abstract_of lib st f))(name \<mapsto> b)\<rparr> \<and> (\<exists>e. r = Inl e) \<or>
    r = Inr () \<and> abstract_of lib st f' = abs_promote name b (abstract_of lib st f)"
proof -
  obtain r1 f1 where w: "write_canonical st name b f = (r1, f1)" by force
  show ?thesis
  proof (cases r1)
    case (Inl e)
    then have "r = Inl e" "f' = f1" using assms(3) by (auto simp: promote_def act_bind_def w)
    with write_canonical_abs [OF assms(2) w, of lib] Inl show ?thesis by auto
  next
    case (Inr u)
    then have "set_status lib st name Verified f1 = (r, f')"
      using assms(3) by (simp add: promote_def act_bind_def w write_verified_def)
    from abstract_of_set_status [OF assms(1,2) this] write_canonical_abs [OF assms(2) w, of lib] Inr
    show ?thesis by (auto simp: abs_promote_def)
  qed
qed

lemma write_unverified_abs:
  assumes "toml_ok lib" and "relative name" and "utf8_valid s" and "write_unverified lib st name s f = (r, f')"
  shows "abstract_of lib st f' = abstract_of lib st f \<and> (\<exists>e. r = Inl e) \<or>
    abstract_of lib st f' =
      (abstract_of lib st f)\<lparr>as_snapshot := (as_snapshot (abstract_of lib st f))(name \<mapsto> s)\<rparr> \<and> (\<exists>e. r = Inl e) \<or>
    r = Inr () \<and> abstract_of lib st f' = abs_capture name s (abstract_of lib st f)"
proof -
  obtain r1 f1 where dir: "fs_create_dir_all (ss_dir st) f = (r1, f1)" by force
  obtain r2 f2 where w: "fs_write (snap_path st name) s f1 = (r2, f2)" by force
  have abs1: "abstract_of lib st f1 = abstract_of lib st f"
    using fs_create_dir_all_cases [OF dir] by auto
  show ?thesis
  proof (cases "r1 = Inr () \<and> r2 = Inr ()")
    case True
    then have "set_status lib st name Unverified f2 = (r, f')"
      using assms(4) by (simp add: write_unverified_def act_bind_def dir w)
    from abstract_of_set_status [OF assms(1,2) this] fs_write_cases [OF w] True abs1
      abstract_of_snapshot [OF assms(2,3), of lib st f1]
    show ?thesis by (auto simp: abs_capture_def)
  next
    case False
    then show ?thesis
      using assms(4) abs1 fs_write_cases [OF w]
      by (cases r1; cases r2) (auto simp: write_unverified_def act_bind_def dir w)
  qed
qed

section \<open>Properties\<close>

text \<open>Every scenario whose status is verified has its evidence.\<close>

definition evidence_backed :: "toml_lib \<Rightarrow> snapshot_store \<Rightarrow> fs \<Rightarrow> bool" where
  "evidence_backed lib st f \<longleftrightarrow>
     (\<forall>n. as_status (abstract_of lib st f) n = Some Verified \<longrightarrow> as_evidence (abstract_of lib st f) n \<noteq> None)"

text \<open>A \<open>toml\<close> crate for the witnesses: it knows tables of one scenario with a simple name.\<close>

definition one_table_toml :: toml_lib where
  "one_table_toml =
     \<lparr>from_toml = (\<lambda>s. case split_once CHR ''='' s of Some (k, v) \<Rightarrow> Inr [(k, v)] | None \<Rightarrow> Inl ''bad table''),
      to_toml = (\<lambda>m. case m of
                   [(k, v)] \<Rightarrow> if CHR ''='' \<notin> set k \<and> is_ascii k \<and> is_ascii v then Inr (k @ CHR ''='' # v) else Inl ''no''
                 | _ \<Rightarrow> Inl ''no'')\<rparr>"

lemma one_table_toml_ok: "toml_ok one_table_toml"
proof -
  have "utf8_valid (k @ CHR ''='' # v)" if "is_ascii k" "is_ascii v" for k v
    using that by (intro utf8_valid_ascii) (simp add: is_ascii_def byte_def)
  then show ?thesis
    by (auto simp: toml_ok_def one_table_toml_def bt_wf_def split: list.splits option.splits if_splits)
qed

definition empty_fs :: fs where
  "empty_fs = \<lparr>fs_files = (\<lambda>_. None), fs_dirs = {''s''}, fs_refuses = (\<lambda>_. None)\<rparr>"

lemmas store_eval = promote_def write_canonical_def write_verified_def set_status_def save_status_map_def
  write_unverified_def act_bind_def act_lift_def act_read_def fs_create_dir_all_def fs_write_def
  load_status_map_def fs_read_to_string_def fs_read_def canonical_path_def status_path_def snap_path_def
  join_path_def starts_with_def parent_dir_def with_ancestors_def bt_insert_def one_table_toml_def empty_fs_def

text \<open>
  C31. The files implement three tables: a promotion that succeeds sets the evidence and the
  status of its scenario, and a capture that succeeds sets its snapshot and makes it unverified
  again; every other entry of the three tables is as before. In particular a promotion leaves
  all Layer-1 snapshots alone.
\<close>

theorem store_implements_tables:
  assumes "toml_ok lib" and "relative name"
  shows "(promote lib st name b f = (Inr (), f') \<longrightarrow>
      abstract_of lib st f' = abs_promote name b (abstract_of lib st f)) \<and>
    (utf8_valid s \<longrightarrow> write_unverified lib st name s f = (Inr (), f') \<longrightarrow>
      abstract_of lib st f' = abs_capture name s (abstract_of lib st f))"
  using promote_abs [OF assms, of st b f "Inr ()" f'] write_unverified_abs [OF assms, of s st f "Inr ()" f'] by auto

lemma store_implements_tables_witness:
  "as_status (abstract_of one_table_toml \<lparr>ss_dir = ''s''\<rparr>
      (snd (promote one_table_toml \<lparr>ss_dir = ''s''\<rparr> ''n'' ''<c/>'' empty_fs))) ''n'' = Some Verified"
proof -
  let ?st = "\<lparr>ss_dir = ''s''\<rparr>"
  obtain f' where f': "promote one_table_toml ?st ''n'' ''<c/>'' empty_fs = (Inr (), f')"
    by (simp add: store_eval upt_rec is_ascii_def byte_def)
  have "relative ''n''" by (simp add: relative_def starts_with_def)
  from store_implements_tables [OF one_table_toml_ok this, of ?st "''<c/>''" empty_fs f' "[]"] f'
  show ?thesis by (simp add: abs_promote_def)
qed

text \<open>
  C32. What is verified has evidence: if every scenario with status verified has its canonical
  bytes on disk, that stays so whatever a promotion or a capture does, also when it fails half
  way; a status is never flipped before its evidence is written.
\<close>

theorem verified_has_evidence:
  assumes "toml_ok lib" and "relative name" and "utf8_valid s" and "evidence_backed lib st f"
  shows "evidence_backed lib st (snd (promote lib st name b f)) \<and>
    evidence_backed lib st (snd (write_unverified lib st name s f))"
proof -
  obtain r f1 where p: "promote lib st name b f = (r, f1)" by force
  obtain r' f2 where w: "write_unverified lib st name s f = (r', f2)" by force
  have "evidence_backed lib st f1"
    using promote_abs [OF assms(1,2) p] assms(4)
    by (auto simp: evidence_backed_def abs_promote_def)
  moreover have "evidence_backed lib st f2"
    using write_unverified_abs [OF assms(1-3) w] assms(4)
    by (auto simp: evidence_backed_def abs_capture_def split: if_splits)
  ultimately show ?thesis by (simp add: p w)
qed

text \<open>A promotion that cannot write the status table: the evidence is there, the status is not.\<close>

lemma verified_has_evidence_witness:
  "evidence_backed one_table_toml \<lparr>ss_dir = ''s''\<rparr>
     (snd (promote one_table_toml \<lparr>ss_dir = ''s''\<rparr> ''m'' ''<c/>'' empty_fs))"
proof (rule verified_has_evidence [OF one_table_toml_ok, THEN conjunct1])
  show "relative ''m''" by (simp add: relative_def starts_with_def)
  show "utf8_valid []" by simp
  show "evidence_backed one_table_toml \<lparr>ss_dir = ''s''\<rparr> empty_fs"
    by (simp add: evidence_backed_def abstract_of_def snapshot_status_def store_eval bt_get_def)
qed

end
