(* ===== verification/Layer2.thy ===== *)
theory Layer2
  imports HarnessChecks Snapshot
begin

text \<open>
  The conformance run of the harness (\<open>crossref/src/layer2/mod.rs\<close>, \<open>crossref/src/oracle.rs\<close>):
  every scenario is sent to our server and to the reference, judged by the XML oracle, compared
  and, when it passes, promoted. The world is the file system of \<open>Snapshot\<close> and whatever the
  network is; sending an HTTP request is a parameter, as are TOML, JSON, the readers and writers
  of quick-xml and the debug formats. Lines that only log are left out.
\<close>

section \<open>The world\<close>

record 'n world =
  wd_net :: 'n
  wd_fs :: fs

record http_request =
  rq_method :: string
  rq_url :: string
  rq_content_type :: "string option"
  rq_body :: bytes

record http_response =
  hr_status :: nat
  hr_body :: "string + bytes"

datatype json =
    JNull
  | JBool bool
  | JNumber string
  | JString string
  | JArray "json list"
  | JObject "(string \<times> json) list"

record 'n harness_lib =
  hl_send :: "http_request \<Rightarrow> 'n \<Rightarrow> (string + http_response) \<times> 'n"
  hl_json :: "bytes \<Rightarrow> string + json"
  hl_toml :: toml_lib
  hl_scenario :: "string \<Rightarrow> string + scenario"
  hl_tok :: tokenizer
  hl_ntok :: ns_tokenizer
  hl_write :: "event list \<Rightarrow> bytes"
  hl_attr_err :: string
  hl_lower :: "string \<Rightarrow> string"
  hl_status_text :: "nat \<Rightarrow> string"
  hl_dbg_errors :: "string list \<Rightarrow> string"
  hl_dbg_addresses :: "(string \<times> string) list \<Rightarrow> string"

text \<open>How a scenario function ends early: it returns a verdict, or it panics.\<close>

datatype exit = Return verdict | Panicked

definition on_net :: "('n \<Rightarrow> ('e + 'a) \<times> 'n) \<Rightarrow> ('n world, 'e, 'a) act" where
  "on_net m = (\<lambda>w. case m (wd_net w) of (r, n) \<Rightarrow> (r, w\<lparr>wd_net := n\<rparr>))"

definition on_fs :: "(fs, 'e, 'a) act \<Rightarrow> ('n world, 'e, 'a) act" where
  "on_fs m = (\<lambda>w. case m (wd_fs w) of (r, f) \<Rightarrow> (r, w\<lparr>wd_fs := f\<rparr>))"

text \<open>The error arm of a \<open>match\<close> that returns a harness error with a prefix.\<close>

definition harness :: "string \<Rightarrow> ('n world, string, 'a) act \<Rightarrow> ('n world, exit, 'a) act" where
  "harness prefix m = act_map_err (\<lambda>e. Return (HarnessError (prefix @ e))) m"

definition harness_pure :: "string \<Rightarrow> string + 'a \<Rightarrow> ('n world, exit, 'a) act" where
  "harness_pure prefix r = harness prefix (act_lift r)"

definition return_verdict :: "verdict \<Rightarrow> ('n world, exit, 'a) act" where
  "return_verdict v = act_fail (Return v)"

section \<open>HTTP and the oracle\<close>

definition post_request ::
  "'n harness_lib \<Rightarrow> string \<Rightarrow> bytes \<Rightarrow> string \<Rightarrow> ('n world, string, nat \<times> bytes) act" where
  "post_request lib url body content_type =
     act_bind (on_net (hl_send lib
       \<lparr>rq_method = ''POST'', rq_url = url, rq_content_type = Some content_type, rq_body = body\<rparr>)) (\<lambda>r.
     act_bind (act_lift (hr_body r)) (\<lambda>b. act_return (hr_status r, b)))"

definition get_bytes :: "'n harness_lib \<Rightarrow> string \<Rightarrow> ('n world, string, bytes) act" where
  "get_bytes lib url =
     act_bind (on_net (hl_send lib
       \<lparr>rq_method = ''GET'', rq_url = url, rq_content_type = None, rq_body = []\<rparr>)) (\<lambda>r.
     act_bind (act_lift (hr_body r)) (\<lambda>b.
       if hr_status r \<noteq> 200 then
         act_fail (''GET '' @ url @ '' returned HTTP '' @ nat_to_string (hr_status r) @ '': '' @ from_utf8_lossy b)
       else act_return b))"

record xml_oracle =
  or_base :: string

record validation_result =
  vr_valid :: bool
  vr_errors :: "string list"

definition is_success_status :: "nat \<Rightarrow> bool" where
  "is_success_status s \<longleftrightarrow> 200 \<le> s \<and> s < 300"

definition c14n :: "'n harness_lib \<Rightarrow> xml_oracle \<Rightarrow> bytes \<Rightarrow> ('n world, string, bytes) act" where
  "c14n lib oracle xml =
     act_bind (on_net (hl_send lib
       \<lparr>rq_method = ''POST'', rq_url = or_base oracle @ ''/c14n'', rq_content_type = None, rq_body = xml\<rparr>)) (\<lambda>r.
       if \<not> is_success_status (hr_status r) then
         act_fail (''c14n '' @ hl_status_text lib (hr_status r) @ '': '' @
           (case hr_body r of Inr b \<Rightarrow> from_utf8_lossy b | Inl _ \<Rightarrow> []))
       else act_lift (hr_body r))"

fun json_get :: "string \<Rightarrow> json \<Rightarrow> json option" where
  "json_get k (JObject kvs) = map_of kvs k"
| "json_get k _ = None"

fun json_bool :: "json \<Rightarrow> bool option" where
  "json_bool (JBool b) = Some b"
| "json_bool _ = None"

fun json_string :: "json \<Rightarrow> string option" where
  "json_string (JString s) = Some s"
| "json_string _ = None"

fun json_array :: "json \<Rightarrow> json list option" where
  "json_array (JArray xs) = Some xs"
| "json_array _ = None"

definition validation_of :: "json \<Rightarrow> validation_result" where
  "validation_of v =
     \<lparr>vr_valid = (case Option.bind (json_get ''valid'' v) json_bool of Some b \<Rightarrow> b | None \<Rightarrow> False),
      vr_errors = (case Option.bind (json_get ''errors'' v) json_array of
                     Some xs \<Rightarrow> List.map_filter json_string xs | None \<Rightarrow> [])\<rparr>"

definition oracle_validate ::
  "'n harness_lib \<Rightarrow> xml_oracle \<Rightarrow> bytes \<Rightarrow> string \<Rightarrow> ('n world, string, validation_result) act" where
  "oracle_validate lib oracle xml schema =
     act_bind (on_net (hl_send lib
       \<lparr>rq_method = ''POST'', rq_url = or_base oracle @ ''/validate?schema='' @ schema,
        rq_content_type = None, rq_body = xml\<rparr>)) (\<lambda>r.
     act_bind (act_lift (res_bind (hr_body r) (hl_json lib))) (\<lambda>v. act_return (validation_of v)))"

section \<open>Endpoints and routing\<close>

record endpoints =
  ep_our :: string
  ep_cxf :: string
  ep_oracle :: string

definition localhost_endpoints :: endpoints where
  "localhost_endpoints =
     \<lparr>ep_our = ''http://localhost:8080/soap'', ep_cxf = ''http://localhost:8082/soap'',
      ep_oracle = ''http://localhost:8081''\<rparr>"

definition strip_suffix :: "string \<Rightarrow> string \<Rightarrow> string option" where
  "strip_suffix e s = map_option rev (strip_prefix (rev e) (rev s))"

definition our_base :: "endpoints \<Rightarrow> string" where
  "our_base ep = (case strip_suffix ''/soap'' (ep_our ep) of Some b \<Rightarrow> b | None \<Rightarrow> ep_our ep)"

definition cxf_base :: "endpoints \<Rightarrow> string" where
  "cxf_base ep = (case strip_suffix ''/soap'' (ep_cxf ep) of Some b \<Rightarrow> b | None \<Rightarrow> ep_cxf ep)"

record version_routing =
  vr_our_path :: string
  vr_cxf_url :: string
  vr_envelope_schema :: string

fun routing_for :: "soap_ver \<Rightarrow> endpoints \<Rightarrow> version_routing" where
  "routing_for SoapV11 ep =
     \<lparr>vr_our_path = ''/soap'', vr_cxf_url = cxf_base ep @ ''/soap11'', vr_envelope_schema = ''soap11-envelope''\<rparr>"
| "routing_for SoapV12 ep =
     \<lparr>vr_our_path = ''/soap'', vr_cxf_url = cxf_base ep @ ''/soap'', vr_envelope_schema = ''soap12-envelope''\<rparr>"

definition our_url :: "version_routing \<Rightarrow> endpoints \<Rightarrow> string" where
  "our_url vr ep = our_base ep @ vr_our_path vr"

definition WSSEC_SCENARIOS :: "string list" where
  "WSSEC_SCENARIOS =
     [''wssec_digest_success'', ''wssec_bad_password'', ''wssec_wrong_username'', ''wssec_missing_auth'',
      ''wssec_stale_timestamp'']"

definition WSDL_REWRITE_SCENARIOS :: "string list" where
  "WSDL_REWRITE_SCENARIOS = [''wsdl_rewrite_single'', ''wsdl_rewrite_multi'']"

definition IN_SCOPE :: "string list" where
  "IN_SCOPE =
     [''op_echo_success'', ''op_echo_missing_required'', ''op_echo_empty_text'', ''op_echo_special_chars'',
      ''doc_literal_named_present'', ''doc_literal_named_missing'', ''ns_on_envelope'', ''ns_on_header'',
      ''ns_on_body'', ''ns_on_operation'', ''ns_on_nested_payload'', ''ns_prefix_shadowing'',
      ''soap11_echo_success'', ''soap11_fault'', ''soap11_named_present'',
      ''wssec_digest_success'', ''wssec_bad_password'', ''wssec_wrong_username'', ''wssec_missing_auth'',
      ''wssec_stale_timestamp'', ''wsdl_rewrite_single'', ''wsdl_rewrite_multi'', ''raw_xml_child'']"

section \<open>Scenarios\<close>

definition load_scenario :: "'n harness_lib \<Rightarrow> string \<Rightarrow> string \<Rightarrow> ('n world, exit, scenario) act" where
  "load_scenario lib dir name =
     act_bind (harness (''read '' @ name @ ''.toml: '')
       (act_read (\<lambda>w. fs_read_to_string (wd_fs w) (join_path dir (name @ ''.toml''))))) (\<lambda>s.
     harness_pure (''parse '' @ name @ ''.toml: '') (hl_scenario lib s))"

definition read_request :: "string \<Rightarrow> scenario \<Rightarrow> ('n world, exit, bytes) act" where
  "read_request dir sc =
     harness (''read request '' @ sn_request_file sc @ '': '')
       (act_read (\<lambda>w. fs_read (wd_fs w) (join_path dir (sn_request_file sc))))"

text \<open>Step 5b for one side: the first child of the body against the schema of the service.\<close>

definition validate_body_child ::
  "'n harness_lib \<Rightarrow> xml_oracle \<Rightarrow> scenario \<Rightarrow> string \<Rightarrow> string \<Rightarrow> bytes \<Rightarrow> ('n world, exit, bool \<times> string list) act" where
  "validate_body_child lib oracle sc side response body =
     (if sn_outcome sc = OutcomeSuccess then
        (case extract_body_child (hl_tok lib) body of
           Some child \<Rightarrow>
             act_bind (harness (''oracle validate '' @ side @ '' body child: '')
               (oracle_validate lib oracle child ''controlled'')) (\<lambda>r. act_return (vr_valid r, vr_errors r))
         | None \<Rightarrow> act_return (False, [''no body child element found in '' @ response]))
      else act_return (True, []))"

definition scenario_masks :: "scenario \<Rightarrow> mask_rule list \<times> attr_mask_rule list" where
  "scenario_masks sc =
     (if sn_outcome sc = OutcomeFault then
        (case sn_soap_version sc of
           SoapV12 \<Rightarrow> ([mask_rule_new ''Envelope/Body/Fault/Reason/Text''],
                       [attr_mask_rule_new ''Envelope/Body/Fault/Reason/Text'' ''xml:lang''])
         | SoapV11 \<Rightarrow> ([mask_rule_new ''Envelope/Body/Fault/faultstring''],
                       [attr_mask_rule_new ''Envelope/Body/Fault/faultstring'' ''xml:lang'']))
      else ([], []))"

definition hl_mask_only :: "'n harness_lib \<Rightarrow> bytes \<Rightarrow> mask_rule list \<times> attr_mask_rule list \<Rightarrow> string + bytes" where
  "hl_mask_only lib body masks =
     mask_only (hl_tok lib) (hl_ntok lib) (hl_write lib) (hl_attr_err lib) body (fst masks) (snd masks)"

text \<open>Step 8b.\<close>

definition enforce_fault :: "'n harness_lib \<Rightarrow> string \<Rightarrow> scenario \<Rightarrow> bytes \<Rightarrow> verdict option" where
  "enforce_fault lib name sc body =
     (if sn_outcome sc = OutcomeFault then
        (case sn_fault sc of
           Some fe \<Rightarrow>
             (case enforce_fault_code (hl_tok lib) body (fe_code fe) name (sn_soap_version sc = SoapV11) of
                Some v \<Rightarrow> Some v
              | None \<Rightarrow>
                  (case fe_detail_policy fe of
                     RawXmlChild \<Rightarrow> enforce_raw_xml_child_detail (hl_tok lib) body name
                   | DetailAbsent \<Rightarrow> None
                   | DetailPresent \<Rightarrow> None))
         | None \<Rightarrow> None)
      else None)"

definition status_error :: "nat \<Rightarrow> scenario \<Rightarrow> verdict" where
  "status_error status sc =
     SutFail (''our HTTP status '' @ nat_to_string status @ '' != declared expected_status '' @
       nat_to_string (sn_expected_status sc))"

definition return_if :: "verdict option \<Rightarrow> ('n world, exit, unit) act" where
  "return_if v = (case v of Some v \<Rightarrow> return_verdict v | None \<Rightarrow> act_return ())"

definition judged :: "'n harness_lib \<Rightarrow> string \<Rightarrow> validation_result \<Rightarrow> bool \<times> string list \<Rightarrow> bytes \<Rightarrow> string + bytes" where
  "judged lib msg env child canon =
     (if vr_valid env \<and> fst child then Inr canon
      else Inl (msg @ hl_dbg_errors lib (vr_errors env @ snd child)))"

text \<open>Steps 1 to 4: the scenario, our status and body, and the reference's body.\<close>

definition exchange ::
  "'n harness_lib \<Rightarrow> string \<Rightarrow> string \<Rightarrow> endpoints \<Rightarrow> ('n world, exit, scenario \<times> nat \<times> bytes \<times> bytes) act" where
  "exchange lib name dir ep =
     act_bind (load_scenario lib dir name) (\<lambda>sc.
     let routing = routing_for (sn_soap_version sc) ep in
     act_bind (read_request dir sc) (\<lambda>request.
     act_bind (harness ''POST our server: '' (post_request lib (our_url routing ep) request (sn_content_type sc)))
       (\<lambda>(our_status, our_body).
     act_bind (harness ''POST CXF: '' (post_request lib (vr_cxf_url routing) request (sn_content_type sc)))
       (\<lambda>(cxf_status, cxf_body).
     act_return (sc, our_status, our_body, cxf_body)))))"

text \<open>Steps 5 to 8: the verdict and our canonical bytes.\<close>

definition judge_responses ::
  "'n harness_lib \<Rightarrow> string \<Rightarrow> endpoints \<Rightarrow> xml_oracle \<Rightarrow> scenario \<Rightarrow> nat \<Rightarrow> bytes \<Rightarrow> bytes \<Rightarrow>
   ('n world, exit, verdict \<times> bytes) act" where
  "judge_responses lib name ep oracle sc our_status our_body cxf_body =
     (let schema = vr_envelope_schema (routing_for (sn_soap_version sc) ep); masks = scenario_masks sc in
     act_bind (harness ''oracle validate our envelope: '' (oracle_validate lib oracle our_body schema)) (\<lambda>our_env.
     act_bind (harness ''oracle validate cxf envelope: '' (oracle_validate lib oracle cxf_body schema)) (\<lambda>cxf_env.
     act_bind (validate_body_child lib oracle sc ''our'' ''our response'' our_body) (\<lambda>our_child.
     act_bind (validate_body_child lib oracle sc ''cxf'' ''CXF response'' cxf_body) (\<lambda>cxf_child.
     act_bind (harness_pure ''mask_only our: '' (hl_mask_only lib our_body masks)) (\<lambda>our_masked.
     act_bind (harness_pure ''mask_only cxf: '' (hl_mask_only lib cxf_body masks)) (\<lambda>cxf_masked.
     act_bind (harness ''oracle c14n our: '' (c14n lib oracle our_masked)) (\<lambda>our_canon.
     act_bind (harness ''oracle c14n cxf: '' (c14n lib oracle cxf_masked)) (\<lambda>cxf_canon.
     act_bind (return_if (if our_status \<noteq> sn_expected_status sc then Some (status_error our_status sc) else None)) (\<lambda>_.
     act_bind (return_if (enforce_fault lib name sc our_body)) (\<lambda>_.
     (case evaluate
        \<lparr>ev_sut = judged lib ''our response schema-invalid: '' our_env our_child our_canon,
         ev_reference = judged lib ''reference schema-invalid: '' cxf_env cxf_child cxf_canon,
         ev_known_divergences = []\<rparr> of
        Some v \<Rightarrow> act_return (v, our_canon)
      | None \<Rightarrow> act_fail Panicked))))))))))))"

definition compare_scenario ::
  "'n harness_lib \<Rightarrow> string \<Rightarrow> string \<Rightarrow> endpoints \<Rightarrow> xml_oracle \<Rightarrow> ('n world, exit, verdict \<times> bytes) act" where
  "compare_scenario lib name dir ep oracle =
     act_bind (exchange lib name dir ep) (\<lambda>(sc, our_status, our_body, cxf_body).
       judge_responses lib name ep oracle sc our_status our_body cxf_body)"

text \<open>Step 9: a failed promotion is only logged.\<close>

definition promote_if_passed ::
  "'n harness_lib \<Rightarrow> bool \<Rightarrow> snapshot_store \<Rightarrow> string \<Rightarrow> verdict \<times> bytes \<Rightarrow> ('n world, exit, verdict) act" where
  "promote_if_passed lib promote_on_pass store name vb =
     (case vb of (v, canon) \<Rightarrow>
        act_bind
          (if v = Pass \<and> promote_on_pass then act_log_err (on_fs (promote (hl_toml lib) store name canon))
           else act_return ())
          (\<lambda>_. act_return v))"

definition run_scenario ::
  "'n harness_lib \<Rightarrow> string \<Rightarrow> string \<Rightarrow> endpoints \<Rightarrow> xml_oracle \<Rightarrow> bool \<Rightarrow> snapshot_store \<Rightarrow>
   ('n world, exit, verdict) act" where
  "run_scenario lib name dir ep oracle promote_on_pass store =
     act_bind (compare_scenario lib name dir ep oracle) (promote_if_passed lib promote_on_pass store name)"

section \<open>WS-Security scenarios\<close>

definition wssec_masked ::
  "'n harness_lib \<Rightarrow> string \<Rightarrow> bool \<Rightarrow> bytes \<Rightarrow> ('n world, exit, bytes) act" where
  "wssec_masked lib prefix valid body =
     (if valid then
        harness_pure prefix
          (mask_only_with_drops (hl_tok lib) (hl_ntok lib) (hl_write lib) (hl_attr_err lib) body
            [mask_rule_new ''Envelope/Body/Fault/Reason/Text'']
            [attr_mask_rule_new ''Envelope/Body/Fault/Reason/Text'' ''xml:lang'']
            [mask_rule_new ''Envelope/Header''])
      else act_return [])"

definition wssec_canon ::
  "'n harness_lib \<Rightarrow> xml_oracle \<Rightarrow> string \<Rightarrow> bool \<Rightarrow> bytes \<Rightarrow> ('n world, exit, bytes) act" where
  "wssec_canon lib oracle prefix valid masked =
     (if valid \<and> masked \<noteq> [] then harness prefix (c14n lib oracle masked) else act_return [])"

text \<open>Steps 1 to 4, on the path with the lenient or the strict tolerance.\<close>

definition exchange_wssec ::
  "'n harness_lib \<Rightarrow> string \<Rightarrow> string \<Rightarrow> endpoints \<Rightarrow>
   ('n world, exit, scenario \<times> (nat \<times> bytes) \<times> (nat \<times> bytes)) act" where
  "exchange_wssec lib name dir ep =
     act_bind (load_scenario lib dir name) (\<lambda>sc.
     let path = (if name = ''wssec_stale_timestamp'' then ''/soapsec-strict'' else ''/soapsec'');
         our = our_base ep @ path; cxf = cxf_base ep @ path in
     act_bind (read_request dir sc) (\<lambda>request.
     act_bind (harness (''POST our server ('' @ our @ ''): '') (post_request lib our request (sn_content_type sc))) (\<lambda>ours.
     act_bind (harness (''POST CXF ('' @ cxf @ ''): '') (post_request lib cxf request (sn_content_type sc))) (\<lambda>theirs.
     act_return (sc, ours, theirs)))))"

definition judge_wssec ::
  "'n harness_lib \<Rightarrow> xml_oracle \<Rightarrow> scenario \<Rightarrow> nat \<times> bytes \<Rightarrow> nat \<times> bytes \<Rightarrow> ('n world, exit, verdict \<times> bytes) act" where
  "judge_wssec lib oracle sc ours theirs =
     (case (ours, theirs) of ((our_status, our_body), (cxf_status, cxf_body)) \<Rightarrow>
     act_bind (harness ''oracle validate our envelope: '' (oracle_validate lib oracle our_body ''soap12-envelope'')) (\<lambda>our_env.
     act_bind (harness ''oracle validate cxf envelope: '' (oracle_validate lib oracle cxf_body ''soap12-envelope'')) (\<lambda>cxf_env.
     act_bind (wssec_masked lib ''mask_only_with_drops our: '' (vr_valid our_env) our_body) (\<lambda>our_masked.
     act_bind (wssec_masked lib ''mask_only_with_drops cxf: '' (vr_valid cxf_env) cxf_body) (\<lambda>cxf_masked.
     act_bind (wssec_canon lib oracle ''oracle c14n our: '' (vr_valid our_env) our_masked) (\<lambda>our_canon.
     act_bind (wssec_canon lib oracle ''oracle c14n cxf: '' (vr_valid cxf_env) cxf_masked) (\<lambda>cxf_canon.
     act_bind (return_if (if our_status \<noteq> sn_expected_status sc then Some (status_error our_status sc) else None)) (\<lambda>_.
     act_return
       (evaluate_outcome_equivalence (sn_outcome sc = OutcomeSuccess)
          \<lparr>rs_schema_valid = vr_valid our_env, rs_is_success = (our_status = 200), rs_masked_body_canon = our_canon\<rparr>
          \<lparr>rs_schema_valid = vr_valid cxf_env, rs_is_success = (cxf_status = 200), rs_masked_body_canon = cxf_canon\<rparr>,
        our_canon)))))))))"

definition compare_wssec ::
  "'n harness_lib \<Rightarrow> string \<Rightarrow> string \<Rightarrow> endpoints \<Rightarrow> xml_oracle \<Rightarrow> ('n world, exit, verdict \<times> bytes) act" where
  "compare_wssec lib name dir ep oracle =
     act_bind (exchange_wssec lib name dir ep) (\<lambda>(sc, ours, theirs). judge_wssec lib oracle sc ours theirs)"

definition run_wssec_scenario ::
  "'n harness_lib \<Rightarrow> string \<Rightarrow> string \<Rightarrow> endpoints \<Rightarrow> xml_oracle \<Rightarrow> bool \<Rightarrow> snapshot_store \<Rightarrow>
   ('n world, exit, verdict) act" where
  "run_wssec_scenario lib name dir ep oracle promote_on_pass store =
     act_bind (compare_wssec lib name dir ep oracle) (promote_if_passed lib promote_on_pass store name)"

section \<open>Scenarios of the served WSDL\<close>

definition check_rewrite_invariant :: "'n harness_lib \<Rightarrow> string \<Rightarrow> bytes \<Rightarrow> string \<Rightarrow> string + unit" where
  "check_rewrite_invariant lib name wsdl base =
     (if name = ''wsdl_rewrite_single'' then check_single_rewrite_invariant (hl_tok lib) wsdl base
      else check_multi_rewrite_invariant (hl_tok lib) (hl_lower lib) (hl_dbg_addresses lib) wsdl base)"

definition compare_wsdl_rewrite ::
  "'n harness_lib \<Rightarrow> string \<Rightarrow> endpoints \<Rightarrow> xml_oracle \<Rightarrow> ('n world, exit, verdict \<times> bytes) act" where
  "compare_wsdl_rewrite lib name ep oracle =
     act_bind (if name = ''wsdl_rewrite_single'' then act_return ''/soap''
               else if name = ''wsdl_rewrite_multi'' then act_return ''/soap/a''
               else return_verdict (HarnessError (''unknown wsdl_rewrite scenario: '' @ name))) (\<lambda>path.
     let url = our_base ep @ path @ ''?wsdl'' in
     act_bind (harness (''GET '' @ url @ '': '') (get_bytes lib url)) (\<lambda>wsdl.
     act_bind (harness ''oracle validate wsdl11: '' (oracle_validate lib oracle wsdl ''wsdl11'')) (\<lambda>r.
     act_bind (return_if (if vr_valid r then None
       else Some (SutFail (''WSDL schema-invalid against wsdl11: '' @ hl_dbg_errors lib (vr_errors r))))) (\<lambda>_.
     act_bind (act_map_err (\<lambda>msg. Return (SutFail (''rewrite invariant failed: '' @ msg)))
       (act_lift (check_rewrite_invariant lib name wsdl (our_base ep)))) (\<lambda>_.
     act_return (Pass, wsdl))))))"

definition run_wsdl_rewrite_scenario ::
  "'n harness_lib \<Rightarrow> string \<Rightarrow> endpoints \<Rightarrow> xml_oracle \<Rightarrow> bool \<Rightarrow> snapshot_store \<Rightarrow>
   ('n world, exit, verdict) act" where
  "run_wsdl_rewrite_scenario lib name ep oracle promote_on_pass store =
     act_bind (compare_wsdl_rewrite lib name ep oracle) (promote_if_passed lib promote_on_pass store name)"

section \<open>The run\<close>

text \<open>A call whose early returns become its value; a panic goes on.\<close>

definition call_scenario :: "('n world, exit, verdict) act \<Rightarrow> ('n world, exit, verdict) act" where
  "call_scenario m = (\<lambda>w. case m w of (Inl (Return v), w') \<Rightarrow> (Inr v, w') | r \<Rightarrow> r)"

definition scenario_verdict ::
  "'n harness_lib \<Rightarrow> string \<Rightarrow> endpoints \<Rightarrow> xml_oracle \<Rightarrow> bool \<Rightarrow> snapshot_store \<Rightarrow> string \<Rightarrow> ('n world, exit, verdict) act" where
  "scenario_verdict lib dir ep oracle promote_on_pass store name =
     call_scenario
       (if name \<in> set WSDL_REWRITE_SCENARIOS then run_wsdl_rewrite_scenario lib name ep oracle promote_on_pass store
        else if name \<in> set WSSEC_SCENARIOS then run_wssec_scenario lib name dir ep oracle promote_on_pass store
        else run_scenario lib name dir ep oracle promote_on_pass store)"

fun run_rows :: "(string \<Rightarrow> ('n world, exit, verdict) act) \<Rightarrow> string list \<Rightarrow> ('n world, exit, (string \<times> verdict) list) act" where
  "run_rows f [] = act_return []"
| "run_rows f (n # ns) =
     act_bind (f n) (\<lambda>v. act_bind (run_rows f ns) (\<lambda>rows. act_return ((n, v) # rows)))"

definition selected :: "string list option \<Rightarrow> string list" where
  "selected fltr = filter (\<lambda>n. case fltr of Some ns \<Rightarrow> n \<in> set ns | None \<Rightarrow> True) IN_SCOPE"

definition run_conformance ::
  "'n harness_lib \<Rightarrow> endpoints \<Rightarrow> string \<Rightarrow> bool \<Rightarrow> string list option \<Rightarrow> ('n world, exit, report) act" where
  "run_conformance lib ep repo_root promote_on_pass fltr =
     (let dir = join_path repo_root ''crossref/scenarios'';
          store = \<lparr>ss_dir = join_path repo_root ''crossref/snapshots''\<rparr>;
          oracle = \<lparr>or_base = ep_oracle ep\<rparr> in
      act_bind (run_rows (scenario_verdict lib dir ep oracle promote_on_pass store) (selected fltr)) (\<lambda>rows.
      act_bind (act_read (\<lambda>w. Inr (unverified_count (hl_toml lib) store (wd_fs w)))) (\<lambda>count.
      act_return \<lparr>rp_rows = rows, rp_unverified_remaining = (case count of Inr n \<Rightarrow> n | Inl _ \<Rightarrow> 0)\<rparr>)))"

end
