(* ===== verification/HarnessProps.thy ===== *)
theory HarnessProps
  imports HarnessChecks
begin

text \<open>
  What the checks of \<open>HarnessChecks\<close> establish: the invariant of the served WSDL holds for what
  the server's rewriter writes, the fault code that is compared is the one of the fault, and
  the fragment that is validated is the first child of the body.
\<close>

section \<open>The served WSDL\<close>

text \<open>Tags with ordinary names: UTF-8, at most one colon, and readable attribute names and values.\<close>

definition plain_tag :: "tag \<Rightarrow> bool" where
  "plain_tag e \<longleftrightarrow> utf8_valid (tag_name e) \<and> utf8_valid (last_local (tag_name e)) \<and>
     last_local (tag_name e) = local_part (tag_name e) \<and>
     (\<forall>(k, v) \<in> set (attrs_ok (tag_attrs e)). utf8_valid k)"

fun harness_item :: "item \<Rightarrow> bool" where
  "harness_item (Inl e) = False"
| "harness_item (Inr (_, EvStart e)) = plain_tag e"
| "harness_item (Inr (_, EvEmpty e)) = plain_tag e"
| "harness_item (Inr (_, _)) = True"

lemma event_local_plain: "plain_tag e \<Longrightarrow> event_local (tag_name e) = last_local (tag_name e)"
  unfolding plain_tag_def event_local_def by (metis utf8_or_empty_valid)

text \<open>The addresses of the rewritten WSDL: the same services, each with the new address.\<close>

definition moved_to :: "string \<Rightarrow> (string \<times> string) list \<Rightarrow> (string \<times> string) list" where
  "moved_to url as = map (\<lambda>(svc, _). (svc, url)) as"

lemma rewrite_tag_attrs:
  "plain_tag e \<Longrightarrow>
   attrs_ok (tag_attrs (rewrite_tag esc url e)) =
     map (\<lambda>(k, v). (k, if k = ''location'' then esc url else v)) (attrs_ok (tag_attrs e))"
proof -
  assume e: "plain_tag e"
  have "attrs_ok (map (rewrite_attr u) kvs) = map (\<lambda>(k, v). (k, if k = ''location'' then u else v)) kvs"
    if "\<forall>(k, v) \<in> set kvs. utf8_valid k" for u kvs
    using that by (induction kvs) (auto simp: rewrite_attr_def)
  with e show ?thesis by (simp add: rewrite_tag_def plain_tag_def)
qed

lemma locations_rewrite_tag:
  "plain_tag e \<Longrightarrow> utf8_valid (esc url) \<Longrightarrow>
   locations (rewrite_tag esc url e) = map (\<lambda>_. esc url) (locations e)"
proof -
  assume "plain_tag e" and url: "utf8_valid (esc url)"
  have "map (\<lambda>(_, v). from_utf8_lossy v) (filter (\<lambda>(k, _). k = ''location'')
          (map (\<lambda>(k, v). (k, if k = ''location'' then esc url else v)) kvs)) =
        map (\<lambda>_. esc url) (map (\<lambda>(_, v). from_utf8_lossy v) (filter (\<lambda>(k, _). k = ''location'') kvs))" for kvs
    by (induction kvs) (auto simp: from_utf8_lossy_valid url)
  then show ?thesis by (simp add: locations_def rewrite_tag_attrs [OF \<open>plain_tag e\<close>])
qed

lemma addr_tag_rewrite:
  assumes "plain_tag e" and "utf8_valid (esc url)" and "last_local (tag_name e) = ''address''"
  shows "addr_tag (rewrite_tag esc url e) (s\<lparr>ad_addresses := moved_to (esc url) (ad_addresses s)\<rparr>) =
    (addr_tag e s)\<lparr>ad_addresses := moved_to (esc url) (ad_addresses (addr_tag e s))\<rparr>"
proof -
  have name: "tag_name (rewrite_tag esc url e) = tag_name e"
    using assms(1) by (simp add: rewrite_tag_def plain_tag_def from_utf8_def)
  show ?thesis
    using assms(3) locations_rewrite_tag [of e esc url, OF assms(1,2)]
    by (auto simp: addr_tag_def name moved_to_def split: option.split)
qed

lemma addr_tag_other:
  "last_local (tag_name e) \<noteq> ''address'' \<Longrightarrow>
   addr_tag e (s\<lparr>ad_addresses := as\<rparr>) = (addr_tag e s)\<lparr>ad_addresses := as\<rparr> \<and>
   ad_addresses (addr_tag e s) = ad_addresses s"
  by (simp add: addr_tag_def)

lemma addr_step_rewrite:
  assumes "harness_item (Inr (res, ev))" and "utf8_valid (esc url)"
  shows "addr_step (rewrite_event esc url ev) (s\<lparr>ad_addresses := moved_to (esc url) (ad_addresses s)\<rparr>) =
    (addr_step ev s)\<lparr>ad_addresses := moved_to (esc url) (ad_addresses (addr_step ev s))\<rparr>"
proof -
  have tag: "addr_tag (if event_local (tag_name e) = ''address'' then rewrite_tag esc url e else e)
        (s\<lparr>ad_addresses := moved_to (esc url) (ad_addresses s)\<rparr>) =
      (addr_tag e s)\<lparr>ad_addresses := moved_to (esc url) (ad_addresses (addr_tag e s))\<rparr>" if "plain_tag e" for e
    using addr_tag_rewrite [of e esc url s] addr_tag_other [where e = e and s = s] that assms(2) event_local_plain [OF that]
    by (cases "last_local (tag_name e) = ''address''") simp_all
  show ?thesis
  proof (cases ev)
    case (EvStart e)
    then show ?thesis using tag [of e] assms(1) by (simp split: if_splits)
  next
    case (EvEmpty e)
    then show ?thesis using tag [of e] assms(1) by (simp split: if_splits)
  qed simp_all
qed

lemma addr_loop_rewrite:
  "list_all harness_item r \<Longrightarrow> utf8_valid (esc url) \<Longrightarrow>
   addr_loop (map (\<lambda>ev. Inr (Unbound, ev)) (rewrite_loop esc url r))
     (s\<lparr>ad_addresses := moved_to (esc url) (ad_addresses s)\<rparr>) =
   map_sum id (moved_to (esc url)) (addr_loop r s)"
proof (induction esc url r arbitrary: s rule: rewrite_loop.induct)
  case (3 esc url res ev r)
  show ?case
  proof (cases "ev = EvEof")
    case True
    then show ?thesis by simp
  next
    case False
    then have "rewrite_event esc url ev \<noteq> EvEof" by (cases ev) auto
    moreover have "addr_step (rewrite_event esc url ev) (s\<lparr>ad_addresses := moved_to (esc url) (ad_addresses s)\<rparr>) =
        (addr_step ev s)\<lparr>ad_addresses := moved_to (esc url) (ad_addresses (addr_step ev s))\<rparr>"
      using 3(2,3) by (intro addr_step_rewrite [where res = res]) simp_all
    ultimately show ?thesis
      using 3(1) [OF False] 3(2,3) False by simp
  qed
qed simp_all

text \<open>
  C30. The rewriting of addresses meets the check that the harness makes of it: a WSDL with
  addresses, rewritten by the server to a URL, has exactly the same services with that URL each,
  and passes the single-service check for any base with the URL's host. The reader is assumed to
  read back the events that were written.
\<close>

theorem rewritten_wsdl_passes_check:
  assumes "list_all harness_item (tok False wsdl)"
    and "extract_soap_addresses tok wsdl = Inr addresses" and "addresses \<noteq> []"
    and "esc url = url" and "utf8_valid url" and "url_host url = url_host base"
    and "tok False (wr (rewrite_loop esc url (tok False wsdl))) =
           map (\<lambda>ev. Inr (Unbound, ev)) (rewrite_loop esc url (tok False wsdl))"
  shows "extract_soap_addresses tok (rewrite_wsdl_address tok wr esc wsdl url) = Inr (moved_to url addresses) \<and>
    check_single_rewrite_invariant tok (rewrite_wsdl_address tok wr esc wsdl url) base = Inr ()"
proof -
  let ?s = "\<lparr>ad_addresses = [], ad_current = None, ad_in_service = False\<rparr>"
  have "addr_loop (tok False wsdl) ?s = Inr addresses"
    using assms(2) by (simp add: extract_soap_addresses_def)
  with addr_loop_rewrite [OF assms(1), of esc url ?s] assms(4,5)
  have addrs: "extract_soap_addresses tok (rewrite_wsdl_address tok wr esc wsdl url) = Inr (moved_to url addresses)"
    by (simp add: extract_soap_addresses_def rewrite_wsdl_address_def assms(7) moved_to_def)
  moreover have "find (\<lambda>(_, l). url_host l \<noteq> url_host base) (moved_to url addresses) = None"
    using assms(6) by (auto simp: moved_to_def find_None_iff)
  ultimately show ?thesis
    using assms(3) by (simp add: check_single_rewrite_invariant_def moved_to_def)
qed

lemma trim_start_none: "\<not> starts_with p s \<Longrightarrow> trim_start_matches p s = s"
  by (subst trim_start_matches.simps) simp

lemma trim_start_once:
  "p \<noteq> [] \<Longrightarrow> starts_with p s \<Longrightarrow> trim_start_matches p s = trim_start_matches p (drop (length p) s)"
  by (subst trim_start_matches.simps) simp

text \<open>A WSDL of one service, and the URL the server puts into it.\<close>

definition harness_wsdl :: reader where
  "harness_wsdl =
     [Inr (Unbound, EvStart (tag_of ''service'' [(''name'', ''S'')])),
      Inr (Unbound, EvEmpty (tag_of ''soap:address'' [(''location'', ''http://h/x'')])),
      Inr (Unbound, EvEnd ''service'')]"

lemma rewritten_wsdl_passes_check_witness:
  "check_single_rewrite_invariant
     (\<lambda>_ b. if b = ''w'' then harness_wsdl
            else map (\<lambda>ev. Inr (Unbound, ev)) (rewrite_loop id ''http://localhost:8080/soap'' harness_wsdl))
     (rewrite_wsdl_address
       (\<lambda>_ b. if b = ''w'' then harness_wsdl
            else map (\<lambda>ev. Inr (Unbound, ev)) (rewrite_loop id ''http://localhost:8080/soap'' harness_wsdl))
       (\<lambda>_. ''r'') id ''w'' ''http://localhost:8080/soap'') ''http://localhost:8080'' = Inr ()"
proof (rule rewritten_wsdl_passes_check [THEN conjunct2])
  show "url_host ''http://localhost:8080/soap'' = url_host ''http://localhost:8080''"
    by (simp add: url_host_def trim_start_once trim_start_none starts_with_def)
  have names: "last_local ''service'' = ''service''" "last_local ''soap:address'' = ''address''"
    "local_part ''service'' = ''service''" "local_part ''soap:address'' = ''address''"
    by (simp_all add: last_local_def after_last_def local_part_def)
  show "list_all harness_item (if ''w'' = ''w'' then harness_wsdl
      else map (\<lambda>ev. Inr (Unbound, ev)) (rewrite_loop id ''http://localhost:8080/soap'' harness_wsdl))"
    by (simp add: harness_wsdl_def plain_tag_def names utf8_valid_ascii is_ascii_def byte_def)
  show "extract_soap_addresses
     (\<lambda>_ b. if b = ''w'' then harness_wsdl
            else map (\<lambda>ev. Inr (Unbound, ev)) (rewrite_loop id ''http://localhost:8080/soap'' harness_wsdl)) ''w'' =
     Inr [(''S'', ''http://h/x'')]"
    by (simp add: extract_soap_addresses_def harness_wsdl_def addr_tag_def names service_name_def locations_def
        from_utf8_lossy_valid utf8_valid_ascii is_ascii_def byte_def)
qed (simp_all add: utf8_valid_ascii is_ascii_def byte_def)

section \<open>The first child of the body\<close>

text \<open>The bytes of a tree with its tags and text, and nothing else.\<close>

fun tags_and_text :: "xml \<Rightarrow> bytes" where
  "tags_and_text (XElem res n as cs) =
     tag_bytes (tag_of n as) @ ''>'' @ concat (map tags_and_text cs) @ ''</'' @ n @ ''>''"
| "tags_and_text (XEmpty res n as) = tag_bytes (tag_of n as) @ ''/>''"
| "tags_and_text (XText t) = t"
| "tags_and_text _ = []"

definition collecting :: "nat \<Rightarrow> bytes \<Rightarrow> child_scan" where
  "collecting d out = \<lparr>ch_in_body = True, ch_collecting = True, ch_depth = d, ch_out = out\<rparr>"

lemma child_loop_inside:
  "0 < d \<Longrightarrow> child_loop (events x @ r) (collecting d out) = child_loop r (collecting d (out @ tags_and_text x))"
proof (induction x arbitrary: d out r)
  case (XElem res n as cs)
  have kids: "0 < d' \<Longrightarrow> child_loop (all_events ys @ r') (collecting d' out') =
      child_loop r' (collecting d' (out' @ concat (map tags_and_text ys)))"
    if "set ys \<subseteq> set cs" for ys d' out' r'
    using that
  proof (induction ys arbitrary: out')
    case (Cons y ys)
    then show ?case using XElem.IH [of y d' "all_events ys @ r'" out'] by simp
  qed simp
  show ?case
    using kids [of cs "Suc d" "Inr (res, EvEnd n) # r" "out @ tag_bytes (tag_of n as) @ ''>''"] XElem.prems
    by (simp add: collecting_def)
qed (simp_all add: collecting_def)

lemma child_loop_children:
  "0 < d \<Longrightarrow> child_loop (all_events xs @ r) (collecting d out) =
     child_loop r (collecting d (out @ concat (map tags_and_text xs)))"
  by (induction xs arbitrary: out) (simp_all add: child_loop_inside)

text \<open>Before the body: no start tag named \<open>Body\<close>; in it: nodes that are not elements.\<close>

fun no_body :: "item \<Rightarrow> bool" where
  "no_body (Inr (_, EvStart e)) \<longleftrightarrow> last_local (tag_name e) \<noteq> ''Body''"
| "no_body (Inr (_, ev)) \<longleftrightarrow> ev \<noteq> EvEof"
| "no_body (Inl _) \<longleftrightarrow> False"

definition outside :: child_scan where
  "outside = \<lparr>ch_in_body = False, ch_collecting = False, ch_depth = 0, ch_out = []\<rparr>"

definition in_body :: child_scan where
  "in_body = \<lparr>ch_in_body = True, ch_collecting = False, ch_depth = 0, ch_out = []\<rparr>"

lemma child_loop_before: "list_all no_body pre \<Longrightarrow> child_loop (pre @ r) outside = child_loop r outside"
proof (induction pre)
  case (Cons i pre)
  then obtain res ev where i: "i = Inr (res, ev)" by (cases i) auto
  with Cons show ?case by (cases ev) (simp_all add: outside_def)
qed simp

lemma child_loop_between:
  "list_all (\<lambda>x. \<not> is_elem x) xs \<Longrightarrow> child_loop (all_events xs @ r) in_body = child_loop r in_body"
proof (induction xs)
  case (Cons x xs)
  then show ?case by (cases x) (simp_all add: in_body_def)
qed simp

text \<open>
  The fragment that is validated is the first element below the body, with its tags,
  attributes and text as they are; but references and CDATA sections in it are dropped, so a
  body whose text holds one is validated with another text.
\<close>

theorem body_child_is_extracted:
  assumes "tok False envelope = pre @ Inr (res, EvStart b) # all_events gap @ events child @ post"
    and "list_all no_body pre" and "last_local (tag_name b) = ''Body''"
    and "list_all (\<lambda>x. \<not> is_elem x) gap" and "is_elem child"
  shows "extract_body_child tok envelope = Some (tags_and_text child)"
proof -
  have "extract_body_child tok envelope = child_loop (events child @ post) in_body"
    using child_loop_before [OF assms(2)] child_loop_between [OF assms(4)] assms(3)
    by (simp add: extract_body_child_def assms(1) outside_def [symmetric])
      (simp add: outside_def in_body_def [symmetric])
  also have "\<dots> = Some (tags_and_text child)"
    using assms(5)
  proof (cases child)
    case (XElem r n as cs)
    then show ?thesis
      using child_loop_children [of 1 cs "Inr (r, EvEnd n) # post" "tag_bytes (tag_of n as) @ ''>''"]
      by (simp add: in_body_def collecting_def)
  qed (simp_all add: in_body_def)
  finally show ?thesis .
qed

lemma body_child_is_extracted_witness:
  "extract_body_child
     (\<lambda>_ _. [Inr (Unbound, EvStart (tag_of ''s:Envelope'' []))] @ Inr (Unbound, EvStart (tag_of ''s:Body'' [])) #
        all_events [] @ events (XElem Unbound ''r'' [] [XText ''a'', XRef ''amp'', XText ''b'']) @
        [Inr (Unbound, EvEnd ''s:Body''), Inr (Unbound, EvEnd ''s:Envelope'')]) [] = Some ''<r>ab</r>''"
proof -
  have "extract_body_child
     (\<lambda>_ _. [Inr (Unbound, EvStart (tag_of ''s:Envelope'' []))] @ Inr (Unbound, EvStart (tag_of ''s:Body'' [])) #
        all_events [] @ events (XElem Unbound ''r'' [] [XText ''a'', XRef ''amp'', XText ''b'']) @
        [Inr (Unbound, EvEnd ''s:Body''), Inr (Unbound, EvEnd ''s:Envelope'')]) [] =
      Some (tags_and_text (XElem Unbound ''r'' [] [XText ''a'', XRef ''amp'', XText ''b'']))"
    by (rule body_child_is_extracted [OF refl]) (simp_all add: last_local_def after_last_def)
  then show ?thesis by (simp add: tag_bytes_def)
qed

section \<open>Faults\<close>

text \<open>Before the code of a fault: no start tag of the elements that the scan looks for.\<close>

fun no_code :: "item \<Rightarrow> bool" where
  "no_code (Inr (_, EvStart e)) \<longleftrightarrow> last_local (tag_name e) \<notin> {''Code'', ''faultcode''}"
| "no_code (Inr (_, ev)) \<longleftrightarrow> ev \<noteq> EvEof"
| "no_code (Inl _) \<longleftrightarrow> False"

definition code_init :: code_scan where
  "code_init = \<lparr>fc_in_code_parent = False, fc_in_value = False, fc_accumulated = []\<rparr>"

lemma code_loop_before:
  "list_all no_code pre \<Longrightarrow> code_loop d name v11 (pre @ r) code_init = code_loop d name v11 r code_init"
proof (induction pre)
  case (Cons i pre)
  then obtain res ev where i: "i = Inr (res, ev)" by (cases i) auto
  with Cons show ?case
    by (cases ev; cases v11) (simp_all add: code_init_def code_start_def code_target_def)
qed simp

text \<open>
  The fault code that the harness compares is the text of the Value directly under Code (SOAP
  1.2) or of faultcode (SOAP 1.1), without its prefix; a response in which neither is found
  is not blamed by this check, whatever code was declared.
\<close>

theorem fault_code_is_compared:
  "(\<forall>pre c v as bs t r. list_all no_code pre \<longrightarrow> last_local c = ''Code'' \<longrightarrow> last_local v = ''Value'' \<longrightarrow>
      tok True body = pre @ Inr (res, EvStart (tag_of c as)) # Inr (res, EvStart (tag_of v bs)) #
        Inr (Unbound, EvText t) # Inr (res, EvEnd v) # r \<longrightarrow>
      (enforce_fault_code tok body d name False = None \<longleftrightarrow>
         after_last CHR '':'' (str_trim (utf8_or_empty t)) = d)) \<and>
   (\<forall>pre f as t r. list_all no_code pre \<longrightarrow> last_local f = ''faultcode'' \<longrightarrow>
      tok True body = pre @ Inr (res, EvStart (tag_of f as)) # Inr (Unbound, EvText t) # Inr (res, EvEnd f) # r \<longrightarrow>
      (enforce_fault_code tok body d name True = None \<longleftrightarrow>
         after_last CHR '':'' (str_trim (utf8_or_empty t)) = d)) \<and>
   (list_all no_code (tok True body) \<longrightarrow> enforce_fault_code tok body d name v11 = None)"
proof (intro conjI allI impI)
  fix pre c v as bs t r
  assume "list_all no_code pre" "last_local c = ''Code''" "last_local v = ''Value''"
    "tok True body = pre @ Inr (res, EvStart (tag_of c as)) # Inr (res, EvStart (tag_of v bs)) #
        Inr (Unbound, EvText t) # Inr (res, EvEnd v) # r"
  then show "enforce_fault_code tok body d name False = None \<longleftrightarrow>
      after_last CHR '':'' (str_trim (utf8_or_empty t)) = d"
    by (simp add: enforce_fault_code_def code_init_def [symmetric] code_loop_before)
      (simp add: code_init_def code_start_def code_target_def compare_code_def Let_def)
next
  fix pre f as t r
  assume "list_all no_code pre" "last_local f = ''faultcode''"
    "tok True body = pre @ Inr (res, EvStart (tag_of f as)) # Inr (Unbound, EvText t) # Inr (res, EvEnd f) # r"
  then show "enforce_fault_code tok body d name True = None \<longleftrightarrow>
      after_last CHR '':'' (str_trim (utf8_or_empty t)) = d"
    by (simp add: enforce_fault_code_def code_init_def [symmetric] code_loop_before)
      (simp add: code_init_def code_start_def code_target_def compare_code_def Let_def)
next
  assume "list_all no_code (tok True body)"
  from code_loop_before [OF this, of d name v11 "[]"]
  show "enforce_fault_code tok body d name v11 = None"
    by (simp add: enforce_fault_code_def code_init_def [symmetric])
qed

lemma fault_code_is_compared_witness:
  "enforce_fault_code
     (\<lambda>_ _. [Inr (Unbound, EvStart (tag_of ''env:Code'' [])), Inr (Unbound, EvStart (tag_of ''env:Value'' [])),
             Inr (Unbound, EvText ''env:Sender''), Inr (Unbound, EvEnd ''env:Value'')]) body ''Sender'' name False = None"
proof -
  let ?tok = "\<lambda>_ _. [Inr (Unbound, EvStart (tag_of ''env:Code'' [])), Inr (Unbound, EvStart (tag_of ''env:Value'' [])),
             Inr (Unbound, EvText ''env:Sender''), Inr (Unbound, EvEnd ''env:Value'')]"
  have ascii: "utf8_or_empty ''env:Sender'' = ''env:Sender''"
    by (simp add: utf8_valid_ascii is_ascii_def byte_def)
  have "enforce_fault_code ?tok body ''Sender'' name False = None \<longleftrightarrow>
      after_last CHR '':'' (str_trim (utf8_or_empty ''env:Sender'')) = ''Sender''"
    by (rule fault_code_is_compared [THEN conjunct1, rule_format, where pre = "[]" and as = "[]" and bs = "[]"
          and c = "''env:Code''" and v = "''env:Value''" and r = "[]" and res = Unbound])
      (simp_all add: last_local_def after_last_def)
  moreover have "after_last CHR '':'' (str_trim (utf8_or_empty ''env:Sender'')) = ''Sender''"
    by (simp add: ascii str_trim_def trim_start.simps ws_len_def byte_def after_last_def)
  ultimately show ?thesis by blast
qed

text \<open>A raw detail that is an empty element is refused: the scan sees start tags only.\<close>

lemma empty_raw_detail_is_refused:
  assumes "last_local n = ''Detail''" and "tok False body = events (XElem res n as [XEmpty res' m bs])"
  shows "enforce_raw_xml_child_detail tok body name \<noteq> None"
  using assms by (simp add: enforce_raw_xml_child_detail_def Let_def)

end
