(* ===== verification/Layer2Props.thy ===== *)
theory Layer2Props
  imports Layer2 HarnessProps
begin

text \<open>
  What a conformance run guarantees: nothing is promoted without a pass, a pass means what the
  scenario declares, and a run leaves the snapshots of Layer 1 alone.
\<close>

section \<open>Comparing changes no file\<close>

definition same_files :: "'n world \<Rightarrow> 'n world \<Rightarrow> bool" where
  "same_files w w' \<longleftrightarrow> wd_fs w' = wd_fs w"

lemma same_files_order [confined_intros]: "reflp same_files" "transp same_files"
  by (auto simp: same_files_def reflp_def transp_def)

lemma confined_on_net [confined_intros]: "confined same_files (on_net m)"
  by (simp add: confined_def on_net_def same_files_def split_beta)

lemma confined_Let [confined_intros]: "(\<And>x. confined R (f x)) \<Longrightarrow> confined R (Let z f)"
  by (simp add: Let_def)

lemma confined_http [confined_intros]:
  "confined same_files (post_request lib url body ct)"
  "confined same_files (get_bytes lib url)"
  "confined same_files (c14n lib orc xml)"
  "confined same_files (oracle_validate lib orc xml schema)"
  unfolding post_request_def get_bytes_def c14n_def oracle_validate_def
  by (intro confined_intros)+

lemma confined_harness [confined_intros]:
  "confined R m \<Longrightarrow> confined R (harness prefix m)"
  "reflp R \<Longrightarrow> confined R (harness_pure prefix r)"
  "reflp R \<Longrightarrow> confined R (return_verdict v)"
  "reflp R \<Longrightarrow> confined R (return_if ov)"
  unfolding harness_pure_def harness_def return_verdict_def return_if_def
  by (intro confined_intros; assumption)+

lemma confined_loads [confined_intros]:
  "confined same_files (load_scenario lib dir name)"
  "confined same_files (read_request dir sc)"
  "confined same_files (validate_body_child lib orc sc side resp body)"
  "confined same_files (wssec_masked lib prefix valid body)"
  "confined same_files (wssec_canon lib orc prefix valid body)"
  unfolding load_scenario_def read_request_def validate_body_child_def wssec_masked_def wssec_canon_def
  by (intro confined_intros)+

lemma compare_confined:
  "confined same_files (compare_scenario lib name dir ep orc)"
  "confined same_files (compare_wssec lib name dir ep orc)"
  "confined same_files (compare_wsdl_rewrite lib name ep orc)"
  unfolding compare_scenario_def exchange_def judge_responses_def compare_wssec_def exchange_wssec_def judge_wssec_def
    compare_wsdl_rewrite_def
  by (intro confined_intros)+

section \<open>Promotion\<close>

lemma act_log_err_eq: "act_log_err m w = (Inr (), snd (m w))"
  by (simp add: act_log_err_def)

text \<open>One scenario: its verdict, and the store that it leaves.\<close>

definition promotes_only_passes ::
  "toml_lib \<Rightarrow> bool \<Rightarrow> snapshot_store \<Rightarrow> string \<Rightarrow> ('n world, exit, verdict) act \<Rightarrow> bool" where
  "promotes_only_passes tom promote_on_pass store name m \<longleftrightarrow>
     (\<forall>w r w'. m w = (r, w') \<longrightarrow>
        wd_fs w' = wd_fs w \<or>
        r = Inr Pass \<and> promote_on_pass \<and> (\<exists>b q. promote tom store name b (wd_fs w) = (q, wd_fs w')))"

lemma promote_if_passed_only:
  assumes "confined same_files m"
  shows "promotes_only_passes (hl_toml lib) promote_on_pass store name
    (act_bind m (promote_if_passed lib promote_on_pass store name))"
  unfolding promotes_only_passes_def
proof (intro allI impI)
  fix w r w' assume run: "act_bind m (promote_if_passed lib promote_on_pass store name) w = (r, w')"
  obtain r1 w1 where m: "m w = (r1, w1)" by force
  then have fs: "wd_fs w1 = wd_fs w" using confinedD [OF assms] by (auto simp: same_files_def)
  show "wd_fs w' = wd_fs w \<or> r = Inr Pass \<and> promote_on_pass \<and>
      (\<exists>b q. promote (hl_toml lib) store name b (wd_fs w) = (q, wd_fs w'))"
  proof (cases r1)
    case (Inl e)
    then show ?thesis using run fs by (auto simp: act_bind_def m)
  next
    case (Inr vb)
    obtain v canon where vb: "vb = (v, canon)" by force
    obtain q f where p: "promote (hl_toml lib) store name canon (wd_fs w) = (q, f)" by force
    show ?thesis
    proof (cases "v = Pass \<and> promote_on_pass")
      case True
      then have "r = Inr Pass" "wd_fs w' = f"
        using run Inr p fs
        by (auto simp: act_bind_def m vb promote_if_passed_def act_log_err_eq on_fs_def act_return_def)
      with True p show ?thesis by blast
    next
      case False
      then have "w' = w1"
        using run Inr by (auto simp: act_bind_def m vb promote_if_passed_def act_return_def split: if_splits)
      with fs show ?thesis by simp
    qed
  qed
qed

lemma call_scenario_only:
  "promotes_only_passes tom flag store name m \<Longrightarrow> promotes_only_passes tom flag store name (call_scenario m)"
  unfolding promotes_only_passes_def call_scenario_def
  by (auto split: prod.splits sum.splits exit.splits) blast+

lemma scenario_verdict_only:
  "promotes_only_passes (hl_toml lib) flag store name (scenario_verdict lib dir ep orc flag store name)"
  unfolding scenario_verdict_def run_scenario_def run_wssec_scenario_def run_wsdl_rewrite_scenario_def
  by (intro call_scenario_only)
    (auto intro: promote_if_passed_only compare_confined)

text \<open>What the store may be after a run, given its rows.\<close>

definition run_effect ::
  "bool \<Rightarrow> (string \<times> verdict) list \<Rightarrow> abstract_store \<Rightarrow> abstract_store \<Rightarrow> bool" where
  "run_effect flag rows a a' \<longleftrightarrow>
     as_snapshot a' = as_snapshot a \<and>
     (\<forall>n. as_status a' n \<noteq> as_status a n \<longrightarrow> as_status a' n = Some Verified \<and> flag \<and> (n, Pass) \<in> set rows) \<and>
     (\<forall>n. as_evidence a' n \<noteq> as_evidence a n \<longrightarrow> flag \<and> (n, Pass) \<in> set rows)"

lemma run_effect_refl: "run_effect flag rows a a"
  by (simp add: run_effect_def)

lemma run_effect_trans:
  "run_effect flag rows a b \<Longrightarrow> run_effect flag rows' b c \<Longrightarrow> run_effect flag (rows @ rows') a c"
  unfolding run_effect_def by (simp, metis)

lemma run_effect_promote:
  assumes "toml_ok tom" and "relative name" and "promote tom store name b f = (q, f')"
  shows "run_effect True [(name, Pass)] (abstract_of tom store f) (abstract_of tom store f')"
  using promote_abs [OF assms]
  by (auto simp: run_effect_def abs_promote_def split: if_splits)

lemma run_rows_effect:
  assumes "toml_ok tom" and "\<And>n. n \<in> set ns \<Longrightarrow> relative n"
    and "\<And>n. n \<in> set ns \<Longrightarrow> promotes_only_passes tom flag store n (f n)"
    and "run_rows f ns w = (Inr rows, w')"
  shows "run_effect flag rows (abstract_of tom store (wd_fs w)) (abstract_of tom store (wd_fs w'))"
  using assms(2-4)
proof (induction ns arbitrary: w rows)
  case Nil
  then show ?case by (simp add: run_effect_refl)
next
  case (Cons n ns)
  obtain v u rows' where v: "f n w = (Inr v, u)" and rest: "run_rows f ns u = (Inr rows', w')"
    and rows: "rows = (n, v) # rows'"
    using Cons.prems(3) by (auto simp: act_bind_Inr_iff)
  have "run_effect flag [(n, v)] (abstract_of tom store (wd_fs w)) (abstract_of tom store (wd_fs u))"
  proof -
    have "wd_fs u = wd_fs w \<or> v = Pass \<and> flag \<and> (\<exists>b q. promote tom store n b (wd_fs w) = (q, wd_fs u))"
      using Cons.prems(2) [of n] v unfolding promotes_only_passes_def by fastforce
    then show ?thesis
      using run_effect_promote [OF assms(1) Cons.prems(1) [of n]] run_effect_refl by fastforce
  qed
  moreover have "run_effect flag rows' (abstract_of tom store (wd_fs u)) (abstract_of tom store (wd_fs w'))"
    using Cons.IH [OF _ _ rest] Cons.prems(1,2) by simp
  ultimately show ?case using run_effect_trans unfolding rows by fastforce
qed

lemma in_scope_relative: "n \<in> set IN_SCOPE \<Longrightarrow> relative n"
  by (auto simp: IN_SCOPE_def relative_def starts_with_def)

section \<open>Properties\<close>

text \<open>
  C20. A run promotes only what passed: after a conformance run every scenario has the status it
  had, except that some whose row in the report is a pass are now verified, and only when
  promotion was asked for; evidence is likewise replaced for passes only, and no Layer-1
  snapshot changes, whatever the servers and the oracle answer and whichever writes fail.
\<close>

theorem only_passes_are_promoted:
  assumes "toml_ok (hl_toml lib)" and "run_conformance lib ep root flag fltr w = (Inr rp, w')"
    and "store = \<lparr>ss_dir = join_path root ''crossref/snapshots''\<rparr>"
  shows "run_effect flag (rp_rows rp) (abstract_of (hl_toml lib) store (wd_fs w))
    (abstract_of (hl_toml lib) store (wd_fs w'))"
proof -
  let ?f = "scenario_verdict lib (join_path root ''crossref/scenarios'') ep \<lparr>or_base = ep_oracle ep\<rparr> flag store"
  have rows: "run_rows ?f (selected fltr) w = (Inr (rp_rows rp), w')"
    using assms(2,3) by (auto simp: run_conformance_def Let_def act_bind_Inr_iff)
  show ?thesis
    by (rule run_rows_effect [OF assms(1) _ _ rows])
      (auto simp: selected_def in_scope_relative scenario_verdict_only)
qed

text \<open>
  A world for the witnesses: our server serves the WSDL \<open>w\<close>, the oracle answers every
  validation with \<open>j\<close>, and the WSDL has one address.
\<close>

definition sample_harness :: "unit harness_lib" where
  "sample_harness =
     \<lparr>hl_send = (\<lambda>rq n. (Inr \<lparr>hr_status = 200, hr_body = Inr (if rq_method rq = ''GET'' then ''w'' else ''j'')\<rparr>, n)),
      hl_json = (\<lambda>b. Inr (JObject [(''valid'', JBool True)])), hl_toml = one_table_toml,
      hl_scenario = (\<lambda>_. Inl []),
      hl_tok = (\<lambda>_ _. [Inr (Unbound, EvStart (tag_of ''service'' [(''name'', ''S'')])),
                       Inr (Unbound, EvEmpty (tag_of ''address'' [(''location'', ''http://localhost:8080/soap'')]))]),
      hl_ntok = (\<lambda>_ _. []), hl_write = (\<lambda>_. []), hl_attr_err = [], hl_lower = id,
      hl_status_text = (\<lambda>_. []), hl_dbg_errors = (\<lambda>_. []), hl_dbg_addresses = (\<lambda>_. [])\<rparr>"

definition sample_world :: "unit world" where
  "sample_world = \<lparr>wd_net = (), wd_fs = \<lparr>fs_files = (\<lambda>_. None), fs_dirs = {''./crossref/snapshots''}, fs_refuses = (\<lambda>_. None)\<rparr>\<rparr>"

lemma sample_addresses:
  "extract_soap_addresses (hl_tok sample_harness) b = Inr [(''S'', ''http://localhost:8080/soap'')]"
  by (simp add: sample_harness_def extract_soap_addresses_def addr_tag_def last_local_def after_last_def
      service_name_def locations_def from_utf8_lossy_valid utf8_valid_ascii is_ascii_def byte_def)

lemma unit_net [simp]: "(w :: unit world)\<lparr>wd_net := u\<rparr> = w"
  by (cases w) simp

lemma sample_get: "get_bytes sample_harness url w = (Inr ''w'', w)"
  by (simp add: get_bytes_def act_bind_def on_net_def act_return_def act_lift_def sample_harness_def)

lemma sample_validate:
  "oracle_validate sample_harness orc b schema w = (Inr \<lparr>vr_valid = True, vr_errors = []\<rparr>, w)"
  by (simp add: oracle_validate_def act_bind_def on_net_def act_return_def act_lift_def sample_harness_def validation_of_def)

lemma sample_check:
  "check_rewrite_invariant sample_harness ''wsdl_rewrite_single'' b (our_base localhost_endpoints) = Inr ()"
proof -
  have "our_base localhost_endpoints = ''http://localhost:8080''"
    by (simp add: our_base_def localhost_endpoints_def strip_suffix_def strip_prefix_def starts_with_def)
  moreover have "url_host ''http://localhost:8080/soap'' = url_host ''http://localhost:8080''"
    by (simp add: url_host_def trim_start_once trim_start_none starts_with_def)
  ultimately show ?thesis
    by (simp add: check_rewrite_invariant_def check_single_rewrite_invariant_def sample_addresses)
qed

lemma harness_Inr [simp]: "m w = (Inr x, w') \<Longrightarrow> harness prefix m w = (Inr x, w')"
  by (simp add: harness_def act_map_err_def)

lemma act_bind_Inr [simp]: "m w = (Inr x, w') \<Longrightarrow> act_bind m f w = f x w'"
  by (simp add: act_bind_def)

lemma sample_compare:
  "compare_wsdl_rewrite sample_harness ''wsdl_rewrite_single'' localhost_endpoints orc w = (Inr (Pass, ''w''), w)"
proof -
  have get: "harness prefix (get_bytes sample_harness url) w = (Inr ''w'', w)" for prefix url
    by (simp add: sample_get)
  have val: "harness prefix (oracle_validate sample_harness orc b schema) w = (Inr \<lparr>vr_valid = True, vr_errors = []\<rparr>, w)"
    for prefix b schema by (simp add: sample_validate)
  have inv: "act_map_err g (act_lift (check_rewrite_invariant sample_harness ''wsdl_rewrite_single'' b
      (our_base localhost_endpoints))) w = (Inr (), w)" for g :: "string \<Rightarrow> exit" and b
    by (simp add: sample_check act_map_err_def act_lift_def)
  show ?thesis
    unfolding compare_wsdl_rewrite_def Let_def
    by (simp add: get val inv return_if_def)
qed

lemma sample_verdict:
  "scenario_verdict sample_harness dir localhost_endpoints orc True store ''wsdl_rewrite_single'' w =
     (Inr Pass, w\<lparr>wd_fs := snd (promote one_table_toml store ''wsdl_rewrite_single'' ''w'' (wd_fs w))\<rparr>)"
proof -
  have "run_wsdl_rewrite_scenario sample_harness ''wsdl_rewrite_single'' localhost_endpoints orc True store w =
      (Inr Pass, w\<lparr>wd_fs := snd (promote one_table_toml store ''wsdl_rewrite_single'' ''w'' (wd_fs w))\<rparr>)"
    by (simp add: run_wsdl_rewrite_scenario_def act_bind_Inr [OF sample_compare] promote_if_passed_def)
      (simp add: act_bind_def act_log_err_def on_fs_def act_return_def sample_harness_def split_beta)
  then show ?thesis
    by (simp add: scenario_verdict_def WSDL_REWRITE_SCENARIOS_def call_scenario_def)
qed

text \<open>One scenario runs, passes and is promoted.\<close>

lemma only_passes_are_promoted_witness:
  "\<exists>rp w'. run_conformance sample_harness localhost_endpoints ''.'' True (Some [''wsdl_rewrite_single'']) sample_world = (Inr rp, w') \<and>
     rp_rows rp = [(''wsdl_rewrite_single'', Pass)] \<and>
     run_effect True (rp_rows rp) (abstract_of one_table_toml \<lparr>ss_dir = ''./crossref/snapshots''\<rparr> (wd_fs sample_world))
       (abstract_of one_table_toml \<lparr>ss_dir = ''./crossref/snapshots''\<rparr> (wd_fs w'))"
proof -
  have sel: "selected (Some [''wsdl_rewrite_single'']) = [''wsdl_rewrite_single'']"
    by (simp add: selected_def IN_SCOPE_def)
  have dir: "join_path ''.'' ''crossref/snapshots'' = ''./crossref/snapshots''"
    by (simp add: join_path_def starts_with_def)
  have tom: "hl_toml sample_harness = one_table_toml" by (simp add: sample_harness_def)
  obtain rp w' where run: "run_conformance sample_harness localhost_endpoints ''.'' True (Some [''wsdl_rewrite_single'']) sample_world = (Inr rp, w')"
    and rows: "rp_rows rp = [(''wsdl_rewrite_single'', Pass)]"
    by (simp add: run_conformance_def Let_def sel act_bind_Inr [OF sample_verdict] unverified_count_def
        act_read_def)
  from only_passes_are_promoted [OF _ run refl, unfolded tom dir, OF one_table_toml_ok] run rows
  show ?thesis by blast
qed

section \<open>What a pass means\<close>

text \<open>Early returns are never a pass.\<close>

definition no_early_pass :: "('n world, exit, 'a) act \<Rightarrow> bool" where
  "no_early_pass m \<longleftrightarrow> (\<forall>w. fst (m w) \<noteq> Inl (Return Pass))"

named_theorems early_intros "actions that never return early with a pass"

lemma early_basic [early_intros]:
  "no_early_pass (act_return x)"
  "no_early_pass (act_fail Panicked)"
  "no_early_pass (harness prefix m)"
  "no_early_pass (harness_pure prefix r)"
  "no_early_pass (act_map_err (\<lambda>e. Return (SutFail (f e))) m')"
  "v \<noteq> Pass \<Longrightarrow> no_early_pass (return_verdict v)"
  "ov \<noteq> Some Pass \<Longrightarrow> no_early_pass (return_if ov)"
  by (auto simp: no_early_pass_def act_return_def act_fail_def harness_def harness_pure_def act_map_err_def
      map_err_def return_verdict_def return_if_def split: sum.splits prod.splits option.splits)

lemma early_bind [early_intros]:
  assumes "no_early_pass m" and "\<And>x. no_early_pass (f x)"
  shows "no_early_pass (act_bind m f)"
  unfolding no_early_pass_def
proof
  fix w
  obtain r u where m: "m w = (r, u)" by force
  then show "fst (act_bind m f w) \<noteq> Inl (Return Pass)"
    using assms by (cases r) (auto simp: act_bind_def no_early_pass_def dest: spec [of _ w])
qed

lemma early_cases [early_intros]:
  "no_early_pass m \<Longrightarrow> no_early_pass n \<Longrightarrow> no_early_pass (if b then m else n)"
  "no_early_pass m \<Longrightarrow> (\<And>x. no_early_pass (f x)) \<Longrightarrow> no_early_pass (case ov of None \<Rightarrow> m | Some x \<Rightarrow> f x)"
  "(\<And>x y. no_early_pass (g x y)) \<Longrightarrow> no_early_pass (case z of (x, y) \<Rightarrow> g x y)"
  "(\<And>x. no_early_pass (h x)) \<Longrightarrow> no_early_pass (Let l h)"
  by (auto split: option.split prod.split)

lemma code_loop_no_pass: "code_loop d name v11 r s \<noteq> Some Pass"
  by (induction d name v11 r s rule: code_loop.induct)
    (auto simp: compare_code_def Let_def split: event.splits if_splits)

lemma enforce_fault_no_pass: "enforce_fault lib name sc body \<noteq> Some Pass"
  using code_loop_no_pass
  by (auto simp: enforce_fault_def enforce_fault_code_def enforce_raw_xml_child_detail_def Let_def
      split: option.splits detail_policy.splits if_splits)

lemma status_error_no_pass [simp]: "status_error s sc \<noteq> Pass"
  by (simp add: status_error_def)

lemma compare_no_early_pass:
  "no_early_pass (compare_scenario lib name dir ep orc)"
  "no_early_pass (compare_wssec lib name dir ep orc)"
  "no_early_pass (compare_wsdl_rewrite lib name ep orc)"
  unfolding compare_scenario_def exchange_def judge_responses_def compare_wssec_def exchange_wssec_def judge_wssec_def
    compare_wsdl_rewrite_def load_scenario_def read_request_def
    validate_body_child_def wssec_masked_def wssec_canon_def
  by (intro early_intros; simp add: enforce_fault_no_pass)+

lemma call_scenario_pass:
  assumes "no_early_pass m"
    and "call_scenario (act_bind m (promote_if_passed lib flag store name)) w = (Inr Pass, w')"
  shows "\<exists>canon u. m w = (Inr (Pass, canon), u)"
proof -
  obtain r u where m: "m w = (r, u)" by force
  show ?thesis
  proof (cases r)
    case (Inl e)
    then show ?thesis
      using assms by (cases e) (auto simp: call_scenario_def act_bind_def m no_early_pass_def dest: spec [of _ w])
  next
    case (Inr vb)
    obtain v canon where vb: "vb = (v, canon)" by force
    have "call_scenario (act_bind m (promote_if_passed lib flag store name)) w =
        call_scenario (\<lambda>_. promote_if_passed lib flag store name (v, canon) u) w"
      by (simp add: call_scenario_def act_bind_def m Inr vb)
    then have "v = Pass"
      using assms(2)
      by (auto simp: call_scenario_def promote_if_passed_def act_bind_def act_log_err_def act_return_def split: if_splits)
    with m Inr vb show ?thesis by blast
  qed
qed

text \<open>The oracle accepted a document for a schema; it gave two documents the same canonical form.\<close>

definition accepted :: "'n harness_lib \<Rightarrow> xml_oracle \<Rightarrow> bytes \<Rightarrow> string \<Rightarrow> bool" where
  "accepted lib orc b schema \<longleftrightarrow> (\<exists>u u' r. oracle_validate lib orc b schema u = (Inr r, u') \<and> vr_valid r)"

definition same_canonical :: "'n harness_lib \<Rightarrow> xml_oracle \<Rightarrow> bytes \<Rightarrow> bytes \<Rightarrow> bool" where
  "same_canonical lib orc a b \<longleftrightarrow>
     (\<exists>u u' v v' canon. c14n lib orc a u = (Inr canon, u') \<and> c14n lib orc b v = (Inr canon, v'))"

definition child_accepted :: "'n harness_lib \<Rightarrow> xml_oracle \<Rightarrow> bytes \<Rightarrow> bool" where
  "child_accepted lib orc body \<longleftrightarrow>
     (\<exists>child. extract_body_child (hl_tok lib) body = Some child \<and> accepted lib orc child ''controlled'')"

text \<open>What a scenario with a given pair of responses must fulfil.\<close>

definition conforms ::
  "'n harness_lib \<Rightarrow> string \<Rightarrow> endpoints \<Rightarrow> xml_oracle \<Rightarrow> scenario \<Rightarrow> bytes \<Rightarrow> bytes \<Rightarrow> bool" where
  "conforms lib name ep orc sc ours theirs \<longleftrightarrow>
     accepted lib orc ours (vr_envelope_schema (routing_for (sn_soap_version sc) ep)) \<and>
     accepted lib orc theirs (vr_envelope_schema (routing_for (sn_soap_version sc) ep)) \<and>
     (sn_outcome sc = OutcomeSuccess \<longrightarrow> child_accepted lib orc ours \<and> child_accepted lib orc theirs) \<and>
     (\<exists>m m'. hl_mask_only lib ours (scenario_masks sc) = Inr m \<and>
        hl_mask_only lib theirs (scenario_masks sc) = Inr m' \<and> same_canonical lib orc m m') \<and>
     enforce_fault lib name sc ours = None"

lemma harness_Inr_iff: "harness prefix m w = (Inr x, w') \<longleftrightarrow> m w = (Inr x, w')"
  by (simp add: harness_def act_map_err_iff)

lemma harness_pure_Inr_iff: "harness_pure prefix r w = (Inr x, w') \<longleftrightarrow> r = Inr x \<and> w' = w"
  by (auto simp: harness_pure_def harness_Inr_iff)

lemma return_if_Inr_iff: "return_if ov w = (Inr x, w') \<longleftrightarrow> ov = None \<and> w' = w"
  by (cases ov) (auto simp: return_if_def return_verdict_def)

lemma validate_body_child_accepted:
  "validate_body_child lib orc sc side resp body u = (Inr (True, es), u') \<Longrightarrow>
   sn_outcome sc = OutcomeSuccess \<Longrightarrow> child_accepted lib orc body"
  by (auto simp: validate_body_child_def child_accepted_def accepted_def act_bind_Inr_iff harness_Inr_iff
      split: option.splits)

lemma evaluate_judged_pass:
  "evaluate \<lparr>ev_sut = judged lib m1 e1 c1 a, ev_reference = judged lib m2 e2 c2 b, ev_known_divergences = []\<rparr> = Some Pass \<Longrightarrow>
   vr_valid e1 \<and> fst c1 \<and> vr_valid e2 \<and> fst c2 \<and> a = b"
  by (auto simp: evaluate_def judged_def split: if_splits)

lemma return_if_status:
  "return_if (if s \<noteq> t then Some v else None) w = (Inr x, w') \<longleftrightarrow> s = t \<and> w' = w"
  by (auto simp: return_if_Inr_iff)

lemma judge_responses_pass:
  assumes "judge_responses lib name ep orc sc s ours theirs w = (Inr (Pass, canon), w')"
  shows "s = sn_expected_status sc \<and> conforms lib name ep orc sc ours theirs"
proof -
  obtain env1 env2 c1 c2 m1 m2 canon2 u1 u2 u3 u4 u5 where
    val: "oracle_validate lib orc ours (vr_envelope_schema (routing_for (sn_soap_version sc) ep)) w = (Inr env1, u1)"
      "oracle_validate lib orc theirs (vr_envelope_schema (routing_for (sn_soap_version sc) ep)) u1 = (Inr env2, u2)"
    and child: "validate_body_child lib orc sc ''our'' ''our response'' ours u2 = (Inr c1, u3)"
      "validate_body_child lib orc sc ''cxf'' ''CXF response'' theirs u3 = (Inr c2, u4)"
    and mask: "hl_mask_only lib ours (scenario_masks sc) = Inr m1" "hl_mask_only lib theirs (scenario_masks sc) = Inr m2"
    and canon: "c14n lib orc m1 u4 = (Inr canon, u5)" "c14n lib orc m2 u5 = (Inr canon2, w')"
    and rest: "s = sn_expected_status sc" "enforce_fault lib name sc ours = None"
    and ev: "evaluate \<lparr>ev_sut = judged lib ''our response schema-invalid: '' env1 c1 canon,
        ev_reference = judged lib ''reference schema-invalid: '' env2 c2 canon2, ev_known_divergences = []\<rparr> = Some Pass"
    using assms unfolding judge_responses_def Let_def act_bind_Inr_iff harness_Inr_iff harness_pure_Inr_iff
      return_if_status return_if_Inr_iff
    by (auto split: option.splits if_splits)
  have c: "c1 = (True, snd c1)" "c2 = (True, snd c2)" "vr_valid env1" "vr_valid env2" "canon2 = canon"
    using evaluate_judged_pass [OF ev] by (auto simp: prod_eq_iff)
  have "sn_outcome sc = OutcomeSuccess \<Longrightarrow> child_accepted lib orc ours \<and> child_accepted lib orc theirs"
    using child validate_body_child_accepted c(1,2) by metis
  then show ?thesis
    using val mask canon rest c unfolding conforms_def accepted_def same_canonical_def by blast
qed

text \<open>
  C21. A pass means what it says: when a conformance scenario passes, its request was posted to
  our server and to the reference, our status was the declared one, the oracle accepted both
  envelopes and, where success is declared, the first body child of both, the two responses have
  the same canonical form after masking and prefix rewriting, and the checks of a declared
  fault, its code and its detail, found no disagreement (a response in which no fault code is found
  passes the check of the code).
\<close>

theorem pass_means_conformance:
  assumes "name \<notin> set WSDL_REWRITE_SCENARIOS" and "name \<notin> set WSSEC_SCENARIOS"
    and "scenario_verdict lib dir ep orc flag store name w = (Inr Pass, w')"
  shows "\<exists>sc request ours s theirs w1 w2.
    load_scenario lib dir name w = (Inr sc, w) \<and> read_request dir sc w = (Inr request, w) \<and>
    post_request lib (our_url (routing_for (sn_soap_version sc) ep) ep) request (sn_content_type sc) w =
      (Inr (sn_expected_status sc, ours), w1) \<and>
    post_request lib (vr_cxf_url (routing_for (sn_soap_version sc) ep)) request (sn_content_type sc) w1 =
      (Inr (s, theirs), w2) \<and>
    conforms lib name ep orc sc ours theirs"
proof -
  have "call_scenario (run_scenario lib name dir ep orc flag store) w = (Inr Pass, w')"
    using assms unfolding scenario_verdict_def by simp
  then obtain canon u where "compare_scenario lib name dir ep orc w = (Inr (Pass, canon), u)"
    unfolding run_scenario_def using call_scenario_pass [OF compare_no_early_pass(1)] by blast
  then obtain sc status ours theirs u1 where ex: "exchange lib name dir ep w = (Inr (sc, status, ours, theirs), u1)"
    and judge: "judge_responses lib name ep orc sc status ours theirs u1 = (Inr (Pass, canon), u)"
    unfolding compare_scenario_def act_bind_Inr_iff by auto
  have "load_scenario lib dir name w = (Inr sc, w)"
    using ex by (auto simp: exchange_def Let_def load_scenario_def act_bind_Inr_iff harness_Inr_iff harness_pure_Inr_iff)
  with ex judge_responses_pass [OF judge] show ?thesis
    by (auto simp: exchange_def Let_def act_bind_Inr_iff harness_Inr_iff read_request_def)
qed

text \<open>A scenario that passes: both servers answer alike and the oracle accepts everything.\<close>

definition echo_scenario :: scenario where
  "echo_scenario =
     \<lparr>sn_name = ''op'', sn_operation = ''Echo'', sn_http_method = ''POST'', sn_http_path = ''/soap'',
      sn_content_type = ''text/xml'', sn_soap_version = SoapV12, sn_expected_status = 200,
      sn_outcome = OutcomeSuccess, sn_request_file = ''op.xml'', sn_fault = None, sn_interop_driven = False\<rparr>"

definition echo_harness :: "unit harness_lib" where
  "echo_harness = sample_harness\<lparr>hl_scenario := (\<lambda>_. Inr echo_scenario),
     hl_tok := (\<lambda>_ _. [Inr (Unbound, EvStart (tag_of ''Body'' [])), Inr (Unbound, EvEmpty (tag_of ''r'' []))])\<rparr>"

definition echo_world :: "unit world" where
  "echo_world = \<lparr>wd_net = (), wd_fs = \<lparr>fs_files = [''d/op.toml'' \<mapsto> ''t'', ''d/op.xml'' \<mapsto> ''q''], fs_dirs = {},
     fs_refuses = (\<lambda>_. None)\<rparr>\<rparr>"

lemma echo_net:
  "oracle_validate echo_harness orc b schema w = (Inr \<lparr>vr_valid = True, vr_errors = []\<rparr>, w)"
  "post_request echo_harness url b ct w = (Inr (200, ''j''), w)"
  "c14n echo_harness orc b w = (Inr ''j'', w)"
  by (simp_all add: oracle_validate_def post_request_def c14n_def act_bind_def on_net_def act_return_def act_lift_def
      echo_harness_def sample_harness_def validation_of_def is_success_status_def)

lemma echo_masked: "hl_mask_only echo_harness b ([], []) = Inr []"
  by (simp add: hl_mask_only_def echo_harness_def sample_harness_def mask_only_def apply_masks_def write_masked_start_def
      Let_def canonicalize_prefixes_def start_event_def)

lemma echo_child: "extract_body_child (hl_tok echo_harness) b = Some ''<r/>''"
  by (simp add: echo_harness_def extract_body_child_def last_local_def after_last_def tag_bytes_def)

lemma echo_judged:
  "judge_responses echo_harness name ep orc echo_scenario 200 ''j'' ''j'' w = (Inr (Pass, ''j''), w)"
proof -
  have child: "validate_body_child echo_harness orc echo_scenario side resp ''j'' w = (Inr (True, []), w)" for side resp
    by (simp add: validate_body_child_def echo_child echo_scenario_def echo_net act_return_def)
  have masks: "scenario_masks echo_scenario = ([], [])" by (simp add: scenario_masks_def echo_scenario_def)
  show ?thesis
    by (simp add: judge_responses_def Let_def echo_net child masks harness_pure_def echo_masked return_if_def
        act_lift_def)
      (simp add: echo_scenario_def enforce_fault_def judged_def evaluate_def act_return_def)
qed

lemma echo_exchange:
  "exchange echo_harness ''op'' ''d'' ep echo_world = (Inr (echo_scenario, 200, ''j'', ''j''), echo_world)"
proof -
  have path: "join_path ''d'' ''op.toml'' = ''d/op.toml''" "join_path ''d'' ''op.xml'' = ''d/op.xml''"
    by (simp_all add: join_path_def starts_with_def)
  have "load_scenario echo_harness ''d'' ''op'' echo_world = (Inr echo_scenario, echo_world)"
    by (simp add: load_scenario_def harness_pure_def act_read_def act_lift_def path echo_world_def fs_read_to_string_def
        fs_read_def from_utf8_def utf8_valid_ascii is_ascii_def byte_def echo_harness_def)
  moreover have "read_request ''d'' echo_scenario echo_world = (Inr ''q'', echo_world)"
    by (simp add: read_request_def act_read_def echo_scenario_def path echo_world_def fs_read_def)
  ultimately show ?thesis
    by (simp add: exchange_def Let_def echo_net act_return_def)
qed

lemma pass_means_conformance_witness:
  "\<exists>sc request ours s theirs w1 w2.
    load_scenario echo_harness ''d'' ''op'' echo_world = (Inr sc, echo_world) \<and>
    read_request ''d'' sc echo_world = (Inr request, echo_world) \<and>
    post_request echo_harness (our_url (routing_for (sn_soap_version sc) localhost_endpoints) localhost_endpoints) request
      (sn_content_type sc) echo_world = (Inr (sn_expected_status sc, ours), w1) \<and>
    post_request echo_harness (vr_cxf_url (routing_for (sn_soap_version sc) localhost_endpoints)) request (sn_content_type sc) w1 =
      (Inr (s, theirs), w2) \<and>
    conforms echo_harness ''op'' localhost_endpoints \<lparr>or_base = []\<rparr> sc ours theirs"
proof (rule pass_means_conformance)
  show "''op'' \<notin> set WSDL_REWRITE_SCENARIOS" "''op'' \<notin> set WSSEC_SCENARIOS"
    by (simp_all add: WSDL_REWRITE_SCENARIOS_def WSSEC_SCENARIOS_def)
  show "scenario_verdict echo_harness ''d'' localhost_endpoints \<lparr>or_base = []\<rparr> False store ''op'' echo_world = (Inr Pass, echo_world)"
    by (simp add: scenario_verdict_def WSDL_REWRITE_SCENARIOS_def WSSEC_SCENARIOS_def run_scenario_def
        compare_scenario_def call_scenario_def echo_exchange echo_judged promote_if_passed_def act_return_def)
qed

section \<open>WS-Security scenarios\<close>

definition wssec_normal_form :: "'n harness_lib \<Rightarrow> bytes \<Rightarrow> string + bytes" where
  "wssec_normal_form lib body =
     mask_only_with_drops (hl_tok lib) (hl_ntok lib) (hl_write lib) (hl_attr_err lib) body
       [mask_rule_new ''Envelope/Body/Fault/Reason/Text'']
       [attr_mask_rule_new ''Envelope/Body/Fault/Reason/Text'' ''xml:lang'']
       [mask_rule_new ''Envelope/Header'']"

lemma judge_wssec_pass:
  assumes "judge_wssec lib orc sc (s, ours) (s', theirs) w = (Inr (Pass, canon), w')"
  shows "s = sn_expected_status sc \<and> (s = 200 \<longleftrightarrow> sn_outcome sc = OutcomeSuccess) \<and>
    (s' = 200 \<longleftrightarrow> sn_outcome sc = OutcomeSuccess) \<and>
    accepted lib orc ours ''soap12-envelope'' \<and> accepted lib orc theirs ''soap12-envelope'' \<and>
    (\<exists>m m'. wssec_normal_form lib ours = Inr m \<and> wssec_normal_form lib theirs = Inr m' \<and>
      (sn_outcome sc = OutcomeSuccess \<longrightarrow> m \<noteq> [] \<longrightarrow> m' \<noteq> [] \<longrightarrow> same_canonical lib orc m m'))"
proof -
  obtain env1 env2 m1 m2 canon2 u1 u2 u3 u4 u5 where
    val: "oracle_validate lib orc ours ''soap12-envelope'' w = (Inr env1, u1)"
      "oracle_validate lib orc theirs ''soap12-envelope'' u1 = (Inr env2, u2)"
    and masked: "wssec_masked lib ''mask_only_with_drops our: '' (vr_valid env1) ours u2 = (Inr m1, u3)"
      "wssec_masked lib ''mask_only_with_drops cxf: '' (vr_valid env2) theirs u3 = (Inr m2, u4)"
    and canon: "wssec_canon lib orc ''oracle c14n our: '' (vr_valid env1) m1 u4 = (Inr canon, u5)"
      "wssec_canon lib orc ''oracle c14n cxf: '' (vr_valid env2) m2 u5 = (Inr canon2, w')"
    and status: "s = sn_expected_status sc"
    and ev: "evaluate_outcome_equivalence (sn_outcome sc = OutcomeSuccess)
          \<lparr>rs_schema_valid = vr_valid env1, rs_is_success = (s = 200), rs_masked_body_canon = canon\<rparr>
          \<lparr>rs_schema_valid = vr_valid env2, rs_is_success = (s' = 200), rs_masked_body_canon = canon2\<rparr> = Pass"
    using assms unfolding judge_wssec_def prod.case act_bind_Inr_iff harness_Inr_iff return_if_status
    by auto
  have v: "vr_valid env1" "vr_valid env2" "(s = 200) = (sn_outcome sc = OutcomeSuccess)"
    "(s' = 200) = (sn_outcome sc = OutcomeSuccess)" "sn_outcome sc = OutcomeSuccess \<Longrightarrow> canon = canon2"
    using ev by (auto simp: evaluate_outcome_equivalence_def split: if_splits)
  have nf: "wssec_normal_form lib ours = Inr m1" "wssec_normal_form lib theirs = Inr m2"
    using masked v(1,2) by (simp_all add: wssec_masked_def wssec_normal_form_def harness_pure_Inr_iff)
  have "same_canonical lib orc m1 m2" if "sn_outcome sc = OutcomeSuccess" "m1 \<noteq> []" "m2 \<noteq> []"
    using canon v(1,2,5) that unfolding same_canonical_def wssec_canon_def by (auto simp: harness_Inr_iff) metis
  with val v nf status show ?thesis unfolding accepted_def by blast
qed

text \<open>
  C34. A WS-Security scenario passes only for the outcome it declares: our server and the reference
  answered 200 exactly when success is declared, our status was the declared one, both
  envelopes were accepted, and on success the two bodies, without headers and reasons, have the
  same canonical form. Success is the status 200 alone: the code does not look for a Fault in the
  body.
\<close>

theorem wssec_pass_means_outcome:
  assumes "name \<in> set WSSEC_SCENARIOS"
    and "scenario_verdict lib dir ep orc flag store name w = (Inr Pass, w')"
  shows "\<exists>sc s ours s' theirs w1.
    exchange_wssec lib name dir ep w = (Inr (sc, (s, ours), (s', theirs)), w1) \<and>
    s = sn_expected_status sc \<and> (s = 200 \<longleftrightarrow> sn_outcome sc = OutcomeSuccess) \<and>
    (s' = 200 \<longleftrightarrow> sn_outcome sc = OutcomeSuccess) \<and>
    accepted lib orc ours ''soap12-envelope'' \<and> accepted lib orc theirs ''soap12-envelope'' \<and>
    (\<exists>m m'. wssec_normal_form lib ours = Inr m \<and> wssec_normal_form lib theirs = Inr m' \<and>
      (sn_outcome sc = OutcomeSuccess \<longrightarrow> m \<noteq> [] \<longrightarrow> m' \<noteq> [] \<longrightarrow> same_canonical lib orc m m'))"
proof -
  have "name \<notin> set WSDL_REWRITE_SCENARIOS"
    using assms(1) by (auto simp: WSSEC_SCENARIOS_def WSDL_REWRITE_SCENARIOS_def)
  then have "call_scenario (run_wssec_scenario lib name dir ep orc flag store) w = (Inr Pass, w')"
    using assms unfolding scenario_verdict_def by simp
  then obtain canon u where "compare_wssec lib name dir ep orc w = (Inr (Pass, canon), u)"
    unfolding run_wssec_scenario_def using call_scenario_pass [OF compare_no_early_pass(2)] by blast
  then obtain sc s ours s' theirs u1 where ex: "exchange_wssec lib name dir ep w = (Inr (sc, (s, ours), (s', theirs)), u1)"
    and judge: "judge_wssec lib orc sc (s, ours) (s', theirs) u1 = (Inr (Pass, canon), u)"
    unfolding compare_wssec_def act_bind_Inr_iff by auto
  show ?thesis using ex judge_wssec_pass [OF judge] by blast
qed

lemma wssec_pass_means_outcome_witness:
  "\<exists>sc s ours s' theirs w1.
    exchange_wssec echo_harness ''wssec_missing_auth'' ''d'' localhost_endpoints
      (echo_world\<lparr>wd_fs := (wd_fs echo_world)\<lparr>fs_files := [''d/wssec_missing_auth.toml'' \<mapsto> ''t'', ''d/op.xml'' \<mapsto> ''q'']\<rparr>\<rparr>) =
      (Inr (sc, (s, ours), (s', theirs)), w1) \<and>
    s = sn_expected_status sc \<and> (s = 200 \<longleftrightarrow> sn_outcome sc = OutcomeSuccess) \<and>
    (s' = 200 \<longleftrightarrow> sn_outcome sc = OutcomeSuccess) \<and>
    accepted echo_harness \<lparr>or_base = []\<rparr> ours ''soap12-envelope'' \<and> accepted echo_harness \<lparr>or_base = []\<rparr> theirs ''soap12-envelope'' \<and>
    (\<exists>m m'. wssec_normal_form echo_harness ours = Inr m \<and> wssec_normal_form echo_harness theirs = Inr m' \<and>
      (sn_outcome sc = OutcomeSuccess \<longrightarrow> m \<noteq> [] \<longrightarrow> m' \<noteq> [] \<longrightarrow> same_canonical echo_harness \<lparr>or_base = []\<rparr> m m'))"
  (is "\<exists>sc s ours s' theirs w1. exchange_wssec _ _ _ _ ?w = _ \<and> _")
proof (rule wssec_pass_means_outcome)
  show "''wssec_missing_auth'' \<in> set WSSEC_SCENARIOS" by (simp add: WSSEC_SCENARIOS_def)
  have path: "join_path ''d'' ''wssec_missing_auth.toml'' = ''d/wssec_missing_auth.toml''" "join_path ''d'' ''op.xml'' = ''d/op.xml''"
    by (simp_all add: join_path_def starts_with_def)
  have "load_scenario echo_harness ''d'' ''wssec_missing_auth'' ?w = (Inr echo_scenario, ?w)"
    by (simp add: load_scenario_def harness_pure_def act_read_def act_lift_def path echo_world_def fs_read_to_string_def
        fs_read_def from_utf8_def utf8_valid_ascii is_ascii_def byte_def echo_harness_def)
  moreover have "read_request ''d'' echo_scenario ?w = (Inr ''q'', ?w)"
    by (simp add: read_request_def act_read_def echo_scenario_def path echo_world_def fs_read_def)
  ultimately have ex: "exchange_wssec echo_harness ''wssec_missing_auth'' ''d'' localhost_endpoints ?w =
      (Inr (echo_scenario, (200, ''j''), (200, ''j'')), ?w)"
    by (simp add: exchange_wssec_def Let_def echo_net act_return_def)
  have masked: "wssec_masked echo_harness prefix True ''j'' w = (Inr [], w)" for prefix w
    by (simp add: wssec_masked_def harness_pure_def act_lift_def mask_only_with_drops_def drop_subtrees_def
        echo_harness_def sample_harness_def apply_masks_def write_masked_start_def Let_def canonicalize_prefixes_def
        start_event_def masked_at_def mask_rule_new_def local_name_def)
  have judge: "judge_wssec echo_harness \<lparr>or_base = []\<rparr> echo_scenario (200, ''j'') (200, ''j'') ?w = (Inr (Pass, []), ?w)"
    by (simp add: judge_wssec_def echo_net masked wssec_canon_def return_if_def act_return_def)
      (simp add: echo_scenario_def evaluate_outcome_equivalence_def)
  show "scenario_verdict echo_harness ''d'' localhost_endpoints \<lparr>or_base = []\<rparr> False store ''wssec_missing_auth'' ?w = (Inr Pass, ?w)"
    by (simp add: scenario_verdict_def WSDL_REWRITE_SCENARIOS_def WSSEC_SCENARIOS_def run_wssec_scenario_def
        compare_wssec_def call_scenario_def ex judge promote_if_passed_def act_return_def)
qed

end
