(* ===== verification/Compose.thy ===== *)
theory Compose
  imports RustStr Effects
begin

text \<open>
  The life cycle of the containers of a Layer-2 run (\<open>crossref/src/layer2/compose.rs\<close>): clean
  up, start, wait until every service is healthy, tear down. Running \<open>docker\<close>, reading the
  monotonic clock (in nanoseconds) and sleeping are parameters that act on a world.
\<close>

section \<open>Processes and time\<close>

record process_output =
  po_success :: bool
  po_code :: "int option"
  po_stdout :: bytes
  po_stderr :: bytes

record 'n docker_lib =
  dk_run :: "string option \<Rightarrow> string list \<Rightarrow> 'n \<Rightarrow> (string + process_output) \<times> 'n"
  dk_now :: "'n \<Rightarrow> nat"
  dk_sleep :: "nat \<Rightarrow> 'n \<Rightarrow> 'n"
  dk_dbg_args :: "string list \<Rightarrow> string"

definition COMPOSE_FILE :: string where
  "COMPOSE_FILE = ''crossref/docker-compose.yml''"

definition COMPOSE_LOCAL :: string where
  "COMPOSE_LOCAL = ''crossref/docker-compose.local.yml''"

definition compose_args :: "string list \<Rightarrow> string list" where
  "compose_args rest = [''compose'', ''-f'', COMPOSE_FILE, ''-f'', COMPOSE_LOCAL] @ rest"

definition run_docker :: "'n docker_lib \<Rightarrow> string \<Rightarrow> string list \<Rightarrow> ('n, string, unit) act" where
  "run_docker dk dir args =
     act_bind (act_map_err (\<lambda>e. ''docker: '' @ e) (dk_run dk (Some dir) args)) (\<lambda>out.
       if \<not> po_success out then
         act_fail (''docker '' @ dk_dbg_args dk args @ '' failed: '' @ from_utf8_lossy (po_stderr out))
       else act_return ())"

section \<open>Waiting\<close>

definition seconds :: "nat \<Rightarrow> nat" where
  "seconds n = n * 10 ^ 9"

text \<open>One round over the services: stops at the first that has no container or is not healthy.\<close>

fun all_healthy :: "'n docker_lib \<Rightarrow> string \<Rightarrow> string list \<Rightarrow> ('n, string, bool) act" where
  "all_healthy dk dir [] = act_return True"
| "all_healthy dk dir (s # ss) =
     act_bind (dk_run dk (Some dir) (compose_args [''ps'', ''-q'', s])) (\<lambda>out.
       let id = str_trim (from_utf8_lossy (po_stdout out)) in
       if id = [] then act_return False
       else act_bind (dk_run dk None [''inspect'', ''-f'', ''{{.State.Health.Status}}'', id]) (\<lambda>h.
         if str_trim (from_utf8_lossy (po_stdout h)) \<noteq> ''healthy'' then act_return False
         else all_healthy dk dir ss))"

definition not_healthy_in_time :: string where
  "not_healthy_in_time = ''topology did not become healthy in time''"

partial_function (option) wait_loop ::
  "'n docker_lib \<Rightarrow> string \<Rightarrow> string list \<Rightarrow> nat \<Rightarrow> nat \<Rightarrow> 'n \<Rightarrow> ((string + unit) \<times> 'n) option" where
  "wait_loop dk dir svcs max_secs start w =
     (case all_healthy dk dir svcs w of
        (Inl e, w') \<Rightarrow> Some (Inl e, w')
      | (Inr b, w') \<Rightarrow>
          if b then Some (Inr (), w')
          else if seconds max_secs < dk_now dk w' - start then Some (Inl not_healthy_in_time, w')
          else wait_loop dk dir svcs max_secs start (dk_sleep dk (seconds 2) w'))"

definition wait_healthy ::
  "'n docker_lib \<Rightarrow> string \<Rightarrow> string list \<Rightarrow> nat \<Rightarrow> 'n \<Rightarrow> ((string + unit) \<times> 'n) option" where
  "wait_healthy dk dir svcs max_secs w = wait_loop dk dir svcs max_secs (dk_now dk w) w"

section \<open>The topology\<close>

record topology =
  tp_repo_root :: string
  tp_down_on_drop :: bool

definition topology_down :: "'n docker_lib \<Rightarrow> string \<Rightarrow> ('n, string, unit) act" where
  "topology_down dk root = run_docker dk root (compose_args [''down'', ''-v''])"

definition topology_up :: "'n docker_lib \<Rightarrow> string \<Rightarrow> bool \<Rightarrow> 'n \<Rightarrow> ((string + topology) \<times> 'n) option" where
  "topology_up dk root keep_up w =
     (let w1 = snd (run_docker dk root (compose_args [''down'', ''-v'']) w) in
      case run_docker dk root (compose_args [''up'', ''-d'', ''--build'']) w1 of
        (Inl e, w2) \<Rightarrow> Some (Inl e, w2)
      | (Inr _, w2) \<Rightarrow>
          map_option
            (\<lambda>(r, w3). (case r of Inl e \<Rightarrow> Inl e
                                | Inr _ \<Rightarrow> Inr \<lparr>tp_repo_root = root, tp_down_on_drop = \<not> keep_up\<rparr>, w3))
            (wait_healthy dk root [''controlled-server'', ''cxf'', ''oracle''] 180 w2))"

definition topology_drop :: "'n docker_lib \<Rightarrow> topology \<Rightarrow> 'n \<Rightarrow> 'n" where
  "topology_drop dk t w = (if tp_down_on_drop t then snd (topology_down dk (tp_repo_root t) w) else w)"

section \<open>Properties\<close>

text \<open>
  The clock: sleeping takes at least the time asked for, and running a command does not turn
  the clock back.
\<close>

definition clock_ok :: "'n docker_lib \<Rightarrow> bool" where
  "clock_ok dk \<longleftrightarrow>
     (\<forall>d w. dk_now dk w + d \<le> dk_now dk (dk_sleep dk d w)) \<and>
     (\<forall>c as w. dk_now dk w \<le> dk_now dk (snd (dk_run dk c as w)))"

lemma all_healthy_clock:
  assumes "clock_ok dk"
  shows "dk_now dk w \<le> dk_now dk (snd (all_healthy dk dir svcs w))"
proof -
  let ?R = "\<lambda>w w'. dk_now dk w \<le> dk_now dk w'"
  have R: "reflp ?R" "transp ?R" by (auto simp: reflp_def transp_def)
  have "confined ?R (dk_run dk c as)" for c as
    using assms by (simp add: confined_def clock_ok_def)
  then have "confined ?R (all_healthy dk dir svcs)"
    by (induction svcs) (auto simp: Let_def intro!: confined_intros R)
  then show ?thesis by (simp add: confined_def)
qed

text \<open>Time left until the limit; it shrinks with every round that goes on.\<close>

lemma wait_loop_returns:
  assumes "clock_ok dk"
  shows "wait_loop dk dir svcs max_secs start w \<noteq> None"
proof (induction "start + seconds max_secs + 1 - dk_now dk w" arbitrary: w rule: less_induct)
  case less
  obtain r w' where round: "all_healthy dk dir svcs w = (r, w')" by force
  have later: "dk_now dk w \<le> dk_now dk w'" using all_healthy_clock [OF assms] round by (metis snd_conv)
  let ?w = "dk_sleep dk (seconds 2) w'"
  have "dk_now dk w' + seconds 2 \<le> dk_now dk ?w" using assms by (simp add: clock_ok_def)
  then have later': "dk_now dk w' < dk_now dk ?w" by (simp add: seconds_def)
  have "wait_loop dk dir svcs max_secs start ?w \<noteq> None" if "\<not> seconds max_secs < dk_now dk w' - start"
    using that later later' by (intro less) linarith
  then show ?case
    by (subst wait_loop.simps) (auto simp: round split: sum.split)
qed

text \<open>
  When the services are healthy from some moment on, every round is quick enough and none
  fails, then the loop returns success, provided that moment and one round lie within the limit.
\<close>

lemma wait_loop_succeeds:
  assumes clock: "clock_ok dk"
    and quick: "\<And>w. dk_now dk (snd (all_healthy dk dir svcs w)) \<le> dk_now dk w + D"
    and works: "\<And>w. \<exists>b. fst (all_healthy dk dir svcs w) = Inr b"
    and healthy: "\<And>w. T \<le> dk_now dk w \<Longrightarrow> fst (all_healthy dk dir svcs w) = Inr True"
    and limit: "T + D \<le> start + seconds max_secs"
  shows "\<exists>w'. wait_loop dk dir svcs max_secs start w = Some (Inr (), w')"
proof (induction "T - dk_now dk w" arbitrary: w rule: less_induct)
  case less
  obtain r w' where round: "all_healthy dk dir svcs w = (r, w')" by force
  obtain b where b: "r = Inr b" using works [of w] round by auto
  show ?case
  proof (cases b)
    case True
    then show ?thesis by (subst wait_loop.simps) (simp add: round b)
  next
    case False
    then have early: "dk_now dk w < T" using healthy [of w] round b by (auto simp: not_le [symmetric])
    have "dk_now dk w' \<le> dk_now dk w + D" using quick [of w] round by simp
    with early limit have in_time: "\<not> seconds max_secs < dk_now dk w' - start" by linarith
    let ?w = "dk_sleep dk (seconds 2) w'"
    have "dk_now dk w' + seconds 2 \<le> dk_now dk ?w" using clock by (simp add: clock_ok_def)
    then have "dk_now dk w < dk_now dk ?w"
      using all_healthy_clock [OF clock, of w dir svcs] round by (simp add: seconds_def)
    then have "\<exists>w'. wait_loop dk dir svcs max_secs start ?w = Some (Inr (), w')"
      using early by (intro less) linarith
    then show ?thesis
      using in_time False by (subst wait_loop.simps) (simp add: round b)
  qed
qed

text \<open>
  C39. Waiting for the containers ends: with a clock that advances it always returns, whatever
  docker answers; and when the services are healthy from some moment on that, with one round of
  checks, lies within the limit, it returns success.
\<close>

theorem wait_healthy_ends:
  assumes "clock_ok dk"
  shows "wait_healthy dk dir svcs max_secs w \<noteq> None \<and>
    ((\<forall>w. \<exists>b. fst (all_healthy dk dir svcs w) = Inr b) \<longrightarrow>
     (\<forall>w. dk_now dk (snd (all_healthy dk dir svcs w)) \<le> dk_now dk w + D) \<longrightarrow>
     (\<forall>w. T \<le> dk_now dk w \<longrightarrow> fst (all_healthy dk dir svcs w) = Inr True) \<longrightarrow>
     T + D \<le> dk_now dk w + seconds max_secs \<longrightarrow>
     (\<exists>w'. wait_healthy dk dir svcs max_secs w = Some (Inr (), w')))"
  unfolding wait_healthy_def
  using wait_loop_returns [OF assms] wait_loop_succeeds [OF assms, of dir svcs D T "dk_now dk w" max_secs w]
  by blast

text \<open>A docker whose services are healthy once five seconds have passed; the world is the time.\<close>

definition slow_docker :: "nat docker_lib" where
  "slow_docker =
     \<lparr>dk_run = (\<lambda>c as t. (Inr \<lparr>po_success = True, po_code = Some 0,
          po_stdout = (if seconds 5 \<le> t then ''healthy'' else []), po_stderr = []\<rparr>, t)),
      dk_now = id, dk_sleep = (\<lambda>d t. t + d), dk_dbg_args = (\<lambda>_. [])\<rparr>"

lemma slow_round:
  "all_healthy slow_docker dir [s] t = (Inr (seconds 5 \<le> t), t)"
proof -
  have "from_utf8_lossy ''healthy'' = ''healthy''"
    by (simp add: from_utf8_lossy_valid utf8_valid_ascii is_ascii_def byte_def)
  moreover have "str_trim ''healthy'' = ''healthy''"
    by (simp add: str_trim_def trim_start.simps ws_len_def byte_def)
  moreover have "str_trim [] = []" by (simp add: str_trim_def trim_start.simps)
  ultimately show ?thesis
    by (simp add: slow_docker_def act_bind_def act_return_def Let_def)
qed

lemma wait_healthy_ends_witness:
  "\<exists>w'. wait_healthy slow_docker ''.'' [''cxf''] 180 0 = Some (Inr (), w')"
proof -
  have "clock_ok slow_docker" by (simp add: clock_ok_def slow_docker_def)
  moreover have now: "dk_now slow_docker t = t" for t by (simp add: slow_docker_def)
  ultimately show ?thesis
    using wait_healthy_ends [of slow_docker "''.''" "[''cxf'']" 180 0 0 "seconds 5", THEN conjunct2]
    by (simp only: slow_round now fst_conv snd_conv) (simp add: seconds_def)
qed

end
