(* ===== verification/Interop.thy ===== *)
theory Interop
  imports Layer2Props Compose
begin

text \<open>
  The interop clients (\<open>crossref/src/layer2/interop.rs\<close>) and the entry point of a Layer-2 run
  (\<open>crossref/src/bin/layer2.rs\<close>): third-party clients run in containers against our server, and
  the exit code of the whole run.
\<close>

section \<open>Clients\<close>

record interop_client =
  ic_service :: string
  ic_scenario :: string

definition CLIENTS :: "interop_client list" where
  "CLIENTS =
     [\<lparr>ic_service = ''cxf-client'', ic_scenario = ''interop_cxf_echo''\<rparr>,
      \<lparr>ic_service = ''zeep-client'', ic_scenario = ''interop_zeep_echo''\<rparr>]"

text \<open>The decimal form of an exit code.\<close>

definition int_to_string :: "int \<Rightarrow> string" where
  "int_to_string i = (if i < 0 then ''-'' @ nat_to_string (nat (- i)) else nat_to_string (nat i))"

definition exit_code_of :: "process_output \<Rightarrow> int" where
  "exit_code_of out = (case po_code out of Some c \<Rightarrow> c | None \<Rightarrow> - 1)"

text \<open>The canonical bytes when the output looks like XML and the oracle can do it, else the output.\<close>

definition canonical_evidence :: "'n harness_lib \<Rightarrow> xml_oracle \<Rightarrow> string \<Rightarrow> ('n world, exit, bytes) act" where
  "canonical_evidence lib orc trimmed =
     (if starts_with ''<'' trimmed then
        (\<lambda>w. case c14n lib orc trimmed w of
               (Inr canon, w') \<Rightarrow> (Inr canon, w')
             | (Inl _, w') \<Rightarrow> (Inr trimmed, w'))
      else act_return trimmed)"

definition newline :: string where
  "newline = [CHR 0x0A]"

definition interop_failure :: "interop_client \<Rightarrow> int \<Rightarrow> string \<Rightarrow> string \<Rightarrow> verdict" where
  "interop_failure client code out err =
     SutFail (''interop client '' @ apostrophe @ ic_service client @ apostrophe @ '' (scenario '' @ apostrophe @
       ic_scenario client @ apostrophe @ '') exited '' @ int_to_string code @ '' '' @ em_dash @
       '' could not complete operations against our server (REAL INTEROP FINDING).'' @ newline @
       ''stdout: '' @ out @ newline @ ''stderr: '' @ err)"

definition run_one_client ::
  "'n harness_lib \<Rightarrow> 'n docker_lib \<Rightarrow> interop_client \<Rightarrow> string \<Rightarrow> xml_oracle \<Rightarrow> snapshot_store \<Rightarrow> bool \<Rightarrow>
   ('n world, exit, verdict) act" where
  "run_one_client lib dk client root orc store promote_on_pass =
     act_bind (act_map_err
       (\<lambda>e. Return (HarnessError (''failed to spawn docker compose run for '' @ ic_service client @ '': '' @ e)))
       (on_net (dk_run dk (Some root)
         (compose_args [''--profile'', ''interop'', ''run'', ''--rm'', ic_service client])))) (\<lambda>output.
     let out = from_utf8_lossy (po_stdout output); err = from_utf8_lossy (po_stderr output);
         code = exit_code_of output in
     if code = 125 \<or> code = 126 \<or> code = 127 then
       act_return (HarnessError (''docker compose run infrastructure failure (exit '' @ int_to_string code @
         '') for '' @ ic_service client @ '': stderr='' @ err))
     else if code \<noteq> 0 then act_return (interop_failure client code out err)
     else act_bind (canonical_evidence lib orc (str_trim out)) (\<lambda>evidence.
       promote_if_passed lib promote_on_pass store (ic_scenario client) (Pass, evidence)))"

fun interop_rows ::
  "(interop_client \<Rightarrow> ('n world, exit, verdict) act) \<Rightarrow> interop_client list \<Rightarrow>
   ('n world, exit, (string \<times> verdict) list) act" where
  "interop_rows f [] = act_return []"
| "interop_rows f (c # cs) =
     act_bind (call_scenario (f c)) (\<lambda>v.
     act_bind (interop_rows f cs) (\<lambda>rows. act_return ((ic_scenario c, v) # rows)))"

definition run_interop ::
  "'n harness_lib \<Rightarrow> 'n docker_lib \<Rightarrow> string \<Rightarrow> xml_oracle \<Rightarrow> snapshot_store \<Rightarrow> bool \<Rightarrow>
   ('n world, exit, (string \<times> verdict) list) act" where
  "run_interop lib dk root orc store promote_on_pass =
     interop_rows (\<lambda>c. run_one_client lib dk c root orc store promote_on_pass) CLIENTS"

section \<open>The entry point\<close>

fun arg_after :: "string \<Rightarrow> string list \<Rightarrow> string option" where
  "arg_after flag [] = None"
| "arg_after flag (x # xs) =
     (if x = flag then (case xs of y # _ \<Rightarrow> Some y | [] \<Rightarrow> None) else arg_after flag xs)"

definition scenarios_filter :: "string list \<Rightarrow> string list option" where
  "scenarios_filter args =
     map_option (\<lambda>csv. if csv = ''__none__'' then [] else map str_trim (split_char CHR '','' csv))
       (arg_after ''--scenarios'' args)"

definition layer2_report ::
  "'n harness_lib \<Rightarrow> 'n docker_lib \<Rightarrow> string list \<Rightarrow> ('n world, exit, report) act" where
  "layer2_report lib dk args =
     (let promote_flag = ''--promote'' \<in> set args; ep = localhost_endpoints; root = ''.'';
          store = \<lparr>ss_dir = join_path root ''crossref/snapshots''\<rparr>; orc = \<lparr>or_base = ep_oracle ep\<rparr> in
      act_bind (run_conformance lib ep root promote_flag (scenarios_filter args)) (\<lambda>rp.
        if ''--interop'' \<in> set args then
          act_bind (run_interop lib dk root orc store promote_flag) (\<lambda>rows.
            act_return (rp\<lparr>rp_rows := rp_rows rp @ rows\<rparr>))
        else act_return rp))"

definition drop_topology :: "'n docker_lib \<Rightarrow> topology \<Rightarrow> 'n world \<Rightarrow> 'n world" where
  "drop_topology dk t w = w\<lparr>wd_net := topology_drop dk t (wd_net w)\<rparr>"

text \<open>
  The exit code: 2 when the containers do not come up, 0 or 1 by the report; a panic unwinds,
  drops the topology and gives 101. \<open>None\<close> is a wait that never ends.
\<close>

definition layer2_main ::
  "'n harness_lib \<Rightarrow> 'n docker_lib \<Rightarrow> string list \<Rightarrow> 'n world \<Rightarrow> (nat \<times> 'n world) option" where
  "layer2_main lib dk args w =
     (case topology_up dk ''.'' (''--keep-up'' \<in> set args) (wd_net w) of
        None \<Rightarrow> None
      | Some (Inl e, n) \<Rightarrow> Some (2, w\<lparr>wd_net := n\<rparr>)
      | Some (Inr topo, n) \<Rightarrow>
          (case layer2_report lib dk args (w\<lparr>wd_net := n\<rparr>) of
             (Inl _, w') \<Rightarrow> Some (101, drop_topology dk topo w')
           | (Inr rp, w') \<Rightarrow> Some (if is_green rp then 0 else 1, drop_topology dk topo w')))"

section \<open>Properties\<close>

lemma run_rows_names: "run_rows f ns w = (Inr rows, w') \<Longrightarrow> map fst rows = ns"
  by (induction ns arbitrary: w rows) (auto simp: act_bind_Inr_iff)

lemma promote_if_passed_verdict:
  "\<exists>w'. promote_if_passed lib flag store name (v, b) w = (Inr v, w')"
  by (simp add: promote_if_passed_def act_bind_def act_log_err_def act_return_def)

lemma canonical_evidence_total: "\<exists>ev u. canonical_evidence lib orc t w = (Inr ev, u)"
proof (cases "starts_with ''<'' t")
  case True
  obtain r u where "c14n lib orc t w = (r, u)" by force
  with True show ?thesis by (cases r) (auto simp: canonical_evidence_def)
next
  case False
  then show ?thesis by (simp add: canonical_evidence_def act_return_def)
qed

text \<open>
  An interop client passes exactly when its process exits with code zero: codes 125 to 127
  and a client that cannot be started are errors of the harness, any other code, or a signal,
  is a failure of our server, and what the client printed decides nothing.
\<close>

theorem interop_passes_iff_exit_zero:
  assumes "dk_run dk (Some root) (compose_args [''--profile'', ''interop'', ''run'', ''--rm'', ic_service client])
      (wd_net w) = (Inr out, n)"
  shows "\<exists>v w'. run_one_client lib dk client root orc store flag w = (Inr v, w') \<and>
    (v = Pass \<longleftrightarrow> exit_code_of out = 0) \<and>
    (exit_code_of out \<in> {125, 126, 127} \<longleftrightarrow> (\<exists>msg. v = HarnessError msg)) \<and>
    (exit_code_of out \<notin> {0, 125, 126, 127} \<longleftrightarrow> (\<exists>msg. v = SutFail msg))"
proof -
  let ?net = "\<lambda>w. w\<lparr>wd_net := n\<rparr>"
  obtain ev u where ev: "canonical_evidence lib orc (str_trim (from_utf8_lossy (po_stdout out))) (?net w) = (Inr ev, u)"
    using canonical_evidence_total by blast
  obtain w' where "promote_if_passed lib flag store (ic_scenario client) (Pass, ev) u = (Inr Pass, w')"
    using promote_if_passed_verdict by blast
  then show ?thesis
    by (simp add: run_one_client_def act_bind_def act_map_err_def on_net_def assms Let_def ev act_return_def
        interop_failure_def)
qed

definition client_docker :: "int \<Rightarrow> unit docker_lib" where
  "client_docker code =
     \<lparr>dk_run = (\<lambda>c as n. (Inr \<lparr>po_success = (code = 0), po_code = Some code, po_stdout = ''ok'', po_stderr = []\<rparr>, n)),
      dk_now = (\<lambda>_. 0), dk_sleep = (\<lambda>d n. n), dk_dbg_args = (\<lambda>_. [])\<rparr>"

lemma interop_passes_iff_exit_zero_witness:
  "\<exists>v w'. run_one_client lib (client_docker 0) \<lparr>ic_service = ''zeep-client'', ic_scenario = ''i''\<rparr> ''.'' orc store flag w = (Inr v, w') \<and>
     v = Pass"
  using interop_passes_iff_exit_zero [of "client_docker 0" "''.''" "\<lparr>ic_service = ''zeep-client'', ic_scenario = ''i''\<rparr>" w
      "\<lparr>po_success = True, po_code = Some 0, po_stdout = ''ok'', po_stderr = []\<rparr>" "()" lib orc store flag]
  by (auto simp: client_docker_def exit_code_of_def)

text \<open>
  C40. Exit code zero is a clean run: the containers came up, and every in-scope scenario that
  was selected ran, in order, with a verdict that is a pass or a declared divergence.
\<close>

theorem exit_zero_means_clean_run:
  assumes "layer2_main lib dk args w = Some (0, w')"
  shows "\<exists>topo n rows w1.
    topology_up dk ''.'' (''--keep-up'' \<in> set args) (wd_net w) = Some (Inr topo, n) \<and>
    run_rows (scenario_verdict lib (join_path ''.'' ''crossref/scenarios'') localhost_endpoints
        \<lparr>or_base = ep_oracle localhost_endpoints\<rparr> (''--promote'' \<in> set args)
        \<lparr>ss_dir = join_path ''.'' ''crossref/snapshots''\<rparr>)
      (selected (scenarios_filter args)) (w\<lparr>wd_net := n\<rparr>) = (Inr rows, w1) \<and>
    map fst rows = selected (scenarios_filter args) \<and> list_all (\<lambda>(_, v). is_ok v) rows"
proof -
  obtain topo n rp w1 where up: "topology_up dk ''.'' (''--keep-up'' \<in> set args) (wd_net w) = Some (Inr topo, n)"
    and rep: "layer2_report lib dk args (w\<lparr>wd_net := n\<rparr>) = (Inr rp, w1)" and green: "is_green rp"
    using assms by (auto simp: layer2_main_def split: option.splits sum.splits prod.splits if_splits)
  obtain rp0 u where conf: "run_conformance lib localhost_endpoints ''.'' (''--promote'' \<in> set args) (scenarios_filter args)
      (w\<lparr>wd_net := n\<rparr>) = (Inr rp0, u)" and pre: "\<exists>more. rp_rows rp = rp_rows rp0 @ more"
    using rep by (auto simp: layer2_report_def Let_def act_bind_Inr_iff split: if_splits)
  obtain rows u1 where rows: "run_rows (scenario_verdict lib (join_path ''.'' ''crossref/scenarios'') localhost_endpoints
        \<lparr>or_base = ep_oracle localhost_endpoints\<rparr> (''--promote'' \<in> set args)
        \<lparr>ss_dir = join_path ''.'' ''crossref/snapshots''\<rparr>)
      (selected (scenarios_filter args)) (w\<lparr>wd_net := n\<rparr>) = (Inr rows, u1)" and rp0: "rp_rows rp0 = rows"
    using conf unfolding run_conformance_def Let_def act_bind_Inr_iff by auto
  have "list_all (\<lambda>(_, v). is_ok v) rows"
    using green pre unfolding is_green_def rp0 by auto
  with up rows run_rows_names [OF rows] show ?thesis by blast
qed

definition ready_docker :: "unit docker_lib" where
  "ready_docker =
     \<lparr>dk_run = (\<lambda>c as n. (Inr \<lparr>po_success = True, po_code = Some 0, po_stdout = ''healthy'', po_stderr = []\<rparr>, n)),
      dk_now = (\<lambda>_. 0), dk_sleep = (\<lambda>d n. n), dk_dbg_args = (\<lambda>_. [])\<rparr>"

lemma ready_docker_up: "topology_up ready_docker root keep n = Some (Inr \<lparr>tp_repo_root = root, tp_down_on_drop = \<not> keep\<rparr>, ())"
proof -
  have "from_utf8_lossy ''healthy'' = ''healthy''"
    by (simp add: from_utf8_lossy_valid utf8_valid_ascii is_ascii_def byte_def)
  moreover have "str_trim ''healthy'' = ''healthy''"
    by (simp add: str_trim_def trim_start.simps ws_len_def byte_def)
  ultimately have "all_healthy ready_docker dir svcs w = (Inr True, w)" for dir svcs w
    by (induction svcs) (simp_all add: ready_docker_def act_bind_def act_return_def Let_def)
  then have "wait_healthy ready_docker dir svcs m w = Some (Inr (), w)" for dir svcs m w
    by (simp add: wait_healthy_def wait_loop.simps)
  moreover have "run_docker ready_docker dir args w = (Inr (), w)" for dir args w
    by (simp add: run_docker_def ready_docker_def act_bind_def act_map_err_def act_return_def)
  ultimately show ?thesis by (simp add: topology_up_def Let_def)
qed

lemma sample_report:
  "\<exists>rp w'. layer2_report sample_harness ready_docker [''--promote'', ''--scenarios'', ''wsdl_rewrite_single''] w = (Inr rp, w') \<and>
     rp_rows rp = [(''wsdl_rewrite_single'', Pass)]"
proof -
  have trim: "str_trim ''wsdl_rewrite_single'' = ''wsdl_rewrite_single''"
    by (simp add: str_trim_def trim_start.simps ws_len_def byte_def)
  have "scenarios_filter [''--promote'', ''--scenarios'', ''wsdl_rewrite_single''] = Some [''wsdl_rewrite_single'']"
    by (simp add: scenarios_filter_def trim)
  moreover have "selected (Some [''wsdl_rewrite_single'']) = [''wsdl_rewrite_single'']"
    by (simp add: selected_def IN_SCOPE_def)
  ultimately show ?thesis
    by (simp add: layer2_report_def run_conformance_def Let_def sample_verdict act_read_def act_return_def act_bind_def)
qed

lemma exit_zero_means_clean_run_witness:
  "\<exists>w'. layer2_main sample_harness ready_docker [''--promote'', ''--scenarios'', ''wsdl_rewrite_single''] sample_world = Some (0, w') \<and>
     (\<exists>rows. map fst rows = selected (scenarios_filter [''--promote'', ''--scenarios'', ''wsdl_rewrite_single'']) \<and>
        list_all (\<lambda>(_, v). is_ok v) rows)"
proof -
  obtain w' where "layer2_main sample_harness ready_docker [''--promote'', ''--scenarios'', ''wsdl_rewrite_single''] sample_world = Some (0, w')"
    using sample_report [of "sample_world\<lparr>wd_net := ()\<rparr>"]
    by (auto simp: layer2_main_def ready_docker_up is_green_def)
  with exit_zero_means_clean_run [OF this] show ?thesis by blast
qed

text \<open>A run whose filter names no scenario in scope is clean as well: nothing ran.\<close>

lemma nothing_selected_is_green:
  assumes "set ns \<inter> set IN_SCOPE = {}"
  shows "\<exists>rp w'. run_conformance lib ep root flag (Some ns) w = (Inr rp, w') \<and> rp_rows rp = [] \<and> is_green rp"
proof -
  have "selected (Some ns) = []" using assms by (auto simp: selected_def filter_empty_conv)
  then show ?thesis
    by (simp add: run_conformance_def Let_def is_green_def act_bind_def act_read_def act_return_def)
qed

end
