(* ===== verification/FaultDoc.thy ===== *)
theory FaultDoc
  imports Server HarnessProps
begin

text \<open>
  The fault answers of the server as documents: what a client finds in the bytes of
  \<open>fault_response\<close> when its reader gives the tree that they are the text of, and what the
  checks of the harness say of them.
\<close>

section \<open>The tree of a fault\<close>

text \<open>
  The pieces that stand for the escaped reason and for the content of the detail element, if
  there is one, are left open: how a reader cuts text into pieces is its own affair.
\<close>

definition soap12_fault_tree :: "fault_code \<Rightarrow> xml list \<Rightarrow> xml list option \<Rightarrow> xml" where
  "soap12_fault_tree c reason_items detail_items =
     (let el = XElem (Bound SOAP12_NS) in
      el ''env:Fault'' []
        ([el ''env:Code'' [] [el ''env:Value'' [] [XText (as_soap12_str c)]],
          el ''env:Reason'' [] [el ''env:Text'' [(''xml:lang'', ''en'')] reason_items]] @
         (case detail_items of Some ds \<Rightarrow> [el ''env:Detail'' [] ds] | None \<Rightarrow> [])))"

definition soap11_fault_tree :: "fault_code \<Rightarrow> xml list \<Rightarrow> xml list option \<Rightarrow> xml" where
  "soap11_fault_tree c reason_items detail_items =
     XElem (Bound SOAP11_NS) ''SOAP-ENV:Fault'' []
       ([XElem Unbound ''faultcode'' [] [XText (soap11_fault_code c)],
         XElem Unbound ''faultstring'' [] reason_items] @
        (case detail_items of Some ds \<Rightarrow> [XElem Unbound ''detail'' [] ds] | None \<Rightarrow> []))"

fun fault_tree :: "soap_version \<Rightarrow> fault_code \<Rightarrow> xml list \<Rightarrow> xml list option \<Rightarrow> xml" where
  "fault_tree Soap12 c rs ds = soap12_fault_tree c rs ds"
| "fault_tree Soap11 c rs ds = soap11_fault_tree c rs ds"

definition fault_prefix :: "soap_version \<Rightarrow> string" where
  "fault_prefix v = (case v of Soap12 \<Rightarrow> ''env'' | Soap11 \<Rightarrow> ''SOAP-ENV'')"

definition fault_envelope :: "soap_version \<Rightarrow> xml \<Rightarrow> xml" where
  "fault_envelope v x =
     XElem (Bound (version_ns v)) (fault_prefix v @ '':Envelope'') [(''xmlns:'' @ fault_prefix v, version_ns v)]
       [XElem (Bound (version_ns v)) (fault_prefix v @ '':Body'') [] [x]]"

text \<open>What the serialiser writes into the reason and the detail of a fault.\<close>

definition detail_text :: "(string \<Rightarrow> string) \<Rightarrow> soap_version \<Rightarrow> soap_fault \<Rightarrow> bytes option" where
  "detail_text esc v f =
     (case (detail_xml f, v) of
        (Some raw, _) \<Rightarrow> Some raw
      | (None, Soap12) \<Rightarrow> None
      | (None, Soap11) \<Rightarrow> map_option (escape_text esc) (detail f))"

definition stands_for :: "(string \<Rightarrow> string) \<Rightarrow> soap_version \<Rightarrow> soap_fault \<Rightarrow> xml list \<Rightarrow> xml list option \<Rightarrow> bool" where
  "stands_for esc v f rs ds \<longleftrightarrow>
     concat (map copied rs) = escape_text esc (reason f) \<and>
     map_option (\<lambda>ds. concat (map copied ds)) ds = detail_text esc v f"

lemma fault_tree_text:
  assumes "stands_for esc v f rs ds"
  shows "copied (fault_envelope v (fault_tree v (code f) rs ds)) = to_xml_bytes_versioned esc f v"
proof (cases v)
  case Soap12
  have "concat (map copied (case ds of Some ds \<Rightarrow> [XElem res ''env:Detail'' [] ds] | None \<Rightarrow> [])) =
      soap12_detail f" for res
    using assms by (auto simp: Soap12 stands_for_def detail_text_def soap12_detail_def emit_attrs_def end_tag_def
        split: option.splits)
  with assms show ?thesis
    by (simp add: Soap12 fault_envelope_def fault_prefix_def version_ns_def soap12_fault_tree_def Let_def
        to_xml_bytes_def stands_for_def emit_attrs_def emit_attr_def end_tag_def SOAP12_NS_def)
next
  case Soap11
  have "concat (map copied (case ds of Some ds \<Rightarrow> [XElem Unbound ''detail'' [] ds] | None \<Rightarrow> [])) =
      soap11_detail esc f"
    using assms by (cases "detail f") (auto simp: Soap11 stands_for_def detail_text_def soap11_detail_def
        emit_attrs_def end_tag_def split: option.splits)
  with assms show ?thesis
    by (simp add: Soap11 fault_envelope_def fault_prefix_def version_ns_def soap11_fault_tree_def
        to_xml_bytes_v11_def stands_for_def emit_attrs_def emit_attr_def end_tag_def SOAP11_NS_def)
qed

section \<open>Reading it as an envelope\<close>

lemma events_fault_envelope:
  "events (fault_envelope v x) =
     envelope_events [] (Bound (version_ns v)) (fault_prefix v @ '':Envelope'')
       [(''xmlns:'' @ fault_prefix v, version_ns v)]
       [XElem (Bound (version_ns v)) (fault_prefix v @ '':Body'') [] [x]] []"
  by (simp add: fault_envelope_def envelope_events_def)

lemma fault_prefix_decl: "ns_decls [(''xmlns:'' @ fault_prefix v, version_ns v)] = [(fault_prefix v, version_ns v)]"
proof -
  have "utf8_valid (version_ns v)"
    by (cases v) (simp_all add: version_ns_def SOAP12_NS_def SOAP11_NS_def utf8_valid_ascii is_ascii_def byte_def)
  then show ?thesis
    using ns_decl_key [of "fault_prefix v" "version_ns v"]
    by (cases v) (simp_all add: fault_prefix_def ns_decls_def ns_key_def prefix_ok_def utf8_valid_ascii
        is_ascii_def byte_def starts_with_def)
qed

lemma parse_fault_envelope:
  assumes "tok False input = events (fault_envelope v x)" and "is_elem x"
  shows "parse_envelope tok input = Inr
    \<lparr>env_soap_version = v, header_children = [],
     body_element = copied (body_fragment [(fault_prefix v, version_ns v)] x)\<rparr>"
proof -
  have soap: "ns_bytes (Bound (version_ns v)) = SOAP12_NS \<or> ns_bytes (Bound (version_ns v)) = SOAP11_NS"
    by (cases v) (simp_all add: ns_bytes_def version_ns_def)
  have "local_part (fault_prefix v @ '':Envelope'') = ''Envelope''" "local_part (fault_prefix v @ '':Body'') = ''Body''"
    by (cases v; simp add: local_part_def fault_prefix_def)+
  with parse_envelope_document [of tok, OF assms(1) [unfolded events_fault_envelope]] soap assms(2)
  show ?thesis
    by (simp add: read_envelope_def version_ns_props fault_prefix_decl [simplified] part_of_named ns_decls_def [of "[]"])
qed

section \<open>The checks of the harness\<close>

text \<open>The name by which a scenario declares the code: SOAP 1.1 has other names for two of them.\<close>

fun declared_code :: "soap_version \<Rightarrow> fault_code \<Rightarrow> string" where
  "declared_code Soap12 Sender = ''Sender''"
| "declared_code Soap12 Receiver = ''Receiver''"
| "declared_code Soap12 DataEncodingUnknown = ''DataEncodingUnknown''"
| "declared_code Soap11 Sender = ''Client''"
| "declared_code Soap11 Receiver = ''Server''"
| "declared_code Soap11 DataEncodingUnknown = ''Server''"
| "declared_code _ VersionMismatch = ''VersionMismatch''"
| "declared_code _ MustUnderstand = ''MustUnderstand''"

definition written_code :: "soap_version \<Rightarrow> fault_code \<Rightarrow> string" where
  "written_code v c = (case v of Soap12 \<Rightarrow> as_soap12_str c | Soap11 \<Rightarrow> soap11_fault_code c)"

lemma read_written_code: "after_last CHR '':'' (str_trim (utf8_or_empty (written_code v c))) = declared_code v c"
proof -
  have "utf8_or_empty (written_code v c) = written_code v c"
    by (cases v; cases c) (simp_all add: written_code_def utf8_valid_ascii is_ascii_def byte_def)
  then show ?thesis
    by (cases v; cases c)
      (simp_all add: written_code_def str_trim_def trim_start.simps ws_len_def byte_def after_last_def)
qed

lemma fault_code_found:
  assumes "tok True body = events (fault_envelope v (fault_tree v c rs ds))"
  shows "enforce_fault_code tok body d name (v = Soap11) = None \<longleftrightarrow> d = declared_code v c"
proof -
  have "enforce_fault_code tok body d name (v = Soap11) = compare_code d name (utf8_or_empty (written_code v c))"
    by (cases v) (simp_all add: enforce_fault_code_def assms fault_envelope_def fault_prefix_def
        soap12_fault_tree_def soap11_fault_tree_def Let_def code_start_def code_target_def last_local_def
        after_last_def written_code_def)
  then show ?thesis
    by (auto simp: compare_code_def Let_def read_written_code)
qed

text \<open>The scan for a raw detail, over items that are neither errors nor the end.\<close>

definition detail_steps :: "item list \<Rightarrow> detail_scan \<Rightarrow> detail_scan" where
  "detail_steps is s = fold (\<lambda>i s. case i of Inr (_, ev) \<Rightarrow> detail_step ev s | Inl _ \<Rightarrow> s) is s"

lemma detail_loop_events: "detail_loop (events x @ r) s = detail_loop r (detail_steps (events x) s)"
proof -
  have run: "detail_loop (is @ r) s = detail_loop r (detail_steps is s)"
    if "\<forall>i \<in> set is. \<exists>res ev. i = Inr (res, ev) \<and> ev \<noteq> EvEof" for "is" r s
    using that by (induction "is" arbitrary: s) (auto simp: detail_steps_def)
  have "\<forall>i \<in> set (events x). \<exists>res ev. i = Inr (res, ev) \<and> ev \<noteq> EvEof"
    by (induction x) auto
  then show ?thesis by (rule run)
qed

lemma detail_steps_append: "detail_steps (xs @ ys) s = detail_steps ys (detail_steps xs s)"
  by (simp add: detail_steps_def)

text \<open>Text that the scan does not take for escaped markup.\<close>

definition plain_piece :: "bytes \<Rightarrow> bool" where
  "plain_piece t \<longleftrightarrow>
     (let text = utf8_or_empty t in \<not> str_contains ''&lt;'' text \<and> \<not> starts_with ''<'' (str_trim text))"

fun plain_texts :: "xml \<Rightarrow> bool" where
  "plain_texts (XElem res n as cs) = list_all plain_texts cs"
| "plain_texts (XText t) = plain_piece t"
| "plain_texts x = True"

definition raw_found :: "detail_scan \<Rightarrow> bool" where
  "raw_found s \<longleftrightarrow> dt_seen s \<and> dt_child s \<and> \<not> dt_escaped s"

lemma raw_found_steps:
  assumes "raw_found s" and "plain_texts x"
  shows "raw_found (detail_steps (events x) s)"
  using assms
proof (induction x arbitrary: s)
  case (XElem res n as cs)
  have kids: "raw_found (detail_steps (all_events ys) s)" if "set ys \<subseteq> set cs" and "raw_found s" for ys s
    using that
  proof (induction ys arbitrary: s)
    case Nil
    then show ?case by (simp add: detail_steps_def)
  next
    case (Cons y ys)
    with XElem.IH [of y s] XElem.prems(2) show ?case
      by (auto simp: detail_steps_append list_all_iff)
  qed
  have opened: "raw_found (detail_step (EvStart (tag_of n as)) s)"
    using XElem.prems(1) by (simp add: raw_found_def)
  have closed: "raw_found u \<Longrightarrow> raw_found (detail_step (EvEnd n) u)" for u
    by (simp add: raw_found_def)
  from closed [OF kids [OF subset_refl opened]] show ?case
    by (simp add: detail_steps_def)
qed (simp_all add: detail_steps_def raw_found_def plain_piece_def Let_def)

lemma raw_found_all:
  "raw_found s \<Longrightarrow> list_all plain_texts xs \<Longrightarrow> raw_found (detail_steps (all_events xs) s)"
proof (induction xs arbitrary: s)
  case Nil
  then show ?case by (simp add: detail_steps_def)
next
  case (Cons x xs)
  then show ?case by (simp add: detail_steps_append raw_found_steps)
qed

text \<open>Outside of a detail element nothing but its start tag is noticed.\<close>

lemma detail_steps_before:
  assumes "\<not> dt_in_detail s" and "list_all (\<lambda>x. \<not> is_elem x) xs"
  shows "detail_steps (all_events xs) s = s"
  using assms(2)
proof (induction xs)
  case Nil
  then show ?case by (simp add: detail_steps_def)
next
  case (Cons x xs)
  then have "detail_steps (events x) s = s"
    using assms(1) by (cases x) (simp_all add: detail_steps_def)
  with Cons show ?case by (simp add: detail_steps_append)
qed

lemma raw_detail_found:
  assumes tok: "tok False body = events (fault_envelope Soap12 (fault_tree Soap12 c rs (Some (XElem res n as cs # post))))"
    and rs: "list_all (\<lambda>x. \<not> is_elem x) rs" and n: "last_local n \<noteq> ''Detail''"
    and plain: "list_all plain_texts cs" "list_all plain_texts post"
  shows "enforce_raw_xml_child_detail tok body name = None"
proof -
  let ?s0 = "\<lparr>dt_in_detail = False, dt_child = False, dt_escaped = False, dt_seen = False\<rparr>"
  let ?s1 = "\<lparr>dt_in_detail = True, dt_child = False, dt_escaped = False, dt_seen = True\<rparr>"
  have loop: "detail_loop (tok False body) ?s0 = detail_steps (tok False body) ?s0"
    using detail_loop_events [of _ "[]"] by (simp add: tok)
  have names: "last_local ''env:Envelope'' = ''Envelope''" "last_local ''env:Body'' = ''Body''"
    "last_local ''env:Fault'' = ''Fault''" "last_local ''env:Code'' = ''Code''"
    "last_local ''env:Value'' = ''Value''" "last_local ''env:Reason'' = ''Reason''"
    "last_local ''env:Text'' = ''Text''" "last_local ''env:Detail'' = ''Detail''"
    by (simp_all add: last_local_def after_last_def)
  have single: "detail_steps (Inr (r, ev) # is) s = detail_steps is (detail_step ev s)" for r ev "is" s
    by (simp add: detail_steps_def)
  have none: "detail_steps [] s = s" for s by (simp add: detail_steps_def)
  have reason: "detail_steps (all_events rs) ?s0 = ?s0"
    by (rule detail_steps_before) (use rs in simp_all)
  have "raw_found (detail_steps (all_events cs) (?s1\<lparr>dt_child := True\<rparr>))"
    by (rule raw_found_all) (use plain in \<open>simp_all add: raw_found_def\<close>)
  then have "raw_found (detail_step (EvEnd n) (detail_steps (all_events cs) (?s1\<lparr>dt_child := True\<rparr>)))"
    by (simp add: raw_found_def)
  from raw_found_all [OF this plain(2)]
  have "raw_found (detail_steps (tok False body) ?s0)"
    using n reason
    by (simp add: tok fault_envelope_def fault_prefix_def soap12_fault_tree_def Let_def names
        detail_steps_append single none raw_found_def)
  then show ?thesis
    by (simp add: enforce_raw_xml_child_detail_def loop raw_found_def Let_def)
qed

section \<open>The answer to a POST that is not a success\<close>

text \<open>The version it speaks: the envelope's, failing that the content type's, failing that SOAP 1.2.\<close>

definition refusal_version :: "server_lib \<Rightarrow> headers \<Rightarrow> bytes \<Rightarrow> soap_version" where
  "refusal_version lib h body =
     (case detect_soap_version (request_content_type h) of
        Inl _ \<Rightarrow> Soap12
      | Inr v \<Rightarrow> (case parse_envelope (sl_tok lib) body of Inl _ \<Rightarrow> v | Inr env \<Rightarrow> env_soap_version env))"

lemma open_request_fault:
  "open_request lib table h body = Inl r \<Longrightarrow> \<exists>f. r = fault_response lib f (refusal_version lib h body)"
  by (auto simp: open_request_def refusal_version_def map_err_def split: sum.splits)

lemma open_request_refusal_version:
  "open_request lib table h body = Inr (envelope, entry) \<Longrightarrow> refusal_version lib h body = env_soap_version envelope"
  by (auto simp: open_request_def refusal_version_def map_err_def split: sum.splits)

lemma authenticate_fault:
  "authenticate lib svc envelope entry now inst cache = Some (Inl (Respond r), cache') \<Longrightarrow>
   \<exists>f. r = fault_response lib f (env_soap_version envelope)"
  by (auto simp: authenticate_def Let_def split: option.splits sum.splits failure.splits if_splits)

lemma invoke_fault:
  "invoke lib svc envelope entry s = (r, s') \<Longrightarrow> status r \<noteq> 200 \<Longrightarrow>
   \<exists>f. r = fault_response lib f (env_soap_version envelope)"
  by (auto simp: invoke_def Let_def split: sum.splits prod.splits)

lemma refusal_is_fault:
  assumes "soap_post_handler lib svc h body now inst (cache, s) = Some (Respond r, cache', s')"
    and "status r \<noteq> 200"
  shows "\<exists>f. r = fault_response lib f (refusal_version lib h body)"
  using assms(1)
proof (cases rule: soap_post_cases)
  case (early r')
  with open_request_fault [OF early(1)] show ?thesis by simp
next
  case (refused envelope entry)
  with authenticate_fault [OF refused(2)] open_request_refusal_version [OF refused(1)] show ?thesis by simp
next
  case (invoked envelope entry r')
  with invoke_fault [OF invoked(3)] open_request_refusal_version [OF invoked(1)] assms(2) show ?thesis by simp
qed

lemma is_elem_fault_tree [simp]: "is_elem (fault_tree v c rs ds)"
  by (cases v) (simp_all add: soap12_fault_tree_def soap11_fault_tree_def Let_def)

text \<open>A detail that begins with an element and holds no escaped markup.\<close>

fun raw_detail :: "xml list \<Rightarrow> bool" where
  "raw_detail (XElem res n as cs # post) \<longleftrightarrow>
     last_local n \<noteq> ''Detail'' \<and> list_all plain_texts cs \<and> list_all plain_texts post"
| "raw_detail _ \<longleftrightarrow> False"

lemma raw_detail_passes:
  assumes "tok False body = events (fault_envelope Soap12 (fault_tree Soap12 c rs (Some ds)))"
    and "list_all (\<lambda>x. \<not> is_elem x) rs" and "raw_detail ds"
  shows "enforce_raw_xml_child_detail tok body name = None"
  using assms(3,1,2) by (cases ds rule: raw_detail.cases) (auto intro: raw_detail_found)

text \<open>
  C25. A POST that is not answered with success is answered with a fault document that a SOAP
  client can read: status 500 in the version of the envelope (failing that of the content
  type, failing that SOAP 1.2), a body that is the text of the fault's tree with the reason
  and the detail in their places, which is read back as an envelope around that fault, whose
  code is found under the version's name of it and no other, and whose raw detail is found to be
  one in SOAP 1.2 when it begins with an element that has an end tag and holds no escaped markup.
\<close>

theorem refused_post_is_readable_fault:
  assumes "soap_post_handler lib svc h body now inst (cache, s) = Some (Respond r, cache', s')"
    and "status r \<noteq> 200" and "refusal_version lib h body = v"
  shows "status r = 500 \<and> content_type r = Some (response_content_type v) \<and>
    (\<exists>f. r = fault_response lib f v) \<and>
    (\<forall>f. r = fault_response lib f v \<longrightarrow>
      (\<forall>rs ds x. stands_for (sl_esc lib) v f rs ds \<and> x = fault_tree v (code f) rs ds \<longrightarrow>
         resp_body r = copied (fault_envelope v x) \<and>
         (\<forall>tok. tok False (resp_body r) = events (fault_envelope v x) \<longrightarrow>
            parse_envelope tok (resp_body r) = Inr
              \<lparr>env_soap_version = v, header_children = [],
               body_element = copied (body_fragment [(fault_prefix v, version_ns v)] x)\<rparr>)) \<and>
      (\<forall>tok rs ds. tok True (resp_body r) = events (fault_envelope v (fault_tree v (code f) rs ds)) \<longrightarrow>
         (\<forall>d name. enforce_fault_code tok (resp_body r) d name (v = Soap11) = None \<longleftrightarrow>
            d = declared_code v (code f))) \<and>
      (\<forall>tok rs ds. v = Soap12 \<and> list_all (\<lambda>x. \<not> is_elem x) rs \<and> raw_detail ds \<and>
           tok False (resp_body r) = events (fault_envelope v (fault_tree v (code f) rs (Some ds))) \<longrightarrow>
         (\<forall>name. enforce_raw_xml_child_detail tok (resp_body r) name = None)))"
proof -
  have refusal: "\<exists>f. r = fault_response lib f v" using refusal_is_fault [OF assms(1,2)] assms(3) by simp
  have printed: "resp_body r = copied (fault_envelope v (fault_tree v (code f) rs ds))"
    if "r = fault_response lib f v" and "stands_for (sl_esc lib) v f rs ds" for f rs ds
    using fault_tree_text [OF that(2)] that(1) by (simp add: fault_response_def)
  from refusal have "status r = 500" "content_type r = Some (response_content_type v)" by auto
  with refusal show ?thesis
  proof (intro conjI allI impI; (elim conjE)?)
    fix f name and tok :: tokenizer and rs ds
    assume "v = Soap12" and "list_all (\<lambda>x. \<not> is_elem x) rs" and "raw_detail ds"
      and "tok False (resp_body r) = events (fault_envelope v (fault_tree v (code f) rs (Some ds)))"
    then show "enforce_raw_xml_child_detail tok (resp_body r) name = None"
      using raw_detail_passes [of tok "resp_body r" "code f" rs ds name] by (simp del: fault_tree.simps)
  next
    fix f rs ds x
    assume "r = fault_response lib f v" and "stands_for (sl_esc lib) v f rs ds" and "x = fault_tree v (code f) rs ds"
    then show "resp_body r = copied (fault_envelope v x)" using printed by simp
  next
    fix f rs ds x and tok :: tokenizer
    assume x: "x = fault_tree v (code f) rs ds" and read: "tok False (resp_body r) = events (fault_envelope v x)"
    show "parse_envelope tok (resp_body r) = Inr
        \<lparr>env_soap_version = v, header_children = [],
         body_element = copied (body_fragment [(fault_prefix v, version_ns v)] x)\<rparr>"
      using read by (rule parse_fault_envelope [where tok = tok and input = "resp_body r" and v = v])
        (simp only: x is_elem_fault_tree)
  next
    fix f rs ds d name and tok :: tokenizer
    assume "tok True (resp_body r) = events (fault_envelope v (fault_tree v (code f) rs ds))"
    then show "enforce_fault_code tok (resp_body r) d name (v = Soap11) = None \<longleftrightarrow> d = declared_code v (code f)"
      by (rule fault_code_found)
  qed assumption+
qed

text \<open>A request with no content type, and a reader of its answer.\<close>

lemma untyped_post:
  "soap_post_handler echo_lib echo_service (\<lambda>_. None) ''req'' 5 5 (sample_cache, 0) =
     Some (Respond (fault_response echo_lib version_mismatch Soap12), sample_cache, 0)"
  by (simp add: soap_post_handler_def open_request_def map_err_def request_content_type_def header_str_def
      detect_soap_version_def)

definition untyped_answer :: xml where
  "untyped_answer = fault_tree Soap12 VersionMismatch [XText (reason version_mismatch)] None"

lemma untyped_answer_stands_for:
  "stands_for (sl_esc echo_lib) Soap12 version_mismatch [XText (reason version_mismatch)] None"
  by (simp add: stands_for_def detail_text_def version_mismatch_def fault_new_def echo_lib_def
      escape_text_def xml_escape_def xml_escape_char_def)

lemma refused_post_is_readable_fault_witness:
  "(let body = resp_body (fault_response echo_lib version_mismatch Soap12);
        tok = (\<lambda>_ _. events (fault_envelope Soap12 untyped_answer))
    in parse_envelope tok body = Inr
         \<lparr>env_soap_version = Soap12, header_children = [],
          body_element = copied (body_fragment [(''env'', SOAP12_NS)] untyped_answer)\<rparr> \<and>
       enforce_fault_code tok body ''VersionMismatch'' ''name'' False = None)"
proof -
  have "refusal_version echo_lib (\<lambda>_. None) ''req'' = Soap12"
    by (simp add: refusal_version_def request_content_type_def header_str_def detect_soap_version_def)
  note answer = refused_post_is_readable_fault [OF untyped_post _ this, THEN conjunct2, THEN conjunct2,
      THEN conjunct2, THEN spec [where x = version_mismatch], THEN mp [OF _ refl]]
  let ?items = "[XText (reason version_mismatch)]"
  let ?body = "resp_body (fault_response echo_lib version_mismatch Soap12)"
  let ?tok = "\<lambda>_ _. events (fault_envelope Soap12 untyped_answer)"
  have c: "code version_mismatch = VersionMismatch" by (simp add: version_mismatch_def fault_new_def)
  have u: "untyped_answer = fault_tree Soap12 (code version_mismatch) ?items None"
    by (simp add: untyped_answer_def c)
  have e: "declared_code Soap12 (code version_mismatch) = ''VersionMismatch''" by (simp add: c)
  have failed: "status (fault_response echo_lib version_mismatch Soap12) \<noteq> 200" by simp
  from answer [OF failed, THEN conjunct1, THEN spec [where x = ?items], THEN spec [where x = None],
      THEN spec [where x = untyped_answer], THEN mp, OF conjI [OF untyped_answer_stands_for u],
      THEN conjunct2, THEN spec [where x = ?tok], THEN mp, OF refl]
  have "parse_envelope ?tok ?body = Inr
      \<lparr>env_soap_version = Soap12, header_children = [],
       body_element = copied (body_fragment [(''env'', SOAP12_NS)] untyped_answer)\<rparr>"
    by (simp add: fault_prefix_def version_ns_def)
  moreover from answer [OF failed, THEN conjunct2, THEN conjunct1, THEN spec [where x = ?tok],
      THEN spec [where x = ?items], THEN spec [where x = None], THEN mp,
      THEN spec [where x = "''VersionMismatch''"], THEN spec [where x = "''name''"]]
  have "enforce_fault_code ?tok ?body ''VersionMismatch'' ''name'' False = None"
    by (simp add: u e del: fault_tree.simps)
  ultimately show ?thesis by (simp add: Let_def)
qed

end
