(* ===== verification/Controlled.thy ===== *)
theory Controlled
  imports Server XmlDoc
begin

text \<open>
  The controlled service of the harness, built with the crate it tests: its handlers
  (\<open>crossref/src/handlers.rs\<close>) and the services under test (\<open>crossref/src/sut.rs\<close>,
  \<open>crossref/src/bin/controlled_server.rs\<close>). The two WSDL fixtures are arguments, as the files that
  are included at compile time.
\<close>

section \<open>Reading a value\<close>

text \<open>The five predefined entities.\<close>

definition resolve_predefined_entity :: "string \<Rightarrow> char option" where
  "resolve_predefined_entity name =
     (if name = ''lt'' then Some CHR ''<''
      else if name = ''gt'' then Some CHR ''>''
      else if name = ''amp'' then Some CHR ''&''
      else if name = ''apos'' then Some CHR 0x27
      else if name = ''quot'' then Some CHR 0x22
      else None)"

definition ends_with :: "string \<Rightarrow> string \<Rightarrow> bool" where
  "ends_with suffix s \<longleftrightarrow> starts_with (rev suffix) (rev s)"

text \<open>The loop: its variables are whether it is in the target, and the text so far.\<close>

fun text_loop :: "string \<Rightarrow> reader \<Rightarrow> bool \<Rightarrow> string \<Rightarrow> string option" where
  "text_loop suffix [] in_target acc = None"
| "text_loop suffix (Inl e # r) in_target acc = None"
| "text_loop suffix (Inr (_, ev) # r) in_target acc =
     (case ev of
        EvEof \<Rightarrow> None
      | EvStart e \<Rightarrow>
          if ends_with suffix (utf8_or_empty (local_part (tag_name e))) then text_loop suffix r True []
          else text_loop suffix r in_target acc
      | EvText t \<Rightarrow> text_loop suffix r in_target (if in_target then acc @ utf8_or_empty t else acc)
      | EvGeneralRef n \<Rightarrow>
          text_loop suffix r in_target
            (if in_target then
               (case resolve_predefined_entity (utf8_or_empty n) of Some c \<Rightarrow> acc @ [c] | None \<Rightarrow> acc)
             else acc)
      | EvEnd n \<Rightarrow> if in_target then Some acc else text_loop suffix r in_target acc
      | _ \<Rightarrow> text_loop suffix r in_target acc)"

definition extract_first_text_by_suffix :: "tokenizer \<Rightarrow> bytes \<Rightarrow> string \<Rightarrow> string option" where
  "extract_first_text_by_suffix tok body suffix = text_loop suffix (tok False body) False []"

definition extract_text :: "tokenizer \<Rightarrow> bytes \<Rightarrow> string option" where
  "extract_text tok body = extract_first_text_by_suffix tok body ''Text''"

definition extract_value :: "tokenizer \<Rightarrow> bytes \<Rightarrow> string option" where
  "extract_value tok body = extract_first_text_by_suffix tok body ''Value''"

section \<open>Handlers\<close>

definition attr_quoted :: "string \<Rightarrow> string" where
  "attr_quoted s = [CHR 0x22] @ s @ [CHR 0x22]"

definition CONTROLLED_NS :: string where
  "CONTROLLED_NS = ''http://crossref.example/controlled''"

definition echo_response_bytes :: "string \<Rightarrow> bytes" where
  "echo_response_bytes escaped =
     ''<c:EchoResponse xmlns:c='' @ attr_quoted CONTROLLED_NS @ ''><c:Text>'' @ escaped @
     ''</c:Text></c:EchoResponse>''"

definition echo_named_response_bytes :: "string \<Rightarrow> bytes" where
  "echo_named_response_bytes escaped =
     ''<c:EchoNamedResponse xmlns:c='' @ attr_quoted CONTROLLED_NS @ ''><c:Value>'' @ escaped @
     ''</c:Value></c:EchoNamedResponse>''"

definition or_empty :: "string option \<Rightarrow> string" where
  "or_empty x = (case x of Some s \<Rightarrow> s | None \<Rightarrow> [])"

definition echo_handler :: "server_lib \<Rightarrow> 's soap_handler" where
  "echo_handler lib =
     fn_handler (\<lambda>body s.
       (Inr (echo_response_bytes (escape_text (sl_esc lib) (or_empty (extract_text (sl_tok lib) body)))), s))"

definition echo_named_handler :: "server_lib \<Rightarrow> 's soap_handler" where
  "echo_named_handler lib =
     fn_handler (\<lambda>body s.
       (Inr (echo_named_response_bytes (escape_text (sl_esc lib) (or_empty (extract_value (sl_tok lib) body)))), s))"

definition faulty_handler :: "'s soap_handler" where
  "faulty_handler =
     fn_handler (\<lambda>body s.
       (Inl (with_detail_xml
          (''<c:ErrorInfo xmlns:c='' @ attr_quoted CONTROLLED_NS @
           ''><c:Field>missing-text</c:Field></c:ErrorInfo>'') (sender ''operation failed'')), s))"

definition fixed_handler :: "bytes \<Rightarrow> 's soap_handler" where
  "fixed_handler response = fn_handler (\<lambda>body s. (Inr response, s))"

section \<open>Services under test\<close>

text \<open>The builder with its path and the three handlers, as every service of the harness has it.\<close>

definition controlled_at :: "string \<Rightarrow> server_lib \<Rightarrow> bytes \<Rightarrow> 's server_builder" where
  "controlled_at path lib wsdl =
     with_handler ''Faulty'' faulty_handler
       (with_handler ''EchoNamed'' (echo_named_handler lib)
         (with_handler ''Echo'' (echo_handler lib)
           (with_path path (from_wsdl_bytes wsdl))))"

definition controlled_base :: "server_lib \<Rightarrow> bytes \<Rightarrow> 's server_builder" where
  "controlled_base lib wsdl = controlled_at ''/soap'' lib wsdl"

definition controlled_auth :: "string \<Rightarrow> string option" where
  "controlled_auth user = (if user = ''alice'' then Some ''secret'' else None)"

text \<open>\<open>build().expect(..)\<close>: no service is a panic.\<close>

definition expect_built :: "(build_error + 's soap_service) option \<Rightarrow> 's soap_service option" where
  "expect_built r = (case r of Some (Inr svc) \<Rightarrow> Some svc | _ \<Rightarrow> None)"

definition build_controlled_sut :: "server_lib \<Rightarrow> nat \<Rightarrow> bytes \<Rightarrow> 's soap_service option" where
  "build_controlled_sut lib inst wsdl = expect_built (build lib inst (controlled_base lib wsdl))"

definition build_controlled_sut_authed :: "server_lib \<Rightarrow> nat \<Rightarrow> bytes \<Rightarrow> 's soap_service option" where
  "build_controlled_sut_authed lib inst wsdl =
     expect_built (build lib inst
       (with_timestamp_tolerance_secs 3153600000 (with_auth controlled_auth (controlled_base lib wsdl))))"

definition build_controlled_sut_authed_strict :: "server_lib \<Rightarrow> nat \<Rightarrow> bytes \<Rightarrow> 's soap_service option" where
  "build_controlled_sut_authed_strict lib inst wsdl =
     expect_built (build lib inst
       (with_timestamp_tolerance_secs 300 (with_auth controlled_auth (controlled_base lib wsdl))))"

definition multi_response :: "string \<Rightarrow> bytes" where
  "multi_response op =
     ''<tns:'' @ op @ ''Response xmlns:tns='' @ attr_quoted ''http://example.com/multi'' @ ''/>''"

definition build_multi_service_sut :: "server_lib \<Rightarrow> nat \<Rightarrow> bytes \<Rightarrow> 's soap_service option" where
  "build_multi_service_sut lib inst wsdl =
     expect_built (build lib inst
       (with_handler ''OpB'' (fixed_handler (multi_response ''OpB''))
         (with_handler ''OpA'' (fixed_handler (multi_response ''OpA'')) (from_wsdl_bytes wsdl))))"

text \<open>
  The four services of the container and the routes of the merged router; the services keep
  their own state, so a route comes with its service.
\<close>

definition controlled_services :: "server_lib \<Rightarrow> nat \<Rightarrow> bytes \<Rightarrow> bytes \<Rightarrow> 's soap_service option list" where
  "controlled_services lib inst wsdl multi =
     [expect_built (build lib inst (controlled_at ''/soap'' lib wsdl)),
      expect_built (build lib inst
        (with_timestamp_tolerance_secs 3153600000 (with_auth controlled_auth
          (controlled_at ''/soapsec'' lib wsdl)))),
      expect_built (build lib inst
        (with_timestamp_tolerance_secs 300 (with_auth controlled_auth
          (controlled_at ''/soapsec-strict'' lib wsdl)))),
      build_multi_service_sut lib inst multi]"

definition merged_routes :: "'s soap_service list \<Rightarrow> (string \<times> 's soap_service \<times> 's endpoint) list" where
  "merged_routes svcs =
     concat (map (\<lambda>svc. map (\<lambda>(p, ep). (p, svc, ep)) (routes (into_router svc))) svcs)"

section \<open>Properties\<close>

text \<open>The text that a run of pieces stands for.\<close>

fun piece_text :: "xml \<Rightarrow> string" where
  "piece_text (XText t) = utf8_or_empty t"
| "piece_text (XRef n) = (case resolve_predefined_entity (utf8_or_empty n) of Some c \<Rightarrow> [c] | None \<Rightarrow> [])"
| "piece_text _ = []"

fun no_target :: "string \<Rightarrow> item \<Rightarrow> bool" where
  "no_target suffix (Inr (_, EvStart e)) \<longleftrightarrow> \<not> ends_with suffix (utf8_or_empty (local_part (tag_name e)))"
| "no_target suffix (Inr (_, ev)) \<longleftrightarrow> ev \<noteq> EvEof"
| "no_target suffix (Inl _) \<longleftrightarrow> False"

lemma text_loop_before:
  "list_all (no_target suffix) pre \<Longrightarrow> text_loop suffix (pre @ r) False acc = text_loop suffix r False acc"
proof (induction pre)
  case (Cons i pre)
  then obtain res ev where "i = Inr (res, ev)" by (cases i) auto
  with Cons show ?case by (cases ev) simp_all
qed simp

lemma text_loop_pieces:
  "list_all (\<lambda>x. \<not> is_elem x) ps \<Longrightarrow>
   text_loop suffix (all_events ps @ r) True acc = text_loop suffix r True (acc @ concat (map piece_text ps))"
proof (induction ps arbitrary: acc)
  case (Cons p ps)
  then show ?case by (cases p) (simp_all split: option.split)
qed simp

text \<open>The value of the first element that is looked for, when it holds no element.\<close>

lemma extract_first_text:
  assumes "tok False body = pre @ events (XElem res n as ps) @ post"
    and "list_all (no_target suffix) pre" and "ends_with suffix (utf8_or_empty (local_part n))"
    and "list_all (\<lambda>x. \<not> is_elem x) ps"
  shows "extract_first_text_by_suffix tok body suffix = Some (concat (map piece_text ps))"
  using text_loop_before [OF assms(2), of "events (XElem res n as ps) @ post" "[]"]
    text_loop_pieces [OF assms(4), of suffix "Inr (res, EvEnd n) # post" "[]"] assms(3)
  by (simp add: extract_first_text_by_suffix_def assms(1))

text \<open>
  Echo gives back the text it was sent, whatever characters it has: the response holds the
  escaped text of the first Text element of the request, entity references decoded, and a reader
  that reads the escaped text back as pieces of the same text reads the same value.
\<close>

theorem echo_round_trip:
  assumes "sl_tok lib False body = pre @ events (XElem res n as ps) @ post"
    and "list_all (no_target ''Text'') pre" and "ends_with ''Text'' (utf8_or_empty (local_part n))"
    and "list_all (\<lambda>x. \<not> is_elem x) ps"
    and "sl_tok lib False (echo_response_bytes (escape_text (sl_esc lib) (concat (map piece_text ps)))) =
      events (XElem res' ''c:EchoResponse'' as' [XElem res' ''c:Text'' [] qs])"
    and "list_all (\<lambda>x. \<not> is_elem x) qs" and "concat (map piece_text qs) = concat (map piece_text ps)"
  shows "\<exists>response. handle_with_headers (echo_handler lib) body headers s = (Inr response, s) \<and>
    response = echo_response_bytes (escape_text (sl_esc lib) (concat (map piece_text ps))) \<and>
    extract_text (sl_tok lib) response = extract_text (sl_tok lib) body"
proof -
  have request: "extract_text (sl_tok lib) body = Some (concat (map piece_text ps))"
    unfolding extract_text_def
    by (rule extract_first_text [where pre = pre and res = res and n = n and as = as and ps = ps and post = post])
      (use assms(1-4) in simp_all)
  have names: "utf8_or_empty (local_part ''c:EchoResponse'') = ''EchoResponse''"
    "utf8_or_empty (local_part ''c:Text'') = ''Text''"
    by (simp_all add: local_part_def utf8_valid_ascii is_ascii_def byte_def)
  have "extract_text (sl_tok lib) (echo_response_bytes (escape_text (sl_esc lib) (concat (map piece_text ps)))) =
      Some (concat (map piece_text qs))"
    unfolding extract_text_def
    by (rule extract_first_text [where pre = "[Inr (res', EvStart (tag_of ''c:EchoResponse'' as'))]"
          and res = res' and n = "''c:Text''" and as = "[]" and post = "[Inr (res', EvEnd ''c:EchoResponse'')]"])
      (use assms(5,6) in \<open>simp_all add: names ends_with_def starts_with_def\<close>)
  with request show ?thesis
    by (simp add: echo_handler_def fn_handler_def default_handle_with_headers_def or_empty_def assms(7))
qed

text \<open>A tokeniser that reads one request and the answer to it.\<close>

definition controlled_lib :: server_lib where
  "controlled_lib = echo_lib\<lparr>sl_wss := (sl_wss echo_lib)\<lparr>wl_tok := \<lambda>trim xml.
     if xml = ''req'' then
       events (XElem Unbound ''Echo'' [] [XElem Unbound ''Text'' [] [XText ''a'', XRef ''lt'', XText ''b'']])
     else events (XElem Unbound ''c:EchoResponse'' [] [XElem Unbound ''c:Text'' [] [XText ''a'', XRef ''lt'', XText ''b'']])\<rparr>\<rparr>"

theorem echo_round_trip_witness:
  "\<exists>response. handle_with_headers (echo_handler controlled_lib) ''req'' [] (0 :: nat) = (Inr response, 0) \<and>
     response = echo_response_bytes (escape_text xml_escape ''a<b'') \<and>
     extract_text (sl_tok controlled_lib) response = extract_text (sl_tok controlled_lib) ''req''"
proof -
  have ascii: "utf8_or_empty ''Text'' = ''Text''" "utf8_or_empty ''Echo'' = ''Echo''" "utf8_or_empty ''a'' = ''a''"
    "utf8_or_empty ''b'' = ''b''" "utf8_or_empty ''lt'' = ''lt''"
    by (simp_all add: utf8_valid_ascii is_ascii_def byte_def)
  show ?thesis
    using echo_round_trip [where lib = controlled_lib and body = "''req''" and s = "0 :: nat" and headers = "[]"
        and pre = "[Inr (Unbound, EvStart (tag_of ''Echo'' []))]" and res = Unbound and n = "''Text''"
        and as = "[]" and ps = "[XText ''a'', XRef ''lt'', XText ''b'']"
        and post = "[Inr (Unbound, EvEnd ''Echo'')]" and res' = Unbound and as' = "[]"
        and qs = "[XText ''a'', XRef ''lt'', XText ''b'']"]
    by (simp add: controlled_lib_def sl_tok_def echo_lib_def ascii local_part_def ends_with_def starts_with_def
        resolve_predefined_entity_def echo_response_bytes_def)
qed

end
