(* ===== verification/Sut.thy ===== *)
theory Sut
  imports Controlled Built
begin

text \<open>
  The in-process test client of the harness (\<open>Sut\<close> and \<open>Response\<close> of \<open>crossref/src/sut.rs\<close>) and the
  way of a request through the controlled service as it is built: from the WSDL and the three
  handlers to the response that the client reads. What axum does with a request before it
  reaches a handler is a parameter.
\<close>

section \<open>The client\<close>

record sut_response =
  sr_status :: nat
  sr_content_type :: string
  sr_body :: bytes

definition body_utf8 :: "sut_response \<Rightarrow> string" where
  "body_utf8 r = from_utf8_lossy (sr_body r)"

text \<open>
  axum takes the path and the body of a request to the route that handles it, or answers itself
  (no such route, body over the limit). What is relied on: a mounted literal path is served by
  its own route while the body is within the limit.
\<close>

type_synonym 's axum = "'s router \<Rightarrow> string \<Rightarrow> bytes \<Rightarrow> response + 's endpoint"

definition axum_ok :: "'s axum \<Rightarrow> bool" where
  "axum_ok ax \<longleftrightarrow>
     (\<forall>rt p ep body. distinct (map fst (routes rt)) \<longrightarrow> (p, ep) \<in> set (routes rt) \<longrightarrow>
        length body \<le> body_limit rt \<longrightarrow> ax rt p body = Inr ep)"

definition response_read :: "response \<Rightarrow> sut_response" where
  "response_read r =
     \<lparr>sr_status = status r,
      sr_content_type = (case content_type r of Some v \<Rightarrow> v | None \<Rightarrow> []),
      sr_body = resp_body r\<rparr>"

text \<open>The headers of the client: its own, and the content type it was given.\<close>

definition client_headers :: "headers \<Rightarrow> string \<Rightarrow> headers" where
  "client_headers own ct = own(''content-type'' := Some (Some ct))"

text \<open>A handler that panics is a panic of the client, \<open>None\<close> like not returning.\<close>

definition replay ::
  "server_lib \<Rightarrow> 's axum \<Rightarrow> headers \<Rightarrow> 's soap_service \<Rightarrow> string \<Rightarrow> bytes \<Rightarrow> string \<Rightarrow> int \<Rightarrow> nat \<Rightarrow>
   nonce_cache \<times> 's \<Rightarrow> (sut_response \<times> nonce_cache \<times> 's) option" where
  "replay lib ax own svc path body ct now inst st =
     (case ax (into_router svc) path body of
        Inl r \<Rightarrow> Some (response_read r, st)
      | Inr ep \<Rightarrow>
          (case post_endpoint lib svc ep (client_headers own ct) body now inst st of
             Some (Respond r, st') \<Rightarrow> Some (response_read r, st')
           | _ \<Rightarrow> None))"

definition replay_get_wsdl ::
  "server_lib \<Rightarrow> 's axum \<Rightarrow> headers \<Rightarrow> 's soap_service \<Rightarrow> string \<Rightarrow> sut_response" where
  "replay_get_wsdl lib ax own svc path =
     response_read (case ax (into_router svc) path [] of
        Inl r \<Rightarrow> r
      | Inr ep \<Rightarrow> get_endpoint lib svc ep (Some path) (Some []) own)"

section \<open>The controlled service\<close>

lemma controlled_fields:
  "sb_wsdl_bytes (controlled_base lib wsdl) = Some wsdl" "sb_custom_loader (controlled_base lib wsdl) = None"
  "sb_auth_fn (controlled_base lib wsdl) = None" "sb_mount_path (controlled_base lib wsdl) = ''/soap''"
  "sb_auth_bypass (controlled_base lib wsdl) = {}" "sb_default_handler (controlled_base lib wsdl) = None"
  "sb_max_body_bytes (controlled_base lib wsdl) = DEFAULT_MAX_BODY_BYTES"
  "hm_get (sb_handlers (controlled_base lib wsdl)) ''Echo'' = Some (echo_handler lib)"
  by (simp_all add: controlled_base_def controlled_at_def with_handler_def with_path_def
      from_wsdl_bytes_def builder_new_def hm_insert_def hm_get_def)

text \<open>
  The service of a WSDL with at most one service: one route, no credentials, and the table of
  all operations.
\<close>

lemma controlled_built:
  assumes "build_controlled_sut lib inst0 wsdl = Some svc"
    and "resolve_wsdl (sl_rox lib) noop_loader wsdl {} = Some (Inr (rw, vis))"
    and "length (hm_keys (services (rw_definition rw))) \<le> 1"
  shows "build_dispatch_table rw (sb_handlers (controlled_base lib wsdl)) {} None = Inr (svc_dispatch_table svc)"
    and "svc_auth_fn svc = None" and "svc_type_registry svc = rw_type_registry rw"
    and "into_router svc = \<lparr>routes = [(''/soap'', SingleEndpoint)], body_limit = DEFAULT_MAX_BODY_BYTES\<rparr>"
proof -
  from assms(1) have "build lib inst0 (controlled_base lib wsdl) = Some (Inr svc)"
    by (auto simp: build_controlled_sut_def expect_built_def split: option.splits sum.splits)
  from single_service_built [OF this, of wsdl None rw vis] assms(2,3)
  show "build_dispatch_table rw (sb_handlers (controlled_base lib wsdl)) {} None = Inr (svc_dispatch_table svc)"
    and "svc_auth_fn svc = None" and "svc_type_registry svc = rw_type_registry rw"
    and "into_router svc = \<lparr>routes = [(''/soap'', SingleEndpoint)], body_limit = DEFAULT_MAX_BODY_BYTES\<rparr>"
    by (simp_all add: load_wsdl_def select_loader_def controlled_fields)
qed

lemma replay_controlled:
  assumes "axum_ok ax" and "length body \<le> DEFAULT_MAX_BODY_BYTES"
    and "into_router svc = \<lparr>routes = [(''/soap'', SingleEndpoint)], body_limit = DEFAULT_MAX_BODY_BYTES\<rparr>"
  shows "replay lib ax own svc ''/soap'' body ct now inst st =
    (case soap_post_handler lib svc (client_headers own ct) body now inst st of
       Some (Respond r, st') \<Rightarrow> Some (response_read r, st')
     | _ \<Rightarrow> None)"
proof -
  have "ax (into_router svc) ''/soap'' body = Inr SingleEndpoint"
    using assms by (simp add: axum_ok_def)
  then show ?thesis by (simp add: replay_def)
qed

text \<open>The tree of an Echo response, its text in pieces.\<close>

definition echo_tree :: "resolved \<Rightarrow> xml list \<Rightarrow> xml" where
  "echo_tree res qs =
     XElem res ''c:EchoResponse'' [(''xmlns:c'', CONTROLLED_NS)] [XElem res ''c:Text'' [] qs]"

lemma echo_tree_copied: "copied (echo_tree res qs) = echo_response_bytes (concat (map copied qs))"
  by (simp add: echo_tree_def echo_response_bytes_def emit_attrs_def emit_attr_def end_tag_def attr_quoted_def)

text \<open>
  What the tokeniser reads of an envelope written around an element, and of the fragment that is
  taken out of it again.
\<close>

definition reads_back :: "tokenizer \<Rightarrow> soap_version \<Rightarrow> xml \<Rightarrow> bool" where
  "reads_back tok v x \<longleftrightarrow>
     (let fragment = body_fragment [(''env'', version_ns v)] x in
      tok False (serialize_envelope (copied x) v) = written_envelope v x \<and>
      tok False (copied fragment) = events fragment)"

lemma echo_answer_text:
  assumes "reads_back tok v (echo_tree res qs)" and "list_all (\<lambda>x. \<not> is_elem x) qs"
  shows "parse_envelope tok (serialize_envelope (copied (echo_tree res qs)) v) = Inr
      \<lparr>env_soap_version = v, header_children = [],
       body_element = copied (body_fragment [(''env'', version_ns v)] (echo_tree res qs))\<rparr>"
    and "extract_text tok (copied (body_fragment [(''env'', version_ns v)] (echo_tree res qs))) =
      Some (concat (map piece_text qs))"
proof -
  let ?f = "body_fragment [(''env'', version_ns v)] (echo_tree res qs)"
  from assms(1) have tok: "tok False (serialize_envelope (copied (echo_tree res qs)) v) = written_envelope v (echo_tree res qs)"
    "tok False (copied ?f) = events ?f"
    by (simp_all add: reads_back_def Let_def)
  from tok(1) show "parse_envelope tok (serialize_envelope (copied (echo_tree res qs)) v) = Inr
      \<lparr>env_soap_version = v, header_children = [], body_element = copied ?f\<rparr>"
    by (rule parse_written_envelope) (simp add: echo_tree_def)
  obtain as where f: "?f = XElem res ''c:EchoResponse'' as [XElem res ''c:Text'' [] qs]"
    by (simp add: body_fragment_def echo_tree_def)
  have names: "utf8_or_empty (local_part ''c:EchoResponse'') = ''EchoResponse''"
    "utf8_or_empty (local_part ''c:Text'') = ''Text''"
    by (simp_all add: local_part_def utf8_valid_ascii is_ascii_def byte_def)
  show "extract_text tok (copied ?f) = Some (concat (map piece_text qs))"
    unfolding extract_text_def
    by (rule extract_first_text [where pre = "[Inr (res, EvStart (tag_of ''c:EchoResponse'' as))]"
          and res = res and n = "''c:Text''" and as = "[]" and post = "[Inr (res, EvEnd ''c:EchoResponse'')]"])
      (use assms(2) tok(2) in \<open>simp_all add: f names ends_with_def starts_with_def\<close>)
qed

text \<open>
  The text of a run of character data and predefined references. Anything else, a CDATA section or
  an element, has none here.
\<close>

fun plain_piece :: "xml \<Rightarrow> string option" where
  "plain_piece (XText t) = (if utf8_valid t then Some t else None)"
| "plain_piece (XRef n) =
     map_of [(''lt'', ''<''), (''gt'', ''>''), (''amp'', ''&''), (''apos'', [CHR 0x27]), (''quot'', [CHR 0x22])] n"
| "plain_piece _ = None"

fun plain_text :: "xml list \<Rightarrow> string option" where
  "plain_text [] = Some []"
| "plain_text (p # ps) =
     (case (plain_piece p, plain_text ps) of (Some t, Some u) \<Rightarrow> Some (t @ u) | _ \<Rightarrow> None)"

lemma plain_piece_text: "plain_piece p = Some t \<Longrightarrow> piece_text p = t \<and> \<not> is_elem p"
  by (cases p) (auto simp: resolve_predefined_entity_def utf8_or_empty_def from_utf8_def utf8_valid_ascii
      is_ascii_def byte_def split: if_splits)

lemma plain_text_pieces:
  "plain_text ps = Some t \<Longrightarrow> concat (map piece_text ps) = t \<and> list_all (\<lambda>x. \<not> is_elem x) ps"
  by (induction ps arbitrary: t) (auto split: option.splits dest: plain_piece_text)

section \<open>Properties\<close>

text \<open>
  C15. The controlled service echoes, all the way from its WSDL. Take the service built of a WSDL that
  has at most one service and an operation Echo whose input element is the input of no other
  operation, and a request whose body is valid for Echo and in which the first element with a name
  that ends in Text holds nothing but character data and predefined references (the code skips
  CDATA). It is answered at /soap, whatever the SOAPAction, with status 200 in the SOAP version of
  the request; the body of the response envelope is an EchoResponse whose Text is that text,
  escaped, and the harness reads the same text back from it. The nonce cache and the application
  stay as they were.
\<close>

theorem echo_is_served:
  assumes "axum_ok ax" and "length body \<le> DEFAULT_MAX_BODY_BYTES"
    and "build_controlled_sut lib inst0 wsdl = Some svc"
    and "resolve_wsdl (sl_rox lib) noop_loader wsdl {} = Some (Inr (rw, vis))"
    and "length (hm_keys (services (rw_definition rw))) \<le> 1"
    and "op \<in> set (collect_ops_for_service None rw)" and "fst op = ''Echo''"
    and "operation_types rw op = Inr (Some q, val)"
    and "\<forall>op' \<in> set (collect_ops_for_service None rw). op' \<noteq> op \<longrightarrow>
      (\<forall>val'. operation_types rw op' \<noteq> Inr (Some q, val'))"
    and "detect_soap_version ct = Inr v" and "parse_envelope (sl_tok lib) body = Inr envelope"
    and "extract_body_qname (sl_tok lib) (body_element envelope) = Inr q"
    and "validate_request (sl_tok lib) (body_element envelope) (rw_type_registry rw) val = Inr ()"
    and "sl_tok lib False (body_element envelope) = pre @ events (XElem rt n as ps) @ post"
    and "list_all (no_target ''Text'') pre" and "ends_with ''Text'' (utf8_or_empty (local_part n))"
    and "plain_text ps = Some t"
    and "escape_text (sl_esc lib) t = concat (map copied qs)" and "plain_text qs = Some t"
    and "reads_back (sl_tok lib) (env_soap_version envelope) (echo_tree res qs)"
  shows "\<exists>r answer. replay lib ax own svc ''/soap'' body ct now inst (cache, s) = Some (r, cache, s) \<and>
    sr_status r = 200 \<and> sr_content_type r = response_content_type (env_soap_version envelope) \<and>
    parse_envelope (sl_tok lib) (sr_body r) = Inr answer \<and>
    env_soap_version answer = env_soap_version envelope \<and>
    body_element answer =
      copied (body_fragment [(''env'', version_ns (env_soap_version envelope))] (echo_tree res qs)) \<and>
    extract_text (sl_tok lib) (body_element answer) = Some t"
proof -
  let ?h = "client_headers own ct" and ?v = "env_soap_version envelope"
  note built = controlled_built [OF assms(3-5)]
  have sent: "extract_text (sl_tok lib) (body_element envelope) = Some t"
    using extract_first_text [where tok = "sl_tok lib" and body = "body_element envelope" and pre = pre and res = rt
        and n = n and as = as and ps = ps and post = post and suffix = "''Text''"] assms(14-16)
      plain_text_pieces [OF assms(17)] by (simp add: extract_text_def)
  obtain e where e: "route (svc_dispatch_table svc) q (request_soap_action ?h) = Inr e" "validation_type e = val"
    "operation_handler (sb_handlers (controlled_base lib wsdl)) None (fst op) = Inr (handler e)"
    using operation_is_routed [OF built(1) assms(6,8,9), of "request_soap_action ?h"] by blast
  then have hd: "handler e = echo_handler lib"
    by (simp add: operation_handler_def assms(7) controlled_fields)
  have "request_content_type ?h = ct"
    by (simp add: request_content_type_def client_headers_def header_str_def)
  with assms(10-12) e(1) have opened: "open_request lib (svc_dispatch_table svc) ?h body = Inr (envelope, e)"
    by (simp add: open_request_def)
  have auth: "authenticate lib svc envelope e now inst cache = Some (Inr (), cache)"
    by (simp add: authenticate_def built(2))
  let ?body = "echo_response_bytes (escape_text (sl_esc lib) t)"
  have handled: "handle_with_headers (echo_handler lib) (body_element envelope) (header_children envelope) s = (Inr ?body, s)"
    by (simp add: echo_handler_def fn_handler_def default_handle_with_headers_def or_empty_def sent)
  let ?r = "\<lparr>status = 200, content_type = Some (response_content_type ?v),
     resp_body = serialize_envelope ?body ?v\<rparr>"
  have "invoke lib svc envelope e s = (?r, s)"
    by (simp add: invoke_def Let_def built(3) e(2) assms(13) hd handled)
  then have "soap_post_handler lib svc ?h body now inst (cache, s) = Some (Respond ?r, cache, s)"
    by (simp add: soap_post_handler_def opened auth)
  then have run: "replay lib ax own svc ''/soap'' body ct now inst (cache, s) = Some (response_read ?r, cache, s)"
    by (simp add: replay_controlled [OF assms(1,2) built(4)])
  have "?body = copied (echo_tree res qs)" by (simp add: echo_tree_copied assms(18))
  with run echo_answer_text [OF assms(20)] plain_text_pieces [OF assms(19)] show ?thesis
    by (simp add: response_read_def)
qed

text \<open>A WSDL with the three operations, and a tokeniser that reads one request and its answer.\<close>

definition controlled_rox :: rox_parser where
  "controlled_rox _ = Inr (Elem (Some WSDL_NS) ''definitions'' [(None, ''targetNamespace'', ''urn:e'')] []
     [Elem (Some WSDL_NS) ''binding'' [(None, ''name'', ''B''), (None, ''type'', ''P'')] []
        (Elem (Some SOAP12_BINDING_NS) ''binding'' [(None, ''style'', ''rpc'')] [] [] #
         map (\<lambda>n. Elem (Some WSDL_NS) ''operation'' [(None, ''name'', n)] []
           [Elem (Some SOAP12_BINDING_NS) ''operation'' [(None, ''soapAction'', n)] [] [],
            Elem (Some WSDL_NS) ''input'' [] []
              [Elem (Some SOAP12_BINDING_NS) ''body'' [(None, ''namespace'', ''urn:e'')] [] []]])
           [''Echo'', ''EchoNamed'', ''Faulty''])])"

definition echo_pieces :: "xml list" where
  "echo_pieces = [XText ''a'', XRef ''lt'', XText ''b'']"

definition echo_request_tree :: xml where
  "echo_request_tree = XElem (Bound ''urn:e'') ''Echo'' [] [XElem (Bound ''urn:e'') ''Text'' [] echo_pieces]"

definition controlled_tok :: tokenizer where
  "controlled_tok trim xml =
     (if xml = ''req'' then
        envelope_events [] (Bound SOAP12_NS) ''s:Envelope'' []
          [XElem (Bound SOAP12_NS) ''s:Body'' [] [echo_request_tree]] []
      else if starts_with ''<Echo'' xml then events echo_request_tree
      else if starts_with ''<env:'' xml then written_envelope Soap12 (echo_tree Unbound echo_pieces)
      else events (body_fragment [(''env'', version_ns Soap12)] (echo_tree Unbound echo_pieces)))"

definition served_lib :: server_lib where
  "served_lib = echo_lib\<lparr>sl_wss := (sl_wss echo_lib)\<lparr>wl_tok := controlled_tok\<rparr>, sl_rox := controlled_rox\<rparr>"

definition served_op :: "string \<Rightarrow> op_info" where
  "served_op n = (n, n, Rpc, Some ''urn:e'')"

definition served_operation :: "string \<Rightarrow> binding_operation" where
  "served_operation n = \<lparr>bo_name = n, bo_soap_action = n, bo_input = sample_message,
     bo_output = default_binding_message\<rparr>"

definition served_resolved :: resolved_wsdl where
  "served_resolved = sample_resolved\<lparr>rw_definition := (empty_definition ''urn:e'')\<lparr>bindings :=
     [(''B'', sample_binding\<lparr>b_operations := map served_operation [''Echo'', ''EchoNamed'', ''Faulty'']\<rparr>)]\<rparr>\<rparr>"

lemma served_sel: "sl_tok served_lib = controlled_tok" "sl_rox served_lib = controlled_rox" "sl_esc served_lib = xml_escape"
  by (simp_all add: served_lib_def sl_tok_def echo_lib_def)

lemma served_parses:
  "parse_wsdl controlled_rox ''w'' = Inr (rw_definition served_resolved)"
  by (simp add: parse_wsdl_def controlled_rox_def from_utf8_def utf8_valid_ascii is_ascii_def byte_def
      node_attribute_def element_children_def parse_wsdl_child_def node_ns_or_empty_def required_attr_def
      parse_binding_def parse_binding_child_def parse_soap_binding_def parse_binding_style_def
      parse_binding_operation_def soap_binding_ns_def parse_binding_message_def default_binding_message_def
      WSDL_NS_def SOAP11_BINDING_NS_def SOAP12_BINDING_NS_def resolve_qname_str_def lookup_namespace_uri_def
      empty_definition_def hm_insert_def sample_binding_def sample_message_def served_resolved_def
      served_operation_def)

lemma served_resolves:
  "resolve_wsdl controlled_rox loader ''w'' {} = Some (Inr (served_resolved, {}))"
  by (simp add: resolve_wsdl_def resolve_wsdl_inner_def resolve_imports.simps [of _ _ _ "[]"]
      served_parses resolve_start_def snapshot_registry_def served_resolved_def sample_resolved_def
      empty_definition_def)

lemma served_ops:
  "collect_ops_for_service None served_resolved = map served_op [''Echo'', ''EchoNamed'', ''Faulty'']"
  by (simp add: collect_ops_for_service_def served_resolved_def sample_resolved_def empty_definition_def
      binding_ops_def binding_op_info_def sample_binding_def sample_message_def served_op_def served_operation_def)

lemma served_types: "operation_types served_resolved (served_op n) = Inr (Some (qname_new ''urn:e'' n), Some (qname_new ''urn:e'' n))"
  by (simp add: operation_types_def served_op_def Let_def)

definition sample_axum :: "'s axum" where
  "sample_axum rt p body =
     (if body_limit rt < length body then Inl \<lparr>status = 413, content_type = None, resp_body = []\<rparr>
      else case map_of (routes rt) p of Some ep \<Rightarrow> Inr ep | None \<Rightarrow> Inl not_found)"

lemma sample_axum_ok: "axum_ok sample_axum"
  by (auto simp: axum_ok_def sample_axum_def)

lemma served_builds: "\<exists>svc :: 's soap_service. build_controlled_sut served_lib 0 ''w'' = Some svc"
proof -
  let ?ops = "[''Echo'', ''EchoNamed'', ''Faulty'']"
  let ?hs = "sb_handlers (controlled_base served_lib ''w'' :: 's server_builder)"
  have op: "fst (served_op n) = n" for n by (simp add: served_op_def)
  have keys: "hm_keys ?hs = ?ops"
    by (simp add: controlled_base_def controlled_at_def with_handler_def with_path_def
      from_wsdl_bytes_def builder_new_def hm_insert_def hm_get_def)
  have got: "\<exists>h. hm_get ?hs n = Some h" if "n \<in> set ?ops" for n
    using that by (auto simp: controlled_base_def controlled_at_def with_handler_def with_path_def
      from_wsdl_bytes_def builder_new_def hm_insert_def hm_get_def)
  have "\<exists>e. entry_of served_resolved ?hs {} None (served_op n) = Inr e" if n: "n \<in> set ?ops" for n
  proof -
    obtain h where "hm_get ?hs n = Some h" using got [OF n] ..
    then show ?thesis by (simp add: entry_of_def operation_handler_def served_types op)
  qed
  then have "\<forall>op \<in> set (map served_op ?ops). \<exists>e. entry_of served_resolved ?hs {} None op = Inr e"
    by (simp only: set_map ball_simps) blast
  moreover have "set (hm_keys ?hs) \<subseteq> fst ` set (map served_op ?ops)"
    by (simp add: keys op)
  ultimately have "\<exists>t. build_dispatch_table served_resolved ?hs {} None = Inr t"
    unfolding build_dispatch_table_def served_ops build_from_ops_Inr_iff by blast
  then obtain t where "build_dispatch_table served_resolved ?hs {} None = Inr t" ..
  then have "build_tables served_lib (controlled_base served_lib ''w'') served_resolved = Inr (t, [], [])"
    by (simp add: build_tables_def controlled_fields served_resolved_def empty_definition_def)
  then show ?thesis
    by (simp add: build_controlled_sut_def build_def load_wsdl_def controlled_fields served_sel served_resolves
        expect_built_def)
qed

lemma controlled_tok_cases:
  "controlled_tok trim ''req'' = envelope_events [] (Bound SOAP12_NS) ''s:Envelope'' []
     [XElem (Bound SOAP12_NS) ''s:Body'' [] [echo_request_tree]] []"
  "controlled_tok trim (copied echo_request_tree) = events echo_request_tree"
  "reads_back controlled_tok Soap12 (echo_tree Unbound echo_pieces)"
  by (simp_all add: controlled_tok_def echo_request_tree_def starts_with_def reads_back_def serialize_envelope_def
      echo_tree_def body_fragment_def inherited_def emit_attrs_def)

lemma served_request:
  "parse_envelope controlled_tok ''req'' = Inr
     \<lparr>env_soap_version = Soap12, header_children = [], body_element = copied echo_request_tree\<rparr>"
proof -
  have "parse_envelope controlled_tok ''req'' = read_envelope (Bound SOAP12_NS) []
      [XElem (Bound SOAP12_NS) ''s:Body'' [] [echo_request_tree]]"
    by (rule parse_envelope_document [where prolog = "[]" and n = "''s:Envelope''" and rest = "[]"])
      (simp_all add: controlled_tok_cases local_part_def)
  moreover have "local_part ''s:Body'' = ''Body''" by (simp add: local_part_def)
  ultimately show ?thesis
    by (simp add: read_envelope_def envelope_version_def ns_bytes_def part_of_named echo_request_tree_def
        ns_decls_def body_fragment_def inherited_def emit_attrs_def)
qed

lemma served_text: "plain_text echo_pieces = Some ''a<b''"
  by (simp add: echo_pieces_def utf8_valid_ascii is_ascii_def byte_def)

lemma echo_is_served_witness:
  "\<exists>svc r answer. build_controlled_sut served_lib 0 ''w'' = Some svc \<and>
     replay served_lib sample_axum (\<lambda>_. None) svc ''/soap'' ''req'' ''application/soap+xml'' 5 5 (sample_cache, 0 :: nat) =
       Some (r, sample_cache, 0) \<and> sr_status r = 200 \<and>
     parse_envelope controlled_tok (sr_body r) = Inr answer \<and>
     body_element answer = copied (body_fragment [(''env'', version_ns Soap12)] (echo_tree Unbound echo_pieces)) \<and>
     extract_text controlled_tok (body_element answer) = Some ''a<b''"
proof -
  obtain svc :: "nat soap_service" where svc: "build_controlled_sut served_lib 0 ''w'' = Some svc"
    using served_builds by blast
  have q: "extract_body_qname controlled_tok (copied echo_request_tree) = Inr (qname_new ''urn:e'' ''Echo'')"
    unfolding extract_body_qname_def controlled_tok_cases
    by (simp add: echo_request_tree_def resolved_qname_def local_part_def from_utf8_def utf8_valid_ascii is_ascii_def byte_def)
  have registry: "rw_type_registry served_resolved = registry_new"
    by (simp add: served_resolved_def sample_resolved_def)
  have services: "services (rw_definition served_resolved) = []"
    by (simp add: served_resolved_def empty_definition_def)
  have names: "utf8_or_empty (local_part ''Echo'') = ''Echo''" "utf8_or_empty (local_part ''Text'') = ''Text''"
    by (simp_all add: local_part_def utf8_valid_ascii is_ascii_def byte_def)
  let ?e = "\<lparr>env_soap_version = Soap12, header_children = [], body_element = copied echo_request_tree\<rparr>"
  have "\<exists>r answer. replay served_lib sample_axum (\<lambda>_. None) svc ''/soap'' ''req'' ''application/soap+xml'' 5 5 (sample_cache, 0) =
        Some (r, sample_cache, 0) \<and> sr_status r = 200 \<and>
      sr_content_type r = response_content_type (env_soap_version ?e) \<and>
      parse_envelope (sl_tok served_lib) (sr_body r) = Inr answer \<and> env_soap_version answer = env_soap_version ?e \<and>
      body_element answer =
        copied (body_fragment [(''env'', version_ns (env_soap_version ?e))] (echo_tree Unbound echo_pieces)) \<and>
      extract_text (sl_tok served_lib) (body_element answer) = Some ''a<b''"
  proof (rule echo_is_served [OF sample_axum_ok _ svc])
    show "resolve_wsdl (sl_rox served_lib) noop_loader ''w'' {} = Some (Inr (served_resolved, {}))"
      by (simp add: served_sel served_resolves)
    show "served_op ''Echo'' \<in> set (collect_ops_for_service None served_resolved)" by (simp add: served_ops)
    show "operation_types served_resolved (served_op ''Echo'') =
        Inr (Some (qname_new ''urn:e'' ''Echo''), Some (qname_new ''urn:e'' ''Echo''))"
      by (rule served_types)
    show "detect_soap_version ''application/soap+xml'' = Inr Soap12"
      by (simp add: detect_soap_version_def starts_with_def)
    show "escape_text (sl_esc served_lib) ''a<b'' = concat (map copied echo_pieces)"
      by (simp add: served_sel echo_pieces_def escape_text_def xml_escape_def xml_escape_char_def entity_ref_def)
    show "reads_back (sl_tok served_lib) (env_soap_version ?e) (echo_tree Unbound echo_pieces)"
      by (simp add: served_sel controlled_tok_cases(3))
    show "sl_tok served_lib False (body_element ?e) = [Inr (Bound ''urn:e'', EvStart (tag_of ''Echo'' []))] @
        events (XElem (Bound ''urn:e'') ''Text'' [] echo_pieces) @ [Inr (Bound ''urn:e'', EvEnd ''Echo'')]"
      by (simp add: served_sel controlled_tok_cases) (simp add: echo_request_tree_def)
    show "plain_text echo_pieces = Some ''a<b''" by (rule served_text)
    show "plain_text echo_pieces = Some ''a<b''" by (rule served_text)
    show "fst (served_op ''Echo'') = ''Echo''" by (simp add: served_op_def)
  qed (simp_all add: q served_request served_sel served_ops served_types services registry names
      ends_with_def starts_with_def DEFAULT_MAX_BODY_BYTES_def validate_request_def)
  with svc show ?thesis by (auto simp: served_sel)
qed

end
