(* ===== verification/Layer1.thy ===== *)
theory Layer1
  imports Sut HarnessChecks Snapshot
begin

text \<open>
  The Layer-1 regression test of the harness (\<open>crossref/tests/layer1_replay.rs\<close>): every scenario
  is sent to the service that its name selects, and the normal form of the answer is compared
  with the frozen snapshot, or captured. It composes the in-process client of \<open>Sut\<close>, the
  normaliser and the snapshot store. A failed assertion or \<open>unwrap\<close> ends the run.
\<close>

section \<open>The environment and failures\<close>

text \<open>The crates behind the test, the two WSDL fixtures and the directory of the package.\<close>

record layer1_lib =
  l1_server :: server_lib
  l1_axum :: "unit axum"
  l1_own :: headers
  l1_wsdl :: bytes
  l1_multi :: bytes
  l1_toml :: toml_lib
  l1_scenario :: "string \<Rightarrow> string + scenario"
  l1_attr_err :: string
  l1_root :: string

datatype layer1_failure =
    Unwrapped string
  | SutPanicked
  | StatusDiffers string
  | NormalizeFailed string string
  | FaultMissing string
  | SnapshotMissing string
  | SnapshotDiffers string

definition unwrapped :: "(fs, string, 'a) act \<Rightarrow> (fs, layer1_failure, 'a) act" where
  "unwrapped m = act_map_err Unwrapped m"

definition require :: "bool \<Rightarrow> layer1_failure \<Rightarrow> (fs, layer1_failure, unit) act" where
  "require b e = (if b then act_return () else act_fail e)"

text \<open>The clocks of a scenario: monotonic when its service is built, wall and monotonic when it is sent.\<close>

type_synonym instants = "nat \<times> int \<times> nat"

section \<open>Scenarios\<close>

definition crate_dir :: "layer1_lib \<Rightarrow> string \<Rightarrow> string" where
  "crate_dir lib rel = join_path (l1_root lib) rel"

text \<open>\<open>Path::extension\<close>.\<close>

definition file_extension :: "string \<Rightarrow> string option" where
  "file_extension p =
     (let n = after_last CHR ''/'' p in
      if n \<noteq> ''..'' \<and> CHR ''.'' \<in> set (drop 1 n) then Some (after_last CHR ''.'' n) else None)"

text \<open>The entries that \<open>read_dir\<close> gives, by file name, in whatever order they come.\<close>

fun load_entries :: "layer1_lib \<Rightarrow> string list \<Rightarrow> (fs, layer1_failure, scenario list) act" where
  "load_entries lib [] = act_return []"
| "load_entries lib (n # ns) =
     (let p = join_path (crate_dir lib ''scenarios'') n in
      if file_extension p = Some ''toml'' then
        act_bind (unwrapped (act_read (\<lambda>f. fs_read_to_string f p))) (\<lambda>s.
        act_bind (unwrapped (act_lift (l1_scenario lib s))) (\<lambda>sc.
        act_bind (load_entries lib ns) (\<lambda>out. act_return (sc # out))))
      else load_entries lib ns)"

definition load_scenarios :: "layer1_lib \<Rightarrow> string list \<Rightarrow> (fs, layer1_failure, scenario list) act" where
  "load_scenarios lib entries = act_bind (load_entries lib entries) (\<lambda>out. act_return (sort_key sn_name out))"

definition select_sut :: "layer1_lib \<Rightarrow> nat \<Rightarrow> string \<Rightarrow> unit soap_service option" where
  "select_sut lib inst name =
     (if starts_with ''wssec_stale'' name then build_controlled_sut_authed_strict (l1_server lib) inst (l1_wsdl lib)
      else if starts_with ''wssec_'' name then build_controlled_sut_authed (l1_server lib) inst (l1_wsdl lib)
      else if starts_with ''wsdl_rewrite_multi'' name then build_multi_service_sut (l1_server lib) inst (l1_multi lib)
      else build_controlled_sut (l1_server lib) inst (l1_wsdl lib))"

section \<open>One scenario\<close>

definition ascii_lower :: "char \<Rightarrow> char" where
  "ascii_lower c = (if 65 \<le> (of_char c :: nat) \<and> (of_char c :: nat) \<le> 90 then char_of (of_char c + 32 :: nat) else c)"

definition eq_ignore_ascii_case :: "string \<Rightarrow> string \<Rightarrow> bool" where
  "eq_ignore_ascii_case a b \<longleftrightarrow> map ascii_lower a = map ascii_lower b"

definition sut_answer ::
  "layer1_lib \<Rightarrow> unit soap_service \<Rightarrow> scenario \<Rightarrow> bytes \<Rightarrow> int \<Rightarrow> nat \<Rightarrow> sut_response option" where
  "sut_answer lib svc sc req now inst =
     (if eq_ignore_ascii_case (sn_http_method sc) ''GET'' then
        Some (replay_get_wsdl (l1_server lib) (l1_axum lib) (l1_own lib) svc (sn_http_path sc))
      else
        map_option fst
          (replay (l1_server lib) (l1_axum lib) (l1_own lib) svc (sn_http_path sc) req (sn_content_type sc)
            now inst (svc_nonce_cache svc, ())))"

text \<open>Up to the snapshot: the request is sent and the answer is checked and normalised.\<close>

definition checked_answer :: "layer1_lib \<Rightarrow> instants \<Rightarrow> scenario \<Rightarrow> (fs, layer1_failure, string) act" where
  "checked_answer lib t sc =
     (case t of (built, now, inst) \<Rightarrow>
     act_bind (act_lift (ok_or SutPanicked (select_sut lib built (sn_name sc)))) (\<lambda>sut.
     act_bind (unwrapped (act_read (\<lambda>f. fs_read f (join_path (crate_dir lib ''scenarios'') (sn_request_file sc))))) (\<lambda>req.
     act_bind (act_lift (ok_or SutPanicked (sut_answer lib sut sc req now inst))) (\<lambda>resp.
     act_bind (require (sr_status resp = sn_expected_status sc) (StatusDiffers (sn_name sc))) (\<lambda>_.
     act_bind (act_lift (map_err (NormalizeFailed (sn_name sc))
       (normalize_xml (sl_tok (l1_server lib)) (sl_write (l1_server lib)) (l1_attr_err lib) (sr_body resp) default_masks)))
       (\<lambda>normalized.
     act_bind (if sn_outcome sc = OutcomeFault
               then require (str_contains ''Fault'' normalized) (FaultMissing (sn_name sc))
               else act_return ()) (\<lambda>_.
     act_return normalized)))))))"

definition layer1_store :: "layer1_lib \<Rightarrow> snapshot_store" where
  "layer1_store lib = \<lparr>ss_dir = crate_dir lib ''snapshots''\<rparr>"

definition judge_snapshot :: "layer1_lib \<Rightarrow> bool \<Rightarrow> string \<Rightarrow> string \<Rightarrow> (fs, layer1_failure, unit) act" where
  "judge_snapshot lib regen name normalized =
     act_bind (act_read (\<lambda>f. Inr (read_snapshot (layer1_store lib) name f))) (\<lambda>found.
       let capture = unwrapped (write_unverified (l1_toml lib) (layer1_store lib) name normalized) in
       case found of
         None \<Rightarrow> act_bind (require regen (SnapshotMissing name)) (\<lambda>_. capture)
       | Some frozen \<Rightarrow>
           if regen then (if frozen \<noteq> normalized then capture else act_return ())
           else require (frozen = normalized) (SnapshotDiffers name))"

definition replay_scenario :: "layer1_lib \<Rightarrow> bool \<Rightarrow> instants \<Rightarrow> scenario \<Rightarrow> (fs, layer1_failure, unit) act" where
  "replay_scenario lib regen t sc =
     (if sn_interop_driven sc then act_return ()
      else act_bind (checked_answer lib t sc) (\<lambda>normalized. judge_snapshot lib regen (sn_name sc) normalized))"

section \<open>The run\<close>

text \<open>The scenario at position \<open>i\<close> runs at \<open>clk i\<close>.\<close>

fun replay_from :: "layer1_lib \<Rightarrow> bool \<Rightarrow> (nat \<Rightarrow> instants) \<Rightarrow> nat \<Rightarrow> scenario list \<Rightarrow> (fs, layer1_failure, unit) act" where
  "replay_from lib regen clk i [] = act_return ()"
| "replay_from lib regen clk i (sc # scs) =
     act_bind (replay_scenario lib regen (clk i) sc) (\<lambda>_. replay_from lib regen clk (i + 1) scs)"

definition replay_all_scenarios ::
  "layer1_lib \<Rightarrow> bool \<Rightarrow> (nat \<Rightarrow> instants) \<Rightarrow> string list \<Rightarrow> (fs, layer1_failure, unit) act" where
  "replay_all_scenarios lib regen clk entries =
     act_bind (load_scenarios lib entries) (\<lambda>scs. replay_from lib regen clk 0 scs)"

section \<open>What a service without credentials answers\<close>

text \<open>The instant at which a service is built is seen in its nonce cache only.\<close>

lemma build_at:
  "build lib inst b =
     map_option (map_sum id (\<lambda>svc. svc\<lparr>svc_nonce_cache := nonce_cache_new inst (sb_nonce_cache_half_window_secs b)\<rparr>))
       (build lib inst' b)"
  by (auto simp: build_def res_bind_def map_option.compositionality comp_def split: sum.splits intro!: option.map_cong0)

lemma into_router_cache [simp]: "into_router (svc\<lparr>svc_nonce_cache := c\<rparr>) = into_router svc"
  by (simp add: into_router_def)

lemma get_endpoint_cache [simp]: "get_endpoint lib (svc\<lparr>svc_nonce_cache := c\<rparr>) ep m w h = get_endpoint lib svc ep m w h"
proof -
  have sel: "svc_mount_path (svc\<lparr>svc_nonce_cache := c\<rparr>) = svc_mount_path svc" by simp
  have "server_url (svc\<lparr>svc_nonce_cache := c\<rparr>) m h = server_url svc m h"
    by (unfold server_url_def sel, rule refl)
  then show ?thesis
    by (cases ep) (simp_all add: wsdl_get_handler_def wsdl_get_handler_for_route_def service_route_def)
qed

definition plain_post :: "server_lib \<Rightarrow> 's soap_service \<Rightarrow> 's endpoint \<Rightarrow> headers \<Rightarrow> bytes \<Rightarrow> 's \<Rightarrow> response \<times> 's" where
  "plain_post lib svc ep h body s =
     (case open_request lib (endpoint_table svc ep) h body of
        Inl r \<Rightarrow> (r, s)
      | Inr (envelope, entry) \<Rightarrow> invoke lib svc envelope entry s)"

lemma post_without_credentials:
  assumes "svc_auth_fn svc = None"
  shows "post_endpoint lib svc ep h body now inst (cache, s) =
    (case plain_post lib svc ep h body s of (r, s') \<Rightarrow> Some (Respond r, cache, s'))"
proof -
  have "authenticate lib svc envelope entry now inst cache = Some (Inr (), cache)" for envelope entry
    by (simp add: authenticate_def assms)
  then show ?thesis
    by (auto simp: post_endpoint_eq soap_post_handler_def plain_post_def split: sum.splits prod.splits)
qed

lemma plain_post_cache: "plain_post lib (svc\<lparr>svc_nonce_cache := c\<rparr>) ep h body s = plain_post lib svc ep h body s"
proof -
  have sel: "svc_type_registry (svc\<lparr>svc_nonce_cache := c\<rparr>) = svc_type_registry svc" by simp
  have "endpoint_table (svc\<lparr>svc_nonce_cache := c\<rparr>) ep = endpoint_table svc ep" by (cases ep) simp_all
  moreover have "invoke lib (svc\<lparr>svc_nonce_cache := c\<rparr>) = invoke lib svc"
    by (intro ext, unfold invoke_def sel, rule refl)
  ultimately show ?thesis by (simp only: plain_post_def)
qed

lemma sut_answer_stable:
  assumes "svc_auth_fn svc = None"
  shows "sut_answer lib (svc\<lparr>svc_nonce_cache := c\<rparr>) sc req now' inst' = sut_answer lib svc sc req now inst"
  using assms
  by (auto simp: sut_answer_def replay_get_wsdl_def replay_def post_without_credentials plain_post_cache
      split: sum.splits prod.splits)

text \<open>So a scenario that does not select a service with credentials has one answer at all times.\<close>

lemma built_at:
  "expect_built (build lib inst b) =
     map_option (\<lambda>svc. svc\<lparr>svc_nonce_cache := nonce_cache_new inst (sb_nonce_cache_half_window_secs b)\<rparr>)
       (expect_built (build lib inst' b))"
  unfolding build_at [of lib inst b inst'] by (simp add: expect_built_def split: option.split sum.split)

lemma expect_built_auth: "expect_built (build lib inst b) = Some svc \<Longrightarrow> svc_auth_fn svc = sb_auth_fn b"
  by (auto simp: expect_built_def build_def res_simps split: option.splits sum.splits)

lemma select_sut_without_credentials:
  assumes "\<not> starts_with ''wssec_'' name"
  obtains b where "\<And>inst. select_sut lib inst name = expect_built (build (l1_server lib) inst b)" and "sb_auth_fn b = None"
proof (cases "starts_with ''wsdl_rewrite_multi'' name")
  case True
  have "\<not> starts_with ''wssec_stale'' name"
    using assms by (auto simp: starts_with_def dest: arg_cong [where f = "take 6"])
  with True assms that show thesis
    by (simp add: select_sut_def build_multi_service_sut_def with_handler_def from_wsdl_bytes_def builder_new_def)
next
  case False
  have "\<not> starts_with ''wssec_stale'' name"
    using assms by (auto simp: starts_with_def dest: arg_cong [where f = "take 6"])
  with False assms that show thesis
    by (simp add: select_sut_def build_controlled_sut_def controlled_fields)
qed

section \<open>The answer as a function of the request\<close>

definition request_path :: "layer1_lib \<Rightarrow> scenario \<Rightarrow> string" where
  "request_path lib sc = join_path (crate_dir lib ''scenarios'') (sn_request_file sc)"

definition answer_text :: "layer1_lib \<Rightarrow> instants \<Rightarrow> scenario \<Rightarrow> string + bytes \<Rightarrow> layer1_failure + string" where
  "answer_text lib t sc request =
     (case t of (built, now, inst) \<Rightarrow>
     res_bind (ok_or SutPanicked (select_sut lib built (sn_name sc))) (\<lambda>sut.
     res_bind (map_err Unwrapped request) (\<lambda>req.
     res_bind (ok_or SutPanicked (sut_answer lib sut sc req now inst)) (\<lambda>resp.
     res_bind (if sr_status resp = sn_expected_status sc then Inr () else Inl (StatusDiffers (sn_name sc))) (\<lambda>_.
     res_bind (map_err (NormalizeFailed (sn_name sc))
       (normalize_xml (sl_tok (l1_server lib)) (sl_write (l1_server lib)) (l1_attr_err lib) (sr_body resp) default_masks))
       (\<lambda>normalized.
     if sn_outcome sc = OutcomeFault \<and> \<not> str_contains ''Fault'' normalized
     then Inl (FaultMissing (sn_name sc)) else Inr normalized))))))"

lemma act_bind_lift: "act_bind (act_lift r) k f = (case r of Inl e \<Rightarrow> (Inl e, f) | Inr x \<Rightarrow> k x f)"
  by (simp add: act_bind_def act_lift_def)

lemma act_bind_unwrapped_read:
  "act_bind (unwrapped (act_read q)) k f = (case q f of Inl e \<Rightarrow> (Inl (Unwrapped e), f) | Inr x \<Rightarrow> k x f)"
  by (simp add: act_bind_def unwrapped_def act_map_err_def act_read_def split: sum.splits)

lemma act_bind_require: "act_bind (require b e) k f = (if b then k () f else (Inl e, f))"
  by (simp add: act_bind_def require_def act_return_def act_fail_def)

lemmas layer1_steps = act_bind_lift act_bind_unwrapped_read act_bind_require

lemma checked_answer_eq: "checked_answer lib t sc f = (answer_text lib t sc (fs_read f (request_path lib sc)), f)"
  by (cases t) (auto simp: checked_answer_def answer_text_def layer1_steps request_path_def ok_or_def map_err_def
      split: sum.splits option.splits)

lemma answer_text_stable:
  assumes "\<not> starts_with ''wssec_'' (sn_name sc)"
  shows "answer_text lib t sc request = answer_text lib t' sc request"
proof -
  obtain b where b: "\<And>inst. select_sut lib inst (sn_name sc) = expect_built (build (l1_server lib) inst b)"
    and auth: "sb_auth_fn b = None" by (rule select_sut_without_credentials [OF assms, where lib = lib]) blast
  obtain t1 t2 t3 where t: "t = (t1, t2, t3)" by (cases t)
  obtain u1 u2 u3 where u: "t' = (u1, u2, u3)" by (cases t')
  show ?thesis
  proof (cases "expect_built (build (l1_server lib) u1 b)")
    case None
    with built_at [of "l1_server lib" t1 b u1] show ?thesis by (simp add: answer_text_def t u b)
  next
    case (Some svc)
    then have "svc_auth_fn svc = None" using expect_built_auth auth by metis
    note stable = sut_answer_stable [OF this, of lib _ sc _ t2 t3 u2 u3]
    show ?thesis
      by (simp add: answer_text_def t u b Some built_at [of "l1_server lib" t1 b u1] stable)
  qed
qed

lemma answer_text_utf8: "answer_text lib t sc request = Inr s \<Longrightarrow> utf8_valid s"
  by (cases t) (auto simp: answer_text_def normalize_xml_def res_simps from_utf8_def split: if_splits option.splits)

section \<open>What a run does to the files\<close>

text \<open>The snapshots are kept apart from the scenarios: nothing under that directory is written.\<close>

definition keeps_scenarios :: "layer1_lib \<Rightarrow> fs \<Rightarrow> fs \<Rightarrow> bool" where
  "keeps_scenarios lib f f' \<longleftrightarrow>
     (\<forall>n. relative n \<longrightarrow> fs_files f' (join_path (crate_dir lib ''scenarios'') n) =
                      fs_files f (join_path (crate_dir lib ''scenarios'') n))"

lemma keeps_scenarios_order [simp]: "reflp (keeps_scenarios lib)" "transp (keeps_scenarios lib)"
  by (auto simp: keeps_scenarios_def intro!: reflpI transpI)

lemma layer1_paths:
  assumes "relative n"
  shows "join_path (crate_dir lib ''scenarios'') n \<noteq> status_path (layer1_store lib)"
    and "relative name \<Longrightarrow> join_path (crate_dir lib ''scenarios'') n \<noteq> snap_path (layer1_store lib) name"
  using assms starts_with_slash_append [of name "''.xml''"]
  by (auto simp: status_path_def snap_path_def layer1_store_def crate_dir_def join_path_def relative_def starts_with_def)

lemma write_keeps_scenarios:
  "\<forall>n. relative n \<longrightarrow> join_path (crate_dir lib ''scenarios'') n \<noteq> p \<Longrightarrow> confined (keeps_scenarios lib) (fs_write p b)"
  "confined (keeps_scenarios lib) (fs_create_dir_all d)"
  by (auto simp: confined_def keeps_scenarios_def fs_write_def fs_create_dir_all_def split: option.splits)

lemma capture_keeps_scenarios:
  assumes "relative name"
  shows "confined (keeps_scenarios lib) (write_unverified tables (layer1_store lib) name s)"
  unfolding write_unverified_def set_status_def save_status_map_def
  by (intro confined_intros write_keeps_scenarios) (use assms layer1_paths in auto)

lemma scenario_keeps_scenarios:
  assumes "relative (sn_name sc)"
  shows "confined (keeps_scenarios lib) (replay_scenario lib regen t sc)"
proof -
  have "confined (keeps_scenarios lib) (checked_answer lib t sc)"
    by (simp add: confined_def checked_answer_eq keeps_scenarios_def)
  moreover have "confined (keeps_scenarios lib) (require b e)" for b e
    by (simp add: require_def confined_intros)
  ultimately show ?thesis
    unfolding replay_scenario_def judge_snapshot_def Let_def unwrapped_def
    by (intro confined_intros capture_keeps_scenarios assms) simp_all
qed

lemma keeps_scenarios_request:
  "keeps_scenarios lib f f' \<Longrightarrow> relative (sn_request_file sc) \<Longrightarrow>
   fs_read f' (request_path lib sc) = fs_read f (request_path lib sc)"
  by (simp add: keeps_scenarios_def request_path_def fs_read_def)

lemma load_keeps:
  "list_all relative ns \<Longrightarrow> keeps_scenarios lib f f' \<Longrightarrow> load_entries lib ns f = (r, u) \<Longrightarrow>
   u = f \<and> load_entries lib ns f' = (r, f')"
proof (induction ns arbitrary: r u)
  case (Cons n ns)
  let ?p = "join_path (crate_dir lib ''scenarios'') n"
  have same: "fs_read_to_string f' ?p = fs_read_to_string f ?p"
    using Cons.prems(1,2) by (simp add: keeps_scenarios_def fs_read_to_string_def fs_read_def)
  obtain r0 u0 where rest: "load_entries lib ns f = (r0, u0)" by force
  with Cons have ih: "u0 = f" "load_entries lib ns f' = (r0, f')" by auto
  have lift: "act_bind (unwrapped (act_lift x)) k g = (case x of Inl e \<Rightarrow> (Inl (Unwrapped e), g) | Inr y \<Rightarrow> k y g)" for x k g
    by (simp add: act_bind_def unwrapped_def act_map_err_def act_lift_def split: sum.splits)
  have tail: "act_bind (load_entries lib ns) (\<lambda>out. act_return (sc # out)) g =
      (map_sum id (Cons sc) r0, g)" if "load_entries lib ns g = (r0, g)" for sc g
    using that by (cases r0) (simp_all add: act_bind_def act_return_def)
  show ?case
    using Cons.prems(3) rest ih tail
    by (auto simp: Let_def layer1_steps lift same split: if_splits sum.splits)
qed simp

lemma load_scenarios_keeps:
  assumes "list_all relative entries" and "keeps_scenarios lib f f'" and "load_scenarios lib entries f = (r, u)"
  shows "u = f \<and> load_scenarios lib entries f' = (r, f')"
proof -
  obtain r0 u0 where "load_entries lib entries f = (r0, u0)" by force
  with load_keeps [OF assms(1,2) this] assms(3) show ?thesis
    by (cases r0) (auto simp: load_scenarios_def act_bind_def act_return_def)
qed

section \<open>Runs\<close>

text \<open>A run that asserts: it passes when every answer is its snapshot, and writes nothing.\<close>

definition is_frozen :: "layer1_lib \<Rightarrow> fs \<Rightarrow> instants \<Rightarrow> scenario \<Rightarrow> bool" where
  "is_frozen lib f t sc \<longleftrightarrow> sn_interop_driven sc \<or>
     (\<exists>s. answer_text lib t sc (fs_read f (request_path lib sc)) = Inr s \<and>
          read_snapshot (layer1_store lib) (sn_name sc) f = Some s)"

lemma assert_scenario:
  "replay_scenario lib False t sc f = (Inr u, f') \<longleftrightarrow> f' = f \<and> is_frozen lib f t sc"
  by (auto simp: replay_scenario_def is_frozen_def act_bind_Inr_iff checked_answer_eq judge_snapshot_def Let_def
      require_def split: option.splits if_splits)

lemma assert_run:
  "replay_from lib False clk i scs f = (Inr (), f') \<longleftrightarrow>
     f' = f \<and> (\<forall>k < length scs. is_frozen lib f (clk (i + k)) (scs ! k))"
proof (induction scs arbitrary: i)
  case (Cons sc scs)
  show ?case
    by (auto simp: act_bind_Inr_iff assert_scenario Cons.IH less_Suc_eq_0_disj nth_Cons split: nat.splits)
qed auto

text \<open>A run that captures, on the three tables of the store.\<close>

definition tables :: "layer1_lib \<Rightarrow> fs \<Rightarrow> abstract_store" where
  "tables lib f = abstract_of (l1_toml lib) (layer1_store lib) f"

definition abs_update :: "string \<Rightarrow> string \<Rightarrow> abstract_store \<Rightarrow> abstract_store" where
  "abs_update n s a = (if as_snapshot a n = Some s then a else abs_capture n s a)"

lemma frozen_in_tables: "relative n \<Longrightarrow> read_snapshot (layer1_store lib) n f = as_snapshot (tables lib f) n"
  by (simp add: tables_def abstract_of_def)

lemma capture_scenario:
  assumes "toml_ok (l1_toml lib)" and "relative (sn_name sc)" and "\<not> sn_interop_driven sc"
    and "replay_scenario lib True t sc f = (Inr (), f')"
  shows "\<exists>s. answer_text lib t sc (fs_read f (request_path lib sc)) = Inr s \<and>
    tables lib f' = abs_update (sn_name sc) s (tables lib f)"
proof -
  from assms(3,4) obtain s where s: "answer_text lib t sc (fs_read f (request_path lib sc)) = Inr s"
    and judge: "judge_snapshot lib True (sn_name sc) s f = (Inr (), f')"
    by (auto simp: replay_scenario_def act_bind_Inr_iff checked_answer_eq)
  have capture: "tables lib f' = abs_capture (sn_name sc) s (tables lib f)"
    if "write_unverified (l1_toml lib) (layer1_store lib) (sn_name sc) s f = (Inr (), f')"
    using write_unverified_abs [OF assms(1,2) answer_text_utf8 [OF s] that] by (simp add: tables_def)
  from judge have "tables lib f' = abs_update (sn_name sc) s (tables lib f)"
    using capture frozen_in_tables [OF assms(2), of lib f]
    by (auto simp: judge_snapshot_def act_bind_Inr_iff require_def unwrapped_def act_map_err_iff abs_update_def Let_def
        split: option.splits if_splits)
  with s show ?thesis by blast
qed

text \<open>The tables after a run: of every scenario that was sent the answer, and of no other anything new.\<close>

definition run_names :: "scenario list \<Rightarrow> string list" where
  "run_names scs = map sn_name (filter (\<lambda>sc. \<not> sn_interop_driven sc) scs)"

definition captured_as :: "abstract_store \<Rightarrow> string \<Rightarrow> string \<Rightarrow> abstract_store \<Rightarrow> bool" where
  "captured_as a n s a' \<longleftrightarrow> as_snapshot a' n = Some s \<and>
     as_status a' n = (if as_snapshot a n = Some s then as_status a n else Some Unverified)"

definition untouched :: "abstract_store \<Rightarrow> string \<Rightarrow> abstract_store \<Rightarrow> bool" where
  "untouched a n a' \<longleftrightarrow> as_snapshot a' n = as_snapshot a n \<and> as_status a' n = as_status a n"

lemma abs_update_props:
  "captured_as a n s (abs_update n s a)" "m \<noteq> n \<Longrightarrow> untouched a m (abs_update n s a)"
  "as_evidence (abs_update n s a) = as_evidence a"
  by (simp_all add: captured_as_def untouched_def abs_update_def abs_capture_def)

lemma captured_untouched: "captured_as a n s a' \<Longrightarrow> untouched a' n a'' \<Longrightarrow> captured_as a n s a''"
  by (simp add: captured_as_def untouched_def)

lemma untouched_captured: "untouched a n a' \<Longrightarrow> captured_as a' n s a'' \<Longrightarrow> captured_as a n s a''"
  by (simp add: captured_as_def untouched_def)

lemma untouched_trans: "untouched a n a' \<Longrightarrow> untouched a' n a'' \<Longrightarrow> untouched a n a''"
  by (simp add: untouched_def)

lemma untouched_refl [simp]: "untouched a n a"
  by (simp add: untouched_def)

text \<open>An update, and after it a run that touches the names in \<open>N\<close> only.\<close>

lemma update_then_run:
  assumes "\<forall>m. m \<notin> N \<longrightarrow> untouched (abs_update n s a) m a'" and "n \<notin> N"
  shows "captured_as a n s a'" and "m \<notin> insert n N \<Longrightarrow> untouched a m a'"
    and "m \<in> N \<Longrightarrow> captured_as (abs_update n s a) m x a' \<Longrightarrow> captured_as a m x a'"
proof -
  show "captured_as a n s a'" using captured_untouched [OF abs_update_props(1)] assms by blast
  show "m \<notin> insert n N \<Longrightarrow> untouched a m a'" using untouched_trans [OF abs_update_props(2)] assms by blast
  show "m \<in> N \<Longrightarrow> captured_as (abs_update n s a) m x a' \<Longrightarrow> captured_as a m x a'"
    using untouched_captured [OF abs_update_props(2)] assms(2) by metis
qed

lemma run_name_nth: "k < length scs \<Longrightarrow> \<not> sn_interop_driven (scs ! k) \<Longrightarrow> sn_name (scs ! k) \<in> set (run_names scs)"
  by (auto simp: run_names_def)

text \<open>What a run captures of the scenarios from position \<open>i\<close> on, when they are sent from \<open>f\<close>.\<close>

definition answers_captured ::
  "layer1_lib \<Rightarrow> (nat \<Rightarrow> instants) \<Rightarrow> nat \<Rightarrow> scenario list \<Rightarrow> fs \<Rightarrow> abstract_store \<Rightarrow> abstract_store \<Rightarrow> bool" where
  "answers_captured lib clk i scs f a a' \<longleftrightarrow>
     (\<forall>k < length scs. \<not> sn_interop_driven (scs ! k) \<longrightarrow>
       (\<exists>s. answer_text lib (clk (i + k)) (scs ! k) (fs_read f (request_path lib (scs ! k))) = Inr s \<and>
            captured_as a (sn_name (scs ! k)) s a'))"

lemma answers_captured_Cons:
  "answers_captured lib clk i (sc # scs) f a a' \<longleftrightarrow>
     (sn_interop_driven sc \<or> (\<exists>s. answer_text lib (clk i) sc (fs_read f (request_path lib sc)) = Inr s \<and>
        captured_as a (sn_name sc) s a')) \<and> answers_captured lib clk (i + 1) scs f a a'"
  by (auto simp: answers_captured_def less_Suc_eq_0_disj)

lemma answers_captured_mono:
  assumes "answers_captured lib clk i scs f a a'"
    and "\<And>sc. sc \<in> set scs \<Longrightarrow> fs_read f' (request_path lib sc) = fs_read f (request_path lib sc)"
    and "\<And>n s. n \<in> set (run_names scs) \<Longrightarrow> captured_as a n s a' \<Longrightarrow> captured_as b n s a'"
  shows "answers_captured lib clk i scs f' b a'"
  using assms run_name_nth unfolding answers_captured_def by (metis nth_mem)

lemma capture_run:
  assumes "toml_ok (l1_toml lib)"
    and "replay_from lib True clk i scs f = (Inr (), f')" and "distinct (run_names scs)"
    and "\<forall>sc \<in> set scs. relative (sn_name sc) \<and> relative (sn_request_file sc)"
  shows "keeps_scenarios lib f f' \<and> as_evidence (tables lib f') = as_evidence (tables lib f) \<and>
    (\<forall>n. n \<notin> set (run_names scs) \<longrightarrow> untouched (tables lib f) n (tables lib f')) \<and>
    answers_captured lib clk i scs f (tables lib f) (tables lib f')"
  using assms(2-)
proof (induction scs arbitrary: i f)
  case Nil
  then show ?case using reflpD [OF keeps_scenarios_order(1)] by (simp add: answers_captured_def)
next
  case (Cons sc scs)
  from Cons.prems(1) obtain u where first: "replay_scenario lib True (clk i) sc f = (Inr (), u)"
    and rest: "replay_from lib True clk (i + 1) scs u = (Inr (), f')"
    by (auto simp: act_bind_Inr_iff)
  have dist: "distinct (run_names scs)" using Cons.prems(2) by (simp add: run_names_def split: if_splits)
  have rel: "relative (sn_name sc)" "\<forall>sc \<in> set scs. relative (sn_name sc) \<and> relative (sn_request_file sc)"
    using Cons.prems(3) by auto
  have keep1: "keeps_scenarios lib f u" using confinedD [OF scenario_keeps_scenarios [OF rel(1)] first] .
  note ih = Cons.IH [OF rest dist rel(2)]
  have keep: "keeps_scenarios lib f f'" using transpD [OF keeps_scenarios_order(2) keep1] ih by blast
  have same: "fs_read f (request_path lib x) = fs_read u (request_path lib x)" if "x \<in> set scs" for x
    using keeps_scenarios_request [OF keep1] rel(2) that by simp
  show ?case
  proof (cases "sn_interop_driven sc")
    case True
    then have "u = f" using first by (simp add: replay_scenario_def)
    with ih True show ?thesis by (simp add: run_names_def answers_captured_Cons)
  next
    case False
    obtain s where s: "answer_text lib (clk i) sc (fs_read f (request_path lib sc)) = Inr s"
      and upd: "tables lib u = abs_update (sn_name sc) s (tables lib f)"
      using capture_scenario [OF assms(1) rel(1) False first] by blast
    have names: "run_names (sc # scs) = sn_name sc # run_names scs" using False by (simp add: run_names_def)
    with Cons.prems(2) have fresh: "sn_name sc \<notin> set (run_names scs)" by simp
    note after_run = update_then_run [OF _ fresh, of s "tables lib f" "tables lib f'"]
    have "answers_captured lib clk (i + 1) scs f (tables lib f) (tables lib f')"
      by (rule answers_captured_mono [where f = u and a = "tables lib u"]) (use ih same upd after_run(3) in auto)
    with keep s ih upd after_run(1,2) show ?thesis
      by (auto simp: names answers_captured_Cons abs_update_props)
  qed
qed

section \<open>Properties\<close>

text \<open>
  C33. What the regression test captures it accepts: when a run that captures snapshots has
  ended without a failure, a run that asserts them passes on the files it left, and writes
  nothing, at whatever time it takes place, provided that the scenarios that are sent to a service
  with credentials (those named \<open>wssec_\<close>) are answered as they were at the capture. The capture
  made the scenarios whose answer had changed unverified; the others of the run kept their
  status, and all other snapshots and statuses and the evidence of all scenarios were left alone.
\<close>

theorem captured_run_replays:
  assumes "toml_ok (l1_toml lib)" and "list_all relative entries"
    and "load_scenarios lib entries f = (Inr scs, f)" and "distinct (run_names scs)"
    and "\<forall>sc \<in> set scs. relative (sn_name sc) \<and> relative (sn_request_file sc)"
    and "\<forall>k < length scs. starts_with ''wssec_'' (sn_name (scs ! k)) \<longrightarrow>
      (\<forall>req. answer_text lib (clk' k) (scs ! k) req = answer_text lib (clk k) (scs ! k) req)"
    and "replay_all_scenarios lib True clk entries f = (Inr (), f')"
  shows "replay_all_scenarios lib False clk' entries f' = (Inr (), f') \<and>
    as_evidence (tables lib f') = as_evidence (tables lib f) \<and>
    (\<forall>n. n \<notin> set (run_names scs) \<longrightarrow> untouched (tables lib f) n (tables lib f')) \<and>
    (\<forall>n \<in> set (run_names scs). as_status (tables lib f') n =
       (if as_snapshot (tables lib f') n = as_snapshot (tables lib f) n then as_status (tables lib f) n
        else Some Unverified))"
proof -
  from assms(7) have run: "replay_from lib True clk 0 scs f = (Inr (), f')"
    by (simp add: replay_all_scenarios_def act_bind_def assms(3))
  note caught = capture_run [OF assms(1) run assms(4,5)]
  then have keep: "keeps_scenarios lib f f'"
    and answers: "answers_captured lib clk 0 scs f (tables lib f) (tables lib f')" by blast+
  have "is_frozen lib f' (clk' k) (scs ! k)" if k: "k < length scs" for k
  proof -
    have rel: "relative (sn_name (scs ! k))" "relative (sn_request_file (scs ! k))" using assms(5) k by auto
    have "answer_text lib (clk' k) (scs ! k) req = answer_text lib (clk k) (scs ! k) req" for req
      using assms(6) k answer_text_stable by blast
    then show ?thesis
      using answers k keeps_scenarios_request [OF keep rel(2)] frozen_in_tables [OF rel(1)]
      by (fastforce simp: answers_captured_def is_frozen_def captured_as_def)
  qed
  then have again: "replay_from lib False clk' 0 scs f' = (Inr (), f')" by (simp add: assert_run)
  from load_scenarios_keeps [OF assms(2) keep assms(3)]
  have "replay_all_scenarios lib False clk' entries f' = (Inr (), f')"
    using again by (simp add: replay_all_scenarios_def act_bind_def)
  moreover have "as_status (tables lib f') n =
      (if as_snapshot (tables lib f') n = as_snapshot (tables lib f) n then as_status (tables lib f) n
       else Some Unverified)" if n: "n \<in> set (run_names scs)" for n
  proof -
    from n obtain k where "k < length scs" "\<not> sn_interop_driven (scs ! k)" "sn_name (scs ! k) = n"
      by (auto simp: run_names_def in_set_conv_nth)
    with answers show ?thesis by (fastforce simp: answers_captured_def captured_as_def)
  qed
  ultimately show ?thesis using caught by blast
qed

text \<open>One scenario, which asks the controlled service for its WSDL.\<close>

definition wsdl_scenario :: scenario where
  "wsdl_scenario =
     \<lparr>sn_name = ''op'', sn_operation = ''wsdl'', sn_http_method = ''get'', sn_http_path = ''/soap'',
      sn_content_type = ''text/xml'', sn_soap_version = SoapV12, sn_expected_status = 200,
      sn_outcome = OutcomeSuccess, sn_request_file = ''op.xml'', sn_fault = None, sn_interop_driven = False\<rparr>"

definition sample_layer1 :: layer1_lib where
  "sample_layer1 =
     \<lparr>l1_server = served_lib, l1_axum = sample_axum, l1_own = (\<lambda>_. None), l1_wsdl = ''w'', l1_multi = ''w'',
      l1_toml = one_table_toml, l1_scenario = (\<lambda>_. Inr wsdl_scenario), l1_attr_err = ''attribute'', l1_root = ''r''\<rparr>"

definition sample_files :: fs where
  "sample_files =
     \<lparr>fs_files = [''r/scenarios/op.toml'' \<mapsto> ''op'', ''r/scenarios/op.xml'' \<mapsto> []],
      fs_dirs = {''r'', ''r/scenarios''}, fs_refuses = (\<lambda>_. None)\<rparr>"

lemma sample_load: "load_scenarios sample_layer1 [''op.toml''] sample_files = (Inr [wsdl_scenario], sample_files)"
  by (simp add: load_scenarios_def Let_def file_extension_def after_last_def layer1_steps act_bind_def
      unwrapped_def act_map_err_def act_read_def act_lift_def act_return_def crate_dir_def join_path_def starts_with_def
      fs_read_to_string_def fs_read_def sample_files_def sample_layer1_def from_utf8_def utf8_valid_ascii is_ascii_def byte_def)

lemma sample_answer: "\<exists>s. answer_text sample_layer1 (0, 0, 0) wsdl_scenario (Inr []) = Inr s"
proof -
  obtain svc :: "unit soap_service" where svc: "build_controlled_sut served_lib 0 ''w'' = Some svc"
    using served_builds by blast
  have services: "services (rw_definition served_resolved) = []"
    by (simp add: served_resolved_def empty_definition_def)
  have "into_router svc = \<lparr>routes = [(''/soap'', SingleEndpoint)], body_limit = DEFAULT_MAX_BODY_BYTES\<rparr>"
    by (rule controlled_built(4) [OF svc, of served_resolved "{}"]) (simp_all add: served_sel served_resolves services)
  then have "sample_axum (into_router svc) ''/soap'' [] = Inr SingleEndpoint"
    by (simp add: sample_axum_def DEFAULT_MAX_BODY_BYTES_def)
  moreover have "select_sut sample_layer1 0 ''op'' = Some svc"
    by (simp add: select_sut_def starts_with_def sample_layer1_def svc)
  moreover have "eq_ignore_ascii_case ''get'' ''GET''" by code_simp
  moreover have "sl_write served_lib = (\<lambda>_. [])" by (simp add: served_lib_def echo_lib_def)
  moreover have "normalize_xml controlled_tok (\<lambda>_. []) ''attribute'' [] default_masks = Inr []"
    by (simp add: normalize_xml_def controlled_tok_def body_fragment_def echo_tree_def starts_with_def
        inherited_def echo_pieces_def write_sorted_start_def from_utf8_def)
  ultimately show ?thesis
    by (simp add: answer_text_def wsdl_scenario_def sut_answer_def served_sel rewrite_wsdl_address_def
        replay_get_wsdl_def sample_layer1_def response_read_def wsdl_get_handler_def wsdl_response_def
        del: served_sel(3))
qed

lemma sample_capture:
  "\<exists>f'. replay_all_scenarios sample_layer1 True (\<lambda>_. (0, 0, 0)) [''op.toml''] sample_files = (Inr (), f')"
proof -
  obtain s where s: "answer_text sample_layer1 (0, 0, 0) wsdl_scenario (Inr []) = Inr s" using sample_answer by blast
  have "fs_read sample_files (request_path sample_layer1 wsdl_scenario) = Inr []"
    by (simp add: fs_read_def request_path_def sample_files_def sample_layer1_def wsdl_scenario_def crate_dir_def
        join_path_def starts_with_def)
  with s have checked: "checked_answer sample_layer1 (0, 0, 0) wsdl_scenario sample_files = (Inr s, sample_files)"
    by (simp add: checked_answer_eq)
  have "\<exists>f'. judge_snapshot sample_layer1 True ''op'' s sample_files = (Inr (), f')"
    by (simp add: judge_snapshot_def act_bind_def act_read_def Let_def require_def unwrapped_def act_map_err_def
        read_snapshot_def layer1_store_def store_eval sample_files_def sample_layer1_def crate_dir_def
        is_ascii_def byte_def act_return_def upt_rec)
  then show ?thesis
    by (simp add: replay_all_scenarios_def act_bind_def sample_load replay_scenario_def checked)
      (auto simp: wsdl_scenario_def act_return_def)
qed

lemma captured_run_replays_witness:
  "\<exists>f'. replay_all_scenarios sample_layer1 True (\<lambda>_. (0, 0, 0)) [''op.toml''] sample_files = (Inr (), f') \<and>
     replay_all_scenarios sample_layer1 False (\<lambda>_. (7, 8, 9)) [''op.toml''] f' = (Inr (), f')"
proof -
  obtain f' where run: "replay_all_scenarios sample_layer1 True (\<lambda>_. (0, 0, 0)) [''op.toml''] sample_files = (Inr (), f')"
    using sample_capture by blast
  have toml: "toml_ok (l1_toml sample_layer1)" by (simp add: sample_layer1_def one_table_toml_ok)
  have "replay_all_scenarios sample_layer1 False (\<lambda>_. (7, 8, 9)) [''op.toml''] f' = (Inr (), f')"
    by (rule captured_run_replays [OF toml _ sample_load _ _ _ run, THEN conjunct1])
      (simp_all add: relative_def starts_with_def run_names_def wsdl_scenario_def)
  with run show ?thesis by blast
qed

end
