(* ===== verification/SimpleService.thy ===== *)
theory SimpleService
  imports Sut
begin

text \<open>
  The example service (\<open>examples/simple_service.rs\<close>): one handler, which reads a name out of the
  body and greets it. What the reader gives for the inner text of an element, and the function
  that resolves entities in it, are parameters.
\<close>

text \<open>\<open>read_text\<close> after the item at a position: the raw text up to the end tag, or an error.\<close>

type_synonym inner_text = "bytes \<Rightarrow> nat \<Rightarrow> string option"

fun text_of_loop :: "(nat \<Rightarrow> string option) \<Rightarrow> (string \<Rightarrow> string option) \<Rightarrow> string \<Rightarrow> nat \<Rightarrow> reader \<Rightarrow> string option" where
  "text_of_loop inner unescape loc i [] = None"
| "text_of_loop inner unescape loc i (Inl e # r) = None"
| "text_of_loop inner unescape loc i (Inr (_, ev) # r) =
     (case ev of
        EvStart e \<Rightarrow>
          if local_part (tag_name e) = loc then Option.bind (inner i) unescape
          else text_of_loop inner unescape loc (i + 1) r
      | EvEof \<Rightarrow> None
      | _ \<Rightarrow> text_of_loop inner unescape loc (i + 1) r)"

definition text_of :: "tokenizer \<Rightarrow> inner_text \<Rightarrow> (string \<Rightarrow> string option) \<Rightarrow> bytes \<Rightarrow> string \<Rightarrow> string option" where
  "text_of tok inner unescape body loc = text_of_loop (inner body) unescape loc 0 (tok True body)"

definition greeting :: "string \<Rightarrow> bytes" where
  "greeting escaped =
     ''<SayHelloResponse xmlns='' @ attr_quoted ''urn:example:hello'' @ ''><Greeting>Hello, '' @ escaped @
     ''!</Greeting></SayHelloResponse>''"

definition say_hello :: "server_lib \<Rightarrow> inner_text \<Rightarrow> (string \<Rightarrow> string option) \<Rightarrow> 's soap_handler" where
  "say_hello lib inner unescape =
     fn_handler (\<lambda>body s.
       (let name = (case text_of (sl_tok lib) inner unescape body ''Name'' of Some n \<Rightarrow> n | None \<Rightarrow> ''world'')
        in (Inr (greeting (escape_text (sl_esc lib) name)), s)))"

text \<open>The service, up to the socket that it listens on.\<close>

definition hello_builder :: "server_lib \<Rightarrow> inner_text \<Rightarrow> (string \<Rightarrow> string option) \<Rightarrow> path \<Rightarrow> 's server_builder" where
  "hello_builder lib inner unescape wsdl =
     with_path ''/hello'' (with_handler ''SayHello'' (say_hello lib inner unescape) (from_wsdl_file wsdl))"

definition hello_service :: "server_lib \<Rightarrow> inner_text \<Rightarrow> (string \<Rightarrow> string option) \<Rightarrow> nat \<Rightarrow> path \<Rightarrow> 's soap_service option" where
  "hello_service lib inner unescape inst wsdl = expect_built (build lib inst (hello_builder lib inner unescape wsdl))"

section \<open>What it answers\<close>

text \<open>The first start tag with the name counts, empty elements do not.\<close>

lemma text_of_loop_before:
  "\<forall>i \<in> set pre. \<exists>res ev. i = Inr (res, ev) \<and> ev \<noteq> EvEof \<and> (\<forall>e. ev = EvStart e \<longrightarrow> local_part (tag_name e) \<noteq> loc) \<Longrightarrow>
   text_of_loop inner unescape loc k (pre @ r) = text_of_loop inner unescape loc (k + length pre) r"
proof (induction pre arbitrary: k)
  case (Cons i pre)
  then obtain res ev where "i = Inr (res, ev)" by auto
  with Cons show ?case by (cases ev) simp_all
qed simp

lemma text_of_first:
  assumes "tok True body = pre @ Inr (res, EvStart e) # r" and "local_part (tag_name e) = loc"
    and "\<forall>i \<in> set pre. \<exists>res ev. i = Inr (res, ev) \<and> ev \<noteq> EvEof \<and> (\<forall>e. ev = EvStart e \<longrightarrow> local_part (tag_name e) \<noteq> loc)"
  shows "text_of tok inner unescape body loc = Option.bind (inner body (length pre)) unescape"
  using assms by (simp add: text_of_def text_of_loop_before)

lemma hello_fields:
  "load_wsdl lib (hello_builder lib inner unescape wsdl) =
     res_bind (map_err WsdlIo (sl_read_file lib wsdl)) (\<lambda>bytes. Inr (bytes, Some wsdl))"
  "sb_auth_fn (hello_builder lib inner unescape wsdl) = None"
  "sb_mount_path (hello_builder lib inner unescape wsdl) = ''/hello''"
  "sb_auth_bypass (hello_builder lib inner unescape wsdl) = {}"
  "sb_default_handler (hello_builder lib inner unescape wsdl) = None"
  "hm_get (sb_handlers (hello_builder lib inner unescape wsdl)) ''SayHello'' = Some (say_hello lib inner unescape)"
  by (simp_all add: hello_builder_def with_handler_def with_path_def from_wsdl_file_def builder_new_def
      hm_insert_def hm_get_def load_wsdl_def)

text \<open>A valid request for the operation is answered with the greeting, in the version it came in.\<close>

lemma hello_is_greeted:
  assumes "hello_service lib inner unescape inst0 wsdl = Some svc" and "sl_read_file lib wsdl = Inr bytes"
    and "resolve_wsdl (sl_rox lib) (select_loader lib (hello_builder lib inner unescape wsdl :: 's server_builder) (Some wsdl))
      bytes {} = Some (Inr (rw, vis))"
    and "length (hm_keys (services (rw_definition rw))) \<le> 1"
    and "op \<in> set (collect_ops_for_service None rw)" and "fst op = ''SayHello''"
    and "operation_types rw op = Inr (Some q, val)"
    and "\<forall>op' \<in> set (collect_ops_for_service None rw). op' \<noteq> op \<longrightarrow>
      (\<forall>val'. operation_types rw op' \<noteq> Inr (Some q, val'))"
    and "detect_soap_version (request_content_type h) = Inr v" and "parse_envelope (sl_tok lib) body = Inr envelope"
    and "extract_body_qname (sl_tok lib) (body_element envelope) = Inr q"
    and "validate_request (sl_tok lib) (body_element envelope) (rw_type_registry rw) val = Inr ()"
    and "text_of (sl_tok lib) inner unescape (body_element envelope) ''Name'' = Some name"
  shows "routes (into_router svc) = [(''/hello'', SingleEndpoint)] \<and>
    post_endpoint lib svc SingleEndpoint h body now inst (cache, s :: 's) = Some (Respond
      \<lparr>status = 200, content_type = Some (response_content_type (env_soap_version envelope)),
       resp_body = serialize_envelope (greeting (escape_text (sl_esc lib) name)) (env_soap_version envelope)\<rparr>, cache, s)"
proof -
  from assms(1) have "build lib inst0 (hello_builder lib inner unescape wsdl) = Some (Inr svc)"
    by (auto simp: hello_service_def expect_built_def split: option.splits sum.splits)
  note built = single_service_built [OF this, of bytes "Some wsdl" rw vis]
  have built: "build_dispatch_table rw (sb_handlers (hello_builder lib inner unescape wsdl)) {} None =
      Inr (svc_dispatch_table svc)"
    "svc_auth_fn svc = None" "svc_type_registry svc = rw_type_registry rw"
    "routes (into_router svc) = [(''/hello'', SingleEndpoint)]"
    using built assms(2-4) by (simp_all add: hello_fields)
  obtain e where e: "route (svc_dispatch_table svc) q (request_soap_action h) = Inr e" "validation_type e = val"
    "operation_handler (sb_handlers (hello_builder lib inner unescape wsdl)) None (fst op) = Inr (handler e)"
    using operation_is_routed [OF built(1) assms(5,7,8), of "request_soap_action h"] by blast
  then have hd: "handler e = say_hello lib inner unescape"
    by (simp add: operation_handler_def assms(6) hello_fields)
  have opened: "open_request lib (svc_dispatch_table svc) h body = Inr (envelope, e)"
    using assms(9-11) e(1) by (simp add: open_request_def)
  have auth: "authenticate lib svc envelope e now inst cache = Some (Inr (), cache)"
    by (simp add: authenticate_def built(2))
  have "handle_with_headers (say_hello lib inner unescape) (body_element envelope) (header_children envelope) s =
      (Inr (greeting (escape_text (sl_esc lib) name)), s)"
    by (simp add: say_hello_def fn_handler_def default_handle_with_headers_def assms(13))
  then show ?thesis
    by (simp add: soap_post_handler_def opened auth invoke_def Let_def built(3,4) e(2) assms(12) hd)
qed

end
