(* ===== verification/TestDocs.thy ===== *)
theory TestDocs
  imports XmlDoc
begin

text \<open>
  The words in which the documents of the unit tests are written down: white space between
  tags, elements as the tree reader gives them, readers that know a fixed set of documents. A
  document is named by a string that stands for its text.
\<close>

definition nl :: "nat \<Rightarrow> string" where
  "nl n = CHR 0x0A # replicate n CHR '' ''"

definition ws :: "nat \<Rightarrow> xnode" where
  "ws n = TextNode (nl n)"

text \<open>An element whose attributes have no namespace.\<close>

definition elt :: "string option \<Rightarrow> string \<Rightarrow> (string \<times> string) list \<Rightarrow> (string option \<times> string) list \<Rightarrow>
   xnode list \<Rightarrow> xnode" where
  "elt ns l as scope cs = Elem ns l (map (\<lambda>(k, v). (None, k, v)) as) scope cs"

text \<open>The tree reader and the tokeniser on the documents of a test, errors on any other text.\<close>

definition known_trees :: "(string \<times> xnode) list \<Rightarrow> string \<Rightarrow> string + xnode" where
  "known_trees ds t = (case map_of ds t of Some n \<Rightarrow> Inr n | None \<Rightarrow> Inl ''unknown document'')"

definition known_items :: "(bytes \<times> reader) list \<Rightarrow> tokenizer" where
  "known_items ds trim b = (case map_of ds b of Some r \<Rightarrow> r | None \<Rightarrow> [Inl ''unknown document''])"

text \<open>The writer: a tag with its attributes as they are, everything else as it was read.\<close>

fun attr_text :: "attr \<Rightarrow> bytes" where
  "attr_text (Attr k v) = '' '' @ k @ ''=\"'' @ v @ ''\"''"
| "attr_text AttrErr = []"

definition tag_text :: "tag \<Rightarrow> bytes" where
  "tag_text e = tag_name e @ concat (map attr_text (tag_attrs e))"

fun event_text :: "event \<Rightarrow> bytes" where
  "event_text (EvStart e) = ''<'' @ tag_text e @ ''>''"
| "event_text (EvEmpty e) = ''<'' @ tag_text e @ ''/>''"
| "event_text (EvEnd n) = ''</'' @ n @ ''>''"
| "event_text (EvText t) = t"
| "event_text (EvCData t) = ''<![CDATA['' @ t @ '']]>''"
| "event_text (EvGeneralRef r) = ''&'' @ r @ '';''"
| "event_text (EvComment t) = ''<!--'' @ t @ ''-->''"
| "event_text (EvDecl t) = ''<?'' @ t @ ''?>''"
| "event_text (EvPI t) = ''<?'' @ t @ ''?>''"
| "event_text (EvDocType t) = ''<!DOCTYPE '' @ t @ ''>''"
| "event_text EvEof = []"

definition events_text :: "event list \<Rightarrow> bytes" where
  "events_text evs = concat (map event_text evs)"

text \<open>A search that leaves a position at the first difference, for evaluation.\<close>

lemma starts_with_code [code]:
  "starts_with [] s = True"
  "starts_with (p # ps) [] = False"
  "starts_with (p # ps) (c # cs) = (if p = c then starts_with ps cs else False)"
  by (auto simp: starts_with_def)

lemma str_contains_code [code]:
  "str_contains p [] = (p = [])"
  "str_contains p (c # cs) = (if starts_with p (c # cs) then True else str_contains p cs)"
  by simp_all

text \<open>
  A search in a written document, event by event: what holds no angle bracket is found in a tag or
  in the text between two tags.
\<close>

fun found_in :: "string \<Rightarrow> bytes \<Rightarrow> event list \<Rightarrow> bool" where
  "found_in p run [] = str_contains p run"
| "found_in p run (EvStart e # evs) =
     (if str_contains p run then True else if str_contains p (tag_text e) then True else found_in p [] evs)"
| "found_in p run (EvEmpty e # evs) =
     (if str_contains p run then True else if str_contains p (tag_text e @ ''/'') then True else found_in p [] evs)"
| "found_in p run (EvEnd n # evs) =
     (if str_contains p run then True else if str_contains p (CHR ''/'' # n) then True else found_in p [] evs)"
| "found_in p run (ev # evs) = found_in p (run @ event_text ev) evs"

definition contains_events :: "string \<Rightarrow> event list \<Rightarrow> bool" where
  "contains_events p evs =
     (if CHR ''<'' \<in> set p \<or> CHR ''>'' \<in> set p then str_contains p (events_text evs) else found_in p [] evs)"

lemma str_contains_apart:
  assumes "c \<notin> set p"
  shows "str_contains p (a @ c # b) \<longleftrightarrow> str_contains p a \<or> str_contains p b"
proof
  assume "str_contains p (a @ c # b)"
  then obtain u v where "a @ c # b = u @ p @ v" by (auto simp: str_contains_iff)
  then consider w where "a = u @ p @ w" | w where "b = w @ p @ v"
    using assms by (auto simp: append_eq_append_conv2 append_eq_Cons_conv Cons_eq_append_conv)
  then show "str_contains p a \<or> str_contains p b"
    by cases (auto simp: str_contains_iff)
next
  assume "str_contains p a \<or> str_contains p b"
  then show "str_contains p (a @ c # b)"
    unfolding str_contains_iff by (metis append.assoc append_Cons)
qed

lemma found_in_iff:
  "CHR ''<'' \<notin> set p \<Longrightarrow> CHR ''>'' \<notin> set p \<Longrightarrow>
   str_contains p (run @ events_text evs) \<longleftrightarrow> found_in p run evs"
proof (induction p run evs rule: found_in.induct)
  case (1 p run)
  then show ?case by (simp add: events_text_def)
next
  case (3 p run e evs)
  note apart = str_contains_apart [of _ p]
  have "str_contains p (run @ events_text (EvEmpty e # evs)) \<longleftrightarrow>
      str_contains p run \<or> str_contains p (tag_text e @ ''/'') \<or> str_contains p (events_text evs)"
    using apart [OF 3(2), of run] apart [OF 3(3), of "tag_text e @ ''/''"] by (simp add: events_text_def)
  with 3 show ?case by simp
next
  case (4 p run n evs)
  note apart = str_contains_apart [of _ p]
  have "str_contains p (run @ events_text (EvEnd n # evs)) \<longleftrightarrow>
      str_contains p run \<or> str_contains p (CHR ''/'' # n) \<or> str_contains p (events_text evs)"
    using apart [OF 4(2), of run] apart [OF 4(3), of "CHR ''/'' # n"]
    by (simp add: events_text_def del: str_contains.simps)
  with 4 show ?case by simp
qed (simp_all add: events_text_def str_contains_apart)

lemma str_contains_events_text: "str_contains p (events_text evs) = contains_events p evs"
  using found_in_iff [of p "[]" evs] by (simp add: contains_events_def)

text \<open>\<open>unwrap\<close> and \<open>unwrap_err\<close> of a result, and \<open>unwrap\<close> of an option, going on with what is inside.\<close>

definition unwrapped :: "'e + 'a \<Rightarrow> ('a \<Rightarrow> bool) \<Rightarrow> bool" where
  "unwrapped r k = (case r of Inr x \<Rightarrow> k x | Inl _ \<Rightarrow> False)"

definition failed :: "'e + 'a \<Rightarrow> ('e \<Rightarrow> bool) \<Rightarrow> bool" where
  "failed r k = (case r of Inl e \<Rightarrow> k e | Inr _ \<Rightarrow> False)"

definition present :: "'a option \<Rightarrow> ('a \<Rightarrow> bool) \<Rightarrow> bool" where
  "present r k = (case r of Some x \<Rightarrow> k x | None \<Rightarrow> False)"

end
