(* ===== verification/BasicTests.thy ===== *)
theory BasicTests
  imports Handler TestDocs
begin

text \<open>
  The unit tests of \<open>qname.rs\<close>, \<open>xml_escape.rs\<close>, \<open>fault.rs\<close> and \<open>handler.rs\<close>, run on the model: each
  test is a definition with its name, the conjunction of its assertions, and each group of
  tests is proved by evaluation. The escaping function is the instance \<open>xml_escape\<close>, which passes
  the tests that the crate makes of the one it uses.
\<close>

section \<open>Qualified names\<close>

named_theorems qname_tests "the unit tests of this group"

definition qname_new_sets_namespace_and_local :: bool where [qname_tests]:
  "qname_new_sets_namespace_and_local \<longleftrightarrow>
     (let q = qname_new ''http://example.com'' ''Foo'' in
        namespace q = Some ''http://example.com'' \<and> local_name q = ''Foo'')"

definition qname_local_has_no_namespace :: bool where [qname_tests]:
  "qname_local_has_no_namespace \<longleftrightarrow>
     (let q = qname_local ''Bar'' in namespace q = None \<and> local_name q = ''Bar'')"

definition qname_display_with_namespace :: bool where [qname_tests]:
  "qname_display_with_namespace \<longleftrightarrow>
     qname_to_string (qname_new ''http://example.com'' ''Foo'') = ''{http://example.com}Foo''"

definition qname_display_without_namespace :: bool where [qname_tests]:
  "qname_display_without_namespace \<longleftrightarrow>
     qname_to_string (qname_local ''Bar'') = ''Bar''"

definition qname_equality_and_hash :: bool where [qname_tests]:
  "qname_equality_and_hash \<longleftrightarrow>
     qname_new ''http://example.com'' ''X'' = qname_new ''http://example.com'' ''X'' \<and>
      qname_new ''http://example.com'' ''X'' \<noteq> qname_local ''X''"

lemma qname_tests_pass:
  "qname_new_sets_namespace_and_local"
  "qname_local_has_no_namespace"
  "qname_display_with_namespace"
  "qname_display_without_namespace"
  "qname_equality_and_hash"
  by (simp_all add: qname_tests qname_to_string_def)

section \<open>Escaping\<close>

named_theorems escape_tests "the unit tests of this group"

definition escape_text_all_special_chars :: bool where [escape_tests]:
  "escape_text_all_special_chars \<longleftrightarrow>
     escape_text xml_escape (''& < > \" '' @ [CHR 0x27]) = ''&amp; &lt; &gt; &quot; &apos;''"

definition escape_attr_all_special_chars :: bool where [escape_tests]:
  "escape_attr_all_special_chars \<longleftrightarrow>
     escape_attr xml_escape (''& < > \" '' @ [CHR 0x27]) = ''&amp; &lt; &gt; &quot; &apos;''"

definition escape_text_plain_string_unchanged :: bool where [escape_tests]:
  "escape_text_plain_string_unchanged \<longleftrightarrow>
     escape_text xml_escape ''hello world'' = ''hello world''"

definition escape_attr_plain_string_unchanged :: bool where [escape_tests]:
  "escape_attr_plain_string_unchanged \<longleftrightarrow>
     escape_attr xml_escape ''hello world'' = ''hello world''"

definition escape_text_ampersand_only :: bool where [escape_tests]:
  "escape_text_ampersand_only \<longleftrightarrow>
     escape_text xml_escape ''Acme & Sons'' = ''Acme &amp; Sons''"

definition escape_text_angle_brackets :: bool where [escape_tests]:
  "escape_text_angle_brackets \<longleftrightarrow>
     escape_text xml_escape ''<tag>'' = ''&lt;tag&gt;''"

definition escape_attr_double_quote :: bool where [escape_tests]:
  "escape_attr_double_quote \<longleftrightarrow>
     escape_attr xml_escape ''say \"hi\"'' = ''say &quot;hi&quot;''"

definition escape_attr_single_quote :: bool where [escape_tests]:
  "escape_attr_single_quote \<longleftrightarrow>
     escape_attr xml_escape (''it'' @ [CHR 0x27] @ ''s'') = ''it&apos;s''"

lemma escape_tests_pass:
  "escape_text_all_special_chars"
  "escape_attr_all_special_chars"
  "escape_text_plain_string_unchanged"
  "escape_attr_plain_string_unchanged"
  "escape_text_ampersand_only"
  "escape_text_angle_brackets"
  "escape_attr_double_quote"
  "escape_attr_single_quote"
  by (simp_all add: escape_tests escape_text_def escape_attr_def xml_escape_def xml_escape_char_def)

section \<open>Fault codes\<close>

named_theorems code_tests "the unit tests of this group"

definition fault_code_sender_as_soap12_str :: bool where [code_tests]:
  "fault_code_sender_as_soap12_str \<longleftrightarrow>
     as_soap12_str Sender = ''env:Sender''"

definition fault_code_sender_as_soap11_str :: bool where [code_tests]:
  "fault_code_sender_as_soap11_str \<longleftrightarrow>
     as_soap11_str Sender = ''env:Client''"

definition fault_code_receiver_as_soap12_str :: bool where [code_tests]:
  "fault_code_receiver_as_soap12_str \<longleftrightarrow>
     as_soap12_str Receiver = ''env:Receiver''"

definition fault_code_receiver_as_soap11_str :: bool where [code_tests]:
  "fault_code_receiver_as_soap11_str \<longleftrightarrow>
     as_soap11_str Receiver = ''env:Server''"

definition fault_code_version_mismatch_as_soap12_str :: bool where [code_tests]:
  "fault_code_version_mismatch_as_soap12_str \<longleftrightarrow>
     as_soap12_str VersionMismatch = ''env:VersionMismatch''"

definition fault_code_version_mismatch_as_soap11_str :: bool where [code_tests]:
  "fault_code_version_mismatch_as_soap11_str \<longleftrightarrow>
     as_soap11_str VersionMismatch = ''env:VersionMismatch''"

definition fault_code_must_understand_as_soap12_str :: bool where [code_tests]:
  "fault_code_must_understand_as_soap12_str \<longleftrightarrow>
     as_soap12_str MustUnderstand = ''env:MustUnderstand''"

definition fault_code_must_understand_as_soap11_str :: bool where [code_tests]:
  "fault_code_must_understand_as_soap11_str \<longleftrightarrow>
     as_soap11_str MustUnderstand = ''env:MustUnderstand''"

definition fault_code_data_encoding_unknown_as_soap12_str :: bool where [code_tests]:
  "fault_code_data_encoding_unknown_as_soap12_str \<longleftrightarrow>
     as_soap12_str DataEncodingUnknown = ''env:DataEncodingUnknown''"

definition fault_code_data_encoding_unknown_as_soap11_str :: bool where [code_tests]:
  "fault_code_data_encoding_unknown_as_soap11_str \<longleftrightarrow>
     as_soap11_str DataEncodingUnknown = ''env:Server''"

lemma code_tests_pass:
  "fault_code_sender_as_soap12_str"
  "fault_code_sender_as_soap11_str"
  "fault_code_receiver_as_soap12_str"
  "fault_code_receiver_as_soap11_str"
  "fault_code_version_mismatch_as_soap12_str"
  "fault_code_version_mismatch_as_soap11_str"
  "fault_code_must_understand_as_soap12_str"
  "fault_code_must_understand_as_soap11_str"
  "fault_code_data_encoding_unknown_as_soap12_str"
  "fault_code_data_encoding_unknown_as_soap11_str"
  by (simp_all add: code_tests )

section \<open>Fault documents\<close>

named_theorems fault_tests "the unit tests of this group"

definition serialize_sender_fault_contains_env_sender :: bool where [fault_tests]:
  "serialize_sender_fault_contains_env_sender \<longleftrightarrow>
     (let xml = to_xml_bytes xml_escape (sender ''Bad request'') in
        str_contains ''<env:Value>env:Sender</env:Value>'' xml)"

definition serialize_receiver_fault_contains_env_receiver :: bool where [fault_tests]:
  "serialize_receiver_fault_contains_env_receiver \<longleftrightarrow>
     (let xml = to_xml_bytes xml_escape (receiver ''Internal error'') in
        str_contains ''<env:Value>env:Receiver</env:Value>'' xml)"

definition serialize_fault_wraps_in_soap12_envelope :: bool where [fault_tests]:
  "serialize_fault_wraps_in_soap12_envelope \<longleftrightarrow>
     (let xml = to_xml_bytes xml_escape (sender ''test'') in
        str_contains ''xmlns:env=\"http://www.w3.org/2003/05/soap-envelope\"'' xml \<and>
        starts_with ''<env:Envelope'' xml \<and>
        str_contains ''<env:Body>'' xml \<and>
        str_contains ''<env:Fault>'' xml)"

definition serialize_fault_reason_included :: bool where [fault_tests]:
  "serialize_fault_reason_included \<longleftrightarrow>
     (let xml = to_xml_bytes xml_escape (sender ''Custom reason text'') in
        str_contains ''Custom reason text'' xml \<and>
        str_contains ''<env:Text xml:lang=\"en\">'' xml)"

definition serialize_fault_no_detail_when_none :: bool where [fault_tests]:
  "serialize_fault_no_detail_when_none \<longleftrightarrow>
     (let xml = to_xml_bytes xml_escape (sender ''test'') in
        \<not> str_contains ''<env:Detail>'' xml)"

definition serialize_fault_with_detail :: bool where [fault_tests]:
  "serialize_fault_with_detail \<longleftrightarrow>
     (let xml = to_xml_bytes xml_escape (fault_new Receiver ''Internal error'' (Some ''extra info'')) in
        \<not> str_contains ''<env:Detail>extra info</env:Detail>'' xml \<and>
        \<not> str_contains ''<env:Detail>'' xml \<and>
        str_contains ''Internal error'' xml)"

definition version_mismatch_convenience :: bool where [fault_tests]:
  "version_mismatch_convenience \<longleftrightarrow>
     (let xml = to_xml_bytes xml_escape (version_mismatch) in
        code version_mismatch = VersionMismatch \<and>
        str_contains ''<env:Value>env:VersionMismatch</env:Value>'' xml)"

definition must_understand_convenience :: bool where [fault_tests]:
  "must_understand_convenience \<longleftrightarrow>
     (let xml = to_xml_bytes xml_escape (must_understand ''MyHeader'') in
        code (must_understand ''MyHeader'') = MustUnderstand \<and>
        str_contains ''<env:Value>env:MustUnderstand</env:Value>'' xml \<and>
        str_contains ''MyHeader'' xml)"

definition action_not_supported_is_sender_fault :: bool where [fault_tests]:
  "action_not_supported_is_sender_fault \<longleftrightarrow>
     (let xml = to_xml_bytes xml_escape (action_not_supported ''urn:SomeAction'') in
        code (action_not_supported ''urn:SomeAction'') = Sender \<and>
        str_contains ''<env:Value>env:Sender</env:Value>'' xml \<and>
        str_contains ''urn:SomeAction'' xml)"

definition fault_soap11_structure :: bool where [fault_tests]:
  "fault_soap11_structure \<longleftrightarrow>
     (let xml = to_xml_bytes_v11 xml_escape (sender ''bad'') in
        str_contains ''<faultcode>'' xml \<and>
        str_contains ''<faultstring>'' xml \<and>
        str_contains ''SOAP-ENV:Fault'' xml \<and>
        \<not> str_contains ''<env:Code>'' xml \<and>
        \<not> str_contains ''<env:Reason>'' xml)"

definition fault_soap11_namespace :: bool where [fault_tests]:
  "fault_soap11_namespace \<longleftrightarrow>
     (let xml = to_xml_bytes_v11 xml_escape (sender ''bad'') in
        str_contains ''xmlns:SOAP-ENV=\"http://schemas.xmlsoap.org/soap/envelope/\"'' xml)"

definition fault_soap11_wraps_in_envelope :: bool where [fault_tests]:
  "fault_soap11_wraps_in_envelope \<longleftrightarrow>
     (let xml = to_xml_bytes_v11 xml_escape (sender ''bad'') in
        starts_with ''<SOAP-ENV:Envelope'' xml \<and>
        str_contains ''<SOAP-ENV:Body>'' xml)"

definition fault_code_sender_maps_to_client :: bool where [fault_tests]:
  "fault_code_sender_maps_to_client \<longleftrightarrow>
     (let xml = to_xml_bytes_v11 xml_escape (sender ''bad'') in
        str_contains ''<faultcode>SOAP-ENV:Client</faultcode>'' xml)"

definition fault_code_receiver_maps_to_server :: bool where [fault_tests]:
  "fault_code_receiver_maps_to_server \<longleftrightarrow>
     (let xml = to_xml_bytes_v11 xml_escape (receiver ''internal'') in
        str_contains ''<faultcode>SOAP-ENV:Server</faultcode>'' xml)"

definition fault_code_version_mismatch_soap11 :: bool where [fault_tests]:
  "fault_code_version_mismatch_soap11 \<longleftrightarrow>
     (let xml = to_xml_bytes_v11 xml_escape (version_mismatch) in
        str_contains ''<faultcode>SOAP-ENV:VersionMismatch</faultcode>'' xml)"

definition fault_code_must_understand_soap11 :: bool where [fault_tests]:
  "fault_code_must_understand_soap11 \<longleftrightarrow>
     (let xml = to_xml_bytes_v11 xml_escape (must_understand ''MyHeader'') in
        str_contains ''<faultcode>SOAP-ENV:MustUnderstand</faultcode>'' xml)"

definition fault_code_data_encoding_unknown_soap11 :: bool where [fault_tests]:
  "fault_code_data_encoding_unknown_soap11 \<longleftrightarrow>
     (let xml = to_xml_bytes_v11 xml_escape (fault_new DataEncodingUnknown ''enc error'' None) in
        str_contains ''<faultcode>SOAP-ENV:Server</faultcode>'' xml)"

definition fault_soap11_with_detail :: bool where [fault_tests]:
  "fault_soap11_with_detail \<longleftrightarrow>
     (let xml = to_xml_bytes_v11 xml_escape (fault_new Receiver ''Internal error'' (Some ''extra info'')) in
        str_contains ''<detail>extra info</detail>'' xml)"

definition fault_soap11_no_detail_when_none :: bool where [fault_tests]:
  "fault_soap11_no_detail_when_none \<longleftrightarrow>
     (let xml = to_xml_bytes_v11 xml_escape (sender ''test'') in
        \<not> str_contains ''<detail>'' xml)"

definition to_xml_bytes_versioned_soap12_calls_existing :: bool where [fault_tests]:
  "to_xml_bytes_versioned_soap12_calls_existing \<longleftrightarrow>
     to_xml_bytes_versioned xml_escape (sender ''test'') Soap12 = to_xml_bytes xml_escape (sender ''test'')"

definition to_xml_bytes_versioned_soap11_calls_v11 :: bool where [fault_tests]:
  "to_xml_bytes_versioned_soap11_calls_v11 \<longleftrightarrow>
     to_xml_bytes_versioned xml_escape (sender ''test'') Soap11 = to_xml_bytes_v11 xml_escape (sender ''test'')"

definition soap12_fault_special_chars_in_reason_and_detail_are_escaped :: bool where [fault_tests]:
  "soap12_fault_special_chars_in_reason_and_detail_are_escaped \<longleftrightarrow>
     (let xml = to_xml_bytes xml_escape (fault_new Sender (''& < > \" '' @ [CHR 0x27]) (Some (''& < > \" '' @ [CHR 0x27]))) in
        \<not> str_contains ''& '' xml \<and>
        str_contains ''&amp;'' xml \<and>
        str_contains ''&lt;'' xml \<and>
        str_contains ''&gt;'' xml \<and>
        str_contains ''&quot;'' xml \<and>
        str_contains ''&apos;'' xml)"

definition serialize_fault_with_raw_xml_detail_soap12 :: bool where [fault_tests]:
  "serialize_fault_with_raw_xml_detail_soap12 \<longleftrightarrow>
     (let xml = to_xml_bytes xml_escape (with_detail_xml ''<c:Info xmlns:c=\"urn:x\"><c:Code>42</c:Code></c:Info>'' (sender ''bad'')) in
        str_contains ''<env:Detail><c:Info xmlns:c=\"urn:x\"><c:Code>42</c:Code></c:Info></env:Detail>'' xml \<and>
        \<not> str_contains ''&lt;c:Info'' xml)"

definition serialize_fault_with_raw_xml_detail_soap11 :: bool where [fault_tests]:
  "serialize_fault_with_raw_xml_detail_soap11 \<longleftrightarrow>
     (let xml = to_xml_bytes_v11 xml_escape (with_detail_xml ''<c:Info xmlns:c=\"urn:x\">x</c:Info>'' (sender ''bad'')) in
        str_contains ''<detail><c:Info xmlns:c=\"urn:x\">x</c:Info></detail>'' xml \<and>
        \<not> str_contains ''&lt;c:Info'' xml)"

definition detail_xml_takes_precedence_over_text_detail :: bool where [fault_tests]:
  "detail_xml_takes_precedence_over_text_detail \<longleftrightarrow>
     (let xml = to_xml_bytes xml_escape (with_detail_xml ''<x:Y xmlns:x=\"urn:z\"/>'' (fault_new Sender ''r'' (Some ''plaintext''))) in
        str_contains ''<x:Y xmlns:x=\"urn:z\"/>'' xml \<and>
        \<not> str_contains ''plaintext'' xml)"

definition existing_text_detail_still_escaped_when_no_xml :: bool where [fault_tests]:
  "existing_text_detail_still_escaped_when_no_xml \<longleftrightarrow>
     (let xml = to_xml_bytes xml_escape (fault_new Sender ''r'' (Some ''a < b & c'')) in
        \<not> str_contains ''<env:Detail>'' xml)"

definition soap12_text_detail_does_not_emit_env_detail_chardata :: bool where [fault_tests]:
  "soap12_text_detail_does_not_emit_env_detail_chardata \<longleftrightarrow>
     (let xml = to_xml_bytes xml_escape (fault_new Receiver ''Internal error'' (Some ''plain text detail'')) in
        \<not> str_contains ''<env:Detail>plain text detail</env:Detail>'' xml \<and>
        \<not> str_contains ''<env:Detail>'' xml \<and>
        str_contains ''Internal error'' xml)"

definition soap12_detail_xml_element_still_emits_env_detail :: bool where [fault_tests]:
  "soap12_detail_xml_element_still_emits_env_detail \<longleftrightarrow>
     (let xml = to_xml_bytes xml_escape (with_detail_xml ''<c:Child xmlns:c=\"urn:x\"/>'' (fault_new Receiver ''Internal error'' (Some ''plain text''))) in
        str_contains ''<env:Detail><c:Child xmlns:c=\"urn:x\"/></env:Detail>'' xml)"

definition soap11_fault_special_chars_in_reason_and_detail_are_escaped :: bool where [fault_tests]:
  "soap11_fault_special_chars_in_reason_and_detail_are_escaped \<longleftrightarrow>
     (let xml = to_xml_bytes_v11 xml_escape (fault_new Sender (''& < > \" '' @ [CHR 0x27]) (Some (''& < > \" '' @ [CHR 0x27]))) in
        \<not> str_contains ''& '' xml \<and>
        str_contains ''&amp;'' xml \<and>
        str_contains ''&lt;'' xml)"

lemma serialize_sender_fault_contains_env_sender_passes: serialize_sender_fault_contains_env_sender
  by code_simp

lemma serialize_receiver_fault_contains_env_receiver_passes: serialize_receiver_fault_contains_env_receiver
  by code_simp

lemma serialize_fault_wraps_in_soap12_envelope_passes: serialize_fault_wraps_in_soap12_envelope
  by code_simp

lemma serialize_fault_reason_included_passes: serialize_fault_reason_included
  by code_simp

lemma serialize_fault_no_detail_when_none_passes: serialize_fault_no_detail_when_none
  by code_simp

lemma serialize_fault_with_detail_passes: serialize_fault_with_detail
  by code_simp

lemma version_mismatch_convenience_passes: version_mismatch_convenience
  by code_simp

lemma must_understand_convenience_passes: must_understand_convenience
  by code_simp

lemma action_not_supported_is_sender_fault_passes: action_not_supported_is_sender_fault
  by code_simp

lemma fault_soap11_structure_passes: fault_soap11_structure
  by code_simp

lemma fault_soap11_namespace_passes: fault_soap11_namespace
  by code_simp

lemma fault_soap11_wraps_in_envelope_passes: fault_soap11_wraps_in_envelope
  by code_simp

lemma fault_code_sender_maps_to_client_passes: fault_code_sender_maps_to_client
  by code_simp

lemma fault_code_receiver_maps_to_server_passes: fault_code_receiver_maps_to_server
  by code_simp

lemma fault_code_version_mismatch_soap11_passes: fault_code_version_mismatch_soap11
  by code_simp

lemma fault_code_must_understand_soap11_passes: fault_code_must_understand_soap11
  by code_simp

lemma fault_code_data_encoding_unknown_soap11_passes: fault_code_data_encoding_unknown_soap11
  by code_simp

lemma fault_soap11_with_detail_passes: fault_soap11_with_detail
  by code_simp

lemma fault_soap11_no_detail_when_none_passes: fault_soap11_no_detail_when_none
  by code_simp

lemma to_xml_bytes_versioned_soap12_calls_existing_passes: to_xml_bytes_versioned_soap12_calls_existing
  by code_simp

lemma to_xml_bytes_versioned_soap11_calls_v11_passes: to_xml_bytes_versioned_soap11_calls_v11
  by code_simp

lemma soap12_fault_special_chars_in_reason_and_detail_are_escaped_passes: soap12_fault_special_chars_in_reason_and_detail_are_escaped
  by code_simp

lemma serialize_fault_with_raw_xml_detail_soap12_passes: serialize_fault_with_raw_xml_detail_soap12
  by code_simp

lemma serialize_fault_with_raw_xml_detail_soap11_passes: serialize_fault_with_raw_xml_detail_soap11
  by code_simp

lemma detail_xml_takes_precedence_over_text_detail_passes: detail_xml_takes_precedence_over_text_detail
  by code_simp

lemma existing_text_detail_still_escaped_when_no_xml_passes: existing_text_detail_still_escaped_when_no_xml
  by code_simp

lemma soap12_text_detail_does_not_emit_env_detail_chardata_passes: soap12_text_detail_does_not_emit_env_detail_chardata
  by code_simp

lemma soap12_detail_xml_element_still_emits_env_detail_passes: soap12_detail_xml_element_still_emits_env_detail
  by code_simp

lemma soap11_fault_special_chars_in_reason_and_detail_are_escaped_passes: soap11_fault_special_chars_in_reason_and_detail_are_escaped
  by code_simp

section \<open>Handlers\<close>

named_theorems handler_tests "the unit tests of this group"

text \<open>A handler that records the header fragments it is given, in the state.\<close>

definition header_capturing_handler :: "bytes list soap_handler" where
  "header_capturing_handler =
     \<lparr>handle = (\<lambda>body s. (Inr ''<resp/>'', s)),
      handle_with_headers = (\<lambda>body headers s. (Inr ''<resp-with-headers/>'', s @ headers))\<rparr>"

definition fn_handler_ok_passthrough :: bool where [handler_tests]:
  "fn_handler_ok_passthrough \<longleftrightarrow>
     fst (handle (fn_handler (\<lambda>body s. (Inr body, s))) ''<hello/>'' ()) = Inr ''<hello/>''"

definition fn_handler_returns_fault :: bool where [handler_tests]:
  "fn_handler_returns_fault \<longleftrightarrow>
     (case fst (handle (fn_handler (\<lambda>body s. (Inl (sender ''not allowed''), s))) ''<test/>'' ()) of
        Inl fault \<Rightarrow> code fault = Sender \<and> str_contains ''not allowed'' (reason fault)
      | Inr _ \<Rightarrow> False)"

definition fn_handler_closure_captures_context :: bool where [handler_tests]:
  "fn_handler_closure_captures_context \<longleftrightarrow>
     (let expected_response = ''<response>ok</response>'' in
        fst (handle (fn_handler (\<lambda>body s. (Inr expected_response, s))) ''<request/>'' ()) = Inr expected_response)"

definition soap_handler_trait_object :: bool where [handler_tests]:
  "soap_handler_trait_object \<longleftrightarrow>
     fst (handle (fn_handler (\<lambda>body s. (Inr ''<resp/>'', s))) ''<req/>'' ()) = Inr ''<resp/>''"

definition handle_with_headers_override_receives_header_fragments :: bool where [handler_tests]:
  "handle_with_headers_override_receives_header_fragments \<longleftrightarrow>
     (let header1 = ''<wsa:To>http://example.com/service</wsa:To>'';
        header2 = ''<tev:SubscriptionId>sub-123</tev:SubscriptionId>'' in
      handle_with_headers header_capturing_handler ''<req/>'' [header1, header2] [] =
        (Inr ''<resp-with-headers/>'', [header1, header2]))"

definition handle_with_headers_default_falls_through_to_handle :: bool where [handler_tests]:
  "handle_with_headers_default_falls_through_to_handle \<longleftrightarrow>
     fst (handle_with_headers (fn_handler (\<lambda>body s. (Inr body, s))) ''<echo>data</echo>'' [''<some:Header>ignored</some:Header>''] ()) =
      Inr ''<echo>data</echo>''"

lemma handler_tests_pass:
  "fn_handler_ok_passthrough"
  "fn_handler_returns_fault"
  "fn_handler_closure_captures_context"
  "soap_handler_trait_object"
  "handle_with_headers_override_receives_header_fragments"
  "handle_with_headers_default_falls_through_to_handle"
  by (simp_all add: handler_tests fn_handler_def default_handle_with_headers_def header_capturing_handler_def starts_with_def)

end
