(* ===== verification/NonceTests.thy ===== *)
theory NonceTests
  imports UsernameToken
begin

text \<open>
  The unit tests of \<open>wssec/nonce_cache.rs\<close> and \<open>wssec/timestamp.rs\<close>, run on the model. A test of
  the cache takes place within an instant of the monotonic clock, \<open>test_instant\<close>.
\<close>

section \<open>The nonce cache\<close>

named_theorems nonce_tests "the unit tests of the nonce cache"

definition test_instant :: nat where
  "test_instant = 1000 * nanos_per_sec"

definition rewind_bucket_start :: "nat \<Rightarrow> nonce_cache \<Rightarrow> nonce_cache" where
  "rewind_bucket_start secs c = c\<lparr>bucket_start := bucket_start c - secs * nanos_per_sec\<rparr>"

text \<open>\<open>unwrap\<close> of a check, going on with the cache; and a check that is refused.\<close>

definition nonce_accepted :: "((soap_fault + unit) \<times> nonce_cache) option \<Rightarrow> (nonce_cache \<Rightarrow> bool) \<Rightarrow> bool" where
  "nonce_accepted r k = (case r of Some (Inr _, c) \<Rightarrow> k c | _ \<Rightarrow> False)"

definition rejected :: "((soap_fault + unit) \<times> nonce_cache) option \<Rightarrow> (soap_fault \<Rightarrow> bool) \<Rightarrow> bool" where
  "rejected r k = (case r of Some (Inl f, _) \<Rightarrow> k f | _ \<Rightarrow> False)"

abbreviation test_check :: "string \<Rightarrow> nonce_cache \<Rightarrow> ((soap_fault + unit) \<times> nonce_cache) option" where
  "test_check n c \<equiv> check_and_insert test_instant n c"

abbreviation new_cache :: "nat \<Rightarrow> nonce_cache" where
  "new_cache hw \<equiv> nonce_cache_new test_instant hw"

fun all_accepted :: "string list \<Rightarrow> nonce_cache \<Rightarrow> (nonce_cache \<Rightarrow> bool) \<Rightarrow> bool" where
  "all_accepted [] c k = k c"
| "all_accepted (n # ns) c k = nonce_accepted (test_check n c) (\<lambda>c. all_accepted ns c k)"

definition fresh_cache_accepts_new_nonce :: bool where [nonce_tests]:
  "fresh_cache_accepts_new_nonce \<longleftrightarrow> nonce_accepted (test_check ''abc'' (new_cache 150)) (\<lambda>_. True)"

definition same_nonce_rejected_on_second_call :: bool where [nonce_tests]:
  "same_nonce_rejected_on_second_call \<longleftrightarrow>
     nonce_accepted (test_check ''abc'' (new_cache 150)) (\<lambda>c.
     rejected (test_check ''abc'' c) (\<lambda>fault. str_contains ''replay'' (reason fault)))"

definition different_nonce_accepted :: bool where [nonce_tests]:
  "different_nonce_accepted \<longleftrightarrow>
     nonce_accepted (test_check ''abc'' (new_cache 150)) (\<lambda>c. nonce_accepted (test_check ''xyz'' c) (\<lambda>_. True))"

definition nonce_in_previous_bucket_still_detected_as_replay :: bool where [nonce_tests]:
  "nonce_in_previous_bucket_still_detected_as_replay \<longleftrightarrow>
     nonce_accepted (test_check ''abc'' (new_cache 150)) (\<lambda>c.
     rejected (test_check ''abc'' (force_rotate test_instant c)) (\<lambda>_. True))"

definition nonce_dropped_after_two_rotations :: bool where [nonce_tests]:
  "nonce_dropped_after_two_rotations \<longleftrightarrow>
     nonce_accepted (test_check ''abc'' (new_cache 150)) (\<lambda>c.
     nonce_accepted (test_check ''abc'' (force_rotate test_instant (force_rotate test_instant c))) (\<lambda>_. True))"

definition idle_gap_regression_nonce_accepted_after_two_window_gap :: bool where [nonce_tests]:
  "idle_gap_regression_nonce_accepted_after_two_window_gap \<longleftrightarrow>
     (let half_window = 5 in
      nonce_accepted (test_check ''gap_nonce'' (new_cache half_window)) (\<lambda>c.
      nonce_accepted (test_check ''gap_nonce'' (rewind_bucket_start (half_window * 2 + 1) c)) (\<lambda>_. True)))"

definition nonce_cache_enforces_max_entries_cap :: bool where [nonce_tests]:
  "nonce_cache_enforces_max_entries_cap \<longleftrightarrow>
     (let cap = 10 in
      all_accepted (map (\<lambda>i. ''nonce_'' @ nat_to_string i) [0..<cap]) (with_max_entries test_instant 150 cap) (\<lambda>c.
      nonce_accepted (test_check ''nonce_overflow'' c) (\<lambda>c.
      card (current c) + card (previous c) \<le> cap + 1)))"

definition nonce_cache_cap_does_not_reject_new_nonces_after_rotation :: bool where [nonce_tests]:
  "nonce_cache_cap_does_not_reject_new_nonces_after_rotation \<longleftrightarrow>
     (let cap = 5 in
      all_accepted (map (\<lambda>i. ''n'' @ nat_to_string i) [0..<cap]) (with_max_entries test_instant 150 cap) (\<lambda>c.
      nonce_accepted (test_check ''new_nonce_after_cap'' c) (\<lambda>_. True)))"

definition nonce_in_overflow_bucket_still_rejected_as_replay :: bool where [nonce_tests]:
  "nonce_in_overflow_bucket_still_rejected_as_replay \<longleftrightarrow>
     all_accepted [''target'', ''n1'', ''n2'', ''n3''] (with_max_entries test_instant 150 3) (\<lambda>c.
     rejected (test_check ''target'' c) (\<lambda>_. True))"

lemma rotate_idle: "bucket_start c = now \<Longrightarrow> 0 < half_window_secs c \<Longrightarrow> rotate_if_needed now c = Some c"
  by (subst rotate_if_needed.simps) (simp add: elapsed_secs_def)

lemma test_check_idle:
  "bucket_start c = test_instant \<Longrightarrow> 0 < half_window_secs c \<Longrightarrow> test_check n c = Some (insert_checked test_instant n c)"
  by (simp add: check_and_insert_def rotate_idle)

lemma nonce_tests_pass:
  "fresh_cache_accepts_new_nonce" "same_nonce_rejected_on_second_call" "different_nonce_accepted"
  "nonce_in_previous_bucket_still_detected_as_replay" "nonce_dropped_after_two_rotations"
  "nonce_cache_enforces_max_entries_cap" "nonce_cache_cap_does_not_reject_new_nonces_after_rotation"
  "nonce_in_overflow_bucket_still_rejected_as_replay"
  by (simp_all add: nonce_tests test_check_idle insert_checked_def nonce_accepted_def rejected_def nonce_cache_new_def
      with_max_entries_def replay_fault_def force_rotate_def DEFAULT_MAX_ENTRIES_def starts_with_def
      nat_to_string.simps upt_rec Let_def)

lemma idle_gap_test_passes: "idle_gap_regression_nonce_accepted_after_two_window_gap"
  by (simp add: nonce_tests nonce_accepted_def nonce_cache_new_def with_max_entries_def insert_checked_def check_and_insert_def
      rotate_if_needed_closed rotate_closed_def rotations_due_def half_window_nanos_def rewind_bucket_start_def
      test_instant_def nanos_per_sec_def DEFAULT_MAX_ENTRIES_def Let_def)

section \<open>Timestamps\<close>

named_theorems timestamp_tests "the unit tests of the timestamp checks"

text \<open>\<open>now()\<close> of the tests, 2026-04-03T12:00:00Z, in nanoseconds, and a lenient clock library.\<close>

definition timestamp_now :: int where
  "timestamp_now = 1775217600 * 1000000000"

definition clock_lib :: wss_lib where
  "clock_lib =
     \<lparr>wl_tok = (\<lambda>_ _. []), wl_b64_decode = Inr, wl_b64_encode = id, wl_sha1 = id,
      wl_rfc3339 = (\<lambda>s. if s = ''2026-04-03T12:00:00Z'' then Some timestamp_now else None),
      wl_seconds = (\<lambda>s. Some (s * 1000000000))\<rparr>"

abbreviation secs :: "int \<Rightarrow> int" where
  "secs n \<equiv> n * 1000000000"

definition fault_says :: "string \<Rightarrow> failure + 'a \<Rightarrow> bool" where
  "fault_says p r = (case r of Inl (Fault f) \<Rightarrow> str_contains p (reason f) | _ \<Rightarrow> False)"

definition freshness_accepts_recent_timestamp :: bool where [timestamp_tests]:
  "freshness_accepts_recent_timestamp \<longleftrightarrow>
     check_freshness clock_lib timestamp_now (timestamp_now - secs 10) 300 = Inr ()"

definition freshness_rejects_expired_timestamp :: bool where [timestamp_tests]:
  "freshness_rejects_expired_timestamp \<longleftrightarrow>
     fault_says ''expired'' (check_freshness clock_lib timestamp_now (timestamp_now - secs 400) 300)"

definition freshness_rejects_future_timestamp :: bool where [timestamp_tests]:
  "freshness_rejects_future_timestamp \<longleftrightarrow>
     fault_says ''future'' (check_freshness clock_lib timestamp_now (timestamp_now + secs 400) 300)"

definition parse_created_valid_rfc3339 :: bool where [timestamp_tests]:
  "parse_created_valid_rfc3339 \<longleftrightarrow> (\<exists>t. parse_created clock_lib ''2026-04-03T12:00:00Z'' = Inr t)"

definition parse_created_invalid_string_returns_err :: bool where [timestamp_tests]:
  "parse_created_invalid_string_returns_err \<longleftrightarrow> fault_says ''Invalid'' (parse_created clock_lib ''not-a-date'')"

definition freshness_accepts_at_tolerance_boundary :: bool where [timestamp_tests]:
  "freshness_accepts_at_tolerance_boundary \<longleftrightarrow>
     check_freshness clock_lib timestamp_now (timestamp_now - secs 300) 300 = Inr ()"

definition freshness_rejects_one_second_past_tolerance :: bool where [timestamp_tests]:
  "freshness_rejects_one_second_past_tolerance \<longleftrightarrow>
     check_freshness clock_lib timestamp_now (timestamp_now - secs 301) 300 \<noteq> Inr ()"

lemma timestamp_tests_pass:
  "freshness_accepts_recent_timestamp" "freshness_rejects_expired_timestamp" "freshness_rejects_future_timestamp"
  "parse_created_valid_rfc3339" "parse_created_invalid_string_returns_err" "freshness_accepts_at_tolerance_boundary"
  "freshness_rejects_one_second_past_tolerance"
  by (simp_all add: timestamp_tests check_freshness_def parse_created_def clock_lib_def fault_says_def starts_with_def Let_def)

end
