(* ===== verification/TokenTests.thy ===== *)
theory TokenTests
  imports NonceTests
begin

text \<open>
  The unit tests of \<open>wssec/username_token.rs\<close>, run on the model. The test documents are the
  events that the reader yields for them (white space between tags is trimmed); base64 and SHA-1
  are functions that agree with the crate's known test vector.
\<close>

section \<open>The test vector and the documents\<close>

definition TEST_NONCE :: string where
  "TEST_NONCE = ''AAECAwQFBgcICQoLDA0ODw==''"

definition TEST_CREATED :: string where
  "TEST_CREATED = ''2010-09-09T14:18:30.000Z''"

definition TEST_PASSWORD :: string where
  "TEST_PASSWORD = ''userpassword''"

definition TEST_EXPECTED_DIGEST :: string where
  "TEST_EXPECTED_DIGEST = ''QPgtSBfcw764Vty2h0+LsasXgxo=''"

text \<open>14:18:30 on 2010-09-09 in nanoseconds, and one second later.\<close>

definition created_time :: int where
  "created_time = 1284041910 * 1000000000"

definition test_now :: int where
  "test_now = created_time + secs 1"

definition vector_nonce :: bytes where
  "vector_nonce = map char_of [0..<16::nat]"

text \<open>The library for a document.\<close>

definition vector_lib :: "reader \<Rightarrow> wss_lib" where
  "vector_lib doc =
     \<lparr>wl_tok = (\<lambda>_ _. doc),
      wl_b64_decode = (\<lambda>s. if s = TEST_NONCE then Inr vector_nonce else Inl ''Invalid symbol''),
      wl_b64_encode = (\<lambda>b. if b = vector_nonce @ TEST_CREATED @ TEST_PASSWORD then TEST_EXPECTED_DIGEST else b),
      wl_sha1 = id,
      wl_rfc3339 = (\<lambda>s. if s = TEST_CREATED then Some created_time else None),
      wl_seconds = (\<lambda>s. Some (s * 1000000000))\<rparr>"

definition make_nonce_cache :: nonce_cache where
  "make_nonce_cache = new_cache 150"

definition security_element :: "attr list \<Rightarrow> reader \<Rightarrow> reader" where
  "security_element as content =
     plain_item (EvStart (Tag ''wsse:Security'' as)) # content @ [plain_item (EvEnd ''wsse:Security'')]"

definition token_element :: "reader \<Rightarrow> reader" where
  "token_element content =
     plain_item (EvStart (Tag ''wsse:UsernameToken'' [])) # content @ [plain_item (EvEnd ''wsse:UsernameToken'')]"

definition wsse_decl :: attr where "wsse_decl = Attr ''xmlns:wsse'' WSSE_NS"

definition wsu_decl :: attr where "wsu_decl = Attr ''xmlns:wsu'' WSU_NS"

definition digest_doc :: "string \<Rightarrow> string \<Rightarrow> string \<Rightarrow> string \<Rightarrow> reader" where
  "digest_doc user nonce created digest =
     security_element [wsse_decl, wsu_decl]
       (token_element
          (text_element ''wsse:Username'' [] [EvText user] @
           text_element ''wsse:Password'' [Attr ''Type'' PASSWORD_DIGEST_TYPE] [EvText digest] @
           text_element ''wsse:Nonce'' [] [EvText nonce] @
           text_element ''wsu:Created'' [] [EvText created]))"

definition security_xml_digest :: "string \<Rightarrow> string \<Rightarrow> string \<Rightarrow> reader" where
  "security_xml_digest nonce created digest = digest_doc ''admin'' nonce created digest"

definition security_xml_text :: "string \<Rightarrow> reader" where
  "security_xml_text password =
     security_element [wsse_decl, wsu_decl]
       (token_element
          (text_element ''wsse:Username'' [] [EvText ''admin''] @
           text_element ''wsse:Password'' [Attr ''Type'' PASSWORD_TEXT_TYPE] [EvText password] @
           text_element ''wsu:Created'' [] [EvText TEST_CREATED]))"

definition security_xml_text_no_created :: "string \<Rightarrow> reader" where
  "security_xml_text_no_created password =
     security_element [wsse_decl]
       (token_element
          (text_element ''wsse:Username'' [] [EvText ''admin''] @
           text_element ''wsse:Password'' [Attr ''Type'' PASSWORD_TEXT_TYPE] [EvText password]))"

definition security_xml_no_token :: reader where
  "security_xml_no_token = security_element [wsse_decl] []"

definition security_xml_no_password :: reader where
  "security_xml_no_password =
     security_element [wsse_decl] (token_element (text_element ''wsse:Username'' [] [EvText ''admin'']))"

definition get_password :: "string \<Rightarrow> string option" where
  "get_password username = (if username = ''admin'' then Some TEST_PASSWORD else None)"

section \<open>The tests\<close>

named_theorems token_tests "the unit tests of the token parser and validator"

definition parse_doc :: "reader \<Rightarrow> soap_fault + username_token" where
  "parse_doc doc = parse_username_token (wl_tok (vector_lib doc)) []"

definition validate_doc :: "reader \<Rightarrow> nonce_cache \<Rightarrow> int \<Rightarrow> ((failure + string) \<times> nonce_cache) option" where
  "validate_doc doc cache now = validate_username_token (vector_lib doc) [] get_password cache 300 now test_instant"

definition valid_user :: "string \<Rightarrow> ((failure + string) \<times> nonce_cache) option \<Rightarrow> (nonce_cache \<Rightarrow> bool) \<Rightarrow> bool" where
  "valid_user u r k = (case r of Some (Inr v, c) \<Rightarrow> v = u \<and> k c | _ \<Rightarrow> False)"

definition refused_with :: "string \<Rightarrow> ((failure + string) \<times> nonce_cache) option \<Rightarrow> bool" where
  "refused_with p r = (case r of Some (Inl (Fault f), _) \<Rightarrow> str_contains p (reason f) | _ \<Rightarrow> False)"

definition known_vector_digest_matches_expected :: bool where [token_tests]:
  "known_vector_digest_matches_expected \<longleftrightarrow>
     compute_digest (vector_lib []) TEST_NONCE TEST_CREATED TEST_PASSWORD = Inr TEST_EXPECTED_DIGEST"

definition compute_digest_invalid_base64_nonce_returns_err :: bool where [token_tests]:
  "compute_digest_invalid_base64_nonce_returns_err \<longleftrightarrow>
     (case compute_digest (vector_lib []) ''not!!!valid_base64!!!'' TEST_CREATED TEST_PASSWORD of
        Inl _ \<Rightarrow> True | Inr _ \<Rightarrow> False)"

definition parse_digest_token_extracts_all_fields :: bool where [token_tests]:
  "parse_digest_token_extracts_all_fields \<longleftrightarrow>
     (case parse_doc (security_xml_digest TEST_NONCE TEST_CREATED TEST_EXPECTED_DIGEST) of
        Inr token \<Rightarrow> ut_username token = ''admin'' \<and> ut_password token = TEST_EXPECTED_DIGEST \<and>
          ut_password_type token = Digest \<and> ut_nonce token = Some TEST_NONCE \<and> ut_created token = Some TEST_CREATED
      | Inl _ \<Rightarrow> False)"

definition parse_text_token_extracts_fields :: bool where [token_tests]:
  "parse_text_token_extracts_fields \<longleftrightarrow>
     (case parse_doc (security_xml_text ''secret'') of
        Inr token \<Rightarrow> ut_username token = ''admin'' \<and> ut_password token = ''secret'' \<and>
          ut_password_type token = PlainText \<and> ut_nonce token = None
      | Inl _ \<Rightarrow> False)"

definition parse_missing_username_token_returns_err :: bool where [token_tests]:
  "parse_missing_username_token_returns_err \<longleftrightarrow>
     (case parse_doc security_xml_no_token of
        Inl fault \<Rightarrow> str_contains ''Missing UsernameToken'' (reason fault) | Inr _ \<Rightarrow> False)"

definition parse_missing_password_returns_err :: bool where [token_tests]:
  "parse_missing_password_returns_err \<longleftrightarrow>
     (case parse_doc security_xml_no_password of Inl _ \<Rightarrow> True | Inr _ \<Rightarrow> False)"

definition validate_correct_digest_returns_username :: bool where [token_tests]:
  "validate_correct_digest_returns_username \<longleftrightarrow>
     valid_user ''admin''
       (validate_doc (security_xml_digest TEST_NONCE TEST_CREATED TEST_EXPECTED_DIGEST) make_nonce_cache test_now) (\<lambda>_. True)"

definition validate_wrong_password_returns_auth_failed :: bool where [token_tests]:
  "validate_wrong_password_returns_auth_failed \<longleftrightarrow>
     (case compute_digest (vector_lib []) TEST_NONCE TEST_CREATED ''wrongpassword'' of
        Inr bad_digest \<Rightarrow>
          refused_with ''Authentication failed''
            (validate_doc (security_xml_digest TEST_NONCE TEST_CREATED bad_digest) make_nonce_cache test_now)
      | Inl _ \<Rightarrow> False)"

definition validate_unknown_user_returns_err :: bool where [token_tests]:
  "validate_unknown_user_returns_err \<longleftrightarrow>
     refused_with ''Authentication failed''
       (validate_doc (digest_doc ''unknownuser'' TEST_NONCE TEST_CREATED TEST_EXPECTED_DIGEST) make_nonce_cache test_now)"

definition validate_expired_timestamp_returns_err :: bool where [token_tests]:
  "validate_expired_timestamp_returns_err \<longleftrightarrow>
     (let expired_now = created_time + secs 420 in
      refused_with ''expired''
        (validate_doc (security_xml_digest TEST_NONCE TEST_CREATED TEST_EXPECTED_DIGEST) make_nonce_cache expired_now))"

definition validate_replayed_nonce_returns_err :: bool where [token_tests]:
  "validate_replayed_nonce_returns_err \<longleftrightarrow>
     (let xml = security_xml_digest TEST_NONCE TEST_CREATED TEST_EXPECTED_DIGEST in
      valid_user ''admin'' (validate_doc xml make_nonce_cache test_now) (\<lambda>cache.
        refused_with ''replay'' (validate_doc xml cache test_now)))"

definition validate_text_password_correct :: bool where [token_tests]:
  "validate_text_password_correct \<longleftrightarrow>
     valid_user ''admin'' (validate_doc (security_xml_text TEST_PASSWORD) make_nonce_cache test_now) (\<lambda>_. True)"

definition validate_text_password_wrong_returns_err :: bool where [token_tests]:
  "validate_text_password_wrong_returns_err \<longleftrightarrow>
     refused_with ''Authentication failed'' (validate_doc (security_xml_text ''wrongpassword'') make_nonce_cache test_now)"

definition validate_missing_username_token_returns_err :: bool where [token_tests]:
  "validate_missing_username_token_returns_err \<longleftrightarrow>
     refused_with ''Missing UsernameToken'' (validate_doc security_xml_no_token make_nonce_cache test_now)"

definition validate_text_password_without_created_is_rejected :: bool where [token_tests]:
  "validate_text_password_without_created_is_rejected \<longleftrightarrow>
     refused_with ''Missing Created'' (validate_doc (security_xml_text_no_created TEST_PASSWORD) make_nonce_cache test_now)"

definition validate_correct_digest_constant_time_path_returns_username :: bool where [token_tests]:
  "validate_correct_digest_constant_time_path_returns_username \<longleftrightarrow>
     valid_user ''admin''
       (validate_doc (security_xml_digest TEST_NONCE TEST_CREATED TEST_EXPECTED_DIGEST) make_nonce_cache test_now) (\<lambda>_. True)"

definition unknown_user_and_bad_digest_produce_same_fault_reason :: bool where [token_tests]:
  "unknown_user_and_bad_digest_produce_same_fault_reason \<longleftrightarrow>
     (case compute_digest (vector_lib []) TEST_NONCE TEST_CREATED ''wrongpassword'' of
        Inr bad_digest \<Rightarrow>
          (case (validate_doc (digest_doc ''no_such_user'' TEST_NONCE TEST_CREATED TEST_EXPECTED_DIGEST) make_nonce_cache test_now,
                 validate_doc (security_xml_digest TEST_NONCE TEST_CREATED bad_digest) make_nonce_cache test_now) of
             (Some (Inl (Fault unknown), _), Some (Inl (Fault bad), _)) \<Rightarrow> reason unknown = reason bad
           | _ \<Rightarrow> False)
      | Inl _ \<Rightarrow> False)"

section \<open>They pass\<close>

lemma split_security [simp]: "split_name ''wsse:Security'' = (Some ''wsse'', ''Security'')"
  by (simp add: split_name_def utf8_valid_ascii is_ascii_def byte_def)

lemma vector_decls:
  "collect_ns_attrs [wsse_decl, wsu_decl] [] = [(''wsse'', WSSE_NS), (''wsu'', WSU_NS)]"
  "collect_ns_attrs [wsse_decl] [] = [(''wsse'', WSSE_NS)]"
  by (simp_all add: wsse_decl_def wsu_decl_def collect_ns_declared)
    (simp add: collect_ns_attrs_def collect_ns_attr_def utf8_valid_ascii is_ascii_def byte_def
      from_utf8_lossy_valid strip_prefix_def starts_with_def hm_insert_def Let_def)

lemma ascii_lossy: "is_ascii s \<Longrightarrow> from_utf8_lossy s = s"
  by (simp add: from_utf8_lossy_valid utf8_valid_ascii)

lemma parse_digest_doc:
  "is_ascii user \<Longrightarrow> is_ascii nonce \<Longrightarrow> is_ascii created \<Longrightarrow> is_ascii digest \<Longrightarrow>
   parse_doc (digest_doc user nonce created digest) =
     Inr \<lparr>ut_username = user, ut_password = digest, ut_password_type = Digest, ut_nonce = Some nonce, ut_created = Some created\<rparr>"
  by (simp add: parse_doc_def vector_lib_def parse_username_token_def digest_doc_def security_element_def token_element_def
      token_simps vector_decls ascii_lossy from_utf8_lossy_valid)

lemma parse_text_doc:
  "is_ascii password \<Longrightarrow>
   parse_doc (security_xml_text password) =
     Inr \<lparr>ut_username = ''admin'', ut_password = password, ut_password_type = PlainText, ut_nonce = None,
       ut_created = Some TEST_CREATED\<rparr>"
  by (simp add: parse_doc_def vector_lib_def parse_username_token_def security_xml_text_def security_element_def token_element_def
      token_simps vector_decls ascii_lossy from_utf8_lossy_valid TEST_CREATED_def is_ascii_def byte_def)

lemma parse_short_docs:
  "is_ascii password \<Longrightarrow>
   parse_doc (security_xml_text_no_created password) =
     Inr \<lparr>ut_username = ''admin'', ut_password = password, ut_password_type = PlainText, ut_nonce = None, ut_created = None\<rparr>"
  "parse_doc security_xml_no_token = Inl (sender ''Missing UsernameToken'')"
  "parse_doc security_xml_no_password = Inl (sender ''Missing Password in UsernameToken'')"
  by (simp_all add: parse_doc_def vector_lib_def parse_username_token_def security_xml_text_no_created_def
      security_xml_no_token_def security_xml_no_password_def security_element_def token_element_def
      token_simps vector_decls ascii_lossy from_utf8_lossy_valid is_ascii_def byte_def)

lemma vector_ascii [simp]:
  "is_ascii TEST_NONCE" "is_ascii TEST_CREATED" "is_ascii TEST_PASSWORD" "is_ascii TEST_EXPECTED_DIGEST"
  "is_ascii vector_nonce" "is_ascii ''admin''" "is_ascii ''secret''" "is_ascii ''unknownuser''" "is_ascii ''no_such_user''"
  "is_ascii ''wrongpassword''"
  by (simp_all add: is_ascii_def byte_def TEST_NONCE_def TEST_CREATED_def TEST_PASSWORD_def TEST_EXPECTED_DIGEST_def
      vector_nonce_def upt_rec)

lemma is_ascii_append [simp]: "is_ascii (a @ b) \<longleftrightarrow> is_ascii a \<and> is_ascii b"
  by (simp add: is_ascii_def)

lemma vector_digest:
  "compute_digest (vector_lib doc) TEST_NONCE TEST_CREATED password =
     Inr (if password = TEST_PASSWORD then TEST_EXPECTED_DIGEST else vector_nonce @ TEST_CREATED @ password)"
proof -
  have "add_base64_padding TEST_NONCE = TEST_NONCE" by (simp add: add_base64_padding_def TEST_NONCE_def)
  then show ?thesis by (simp add: compute_digest_def vector_lib_def)
qed

lemma wrong_digest: "vector_nonce @ TEST_CREATED @ ''wrongpassword'' \<noteq> TEST_EXPECTED_DIGEST"
  by (simp add: vector_nonce_def upt_rec TEST_EXPECTED_DIGEST_def)

lemma validate_doc_eq:
  "validate_doc doc cache now =
     (case parse_doc doc of
        Inl f \<Rightarrow> Some (Inl (Fault f), cache)
      | Inr token \<Rightarrow>
          (case res_bind (ok_or (Fault auth_failed) (get_password (ut_username token))) (\<lambda>stored.
                  res_bind (verify_password (vector_lib doc) token stored 300 now) (\<lambda>_. Inr token)) of
             Inl e \<Rightarrow> Some (Inl e, cache)
           | Inr token \<Rightarrow>
               (case ut_nonce token of
                  None \<Rightarrow> Some (Inr (ut_username token), cache)
                | Some nonce \<Rightarrow>
                    (case test_check nonce cache of
                       None \<Rightarrow> None
                     | Some (Inl f, cache') \<Rightarrow> Some (Inl (Fault f), cache')
                     | Some (Inr _, cache') \<Rightarrow> Some (Inr (ut_username token), cache')))))"
  by (cases "parse_doc doc") (simp_all add: validate_doc_def validate_username_token_def parse_doc_def)

lemmas token_test_simps =
  token_tests validate_doc_eq parse_digest_doc parse_text_doc parse_short_docs security_xml_digest_def verify_password_def
  vector_digest wrong_digest check_freshness_def parse_created_def get_password_def valid_user_def refused_with_def auth_failed_def
  test_check_idle insert_checked_def make_nonce_cache_def nonce_cache_new_def with_max_entries_def replay_fault_def
  DEFAULT_MAX_ENTRIES_def test_now_def created_time_def starts_with_def Let_def

lemma vector_lib_sel [simp]:
  "wl_rfc3339 (vector_lib doc) TEST_CREATED = Some created_time" "wl_seconds (vector_lib doc) s = Some (s * 1000000000)"
  by (simp_all add: vector_lib_def)

lemma known_words: "TEST_PASSWORD \<noteq> ''wrongpassword''" "''wrongpassword'' \<noteq> TEST_PASSWORD"
  "TEST_EXPECTED_DIGEST \<noteq> vector_nonce @ TEST_CREATED @ ''wrongpassword''"
  using wrong_digest by (auto simp: TEST_PASSWORD_def)

lemma digest_tests_pass:
  "known_vector_digest_matches_expected" "parse_digest_token_extracts_all_fields" "parse_text_token_extracts_fields"
  "parse_missing_username_token_returns_err" "parse_missing_password_returns_err"
  by (simp_all add: token_tests vector_digest parse_digest_doc security_xml_digest_def parse_text_doc parse_short_docs
      starts_with_def)

lemma bad_nonce_test_passes: "compute_digest_invalid_base64_nonce_returns_err"
  by (simp add: token_tests compute_digest_def vector_lib_def add_base64_padding_def TEST_NONCE_def)

lemma validation_tests_pass:
  "validate_correct_digest_returns_username" "validate_wrong_password_returns_auth_failed" "validate_unknown_user_returns_err"
  "validate_expired_timestamp_returns_err" "validate_replayed_nonce_returns_err" "validate_text_password_correct"
  "validate_text_password_wrong_returns_err" "validate_missing_username_token_returns_err"
  "validate_text_password_without_created_is_rejected" "validate_correct_digest_constant_time_path_returns_username"
  "unknown_user_and_bad_digest_produce_same_fault_reason"
  by (simp_all add: token_test_simps known_words)

end
