(* ===== verification/DataTests.thy ===== *)
theory DataTests
  imports XsdTypes WsdlDefs TestDocs
begin

text \<open>
  The unit tests of \<open>xsd/elements.rs\<close>, \<open>xsd/types.rs\<close> and \<open>wsdl/definitions.rs\<close> that read more than the
  constructor they have just applied, run on the model.
\<close>

definition make_minimal_definition :: wsdl_definition where
  "make_minimal_definition =
     \<lparr>target_namespace = ''http://example.com/service'', wsdl_imports = [], wsdl_types = \<lparr>schemas = []\<rparr>,
      messages = [], port_types = [], bindings = [], services = []\<rparr>"

named_theorems data_tests "the unit tests of the data types"

definition xsd_element_default_min_occurs_is_1 :: bool where [data_tests]:
  "xsd_element_default_min_occurs_is_1 \<longleftrightarrow>
     el_min_occurs default_element = 1"

definition xsd_element_default_max_occurs_is_bounded_1 :: bool where [data_tests]:
  "xsd_element_default_max_occurs_is_bounded_1 \<longleftrightarrow>
     el_max_occurs default_element = Bounded 1"

definition xsd_attribute_with_ref :: bool where [data_tests]:
  "xsd_attribute_with_ref \<longleftrightarrow>
     (let attr = \<lparr>at_name = None, at_type_ref = None, at_use = Required, at_default = None, at_fixed = None,
         at_ref = Some (qname_new ''http://example.com'' ''myAttr'')\<rparr>
      in at_ref attr \<noteq> None \<and> at_use attr = Required)"

definition attribute_group_holds_attributes_and_refs :: bool where [data_tests]:
  "attribute_group_holds_attributes_and_refs \<longleftrightarrow>
     (let ag = \<lparr>ag_name = ''MyGroup'', ag_attributes = [\<lparr>at_name = Some ''id'', at_type_ref = Some (qname_local ''ID''), at_use = Optional,
         at_default = None, at_fixed = None, at_ref = None\<rparr>],
         ag_groups = [qname_local ''OtherGroup'']\<rparr>
      in length (ag_attributes ag) = 1 \<and> length (ag_groups ag) = 1)"

definition any_element_any_namespace :: bool where [data_tests]:
  "any_element_any_namespace \<longleftrightarrow>
     (let any = \<lparr>any_namespace = AnyNs, any_process_contents = Lax, any_min_occurs = 0, any_max_occurs = Unbounded\<rparr>
      in any_namespace any = AnyNs \<and> any_process_contents any = Lax)"

definition any_namespace_list_variant :: bool where [data_tests]:
  "any_namespace_list_variant \<longleftrightarrow>
     (case ListNs [''http://example.com'', ''http://other.com''] of ListNs list \<Rightarrow> length list = 2 | _ \<Rightarrow> False)"

definition complex_extension_holds_base_and_content :: bool where [data_tests]:
  "complex_extension_holds_base_and_content \<longleftrightarrow>
     (case ComplexExtension (qname_new ''http://example.com'' ''BaseType'') EmptyContent of
        ComplexExtension base _ \<Rightarrow> local_name base = ''BaseType'' | _ \<Rightarrow> False)"

definition simple_type_with_restriction :: bool where [data_tests]:
  "simple_type_with_restriction \<longleftrightarrow>
     (let st = \<lparr>st_name = Some ''MyEnum'',
         st_restriction = Some \<lparr>r_base = qname_local ''string'', enumeration = [''A'', ''B''],
           min_inclusive = None, max_inclusive = None, min_exclusive = None, max_exclusive = None,
           min_length = None, max_length = None, r_length = None, pattern = None, whitespace = None,
           total_digits = None, fraction_digits = None\<rparr>,
         st_list = None, st_union = None\<rparr>
      in present (st_restriction st) (\<lambda>r. enumeration r = [''A'', ''B'']))"

definition type_registry_insert_and_lookup :: bool where [data_tests]:
  "type_registry_insert_and_lookup \<longleftrightarrow>
     (let q = qname_local ''Foo'';
          ty = Simple \<lparr>st_name = Some ''Foo'', st_restriction = None, st_list = None, st_union = None\<rparr>;
          reg = registry_insert q ty registry_new
      in registry_lookup reg q \<noteq> None \<and> registry_len reg = 1)"

definition type_registry_lookup_missing_returns_none :: bool where [data_tests]:
  "type_registry_lookup_missing_returns_none \<longleftrightarrow>
     registry_lookup registry_new (qname_local ''NotThere'') = None"

definition complex_type_with_simple_content :: bool where [data_tests]:
  "complex_type_with_simple_content \<longleftrightarrow>
     (let ct = ComplexType (Some ''WithSimpleContent'')
         (SimpleContent \<lparr>sc_base = qname_local ''string'', sc_attributes = [\<lparr>at_name = Some ''lang'', at_type_ref = Some (qname_local ''language''), at_use = Optional,
         at_default = None, at_fixed = None, at_ref = None\<rparr>]\<rparr>) []
      in case ct_content ct of SimpleContent scd \<Rightarrow> length (sc_attributes scd) = 1 | _ \<Rightarrow> False)"

definition wsdl_definition_can_be_constructed :: bool where [data_tests]:
  "wsdl_definition_can_be_constructed \<longleftrightarrow>
     (let def = make_minimal_definition
      in target_namespace def = ''http://example.com/service'' \<and> messages def = [])"

definition message_with_parts :: bool where [data_tests]:
  "message_with_parts \<longleftrightarrow>
     (let msg = \<lparr>msg_name = ''GetStatusRequest'',
         parts = [\<lparr>mp_name = ''parameters'', mp_element = Some (qname_new ''http://example.com'' ''GetStatus''),
           mp_type_ref = None\<rparr>]\<rparr>
      in length (parts msg) = 1 \<and> mp_element (parts msg ! 0) \<noteq> None)"

definition port_type_with_request_response_operation :: bool where [data_tests]:
  "port_type_with_request_response_operation \<longleftrightarrow>
     (let pt = \<lparr>pt_name = ''DeviceService'',
         pt_operations = [\<lparr>op_name = ''GetStatus'', op_input = Some \<lparr>om_name = None, om_message = qname_local ''GetStatusRequest''\<rparr>,
           op_output = Some \<lparr>om_name = None, om_message = qname_local ''GetStatusResponse''\<rparr>, op_faults = [],
           op_style = RequestResponse\<rparr>]\<rparr>
      in length (pt_operations pt) = 1 \<and> op_style (pt_operations pt ! 0) = RequestResponse)"

definition one_way_operation_has_no_output :: bool where [data_tests]:
  "one_way_operation_has_no_output \<longleftrightarrow>
     (let opn = \<lparr>op_name = ''Notify'', op_input = Some \<lparr>om_name = None, om_message = qname_local ''NotifyRequest''\<rparr>,
         op_output = None, op_faults = [], op_style = OneWay\<rparr>
      in op_output opn = None \<and> op_style opn = OneWay)"

definition binding_soap12_document_literal :: bool where [data_tests]:
  "binding_soap12_document_literal \<longleftrightarrow>
     (let b = \<lparr>b_name = ''DeviceServiceBinding'', b_port_type = qname_local ''DeviceService'',
         b_soap_binding = \<lparr>sb_style = Document, sb_transport = ''http://schemas.xmlsoap.org/soap/http'',
           sb_soap_version = Soap12\<rparr>,
         b_operations = []\<rparr>
      in sb_soap_version (b_soap_binding b) = Soap12 \<and> sb_style (b_soap_binding b) = Document)"

definition service_with_port :: bool where [data_tests]:
  "service_with_port \<longleftrightarrow>
     (let svc = \<lparr>svc_name = ''DeviceService'',
         ports = [\<lparr>port_name = ''DeviceServicePort'', port_binding = qname_local ''DeviceServiceBinding'',
           port_address = ''http://192.168.1.1/onvif/device_service''\<rparr>]\<rparr>
      in length (ports svc) = 1 \<and> str_contains ''onvif'' (port_address (ports svc ! 0)))"

definition wsdl_import_with_optional_location :: bool where [data_tests]:
  "wsdl_import_with_optional_location \<longleftrightarrow>
     (let imp_with_loc = \<lparr>imp_namespace = ''http://example.com/types'', imp_location = Some ''types.xsd''\<rparr>;
          imp_no_loc = \<lparr>imp_namespace = ''http://example.com/types'', imp_location = None\<rparr>
      in imp_location imp_with_loc \<noteq> None \<and> imp_location imp_no_loc = None)"

definition soap_header_references_message_and_part :: bool where [data_tests]:
  "soap_header_references_message_and_part \<longleftrightarrow>
     (let header = \<lparr>sh_message = qname_new ''http://docs.oasis-open.org/wss/2004'' ''Security'', sh_part = ''token''\<rparr>
      in sh_part header = ''token'' \<and> namespace (sh_message header) \<noteq> None)"

lemma elements_tests_pass:
  "xsd_element_default_min_occurs_is_1"
  "xsd_element_default_max_occurs_is_bounded_1"
  "xsd_attribute_with_ref"
  "attribute_group_holds_attributes_and_refs"
  "any_element_any_namespace"
  "any_namespace_list_variant"
  by (simp_all add: data_tests make_minimal_definition_def default_element_def present_def registry_len_def
      registry_insert_def registry_new_def registry_lookup_def hm_insert_def hm_get_def starts_with_def Let_def)

lemma types_tests_pass:
  "complex_extension_holds_base_and_content"
  "simple_type_with_restriction"
  "type_registry_insert_and_lookup"
  "type_registry_lookup_missing_returns_none"
  "complex_type_with_simple_content"
  by (simp_all add: data_tests make_minimal_definition_def default_element_def present_def registry_len_def
      registry_insert_def registry_new_def registry_lookup_def hm_insert_def hm_get_def starts_with_def Let_def)

lemma definitions_tests_pass:
  "wsdl_definition_can_be_constructed"
  "message_with_parts"
  "port_type_with_request_response_operation"
  "one_way_operation_has_no_output"
  "binding_soap12_document_literal"
  "service_with_port"
  "wsdl_import_with_optional_location"
  "soap_header_references_message_and_part"
  by (simp_all add: data_tests make_minimal_definition_def default_element_def present_def registry_len_def
      registry_insert_def registry_new_def registry_lookup_def hm_insert_def hm_get_def starts_with_def Let_def)

end
