(* ===== verification/DispatchTests.thy ===== *)
theory DispatchTests
  imports Dispatch TestDocs
begin

text \<open>
  The unit tests of \<open>dispatch.rs\<close>, run on the model, with the fixtures they share. Request bodies
  are the events that the reader yields for them.
\<close>

section \<open>Fixtures\<close>

definition mock_handler :: "string \<Rightarrow> unit soap_handler" where
  "mock_handler name = fn_handler (\<lambda>_ s. (Inr (''<response>'' @ name @ ''</response>''), s))"

definition body_message :: "use_style \<Rightarrow> string option \<Rightarrow> binding_message" where
  "body_message u ns = \<lparr>bm_body = \<lparr>use_attr = u, body_namespace = ns, encoding_style = None\<rparr>, bm_headers = []\<rparr>"

definition one_op_wsdl :: "string \<Rightarrow> string \<Rightarrow> message_part \<Rightarrow> binding_style \<Rightarrow> binding_message \<Rightarrow> resolved_wsdl" where
  "one_op_wsdl opn act part style msg =
     (let mname = opn @ ''Request'' in
      \<lparr>rw_definition =
         \<lparr>target_namespace = ''http://example.com/service'', wsdl_imports = [], wsdl_types = \<lparr>schemas = []\<rparr>,
          messages = [(mname, \<lparr>msg_name = mname, parts = [part]\<rparr>)],
          port_types = [(''TestPortType'', \<lparr>pt_name = ''TestPortType'',
            pt_operations = [\<lparr>op_name = opn,
              op_input = Some \<lparr>om_name = None, om_message = qname_local mname\<rparr>, op_output = None, op_faults = [],
              op_style = RequestResponse\<rparr>]\<rparr>)],
          bindings = [(''TestBinding'', \<lparr>b_name = ''TestBinding'', b_port_type = qname_local ''TestPortType'',
            b_soap_binding = \<lparr>sb_style = style, sb_transport = SOAP_HTTP_TRANSPORT, sb_soap_version = Soap12\<rparr>,
            b_operations = [\<lparr>bo_name = opn, bo_soap_action = act, bo_input = msg, bo_output = msg\<rparr>]\<rparr>)],
          services = [(''TestService'', \<lparr>svc_name = ''TestService'',
            ports = [\<lparr>port_name = ''TestPort'', port_binding = qname_local ''TestBinding'',
              port_address = ''http://localhost/service''\<rparr>]\<rparr>)]\<rparr>,
       rw_type_registry = registry_new, rw_element_type_map = [], rw_raw_bytes = []\<rparr>)"

definition make_resolved_wsdl :: "string \<Rightarrow> string \<Rightarrow> qname option \<Rightarrow> resolved_wsdl" where
  "make_resolved_wsdl opn act input_element_qname =
     one_op_wsdl opn act \<lparr>mp_name = ''parameters'', mp_element = input_element_qname, mp_type_ref = None\<rparr>
       Document (body_message Literal None)"

definition make_resolved_wsdl_rpc :: "string \<Rightarrow> string \<Rightarrow> string option \<Rightarrow> resolved_wsdl" where
  "make_resolved_wsdl_rpc opn act rpc_namespace =
     one_op_wsdl opn act
       \<lparr>mp_name = ''parameters'', mp_element = None,
        mp_type_ref = Some (qname_new ''http://www.w3.org/2001/XMLSchema'' ''string'')\<rparr>
       Rpc (body_message Encoded rpc_namespace)"

definition multi_ns :: string where
  "multi_ns = ''http://example.com/multi''"

definition make_resolved_wsdl_two_services :: resolved_wsdl where
  "make_resolved_wsdl_two_services =
     (let msg_of = (\<lambda>opn. (opn @ ''Request'', \<lparr>msg_name = opn @ ''Request'',
            parts = [\<lparr>mp_name = ''parameters'', mp_element = Some (qname_new multi_ns opn), mp_type_ref = None\<rparr>]\<rparr>));
          pt_of = (\<lambda>pt opn. (pt, \<lparr>pt_name = pt,
            pt_operations = [\<lparr>op_name = opn,
              op_input = Some \<lparr>om_name = None, om_message = qname_local (opn @ ''Request'')\<rparr>, op_output = None,
              op_faults = [], op_style = RequestResponse\<rparr>]\<rparr>));
          b_of = (\<lambda>b pt opn act. (b, \<lparr>b_name = b, b_port_type = qname_local pt,
            b_soap_binding = \<lparr>sb_style = Document, sb_transport = SOAP_HTTP_TRANSPORT, sb_soap_version = Soap12\<rparr>,
            b_operations = [\<lparr>bo_name = opn, bo_soap_action = act, bo_input = body_message Literal None,
              bo_output = body_message Literal None\<rparr>]\<rparr>));
          svc_of = (\<lambda>s p b a. (s, \<lparr>svc_name = s, ports = [\<lparr>port_name = p, port_binding = qname_local b, port_address = a\<rparr>]\<rparr>))
      in \<lparr>rw_definition =
            \<lparr>target_namespace = multi_ns, wsdl_imports = [], wsdl_types = \<lparr>schemas = []\<rparr>,
             messages = [msg_of ''OpA'', msg_of ''OpB''],
             port_types = [pt_of ''PortTypeA'' ''OpA'', pt_of ''PortTypeB'' ''OpB''],
             bindings = [b_of ''BindingA'' ''PortTypeA'' ''OpA'' ''urn:OpA'', b_of ''BindingB'' ''PortTypeB'' ''OpB'' ''urn:OpB''],
             services = [svc_of ''ServiceA'' ''PortA'' ''BindingA'' ''http://localhost/soap/a'',
               svc_of ''ServiceB'' ''PortB'' ''BindingB'' ''http://localhost/soap/b'']\<rparr>,
          rw_type_registry = registry_new, rw_element_type_map = [], rw_raw_bytes = []\<rparr>)"

section \<open>Tables and routes\<close>

named_theorems dispatch_tests "the unit tests of the dispatch table"

definition example_op :: "string \<Rightarrow> qname" where
  "example_op name = qname_new ''http://example.com'' name"

definition profiles_wsdl :: resolved_wsdl where
  "profiles_wsdl = make_resolved_wsdl ''GetProfiles'' ''urn:GetProfiles'' (Some (example_op ''GetProfiles''))"

definition profiles_table :: "dispatch_error + unit dispatch_table" where
  "profiles_table = build_dispatch_table profiles_wsdl [(''GetProfiles'', mock_handler ''GetProfiles'')] {} None"

definition dispatch_table_routes_by_element_qname :: bool where [dispatch_tests]:
  "dispatch_table_routes_by_element_qname \<longleftrightarrow>
     unwrapped profiles_table (\<lambda>table.
     unwrapped (route table (example_op ''GetProfiles'') None) (\<lambda>entry. auth_required entry))"

definition dispatch_table_unregistered_operation_fails_at_build :: bool where [dispatch_tests]:
  "dispatch_table_unregistered_operation_fails_at_build \<longleftrightarrow>
     (build_dispatch_table profiles_wsdl [] {} None :: _ + unit dispatch_table) = Inl (UnregisteredOperation ''GetProfiles'')"

definition dispatch_table_unknown_handler_name_fails_at_build :: bool where [dispatch_tests]:
  "dispatch_table_unknown_handler_name_fails_at_build \<longleftrightarrow>
     build_dispatch_table profiles_wsdl
       [(''GetProfiles'', mock_handler ''GetProfiles''), (''NonExistentOp'', mock_handler ''ghost'')] {} None =
       Inl (UnknownOperation ''NonExistentOp'')"

definition route_unknown_qname_no_soap_action_returns_sender_fault :: bool where [dispatch_tests]:
  "route_unknown_qname_no_soap_action_returns_sender_fault \<longleftrightarrow>
     unwrapped profiles_table (\<lambda>table.
     failed (route table (example_op ''UnknownOperation'') None) (\<lambda>fault.
       code fault = Sender \<and> str_contains ''supported'' (reason fault)))"

definition route_falls_back_to_soap_action_on_unknown_qname :: bool where [dispatch_tests]:
  "route_falls_back_to_soap_action_on_unknown_qname \<longleftrightarrow>
     unwrapped profiles_table (\<lambda>table.
     unwrapped (route table (qname_local ''SomethingElse'') (Some ''urn:GetProfiles'')) (\<lambda>_. True))"

definition route_unknown_qname_unknown_soap_action_returns_fault :: bool where [dispatch_tests]:
  "route_unknown_qname_unknown_soap_action_returns_fault \<longleftrightarrow>
     unwrapped profiles_table (\<lambda>table.
     failed (route table (qname_local ''SomethingElse'') (Some ''urn:UnknownAction'')) (\<lambda>fault. code fault = Sender))"

definition auth_bypass_marks_entry_auth_not_required :: bool where [dispatch_tests]:
  "auth_bypass_marks_entry_auth_not_required \<longleftrightarrow>
     unwrapped (build_dispatch_table profiles_wsdl [(''GetProfiles'', mock_handler ''GetProfiles'')] {''GetProfiles''} None) (\<lambda>table.
     unwrapped (route table (example_op ''GetProfiles'') None) (\<lambda>entry. \<not> auth_required entry))"

definition auth_required_by_default_for_non_bypass_op :: bool where [dispatch_tests]:
  "auth_required_by_default_for_non_bypass_op \<longleftrightarrow>
     unwrapped (build_dispatch_table
         (make_resolved_wsdl ''SetSomething'' ''urn:SetSomething'' (Some (example_op ''SetSomething'')))
         [(''SetSomething'', mock_handler ''SetSomething'')] {} None) (\<lambda>table.
     unwrapped (route table (example_op ''SetSomething'') None) (\<lambda>entry. auth_required entry))"

definition handler_name_matches_wsdl_operation_name_get_profiles :: bool where [dispatch_tests]:
  "handler_name_matches_wsdl_operation_name_get_profiles \<longleftrightarrow>
     (let elem_qname = qname_new ''http://onvif.org/ver10/media/wsdl'' ''GetProfiles'' in
      unwrapped (build_dispatch_table
         (make_resolved_wsdl ''GetProfiles'' ''http://www.onvif.org/ver10/media/wsdl/GetProfiles'' (Some elem_qname))
         [(''GetProfiles'', mock_handler ''GetProfiles'')] {} None) (\<lambda>table.
      unwrapped (route table elem_qname None) (\<lambda>entry. auth_required entry)))"

definition rpc_table :: "string option \<Rightarrow> dispatch_error + unit dispatch_table" where
  "rpc_table ns = build_dispatch_table (make_resolved_wsdl_rpc ''GetOp'' ''urn:GetOp'' ns) [(''GetOp'', mock_handler ''GetOp'')] {} None"

definition build_dispatch_table_rpc_binding :: bool where [dispatch_tests]:
  "build_dispatch_table_rpc_binding \<longleftrightarrow>
     unwrapped (rpc_table (Some ''http://example.com/svc'')) (\<lambda>table.
     unwrapped (route table (qname_new ''http://example.com/svc'' ''GetOp'') None) (\<lambda>_. True))"

definition rpc_dispatch_by_wrapper_element :: bool where [dispatch_tests]:
  "rpc_dispatch_by_wrapper_element \<longleftrightarrow>
     unwrapped (rpc_table (Some ''http://example.com/svc'')) (\<lambda>table.
     unwrapped (route table (qname_new ''http://example.com/svc'' ''GetOp'') None) (\<lambda>_. True))"

definition build_dispatch_table_rpc_missing_namespace_falls_back_to_target_ns :: bool where [dispatch_tests]:
  "build_dispatch_table_rpc_missing_namespace_falls_back_to_target_ns \<longleftrightarrow>
     (let target_ns = target_namespace (rw_definition (make_resolved_wsdl_rpc ''GetOp'' ''urn:GetOp'' None)) in
      unwrapped (rpc_table None) (\<lambda>table.
      unwrapped (route table (qname_new target_ns ''GetOp'') None) (\<lambda>_. True)))"

definition build_dispatch_table_for_service_isolates_operations :: bool where [dispatch_tests]:
  "build_dispatch_table_for_service_isolates_operations \<longleftrightarrow>
     (let resolved = make_resolved_wsdl_two_services in
      unwrapped (build_dispatch_table_for_service ''ServiceA'' resolved [(''OpA'', mock_handler ''OpA'')] {} None) (\<lambda>table_a.
      unwrapped (build_dispatch_table_for_service ''ServiceB'' resolved [(''OpB'', mock_handler ''OpB'')] {} None) (\<lambda>table_b.
        unwrapped (route table_a (qname_new multi_ns ''OpA'') None) (\<lambda>_. True) \<and>
        unwrapped (route table_b (qname_new multi_ns ''OpB'') None) (\<lambda>_. True) \<and>
        failed (route table_a (qname_new multi_ns ''OpB'') None) (\<lambda>_. True))))"

lemmas fixture_simps =
  dispatch_tests profiles_table_def profiles_wsdl_def rpc_table_def make_resolved_wsdl_def make_resolved_wsdl_rpc_def
  make_resolved_wsdl_two_services_def one_op_wsdl_def example_op_def body_message_def unwrapped_def failed_def

lemmas table_simps =
  build_dispatch_table_def build_dispatch_table_for_service_def collect_ops_for_service_def service_ops_def binding_ops_def
  binding_op_info_def build_dispatch_table_from_ops_def add_operation_def operation_handler_def operation_types_def
  document_types_def resolve_input_element_def input_element_of_def route_def hm_get_def hm_insert_def Let_def

lemma dispatch_tests_pass:
  "dispatch_table_routes_by_element_qname" "dispatch_table_unregistered_operation_fails_at_build"
  "dispatch_table_unknown_handler_name_fails_at_build" "route_unknown_qname_no_soap_action_returns_sender_fault"
  "route_falls_back_to_soap_action_on_unknown_qname" "route_unknown_qname_unknown_soap_action_returns_fault"
  "auth_bypass_marks_entry_auth_not_required" "auth_required_by_default_for_non_bypass_op"
  "handler_name_matches_wsdl_operation_name_get_profiles"
  by (simp_all add: fixture_simps table_simps action_not_supported_def fault_new_def starts_with_def)

lemma rpc_tests_pass:
  "build_dispatch_table_rpc_binding" "rpc_dispatch_by_wrapper_element"
  "build_dispatch_table_rpc_missing_namespace_falls_back_to_target_ns"
  "build_dispatch_table_for_service_isolates_operations"
  by (simp_all add: fixture_simps table_simps)

end
