(* ===== verification/XsdTests.thy ===== *)
theory XsdTests
  imports XsdParser TestDocs
begin

text \<open>
  The unit tests of \<open>xsd/parser.rs\<close>, run on the model: each test is a definition with its name, the
  conjunction of its assertions, on the tree that the tree reader gives for its document. Where a test
  asserts only under an \<open>if let\<close>, so does its definition.
\<close>

definition schema_parses :: "xnode \<Rightarrow> (raw_schema \<Rightarrow> bool) \<Rightarrow> bool" where
  "schema_parses doc k \<longleftrightarrow> unwrapped (parse_schema doc) k"

text \<open>The bound of \<open>u64\<close> as an integer, whose numerals are binary, for evaluation.\<close>

lemma parse_digits_code [code]:
  "parse_digits acc [] = Some acc"
  "parse_digits acc (c # cs) =
     (if in_range 48 57 c then
        let v = acc * 10 + (byte c - 48)
        in if int v < 18446744073709551616 then parse_digits v cs else None
      else None)"
  by (simp_all add: u64_bound_def Let_def)

section \<open>Tests\<close>

definition xs_scope :: "(string option \<times> string) list" where
  "xs_scope = [(Some ''xs'', XS_NS)]"

definition parse_complex_type_with_sequence_element_doc :: xnode where
  "parse_complex_type_with_sequence_element_doc =
    elt (Some XS_NS) ''schema'' [(''targetNamespace'', ''urn:t'')] xs_scope
    [ws 17, elt (Some XS_NS) ''complexType'' [(''name'', ''Foo'')] xs_scope
     [ws 19, elt (Some XS_NS) ''sequence'' [] xs_scope
      [ws 21, elt (Some XS_NS) ''element'' [(''name'', ''bar''), (''type'', ''xs:string'')] xs_scope [],
       ws 19],
      ws 17],
     ws 15]"

definition parse_complex_type_with_sequence_element :: bool where
  "parse_complex_type_with_sequence_element \<longleftrightarrow> schema_parses parse_complex_type_with_sequence_element_doc (\<lambda>schema.
     present (hm_get (rs_types schema) (qname_new ''urn:t'' ''Foo'')) (\<lambda>ty.
     case ty of
         Complex ct \<Rightarrow> (case ct_content ct of
             Sequence elems \<Rightarrow> length elems = 1 \<and> el_name (elems ! 0) = Some ''bar'' | _ \<Rightarrow> False)
       | _ \<Rightarrow> False))"

definition parse_element_min_occurs_zero_doc :: xnode where
  "parse_element_min_occurs_zero_doc =
    elt (Some XS_NS) ''schema'' [(''targetNamespace'', ''urn:t'')] xs_scope
    [ws 17, elt (Some XS_NS) ''complexType'' [(''name'', ''CT'')] xs_scope
     [ws 19, elt (Some XS_NS) ''sequence'' [] xs_scope
      [ws 21, elt (Some XS_NS) ''element'' [(''name'', ''opt''), (''type'', ''xs:string''), (''minOccurs'', ''0'')] xs_scope [],
       ws 19],
      ws 17],
     ws 15]"

definition parse_element_min_occurs_zero :: bool where
  "parse_element_min_occurs_zero \<longleftrightarrow> schema_parses parse_element_min_occurs_zero_doc (\<lambda>schema.
     present (hm_get (rs_types schema) (qname_new ''urn:t'' ''CT'')) (\<lambda>ty.
     case ty of Complex ct \<Rightarrow> (case ct_content ct of Sequence elems \<Rightarrow> el_min_occurs (elems ! 0) = 0 | _ \<Rightarrow> True) | _ \<Rightarrow> True))"

definition parse_element_max_occurs_unbounded_doc :: xnode where
  "parse_element_max_occurs_unbounded_doc =
    elt (Some XS_NS) ''schema'' [(''targetNamespace'', ''urn:t'')] xs_scope
    [ws 17, elt (Some XS_NS) ''complexType'' [(''name'', ''CT'')] xs_scope
     [ws 19, elt (Some XS_NS) ''sequence'' [] xs_scope
      [ws 21, elt (Some XS_NS) ''element'' [(''name'', ''items''), (''type'', ''xs:string''), (''maxOccurs'', ''unbounded'')] xs_scope [],
       ws 19],
      ws 17],
     ws 15]"

definition parse_element_max_occurs_unbounded :: bool where
  "parse_element_max_occurs_unbounded \<longleftrightarrow> schema_parses parse_element_max_occurs_unbounded_doc (\<lambda>schema.
     present (hm_get (rs_types schema) (qname_new ''urn:t'' ''CT'')) (\<lambda>ty.
     case ty of Complex ct \<Rightarrow> (case ct_content ct of Sequence elems \<Rightarrow> el_max_occurs (elems ! 0) = Unbounded | _ \<Rightarrow> True) | _ \<Rightarrow> True))"

definition parse_element_nillable_true_doc :: xnode where
  "parse_element_nillable_true_doc =
    elt (Some XS_NS) ''schema'' [(''targetNamespace'', ''urn:t'')] xs_scope
    [ws 17, elt (Some XS_NS) ''complexType'' [(''name'', ''CT'')] xs_scope
     [ws 19, elt (Some XS_NS) ''sequence'' [] xs_scope
      [ws 21, elt (Some XS_NS) ''element'' [(''name'', ''val''), (''type'', ''xs:string''), (''nillable'', ''true'')] xs_scope [],
       ws 19],
      ws 17],
     ws 15]"

definition parse_element_nillable_true :: bool where
  "parse_element_nillable_true \<longleftrightarrow> schema_parses parse_element_nillable_true_doc (\<lambda>schema.
     present (hm_get (rs_types schema) (qname_new ''urn:t'' ''CT'')) (\<lambda>ty.
     case ty of Complex ct \<Rightarrow> (case ct_content ct of Sequence elems \<Rightarrow> el_nillable (elems ! 0) | _ \<Rightarrow> True) | _ \<Rightarrow> True))"

definition xs_tns_scope :: "(string option \<times> string) list" where
  "xs_tns_scope = [(Some ''xs'', XS_NS), (Some ''tns'', ''urn:t'')]"

definition parse_element_ref_attribute_doc :: xnode where
  "parse_element_ref_attribute_doc =
    elt (Some XS_NS) ''schema'' [(''targetNamespace'', ''urn:t'')] xs_tns_scope
    [ws 17, elt (Some XS_NS) ''complexType'' [(''name'', ''CT'')] xs_tns_scope
     [ws 19, elt (Some XS_NS) ''sequence'' [] xs_tns_scope
      [ws 21, elt (Some XS_NS) ''element'' [(''ref'', ''tns:Foo'')] xs_tns_scope [],
       ws 19],
      ws 17],
     ws 15]"

definition parse_element_ref_attribute :: bool where
  "parse_element_ref_attribute \<longleftrightarrow> schema_parses parse_element_ref_attribute_doc (\<lambda>schema.
     present (hm_get (rs_types schema) (qname_new ''urn:t'' ''CT'')) (\<lambda>ty.
     case ty of Complex ct \<Rightarrow> (case ct_content ct of Sequence elems \<Rightarrow> present (el_ref (elems ! 0)) (\<lambda>r.
       local_name r = ''Foo'' \<and> namespace r = Some ''urn:t'') | _ \<Rightarrow> True) | _ \<Rightarrow> True))"

definition parse_complex_extension_doc :: xnode where
  "parse_complex_extension_doc =
    elt (Some XS_NS) ''schema'' [(''targetNamespace'', ''urn:t'')] xs_tns_scope
    [ws 17, elt (Some XS_NS) ''complexType'' [(''name'', ''Child'')] xs_tns_scope
     [ws 19, elt (Some XS_NS) ''complexContent'' [] xs_tns_scope
      [ws 21, elt (Some XS_NS) ''extension'' [(''base'', ''tns:Base'')] xs_tns_scope
       [ws 23, elt (Some XS_NS) ''sequence'' [] xs_tns_scope
        [ws 25, elt (Some XS_NS) ''element'' [(''name'', ''extra''), (''type'', ''xs:string'')] xs_tns_scope [],
         ws 23],
        ws 21],
       ws 19],
      ws 17],
     ws 15]"

definition parse_complex_extension :: bool where
  "parse_complex_extension \<longleftrightarrow> schema_parses parse_complex_extension_doc (\<lambda>schema.
     present (hm_get (rs_types schema) (qname_new ''urn:t'' ''Child'')) (\<lambda>ty.
     case ty of Complex ct \<Rightarrow> (case ct_content ct of
         ComplexExtension base _ \<Rightarrow> local_name base = ''Base'' \<and> namespace base = Some ''urn:t'' | _ \<Rightarrow> False) | _ \<Rightarrow> True))"

definition parse_complex_restriction_doc :: xnode where
  "parse_complex_restriction_doc =
    elt (Some XS_NS) ''schema'' [(''targetNamespace'', ''urn:t'')] xs_tns_scope
    [ws 17, elt (Some XS_NS) ''complexType'' [(''name'', ''Restricted'')] xs_tns_scope
     [ws 19, elt (Some XS_NS) ''complexContent'' [] xs_tns_scope
      [ws 21, elt (Some XS_NS) ''restriction'' [(''base'', ''tns:Base'')] xs_tns_scope
       [ws 23, elt (Some XS_NS) ''sequence'' [] xs_tns_scope [],
        ws 21],
       ws 19],
      ws 17],
     ws 15]"

definition parse_complex_restriction :: bool where
  "parse_complex_restriction \<longleftrightarrow> schema_parses parse_complex_restriction_doc (\<lambda>schema.
     present (hm_get (rs_types schema) (qname_new ''urn:t'' ''Restricted'')) (\<lambda>ty.
     case ty of Complex ct \<Rightarrow> (case ct_content ct of ComplexRestriction _ _ \<Rightarrow> True | _ \<Rightarrow> False) | _ \<Rightarrow> True))"

definition parse_simple_type_enumeration_doc :: xnode where
  "parse_simple_type_enumeration_doc =
    elt (Some XS_NS) ''schema'' [(''targetNamespace'', ''urn:t'')] xs_scope
    [ws 17, elt (Some XS_NS) ''simpleType'' [(''name'', ''ColorEnum'')] xs_scope
     [ws 19, elt (Some XS_NS) ''restriction'' [(''base'', ''xs:string'')] xs_scope
      [ws 21, elt (Some XS_NS) ''enumeration'' [(''value'', ''JPEG'')] xs_scope [],
       ws 21, elt (Some XS_NS) ''enumeration'' [(''value'', ''PNG'')] xs_scope [],
       ws 19],
      ws 17],
     ws 15]"

definition parse_simple_type_enumeration :: bool where
  "parse_simple_type_enumeration \<longleftrightarrow> schema_parses parse_simple_type_enumeration_doc (\<lambda>schema.
     present (hm_get (rs_types schema) (qname_new ''urn:t'' ''ColorEnum'')) (\<lambda>ty.
     case ty of Simple st \<Rightarrow> present (st_restriction st) (\<lambda>r.
         ''JPEG'' \<in> set (enumeration r) \<and> ''PNG'' \<in> set (enumeration r)) | _ \<Rightarrow> False))"

definition parse_simple_type_list_doc :: xnode where
  "parse_simple_type_list_doc =
    elt (Some XS_NS) ''schema'' [(''targetNamespace'', ''urn:t'')] xs_scope
    [ws 17, elt (Some XS_NS) ''simpleType'' [(''name'', ''StringList'')] xs_scope
     [ws 19, elt (Some XS_NS) ''list'' [(''itemType'', ''xs:string'')] xs_scope [],
      ws 17],
     ws 15]"

definition parse_simple_type_list :: bool where
  "parse_simple_type_list \<longleftrightarrow> schema_parses parse_simple_type_list_doc (\<lambda>schema.
     present (hm_get (rs_types schema) (qname_new ''urn:t'' ''StringList'')) (\<lambda>ty.
     case ty of Simple st \<Rightarrow> present (st_list st) (\<lambda>l. local_name (item_type l) = ''string'') | _ \<Rightarrow> True))"

definition parse_simple_type_union_doc :: xnode where
  "parse_simple_type_union_doc =
    elt (Some XS_NS) ''schema'' [(''targetNamespace'', ''urn:t'')] xs_scope
    [ws 17, elt (Some XS_NS) ''simpleType'' [(''name'', ''StringOrInt'')] xs_scope
     [ws 19, elt (Some XS_NS) ''union'' [(''memberTypes'', ''xs:string xs:integer'')] xs_scope [],
      ws 17],
     ws 15]"

definition parse_simple_type_union :: bool where
  "parse_simple_type_union \<longleftrightarrow> schema_parses parse_simple_type_union_doc (\<lambda>schema.
     present (hm_get (rs_types schema) (qname_new ''urn:t'' ''StringOrInt'')) (\<lambda>ty.
     case ty of Simple st \<Rightarrow> present (st_union st) (\<lambda>u. length (member_types u) = 2) | _ \<Rightarrow> True))"

definition parse_import_recorded_doc :: xnode where
  "parse_import_recorded_doc =
    elt (Some XS_NS) ''schema'' [(''targetNamespace'', ''urn:t'')] xs_scope
    [ws 17, elt (Some XS_NS) ''import'' [(''namespace'', ''urn:foo''), (''schemaLocation'', ''foo.xsd'')] xs_scope [],
     ws 15]"

definition parse_import_recorded :: bool where
  "parse_import_recorded \<longleftrightarrow> schema_parses parse_import_recorded_doc (\<lambda>schema.
     length (rs_imports schema) = 1 \<and> si_namespace (rs_imports schema ! 0) = Some ''urn:foo'' \<and>
     si_schema_location (rs_imports schema ! 0) = Some ''foo.xsd'')"

definition xs_tt_scope :: "(string option \<times> string) list" where
  "xs_tt_scope = [(Some ''xs'', XS_NS), (Some ''tt'', ''urn:tt'')]"

definition parse_attribute_use_required_doc :: xnode where
  "parse_attribute_use_required_doc =
    elt (Some XS_NS) ''schema'' [(''targetNamespace'', ''urn:t'')] xs_tt_scope
    [ws 17, elt (Some XS_NS) ''complexType'' [(''name'', ''CT'')] xs_tt_scope
     [ws 19, elt (Some XS_NS) ''attribute'' [(''name'', ''token''), (''type'', ''tt:ReferenceToken''), (''use'', ''required'')] xs_tt_scope [],
      ws 17],
     ws 15]"

definition parse_attribute_use_required :: bool where
  "parse_attribute_use_required \<longleftrightarrow> schema_parses parse_attribute_use_required_doc (\<lambda>schema.
     present (hm_get (rs_types schema) (qname_new ''urn:t'' ''CT'')) (\<lambda>ty.
     case ty of Complex ct \<Rightarrow> length (ct_attributes ct) = 1 \<and> at_use (ct_attributes ct ! 0) = Required \<and>
         at_name (ct_attributes ct ! 0) = Some ''token'' | _ \<Rightarrow> True))"

definition parse_attribute_group_definition_doc :: xnode where
  "parse_attribute_group_definition_doc =
    elt (Some XS_NS) ''schema'' [(''targetNamespace'', ''urn:t'')] xs_scope
    [ws 17, elt (Some XS_NS) ''attributeGroup'' [(''name'', ''AG'')] xs_scope
     [ws 19, elt (Some XS_NS) ''attribute'' [(''name'', ''id''), (''type'', ''xs:ID''), (''use'', ''optional'')] xs_scope [],
      ws 17],
     ws 15]"

definition parse_attribute_group_definition :: bool where
  "parse_attribute_group_definition \<longleftrightarrow> schema_parses parse_attribute_group_definition_doc (\<lambda>schema.
     present (hm_get (rs_attribute_groups schema) (qname_new ''urn:t'' ''AG'')) (\<lambda>ag.
       ag_name ag = ''AG'' \<and> length (ag_attributes ag) = 1))"

definition parse_group_definition_sequence_doc :: xnode where
  "parse_group_definition_sequence_doc =
    elt (Some XS_NS) ''schema'' [(''targetNamespace'', ''urn:t'')] xs_scope
    [ws 17, elt (Some XS_NS) ''group'' [(''name'', ''G'')] xs_scope
     [ws 19, elt (Some XS_NS) ''sequence'' [] xs_scope
      [ws 21, elt (Some XS_NS) ''element'' [(''name'', ''item''), (''type'', ''xs:string'')] xs_scope [],
       ws 19],
      ws 17],
     ws 15]"

definition parse_group_definition_sequence :: bool where
  "parse_group_definition_sequence \<longleftrightarrow> schema_parses parse_group_definition_sequence_doc (\<lambda>schema.
     present (hm_get (rs_groups schema) (qname_new ''urn:t'' ''G'')) (\<lambda>g.
       case g_content g of GSequence _ \<Rightarrow> True | _ \<Rightarrow> False))"

definition parse_any_element_doc :: xnode where
  "parse_any_element_doc =
    elt (Some XS_NS) ''schema'' [(''targetNamespace'', ''urn:t'')] xs_scope
    [ws 17, elt (Some XS_NS) ''complexType'' [(''name'', ''CT'')] xs_scope
     [ws 19, elt (Some XS_NS) ''sequence'' [] xs_scope
      [ws 21, elt (Some XS_NS) ''any'' [(''namespace'', ''##any''), (''processContents'', ''lax'')] xs_scope [],
       ws 19],
      ws 17],
     ws 15]"

definition parse_any_element :: bool where
  "parse_any_element \<longleftrightarrow> schema_parses parse_any_element_doc (\<lambda>schema.
     present (hm_get (rs_types schema) (qname_new ''urn:t'' ''CT'')) (\<lambda>ty.
     case ty of Complex ct \<Rightarrow> (case ct_content ct of Sequence elems \<Rightarrow> length elems = 1 \<and> el_name (elems ! 0) = Some ''__any__'' | _ \<Rightarrow> True) | _ \<Rightarrow> True))"

definition parse_unknown_elements_silently_skipped_doc :: xnode where
  "parse_unknown_elements_silently_skipped_doc =
    elt (Some XS_NS) ''schema'' [(''targetNamespace'', ''urn:t'')] xs_scope
    [ws 17, elt (Some XS_NS) ''annotation'' [] xs_scope
     [ws 19, elt (Some XS_NS) ''documentation'' [] xs_scope
      [TextNode ''Hello''],
      ws 17],
     ws 17, elt (Some XS_NS) ''complexType'' [(''name'', ''Foo'')] xs_scope
     [ws 19, elt (Some XS_NS) ''sequence'' [] xs_scope [],
      ws 17],
     ws 15]"

definition parse_unknown_elements_silently_skipped :: bool where
  "parse_unknown_elements_silently_skipped \<longleftrightarrow> schema_parses parse_unknown_elements_silently_skipped_doc (\<lambda>schema.
     hm_get (rs_types schema) (qname_new ''urn:t'' ''Foo'') \<noteq> None)"

definition parse_choice_compositor_doc :: xnode where
  "parse_choice_compositor_doc =
    elt (Some XS_NS) ''schema'' [(''targetNamespace'', ''urn:t'')] xs_scope
    [ws 17, elt (Some XS_NS) ''complexType'' [(''name'', ''CT'')] xs_scope
     [ws 19, elt (Some XS_NS) ''choice'' [] xs_scope
      [ws 21, elt (Some XS_NS) ''element'' [(''name'', ''a''), (''type'', ''xs:string'')] xs_scope [],
       ws 21, elt (Some XS_NS) ''element'' [(''name'', ''b''), (''type'', ''xs:integer'')] xs_scope [],
       ws 19],
      ws 17],
     ws 15]"

definition parse_choice_compositor :: bool where
  "parse_choice_compositor \<longleftrightarrow> schema_parses parse_choice_compositor_doc (\<lambda>schema.
     present (hm_get (rs_types schema) (qname_new ''urn:t'' ''CT'')) (\<lambda>ty.
     case ty of Complex ct \<Rightarrow> (case ct_content ct of Choice elems \<Rightarrow> length elems = 2 | _ \<Rightarrow> False) | _ \<Rightarrow> True))"

definition parse_all_compositor_doc :: xnode where
  "parse_all_compositor_doc =
    elt (Some XS_NS) ''schema'' [(''targetNamespace'', ''urn:t'')] xs_scope
    [ws 17, elt (Some XS_NS) ''complexType'' [(''name'', ''CT'')] xs_scope
     [ws 19, elt (Some XS_NS) ''all'' [] xs_scope
      [ws 21, elt (Some XS_NS) ''element'' [(''name'', ''x''), (''type'', ''xs:string'')] xs_scope [],
       ws 19],
      ws 17],
     ws 15]"

definition parse_all_compositor :: bool where
  "parse_all_compositor \<longleftrightarrow> schema_parses parse_all_compositor_doc (\<lambda>schema.
     present (hm_get (rs_types schema) (qname_new ''urn:t'' ''CT'')) (\<lambda>ty.
     case ty of Complex ct \<Rightarrow> (case ct_content ct of All _ \<Rightarrow> True | _ \<Rightarrow> False) | _ \<Rightarrow> True))"

definition parse_top_level_element_doc :: xnode where
  "parse_top_level_element_doc =
    elt (Some XS_NS) ''schema'' [(''targetNamespace'', ''urn:t'')] xs_scope
    [ws 17, elt (Some XS_NS) ''element'' [(''name'', ''Root''), (''type'', ''xs:string'')] xs_scope [],
     ws 15]"

definition parse_top_level_element :: bool where
  "parse_top_level_element \<longleftrightarrow> schema_parses parse_top_level_element_doc (\<lambda>schema.
     hm_get (rs_elements schema) (qname_new ''urn:t'' ''Root'') \<noteq> None)"

definition parse_schema_include_doc :: xnode where
  "parse_schema_include_doc =
    elt (Some XS_NS) ''schema'' [(''targetNamespace'', ''urn:t'')] xs_scope
    [ws 17, elt (Some XS_NS) ''include'' [(''schemaLocation'', ''common.xsd'')] xs_scope [],
     ws 15]"

definition parse_schema_include :: bool where
  "parse_schema_include \<longleftrightarrow> schema_parses parse_schema_include_doc (\<lambda>schema.
     length (rs_includes schema) = 1 \<and> inc_schema_location (rs_includes schema ! 0) = ''common.xsd'')"

definition parse_element_default_and_fixed_doc :: xnode where
  "parse_element_default_and_fixed_doc =
    elt (Some XS_NS) ''schema'' [(''targetNamespace'', ''urn:t'')] xs_scope
    [ws 17, elt (Some XS_NS) ''complexType'' [(''name'', ''CT'')] xs_scope
     [ws 19, elt (Some XS_NS) ''sequence'' [] xs_scope
      [ws 21, elt (Some XS_NS) ''element'' [(''name'', ''d''), (''type'', ''xs:string''), (''default'', ''hello'')] xs_scope [],
       ws 21, elt (Some XS_NS) ''element'' [(''name'', ''f''), (''type'', ''xs:string''), (''fixed'', ''world'')] xs_scope [],
       ws 19],
      ws 17],
     ws 15]"

definition parse_element_default_and_fixed :: bool where
  "parse_element_default_and_fixed \<longleftrightarrow> schema_parses parse_element_default_and_fixed_doc (\<lambda>schema.
     present (hm_get (rs_types schema) (qname_new ''urn:t'' ''CT'')) (\<lambda>ty.
     case ty of Complex ct \<Rightarrow> (case ct_content ct of Sequence elems \<Rightarrow> el_default (elems ! 0) = Some ''hello'' \<and> el_fixed (elems ! 1) = Some ''world'' | _ \<Rightarrow> True) | _ \<Rightarrow> True))"

definition parse_restriction_facets_doc :: xnode where
  "parse_restriction_facets_doc =
    elt (Some XS_NS) ''schema'' [(''targetNamespace'', ''urn:t'')] xs_scope
    [ws 17, elt (Some XS_NS) ''simpleType'' [(''name'', ''Range'')] xs_scope
     [ws 19, elt (Some XS_NS) ''restriction'' [(''base'', ''xs:integer'')] xs_scope
      [ws 21, elt (Some XS_NS) ''minInclusive'' [(''value'', ''1'')] xs_scope [],
       ws 21, elt (Some XS_NS) ''maxInclusive'' [(''value'', ''100'')] xs_scope [],
       ws 21, elt (Some XS_NS) ''pattern'' [(''value'', ([CHR 0x5C] @ ''d+''))] xs_scope [],
       ws 19],
      ws 17],
     ws 15]"

definition parse_restriction_facets :: bool where
  "parse_restriction_facets \<longleftrightarrow> schema_parses parse_restriction_facets_doc (\<lambda>schema.
     present (hm_get (rs_types schema) (qname_new ''urn:t'' ''Range'')) (\<lambda>ty.
     case ty of Simple st \<Rightarrow> present (st_restriction st) (\<lambda>r.
         min_inclusive r = Some ''1'' \<and> max_inclusive r = Some ''100'' \<and> pattern r = Some ([CHR 0x5C] @ ''d+'')) | _ \<Rightarrow> True))"

section \<open>The tests pass\<close>

lemma parse_complex_type_with_sequence_element_passes: parse_complex_type_with_sequence_element
  by code_simp

lemma parse_element_min_occurs_zero_passes: parse_element_min_occurs_zero
  by code_simp

lemma parse_element_max_occurs_unbounded_passes: parse_element_max_occurs_unbounded
  by code_simp

lemma parse_element_nillable_true_passes: parse_element_nillable_true
  by code_simp

lemma parse_element_ref_attribute_passes: parse_element_ref_attribute
  by code_simp

lemma parse_complex_extension_passes: parse_complex_extension
  by code_simp

lemma parse_complex_restriction_passes: parse_complex_restriction
  by code_simp

lemma parse_simple_type_enumeration_passes: parse_simple_type_enumeration
  by code_simp

lemma parse_simple_type_list_passes: parse_simple_type_list
  by code_simp

lemma parse_simple_type_union_passes: parse_simple_type_union
  by code_simp

lemma parse_import_recorded_passes: parse_import_recorded
  by code_simp

lemma parse_attribute_use_required_passes: parse_attribute_use_required
  by code_simp

lemma parse_attribute_group_definition_passes: parse_attribute_group_definition
  by code_simp

lemma parse_group_definition_sequence_passes: parse_group_definition_sequence
  by code_simp

lemma parse_any_element_passes: parse_any_element
  by code_simp

lemma parse_unknown_elements_silently_skipped_passes: parse_unknown_elements_silently_skipped
  by code_simp

lemma parse_choice_compositor_passes: parse_choice_compositor
  by code_simp

lemma parse_all_compositor_passes: parse_all_compositor
  by code_simp

lemma parse_top_level_element_passes: parse_top_level_element
  by code_simp

lemma parse_schema_include_passes: parse_schema_include
  by code_simp

lemma parse_element_default_and_fixed_passes: parse_element_default_and_fixed
  by code_simp

lemma parse_restriction_facets_passes: parse_restriction_facets
  by code_simp

end
