(* ===== verification/XsdResolverTests.thy ===== *)
theory XsdResolverTests
  imports XsdResolver XsdTests
begin

text \<open>
  The unit tests of \<open>xsd/resolver.rs\<close>, run on the model: parsed schemas are resolved and the registry is
  looked at.
\<close>

text \<open>The loops that may not return are evaluated by their equations.\<close>

declare collect_loop.simps [code] resolve_element_list.simps [code] expand_group_refs.simps [code]

definition parse_and_resolve :: "xnode \<Rightarrow> type_registry dres" where
  "parse_and_resolve doc =
     dbind (Some (parse_schema doc)) (\<lambda>raw.
     dbind (resolve_schema raw null_schema_loader (\<lambda>_. Inl []) {}) (\<lambda>(registry, _). Some (Inr registry)))"

definition resolves :: "xnode \<Rightarrow> (type_registry \<Rightarrow> bool) \<Rightarrow> bool" where
  "resolves doc k = (case parse_and_resolve doc of Some (Inr registry) \<Rightarrow> k registry | _ \<Rightarrow> False)"

definition get_elements :: "type_registry \<Rightarrow> string \<Rightarrow> string \<Rightarrow> string list" where
  "get_elements registry ns name =
     (case registry_lookup registry (qname_new ns name) of
        Some (Complex ct) \<Rightarrow>
          (case ct_content ct of Sequence els \<Rightarrow> List.map_filter el_name els | _ \<Rightarrow> [])
      | _ \<Rightarrow> [])"

section \<open>Tests\<close>

definition resolver_xs_tns_scope :: "(string option \<times> string) list" where
  "resolver_xs_tns_scope = [(Some ''xs'', XS_NS), (Some ''tns'', ''urn:test'')]"

definition THREE_LEVEL_SCHEMA :: xnode where
  "THREE_LEVEL_SCHEMA =
    elt (Some XS_NS) ''schema'' [(''targetNamespace'', ''urn:test'')] resolver_xs_tns_scope
    [ws 2, elt (Some XS_NS) ''complexType'' [(''name'', ''BaseType'')] resolver_xs_tns_scope
     [ws 4, elt (Some XS_NS) ''sequence'' [] resolver_xs_tns_scope
      [ws 6, elt (Some XS_NS) ''element'' [(''name'', ''id''), (''type'', ''xs:string'')] resolver_xs_tns_scope [],
       ws 4],
      ws 2],
     ws 2, elt (Some XS_NS) ''complexType'' [(''name'', ''MiddleType'')] resolver_xs_tns_scope
     [ws 4, elt (Some XS_NS) ''complexContent'' [] resolver_xs_tns_scope
      [ws 6, elt (Some XS_NS) ''extension'' [(''base'', ''tns:BaseType'')] resolver_xs_tns_scope
       [ws 8, elt (Some XS_NS) ''sequence'' [] resolver_xs_tns_scope
        [ws 10, elt (Some XS_NS) ''element'' [(''name'', ''name''), (''type'', ''xs:string'')] resolver_xs_tns_scope [],
         ws 8],
        ws 6],
       ws 4],
      ws 2],
     ws 2, elt (Some XS_NS) ''complexType'' [(''name'', ''LeafType'')] resolver_xs_tns_scope
     [ws 4, elt (Some XS_NS) ''complexContent'' [] resolver_xs_tns_scope
      [ws 6, elt (Some XS_NS) ''extension'' [(''base'', ''tns:MiddleType'')] resolver_xs_tns_scope
       [ws 8, elt (Some XS_NS) ''sequence'' [] resolver_xs_tns_scope
        [ws 10, elt (Some XS_NS) ''element'' [(''name'', ''value''), (''type'', ''xs:string'')] resolver_xs_tns_scope [],
         ws 8],
        ws 6],
       ws 4],
      ws 2],
     ws 0]"

definition three_level_extension_chain_resolves_in_order :: bool where
  "three_level_extension_chain_resolves_in_order \<longleftrightarrow> resolves THREE_LEVEL_SCHEMA (\<lambda>registry.
     get_elements registry ''urn:test'' ''LeafType'' = [''id'', ''name'', ''value''])"

definition base_type_resolves_to_single_element :: bool where
  "base_type_resolves_to_single_element \<longleftrightarrow> resolves THREE_LEVEL_SCHEMA (\<lambda>registry.
     get_elements registry ''urn:test'' ''BaseType'' = [''id''])"

definition middle_type_resolves_to_two_elements :: bool where
  "middle_type_resolves_to_two_elements \<longleftrightarrow> resolves THREE_LEVEL_SCHEMA (\<lambda>registry.
     get_elements registry ''urn:test'' ''MiddleType'' = [''id'', ''name''])"

definition self_ref_doc :: xnode where
  "self_ref_doc =
    elt (Some XS_NS) ''schema'' [(''targetNamespace'', ''urn:test'')] resolver_xs_tns_scope
    [ws 2, elt (Some XS_NS) ''complexType'' [(''name'', ''SelfRef'')] resolver_xs_tns_scope
     [ws 4, elt (Some XS_NS) ''complexContent'' [] resolver_xs_tns_scope
      [ws 6, elt (Some XS_NS) ''extension'' [(''base'', ''tns:SelfRef'')] resolver_xs_tns_scope
       [ws 8, elt (Some XS_NS) ''sequence'' [] resolver_xs_tns_scope [],
        ws 6],
       ws 4],
      ws 2],
     ws 0]"

definition cycle_detection_returns_err :: bool where
  "cycle_detection_returns_err \<longleftrightarrow> (case parse_and_resolve self_ref_doc of Some (Inl (SchCycleDetected _)) \<Rightarrow> True | _ \<Rightarrow> False)"

definition restricted_doc :: xnode where
  "restricted_doc =
    elt (Some XS_NS) ''schema'' [(''targetNamespace'', ''urn:test'')] resolver_xs_tns_scope
    [ws 2, elt (Some XS_NS) ''complexType'' [(''name'', ''BaseType'')] resolver_xs_tns_scope
     [ws 4, elt (Some XS_NS) ''sequence'' [] resolver_xs_tns_scope
      [ws 6, elt (Some XS_NS) ''element'' [(''name'', ''id''), (''type'', ''xs:string'')] resolver_xs_tns_scope [],
       ws 6, elt (Some XS_NS) ''element'' [(''name'', ''extra''), (''type'', ''xs:string'')] resolver_xs_tns_scope [],
       ws 4],
      ws 2],
     ws 2, elt (Some XS_NS) ''complexType'' [(''name'', ''RestrictedType'')] resolver_xs_tns_scope
     [ws 4, elt (Some XS_NS) ''complexContent'' [] resolver_xs_tns_scope
      [ws 6, elt (Some XS_NS) ''restriction'' [(''base'', ''tns:BaseType'')] resolver_xs_tns_scope
       [ws 8, elt (Some XS_NS) ''sequence'' [] resolver_xs_tns_scope
        [ws 10, elt (Some XS_NS) ''element'' [(''name'', ''id''), (''type'', ''xs:string'')] resolver_xs_tns_scope [],
         ws 8],
        ws 6],
       ws 4],
      ws 2],
     ws 0]"

definition restriction_uses_own_content_not_base :: bool where
  "restriction_uses_own_content_not_base \<longleftrightarrow> resolves restricted_doc (\<lambda>registry.
     get_elements registry ''urn:test'' ''RestrictedType'' = [''id''])"

definition empty_doc :: xnode where
  "empty_doc =
    elt (Some XS_NS) ''schema'' [(''targetNamespace'', ''urn:test'')] xs_scope
    [ws 8]"

definition empty_schema_produces_empty_registry :: bool where
  "empty_schema_produces_empty_registry \<longleftrightarrow> resolves empty_doc (\<lambda>registry. registry_len registry = 0)"

definition enum_doc :: xnode where
  "enum_doc =
    elt (Some XS_NS) ''schema'' [(''targetNamespace'', ''urn:test'')] xs_scope
    [ws 10, elt (Some XS_NS) ''simpleType'' [(''name'', ''MyEnum'')] xs_scope
     [ws 12, elt (Some XS_NS) ''restriction'' [(''base'', ''xs:string'')] xs_scope
      [ws 14, elt (Some XS_NS) ''enumeration'' [(''value'', ''A'')] xs_scope [],
       ws 14, elt (Some XS_NS) ''enumeration'' [(''value'', ''B'')] xs_scope [],
       ws 12],
      ws 10],
     ws 8]"

definition simple_types_pass_through_resolution :: bool where
  "simple_types_pass_through_resolution \<longleftrightarrow> resolves enum_doc (\<lambda>registry.
     case registry_lookup registry (qname_new ''urn:test'' ''MyEnum'') of Some (Simple _) \<Rightarrow> True | _ \<Rightarrow> False)"

definition resolver_xs_tns2_scope :: "(string option \<times> string) list" where
  "resolver_xs_tns2_scope = [(Some ''xs'', XS_NS), (Some ''tns'', ''urn:b'')]"

definition diamond_b :: xnode where
  "diamond_b =
    elt (Some XS_NS) ''schema'' [(''targetNamespace'', ''urn:b'')] resolver_xs_tns2_scope
    [ws 22, elt (Some XS_NS) ''import'' [(''namespace'', ''urn:d''), (''schemaLocation'', ''D.xsd'')] resolver_xs_tns2_scope [],
     ws 22, elt (Some XS_NS) ''complexType'' [(''name'', ''BType'')] resolver_xs_tns2_scope
     [elt (Some XS_NS) ''sequence'' [] resolver_xs_tns2_scope []],
     ws 20]"

definition resolver_xs_tns3_scope :: "(string option \<times> string) list" where
  "resolver_xs_tns3_scope = [(Some ''xs'', XS_NS), (Some ''tns'', ''urn:c'')]"

definition diamond_c :: xnode where
  "diamond_c =
    elt (Some XS_NS) ''schema'' [(''targetNamespace'', ''urn:c'')] resolver_xs_tns3_scope
    [ws 22, elt (Some XS_NS) ''import'' [(''namespace'', ''urn:d''), (''schemaLocation'', ''D.xsd'')] resolver_xs_tns3_scope [],
     ws 22, elt (Some XS_NS) ''complexType'' [(''name'', ''CType'')] resolver_xs_tns3_scope
     [elt (Some XS_NS) ''sequence'' [] resolver_xs_tns3_scope []],
     ws 20]"

definition diamond_d :: xnode where
  "diamond_d =
    elt (Some XS_NS) ''schema'' [(''targetNamespace'', ''urn:d'')] xs_scope
    [ws 22, elt (Some XS_NS) ''complexType'' [(''name'', ''DType'')] xs_scope
     [elt (Some XS_NS) ''sequence'' [] xs_scope []],
     ws 20]"

definition diamond_root :: xnode where
  "diamond_root =
    elt (Some XS_NS) ''schema'' [(''targetNamespace'', ''urn:root'')] xs_scope
    [ws 10, elt (Some XS_NS) ''import'' [(''namespace'', ''urn:b''), (''schemaLocation'', ''B.xsd'')] xs_scope [],
     ws 10, elt (Some XS_NS) ''import'' [(''namespace'', ''urn:c''), (''schemaLocation'', ''C.xsd'')] xs_scope [],
     ws 8]"

text \<open>The loader of the diamond. A loaded schema is named by its location.\<close>

definition diamond_loader :: schema_loader where
  "diamond_loader ns location =
     (if location = ''B.xsd'' \<or> location = ''C.xsd'' \<or> location = ''D.xsd'' then Inr location
      else Inl (SchUnknownRef location))"

definition diamond_docs :: "string \<Rightarrow> string + xnode" where
  "diamond_docs = known_trees [(''B.xsd'', diamond_b), (''C.xsd'', diamond_c), (''D.xsd'', diamond_d)]"

text \<open>
  The loader is a function and counts nothing; each of its answers puts one location into the
  set of the loaded ones, so the loads are counted by that set.
\<close>

definition diamond_import_loads_schema_once :: bool where
  "diamond_import_loads_schema_once \<longleftrightarrow> unwrapped (parse_schema diamond_root) (\<lambda>raw.
     (case resolve_schema raw diamond_loader diamond_docs {} of
        Some (Inr (registry, loaded)) \<Rightarrow>
          card loaded = 3 \<and>
          registry_lookup registry (qname_new ''urn:b'' ''BType'') \<noteq> None \<and>
          registry_lookup registry (qname_new ''urn:c'' ''CType'') \<noteq> None \<and>
          registry_lookup registry (qname_new ''urn:d'' ''DType'') \<noteq> None
      | _ \<Rightarrow> False))"

section \<open>The tests pass\<close>

lemma three_level_extension_chain_resolves_in_order_passes: three_level_extension_chain_resolves_in_order
  by code_simp

lemma base_type_resolves_to_single_element_passes: base_type_resolves_to_single_element
  by code_simp

lemma middle_type_resolves_to_two_elements_passes: middle_type_resolves_to_two_elements
  by code_simp

lemma cycle_detection_returns_err_passes: cycle_detection_returns_err
  by code_simp

lemma restriction_uses_own_content_not_base_passes: restriction_uses_own_content_not_base
  by code_simp

lemma empty_schema_produces_empty_registry_passes: empty_schema_produces_empty_registry
  by code_simp

lemma simple_types_pass_through_resolution_passes: simple_types_pass_through_resolution
  by code_simp

lemma diamond_import_loads_schema_once_passes: diamond_import_loads_schema_once
  by code_simp

end
