(* ===== verification/WsdlTests.thy ===== *)
theory WsdlTests
  imports WsdlParser TestDocs
begin

text \<open>
  The unit tests of \<open>wsdl/parser.rs\<close>, run on the model: each test is a definition with its name,
  the conjunction of its assertions. The documents are the trees that the tree reader gives for them.
\<close>

section \<open>Documents\<close>

definition minimal12_scope :: "(string option \<times> string) list" where
  "minimal12_scope = [(None, WSDL_NS), (Some ''soap12'', SOAP12_BINDING_NS), (Some ''tns'', ''http://example.com/device''), (Some ''xs'', XSD_NS)]"

definition MINIMAL_WSDL_SOAP12 :: xnode where
  "MINIMAL_WSDL_SOAP12 =
    elt (Some WSDL_NS) ''definitions'' [(''targetNamespace'', ''http://example.com/device''), (''name'', ''DeviceService'')] minimal12_scope
    [TextNode (nl 0 @ nl 2),
     elt (Some WSDL_NS) ''types'' [] minimal12_scope
     [ws 4, elt (Some XSD_NS) ''schema'' [(''targetNamespace'', ''http://example.com/device'')] minimal12_scope
      [ws 6, elt (Some XSD_NS) ''element'' [(''name'', ''GetStatus'')] minimal12_scope [],
       ws 6, elt (Some XSD_NS) ''element'' [(''name'', ''GetStatusResponse'')] minimal12_scope [],
       ws 4],
      ws 2],
     TextNode (nl 0 @ nl 2),
     elt (Some WSDL_NS) ''message'' [(''name'', ''GetStatusRequest'')] minimal12_scope
     [ws 4, elt (Some WSDL_NS) ''part'' [(''name'', ''parameters''), (''element'', ''tns:GetStatus'')] minimal12_scope [],
      ws 2],
     ws 2, elt (Some WSDL_NS) ''message'' [(''name'', ''GetStatusResponse'')] minimal12_scope
     [ws 4, elt (Some WSDL_NS) ''part'' [(''name'', ''parameters''), (''element'', ''tns:GetStatusResponse'')] minimal12_scope [],
      ws 2],
     TextNode (nl 0 @ nl 2),
     elt (Some WSDL_NS) ''portType'' [(''name'', ''DevicePortType'')] minimal12_scope
     [ws 4, elt (Some WSDL_NS) ''operation'' [(''name'', ''GetStatus'')] minimal12_scope
      [ws 6, elt (Some WSDL_NS) ''input'' [(''message'', ''tns:GetStatusRequest'')] minimal12_scope [],
       ws 6, elt (Some WSDL_NS) ''output'' [(''message'', ''tns:GetStatusResponse'')] minimal12_scope [],
       ws 4],
      ws 2],
     TextNode (nl 0 @ nl 2),
     elt (Some WSDL_NS) ''binding'' [(''name'', ''DeviceBinding''), (''type'', ''tns:DevicePortType'')] minimal12_scope
     [ws 4, elt (Some SOAP12_BINDING_NS) ''binding'' [(''style'', ''document''), (''transport'', ''http://schemas.xmlsoap.org/soap/http'')] minimal12_scope [],
      ws 4, elt (Some WSDL_NS) ''operation'' [(''name'', ''GetStatus'')] minimal12_scope
      [ws 6, elt (Some SOAP12_BINDING_NS) ''operation'' [(''soapAction'', ''http://example.com/device/GetStatus'')] minimal12_scope [],
       ws 6, elt (Some WSDL_NS) ''input'' [] minimal12_scope
       [ws 8, elt (Some SOAP12_BINDING_NS) ''body'' [(''use'', ''literal'')] minimal12_scope [],
        ws 6],
       ws 6, elt (Some WSDL_NS) ''output'' [] minimal12_scope
       [ws 8, elt (Some SOAP12_BINDING_NS) ''body'' [(''use'', ''literal'')] minimal12_scope [],
        ws 6],
       ws 4],
      ws 2],
     TextNode (nl 0 @ nl 2),
     elt (Some WSDL_NS) ''service'' [(''name'', ''DeviceService'')] minimal12_scope
     [ws 4, elt (Some WSDL_NS) ''port'' [(''name'', ''DevicePort''), (''binding'', ''tns:DeviceBinding'')] minimal12_scope
      [ws 6, elt (Some SOAP12_BINDING_NS) ''address'' [(''location'', ''http://192.168.1.1/onvif/device_service'')] minimal12_scope [],
       ws 4],
      ws 2],
     ws 0]"

definition minimal11_scope :: "(string option \<times> string) list" where
  "minimal11_scope = [(None, WSDL_NS), (Some ''soap'', SOAP11_BINDING_NS), (Some ''tns'', ''http://example.com/service'')]"

definition MINIMAL_WSDL_SOAP11 :: xnode where
  "MINIMAL_WSDL_SOAP11 =
    elt (Some WSDL_NS) ''definitions'' [(''targetNamespace'', ''http://example.com/service''), (''name'', ''TestService'')] minimal11_scope
    [TextNode (nl 0 @ nl 2),
     elt (Some WSDL_NS) ''message'' [(''name'', ''EchoRequest'')] minimal11_scope
     [ws 4, elt (Some WSDL_NS) ''part'' [(''name'', ''body''), (''element'', ''tns:Echo'')] minimal11_scope [],
      ws 2],
     ws 2, elt (Some WSDL_NS) ''message'' [(''name'', ''EchoResponse'')] minimal11_scope
     [ws 4, elt (Some WSDL_NS) ''part'' [(''name'', ''body''), (''element'', ''tns:EchoResponse'')] minimal11_scope [],
      ws 2],
     TextNode (nl 0 @ nl 2),
     elt (Some WSDL_NS) ''portType'' [(''name'', ''TestPortType'')] minimal11_scope
     [ws 4, elt (Some WSDL_NS) ''operation'' [(''name'', ''Echo'')] minimal11_scope
      [ws 6, elt (Some WSDL_NS) ''input'' [(''message'', ''tns:EchoRequest'')] minimal11_scope [],
       ws 6, elt (Some WSDL_NS) ''output'' [(''message'', ''tns:EchoResponse'')] minimal11_scope [],
       ws 4],
      ws 2],
     TextNode (nl 0 @ nl 2),
     elt (Some WSDL_NS) ''binding'' [(''name'', ''TestBinding''), (''type'', ''tns:TestPortType'')] minimal11_scope
     [ws 4, elt (Some SOAP11_BINDING_NS) ''binding'' [(''style'', ''document''), (''transport'', ''http://schemas.xmlsoap.org/soap/http'')] minimal11_scope [],
      ws 4, elt (Some WSDL_NS) ''operation'' [(''name'', ''Echo'')] minimal11_scope
      [ws 6, elt (Some SOAP11_BINDING_NS) ''operation'' [(''soapAction'', ''http://example.com/Echo'')] minimal11_scope [],
       ws 6, elt (Some WSDL_NS) ''input'' [] minimal11_scope
       [elt (Some SOAP11_BINDING_NS) ''body'' [(''use'', ''literal'')] minimal11_scope []],
       ws 6, elt (Some WSDL_NS) ''output'' [] minimal11_scope
       [elt (Some SOAP11_BINDING_NS) ''body'' [(''use'', ''literal'')] minimal11_scope []],
       ws 4],
      ws 2],
     TextNode (nl 0 @ nl 2),
     elt (Some WSDL_NS) ''service'' [(''name'', ''TestService'')] minimal11_scope
     [ws 4, elt (Some WSDL_NS) ''port'' [(''name'', ''TestPort''), (''binding'', ''tns:TestBinding'')] minimal11_scope
      [ws 6, elt (Some SOAP11_BINDING_NS) ''address'' [(''location'', ''http://localhost/test'')] minimal11_scope [],
       ws 4],
      ws 2],
     ws 0]"

definition importing_scope :: "(string option \<times> string) list" where
  "importing_scope = [(None, WSDL_NS), (Some ''tns'', ''http://example.com/svc'')]"

definition WSDL_WITH_IMPORT :: xnode where
  "WSDL_WITH_IMPORT =
    elt (Some WSDL_NS) ''definitions'' [(''targetNamespace'', ''http://example.com/svc'')] importing_scope
    [ws 2, elt (Some WSDL_NS) ''import'' [(''namespace'', ''http://example.com/types''), (''location'', ''types.xsd'')] importing_scope [],
     ws 2, elt (Some WSDL_NS) ''message'' [(''name'', ''Req'')] importing_scope
     [elt (Some WSDL_NS) ''part'' [(''name'', ''p''), (''element'', ''tns:ReqElem'')] importing_scope []],
     ws 2, elt (Some WSDL_NS) ''portType'' [(''name'', ''PT'')] importing_scope
     [elt (Some WSDL_NS) ''operation'' [(''name'', ''Op'')] importing_scope
      [elt (Some WSDL_NS) ''input'' [(''message'', ''tns:Req'')] importing_scope []]],
     ws 2, elt (Some WSDL_NS) ''binding'' [(''name'', ''B''), (''type'', ''tns:PT'')] importing_scope
     [ws 4, elt (Some SOAP12_BINDING_NS) ''binding'' [(''style'', ''document''), (''transport'', ''http://schemas.xmlsoap.org/soap/http'')] ([(Some ''soap12'', SOAP12_BINDING_NS)] @ importing_scope) [],
      ws 4, elt (Some WSDL_NS) ''operation'' [(''name'', ''Op'')] importing_scope
      [ws 6, elt (Some SOAP12_BINDING_NS) ''operation'' [(''soapAction'', ''http://example.com/Op'')] ([(Some ''soap12'', SOAP12_BINDING_NS)] @ importing_scope) [],
       ws 6, elt (Some WSDL_NS) ''input'' [] importing_scope
       [elt (Some SOAP12_BINDING_NS) ''body'' [(''use'', ''literal'')] ([(Some ''soap12'', SOAP12_BINDING_NS)] @ importing_scope) []],
       ws 6, elt (Some WSDL_NS) ''output'' [] importing_scope
       [elt (Some SOAP12_BINDING_NS) ''body'' [(''use'', ''literal'')] ([(Some ''soap12'', SOAP12_BINDING_NS)] @ importing_scope) []],
       ws 4],
      ws 2],
     ws 2, elt (Some WSDL_NS) ''service'' [(''name'', ''Svc'')] importing_scope
     [ws 4, elt (Some WSDL_NS) ''port'' [(''name'', ''SvcPort''), (''binding'', ''tns:B'')] importing_scope
      [ws 6, elt (Some SOAP12_BINDING_NS) ''address'' [(''location'', ''http://localhost/svc'')] ([(Some ''soap12'', SOAP12_BINDING_NS)] @ importing_scope) [],
       ws 4],
      ws 2],
     ws 0]"

definition multi_scope :: "(string option \<times> string) list" where
  "multi_scope = [(None, WSDL_NS), (Some ''soap12'', SOAP12_BINDING_NS), (Some ''tns'', ''http://example.com/multi'')]"

definition WSDL_MULTIPLE_OPERATIONS :: xnode where
  "WSDL_MULTIPLE_OPERATIONS =
    elt (Some WSDL_NS) ''definitions'' [(''targetNamespace'', ''http://example.com/multi'')] multi_scope
    [ws 2, elt (Some WSDL_NS) ''message'' [(''name'', ''OpAReq'')] multi_scope
     [elt (Some WSDL_NS) ''part'' [(''name'', ''p''), (''element'', ''tns:OpAReqElem'')] multi_scope []],
     ws 2, elt (Some WSDL_NS) ''message'' [(''name'', ''OpARes'')] multi_scope
     [elt (Some WSDL_NS) ''part'' [(''name'', ''p''), (''element'', ''tns:OpAResElem'')] multi_scope []],
     ws 2, elt (Some WSDL_NS) ''message'' [(''name'', ''OpBReq'')] multi_scope
     [elt (Some WSDL_NS) ''part'' [(''name'', ''p''), (''element'', ''tns:OpBReqElem'')] multi_scope []],
     ws 2, elt (Some WSDL_NS) ''message'' [(''name'', ''OpBRes'')] multi_scope
     [elt (Some WSDL_NS) ''part'' [(''name'', ''p''), (''element'', ''tns:OpBResElem'')] multi_scope []],
     ws 2, elt (Some WSDL_NS) ''portType'' [(''name'', ''MultiPT'')] multi_scope
     [ws 4, elt (Some WSDL_NS) ''operation'' [(''name'', ''OpA'')] multi_scope
      [ws 6, elt (Some WSDL_NS) ''input'' [(''message'', ''tns:OpAReq'')] multi_scope [],
       ws 6, elt (Some WSDL_NS) ''output'' [(''message'', ''tns:OpARes'')] multi_scope [],
       ws 4],
      ws 4, elt (Some WSDL_NS) ''operation'' [(''name'', ''OpB'')] multi_scope
      [ws 6, elt (Some WSDL_NS) ''input'' [(''message'', ''tns:OpBReq'')] multi_scope [],
       ws 6, elt (Some WSDL_NS) ''output'' [(''message'', ''tns:OpBRes'')] multi_scope [],
       ws 4],
      ws 2],
     ws 2, elt (Some WSDL_NS) ''binding'' [(''name'', ''MultiB''), (''type'', ''tns:MultiPT'')] multi_scope
     [ws 4, elt (Some SOAP12_BINDING_NS) ''binding'' [(''style'', ''document''), (''transport'', ''http://schemas.xmlsoap.org/soap/http'')] multi_scope [],
      ws 4, elt (Some WSDL_NS) ''operation'' [(''name'', ''OpA'')] multi_scope
      [ws 6, elt (Some SOAP12_BINDING_NS) ''operation'' [(''soapAction'', ''http://example.com/OpA'')] multi_scope [],
       ws 6, elt (Some WSDL_NS) ''input'' [] multi_scope
       [elt (Some SOAP12_BINDING_NS) ''body'' [(''use'', ''literal'')] multi_scope []],
       ws 6, elt (Some WSDL_NS) ''output'' [] multi_scope
       [elt (Some SOAP12_BINDING_NS) ''body'' [(''use'', ''literal'')] multi_scope []],
       ws 4],
      ws 4, elt (Some WSDL_NS) ''operation'' [(''name'', ''OpB'')] multi_scope
      [ws 6, elt (Some SOAP12_BINDING_NS) ''operation'' [(''soapAction'', ''http://example.com/OpB'')] multi_scope [],
       ws 6, elt (Some WSDL_NS) ''input'' [] multi_scope
       [elt (Some SOAP12_BINDING_NS) ''body'' [(''use'', ''literal'')] multi_scope []],
       ws 6, elt (Some WSDL_NS) ''output'' [] multi_scope
       [elt (Some SOAP12_BINDING_NS) ''body'' [(''use'', ''literal'')] multi_scope []],
       ws 4],
      ws 2],
     ws 2, elt (Some WSDL_NS) ''service'' [(''name'', ''MultiSvc'')] multi_scope
     [ws 4, elt (Some WSDL_NS) ''port'' [(''name'', ''MultiPort''), (''binding'', ''tns:MultiB'')] multi_scope
      [ws 6, elt (Some SOAP12_BINDING_NS) ''address'' [(''location'', ''http://localhost/multi'')] multi_scope [],
       ws 4],
      ws 2],
     ws 0]"

definition documented_scope :: "(string option \<times> string) list" where
  "documented_scope = [(None, WSDL_NS), (Some ''tns'', ''http://example.com'')]"

definition documented_wsdl :: xnode where
  "documented_wsdl =
    elt (Some WSDL_NS) ''definitions'' [(''targetNamespace'', ''http://example.com'')] documented_scope
    [ws 2, elt (Some WSDL_NS) ''documentation'' [] documented_scope
     [TextNode ''This is a doc''],
     ws 2, elt (Some WSDL_NS) ''message'' [(''name'', ''M1'')] documented_scope
     [elt (Some WSDL_NS) ''part'' [(''name'', ''p''), (''element'', ''tns:E1'')] documented_scope []],
     ws 0]"

definition schema_root_scope :: "(string option \<times> string) list" where
  "schema_root_scope = [(None, XSD_NS)]"

definition schema_root :: xnode where
  "schema_root =
    elt (Some XSD_NS) ''schema'' [] schema_root_scope []"

text \<open>The documents by their names.\<close>

definition wsdl_docs :: "string \<Rightarrow> string + xnode" where
  "wsdl_docs t = known_trees
     [(''MINIMAL_WSDL_SOAP12'', MINIMAL_WSDL_SOAP12),
      (''MINIMAL_WSDL_SOAP11'', MINIMAL_WSDL_SOAP11),
      (''WSDL_WITH_IMPORT'', WSDL_WITH_IMPORT),
      (''WSDL_MULTIPLE_OPERATIONS'', WSDL_MULTIPLE_OPERATIONS),
      (''documented_wsdl'', documented_wsdl),
      (''schema_root'', schema_root)] t"

definition parsed :: "string \<Rightarrow> (wsdl_definition \<Rightarrow> bool) \<Rightarrow> bool" where
  "parsed doc k = unwrapped (parse_wsdl wsdl_docs doc) k"

text \<open>Assertions on one document are evaluated on one run of the parser.\<close>

lemma parsed_conj: "parsed doc j \<and> parsed doc k \<longleftrightarrow> parsed doc (\<lambda>def. j def \<and> k def)"
  by (auto simp: parsed_def unwrapped_def split: sum.splits)

section \<open>Tests\<close>

definition parse_minimal_wsdl_produces_definition :: bool where
  "parse_minimal_wsdl_produces_definition \<longleftrightarrow> parsed ''MINIMAL_WSDL_SOAP12'' (\<lambda>def. target_namespace def = ''http://example.com/device'' \<and>
       hm_get (services def) ''DeviceService'' \<noteq> None \<and> hm_get (port_types def) ''DevicePortType'' \<noteq> None \<and>
       hm_get (bindings def) ''DeviceBinding'' \<noteq> None \<and> hm_get (messages def) ''GetStatusRequest'' \<noteq> None \<and>
       hm_get (messages def) ''GetStatusResponse'' \<noteq> None)"

definition service_port_contains_address :: bool where
  "service_port_contains_address \<longleftrightarrow> parsed ''MINIMAL_WSDL_SOAP12'' (\<lambda>def.
     present (hm_get (services def) ''DeviceService'') (\<lambda>svc. length (ports svc) = 1 \<and> port_name (ports svc ! 0) = ''DevicePort'' \<and>
       port_address (ports svc ! 0) = ''http://192.168.1.1/onvif/device_service''))"

definition port_binding_qname_is_resolved :: bool where
  "port_binding_qname_is_resolved \<longleftrightarrow> parsed ''MINIMAL_WSDL_SOAP12'' (\<lambda>def.
     present (hm_get (services def) ''DeviceService'') (\<lambda>svc. namespace (port_binding (ports svc ! 0)) = Some ''http://example.com/device'' \<and>
       local_name (port_binding (ports svc ! 0)) = ''DeviceBinding''))"

definition soap12_binding_detected :: bool where
  "soap12_binding_detected \<longleftrightarrow> parsed ''MINIMAL_WSDL_SOAP12'' (\<lambda>def.
     present (hm_get (bindings def) ''DeviceBinding'') (\<lambda>b. sb_soap_version (b_soap_binding b) = Soap12))"

definition soap11_binding_detected :: bool where
  "soap11_binding_detected \<longleftrightarrow> parsed ''MINIMAL_WSDL_SOAP11'' (\<lambda>def.
     present (hm_get (bindings def) ''TestBinding'') (\<lambda>b. sb_soap_version (b_soap_binding b) = Soap11))"

definition binding_style_document :: bool where
  "binding_style_document \<longleftrightarrow> parsed ''MINIMAL_WSDL_SOAP12'' (\<lambda>def.
     present (hm_get (bindings def) ''DeviceBinding'') (\<lambda>b. sb_style (b_soap_binding b) = Document))"

definition port_type_has_operation_with_input_and_output :: bool where
  "port_type_has_operation_with_input_and_output \<longleftrightarrow> parsed ''MINIMAL_WSDL_SOAP12'' (\<lambda>def.
     present (hm_get (port_types def) ''DevicePortType'') (\<lambda>pt. length (pt_operations pt) = 1 \<and> op_name (pt_operations pt ! 0) = ''GetStatus'' \<and>
       op_input (pt_operations pt ! 0) \<noteq> None \<and> op_output (pt_operations pt ! 0) \<noteq> None))"

definition operation_input_message_qname_resolved :: bool where
  "operation_input_message_qname_resolved \<longleftrightarrow> parsed ''MINIMAL_WSDL_SOAP12'' (\<lambda>def.
     present (hm_get (port_types def) ''DevicePortType'') (\<lambda>pt. present (op_input (pt_operations pt ! 0)) (\<lambda>input.
       namespace (om_message input) = Some ''http://example.com/device'' \<and>
       local_name (om_message input) = ''GetStatusRequest'')))"

definition operation_output_message_qname_resolved :: bool where
  "operation_output_message_qname_resolved \<longleftrightarrow> parsed ''MINIMAL_WSDL_SOAP12'' (\<lambda>def.
     present (hm_get (port_types def) ''DevicePortType'') (\<lambda>pt. present (op_output (pt_operations pt ! 0)) (\<lambda>out.
       local_name (om_message out) = ''GetStatusResponse'')))"

definition binding_operation_soap_action_extracted :: bool where
  "binding_operation_soap_action_extracted \<longleftrightarrow> parsed ''MINIMAL_WSDL_SOAP12'' (\<lambda>def.
     present (hm_get (bindings def) ''DeviceBinding'') (\<lambda>b. length (b_operations b) = 1 \<and>
       bo_soap_action (b_operations b ! 0) = ''http://example.com/device/GetStatus''))"

definition binding_operation_use_literal :: bool where
  "binding_operation_use_literal \<longleftrightarrow> parsed ''MINIMAL_WSDL_SOAP12'' (\<lambda>def.
     present (hm_get (bindings def) ''DeviceBinding'') (\<lambda>b. use_attr (bm_body (bo_input (b_operations b ! 0))) = Literal \<and>
       use_attr (bm_body (bo_output (b_operations b ! 0))) = Literal))"

definition message_part_element_qname_resolved :: bool where
  "message_part_element_qname_resolved \<longleftrightarrow> parsed ''MINIMAL_WSDL_SOAP12'' (\<lambda>def.
     present (hm_get (messages def) ''GetStatusRequest'') (\<lambda>msg. length (parts msg) = 1 \<and> mp_name (parts msg ! 0) = ''parameters'' \<and>
       present (mp_element (parts msg ! 0)) (\<lambda>elem.
         namespace elem = Some ''http://example.com/device'' \<and> local_name elem = ''GetStatus'')))"

definition wsdl_import_with_location_recorded :: bool where
  "wsdl_import_with_location_recorded \<longleftrightarrow> parsed ''WSDL_WITH_IMPORT'' (\<lambda>def.
     length (wsdl_imports def) = 1 \<and> imp_namespace (wsdl_imports def ! 0) = ''http://example.com/types'' \<and>
     imp_location (wsdl_imports def ! 0) = Some ''types.xsd'')"

definition inline_schema_nodes_collected :: bool where
  "inline_schema_nodes_collected \<longleftrightarrow> parsed ''MINIMAL_WSDL_SOAP12'' (\<lambda>def.
     schemas (wsdl_types def) \<noteq> [] \<and>
     (str_contains ''xs:schema'' (schemas (wsdl_types def) ! 0) \<or> str_contains ''schema'' (schemas (wsdl_types def) ! 0)))"

definition multiple_operations_all_present :: bool where
  "multiple_operations_all_present \<longleftrightarrow> parsed ''WSDL_MULTIPLE_OPERATIONS'' (\<lambda>def.
     present (hm_get (port_types def) ''MultiPT'') (\<lambda>pt. length (pt_operations pt) = 2 \<and>
       (let names = map op_name (pt_operations pt) in ''OpA'' \<in> set names \<and> ''OpB'' \<in> set names)))"

definition multiple_binding_operations_all_present :: bool where
  "multiple_binding_operations_all_present \<longleftrightarrow> parsed ''WSDL_MULTIPLE_OPERATIONS'' (\<lambda>def.
     present (hm_get (bindings def) ''MultiB'') (\<lambda>b. length (b_operations b) = 2))"

definition unknown_wsdl_elements_silently_skipped :: bool where
  "unknown_wsdl_elements_silently_skipped \<longleftrightarrow> parsed ''documented_wsdl'' (\<lambda>def. hm_get (messages def) ''M1'' \<noteq> None)"

definition malformed_xml_returns_error :: bool where
  "malformed_xml_returns_error \<longleftrightarrow> failed (parse_wsdl (\<lambda>_. Inl ''the root node was opened but never closed'') ''<not valid xml'') (\<lambda>_. True)"

definition wrong_root_element_returns_error :: bool where
  "wrong_root_element_returns_error \<longleftrightarrow> failed (parse_wsdl wsdl_docs ''schema_root'')
       (\<lambda>e. case e of MalformedXml _ \<Rightarrow> True | _ \<Rightarrow> False)"

section \<open>The tests pass\<close>

lemma minimal12_tests_pass:
  "parse_minimal_wsdl_produces_definition \<and>
   service_port_contains_address \<and>
   port_binding_qname_is_resolved \<and>
   soap12_binding_detected \<and>
   binding_style_document \<and>
   port_type_has_operation_with_input_and_output \<and>
   operation_input_message_qname_resolved \<and>
   operation_output_message_qname_resolved \<and>
   binding_operation_soap_action_extracted \<and>
   binding_operation_use_literal \<and>
   message_part_element_qname_resolved \<and>
   inline_schema_nodes_collected"
  unfolding parse_minimal_wsdl_produces_definition_def
    service_port_contains_address_def
    port_binding_qname_is_resolved_def
    soap12_binding_detected_def
    binding_style_document_def
    port_type_has_operation_with_input_and_output_def
    operation_input_message_qname_resolved_def
    operation_output_message_qname_resolved_def
    binding_operation_soap_action_extracted_def
    binding_operation_use_literal_def
    message_part_element_qname_resolved_def
    inline_schema_nodes_collected_def parsed_conj
  by code_simp

lemma multiple_operations_tests_pass:
  "multiple_operations_all_present \<and>
   multiple_binding_operations_all_present"
  unfolding multiple_operations_all_present_def
    multiple_binding_operations_all_present_def parsed_conj
  by code_simp

lemma soap11_binding_detected_passes: soap11_binding_detected
  by code_simp

lemma wsdl_import_with_location_recorded_passes: wsdl_import_with_location_recorded
  by code_simp

lemma unknown_wsdl_elements_silently_skipped_passes: unknown_wsdl_elements_silently_skipped
  by code_simp

lemma malformed_xml_returns_error_passes: malformed_xml_returns_error
  by code_simp

lemma wrong_root_element_returns_error_passes: wrong_root_element_returns_error
  by code_simp

end
