(* ===== verification/ResolverTests.thy ===== *)
theory ResolverTests
  imports WsdlResolver Fault XsdResolverTests WsdlTests
begin

text \<open>
  The unit tests of \<open>wsdl/resolver.rs\<close>, run on the model. A document is named by the name of its
  constant; a schema written back to text reads as the tree that it was.
\<close>

declare resolve_imports.simps [code]

section \<open>Documents\<close>

definition root_wsdl_scope :: "(string option \<times> string) list" where
  "root_wsdl_scope = [(None, WSDL_NS), (Some ''soap12'', SOAP12_BINDING_NS), (Some ''tns'', ''http://example.com/root'')]"

definition ROOT_WSDL :: xnode where
  "ROOT_WSDL =
    elt (Some WSDL_NS) ''definitions'' [(''targetNamespace'', ''http://example.com/root''), (''name'', ''RootService'')] root_wsdl_scope
    [TextNode (nl 0 @ nl 2),
     elt (Some WSDL_NS) ''import'' [(''namespace'', ''http://example.com/imported''), (''location'', ''imported.wsdl'')] root_wsdl_scope [],
     TextNode (nl 0 @ nl 2),
     elt (Some WSDL_NS) ''types'' [] root_wsdl_scope
     [ws 4, elt (Some XSD_NS) ''schema'' [(''targetNamespace'', ''http://example.com/root'')] ([(Some ''xs'', XSD_NS)] @ root_wsdl_scope)
      [ws 6, elt (Some XSD_NS) ''element'' [(''name'', ''RootElement''), (''type'', ''xs:string'')] ([(Some ''xs'', XSD_NS)] @ root_wsdl_scope) [],
       ws 4],
      ws 2],
     TextNode (nl 0 @ nl 2),
     elt (Some WSDL_NS) ''message'' [(''name'', ''RootMsg'')] root_wsdl_scope
     [elt (Some WSDL_NS) ''part'' [(''name'', ''p''), (''element'', ''tns:RootElement'')] root_wsdl_scope []],
     TextNode (nl 0 @ nl 2),
     elt (Some WSDL_NS) ''portType'' [(''name'', ''RootPT'')] root_wsdl_scope
     [ws 4, elt (Some WSDL_NS) ''operation'' [(''name'', ''RootOp'')] root_wsdl_scope
      [ws 6, elt (Some WSDL_NS) ''input'' [(''message'', ''tns:RootMsg'')] root_wsdl_scope [],
       ws 4],
      ws 2],
     TextNode (nl 0 @ nl 2),
     elt (Some WSDL_NS) ''binding'' [(''name'', ''RootBinding''), (''type'', ''tns:RootPT'')] root_wsdl_scope
     [ws 4, elt (Some SOAP12_BINDING_NS) ''binding'' [(''style'', ''document''), (''transport'', ''http://schemas.xmlsoap.org/soap/http'')] root_wsdl_scope [],
      ws 4, elt (Some WSDL_NS) ''operation'' [(''name'', ''RootOp'')] root_wsdl_scope
      [ws 6, elt (Some SOAP12_BINDING_NS) ''operation'' [(''soapAction'', ''http://example.com/RootOp'')] root_wsdl_scope [],
       ws 6, elt (Some WSDL_NS) ''input'' [] root_wsdl_scope
       [elt (Some SOAP12_BINDING_NS) ''body'' [(''use'', ''literal'')] root_wsdl_scope []],
       ws 6, elt (Some WSDL_NS) ''output'' [] root_wsdl_scope
       [elt (Some SOAP12_BINDING_NS) ''body'' [(''use'', ''literal'')] root_wsdl_scope []],
       ws 4],
      ws 2],
     TextNode (nl 0 @ nl 2),
     elt (Some WSDL_NS) ''service'' [(''name'', ''RootService'')] root_wsdl_scope
     [ws 4, elt (Some WSDL_NS) ''port'' [(''name'', ''RootPort''), (''binding'', ''tns:RootBinding'')] root_wsdl_scope
      [ws 6, elt (Some SOAP12_BINDING_NS) ''address'' [(''location'', ''http://old-server/soap'')] root_wsdl_scope [],
       ws 4],
      ws 2],
     ws 0]"

definition imported_wsdl_scope :: "(string option \<times> string) list" where
  "imported_wsdl_scope = [(None, WSDL_NS), (Some ''tns'', ''http://example.com/imported'')]"

definition IMPORTED_WSDL :: xnode where
  "IMPORTED_WSDL =
    elt (Some WSDL_NS) ''definitions'' [(''targetNamespace'', ''http://example.com/imported''), (''name'', ''ImportedService'')] imported_wsdl_scope
    [TextNode (nl 0 @ nl 2),
     elt (Some WSDL_NS) ''message'' [(''name'', ''ImportedMsg'')] imported_wsdl_scope
     [elt (Some WSDL_NS) ''part'' [(''name'', ''p''), (''element'', ''tns:ImportedElem'')] imported_wsdl_scope []],
     TextNode (nl 0 @ nl 2),
     elt (Some WSDL_NS) ''portType'' [(''name'', ''ImportedPT'')] imported_wsdl_scope
     [ws 4, elt (Some WSDL_NS) ''operation'' [(''name'', ''ImportedOp'')] imported_wsdl_scope
      [ws 6, elt (Some WSDL_NS) ''input'' [(''message'', ''tns:ImportedMsg'')] imported_wsdl_scope [],
       ws 4],
      ws 2],
     ws 0]"

definition standalone_wsdl_scope :: "(string option \<times> string) list" where
  "standalone_wsdl_scope = [(None, WSDL_NS), (Some ''soap12'', SOAP12_BINDING_NS), (Some ''tns'', ''http://example.com/standalone''), (Some ''xs'', XSD_NS)]"

definition STANDALONE_WSDL :: xnode where
  "STANDALONE_WSDL =
    elt (Some WSDL_NS) ''definitions'' [(''targetNamespace'', ''http://example.com/standalone''), (''name'', ''StandaloneService'')] standalone_wsdl_scope
    [TextNode (nl 0 @ nl 2),
     elt (Some WSDL_NS) ''types'' [] standalone_wsdl_scope
     [ws 4, elt (Some XSD_NS) ''schema'' [(''targetNamespace'', ''http://example.com/standalone'')] standalone_wsdl_scope
      [ws 6, elt (Some XSD_NS) ''complexType'' [(''name'', ''StandaloneType'')] standalone_wsdl_scope
       [ws 8, elt (Some XSD_NS) ''sequence'' [] standalone_wsdl_scope
        [ws 10, elt (Some XSD_NS) ''element'' [(''name'', ''field1''), (''type'', ''xs:string'')] standalone_wsdl_scope [],
         ws 10, elt (Some XSD_NS) ''element'' [(''name'', ''field2''), (''type'', ''xs:int'')] standalone_wsdl_scope [],
         ws 8],
        ws 6],
       ws 4],
      ws 2],
     TextNode (nl 0 @ nl 2),
     elt (Some WSDL_NS) ''message'' [(''name'', ''Req'')] standalone_wsdl_scope
     [elt (Some WSDL_NS) ''part'' [(''name'', ''p''), (''element'', ''tns:StandaloneElem'')] standalone_wsdl_scope []],
     ws 2, elt (Some WSDL_NS) ''portType'' [(''name'', ''StandalonePT'')] standalone_wsdl_scope
     [ws 4, elt (Some WSDL_NS) ''operation'' [(''name'', ''StandaloneOp'')] standalone_wsdl_scope
      [ws 6, elt (Some WSDL_NS) ''input'' [(''message'', ''tns:Req'')] standalone_wsdl_scope [],
       ws 4],
      ws 2],
     ws 2, elt (Some WSDL_NS) ''binding'' [(''name'', ''StandaloneBinding''), (''type'', ''tns:StandalonePT'')] standalone_wsdl_scope
     [ws 4, elt (Some SOAP12_BINDING_NS) ''binding'' [(''style'', ''document''), (''transport'', ''http://schemas.xmlsoap.org/soap/http'')] standalone_wsdl_scope [],
      ws 4, elt (Some WSDL_NS) ''operation'' [(''name'', ''StandaloneOp'')] standalone_wsdl_scope
      [ws 6, elt (Some SOAP12_BINDING_NS) ''operation'' [(''soapAction'', ''http://example.com/StandaloneOp'')] standalone_wsdl_scope [],
       ws 6, elt (Some WSDL_NS) ''input'' [] standalone_wsdl_scope
       [elt (Some SOAP12_BINDING_NS) ''body'' [(''use'', ''literal'')] standalone_wsdl_scope []],
       ws 6, elt (Some WSDL_NS) ''output'' [] standalone_wsdl_scope
       [elt (Some SOAP12_BINDING_NS) ''body'' [(''use'', ''literal'')] standalone_wsdl_scope []],
       ws 4],
      ws 2],
     ws 2, elt (Some WSDL_NS) ''service'' [(''name'', ''StandaloneService'')] standalone_wsdl_scope
     [ws 4, elt (Some WSDL_NS) ''port'' [(''name'', ''StandalonePort''), (''binding'', ''tns:StandaloneBinding'')] standalone_wsdl_scope
      [ws 6, elt (Some SOAP12_BINDING_NS) ''address'' [(''location'', ''http://old-server/soap'')] standalone_wsdl_scope [],
       ws 4],
      ws 2],
     ws 0]"

definition diamond_a_wsdl_scope :: "(string option \<times> string) list" where
  "diamond_a_wsdl_scope = [(None, WSDL_NS), (Some ''tns'', ''http://example.com/a'')]"

definition DIAMOND_A_WSDL :: xnode where
  "DIAMOND_A_WSDL =
    elt (Some WSDL_NS) ''definitions'' [(''targetNamespace'', ''http://example.com/a'')] diamond_a_wsdl_scope
    [ws 2, elt (Some WSDL_NS) ''import'' [(''namespace'', ''http://example.com/b''), (''location'', ''b.wsdl'')] diamond_a_wsdl_scope [],
     ws 2, elt (Some WSDL_NS) ''import'' [(''namespace'', ''http://example.com/c''), (''location'', ''c.wsdl'')] diamond_a_wsdl_scope [],
     ws 2, elt (Some WSDL_NS) ''types'' [] diamond_a_wsdl_scope
     [ws 4, elt (Some XSD_NS) ''schema'' [(''targetNamespace'', ''http://example.com/a'')] ([(Some ''xs'', XSD_NS)] @ diamond_a_wsdl_scope)
      [ws 6, elt (Some XSD_NS) ''complexType'' [(''name'', ''AType'')] ([(Some ''xs'', XSD_NS)] @ diamond_a_wsdl_scope)
       [elt (Some XSD_NS) ''sequence'' [] ([(Some ''xs'', XSD_NS)] @ diamond_a_wsdl_scope) []],
       ws 4],
      ws 2],
     ws 0]"

definition diamond_b_wsdl_scope :: "(string option \<times> string) list" where
  "diamond_b_wsdl_scope = [(None, WSDL_NS), (Some ''tns'', ''http://example.com/b'')]"

definition DIAMOND_B_WSDL :: xnode where
  "DIAMOND_B_WSDL =
    elt (Some WSDL_NS) ''definitions'' [(''targetNamespace'', ''http://example.com/b'')] diamond_b_wsdl_scope
    [ws 2, elt (Some WSDL_NS) ''import'' [(''namespace'', ''http://example.com/d''), (''location'', ''d.wsdl'')] diamond_b_wsdl_scope [],
     ws 2, elt (Some WSDL_NS) ''types'' [] diamond_b_wsdl_scope
     [ws 4, elt (Some XSD_NS) ''schema'' [(''targetNamespace'', ''http://example.com/b'')] ([(Some ''xs'', XSD_NS)] @ diamond_b_wsdl_scope)
      [ws 6, elt (Some XSD_NS) ''complexType'' [(''name'', ''BType'')] ([(Some ''xs'', XSD_NS)] @ diamond_b_wsdl_scope)
       [elt (Some XSD_NS) ''sequence'' [] ([(Some ''xs'', XSD_NS)] @ diamond_b_wsdl_scope) []],
       ws 4],
      ws 2],
     ws 0]"

definition diamond_c_wsdl_scope :: "(string option \<times> string) list" where
  "diamond_c_wsdl_scope = [(None, WSDL_NS), (Some ''tns'', ''http://example.com/c'')]"

definition DIAMOND_C_WSDL :: xnode where
  "DIAMOND_C_WSDL =
    elt (Some WSDL_NS) ''definitions'' [(''targetNamespace'', ''http://example.com/c'')] diamond_c_wsdl_scope
    [ws 2, elt (Some WSDL_NS) ''import'' [(''namespace'', ''http://example.com/d''), (''location'', ''d.wsdl'')] diamond_c_wsdl_scope [],
     ws 2, elt (Some WSDL_NS) ''types'' [] diamond_c_wsdl_scope
     [ws 4, elt (Some XSD_NS) ''schema'' [(''targetNamespace'', ''http://example.com/c'')] ([(Some ''xs'', XSD_NS)] @ diamond_c_wsdl_scope)
      [ws 6, elt (Some XSD_NS) ''complexType'' [(''name'', ''CType'')] ([(Some ''xs'', XSD_NS)] @ diamond_c_wsdl_scope)
       [elt (Some XSD_NS) ''sequence'' [] ([(Some ''xs'', XSD_NS)] @ diamond_c_wsdl_scope) []],
       ws 4],
      ws 2],
     ws 0]"

definition diamond_d_wsdl_scope :: "(string option \<times> string) list" where
  "diamond_d_wsdl_scope = [(None, WSDL_NS), (Some ''tns'', ''http://example.com/d'')]"

definition DIAMOND_D_WSDL :: xnode where
  "DIAMOND_D_WSDL =
    elt (Some WSDL_NS) ''definitions'' [(''targetNamespace'', ''http://example.com/d'')] diamond_d_wsdl_scope
    [ws 2, elt (Some WSDL_NS) ''types'' [] diamond_d_wsdl_scope
     [ws 4, elt (Some XSD_NS) ''schema'' [(''targetNamespace'', ''http://example.com/d'')] ([(Some ''xs'', XSD_NS)] @ diamond_d_wsdl_scope)
      [ws 6, elt (Some XSD_NS) ''complexType'' [(''name'', ''DType'')] ([(Some ''xs'', XSD_NS)] @ diamond_d_wsdl_scope)
       [elt (Some XSD_NS) ''sequence'' [] ([(Some ''xs'', XSD_NS)] @ diamond_d_wsdl_scope) []],
       ws 4],
      ws 2],
     ws 0]"

definition cycle_b_scope :: "(string option \<times> string) list" where
  "cycle_b_scope = [(None, WSDL_NS), (Some ''tns'', ''http://example.com/b'')]"

definition cycle_b_wsdl :: xnode where
  "cycle_b_wsdl =
    elt (Some WSDL_NS) ''definitions'' [(''targetNamespace'', ''http://example.com/b'')] cycle_b_scope
    [ws 2, elt (Some WSDL_NS) ''import'' [(''namespace'', ''http://example.com/a''), (''location'', ''a.wsdl'')] cycle_b_scope [],
     ws 0]"

definition cycle_a_scope :: "(string option \<times> string) list" where
  "cycle_a_scope = [(None, WSDL_NS), (Some ''tns'', ''http://example.com/a'')]"

definition cycle_a_wsdl :: xnode where
  "cycle_a_wsdl =
    elt (Some WSDL_NS) ''definitions'' [(''targetNamespace'', ''http://example.com/a'')] cycle_a_scope
    [ws 2, elt (Some WSDL_NS) ''import'' [(''namespace'', ''http://example.com/b''), (''location'', ''b.wsdl'')] cycle_a_scope [],
     ws 0]"

section \<open>Loaders\<close>

definition null_wsdl_loader :: wsdl_loader where
  "null_wsdl_loader location = Inl (MalformedXml (''NullWsdlLoader cannot load: '' @ location))"

definition two_file_loader :: wsdl_loader where
  "two_file_loader location =
     (if location = ''imported.wsdl'' then Inr ''IMPORTED_WSDL''
      else Inl (MalformedXml (''Unknown location: '' @ location)))"

definition diamond_wsdl_loader :: wsdl_loader where
  "diamond_wsdl_loader location =
     (if location = ''b.wsdl'' then Inr ''DIAMOND_B_WSDL''
      else if location = ''c.wsdl'' then Inr ''DIAMOND_C_WSDL''
      else if location = ''d.wsdl'' then Inr ''DIAMOND_D_WSDL''
      else Inl (MalformedXml (''Unknown: '' @ location)))"

definition cycle_loader :: wsdl_loader where
  "cycle_loader location =
     (if location = ''b.wsdl'' then Inr ''cycle_b_wsdl''
      else Inl (MalformedXml (''Unknown: '' @ location)))"

text \<open>The tree reader on the documents, and on the inline schemas that are written back to text.\<close>

definition inline_schemas :: "xnode \<Rightarrow> (string \<times> xnode) list" where
  "inline_schemas root =
     map (\<lambda>n. (node_to_string n, n))
       (concat (map element_children (filter (\<lambda>c. node_name c = ''types'') (element_children root))))"

definition wsdl_trees :: "(string \<times> xnode) list \<Rightarrow> string \<Rightarrow> string + xnode" where
  "wsdl_trees ds t =
     (case map_of ds t of
        Some n \<Rightarrow> Inr n
      | None \<Rightarrow> known_trees (concat (map (\<lambda>(_, n). inline_schemas n) ds)) t)"

definition root_trees :: "string \<Rightarrow> string + xnode" where
  "root_trees t = wsdl_trees [(''ROOT_WSDL'', ROOT_WSDL), (''IMPORTED_WSDL'', IMPORTED_WSDL)] t"

definition standalone_trees :: "string \<Rightarrow> string + xnode" where
  "standalone_trees t = wsdl_trees [(''STANDALONE_WSDL'', STANDALONE_WSDL)] t"

definition diamond_trees :: "string \<Rightarrow> string + xnode" where
  "diamond_trees t = wsdl_trees [(''DIAMOND_A_WSDL'', DIAMOND_A_WSDL), (''DIAMOND_B_WSDL'', DIAMOND_B_WSDL),
     (''DIAMOND_C_WSDL'', DIAMOND_C_WSDL), (''DIAMOND_D_WSDL'', DIAMOND_D_WSDL)] t"

definition cycle_trees :: "string \<Rightarrow> string + xnode" where
  "cycle_trees t = wsdl_trees [(''cycle_a_wsdl'', cycle_a_wsdl), (''cycle_b_wsdl'', cycle_b_wsdl)] t"

definition resolved_ok :: "(resolved_wsdl \<times> string set) wres \<Rightarrow> (resolved_wsdl \<Rightarrow> string set \<Rightarrow> bool) \<Rightarrow> bool" where
  "resolved_ok r k = (case r of Some (Inr (resolved, vis)) \<Rightarrow> k resolved vis | _ \<Rightarrow> False)"

text \<open>Assertions on one document are evaluated on one run of the resolver.\<close>

lemma resolved_ok_conj: "resolved_ok r j \<and> resolved_ok r k \<longleftrightarrow> resolved_ok r (\<lambda>rw v. j rw v \<and> k rw v)"
  by (auto simp: resolved_ok_def split: option.splits sum.splits)

section \<open>Resolving\<close>

definition two_file_wsdl_merges_operations :: bool where
  "two_file_wsdl_merges_operations \<longleftrightarrow>
     resolved_ok (resolve_wsdl root_trees two_file_loader ''ROOT_WSDL'' {}) (\<lambda>resolved _.
       hm_get (messages (rw_definition resolved)) ''RootMsg'' \<noteq> None \<and>
       hm_get (messages (rw_definition resolved)) ''ImportedMsg'' \<noteq> None \<and>
       hm_get (port_types (rw_definition resolved)) ''ImportedPT'' \<noteq> None)"

definition standalone_wsdl_resolves_inline_schema :: bool where
  "standalone_wsdl_resolves_inline_schema \<longleftrightarrow>
     resolved_ok (resolve_wsdl standalone_trees null_wsdl_loader ''STANDALONE_WSDL'' {}) (\<lambda>resolved _.
       registry_lookup (rw_type_registry resolved) (qname_new ''http://example.com/standalone'' ''StandaloneType'') \<noteq> None)"

text \<open>
  The loader is a function and counts nothing; a location is put into the visited set just before
  it is loaded, so the loads are counted by that set.
\<close>

definition diamond_import_loads_d_once :: bool where
  "diamond_import_loads_d_once \<longleftrightarrow>
     resolved_ok (resolve_wsdl diamond_trees diamond_wsdl_loader ''DIAMOND_A_WSDL'' {}) (\<lambda>_ vis. card vis = 3)"

definition diamond_import_types_deduplicated_in_registry :: bool where
  "diamond_import_types_deduplicated_in_registry \<longleftrightarrow>
     resolved_ok (resolve_wsdl diamond_trees diamond_wsdl_loader ''DIAMOND_A_WSDL'' {}) (\<lambda>resolved _.
       registry_lookup (rw_type_registry resolved) (qname_new ''http://example.com/d'' ''DType'') \<noteq> None)"

definition cycle_import_returns_err_without_stack_overflow :: bool where
  "cycle_import_returns_err_without_stack_overflow \<longleftrightarrow>
     resolved_ok (resolve_wsdl cycle_trees
       cycle_loader ''cycle_a_wsdl'' {''a.wsdl''}) (\<lambda>_ _. True)"

definition raw_bytes_preserved_in_resolved_wsdl :: bool where
  "raw_bytes_preserved_in_resolved_wsdl \<longleftrightarrow>
     resolved_ok (resolve_wsdl standalone_trees null_wsdl_loader ''STANDALONE_WSDL'' {}) (\<lambda>resolved _. rw_raw_bytes resolved = ''STANDALONE_WSDL'')"

definition resolve_wsdl_no_imports_succeeds :: bool where
  "resolve_wsdl_no_imports_succeeds \<longleftrightarrow>
     resolved_ok (resolve_wsdl standalone_trees null_wsdl_loader ''STANDALONE_WSDL'' {}) (\<lambda>_ _. True)"

section \<open>Rewriting\<close>

definition ROOT_WSDL_items :: reader where
  "ROOT_WSDL_items =
     Inr (Unbound, EvDecl (''xml version='' @ [CHR 0x22] @ ''1.0'' @ [CHR 0x22] @ '' encoding='' @ [CHR 0x22] @ ''UTF-8'' @ [CHR 0x22])) #
     all_events
    [XText (nl 0),
     XElem (Bound WSDL_NS) ''definitions'' [(''xmlns'', WSDL_NS), (''xmlns:soap12'', SOAP12_BINDING_NS), (''xmlns:tns'', ''http://example.com/root''), (''targetNamespace'', ''http://example.com/root''), (''name'', ''RootService'')]
     [XText (nl 0 @ nl 2),
      XEmpty (Bound WSDL_NS) ''import'' [(''namespace'', ''http://example.com/imported''), (''location'', ''imported.wsdl'')],
      XText (nl 0 @ nl 2),
      XElem (Bound WSDL_NS) ''types'' []
      [XText (nl 4),
       XElem (Bound XSD_NS) ''xs:schema'' [(''xmlns:xs'', XSD_NS), (''targetNamespace'', ''http://example.com/root'')]
       [XText (nl 6),
        XEmpty (Bound XSD_NS) ''xs:element'' [(''name'', ''RootElement''), (''type'', ''xs:string'')],
        XText (nl 4)],
       XText (nl 2)],
      XText (nl 0 @ nl 2),
      XElem (Bound WSDL_NS) ''message'' [(''name'', ''RootMsg'')]
      [XEmpty (Bound WSDL_NS) ''part'' [(''name'', ''p''), (''element'', ''tns:RootElement'')]],
      XText (nl 0 @ nl 2),
      XElem (Bound WSDL_NS) ''portType'' [(''name'', ''RootPT'')]
      [XText (nl 4),
       XElem (Bound WSDL_NS) ''operation'' [(''name'', ''RootOp'')]
       [XText (nl 6),
        XEmpty (Bound WSDL_NS) ''input'' [(''message'', ''tns:RootMsg'')],
        XText (nl 4)],
       XText (nl 2)],
      XText (nl 0 @ nl 2),
      XElem (Bound WSDL_NS) ''binding'' [(''name'', ''RootBinding''), (''type'', ''tns:RootPT'')]
      [XText (nl 4),
       XEmpty (Bound SOAP12_BINDING_NS) ''soap12:binding'' [(''style'', ''document''), (''transport'', ''http://schemas.xmlsoap.org/soap/http'')],
       XText (nl 4),
       XElem (Bound WSDL_NS) ''operation'' [(''name'', ''RootOp'')]
       [XText (nl 6),
        XEmpty (Bound SOAP12_BINDING_NS) ''soap12:operation'' [(''soapAction'', ''http://example.com/RootOp'')],
        XText (nl 6),
        XElem (Bound WSDL_NS) ''input'' []
        [XEmpty (Bound SOAP12_BINDING_NS) ''soap12:body'' [(''use'', ''literal'')]],
        XText (nl 6),
        XElem (Bound WSDL_NS) ''output'' []
        [XEmpty (Bound SOAP12_BINDING_NS) ''soap12:body'' [(''use'', ''literal'')]],
        XText (nl 4)],
       XText (nl 2)],
      XText (nl 0 @ nl 2),
      XElem (Bound WSDL_NS) ''service'' [(''name'', ''RootService'')]
      [XText (nl 4),
       XElem (Bound WSDL_NS) ''port'' [(''name'', ''RootPort''), (''binding'', ''tns:RootBinding'')]
       [XText (nl 6),
        XEmpty (Bound SOAP12_BINDING_NS) ''soap12:address'' [(''location'', ''http://old-server/soap'')],
        XText (nl 4)],
       XText (nl 2)],
      XText (nl 0)]]"

definition WSDL_WITH_SOAP11_ADDRESS_items :: reader where
  "WSDL_WITH_SOAP11_ADDRESS_items =
     Inr (Unbound, EvDecl (''xml version='' @ [CHR 0x22] @ ''1.0'' @ [CHR 0x22])) #
     all_events
    [XText (nl 0),
     XElem (Bound WSDL_NS) ''definitions'' [(''xmlns'', WSDL_NS), (''xmlns:soap'', SOAP11_BINDING_NS), (''xmlns:tns'', ''http://example.com/svc''), (''targetNamespace'', ''http://example.com/svc'')]
     [XText (nl 2),
      XElem (Bound WSDL_NS) ''service'' [(''name'', ''Svc'')]
      [XText (nl 4),
       XElem (Bound WSDL_NS) ''port'' [(''name'', ''SvcPort''), (''binding'', ''tns:B'')]
       [XText (nl 6),
        XEmpty (Bound SOAP11_BINDING_NS) ''soap:address'' [(''location'', ''http://old-server/soap'')],
        XText (nl 4)],
       XText (nl 2)],
      XText (nl 0)]]"

definition MULTI_SERVICE_WSDL_items :: reader where
  "MULTI_SERVICE_WSDL_items =
     Inr (Unbound, EvDecl (''xml version='' @ [CHR 0x22] @ ''1.0'' @ [CHR 0x22] @ '' encoding='' @ [CHR 0x22] @ ''UTF-8'' @ [CHR 0x22])) #
     all_events
    [XText (nl 0),
     XElem (Bound WSDL_NS) ''definitions'' [(''xmlns'', WSDL_NS), (''xmlns:soap12'', SOAP12_BINDING_NS), (''xmlns:tns'', ''http://example.com/multi''), (''targetNamespace'', ''http://example.com/multi'')]
     [XText (nl 2),
      XElem (Bound WSDL_NS) ''service'' [(''name'', ''ServiceA'')]
      [XText (nl 4),
       XElem (Bound WSDL_NS) ''port'' [(''name'', ''PortA''), (''binding'', ''tns:BindingA'')]
       [XText (nl 6),
        XEmpty (Bound SOAP12_BINDING_NS) ''soap12:address'' [(''location'', ''http://old-server/soap/a'')],
        XText (nl 4)],
       XText (nl 2)],
      XText (nl 2),
      XElem (Bound WSDL_NS) ''service'' [(''name'', ''ServiceB'')]
      [XText (nl 4),
       XElem (Bound WSDL_NS) ''port'' [(''name'', ''PortB''), (''binding'', ''tns:BindingB'')]
       [XText (nl 6),
        XEmpty (Bound SOAP12_BINDING_NS) ''soap12:address'' [(''location'', ''http://old-server/soap/b'')],
        XText (nl 4)],
       XText (nl 2)],
      XText (nl 0)]]"

definition rewritten_text :: "reader \<Rightarrow> string \<Rightarrow> bytes" where
  "rewritten_text doc url = rewrite_wsdl_address (\<lambda>_ _. doc) events_text xml_escape ''doc'' url"

definition rewritten_for :: "reader \<Rightarrow> string \<Rightarrow> string \<Rightarrow> bytes" where
  "rewritten_for doc url svc = rewrite_wsdl_address_for_service (\<lambda>_ _. doc) events_text xml_escape ''doc'' url svc"

lemma rewritten_contains:
  "str_contains p (rewritten_text doc url) = contains_events p (rewrite_loop xml_escape url doc)"
  "str_contains p (rewritten_for doc url svc) = contains_events p
     (if svc = [] then rewrite_loop xml_escape url doc
      else service_rewrite_loop xml_escape url (target_port_names svc doc) doc (False, 0))"
  by (simp_all add: rewritten_text_def rewritten_for_def rewrite_wsdl_address_def
      rewrite_wsdl_address_for_service_def str_contains_events_text Let_def)

definition rewrite_wsdl_address_replaces_location_soap12 :: bool where
  "rewrite_wsdl_address_replaces_location_soap12 \<longleftrightarrow>
     (let text = rewritten_text ROOT_WSDL_items ''http://new-server/soap'' in
       str_contains ''http://new-server/soap'' text \<and>
       \<not> str_contains ''http://old-server/soap'' text)"

definition rewrite_wsdl_address_replaces_location_soap11 :: bool where
  "rewrite_wsdl_address_replaces_location_soap11 \<longleftrightarrow>
     (let text = rewritten_text WSDL_WITH_SOAP11_ADDRESS_items ''http://new-server/soap'' in
       str_contains ''http://new-server/soap'' text \<and>
       \<not> str_contains ''http://old-server/soap'' text)"

definition rewrite_wsdl_address_preserves_other_content :: bool where
  "rewrite_wsdl_address_preserves_other_content \<longleftrightarrow>
     (let text = rewritten_text ROOT_WSDL_items ''http://new-server/soap'' in
       str_contains ''RootService'' text \<and>
       str_contains ''RootPort'' text \<and>
       str_contains ''RootBinding'' text)"

definition rewrite_wsdl_address_for_service_only_rewrites_matched_service :: bool where
  "rewrite_wsdl_address_for_service_only_rewrites_matched_service \<longleftrightarrow>
     (let text = rewritten_for MULTI_SERVICE_WSDL_items ''http://new-server/soap/a'' ''ServiceA'' in
       str_contains ''http://new-server/soap/a'' text \<and>
       str_contains ''http://old-server/soap/b'' text \<and>
       \<not> str_contains ''http://old-server/soap/a'' text)"

definition rewrite_wsdl_address_for_service_b_leaves_a_unchanged :: bool where
  "rewrite_wsdl_address_for_service_b_leaves_a_unchanged \<longleftrightarrow>
     (let text = rewritten_for MULTI_SERVICE_WSDL_items ''http://new-server/soap/b'' ''ServiceB'' in
       str_contains ''http://new-server/soap/b'' text \<and>
       str_contains ''http://old-server/soap/a'' text)"

definition rewrite_wsdl_address_for_service_empty_name_rewrites_all :: bool where
  "rewrite_wsdl_address_for_service_empty_name_rewrites_all \<longleftrightarrow>
     (let text = rewritten_for MULTI_SERVICE_WSDL_items ''http://new-server/soap'' [] in
       \<not> str_contains ''http://old-server/soap/a'' text \<and>
       \<not> str_contains ''http://old-server/soap/b'' text)"

section \<open>The tests pass\<close>

lemma standalone_tests_pass:
  "standalone_wsdl_resolves_inline_schema \<and>
   raw_bytes_preserved_in_resolved_wsdl \<and>
   resolve_wsdl_no_imports_succeeds"
  unfolding standalone_wsdl_resolves_inline_schema_def
    raw_bytes_preserved_in_resolved_wsdl_def
    resolve_wsdl_no_imports_succeeds_def resolved_ok_conj
  by code_simp

lemma diamond_tests_pass:
  "diamond_import_loads_d_once \<and>
   diamond_import_types_deduplicated_in_registry"
  unfolding diamond_import_loads_d_once_def
    diamond_import_types_deduplicated_in_registry_def resolved_ok_conj
  by code_simp

lemma two_file_wsdl_merges_operations_passes: two_file_wsdl_merges_operations
  by code_simp

lemma cycle_import_returns_err_without_stack_overflow_passes: cycle_import_returns_err_without_stack_overflow
  by code_simp

lemma rewrite_wsdl_address_replaces_location_soap12_passes: rewrite_wsdl_address_replaces_location_soap12
  unfolding rewrite_wsdl_address_replaces_location_soap12_def Let_def rewritten_contains by code_simp

lemma rewrite_wsdl_address_replaces_location_soap11_passes: rewrite_wsdl_address_replaces_location_soap11
  unfolding rewrite_wsdl_address_replaces_location_soap11_def Let_def rewritten_contains by code_simp

lemma rewrite_wsdl_address_preserves_other_content_passes: rewrite_wsdl_address_preserves_other_content
  unfolding rewrite_wsdl_address_preserves_other_content_def Let_def rewritten_contains by code_simp

lemma rewrite_wsdl_address_for_service_only_rewrites_matched_service_passes: rewrite_wsdl_address_for_service_only_rewrites_matched_service
  unfolding rewrite_wsdl_address_for_service_only_rewrites_matched_service_def Let_def rewritten_contains by code_simp

lemma rewrite_wsdl_address_for_service_b_leaves_a_unchanged_passes: rewrite_wsdl_address_for_service_b_leaves_a_unchanged
  unfolding rewrite_wsdl_address_for_service_b_leaves_a_unchanged_def Let_def rewritten_contains by code_simp

lemma rewrite_wsdl_address_for_service_empty_name_rewrites_all_passes: rewrite_wsdl_address_for_service_empty_name_rewrites_all
  unfolding rewrite_wsdl_address_for_service_empty_name_rewrites_all_def Let_def rewritten_contains by code_simp

end
