(* ===== verification/ValidationTests.thy ===== *)
theory ValidationTests
  imports DispatchTests ResolverTests
begin

text \<open>
  The unit tests of \<open>dispatch.rs\<close> that validate request bodies, the last two of them from the text of a
  WSDL on. Bodies are the events that the reader yields for them.
\<close>

section \<open>Validation\<close>

text \<open>An element with a name and a lower bound, the rest by default.\<close>

definition element_named :: "string \<Rightarrow> nat \<Rightarrow> xsd_element" where
  "element_named n lower = XsdElement (Some n) None None lower (Bounded 1) False None None None"

definition make_type_registry_with_required_field :: "qname \<Rightarrow> string \<Rightarrow> type_registry" where
  "make_type_registry_with_required_field type_qname required_field =
     registry_insert type_qname
       (Complex (ComplexType (Some (local_name type_qname)) (Sequence [element_named required_field 1]) []))
       registry_new"

definition profiles_request :: qname where
  "profiles_request = qname_new ''http://example.com'' ''GetProfilesRequest''"

definition validated :: "reader \<Rightarrow> type_registry \<Rightarrow> qname option \<Rightarrow> soap_fault + unit" where
  "validated body reg ty = validate_request (\<lambda>_ _. body) ''body'' reg ty"

definition empty_profiles :: reader where
  "empty_profiles = all_events [XEmpty Unbound ''GetProfiles'' []]"

definition token_profiles :: reader where
  "token_profiles = all_events [XElem (Bound ''http://example.com'') ''GetProfiles'' [(''xmlns'', ''http://example.com'')]
     [XElem (Bound ''http://example.com'') ''Token'' []
      [XText ''1234'']]]"

definition no_token_profiles :: reader where
  "no_token_profiles = all_events [XElem (Bound ''http://example.com'') ''GetProfiles'' [(''xmlns'', ''http://example.com'')]
     []]"

definition validate_request_no_input_type_returns_ok :: bool where
  "validate_request_no_input_type_returns_ok \<longleftrightarrow>
     unwrapped (validated empty_profiles registry_new None) (\<lambda>_. True)"

definition validate_request_unknown_type_in_registry_returns_ok :: bool where
  "validate_request_unknown_type_in_registry_returns_ok \<longleftrightarrow>
     unwrapped (validated empty_profiles registry_new (Some profiles_request)) (\<lambda>_. True)"

definition validate_request_valid_xml_with_required_element_returns_ok :: bool where
  "validate_request_valid_xml_with_required_element_returns_ok \<longleftrightarrow>
     unwrapped (validated token_profiles (make_type_registry_with_required_field profiles_request ''Token'') (Some profiles_request)) (\<lambda>_. True)"

definition validate_request_missing_required_element_returns_sender_fault :: bool where
  "validate_request_missing_required_element_returns_sender_fault \<longleftrightarrow>
     failed (validated no_token_profiles (make_type_registry_with_required_field profiles_request ''Token'') (Some profiles_request)) (\<lambda>fault.
       code fault = Sender \<and> str_contains ''Schema validation failed'' (reason fault) \<and>
       str_contains ''Token'' (reason fault))"

definition validate_request_optional_element_missing_returns_ok :: bool where
  "validate_request_optional_element_missing_returns_ok \<longleftrightarrow>
     (let ct = ComplexType (Some ''GetProfilesRequest'') (Sequence [element_named ''OptionalField'' 0]) [];
          reg = registry_insert profiles_request (Complex ct) registry_new
      in unwrapped (validated no_token_profiles reg (Some profiles_request)) (\<lambda>_. True))"

section \<open>From the WSDL to the validation\<close>

definition inline_element_scope :: "(string option \<times> string) list" where
  "inline_element_scope = [(None, WSDL_NS), (Some ''soap12'', SOAP12_BINDING_NS), (Some ''tns'', ''http://example.com/svc''), (Some ''xs'', XSD_NS)]"

definition INLINE_ELEMENT_WSDL :: xnode where
  "INLINE_ELEMENT_WSDL =
    elt (Some WSDL_NS) ''definitions'' [(''targetNamespace'', ''http://example.com/svc'')] inline_element_scope
    [ws 2, elt (Some WSDL_NS) ''types'' [] inline_element_scope
     [ws 4, elt (Some XSD_NS) ''schema'' [(''targetNamespace'', ''http://example.com/svc'')] ([(Some ''xs'', ''http://www.w3.org/2001/XMLSchema''), (None, ''http://schemas.xmlsoap.org/wsdl/''), (Some ''soap12'', ''http://schemas.xmlsoap.org/wsdl/soap12/''), (Some ''tns'', ''http://example.com/svc'')])
      [ws 6, elt (Some XSD_NS) ''element'' [(''name'', ''GetFoo'')] ([(Some ''xs'', ''http://www.w3.org/2001/XMLSchema''), (None, ''http://schemas.xmlsoap.org/wsdl/''), (Some ''soap12'', ''http://schemas.xmlsoap.org/wsdl/soap12/''), (Some ''tns'', ''http://example.com/svc'')])
       [ws 8, elt (Some XSD_NS) ''complexType'' [] ([(Some ''xs'', ''http://www.w3.org/2001/XMLSchema''), (None, ''http://schemas.xmlsoap.org/wsdl/''), (Some ''soap12'', ''http://schemas.xmlsoap.org/wsdl/soap12/''), (Some ''tns'', ''http://example.com/svc'')])
        [ws 10, elt (Some XSD_NS) ''sequence'' [] ([(Some ''xs'', ''http://www.w3.org/2001/XMLSchema''), (None, ''http://schemas.xmlsoap.org/wsdl/''), (Some ''soap12'', ''http://schemas.xmlsoap.org/wsdl/soap12/''), (Some ''tns'', ''http://example.com/svc'')])
         [ws 12, elt (Some XSD_NS) ''element'' [(''name'', ''RequiredField''), (''type'', ''xs:string''), (''minOccurs'', ''1'')] ([(Some ''xs'', ''http://www.w3.org/2001/XMLSchema''), (None, ''http://schemas.xmlsoap.org/wsdl/''), (Some ''soap12'', ''http://schemas.xmlsoap.org/wsdl/soap12/''), (Some ''tns'', ''http://example.com/svc'')]) [],
          ws 12, elt (Some XSD_NS) ''element'' [(''name'', ''OptionalField''), (''type'', ''xs:string''), (''minOccurs'', ''0'')] ([(Some ''xs'', ''http://www.w3.org/2001/XMLSchema''), (None, ''http://schemas.xmlsoap.org/wsdl/''), (Some ''soap12'', ''http://schemas.xmlsoap.org/wsdl/soap12/''), (Some ''tns'', ''http://example.com/svc'')]) [],
          ws 10],
         ws 8],
        ws 6],
       ws 6, elt (Some XSD_NS) ''element'' [(''name'', ''GetFooResponse'')] ([(Some ''xs'', ''http://www.w3.org/2001/XMLSchema''), (None, ''http://schemas.xmlsoap.org/wsdl/''), (Some ''soap12'', ''http://schemas.xmlsoap.org/wsdl/soap12/''), (Some ''tns'', ''http://example.com/svc'')])
       [ws 8, elt (Some XSD_NS) ''complexType'' [] ([(Some ''xs'', ''http://www.w3.org/2001/XMLSchema''), (None, ''http://schemas.xmlsoap.org/wsdl/''), (Some ''soap12'', ''http://schemas.xmlsoap.org/wsdl/soap12/''), (Some ''tns'', ''http://example.com/svc'')])
        [elt (Some XSD_NS) ''sequence'' [] ([(Some ''xs'', ''http://www.w3.org/2001/XMLSchema''), (None, ''http://schemas.xmlsoap.org/wsdl/''), (Some ''soap12'', ''http://schemas.xmlsoap.org/wsdl/soap12/''), (Some ''tns'', ''http://example.com/svc'')]) []],
        ws 6],
       ws 4],
      ws 2],
     ws 2, elt (Some WSDL_NS) ''message'' [(''name'', ''GetFooRequest'')] inline_element_scope
     [elt (Some WSDL_NS) ''part'' [(''name'', ''parameters''), (''element'', ''tns:GetFoo'')] inline_element_scope []],
     ws 2, elt (Some WSDL_NS) ''message'' [(''name'', ''GetFooResponse'')] inline_element_scope
     [elt (Some WSDL_NS) ''part'' [(''name'', ''parameters''), (''element'', ''tns:GetFooResponse'')] inline_element_scope []],
     ws 2, elt (Some WSDL_NS) ''portType'' [(''name'', ''SvcPortType'')] inline_element_scope
     [ws 4, elt (Some WSDL_NS) ''operation'' [(''name'', ''GetFoo'')] inline_element_scope
      [ws 6, elt (Some WSDL_NS) ''input'' [(''message'', ''tns:GetFooRequest'')] inline_element_scope [],
       ws 6, elt (Some WSDL_NS) ''output'' [(''message'', ''tns:GetFooResponse'')] inline_element_scope [],
       ws 4],
      ws 2],
     ws 2, elt (Some WSDL_NS) ''binding'' [(''name'', ''SvcBinding''), (''type'', ''tns:SvcPortType'')] inline_element_scope
     [ws 4, elt (Some SOAP12_BINDING_NS) ''binding'' [(''style'', ''document''), (''transport'', ''http://schemas.xmlsoap.org/soap/http'')] inline_element_scope [],
      ws 4, elt (Some WSDL_NS) ''operation'' [(''name'', ''GetFoo'')] inline_element_scope
      [ws 6, elt (Some SOAP12_BINDING_NS) ''operation'' [(''soapAction'', ''urn:GetFoo'')] inline_element_scope [],
       ws 6, elt (Some WSDL_NS) ''input'' [] inline_element_scope
       [elt (Some SOAP12_BINDING_NS) ''body'' [(''use'', ''literal'')] inline_element_scope []],
       ws 6, elt (Some WSDL_NS) ''output'' [] inline_element_scope
       [elt (Some SOAP12_BINDING_NS) ''body'' [(''use'', ''literal'')] inline_element_scope []],
       ws 4],
      ws 2],
     ws 2, elt (Some WSDL_NS) ''service'' [(''name'', ''SvcService'')] inline_element_scope
     [ws 4, elt (Some WSDL_NS) ''port'' [(''name'', ''SvcPort''), (''binding'', ''tns:SvcBinding'')] inline_element_scope
      [ws 6, elt (Some SOAP12_BINDING_NS) ''address'' [(''location'', ''http://localhost/svc'')] inline_element_scope [],
       ws 4],
      ws 2],
     ws 0]"

definition named_type_ref_scope :: "(string option \<times> string) list" where
  "named_type_ref_scope = [(None, WSDL_NS), (Some ''soap12'', SOAP12_BINDING_NS), (Some ''tns'', ''http://example.com/svc''), (Some ''xs'', XSD_NS)]"

definition NAMED_TYPE_REF_WSDL :: xnode where
  "NAMED_TYPE_REF_WSDL =
    elt (Some WSDL_NS) ''definitions'' [(''targetNamespace'', ''http://example.com/svc'')] named_type_ref_scope
    [ws 2, elt (Some WSDL_NS) ''types'' [] named_type_ref_scope
     [ws 4, elt (Some XSD_NS) ''schema'' [(''targetNamespace'', ''http://example.com/svc'')] ([(Some ''xs'', ''http://www.w3.org/2001/XMLSchema''), (None, ''http://schemas.xmlsoap.org/wsdl/''), (Some ''soap12'', ''http://schemas.xmlsoap.org/wsdl/soap12/''), (Some ''tns'', ''http://example.com/svc'')])
      [ws 6, elt (Some XSD_NS) ''complexType'' [(''name'', ''GetBarType'')] ([(Some ''xs'', ''http://www.w3.org/2001/XMLSchema''), (None, ''http://schemas.xmlsoap.org/wsdl/''), (Some ''soap12'', ''http://schemas.xmlsoap.org/wsdl/soap12/''), (Some ''tns'', ''http://example.com/svc'')])
       [ws 8, elt (Some XSD_NS) ''sequence'' [] ([(Some ''xs'', ''http://www.w3.org/2001/XMLSchema''), (None, ''http://schemas.xmlsoap.org/wsdl/''), (Some ''soap12'', ''http://schemas.xmlsoap.org/wsdl/soap12/''), (Some ''tns'', ''http://example.com/svc'')])
        [ws 10, elt (Some XSD_NS) ''element'' [(''name'', ''BarRequired''), (''type'', ''xs:string''), (''minOccurs'', ''1'')] ([(Some ''xs'', ''http://www.w3.org/2001/XMLSchema''), (None, ''http://schemas.xmlsoap.org/wsdl/''), (Some ''soap12'', ''http://schemas.xmlsoap.org/wsdl/soap12/''), (Some ''tns'', ''http://example.com/svc'')]) [],
         ws 8],
        ws 6],
       ws 6, elt (Some XSD_NS) ''element'' [(''name'', ''GetBar''), (''type'', ''tns:GetBarType'')] ([(Some ''xs'', ''http://www.w3.org/2001/XMLSchema''), (None, ''http://schemas.xmlsoap.org/wsdl/''), (Some ''soap12'', ''http://schemas.xmlsoap.org/wsdl/soap12/''), (Some ''tns'', ''http://example.com/svc'')]) [],
       ws 6, elt (Some XSD_NS) ''element'' [(''name'', ''GetBarResponse'')] ([(Some ''xs'', ''http://www.w3.org/2001/XMLSchema''), (None, ''http://schemas.xmlsoap.org/wsdl/''), (Some ''soap12'', ''http://schemas.xmlsoap.org/wsdl/soap12/''), (Some ''tns'', ''http://example.com/svc'')])
       [ws 8, elt (Some XSD_NS) ''complexType'' [] ([(Some ''xs'', ''http://www.w3.org/2001/XMLSchema''), (None, ''http://schemas.xmlsoap.org/wsdl/''), (Some ''soap12'', ''http://schemas.xmlsoap.org/wsdl/soap12/''), (Some ''tns'', ''http://example.com/svc'')])
        [elt (Some XSD_NS) ''sequence'' [] ([(Some ''xs'', ''http://www.w3.org/2001/XMLSchema''), (None, ''http://schemas.xmlsoap.org/wsdl/''), (Some ''soap12'', ''http://schemas.xmlsoap.org/wsdl/soap12/''), (Some ''tns'', ''http://example.com/svc'')]) []],
        ws 6],
       ws 4],
      ws 2],
     ws 2, elt (Some WSDL_NS) ''message'' [(''name'', ''GetBarRequest'')] named_type_ref_scope
     [elt (Some WSDL_NS) ''part'' [(''name'', ''parameters''), (''element'', ''tns:GetBar'')] named_type_ref_scope []],
     ws 2, elt (Some WSDL_NS) ''message'' [(''name'', ''GetBarResponse'')] named_type_ref_scope
     [elt (Some WSDL_NS) ''part'' [(''name'', ''parameters''), (''element'', ''tns:GetBarResponse'')] named_type_ref_scope []],
     ws 2, elt (Some WSDL_NS) ''portType'' [(''name'', ''SvcPortType'')] named_type_ref_scope
     [ws 4, elt (Some WSDL_NS) ''operation'' [(''name'', ''GetBar'')] named_type_ref_scope
      [ws 6, elt (Some WSDL_NS) ''input'' [(''message'', ''tns:GetBarRequest'')] named_type_ref_scope [],
       ws 6, elt (Some WSDL_NS) ''output'' [(''message'', ''tns:GetBarResponse'')] named_type_ref_scope [],
       ws 4],
      ws 2],
     ws 2, elt (Some WSDL_NS) ''binding'' [(''name'', ''SvcBinding''), (''type'', ''tns:SvcPortType'')] named_type_ref_scope
     [ws 4, elt (Some SOAP12_BINDING_NS) ''binding'' [(''style'', ''document''), (''transport'', ''http://schemas.xmlsoap.org/soap/http'')] named_type_ref_scope [],
      ws 4, elt (Some WSDL_NS) ''operation'' [(''name'', ''GetBar'')] named_type_ref_scope
      [ws 6, elt (Some SOAP12_BINDING_NS) ''operation'' [(''soapAction'', ''urn:GetBar'')] named_type_ref_scope [],
       ws 6, elt (Some WSDL_NS) ''input'' [] named_type_ref_scope
       [elt (Some SOAP12_BINDING_NS) ''body'' [(''use'', ''literal'')] named_type_ref_scope []],
       ws 6, elt (Some WSDL_NS) ''output'' [] named_type_ref_scope
       [elt (Some SOAP12_BINDING_NS) ''body'' [(''use'', ''literal'')] named_type_ref_scope []],
       ws 4],
      ws 2],
     ws 2, elt (Some WSDL_NS) ''service'' [(''name'', ''SvcService'')] named_type_ref_scope
     [ws 4, elt (Some WSDL_NS) ''port'' [(''name'', ''SvcPort''), (''binding'', ''tns:SvcBinding'')] named_type_ref_scope
      [ws 6, elt (Some SOAP12_BINDING_NS) ''address'' [(''location'', ''http://localhost/svc'')] named_type_ref_scope [],
       ws 4],
      ws 2],
     ws 0]"

definition foo_missing :: reader where
  "foo_missing = all_events [XEmpty (Bound ''http://example.com/svc'') ''tns:GetFoo'' [(''xmlns:tns'', ''http://example.com/svc'')]]"

definition foo_ok :: reader where
  "foo_ok = all_events [XElem (Bound ''http://example.com/svc'') ''tns:GetFoo'' [(''xmlns:tns'', ''http://example.com/svc'')]
     [XElem (Bound ''http://example.com/svc'') ''tns:RequiredField'' []
      [XText ''val'']]]"

definition bar_missing :: reader where
  "bar_missing = all_events [XEmpty (Bound ''http://example.com/svc'') ''tns:GetBar'' [(''xmlns:tns'', ''http://example.com/svc'')]]"

definition bar_ok :: reader where
  "bar_ok = all_events [XElem (Bound ''http://example.com/svc'') ''tns:GetBar'' [(''xmlns:tns'', ''http://example.com/svc'')]
     [XElem (Bound ''http://example.com/svc'') ''tns:BarRequired'' []
      [XText ''val'']]]"

text \<open>Resolving a document of the tests, going on with what it resolves to.\<close>

definition inline_element_trees :: "string \<Rightarrow> string + xnode" where
  "inline_element_trees t = wsdl_trees [(''doc'', INLINE_ELEMENT_WSDL)] t"

definition named_type_ref_trees :: "string \<Rightarrow> string + xnode" where
  "named_type_ref_trees t = wsdl_trees [(''doc'', NAMED_TYPE_REF_WSDL)] t"

definition resolve_test_wsdl :: "(string \<Rightarrow> string + xnode) \<Rightarrow> (resolved_wsdl \<Rightarrow> bool) \<Rightarrow> bool" where
  "resolve_test_wsdl trees k =
     resolved_ok (resolve_wsdl trees (\<lambda>loc. Inl (MalformedXml (''NullLoader: '' @ loc))) ''doc'' {})
       (\<lambda>resolved _. k resolved)"

definition doc_literal_inline_type_missing_required_field_rejected :: bool where
  "doc_literal_inline_type_missing_required_field_rejected \<longleftrightarrow>
     (let elem_qname = qname_new ''http://example.com/svc'' ''GetFoo'' in
      resolve_test_wsdl inline_element_trees (\<lambda>resolved.
        registry_lookup (rw_type_registry resolved) elem_qname \<noteq> None \<and>
        unwrapped (build_dispatch_table resolved [(''GetFoo'', mock_handler ''GetFoo'')] {} None) (\<lambda>table.
        unwrapped (route table elem_qname None) (\<lambda>entry.
          validation_type entry \<noteq> None \<and>
          failed (validated foo_missing (rw_type_registry resolved) (validation_type entry)) (\<lambda>fault.
            code fault = Sender \<and> str_contains ''RequiredField'' (reason fault)) \<and>
          unwrapped (validated foo_ok (rw_type_registry resolved) (validation_type entry)) (\<lambda>_. True)))))"

definition doc_literal_named_type_ref_missing_required_field_rejected :: bool where
  "doc_literal_named_type_ref_missing_required_field_rejected \<longleftrightarrow>
     (let elem_qname = qname_new ''http://example.com/svc'' ''GetBar''; type_qname = qname_new ''http://example.com/svc'' ''GetBarType'' in
      resolve_test_wsdl named_type_ref_trees (\<lambda>resolved.
        registry_lookup (rw_type_registry resolved) type_qname \<noteq> None \<and>
        unwrapped (build_dispatch_table resolved [(''GetBar'', mock_handler ''GetBar'')] {} None) (\<lambda>table.
        unwrapped (route table elem_qname None) (\<lambda>entry.
          validation_type entry = Some type_qname \<and>
          failed (validated bar_missing (rw_type_registry resolved) (validation_type entry)) (\<lambda>fault.
            code fault = Sender \<and> str_contains ''BarRequired'' (reason fault)) \<and>
          unwrapped (validated bar_ok (rw_type_registry resolved) (validation_type entry)) (\<lambda>_. True)))))"

section \<open>The tests pass\<close>

lemma validate_request_no_input_type_returns_ok_passes: validate_request_no_input_type_returns_ok
  by code_simp

lemma validate_request_unknown_type_in_registry_returns_ok_passes: validate_request_unknown_type_in_registry_returns_ok
  by code_simp

lemma validate_request_valid_xml_with_required_element_returns_ok_passes: validate_request_valid_xml_with_required_element_returns_ok
  by code_simp

lemma validate_request_missing_required_element_returns_sender_fault_passes: validate_request_missing_required_element_returns_sender_fault
  by code_simp

lemma validate_request_optional_element_missing_returns_ok_passes: validate_request_optional_element_missing_returns_ok
  by code_simp

lemma doc_literal_inline_type_missing_required_field_rejected_passes: doc_literal_inline_type_missing_required_field_rejected
  by code_simp

lemma doc_literal_named_type_ref_missing_required_field_rejected_passes: doc_literal_named_type_ref_missing_required_field_rejected
  by code_simp

end
