(* ===== verification/EnvelopeTests.thy ===== *)
theory EnvelopeTests
  imports Envelope TestDocs
begin

text \<open>
  The unit tests of \<open>envelope.rs\<close>, run on the model. The envelopes are the events that the reader
  yields for them, white space included.
\<close>

definition parsed_from :: "reader \<Rightarrow> soap_fault + parsed_envelope" where
  "parsed_from doc = parse_envelope (\<lambda>_ _. doc) ''doc''"

section \<open>Content types\<close>

definition detect_soap12_from_application_soap_xml :: bool where
  "detect_soap12_from_application_soap_xml \<longleftrightarrow>
     unwrapped (detect_soap_version ''application/soap+xml'') (\<lambda>v. v = Soap12)"

definition detect_soap12_from_content_type_with_action :: bool where
  "detect_soap12_from_content_type_with_action \<longleftrightarrow>
     unwrapped (detect_soap_version (''application/soap+xml; action='' @ [CHR 0x22] @ ''urn:op'' @ [CHR 0x22])) (\<lambda>v. v = Soap12)"

definition detect_soap11_from_text_xml :: bool where
  "detect_soap11_from_text_xml \<longleftrightarrow>
     unwrapped (detect_soap_version ''text/xml'') (\<lambda>v. v = Soap11)"

definition detect_version_mismatch_for_unknown :: bool where
  "detect_version_mismatch_for_unknown \<longleftrightarrow>
     failed (detect_soap_version ''application/json'') (\<lambda>fault. code fault = VersionMismatch)"

definition response_content_type_soap11 :: bool where
  "response_content_type_soap11 \<longleftrightarrow>
     response_content_type Soap11 = ''text/xml; charset=utf-8''"

definition response_content_type_soap12 :: bool where
  "response_content_type_soap12 \<longleftrightarrow>
     response_content_type Soap12 = ''application/soap+xml; charset=utf-8''"

section \<open>Writing envelopes\<close>

definition serialize_envelope_wraps_body_in_soap12 :: bool where
  "serialize_envelope_wraps_body_in_soap12 \<longleftrightarrow>
     present (from_utf8 (serialize_envelope ''<op:Foo/>'' Soap12)) (\<lambda>text.
       str_contains (''xmlns:env='' @ [CHR 0x22] @ ''http://www.w3.org/2003/05/soap-envelope'' @ [CHR 0x22]) text \<and>
       str_contains ''<env:Body>'' text \<and>
       str_contains ''<op:Foo/>'' text \<and>
       starts_with ''<env:Envelope'' text)"

definition serialize_envelope_soap11 :: bool where
  "serialize_envelope_soap11 \<longleftrightarrow>
     present (from_utf8 (serialize_envelope ''<op:Foo/>'' Soap11)) (\<lambda>text.
       str_contains ''http://schemas.xmlsoap.org/soap/envelope/'' text \<and>
       str_contains ''<env:Body>'' text \<and>
       str_contains ''<op:Foo/>'' text \<and>
       starts_with ''<env:Envelope'' text)"

section \<open>Reading envelopes\<close>

definition parse_envelope_minimal_soap12_empty_body_child_doc :: reader where
  "parse_envelope_minimal_soap12_empty_body_child_doc = all_events
    [XElem (Bound SOAP12_NS) ''env:Envelope'' [(''xmlns:env'', SOAP12_NS)]
     [XText (nl 2),
      XElem (Bound SOAP12_NS) ''env:Body'' []
      [XText (nl 4),
       XEmpty (Bound ''urn:test'') ''op:DoSomething'' [(''xmlns:op'', ''urn:test'')],
       XText (nl 2)],
      XText (nl 0)]]"

definition parse_envelope_minimal_soap12_empty_body_child :: bool where
  "parse_envelope_minimal_soap12_empty_body_child \<longleftrightarrow>
     unwrapped (parsed_from parse_envelope_minimal_soap12_empty_body_child_doc) (\<lambda>parsed.
       env_soap_version parsed = Soap12 \<and> header_children parsed = [] \<and>
       present (from_utf8 (body_element parsed)) (\<lambda>body.
       str_contains ''DoSomething'' body))"

definition parse_envelope_with_header_child_doc :: reader where
  "parse_envelope_with_header_child_doc = all_events
    [XElem (Bound SOAP12_NS) ''env:Envelope'' [(''xmlns:env'', SOAP12_NS)]
     [XText (nl 2),
      XElem (Bound SOAP12_NS) ''env:Header'' []
      [XText (nl 4),
       XEmpty (Bound ''urn:wssec'') ''wsse:Security'' [(''xmlns:wsse'', ''urn:wssec'')],
       XText (nl 2)],
      XText (nl 2),
      XElem (Bound SOAP12_NS) ''env:Body'' []
      [XText (nl 4),
       XEmpty (Bound ''urn:onvif'') ''op:GetCapabilities'' [(''xmlns:op'', ''urn:onvif'')],
       XText (nl 2)],
      XText (nl 0)]]"

definition parse_envelope_with_header_child :: bool where
  "parse_envelope_with_header_child \<longleftrightarrow>
     unwrapped (parsed_from parse_envelope_with_header_child_doc) (\<lambda>parsed.
       length (header_children parsed) = 1 \<and>
       present (from_utf8 (header_children parsed ! 0)) (\<lambda>header.
       str_contains ''Security'' header))"

definition parse_envelope_body_bytes_contain_ancestor_ns_declarations_doc :: reader where
  "parse_envelope_body_bytes_contain_ancestor_ns_declarations_doc = all_events
    [XElem (Bound SOAP12_NS) ''env:Envelope'' [(''xmlns:env'', SOAP12_NS), (''xmlns:tds'', ''http://www.onvif.org/ver10/device/wsdl'')]
     [XText (nl 2),
      XElem (Bound SOAP12_NS) ''env:Body'' []
      [XText (nl 4),
       XEmpty (Bound ''http://www.onvif.org/ver10/device/wsdl'') ''tds:GetCapabilities'' [],
       XText (nl 2)],
      XText (nl 0)]]"

definition parse_envelope_body_bytes_contain_ancestor_ns_declarations :: bool where
  "parse_envelope_body_bytes_contain_ancestor_ns_declarations \<longleftrightarrow>
     unwrapped (parsed_from parse_envelope_body_bytes_contain_ancestor_ns_declarations_doc) (\<lambda>parsed.
       present (from_utf8 (body_element parsed)) (\<lambda>body.
       str_contains ''xmlns:tds'' body \<and>
       str_contains ''http://www.onvif.org/ver10/device/wsdl'' body))"

definition parse_envelope_body_preserves_entity_refs_and_whitespace_doc :: reader where
  "parse_envelope_body_preserves_entity_refs_and_whitespace_doc = all_events
    [XElem (Bound SOAP12_NS) ''env:Envelope'' [(''xmlns:env'', SOAP12_NS)]
     [XElem (Bound SOAP12_NS) ''env:Body'' []
      [XElem (Bound ''urn:test'') ''op:Echo'' [(''xmlns:op'', ''urn:test'')]
       [XElem (Bound ''urn:test'') ''op:Text'' []
        [XRef ''lt'',
         XText ''hello'',
         XRef ''gt'',
         XText '' '',
         XRef ''amp'',
         XText '' '',
         XRef ''apos'',
         XText ''world'',
         XRef ''apos'']]]]]"

definition parse_envelope_body_preserves_entity_refs_and_whitespace :: bool where
  "parse_envelope_body_preserves_entity_refs_and_whitespace \<longleftrightarrow>
     unwrapped (parsed_from parse_envelope_body_preserves_entity_refs_and_whitespace_doc) (\<lambda>parsed.
       present (from_utf8 (body_element parsed)) (\<lambda>body.
       str_contains ''&lt;hello&gt;'' body \<and>
       str_contains ''&amp;'' body \<and>
       str_contains ''&gt; &amp; &apos;'' body))"

definition parse_envelope_header_child_preserves_entity_refs_doc :: reader where
  "parse_envelope_header_child_preserves_entity_refs_doc = all_events
    [XElem (Bound SOAP12_NS) ''env:Envelope'' [(''xmlns:env'', SOAP12_NS)]
     [XElem (Bound SOAP12_NS) ''env:Header'' []
      [XElem (Bound ''urn:h'') ''h:Tok'' [(''xmlns:h'', ''urn:h'')]
       [XText ''a '',
        XRef ''amp'',
        XText '' b'']],
      XElem (Bound SOAP12_NS) ''env:Body'' []
      [XEmpty (Bound ''urn:test'') ''op:Echo'' [(''xmlns:op'', ''urn:test'')]]]]"

definition parse_envelope_header_child_preserves_entity_refs :: bool where
  "parse_envelope_header_child_preserves_entity_refs \<longleftrightarrow>
     unwrapped (parsed_from parse_envelope_header_child_preserves_entity_refs_doc) (\<lambda>parsed.
       length (header_children parsed) = 1 \<and>
       present (from_utf8 (header_children parsed ! 0)) (\<lambda>header.
       str_contains ''a &amp; b'' header))"

definition parse_envelope_missing_envelope_element_returns_err_doc :: reader where
  "parse_envelope_missing_envelope_element_returns_err_doc = all_events
    [XElem (Bound ''urn:x'') ''notsoap:Root'' [(''xmlns:notsoap'', ''urn:x'')]
     [XEmpty (Bound ''urn:x'') ''notsoap:Body'' []]]"

definition parse_envelope_missing_envelope_element_returns_err :: bool where
  "parse_envelope_missing_envelope_element_returns_err \<longleftrightarrow>
     failed (parsed_from parse_envelope_missing_envelope_element_returns_err_doc) (\<lambda>_. True)"

definition parse_envelope_missing_body_returns_err_doc :: reader where
  "parse_envelope_missing_body_returns_err_doc = all_events
    [XElem (Bound SOAP12_NS) ''env:Envelope'' [(''xmlns:env'', SOAP12_NS)]
     [XText (nl 2),
      XEmpty (Bound SOAP12_NS) ''env:Header'' [],
      XText (nl 0)]]"

definition parse_envelope_missing_body_returns_err :: bool where
  "parse_envelope_missing_body_returns_err \<longleftrightarrow>
     failed (parsed_from parse_envelope_missing_body_returns_err_doc) (\<lambda>fault. str_contains ''Missing Body'' (reason fault))"

definition parse_envelope_soap11_doc :: reader where
  "parse_envelope_soap11_doc = all_events
    [XElem (Bound SOAP11_NS) ''SOAP-ENV:Envelope'' [(''xmlns:SOAP-ENV'', SOAP11_NS)]
     [XText (nl 2),
      XElem (Bound SOAP11_NS) ''SOAP-ENV:Body'' []
      [XText (nl 4),
       XEmpty (Bound ''urn:test'') ''op:DoSomething'' [(''xmlns:op'', ''urn:test'')],
       XText (nl 2)],
      XText (nl 0)]]"

definition parse_envelope_soap11 :: bool where
  "parse_envelope_soap11 \<longleftrightarrow>
     unwrapped (parsed_from parse_envelope_soap11_doc) (\<lambda>parsed.
       env_soap_version parsed = Soap11 \<and> header_children parsed = [])"

definition parse_envelope_soap11_with_header_doc :: reader where
  "parse_envelope_soap11_with_header_doc = all_events
    [XElem (Bound SOAP11_NS) ''SOAP-ENV:Envelope'' [(''xmlns:SOAP-ENV'', SOAP11_NS)]
     [XText (nl 2),
      XElem (Bound SOAP11_NS) ''SOAP-ENV:Header'' []
      [XText (nl 4),
       XEmpty (Bound ''urn:wssec'') ''wsse:Security'' [(''xmlns:wsse'', ''urn:wssec'')],
       XText (nl 2)],
      XText (nl 2),
      XElem (Bound SOAP11_NS) ''SOAP-ENV:Body'' []
      [XText (nl 4),
       XEmpty (Bound ''urn:test'') ''op:DoSomething'' [(''xmlns:op'', ''urn:test'')],
       XText (nl 2)],
      XText (nl 0)]]"

definition parse_envelope_soap11_with_header :: bool where
  "parse_envelope_soap11_with_header \<longleftrightarrow>
     unwrapped (parsed_from parse_envelope_soap11_with_header_doc) (\<lambda>parsed.
       env_soap_version parsed = Soap11 \<and> length (header_children parsed) = 1)"

definition parse_envelope_soap11_body_first_child :: bool where
  "parse_envelope_soap11_body_first_child \<longleftrightarrow>
     unwrapped (parsed_from parse_envelope_soap11_doc) (\<lambda>parsed.
       present (from_utf8 (body_element parsed)) (\<lambda>body.
       str_contains ''DoSomething'' body))"

section \<open>Namespaces in scope\<close>

definition namespace_declared_on_body_is_preserved_in_body_element_doc :: reader where
  "namespace_declared_on_body_is_preserved_in_body_element_doc = all_events
    [XElem (Bound SOAP12_NS) ''env:Envelope'' [(''xmlns:env'', SOAP12_NS)]
     [XText (nl 2),
      XElem (Bound SOAP12_NS) ''env:Body'' [(''xmlns:tds'', ''http://www.onvif.org/ver10/device/wsdl'')]
      [XText (nl 4),
       XEmpty (Bound ''http://www.onvif.org/ver10/device/wsdl'') ''tds:GetSystemDateAndTime'' [],
       XText (nl 2)],
      XText (nl 0)]]"

definition namespace_declared_on_body_is_preserved_in_body_element :: bool where
  "namespace_declared_on_body_is_preserved_in_body_element \<longleftrightarrow>
     unwrapped (parsed_from namespace_declared_on_body_is_preserved_in_body_element_doc) (\<lambda>parsed.
       present (from_utf8 (body_element parsed)) (\<lambda>body.
       str_contains ''xmlns:tds'' body \<and>
       str_contains ''http://www.onvif.org/ver10/device/wsdl'' body \<and>
       str_contains ''GetSystemDateAndTime'' body))"

definition namespace_declared_on_header_child_is_preserved_doc :: reader where
  "namespace_declared_on_header_child_is_preserved_doc = all_events
    [XElem (Bound SOAP12_NS) ''env:Envelope'' [(''xmlns:env'', SOAP12_NS)]
     [XText (nl 2),
      XElem (Bound SOAP12_NS) ''env:Header'' []
      [XText (nl 4),
       XElem (Bound ''http://docs.oasis-open.org/wss/2004/01/oasis-200401-wss-wssecurity-secext-1.0.xsd'') ''wsse:Security'' [(''xmlns:wsse'', ''http://docs.oasis-open.org/wss/2004/01/oasis-200401-wss-wssecurity-secext-1.0.xsd'')]
       [XText (nl 6),
        XElem (Bound ''http://docs.oasis-open.org/wss/2004/01/oasis-200401-wss-wssecurity-secext-1.0.xsd'') ''wsse:UsernameToken'' []
        [XElem (Bound ''http://docs.oasis-open.org/wss/2004/01/oasis-200401-wss-wssecurity-secext-1.0.xsd'') ''wsse:Username'' []
         [XText ''user'']],
        XText (nl 4)],
       XText (nl 2)],
      XText (nl 2),
      XElem (Bound SOAP12_NS) ''env:Body'' []
      [XText (nl 4),
       XEmpty (Bound ''urn:test'') ''op:Ping'' [(''xmlns:op'', ''urn:test'')],
       XText (nl 2)],
      XText (nl 0)]]"

definition namespace_declared_on_header_child_is_preserved :: bool where
  "namespace_declared_on_header_child_is_preserved \<longleftrightarrow>
     unwrapped (parsed_from namespace_declared_on_header_child_is_preserved_doc) (\<lambda>parsed.
       length (header_children parsed) = 1 \<and>
       present (from_utf8 (header_children parsed ! 0)) (\<lambda>header.
       str_contains ''xmlns:wsse'' header \<and>
       str_contains ''oasis-200401-wss-wssecurity-secext'' header \<and>
       str_contains ''UsernameToken'' header))"

definition namespace_declared_on_operation_element_is_preserved_doc :: reader where
  "namespace_declared_on_operation_element_is_preserved_doc = all_events
    [XElem (Bound SOAP12_NS) ''env:Envelope'' [(''xmlns:env'', SOAP12_NS)]
     [XText (nl 2),
      XElem (Bound SOAP12_NS) ''env:Body'' []
      [XText (nl 4),
       XElem (Bound ''http://www.onvif.org/ver10/device/wsdl'') ''tds:GetCapabilities'' [(''xmlns:tds'', ''http://www.onvif.org/ver10/device/wsdl'')]
       [XText (nl 6),
        XElem (Bound ''http://www.onvif.org/ver10/device/wsdl'') ''tds:Category'' []
        [XText ''All''],
        XText (nl 4)],
       XText (nl 2)],
      XText (nl 0)]]"

definition namespace_declared_on_operation_element_is_preserved :: bool where
  "namespace_declared_on_operation_element_is_preserved \<longleftrightarrow>
     unwrapped (parsed_from namespace_declared_on_operation_element_is_preserved_doc) (\<lambda>parsed.
       present (from_utf8 (body_element parsed)) (\<lambda>body.
       str_contains ''xmlns:tds'' body \<and>
       str_contains ''http://www.onvif.org/ver10/device/wsdl'' body \<and>
       str_contains ''GetCapabilities'' body))"

definition namespace_declared_on_header_element_propagates_to_children_doc :: reader where
  "namespace_declared_on_header_element_propagates_to_children_doc = all_events
    [XElem (Bound SOAP12_NS) ''env:Envelope'' [(''xmlns:env'', SOAP12_NS)]
     [XText (nl 2),
      XElem (Bound SOAP12_NS) ''env:Header'' [(''xmlns:wsse'', ''http://docs.oasis-open.org/wss/2004/01/oasis-200401-wss-wssecurity-secext-1.0.xsd'')]
      [XText (nl 4),
       XEmpty (Bound ''http://docs.oasis-open.org/wss/2004/01/oasis-200401-wss-wssecurity-secext-1.0.xsd'') ''wsse:Security'' [],
       XText (nl 2)],
      XText (nl 2),
      XElem (Bound SOAP12_NS) ''env:Body'' []
      [XText (nl 4),
       XEmpty (Bound ''urn:test'') ''op:Op'' [(''xmlns:op'', ''urn:test'')],
       XText (nl 2)],
      XText (nl 0)]]"

definition namespace_declared_on_header_element_propagates_to_children :: bool where
  "namespace_declared_on_header_element_propagates_to_children \<longleftrightarrow>
     unwrapped (parsed_from namespace_declared_on_header_element_propagates_to_children_doc) (\<lambda>parsed.
       length (header_children parsed) = 1 \<and>
       present (from_utf8 (header_children parsed ! 0)) (\<lambda>header.
       str_contains ''xmlns:wsse'' header))"

section \<open>The tests pass\<close>

lemma detect_soap12_from_application_soap_xml_passes: detect_soap12_from_application_soap_xml
  by code_simp

lemma detect_soap12_from_content_type_with_action_passes: detect_soap12_from_content_type_with_action
  by code_simp

lemma detect_soap11_from_text_xml_passes: detect_soap11_from_text_xml
  by code_simp

lemma detect_version_mismatch_for_unknown_passes: detect_version_mismatch_for_unknown
  by code_simp

lemma response_content_type_soap11_passes: response_content_type_soap11
  by code_simp

lemma response_content_type_soap12_passes: response_content_type_soap12
  by code_simp

lemma serialize_envelope_wraps_body_in_soap12_passes: serialize_envelope_wraps_body_in_soap12
  by code_simp

lemma serialize_envelope_soap11_passes: serialize_envelope_soap11
  by code_simp

lemma parse_envelope_minimal_soap12_empty_body_child_passes: parse_envelope_minimal_soap12_empty_body_child
  by code_simp

lemma parse_envelope_with_header_child_passes: parse_envelope_with_header_child
  by code_simp

lemma parse_envelope_body_bytes_contain_ancestor_ns_declarations_passes: parse_envelope_body_bytes_contain_ancestor_ns_declarations
  by code_simp

lemma parse_envelope_body_preserves_entity_refs_and_whitespace_passes: parse_envelope_body_preserves_entity_refs_and_whitespace
  by code_simp

lemma parse_envelope_header_child_preserves_entity_refs_passes: parse_envelope_header_child_preserves_entity_refs
  by code_simp

lemma parse_envelope_missing_envelope_element_returns_err_passes: parse_envelope_missing_envelope_element_returns_err
  by code_simp

lemma parse_envelope_missing_body_returns_err_passes: parse_envelope_missing_body_returns_err
  by code_simp

lemma parse_envelope_soap11_passes: parse_envelope_soap11
  by code_simp

lemma parse_envelope_soap11_with_header_passes: parse_envelope_soap11_with_header
  by code_simp

lemma parse_envelope_soap11_body_first_child_passes: parse_envelope_soap11_body_first_child
  by code_simp

lemma namespace_declared_on_body_is_preserved_in_body_element_passes: namespace_declared_on_body_is_preserved_in_body_element
  by code_simp

lemma namespace_declared_on_header_child_is_preserved_passes: namespace_declared_on_header_child_is_preserved
  by code_simp

lemma namespace_declared_on_operation_element_is_preserved_passes: namespace_declared_on_operation_element_is_preserved
  by code_simp

lemma namespace_declared_on_header_element_propagates_to_children_passes: namespace_declared_on_header_element_propagates_to_children
  by code_simp

end
