(* ===== verification/ServerTests.thy ===== *)
theory ServerTests
  imports Server ResolverTests
begin

text \<open>
  The unit tests of \<open>server.rs\<close>, run on the model. Documents and header fragments are named by
  strings that stand for their text.
\<close>

section \<open>Building\<close>

definition minimal_scope :: "(string option \<times> string) list" where
  "minimal_scope = [(Some ''wsdl'', WSDL_NS), (Some ''soap'', SOAP12_BINDING_NS), (Some ''xs'', XSD_NS), (Some ''tns'', ''http://example.com/test'')]"

definition MINIMAL_WSDL :: xnode where
  "MINIMAL_WSDL =
    elt (Some WSDL_NS) ''definitions'' [(''targetNamespace'', ''http://example.com/test'')] minimal_scope
    [ws 4, elt (Some WSDL_NS) ''types'' [] minimal_scope
     [ws 8, elt (Some XSD_NS) ''schema'' [(''targetNamespace'', ''http://example.com/test''), (''elementFormDefault'', ''qualified'')] minimal_scope
      [ws 12, elt (Some XSD_NS) ''element'' [(''name'', ''Ping'')] minimal_scope
       [ws 16, elt (Some XSD_NS) ''complexType'' [] minimal_scope
        [elt (Some XSD_NS) ''sequence'' [] minimal_scope []],
        ws 12],
       ws 12, elt (Some XSD_NS) ''element'' [(''name'', ''PingResponse'')] minimal_scope
       [ws 16, elt (Some XSD_NS) ''complexType'' [] minimal_scope
        [elt (Some XSD_NS) ''sequence'' [] minimal_scope []],
        ws 12],
       ws 8],
      ws 4],
     ws 4, elt (Some WSDL_NS) ''message'' [(''name'', ''PingRequest'')] minimal_scope
     [ws 8, elt (Some WSDL_NS) ''part'' [(''name'', ''parameters''), (''element'', ''tns:Ping'')] minimal_scope [],
      ws 4],
     ws 4, elt (Some WSDL_NS) ''message'' [(''name'', ''PingResponse'')] minimal_scope
     [ws 8, elt (Some WSDL_NS) ''part'' [(''name'', ''parameters''), (''element'', ''tns:PingResponse'')] minimal_scope [],
      ws 4],
     ws 4, elt (Some WSDL_NS) ''portType'' [(''name'', ''TestPortType'')] minimal_scope
     [ws 8, elt (Some WSDL_NS) ''operation'' [(''name'', ''Ping'')] minimal_scope
      [ws 12, elt (Some WSDL_NS) ''input'' [(''message'', ''tns:PingRequest'')] minimal_scope [],
       ws 12, elt (Some WSDL_NS) ''output'' [(''message'', ''tns:PingResponse'')] minimal_scope [],
       ws 8],
      ws 4],
     ws 4, elt (Some WSDL_NS) ''binding'' [(''name'', ''TestBinding''), (''type'', ''tns:TestPortType'')] minimal_scope
     [ws 8, elt (Some SOAP12_BINDING_NS) ''binding'' [(''style'', ''document''), (''transport'', ''http://schemas.xmlsoap.org/soap/http'')] minimal_scope [],
      ws 8, elt (Some WSDL_NS) ''operation'' [(''name'', ''Ping'')] minimal_scope
      [ws 12, elt (Some SOAP12_BINDING_NS) ''operation'' [(''soapAction'', ''http://example.com/test/Ping'')] minimal_scope [],
       ws 12, elt (Some WSDL_NS) ''input'' [] minimal_scope
       [elt (Some SOAP12_BINDING_NS) ''body'' [(''use'', ''literal'')] minimal_scope []],
       ws 12, elt (Some WSDL_NS) ''output'' [] minimal_scope
       [elt (Some SOAP12_BINDING_NS) ''body'' [(''use'', ''literal'')] minimal_scope []],
       ws 8],
      ws 4],
     ws 4, elt (Some WSDL_NS) ''service'' [(''name'', ''TestService'')] minimal_scope
     [ws 8, elt (Some WSDL_NS) ''port'' [(''name'', ''TestPort''), (''binding'', ''tns:TestBinding'')] minimal_scope
      [ws 12, elt (Some SOAP12_BINDING_NS) ''address'' [(''location'', ''http://localhost/soap'')] minimal_scope [],
       ws 8],
      ws 4],
     ws 0]"

definition minimal_trees :: "string \<Rightarrow> string + xnode" where
  "minimal_trees t = wsdl_trees [(''MINIMAL_WSDL'', MINIMAL_WSDL)] t"

definition test_lib :: server_lib where
  "test_lib =
     \<lparr>sl_wss = \<lparr>wl_tok = (\<lambda>_ _. []), wl_b64_decode = (\<lambda>_. Inl []), wl_b64_encode = id, wl_sha1 = id,
        wl_rfc3339 = (\<lambda>_. None), wl_seconds = (\<lambda>_. None)\<rparr>,
      sl_esc = xml_escape, sl_write = events_text, sl_rox = minimal_trees,
      sl_read_file = (\<lambda>_. Inl []), sl_lowercase = id\<rparr>"

definition ping_handler :: "unit soap_handler" where
  "ping_handler = fn_handler (\<lambda>_ s. (Inr ''<PingResponse/>'', s))"

definition ping_builder :: "unit server_builder" where
  "ping_builder =
     with_auth_bypass [''Ping''] (with_handler ''Ping'' ping_handler (from_wsdl_bytes ''MINIMAL_WSDL''))"

definition built :: "unit server_builder \<Rightarrow> (unit soap_service \<Rightarrow> bool) \<Rightarrow> bool" where
  "built b k = (case build test_lib 0 b of Some (Inr svc) \<Rightarrow> k svc | _ \<Rightarrow> False)"

definition build_fails :: "unit server_builder \<Rightarrow> build_error \<Rightarrow> bool" where
  "build_fails b e \<longleftrightarrow> (case build test_lib 0 b of Some (Inl e') \<Rightarrow> e' = e | _ \<Rightarrow> False)"

definition server_builder_builds_without_panic :: bool where
  "server_builder_builds_without_panic \<longleftrightarrow>
     built ping_builder (\<lambda>_. True)"

definition server_builder_into_router_returns_router :: bool where
  "server_builder_into_router_returns_router \<longleftrightarrow>
     built ping_builder (\<lambda>svc. routes (into_router svc) \<noteq> [])"

definition server_builder_fails_with_unregistered_operation :: bool where
  "server_builder_fails_with_unregistered_operation \<longleftrightarrow>
     build_fails (from_wsdl_bytes ''MINIMAL_WSDL'') (BuildUnregisteredOperation ''Ping'')"

definition server_builder_fails_with_unknown_handler_name :: bool where
  "server_builder_fails_with_unknown_handler_name \<longleftrightarrow>
     build_fails
       (with_auth_bypass [''Ping'']
         (with_handler ''NonExistentOp'' (fn_handler (\<lambda>_ s. (Inr ''<resp/>'', s)))
         (with_handler ''Ping'' ping_handler (from_wsdl_bytes ''MINIMAL_WSDL''))))
       (BuildUnknownOperation ''NonExistentOp'')"

definition server_builder_max_body_bytes_sets_field :: bool where
  "server_builder_max_body_bytes_sets_field \<longleftrightarrow>
     built (with_max_body_bytes (512 * 1024) ping_builder) (\<lambda>svc.
       svc_max_body_bytes svc = 512 * 1024 \<and> routes (into_router svc) \<noteq> [])"

definition server_builder_default_max_body_bytes_is_2mib :: bool where
  "server_builder_default_max_body_bytes_is_2mib \<longleftrightarrow>
     built ping_builder (\<lambda>svc. svc_max_body_bytes svc = 2 * 1024 * 1024)"

section \<open>Responses and headers\<close>

definition fault_response_soap12_content_type :: bool where
  "fault_response_soap12_content_type \<longleftrightarrow>
     content_type (fault_response test_lib (sender ''test'') Soap12) = Some ''application/soap+xml; charset=utf-8''"

definition fault_response_soap11_content_type :: bool where
  "fault_response_soap11_content_type \<longleftrightarrow>
     content_type (fault_response test_lib (sender ''test'') Soap11) = Some ''text/xml; charset=utf-8''"

definition tns_ping :: reader where
  "tns_ping = all_events
    [XEmpty (Bound ''http://example.com/test'') ''tns:Ping'' [(''xmlns:tns'', ''http://example.com/test'')]]"

definition plain_ping :: reader where
  "plain_ping = all_events
    [XEmpty Unbound ''Ping'' []]"

definition extract_body_qname_parses_namespaced_element :: bool where
  "extract_body_qname_parses_namespaced_element \<longleftrightarrow>
     unwrapped (extract_body_qname (\<lambda>_ _. tns_ping) ''body'') (\<lambda>q.
       local_name q = ''Ping'' \<and> namespace q = Some ''http://example.com/test'')"

definition extract_body_qname_parses_unnamespaced_element :: bool where
  "extract_body_qname_parses_unnamespaced_element \<longleftrightarrow>
     unwrapped (extract_body_qname (\<lambda>_ _. plain_ping) ''body'') (\<lambda>q. local_name q = ''Ping'' \<and> namespace q = None)"

definition wsse_header :: reader where
  "wsse_header = all_events
    [XElem (Bound WSSE_NS) ''wsse:Security'' [(''xmlns:wsse'', WSSE_NS)]
     [XEmpty (Bound WSSE_NS) ''wsse:UsernameToken'' []]]"

definition fake_security :: reader where
  "fake_security = all_events
    [XElem (Bound ''http://example.com/other'') ''ns:Security'' [(''xmlns:ns'', ''http://example.com/other'')]
     [XText ''some content'']]"

definition unrelated_header :: reader where
  "unrelated_header = all_events
    [XElem (Bound ''http://example.com/other'') ''ns:Header'' [(''xmlns:ns'', ''http://example.com/other'')]
     [XText ''Security policy here'']]"

definition fake_security_content :: reader where
  "fake_security_content = all_events
    [XElem (Bound ''http://example.com/other'') ''ns:Security'' [(''xmlns:ns'', ''http://example.com/other'')]
     [XText ''content'']]"

definition real_security :: reader where
  "real_security = all_events
    [XEmpty (Bound WSSE_NS) ''wsse:Security'' [(''xmlns:wsse'', WSSE_NS)]]"

definition header_docs :: tokenizer where
  "header_docs = known_items
     [(''wsse_header'', wsse_header), (''fake_security'', fake_security), (''unrelated_header'', unrelated_header),
      (''fake_security_content'', fake_security_content), (''real_security'', real_security)]"

definition find_security_header_matches_wsse_namespace :: bool where
  "find_security_header_matches_wsse_namespace \<longleftrightarrow>
     find_security_header header_docs [''wsse_header''] = Some ''wsse_header''"

definition find_security_header_ignores_non_wsse_security_element :: bool where
  "find_security_header_ignores_non_wsse_security_element \<longleftrightarrow>
     find_security_header header_docs [''fake_security''] = None"

definition find_security_header_ignores_element_containing_security_substring :: bool where
  "find_security_header_ignores_element_containing_security_substring \<longleftrightarrow>
     find_security_header header_docs [''unrelated_header''] = None"

definition find_security_header_returns_first_valid_wsse_header :: bool where
  "find_security_header_returns_first_valid_wsse_header \<longleftrightarrow>
     find_security_header header_docs [''fake_security_content'', ''real_security''] = Some ''real_security''"

section \<open>The tests pass\<close>

text \<open>The limit on the body and the nonce cache are only passed on: evaluation leaves them as they are.\<close>

lemma build_max_body_bytes: "build lib inst b = Some (Inr svc) \<Longrightarrow> svc_max_body_bytes svc = sb_max_body_bytes b"
  by (auto simp: build_def res_simps split: sum.splits prod.splits)

lemma built_max_body_bytes:
  "built b (\<lambda>svc. svc_max_body_bytes svc = n \<and> k svc) \<longleftrightarrow> sb_max_body_bytes b = n \<and> built b k"
  by (auto simp: built_def dest: build_max_body_bytes split: option.splits sum.splits)

declare DEFAULT_MAX_BODY_BYTES_def [code del] nonce_cache_new_def [code del]

lemma ping_built:
  "built (with_max_body_bytes n ping_builder) (\<lambda>svc. routes (into_router svc) \<noteq> [])"
  by code_simp

lemma ping_builder_limit: "ping_builder = with_max_body_bytes (2 * 1024 * 1024) ping_builder"
  by (simp add: ping_builder_def with_auth_bypass_def with_handler_def from_wsdl_bytes_def builder_new_def
      with_max_body_bytes_def DEFAULT_MAX_BODY_BYTES_def)

lemma built_mono: "built b j \<Longrightarrow> (\<And>svc. j svc \<Longrightarrow> k svc) \<Longrightarrow> built b k"
  by (auto simp: built_def split: option.splits sum.splits)

lemma server_builder_tests_pass:
  "server_builder_builds_without_panic" "server_builder_into_router_returns_router"
  "server_builder_max_body_bytes_sets_field" "server_builder_default_max_body_bytes_is_2mib"
proof -
  have ping: "built ping_builder (\<lambda>svc. routes (into_router svc) \<noteq> [])"
    using ping_built [of "2 * 1024 * 1024"] unfolding ping_builder_limit [symmetric] .
  then show "server_builder_into_router_returns_router"
    by (simp only: server_builder_into_router_returns_router_def)
  from ping show any: "server_builder_builds_without_panic"
    unfolding server_builder_builds_without_panic_def by (rule built_mono) simp
  show "server_builder_max_body_bytes_sets_field"
    unfolding server_builder_max_body_bytes_sets_field_def built_max_body_bytes
    using ping_built by (simp add: with_max_body_bytes_def)
  have "sb_max_body_bytes ping_builder = 2 * 1024 * 1024"
    by (subst ping_builder_limit) (simp add: with_max_body_bytes_def)
  with any show "server_builder_default_max_body_bytes_is_2mib"
    unfolding server_builder_default_max_body_bytes_is_2mib_def server_builder_builds_without_panic_def
    using built_max_body_bytes [of ping_builder "2 * 1024 * 1024" "\<lambda>_. True"] by simp
qed

lemma server_builder_fails_with_unregistered_operation_passes: server_builder_fails_with_unregistered_operation
  by code_simp

lemma server_builder_fails_with_unknown_handler_name_passes: server_builder_fails_with_unknown_handler_name
  by code_simp

lemma fault_response_soap12_content_type_passes: fault_response_soap12_content_type
  by code_simp

lemma fault_response_soap11_content_type_passes: fault_response_soap11_content_type
  by code_simp

lemma extract_body_qname_parses_namespaced_element_passes: extract_body_qname_parses_namespaced_element
  by code_simp

lemma extract_body_qname_parses_unnamespaced_element_passes: extract_body_qname_parses_unnamespaced_element
  by code_simp

lemma find_security_header_matches_wsse_namespace_passes: find_security_header_matches_wsse_namespace
  by code_simp

lemma find_security_header_ignores_non_wsse_security_element_passes: find_security_header_ignores_non_wsse_security_element
  by code_simp

lemma find_security_header_ignores_element_containing_security_substring_passes: find_security_header_ignores_element_containing_security_substring
  by code_simp

lemma find_security_header_returns_first_valid_wsse_header_passes: find_security_header_returns_first_valid_wsse_header
  by code_simp

end
