(* ===== verification/HarnessTests.thy ===== *)
theory HarnessTests
  imports Verdict Snapshot Normalize TestDocs
begin

text \<open>
  The unit tests of the harness, run on the model: of \<open>layer2/verdict.rs\<close>, \<open>layer2/report.rs\<close>,
  \<open>snapshot.rs\<close> and \<open>normalize.rs\<close>.
\<close>

section \<open>Verdicts\<close>

definition resp_success :: "string \<Rightarrow> resp" where
  "resp_success body = \<lparr>rs_schema_valid = True, rs_is_success = True, rs_masked_body_canon = body\<rparr>"

definition resp_fault :: resp where
  "resp_fault = \<lparr>rs_schema_valid = True, rs_is_success = False, rs_masked_body_canon = []\<rparr>"

definition resp_invalid :: resp where
  "resp_invalid = \<lparr>rs_schema_valid = False, rs_is_success = False, rs_masked_body_canon = []\<rparr>"

fun is_sut_fail :: "verdict \<Rightarrow> bool" where
  "is_sut_fail (SutFail _) = True"
| "is_sut_fail _ = False"

fun is_reference_disagreement :: "verdict \<Rightarrow> bool" where
  "is_reference_disagreement (ReferenceDisagreement _) = True"
| "is_reference_disagreement _ = False"

definition oe_declared_success_both_success_equal_body_is_pass :: bool where
  "oe_declared_success_both_success_equal_body_is_pass \<longleftrightarrow>
     evaluate_outcome_equivalence True (resp_success ''<body>hi</body>'') (resp_success ''<body>hi</body>'') = Pass"

definition oe_declared_success_both_success_unequal_body_is_sut_fail :: bool where
  "oe_declared_success_both_success_unequal_body_is_sut_fail \<longleftrightarrow>
     is_sut_fail (evaluate_outcome_equivalence True (resp_success ''<body>A</body>'') (resp_success ''<body>B</body>''))"

definition oe_declared_success_our_fault_is_sut_fail_regardless_of_cxf :: bool where
  "oe_declared_success_our_fault_is_sut_fail_regardless_of_cxf \<longleftrightarrow>
     is_sut_fail (evaluate_outcome_equivalence True resp_fault (resp_success ''<body>hi</body>''))"

definition oe_declared_success_our_success_cxf_fault_is_reference_disagreement :: bool where
  "oe_declared_success_our_success_cxf_fault_is_reference_disagreement \<longleftrightarrow>
     is_reference_disagreement (evaluate_outcome_equivalence True (resp_success ''<body>hi</body>'') resp_fault)"

definition oe_declared_fault_both_fault_is_pass :: bool where
  "oe_declared_fault_both_fault_is_pass \<longleftrightarrow>
     evaluate_outcome_equivalence False resp_fault resp_fault = Pass"

definition oe_declared_fault_our_success_is_sut_fail :: bool where
  "oe_declared_fault_our_success_is_sut_fail \<longleftrightarrow>
     is_sut_fail (evaluate_outcome_equivalence False (resp_success ''<body>hi</body>'') resp_fault)"

definition oe_declared_fault_our_fault_cxf_success_is_reference_disagreement :: bool where
  "oe_declared_fault_our_fault_cxf_success_is_reference_disagreement \<longleftrightarrow>
     is_reference_disagreement (evaluate_outcome_equivalence False resp_fault (resp_success ''<body>hi</body>''))"

definition oe_our_schema_invalid_is_sut_fail :: bool where
  "oe_our_schema_invalid_is_sut_fail \<longleftrightarrow>
     is_sut_fail (evaluate_outcome_equivalence False resp_invalid resp_fault)"

definition oe_ref_schema_invalid_is_reference_disagreement :: bool where
  "oe_ref_schema_invalid_is_reference_disagreement \<longleftrightarrow>
     is_reference_disagreement (evaluate_outcome_equivalence False resp_fault resp_invalid)"

definition evaluated :: "string + bytes \<Rightarrow> string + bytes \<Rightarrow> string list \<Rightarrow> (verdict \<Rightarrow> bool) \<Rightarrow> bool" where
  "evaluated s r known k =
     present (evaluate \<lparr>ev_sut = s, ev_reference = r, ev_known_divergences = known\<rparr>) k"

definition verdict_pass_when_equal :: bool where
  "verdict_pass_when_equal \<longleftrightarrow>
     evaluated (Inr ''<foo/>'') (Inr ''<foo/>'') [] (\<lambda>v. v = Pass)"

definition verdict_sut_fail_when_our_side_invalid :: bool where
  "verdict_sut_fail_when_our_side_invalid \<longleftrightarrow>
     evaluated (Inl ''parse error: bad XML'') (Inr ''<foo/>'') [] is_sut_fail"

definition verdict_reference_disagreement_when_ref_invalid :: bool where
  "verdict_reference_disagreement_when_ref_invalid \<longleftrightarrow>
     evaluated (Inr ''<foo/>'') (Inl ''oracle rejected CXF output'') [] is_reference_disagreement"

definition verdict_known_divergence_when_differ_and_listed :: bool where
  "verdict_known_divergence_when_differ_and_listed \<longleftrightarrow>
     evaluated (Inr ''<foo>A</foo>'') (Inr ''<foo>B</foo>'') [''A'']
       (\<lambda>v. case v of KnownDivergence _ \<Rightarrow> True | _ \<Rightarrow> False)"

definition verdict_sut_fail_when_differ_without_known :: bool where
  "verdict_sut_fail_when_differ_without_known \<longleftrightarrow>
     evaluated (Inr ''<foo>A</foo>'') (Inr ''<foo>B</foo>'') [] is_sut_fail"

section \<open>Reports\<close>

definition report_of :: "(string \<times> verdict) list \<Rightarrow> report" where
  "report_of rows = \<lparr>rp_rows = rows, rp_unverified_remaining = 0\<rparr>"

definition reference_disagreement_counts_as_fail_and_is_not_green :: bool where
  "reference_disagreement_counts_as_fail_and_is_not_green \<longleftrightarrow>
     (let r = report_of [(''a'', Pass), (''b'', ReferenceDisagreement ''cxf differs''), (''c'', SutFail ''bad'')];
          passes = length (rp_rows r) - fail_count r
      in fail_count r = 2 \<and> \<not> is_green r \<and> passes + fail_count r = length (rp_rows r))"

definition all_pass_is_green_zero_fail :: bool where
  "all_pass_is_green_zero_fail \<longleftrightarrow>
     (let r = report_of [(''a'', Pass), (''b'', KnownDivergence ''ok'')] in fail_count r = 0 \<and> is_green r)"

section \<open>Snapshots\<close>

text \<open>
  An empty directory that refuses nothing, and a printer and parser of status tables, one
  line for each entry.
\<close>

definition tmp :: fs where
  "tmp = \<lparr>fs_files = (\<lambda>_. None), fs_dirs = {''/tmp''}, fs_refuses = (\<lambda>_. None)\<rparr>"

fun toml_lines :: "string list \<Rightarrow> string + btree_map" where
  "toml_lines [] = Inr []"
| "toml_lines (l # ls) =
     (if l = [] then toml_lines ls
      else case split_once CHR ''='' l of
        None \<Rightarrow> Inl ''expected an equals''
      | Some (k, v) \<Rightarrow> res_bind (toml_lines ls) (\<lambda>m. Inr ((k, v) # m)))"

definition line_toml :: toml_lib where
  "line_toml =
     \<lparr>from_toml = (\<lambda>s. toml_lines (split_char (CHR 0x0A) s)),
      to_toml = (\<lambda>m. Inr (concat (map (\<lambda>(k, v). k @ ''='' @ v @ [CHR 0x0A]) m)))\<rparr>"

definition store :: snapshot_store where
  "store = \<lparr>ss_dir = ''/tmp''\<rparr>"

text \<open>An action that must succeed, and what holds after it.\<close>

definition after :: "fs \<Rightarrow> (fs, string, unit) act \<Rightarrow> (fs \<Rightarrow> bool) \<Rightarrow> bool" where
  "after f m k = (case m f of (Inr _, f') \<Rightarrow> k f' | (Inl _, _) \<Rightarrow> False)"

definition writes_unverified_and_reads_back :: bool where
  "writes_unverified_and_reads_back \<longleftrightarrow>
     after tmp (write_unverified line_toml store ''op_x'' ''<normalized/>'') (\<lambda>f.
       read_snapshot store ''op_x'' f = Some ''<normalized/>'' \<and>
       snapshot_status line_toml store ''op_x'' f = Some Unverified)"

definition missing_snapshot_reads_none :: bool where
  "missing_snapshot_reads_none \<longleftrightarrow>
     read_snapshot store ''absent'' tmp = None"

definition counts_unverified :: bool where
  "counts_unverified \<longleftrightarrow>
     after tmp (write_unverified line_toml store ''a'' ''<a/>'') (\<lambda>f.
     after f (write_unverified line_toml store ''b'' ''<b/>'') (\<lambda>f.
       unverified_count line_toml store f = Inr 2))"

definition write_verified_flips_status_leaves_snapshot_bytes_intact :: bool where
  "write_verified_flips_status_leaves_snapshot_bytes_intact \<longleftrightarrow>
     after tmp (write_unverified line_toml store ''sc_a'' ''<original/>'') (\<lambda>f.
       snapshot_status line_toml store ''sc_a'' f = Some Unverified \<and>
       after f (write_verified line_toml store ''sc_a'') (\<lambda>f.
         snapshot_status line_toml store ''sc_a'' f = Some Verified \<and>
         read_snapshot store ''sc_a'' f = Some ''<original/>''))"

definition write_canonical_round_trip :: bool where
  "write_canonical_round_trip \<longleftrightarrow>
     (let bytes = ''<canonical>evidence</canonical>'' in
      after tmp (write_canonical store ''sc_b'' bytes) (\<lambda>f. read_canonical store ''sc_b'' f = Some bytes))"

definition write_verified_does_not_decrement_unverified_for_new_entry :: bool where
  "write_verified_does_not_decrement_unverified_for_new_entry \<longleftrightarrow>
     after tmp (write_verified line_toml store ''fresh'') (\<lambda>f.
       snapshot_status line_toml store ''fresh'' f = Some Verified \<and> unverified_count line_toml store f = Inr 0)"

section \<open>Normalisation\<close>

text \<open>
  Documents by their text: the tokeniser gives the events that are written as that text, and the
  reader with namespaces the same events with the scope of each. End tags resolve as their elements do.
\<close>

definition in_scope :: "(string \<times> string) list \<Rightarrow> bytes \<Rightarrow> resolved" where
  "in_scope scope k =
     (case split_once CHR '':'' k of
        None \<Rightarrow> Unbound
      | Some (p, _) \<Rightarrow> (case map_of scope p of Some u \<Rightarrow> Bound u | None \<Rightarrow> UnknownPrefix p))"

definition declared :: "(bytes \<times> bytes) list \<Rightarrow> (string \<times> string) list" where
  "declared as = List.map_filter (\<lambda>(k, v).
     if starts_with ''xmlns:'' k then Some (drop 6 k, v) else None) as"

fun scoped_items :: "(string \<times> string) list \<Rightarrow> xml \<Rightarrow> ns_item list" where
  "scoped_items sc (XElem res n as cs) =
     (let sc' = declared as @ sc in
      Inr (res, EvStart (tag_of n as), in_scope sc') #
      concat (map (scoped_items sc') cs) @ [Inr (res, EvEnd n, in_scope sc')])"
| "scoped_items sc (XEmpty res n as) = [Inr (res, EvEmpty (tag_of n as), in_scope (declared as @ sc))]"
| "scoped_items sc (XText t) = [Inr (Unbound, EvText t, in_scope sc)]"
| "scoped_items sc (XRef t) = [Inr (Unbound, EvGeneralRef t, in_scope sc)]"
| "scoped_items sc (XCData t) = [Inr (Unbound, EvCData t, in_scope sc)]"
| "scoped_items sc (XComment t) = [Inr (Unbound, EvComment t, in_scope sc)]"
| "scoped_items sc (XPI t) = [Inr (Unbound, EvPI t, in_scope sc)]"

definition doc_text :: "xml \<Rightarrow> bytes" where
  "doc_text x = events_text (List.map_filter (\<lambda>i. case i of Inr (_, ev) \<Rightarrow> Some ev | Inl _ \<Rightarrow> None) (events x))"

definition xml_scope :: "(string \<times> string) list" where
  "xml_scope = [(''xml'', XML_NS)]"

definition doc_ntok :: "xml \<Rightarrow> ns_tokenizer" where
  "doc_ntok x trim b = (if b = doc_text x then scoped_items xml_scope x else [Inl ''unknown document''])"

definition normalized :: "reader \<Rightarrow> mask_rule list \<Rightarrow> string + string" where
  "normalized doc masks = normalize_xml (\<lambda>_ _. doc) events_text ''bad attribute'' ''doc'' masks"

definition canonical_form :: "xml \<Rightarrow> string + bytes" where
  "canonical_form x = canonicalize_prefixes (doc_ntok x) ''bad attribute'' (doc_text x)"

definition masked_form :: "xml \<Rightarrow> mask_rule list \<Rightarrow> attr_mask_rule list \<Rightarrow> string + bytes" where
  "masked_form x tm am =
     mask_only (\<lambda>_ _. events x) (doc_ntok x) events_text ''bad attribute'' (doc_text x) tm am"

definition two_nonces :: xml where
  "two_nonces =
     XElem Unbound ''Envelope'' []
     [XElem Unbound ''Header'' []
      [XElem Unbound ''Nonce'' []
       [XText ''AAAA'']],
      XElem Unbound ''Body'' []
      [XElem Unbound ''Nonce'' []
       [XText ''keepme'']]]"

definition masks_only_the_path_scoped_element_text :: bool where
  "masks_only_the_path_scoped_element_text \<longleftrightarrow>
     unwrapped (normalized (events two_nonces) [mask_rule_new ''Envelope/Header/Nonce'']) (\<lambda>out.
       str_contains ''<Nonce>__MASKED__</Nonce>'' out \<and>
       str_contains ''<Nonce>keepme</Nonce>'' out)"

definition attrs_ba :: xml where
  "attrs_ba =
     XEmpty Unbound ''E'' [(''b'', ''2''), (''a'', ''1'')]"

definition attrs_ab :: xml where
  "attrs_ab =
     XEmpty Unbound ''E'' [(''a'', ''1''), (''b'', ''2'')]"

definition sorts_attributes_for_stable_output :: bool where
  "sorts_attributes_for_stable_output \<longleftrightarrow>
     unwrapped (normalized (events attrs_ba) []) (\<lambda>a.
     unwrapped (normalized (events attrs_ab) []) (\<lambda>b. a = b))"

definition malformed_xml_errors :: bool where
  "malformed_xml_errors \<longleftrightarrow>
     failed (normalized [Inr (Unbound, EvStart (Tag ''E'' [])), Inl ''expected </E>, but </WRONG> was found''] []) (\<lambda>_. True)"

definition escaped_attr :: xml where
  "escaped_attr = XEmpty Unbound ''E'' [(''a'', ''x &amp; y'')]"

definition attribute_values_are_not_double_escaped :: bool where
  "attribute_values_are_not_double_escaped \<longleftrightarrow>
     unwrapped (normalized (events escaped_attr) []) (\<lambda>out.
       str_contains ''x &amp; y'' out \<and> \<not> str_contains ''&amp;amp;'' out)"

definition spaced_text :: xml where
  "spaced_text =
     XElem Unbound ''E'' []
     [XText ''a '',
      XRef ''amp'',
      XText ('' b '' @ [CHR 0x27] @ ''c'' @ [CHR 0x27] @ '' d'')]"

definition preserves_significant_whitespace_around_entities :: bool where
  "preserves_significant_whitespace_around_entities \<longleftrightarrow>
     unwrapped (normalized (events spaced_text) []) (\<lambda>out.
       str_contains ''a &amp; b'' out \<and>
       str_contains ''b '' out \<and>
       str_contains '' d'' out)"

definition cdata_nonce :: xml where
  "cdata_nonce =
     XElem Unbound ''Envelope'' []
     [XElem Unbound ''Header'' []
      [XElem Unbound ''Nonce'' []
       [XCData ''AAAA'']]]"

definition masks_cdata_content_at_a_masked_path :: bool where
  "masks_cdata_content_at_a_masked_path \<longleftrightarrow>
     unwrapped (normalized (events cdata_nonce) [mask_rule_new ''Envelope/Header/Nonce'']) (\<lambda>out.
       str_contains ''__MASKED__'' out \<and> \<not> str_contains ''AAAA'' out)"

definition prefixed_foo :: xml where
  "prefixed_foo =
     XElem (Bound ''urn:u'') ''c:Foo'' [(''xmlns:c'', ''urn:u'')]
     [XElem (Bound ''urn:u'') ''c:Bar'' []
      [XText ''x'']]"

definition default_foo :: xml where
  "default_foo =
     XElem (Bound ''urn:u'') ''Foo'' [(''xmlns'', ''urn:u'')]
     [XElem (Bound ''urn:u'') ''Bar'' []
      [XText ''x'']]"

definition prefix_and_default_ns_collapse_to_same_output :: bool where
  "prefix_and_default_ns_collapse_to_same_output \<longleftrightarrow>
     unwrapped (canonical_form prefixed_foo) (\<lambda>a. unwrapped (canonical_form default_foo) (\<lambda>b. a = b))"

definition our_echo :: xml where
  "our_echo =
     XElem (Bound ''http://www.w3.org/2003/05/soap-envelope'') ''env:Envelope'' [(''xmlns:env'', ''http://www.w3.org/2003/05/soap-envelope'')]
     [XElem (Bound ''http://www.w3.org/2003/05/soap-envelope'') ''env:Body'' []
      [XElem (Bound ''http://crossref.example/controlled'') ''c:EchoResponse'' [(''xmlns:c'', ''http://crossref.example/controlled'')]
       [XElem (Bound ''http://crossref.example/controlled'') ''c:Text'' []
        [XText ''hello'']]]]"

definition cxf_echo :: xml where
  "cxf_echo =
     XElem (Bound ''http://www.w3.org/2003/05/soap-envelope'') ''soap:Envelope'' [(''xmlns:soap'', ''http://www.w3.org/2003/05/soap-envelope'')]
     [XElem (Bound ''http://www.w3.org/2003/05/soap-envelope'') ''soap:Body'' []
      [XElem (Bound ''http://crossref.example/controlled'') ''EchoResponse'' [(''xmlns'', ''http://crossref.example/controlled'')]
       [XElem (Bound ''http://crossref.example/controlled'') ''Text'' []
        [XText ''hello'']]]]"

definition the_two_real_echo_responses_collapse_equal :: bool where
  "the_two_real_echo_responses_collapse_equal \<longleftrightarrow>
     unwrapped (canonical_form our_echo) (\<lambda>a. unwrapped (canonical_form cxf_echo) (\<lambda>b. a = b))"

definition two_namespaces :: xml where
  "two_namespaces =
     XElem (Bound ''urn:one'') ''a:X'' [(''xmlns:a'', ''urn:one''), (''xmlns:b'', ''urn:two'')]
     [XEmpty (Bound ''urn:two'') ''b:Y'' []]"

definition distinct_namespaces_get_distinct_prefixes :: bool where
  "distinct_namespaces_get_distinct_prefixes \<longleftrightarrow>
     unwrapped (canonical_form two_namespaces) (\<lambda>out. present (from_utf8 out) (\<lambda>text.
       str_contains ''urn:one'' text \<and> str_contains ''urn:two'' text))"

definition with_lang :: xml where
  "with_lang =
     XEmpty (Bound ''urn:u'') ''a:X'' [(''xmlns:a'', ''urn:u''), (''xml:lang'', ''en'')]"

definition xml_lang_keeps_xml_prefix :: bool where
  "xml_lang_keeps_xml_prefix \<longleftrightarrow>
     unwrapped (canonical_form with_lang) (\<lambda>out. present (from_utf8 out) (\<lambda>text.
       str_contains (''xml:lang='' @ [CHR 0x22] @ ''en'' @ [CHR 0x22]) text))"

definition two_echo_responses_mask_only_equal :: bool where
  "two_echo_responses_mask_only_equal \<longleftrightarrow>
     unwrapped (masked_form our_echo [] []) (\<lambda>a. unwrapped (masked_form cxf_echo [] []) (\<lambda>b. a = b))"

definition reason_lang :: xml where
  "reason_lang =
     XElem Unbound ''Envelope'' []
     [XElem Unbound ''Body'' []
      [XElem Unbound ''Fault'' []
       [XElem Unbound ''Reason'' []
        [XElem Unbound ''Text'' [(''xml:lang'', ''en-US'')]
         [XText ''boom'']]]]]"

text \<open>The document that is left when the attribute is dropped, for the second reader.\<close>

definition reason_plain :: xml where
  "reason_plain =
     XElem Unbound ''Envelope'' []
     [XElem Unbound ''Body'' []
      [XElem Unbound ''Fault'' []
       [XElem Unbound ''Reason'' []
        [XElem Unbound ''Text'' []
         [XText ''boom'']]]]]"

definition attr_mask_drops_named_attr_at_path :: bool where
  "attr_mask_drops_named_attr_at_path \<longleftrightarrow>
     unwrapped (mask_only (\<lambda>_ _. events reason_lang) (doc_ntok reason_plain) events_text ''bad attribute''
         (doc_text reason_lang) [] [attr_mask_rule_new ''Envelope/Body/Fault/Reason/Text'' ''xml:lang'']) (\<lambda>out.
     present (from_utf8 out) (\<lambda>text. \<not> str_contains ''xml:lang'' text))"

section \<open>The tests pass\<close>

lemma oe_declared_success_both_success_equal_body_is_pass_passes: oe_declared_success_both_success_equal_body_is_pass
  by code_simp

lemma oe_declared_success_both_success_unequal_body_is_sut_fail_passes: oe_declared_success_both_success_unequal_body_is_sut_fail
  by code_simp

lemma oe_declared_success_our_fault_is_sut_fail_regardless_of_cxf_passes: oe_declared_success_our_fault_is_sut_fail_regardless_of_cxf
  by code_simp

lemma oe_declared_success_our_success_cxf_fault_is_reference_disagreement_passes: oe_declared_success_our_success_cxf_fault_is_reference_disagreement
  by code_simp

lemma oe_declared_fault_both_fault_is_pass_passes: oe_declared_fault_both_fault_is_pass
  by code_simp

lemma oe_declared_fault_our_success_is_sut_fail_passes: oe_declared_fault_our_success_is_sut_fail
  by code_simp

lemma oe_declared_fault_our_fault_cxf_success_is_reference_disagreement_passes: oe_declared_fault_our_fault_cxf_success_is_reference_disagreement
  by code_simp

lemma oe_our_schema_invalid_is_sut_fail_passes: oe_our_schema_invalid_is_sut_fail
  by code_simp

lemma oe_ref_schema_invalid_is_reference_disagreement_passes: oe_ref_schema_invalid_is_reference_disagreement
  by code_simp

lemma verdict_pass_when_equal_passes: verdict_pass_when_equal
  by code_simp

lemma verdict_sut_fail_when_our_side_invalid_passes: verdict_sut_fail_when_our_side_invalid
  by code_simp

lemma verdict_reference_disagreement_when_ref_invalid_passes: verdict_reference_disagreement_when_ref_invalid
  by code_simp

lemma verdict_known_divergence_when_differ_and_listed_passes: verdict_known_divergence_when_differ_and_listed
  by code_simp

lemma verdict_sut_fail_when_differ_without_known_passes: verdict_sut_fail_when_differ_without_known
  by code_simp

lemma reference_disagreement_counts_as_fail_and_is_not_green_passes: reference_disagreement_counts_as_fail_and_is_not_green
  by code_simp

lemma all_pass_is_green_zero_fail_passes: all_pass_is_green_zero_fail
  by code_simp

lemma writes_unverified_and_reads_back_passes: writes_unverified_and_reads_back
  by code_simp

lemma missing_snapshot_reads_none_passes: missing_snapshot_reads_none
  by code_simp

lemma counts_unverified_passes: counts_unverified
  by code_simp

lemma write_verified_flips_status_leaves_snapshot_bytes_intact_passes: write_verified_flips_status_leaves_snapshot_bytes_intact
  by code_simp

lemma write_canonical_round_trip_passes: write_canonical_round_trip
  by code_simp

lemma write_verified_does_not_decrement_unverified_for_new_entry_passes: write_verified_does_not_decrement_unverified_for_new_entry
  by code_simp

lemma masks_only_the_path_scoped_element_text_passes: masks_only_the_path_scoped_element_text
  by code_simp

lemma sorts_attributes_for_stable_output_passes: sorts_attributes_for_stable_output
  by code_simp

lemma malformed_xml_errors_passes: malformed_xml_errors
  by code_simp

lemma attribute_values_are_not_double_escaped_passes: attribute_values_are_not_double_escaped
  by code_simp

lemma preserves_significant_whitespace_around_entities_passes: preserves_significant_whitespace_around_entities
  by code_simp

lemma masks_cdata_content_at_a_masked_path_passes: masks_cdata_content_at_a_masked_path
  by code_simp

lemma prefix_and_default_ns_collapse_to_same_output_passes: prefix_and_default_ns_collapse_to_same_output
  by code_simp

lemma the_two_real_echo_responses_collapse_equal_passes: the_two_real_echo_responses_collapse_equal
  by code_simp

lemma distinct_namespaces_get_distinct_prefixes_passes: distinct_namespaces_get_distinct_prefixes
  by code_simp

lemma xml_lang_keeps_xml_prefix_passes: xml_lang_keeps_xml_prefix
  by code_simp

lemma two_echo_responses_mask_only_equal_passes: two_echo_responses_mask_only_equal
  by code_simp

lemma attr_mask_drops_named_attr_at_path_passes: attr_mask_drops_named_attr_at_path
  by code_simp

end
