(* ===== verification/Spec2Isabelle.thy ===== *)
theory Spec2Isabelle
  imports WsdlReturns TokenDoc Concurrent ServiceWsdl WsdlPrint XsdPrint Canonical Interop FaultDoc Layer1 SimpleService
    BasicTests TokenTests DataTests ValidationTests EnvelopeTests ServerTests HarnessTests
begin

text \<open>
  A model of the soap-server crate (\<open>src/src\<close>), a SOAP 1.1 and 1.2 server, and of its test
  harness \<open>crossref\<close> (\<open>src/crossref/src\<close>). A builder reads a WSDL and its schemas, checks the
  registered handlers against it and makes a service; the service answers POST requests and
  serves the WSDL. The harness sends scenarios to a service and to a reference implementation,
  has an XML oracle judge both answers, compares their canonical forms and records the
  evidence. This theory is the root: it holds the property that spans the whole way from the
  builder to a request. The other theories follow the modules of the two crates.

  \<^bold>\<open>Theories and sources.\<close>
  \<^item> \<open>Prelude\<close>: results (\<open>'e + 'a\<close>, \<open>Inl\<close> the error) with \<open>res_bind\<close>, \<open>map_err\<close>, \<open>ok_or\<close> and
    fallible loops; hash maps as association lists with their laws, stated as the locale
    \<open>map_store\<close>. \<open>RustStr\<close>: bytes and strings of the standard library (UTF-8 validation and its
    error text, \<open>split_once\<close>, \<open>trim_matches\<close>, \<open>split_whitespace\<close>, \<open>parse::<u64>\<close>).
  \<^item> \<open>QName\<close> (\<open>qname.rs\<close>), \<open>Fault\<close> (\<open>fault.rs\<close>, \<open>xml_escape.rs\<close>), \<open>Handler\<close> (\<open>handler.rs\<close>).
  \<^item> \<open>XmlModel\<close>: the events of the streaming XML reader and the nodes of the tree reader.
    \<open>XmlDoc\<close>: element trees and the events they are read as. \<open>XmlWrite\<close>: names, numbers, lists and
    tables written as elements, with what reading them gives.
  \<^item> \<open>XsdTypes\<close> (\<open>xsd/types.rs\<close>, \<open>xsd/elements.rs\<close>), \<open>XsdParser\<close> (\<open>xsd/parser.rs\<close>),
    \<open>XsdResolver\<close> (\<open>xsd/resolver.rs\<close>), \<open>XsdSemantics\<close>, the specification of type resolution, and
    \<open>XsdTyping\<close>, what resolution leaves in a registered type. \<open>XsdPrint\<close> writes a schema as
    a document, the specification of its parser.
  \<^item> \<open>WsdlDefs\<close> (\<open>wsdl/definitions.rs\<close>), \<open>WsdlParser\<close> (\<open>wsdl/parser.rs\<close>), \<open>WsdlResolver\<close>
    (\<open>wsdl/resolver.rs\<close>: imports, inline schemas, rewriting of addresses); \<open>WsdlReturns\<close>: when the
    resolution of a WSDL with its schemas returns. \<open>WsdlPrint\<close> writes a definition as a document, the
    specification of its parser.
  \<^item> \<open>NonceCache\<close> (\<open>wssec/nonce_cache.rs\<close>), \<open>UsernameToken\<close> (\<open>wssec/timestamp.rs\<close>,
    \<open>wssec/username_token.rs\<close>) and \<open>TokenDoc\<close>, what is read of a security header as a tree.
  \<^item> \<open>Envelope\<close> (\<open>envelope.rs\<close>), \<open>Dispatch\<close> (\<open>dispatch.rs\<close>), \<open>Server\<close> (\<open>server.rs\<close>) and
    \<open>Concurrent\<close>, its POST handler in atomic steps; \<open>Built\<close>, the services that a builder makes, and
    \<open>ServiceWsdl\<close>, their routes and the WSDL that each of them serves. \<open>FaultDoc\<close> holds the
    documents of the fault answers (\<open>fault.rs\<close>, \<open>server.rs\<close>) and what a reader finds in them.
  \<^item> The harness, in \<open>crossref/src\<close>: \<open>Effects\<close>, functions that act on the outside and return early;
    \<open>Normalize\<close> (\<open>normalize.rs\<close>, \<open>mask_rules.rs\<close>) with its properties in \<open>Masking\<close> and \<open>Canonical\<close>;
    \<open>Verdict\<close> (\<open>layer2/verdict.rs\<close>, \<open>layer2/report.rs\<close>); \<open>Snapshot\<close> (\<open>snapshot.rs\<close>,
    \<open>layer2/promote.rs\<close>); \<open>HarnessChecks\<close> (\<open>scenario.rs\<close> and the checks of \<open>layer2/mod.rs\<close>) with
    \<open>HarnessProps\<close>; \<open>Layer2\<close> (the run of \<open>layer2/mod.rs\<close>, \<open>oracle.rs\<close>) with \<open>Layer2Props\<close>; \<open>Compose\<close>
    (\<open>layer2/compose.rs\<close>); \<open>Interop\<close> (\<open>layer2/interop.rs\<close>, \<open>bin/layer2.rs\<close>); \<open>Controlled\<close>
    (\<open>handlers.rs\<close>, \<open>sut.rs\<close>, \<open>bin/controlled_server.rs\<close>) and \<open>Sut\<close>, the in-process client of
    \<open>sut.rs\<close>, with \<open>Layer1\<close>, the regression run over it (\<open>crossref/tests/layer1_replay.rs\<close>).
  \<^item> \<open>SimpleService\<close>: the example (\<open>examples/simple_service.rs\<close>).
  \<^item> The unit tests of the two crates, run on the model, in theories whose names end in \<open>Tests\<close>: \<open>TestDocs\<close>
    has the words for their documents, \<open>BasicTests\<close> those of names, escaping, faults and handlers,
    \<open>NonceTests\<close> and \<open>TokenTests\<close> those of \<open>wssec\<close>, \<open>DataTests\<close>, \<open>XsdTests\<close> and \<open>XsdResolverTests\<close> those of \<open>xsd\<close>,
    \<open>WsdlTests\<close> and \<open>ResolverTests\<close> those of \<open>wsdl\<close>, \<open>DispatchTests\<close> and \<open>ValidationTests\<close>, \<open>EnvelopeTests\<close> and
    \<open>ServerTests\<close> those of the modules they name, \<open>HarnessTests\<close> those of verdicts, reports, snapshots and
    normalisation.

  \<^bold>\<open>How the parts interact.\<close> \<open>build\<close> loads the WSDL, \<open>resolve_wsdl\<close> parses it, follows its imports
  and resolves its inline schemas into a type registry, and \<open>build_tables\<close> makes the dispatch
  table, or one table per service when there are several. \<open>into_router\<close> mounts the routes. A POST
  is \<open>soap_post_handler\<close>: \<open>open_request\<close> reads the version, the envelope and the name of the body
  and routes it; \<open>authenticate\<close> checks the token of the Security header against the nonce cache;
  \<open>invoke\<close> validates the body, calls the handler and writes the response envelope. The state
  that a POST changes is the nonce cache and the state of the application, on which handlers
  are state transformers; both are passed explicitly. A sequence of POSTs is the inductive
  relation \<open>run_posts\<close>; POSTs that overlap are the steps \<open>post_step\<close> of \<open>Concurrent\<close>, which interleave
  in any order, with \<open>soap_post_handler\<close> as one of the schedules. A run of the harness is \<open>layer2_main\<close>: \<open>topology_up\<close> starts the containers
  and \<open>wait_healthy\<close> waits for them, \<open>run_conformance\<close> takes every selected scenario to its verdict
  and \<open>run_interop\<close> does so for the client containers; a pass may \<open>promote\<close> the scenario in the
  snapshot store, and \<open>is_green\<close> of the report decides the exit code. Its state is the \<open>world\<close>: the
  files and whatever is behind the network. The services it runs against are those of
  \<open>Controlled\<close>, built with the builder of \<open>Server\<close>.

  \<^bold>\<open>Parameters.\<close> The crates below are arguments of the definitions that call them, gathered in
  \<open>wss_lib\<close> and \<open>server_lib\<close>: the quick-xml tokeniser (from bytes to a list of results and
  events, with and without text trimming), its writer and its escape function, roxmltree, base64,
  SHA-1, RFC 3339 parsing, the range of a duration, reading a file, lower-casing. What a
  property needs of one of them is a named hypothesis (\<open>escapes_markup\<close>, \<open>seconds_ok\<close>, or what
  the tokeniser gives on the bytes in question) and its witness instantiates it. The two clocks
  are arguments too: \<open>now\<close> for the wall clock, \<open>inst\<close> for the monotonic one, in nanoseconds. The
  harness adds \<open>harness_lib\<close> (sending a request, TOML, JSON, the reader with namespaces),
  \<open>toml_lib\<close> with the contract \<open>toml_ok\<close> (what is printed reads back), and \<open>docker_lib\<close> (running a
  command, the clock, sleeping) with the contract \<open>clock_ok\<close> (sleeping takes its time and the clock
  does not go back). What axum does with a request before it reaches a route is the parameter of
  \<open>replay\<close> with the contract \<open>axum_ok\<close>. The file system of \<open>Snapshot\<close> is a model of what \<open>std::fs\<close> does: files by path,
  directories, and paths that cannot be written.

  \<^bold>\<open>Termination.\<close> Every loop of the source is a function. Structural ones and those with a
  measure (the length of the remaining events, the types not yet resolved) are total. Six may
  run for ever and are \<open>partial_function (option)\<close>, with \<open>None\<close> for not returning: the rotation of
  the nonce cache, the loading of imported schemas, the expansion of group references and of attribute group
  references, the imports of a WSDL, and the wait for the containers. No fuel is used. That they
  return is proved: \<open>check_returns_iff\<close>, \<open>resolve_flat_succeeds_iff\<close>, \<open>resolve_wsdl_returns\<close> and
  \<open>wait_healthy_ends\<close>; that group references may diverge is \<open>self_referential_group_diverges\<close>.

  \<^bold>\<open>What the lemmas show.\<close> \<open>NonceCache\<close> brings the rotation loop into closed form and derives
  from it what a check refuses, how long a nonce is remembered and how large the cache grows;
  the contract of a replay guard is a locale. \<open>XsdSemantics\<close> defines by rules what a type
  expands to and proves the memoising resolver sound, its cycle errors exact and its result
  total when group references are ranked. \<open>Envelope\<close> gives the streaming parser its reading on
  trees, and on it the properties of the fragments handed on. \<open>Dispatch\<close> keeps an invariant of
  the table under construction, and reads the validation on trees. \<open>Server\<close> has the three ways
  a POST ends, from which the safety of the handlers and the refusal of replays follow, for
  tokens that carry a nonce and up to the capacity of the cache; \<open>Concurrent\<close> shows that the refusal
  survives every interleaving. Some
  properties record what the code does and should not: they are stated as it behaves.
  \<open>TokenDoc\<close> follows the one map of prefixes that the token parser keeps, and shows that on headers
  where a prefix stands for one URI it reads a token by its expanded names, wherever it stands.
  \<open>WsdlResolver\<close> says that the definitions of a resolved WSDL are those of its documents together,
  the root's first; \<open>WsdlReturns\<close> that its three loops end: over imported documents and imported schemas
  because a location is loaded once, over groups where the schemas that the documents hold have none that
  refers to itself. \<open>XsdTyping\<close> shows that the content of a registered type is no derivation and holds
  no references, the anonymous types inside its elements apart, and carries the range of every
  count from the parser through the resolver.
  \<open>WsdlPrint\<close> and \<open>XsdPrint\<close> say what the two document parsers read: everything that a definition
  or a schema can hold, by a document for each from which exactly that is read. What each loop of
  the parsers files is the locale \<open>table_field\<close> of \<open>XmlWrite\<close>, interpreted on every table.
  \<open>ServiceWsdl\<close> gives the two passes of the rewriting for one service their reading on trees,
  and with it what each route of a service with several services answers. \<open>FaultDoc\<close> gives the fault
  answers their trees: every POST that is not a success is answered with one, in the version that
  was spoken, and reading it gives the fault and its code.

  For the harness, \<open>Masking\<close> reads the masking passes on trees: what is hidden, what is kept, what is
  cut out. \<open>Canonical\<close> defines the information of a document without its prefixes and proves that
  the canonical bytes depend on it alone. \<open>Snapshot\<close> refines the store to three tables and keeps
  the invariant that verified scenarios have evidence. \<open>HarnessProps\<close> shows that the checks find
  what they look for, among it that a WSDL rewritten by the server passes. \<open>Layer2Props\<close> bounds the
  effect of a run on the store (\<open>confined\<close> steps cannot touch files) and says what a pass
  implies; \<open>Interop\<close> takes that to the exit code. \<open>Controlled\<close> has the echo handler return what it
  was sent, and \<open>Sut\<close> takes that through the whole server: built from a WSDL, routed, validated,
  handled, wrapped in an envelope and read back by the client. \<open>Layer1\<close> reduces a scenario to the text
  of its answer, shows that this does not depend on the clocks when the service has no credentials,
  and that a run which captures leaves files on which a run that asserts passes.

  The theories of tests tie the model to the code from the other side: each unit test is a
  definition with its name, the conjunction of its assertions on the model's functions, and
  is proved by evaluation. Their documents are the trees or events that the readers give for the
  text of the test, with its white space, except where a test is about a reader that trims.

  \<^bold>\<open>Simplifications.\<close> A hash map is an association list, so its iteration order is that of the list
  where Rust's is arbitrary; no property depends on which order it is, except that the
  later of two services that share a path is the later of the list. Depth counters (\<open>i32\<close>, \<open>u32\<close>)
  are unbounded: they count open elements of a document, which the body limit bounds far below
  their range. An \<open>i64\<close> number of seconds is an integer and the panic of an out-of-range
  duration is the outcome \<open>Aborted\<close>. A lock around the nonce cache makes each check atomic.
  \<open>run_posts\<close> runs whole POSTs one after the other; in \<open>post_step\<close> the check of a token and the
  validation and handling of a body are atomic, and handlers that wait in the middle are one step.

  \<^bold>\<open>Not modelled.\<close> axum, tokio and HTTP (request parsing, the body limit beyond the number that is
  set, matching of routes), \<open>Debug\<close> implementations, the re-exports of \<open>lib.rs\<close>, the listener of the
  example, the integration tests of the crate and the test \<open>wssec_replay\<close> (fixed bytes whose digest needs
  SHA-1; what it tests is \<open>replayed_post_is_refused\<close>), the unit tests of \<open>scenario.rs\<close>, \<open>oracle.rs\<close> and \<open>sut.rs\<close> (TOML text, sockets), a few that
  only apply a constructor, and what a test does with the XML reader itself;
  of the harness the listener of \<open>controlled_server.rs\<close>, what is printed beyond the numbers of a report, and lines that only log.
\<close>

section \<open>From the builder to a request\<close>

lemma invoke_runs_handler:
  "invoke lib svc envelope entry s = (r, s') \<Longrightarrow> s' \<noteq> s \<or> status r = 200 \<Longrightarrow>
   s' = snd (handle_with_headers (handler entry) (body_element envelope) (header_children envelope) s)"
  by (auto simp: invoke_def Let_def split: sum.splits prod.splits)

text \<open>
  C1. Nothing in front of the operations can be bypassed. Take any service that a builder with
  credentials makes of a WSDL, and any route that is mounted for it: when a POST there changes
  the application or is answered with success, what ran was the handler the builder has for an
  operation of that WSDL, once, on the fragments of the parsed envelope, and, unless the
  builder exempts the operation, a token in a Security header of that envelope was accepted.
\<close>

theorem built_service_protects_operations:
  assumes "load_wsdl lib b = Inr (bytes, file)"
    and "resolve_wsdl (sl_rox lib) (select_loader lib b file) bytes {} = Some (Inr (rw, vis))"
    and "build lib inst0 b = Some (Inr svc)" and "sb_auth_fn b = Some auth"
    and "(p, ep) \<in> set (routes (into_router svc))"
    and "post_endpoint lib svc ep h body now inst (cache, s) = Some (out, cache', s')"
    and "s' \<noteq> s \<or> answered_ok out"
  shows "\<exists>envelope scope op hd. parse_envelope (sl_tok lib) body = Inr envelope \<and>
    op \<in> set (collect_ops_for_service scope rw) \<and>
    (hm_get (sb_handlers b) (fst op) = Some hd \<or> sb_default_handler b = Some hd) \<and>
    s' = snd (handle_with_headers hd (body_element envelope) (header_children envelope) s) \<and>
    (fst op \<notin> sb_auth_bypass b \<longrightarrow> (\<exists>security user.
       find_security_header (sl_tok lib) (header_children envelope) = Some security \<and>
       validate_username_token (sl_wss lib) security auth cache (sb_timestamp_tolerance_secs b) now inst =
         Some (Inr user, cache')))"
proof -
  let ?svc = "svc\<lparr>svc_dispatch_table := endpoint_table svc ep\<rparr>"
  have svc: "svc_auth_fn ?svc = Some auth" "svc_timestamp_tolerance_secs ?svc = sb_timestamp_tolerance_secs b"
    using assms(1-4) by (auto simp: build_def res_simps)
  from assms(6) have "soap_post_handler lib ?svc h body now inst (cache, s) = Some (out, cache', s')"
    by (simp add: post_endpoint_eq)
  then show ?thesis
  proof (cases rule: soap_post_cases)
    case (early r)
    with assms(7) open_request_Inl [OF early(1)] show ?thesis by (simp add: answered_ok_def)
  next
    case (refused envelope entry)
    with assms(7) authenticate_refuses [OF refused(2)] show ?thesis by simp
  next
    case (invoked envelope entry r)
    then obtain q where "route (endpoint_table svc ep) q (request_soap_action h) = Inr entry"
      by (auto simp: open_request_def res_simps)
    from routed_by_builder [OF mounted_table [OF assms(1-3,5)] this] obtain scope op where
      op: "op \<in> set (collect_ops_for_service scope rw)"
        "hm_get (sb_handlers b) (fst op) = Some (handler entry) \<or> sb_default_handler b = Some (handler entry)"
        "auth_required entry \<longleftrightarrow> fst op \<notin> sb_auth_bypass b" .
    have "s' \<noteq> s \<or> status r = 200" using assms(7) invoked(4) by (simp add: answered_ok_def)
    from invoke_runs_handler [OF invoked(3) this] op open_request_parsed [OF invoked(1)]
      authenticate_Ok [OF invoked(2) _ svc(1)] svc(2)
    show ?thesis by metis
  qed
qed

text \<open>The sample service, from its WSDL.\<close>

definition echo_builder :: "nat server_builder" where
  "echo_builder = with_auth sample_passwords (with_handler ''Echo'' demo_handler (from_wsdl_bytes ''w''))"

definition echo_built :: "nat soap_service" where
  "echo_built = echo_service\<lparr>svc_nonce_cache := nonce_cache_new 0 150, svc_wsdl_raw := ''w''\<rparr>"

lemma echo_builder_fields:
  "sb_wsdl_bytes echo_builder = Some ''w''" "sb_handlers echo_builder = echo_handlers"
  "sb_auth_fn echo_builder = Some sample_passwords" "sb_auth_bypass echo_builder = {}"
  "sb_default_handler echo_builder = None" "sb_mount_path echo_builder = ''/soap''"
  "sb_timestamp_tolerance_secs echo_builder = 300" "sb_nonce_cache_half_window_secs echo_builder = 150"
  "sb_max_body_bytes echo_builder = DEFAULT_MAX_BODY_BYTES"
  by (simp_all add: echo_builder_def with_auth_def with_handler_def from_wsdl_bytes_def builder_new_def
      echo_handlers_def hm_insert_def DEFAULT_TIMESTAMP_TOLERANCE_SECS_def
      DEFAULT_NONCE_CACHE_HALF_WINDOW_SECS_def)

lemma echo_wsdl_parses:
  "parse_wsdl echo_rox ''w'' = Inr ((empty_definition ''urn:e'')\<lparr>bindings := [(''B'', sample_binding)]\<rparr>)"
  by (simp add: parse_wsdl_def echo_rox_def from_utf8_def utf8_valid_ascii is_ascii_def byte_def
      node_attribute_def element_children_def parse_wsdl_child_def node_ns_or_empty_def required_attr_def
      parse_binding_def parse_binding_child_def parse_soap_binding_def parse_binding_style_def
      parse_binding_operation_def soap_binding_ns_def parse_binding_message_def default_binding_message_def
      WSDL_NS_def SOAP11_BINDING_NS_def SOAP12_BINDING_NS_def resolve_qname_str_def lookup_namespace_uri_def
      empty_definition_def hm_insert_def sample_binding_def sample_message_def)

lemma echo_resolves:
  "resolve_wsdl (sl_rox echo_lib) loader ''w'' {} = Some (Inr (sample_resolved, {}))"
  by (simp add: echo_lib_def resolve_wsdl_def resolve_wsdl_inner_def resolve_imports.simps [of _ _ _ "[]"]
      echo_wsdl_parses empty_definition_def resolve_start_def snapshot_registry_def sample_resolved_def)

lemma echo_load: "load_wsdl echo_lib echo_builder = Inr (''w'', None)"
  by (simp add: load_wsdl_def echo_builder_fields)

lemma echo_builds: "build echo_lib 0 echo_builder = Some (Inr echo_built)"
proof -
  have "build_tables echo_lib echo_builder sample_resolved = Inr (echo_table, [], [])"
    by (simp add: build_tables_def echo_builder_fields echo_build)
      (simp add: sample_resolved_def empty_definition_def)
  moreover have "rw_type_registry sample_resolved = registry_new"
    by (simp add: sample_resolved_def)
  ultimately show ?thesis
    by (simp add: build_def echo_load echo_resolves echo_builder_fields echo_built_def echo_service_def)
qed

lemma echo_built_post:
  "post_endpoint echo_lib echo_built SingleEndpoint soap12_headers ''req'' 5 5 (sample_cache, 0) =
     Some (Respond echo_response, sample_cache\<lparr>current := {''abc''}\<rparr>, 0)"
proof -
  have sel: "svc_auth_fn echo_built = svc_auth_fn echo_service"
    "svc_timestamp_tolerance_secs echo_built = svc_timestamp_tolerance_secs echo_service"
    "svc_type_registry echo_built = svc_type_registry echo_service"
    "svc_dispatch_table echo_built = svc_dispatch_table echo_service"
    by (simp_all add: echo_built_def)
  have "authenticate echo_lib echo_built = authenticate echo_lib echo_service"
    by (intro ext, unfold authenticate_def sel, rule refl)
  moreover have "invoke echo_lib echo_built = invoke echo_lib echo_service"
    by (intro ext, unfold invoke_def sel, rule refl)
  ultimately have "soap_post_handler echo_lib echo_built = soap_post_handler echo_lib echo_service"
    by (intro ext, unfold soap_post_handler_def sel) (rule refl | simp only:)+
  then show ?thesis by (simp add: echo_post)
qed

lemma built_service_protects_operations_witness:
  "\<exists>security user. find_security_header (sl_tok echo_lib) (header_children echo_envelope) = Some security \<and>
     validate_username_token (sl_wss echo_lib) security sample_passwords sample_cache 300 5 5 =
       Some (Inr user, sample_cache\<lparr>current := {''abc''}\<rparr>)"
proof -
  have "(''/soap'', SingleEndpoint) \<in> set (routes (into_router echo_built))"
    by (simp add: into_router_def echo_built_def echo_service_def)
  moreover have "answered_ok (Respond echo_response)" by (simp add: answered_ok_def echo_response_def)
  ultimately show ?thesis
    using built_service_protects_operations [OF echo_load echo_resolves echo_builds echo_builder_fields(3) _ echo_built_post]
    by (auto simp: echo_parse echo_builder_fields)
qed

end
